(* ===== verification/Kelvin_Prelude.thy ===== *)
theory Kelvin_Prelude
  imports Main "HOL-Library.Char_ord" "HOL-Library.List_Lexorder"
begin

section \<open>Prelude: errors, Rust strings, machine arithmetic, effects, reachability\<close>

text \<open>
  What every component shares.

  \<^item> \<^bold>\<open>Errors.\<close> \<open>kelvin_error\<close> is the enum of \<open>kelvin-core/src/error.rs\<close>; a
    \<open>KelvinResult<T>\<close> is the sum \<open>kelvin_error + 't\<close>, with \<open>Inl\<close> for \<open>Err\<close>.
  \<^item> \<^bold>\<open>Strings.\<close> A Rust \<open>char\<close> is HOL's \<open>char\<close>, that is, the code points U+0000 to
    U+00FF, and a \<open>str\<close> is a list of them. On that range \<open>char::is_whitespace\<close>,
    \<open>char::is_control\<close> and the byte length of the UTF-8 encoding are written out
    exactly (one byte below U+0080, two bytes above), so \<open>len()\<close> and
    \<open>chars().count()\<close> differ in the model where they differ in the code, and the byte
    order of \<open>str\<close> is the lexicographic order of the code points.
  \<^item> \<^bold>\<open>Integers.\<close> \<open>u64\<close> and \<open>u128\<close> values are naturals; the saturating operations
    the code uses are written with their bounds.
  \<^item> \<^bold>\<open>Effects.\<close> Code that mutates \<open>self\<close> and may return early with an error is a
    function from a state to a result and a state; \<open>bindE\<close> is the \<open>?\<close> operator, which
    keeps the mutations made before the error. \<open>keeps I m\<close> says that \<open>m\<close> maintains an
    invariant whatever it returns.
  \<^item> \<^bold>\<open>Transition systems.\<close> \<open>reach\<close> is reachability from the initial states, and the
    locale \<open>invariant_system\<close> lifts a one-step invariant to the reachable states.
\<close>

named_theorems rust_str \<open>facts on the string functions of the Rust standard library\<close>
named_theorems keeps_rules \<open>rules for invariants of effectful operations\<close>

subsection \<open>Errors\<close>

datatype kelvin_error =
    InvalidInput string
  | NotFound string
  | Timeout string
  | Backend string
  | Io string

type_synonym 'a kelvin_result = "kelvin_error + 'a"

fun show_error :: "kelvin_error \<Rightarrow> string" where
  "show_error (InvalidInput m) = ''invalid input: '' @ m"
| "show_error (NotFound m) = ''not found: '' @ m"
| "show_error (Timeout m) = ''timeout: '' @ m"
| "show_error (Backend m) = ''backend failure: '' @ m"
| "show_error (Io m) = ''io failure: '' @ m"

definition bindR :: "'a kelvin_result \<Rightarrow> ('a \<Rightarrow> 'b kelvin_result) \<Rightarrow> 'b kelvin_result" where
  "bindR r k = (case r of Inl e \<Rightarrow> Inl e | Inr x \<Rightarrow> k x)"

lemma bindR_simps [simp]:
  "bindR (Inl e) k = Inl e"
  "bindR (Inr x) k = k x"
  by (simp_all add: bindR_def)

lemma bindR_Inr_iff [simp]: "bindR r k = Inr y \<longleftrightarrow> (\<exists>x. r = Inr x \<and> k x = Inr y)"
  by (cases r) auto

lemma bindR_Inl_iff: "bindR r k = Inl e \<longleftrightarrow> r = Inl e \<or> (\<exists>x. r = Inr x \<and> k x = Inl e)"
  by (cases r) auto

text \<open>\<open>first_error\<close> runs a list of checks, each joined to the next by \<open>?\<close>.\<close>

fun first_error :: "unit kelvin_result list \<Rightarrow> unit kelvin_result" where
  "first_error [] = Inr ()"
| "first_error (r # rs) = bindR r (\<lambda>_. first_error rs)"

lemma first_error_Inr_iff: "first_error rs = Inr () \<longleftrightarrow> (\<forall>r\<in>set rs. r = Inr ())"
  by (induction rs) auto

fun for_each :: "('a \<Rightarrow> unit kelvin_result) \<Rightarrow> 'a list \<Rightarrow> unit kelvin_result" where
  "for_each f [] = Inr ()"
| "for_each f (x # xs) = bindR (f x) (\<lambda>_. for_each f xs)"

lemma for_each_Inr_iff: "for_each f xs = Inr () \<longleftrightarrow> (\<forall>x\<in>set xs. f x = Inr ())"
  by (induction xs) auto

text \<open>\<open>Option::unwrap_or\<close>, and \<open>collect\<close> of an iterator of results.\<close>

definition opt_or :: "'a option \<Rightarrow> 'a \<Rightarrow> 'a" where
  "opt_or x d = (case x of Some v \<Rightarrow> v | None \<Rightarrow> d)"

fun traverseR :: "('a \<Rightarrow> 'b kelvin_result) \<Rightarrow> 'a list \<Rightarrow> 'b list kelvin_result" where
  "traverseR f [] = Inr []"
| "traverseR f (x # xs) = bindR (f x) (\<lambda>y. bindR (traverseR f xs) (\<lambda>ys. Inr (y # ys)))"

lemma traverseR_Inr_iff: "traverseR f xs = Inr ys \<longleftrightarrow> list_all2 (\<lambda>x y. f x = Inr y) xs ys"
  by (induction xs arbitrary: ys) (auto simp: list_all2_Cons1)

subsection \<open>Characters and strings of the Rust standard library\<close>

definition code :: "char \<Rightarrow> nat" where
  "code c = of_char c"

definition is_whitespace :: "char \<Rightarrow> bool" where
  "is_whitespace c \<longleftrightarrow> (9 \<le> code c \<and> code c \<le> 13) \<or> code c = 32 \<or> code c = 133 \<or> code c = 160"

definition is_control :: "char \<Rightarrow> bool" where
  "is_control c \<longleftrightarrow> code c < 32 \<or> (127 \<le> code c \<and> code c \<le> 159)"

definition is_digit :: "char \<Rightarrow> bool" where
  "is_digit c \<longleftrightarrow> 48 \<le> code c \<and> code c \<le> 57"

definition is_ascii_alphanumeric :: "char \<Rightarrow> bool" where
  "is_ascii_alphanumeric c \<longleftrightarrow>
     is_digit c \<or> (65 \<le> code c \<and> code c \<le> 90) \<or> (97 \<le> code c \<and> code c \<le> 122)"

definition to_ascii_lower_char :: "char \<Rightarrow> char" where
  "to_ascii_lower_char c = (if 65 \<le> code c \<and> code c \<le> 90 then char_of (code c + 32) else c)"

definition to_ascii_lowercase :: "string \<Rightarrow> string" where
  "to_ascii_lowercase s = map to_ascii_lower_char s"

definition trim_start :: "string \<Rightarrow> string" where
  "trim_start s = dropWhile is_whitespace s"

definition trim_end :: "string \<Rightarrow> string" where
  "trim_end s = rev (dropWhile is_whitespace (rev s))"

definition trim :: "string \<Rightarrow> string" where
  "trim s = trim_end (trim_start s)"

text \<open>The byte length of the UTF-8 encoding, Rust's \<open>str::len\<close>.\<close>

definition utf8_len :: "string \<Rightarrow> nat" where
  "utf8_len s = sum_list (map (\<lambda>c. if code c < 128 then 1 else 2) s)"

definition starts_with :: "string \<Rightarrow> string \<Rightarrow> bool" where
  "starts_with p s \<longleftrightarrow> take (length p) s = p"

definition strip_prefix :: "string \<Rightarrow> string \<Rightarrow> string option" where
  "strip_prefix p s = (if starts_with p s then Some (drop (length p) s) else None)"

fun contains_str :: "string \<Rightarrow> string \<Rightarrow> bool" where
  "contains_str p [] = (p = [])"
| "contains_str p (c # s) = (starts_with p (c # s) \<or> contains_str p s)"

text \<open>\<open>split_char\<close> is \<open>str::split\<close> with a character: it always yields at least one piece.\<close>

fun split_char :: "char \<Rightarrow> string \<Rightarrow> string list" where
  "split_char d [] = [[]]"
| "split_char d (c # s) =
     (if c = d then [] # split_char d s
      else (case split_char d s of [] \<Rightarrow> [[c]] | p # ps \<Rightarrow> (c # p) # ps))"

fun split_once :: "char \<Rightarrow> string \<Rightarrow> (string \<times> string) option" where
  "split_once d [] = None"
| "split_once d (c # s) =
     (if c = d then Some ([], s)
      else map_option (\<lambda>(a, b). (c # a, b)) (split_once d s))"

text \<open>\<open>str::split_whitespace\<close>: the non-empty maximal runs of non-whitespace.\<close>

fun split_ws_acc :: "string \<Rightarrow> string \<Rightarrow> string list" where
  "split_ws_acc w [] = (if w = [] then [] else [rev w])"
| "split_ws_acc w (c # s) =
     (if is_whitespace c then (if w = [] then split_ws_acc [] s else rev w # split_ws_acc [] s)
      else split_ws_acc (c # w) s)"

definition split_whitespace :: "string \<Rightarrow> string list" where
  "split_whitespace s = split_ws_acc [] s"

fun join_with :: "string \<Rightarrow> string list \<Rightarrow> string" where
  "join_with sep [] = []"
| "join_with sep [x] = x"
| "join_with sep (x # y # xs) = x @ sep @ join_with sep (y # xs)"

subsection \<open>Numbers: display, parsing, saturation\<close>

definition u64_max :: nat where
  "u64_max = 2 ^ 64 - 1"

definition u128_max :: nat where
  "u128_max = 2 ^ 128 - 1"

definition sat_add64 :: "nat \<Rightarrow> nat \<Rightarrow> nat" where
  "sat_add64 a b = min (a + b) u64_max"

definition sat_add128 :: "nat \<Rightarrow> nat \<Rightarrow> nat" where
  "sat_add128 a b = min (a + b) u128_max"

fun show_nat :: "nat \<Rightarrow> string" where
  "show_nat n = (if n < 10 then [char_of (48 + n)] else show_nat (n div 10) @ [char_of (48 + n mod 10)])"

declare show_nat.simps [simp del]

definition show_int :: "int \<Rightarrow> string" where
  "show_int i = (if i < 0 then CHR ''-'' # show_nat (nat (- i)) else show_nat (nat i))"

fun digits_value :: "nat \<Rightarrow> string \<Rightarrow> nat" where
  "digits_value acc [] = acc"
| "digits_value acc (c # s) = digits_value (10 * acc + (code c - 48)) s"

text \<open>
  \<open>str::parse\<close> at an unsigned type with the given maximum: an optional plus sign, then one or
  more ASCII digits, whose value must fit.
\<close>

definition parse_unsigned :: "nat \<Rightarrow> string \<Rightarrow> nat option" where
  "parse_unsigned maxv s =
     (let ds = (case s of c # t \<Rightarrow> if c = CHR ''+'' then t else s | [] \<Rightarrow> []) in
      if ds = [] \<or> \<not> list_all is_digit ds then None
      else if digits_value 0 ds \<le> maxv then Some (digits_value 0 ds) else None)"

definition parse_usize :: "string \<Rightarrow> nat option" where
  "parse_usize s = parse_unsigned u64_max s"

subsection \<open>Facts on strings\<close>

lemma trim_start_Nil [simp]: "trim_start [] = []"
  by (simp add: trim_start_def)

lemma trim_Nil [simp]: "trim [] = []"
  by (simp add: trim_def trim_end_def)

lemma dropWhile_idem: "dropWhile P (dropWhile P xs) = dropWhile P xs"
  by (induction xs) auto

lemma dropWhile_hd: "dropWhile P xs = y # ys \<Longrightarrow> \<not> P y"
  by (induction xs) (auto split: if_splits)

lemma trim_end_start: "s = [] \<or> \<not> is_whitespace (hd s) \<Longrightarrow>
    trim_end s = [] \<or> \<not> is_whitespace (hd (trim_end s))"
proof (cases s)
  case Nil
  then show ?thesis by (simp add: trim_end_def)
next
  case (Cons c t)
  moreover assume "s = [] \<or> \<not> is_whitespace (hd s)"
  ultimately have c: "\<not> is_whitespace c" by simp
  have "dropWhile is_whitespace (rev t @ [c]) = dropWhile is_whitespace (rev t) @ [c]"
    using c by (induction t rule: rev_induct) auto
  then show ?thesis using Cons c by (simp add: trim_end_def)
qed

lemma trim_start_noop: "s = [] \<or> \<not> is_whitespace (hd s) \<Longrightarrow> trim_start s = s"
  by (cases s) (auto simp: trim_start_def)

lemma trim_idem [simp, rust_str]: "trim (trim s) = trim s"
proof -
  have "trim_start s = [] \<or> \<not> is_whitespace (hd (trim_start s))"
    by (cases "trim_start s") (auto simp: trim_start_def dest: dropWhile_hd)
  then have "trim s = [] \<or> \<not> is_whitespace (hd (trim s))"
    unfolding trim_def by (rule trim_end_start)
  then have "trim_start (trim s) = trim s" by (rule trim_start_noop)
  moreover have "trim_end (trim s) = trim s"
    by (simp add: trim_def trim_end_def dropWhile_idem)
  ultimately show ?thesis by (simp add: trim_def)
qed

lemma trim_end_suffix: "\<exists>w. s = trim_end s @ w"
proof -
  have "rev s = takeWhile is_whitespace (rev s) @ dropWhile is_whitespace (rev s)" by simp
  then have "s = rev (dropWhile is_whitespace (rev s)) @ rev (takeWhile is_whitespace (rev s))"
    by (metis rev_append rev_rev_ident)
  then show ?thesis unfolding trim_end_def by blast
qed

lemma set_trim_subset [rust_str]: "set (trim s) \<subseteq> set s"
proof
  fix c assume "c \<in> set (trim s)"
  then have "c \<in> set (trim_start s)"
    by (auto simp: trim_def trim_end_def dest: set_dropWhileD)
  then show "c \<in> set s" by (auto simp: trim_start_def dest: set_dropWhileD)
qed

lemma length_trim_le [rust_str]: "length (trim s) \<le> length s"
proof -
  have "length (trim s) \<le> length (trim_start s)"
    by (simp add: trim_def trim_end_def length_dropWhile_le [of _ "rev _", simplified])
  also have "\<dots> \<le> length s"
    by (simp add: trim_start_def length_dropWhile_le)
  finally show ?thesis .
qed

lemma starts_with_iff [rust_str]: "starts_with p s \<longleftrightarrow> (\<exists>t. s = p @ t)"
  by (auto simp: starts_with_def) (metis append_take_drop_id)

lemma strip_prefix_Some_iff [rust_str]: "strip_prefix p s = Some t \<longleftrightarrow> s = p @ t"
  by (auto simp: strip_prefix_def starts_with_iff)

lemma split_char_nonempty [simp]: "split_char d s \<noteq> []"
  by (induction s) (auto split: list.splits)

lemma split_char_no_sep [rust_str]: "p \<in> set (split_char d s) \<Longrightarrow> d \<notin> set p"
  by (induction s arbitrary: p) (auto split: list.splits if_splits)

lemma utf8_len_bounds [rust_str]: "length s \<le> utf8_len s" "utf8_len s \<le> 2 * length s"
  by (induction s) (auto simp: utf8_len_def)

lemma code_char_of [simp]: "n < 256 \<Longrightarrow> code (char_of n) = n"
  by (simp add: code_def)

lemma code_lt [simp]: "code c < 256"
  by (simp add: code_def)

lemma char_of_code [simp]: "char_of (code c) = c"
  by (simp add: code_def)

lemma code_eq_iff [simp]: "code c = code d \<longleftrightarrow> c = d"
  by (simp add: code_def)

lemma char_of_eq_code: "n < 256 \<Longrightarrow> char_of n = c \<longleftrightarrow> n = code c"
  by (metis char_of_code code_char_of)

text \<open>With these the simplifier evaluates the string functions on literals.\<close>

lemmas str_eval = code_def is_whitespace_def is_control_def is_digit_def is_ascii_alphanumeric_def
  to_ascii_lower_char_def to_ascii_lowercase_def trim_start_def trim_end_def trim_def utf8_len_def
  starts_with_def strip_prefix_def split_whitespace_def char_of_eq_code

lemma to_ascii_lower_char_idem [simp]:
  "to_ascii_lower_char (to_ascii_lower_char c) = to_ascii_lower_char c"
  by (auto simp: to_ascii_lower_char_def)

lemma to_ascii_lowercase_idem [simp, rust_str]:
  "to_ascii_lowercase (to_ascii_lowercase s) = to_ascii_lowercase s"
  by (simp add: to_ascii_lowercase_def)

subsection \<open>Facts on numbers\<close>

lemma digits_value_append: "digits_value a (s @ t) = digits_value (digits_value a s) t"
  by (induction s arbitrary: a) auto

lemma show_nat_nonempty [simp]: "show_nat n \<noteq> []"
  by (subst show_nat.simps) simp

lemma show_nat_digits: "list_all is_digit (show_nat n)"
proof (induction n rule: show_nat.induct)
  case (1 n)
  then show ?case
    by (subst show_nat.simps) (auto simp: is_digit_def [of "char_of _"])
qed

lemma digits_value_show_nat: "digits_value 0 (show_nat n) = n"
proof (induction n rule: show_nat.induct)
  case (1 n)
  show ?case
  proof (cases "n < 10")
    case True
    then show ?thesis by (subst show_nat.simps) simp
  next
    case False
    with 1 have "digits_value 0 (show_nat (n div 10)) = n div 10" by simp
    with False show ?thesis
      by (subst show_nat.simps) (simp add: digits_value_append)
  qed
qed

lemma parse_show_nat: "n \<le> m \<Longrightarrow> parse_unsigned m (show_nat n) = Some n"
proof -
  assume n: "n \<le> m"
  have hd: "\<And>c t. show_nat n = c # t \<Longrightarrow> c \<noteq> CHR ''+''"
    using show_nat_digits [of n] by (auto simp: is_digit_def code_def)
  show ?thesis
    using n hd show_nat_digits [of n] show_nat_nonempty [of n] digits_value_show_nat [of n]
    by (auto simp: parse_unsigned_def Let_def split: list.splits)
qed

lemma show_nat_inject [simp]: "show_nat m = show_nat n \<longleftrightarrow> m = n"
  by (metis digits_value_show_nat)

lemma parse_unsigned_le: "parse_unsigned m s = Some n \<Longrightarrow> n \<le> m"
  by (auto simp: parse_unsigned_def Let_def split: if_splits)

lemma sat_add64_le [simp]: "sat_add64 a b \<le> u64_max"
  by (simp add: sat_add64_def)

lemma sat_add128_le [simp]: "sat_add128 a b \<le> u128_max"
  by (simp add: sat_add128_def)

lemma sat_add128_ge: "a \<le> u128_max \<Longrightarrow> a \<le> sat_add128 a b"
  by (simp add: sat_add128_def)

lemma sat_add64_exact: "a + b \<le> u64_max \<Longrightarrow> sat_add64 a b = a + b"
  by (simp add: sat_add64_def)

subsection \<open>Effectful operations\<close>

text \<open>
  An operation on a state of type \<open>'s\<close>: it returns a result and the state as the code leaves
  it, also when the result is an error.
\<close>

type_synonym ('s, 'a) eff = "'s \<Rightarrow> 'a kelvin_result \<times> 's"

definition okE :: "'a \<Rightarrow> ('s, 'a) eff" where
  "okE x = (\<lambda>s. (Inr x, s))"

definition errE :: "kelvin_error \<Rightarrow> ('s, 'a) eff" where
  "errE e = (\<lambda>s. (Inl e, s))"

definition bindE :: "('s, 'a) eff \<Rightarrow> ('a \<Rightarrow> ('s, 'b) eff) \<Rightarrow> ('s, 'b) eff" where
  "bindE m k = (\<lambda>s. case m s of (Inl e, s') \<Rightarrow> (Inl e, s') | (Inr x, s') \<Rightarrow> k x s')"

definition seqE :: "('s, 'a) eff \<Rightarrow> ('s, 'b) eff \<Rightarrow> ('s, 'b) eff" where
  "seqE m n = bindE m (\<lambda>_. n)"

text \<open>\<open>getsE f\<close> reads, \<open>modifyE f\<close> updates, \<open>liftE r\<close> returns a pure result.\<close>

definition getsE :: "('s \<Rightarrow> 'a) \<Rightarrow> ('s, 'a) eff" where
  "getsE f = (\<lambda>s. (Inr (f s), s))"

definition modifyE :: "('s \<Rightarrow> 's) \<Rightarrow> ('s, unit) eff" where
  "modifyE f = (\<lambda>s. (Inr (), f s))"

definition liftE :: "'a kelvin_result \<Rightarrow> ('s, 'a) eff" where
  "liftE r = (\<lambda>s. (r, s))"

text \<open>
  \<open>attemptE m\<close> runs \<open>m\<close> and hands its result, error or not, to the continuation: a
  \<^verbatim>\<open>match\<close> on the result, or \<^verbatim>\<open>let _ = m\<close> when the continuation ignores it.
\<close>

definition attemptE :: "('s, 'a) eff \<Rightarrow> ('s, 'a kelvin_result) eff" where
  "attemptE m = (\<lambda>s. case m s of (r, s') \<Rightarrow> (Inr r, s'))"

lemmas eff_defs = okE_def errE_def bindE_def seqE_def getsE_def modifyE_def liftE_def attemptE_def

lemma eff_apply [simp]:
  "okE x s = (Inr x, s)"
  "errE e s = (Inl e, s)"
  "getsE f s = (Inr (f s), s)"
  "modifyE g s = (Inr (), g s)"
  "liftE r s = (r, s)"
  by (simp_all add: eff_defs)

lemma bindE_apply: "bindE m k s = (case m s of (Inl e, s') \<Rightarrow> (Inl e, s') | (Inr x, s') \<Rightarrow> k x s')"
  by (simp add: bindE_def)

lemma bindE_simps [simp]:
  "m s = (Inl e, s') \<Longrightarrow> bindE m k s = (Inl e, s')"
  "m s = (Inr x, s') \<Longrightarrow> bindE m k s = k x s'"
  by (simp_all add: bindE_def)

lemma bindE_Inr: "bindE m k s = (Inr y, t) \<Longrightarrow> \<exists>x s'. m s = (Inr x, s') \<and> k x s' = (Inr y, t)"
  by (auto simp: bindE_def split: prod.splits sum.splits)

definition keeps :: "('s \<Rightarrow> bool) \<Rightarrow> ('s, 'a) eff \<Rightarrow> bool" where
  "keeps I m \<longleftrightarrow> (\<forall>s. I s \<longrightarrow> I (snd (m s)))"

lemma keepsD: "keeps I m \<Longrightarrow> I s \<Longrightarrow> m s = (r, s') \<Longrightarrow> I s'"
  unfolding keeps_def by (metis snd_conv)

lemma keeps_snd: "keeps I m \<Longrightarrow> I s \<Longrightarrow> I (snd (m s))"
  by (simp add: keeps_def)

lemma keeps_okE [keeps_rules]: "keeps I (okE x)"
  by (simp add: keeps_def)

lemma keeps_errE [keeps_rules]: "keeps I (errE e)"
  by (simp add: keeps_def)

lemma keeps_getsE [keeps_rules]: "keeps I (getsE f)"
  by (simp add: keeps_def)

lemma keeps_liftE [keeps_rules]: "keeps I (liftE r)"
  by (simp add: keeps_def)

lemma keeps_modifyE: "(\<And>s. I s \<Longrightarrow> I (f s)) \<Longrightarrow> keeps I (modifyE f)"
  by (simp add: keeps_def)

lemma keeps_bindE [keeps_rules]:
  assumes "keeps I m" and "\<And>x. keeps I (k x)"
  shows "keeps I (bindE m k)"
  unfolding keeps_def
proof (intro allI impI)
  fix s assume I: "I s"
  obtain r s' where m: "m s = (r, s')" by (cases "m s")
  with assms(1) I have "I s'" by (rule keepsD)
  then show "I (snd (bindE m k s))"
    using m assms(2) by (cases r) (auto simp: keeps_def)
qed

lemma keeps_seqE [keeps_rules]: "keeps I m \<Longrightarrow> keeps I n \<Longrightarrow> keeps I (seqE m n)"
  by (simp add: seqE_def keeps_bindE)

lemma keeps_attemptE [keeps_rules]: "keeps I m \<Longrightarrow> keeps I (attemptE m)"
  by (auto simp: keeps_def attemptE_def split: prod.splits)

lemma keeps_if [keeps_rules]: "(b \<Longrightarrow> keeps I m) \<Longrightarrow> (\<not> b \<Longrightarrow> keeps I n) \<Longrightarrow> keeps I (if b then m else n)"
  by simp

lemma keeps_case_option [keeps_rules]:
  "(x = None \<Longrightarrow> keeps I m) \<Longrightarrow> (\<And>y. x = Some y \<Longrightarrow> keeps I (n y)) \<Longrightarrow>
   keeps I (case x of None \<Rightarrow> m | Some y \<Rightarrow> n y)"
  by (cases x) auto

lemma keeps_case_sum [keeps_rules]:
  "(\<And>y. x = Inl y \<Longrightarrow> keeps I (m y)) \<Longrightarrow> (\<And>y. x = Inr y \<Longrightarrow> keeps I (n y)) \<Longrightarrow>
   keeps I (case x of Inl y \<Rightarrow> m y | Inr y \<Rightarrow> n y)"
  by (cases x) auto

lemma keeps_case_prod [keeps_rules]:
  "(\<And>a b. x = (a, b) \<Longrightarrow> keeps I (m a b)) \<Longrightarrow> keeps I (case x of (a, b) \<Rightarrow> m a b)"
  by (cases x) auto

subsection \<open>Reachability\<close>

inductive reach :: "('s \<Rightarrow> bool) \<Rightarrow> ('s \<Rightarrow> 's \<Rightarrow> bool) \<Rightarrow> 's \<Rightarrow> bool"
  for init :: "'s \<Rightarrow> bool" and step :: "'s \<Rightarrow> 's \<Rightarrow> bool" where
  reach_init: "init s \<Longrightarrow> reach init step s"
| reach_step: "reach init step s \<Longrightarrow> step s t \<Longrightarrow> reach init step t"

text \<open>
  The contract of a transition system with an inductive invariant: the invariant holds
  initially and every step keeps it. Its client lemma is that it holds in every reachable
  state.
\<close>

locale invariant_system =
  fixes init :: "'s \<Rightarrow> bool"
    and step :: "'s \<Rightarrow> 's \<Rightarrow> bool"
    and inv :: "'s \<Rightarrow> bool"
  assumes inv_init: "init s \<Longrightarrow> inv s"
    and inv_step: "inv s \<Longrightarrow> step s t \<Longrightarrow> inv t"
begin

lemma inv_reach: "reach init step s \<Longrightarrow> inv s"
  by (induction rule: reach.induct) (auto intro: inv_init inv_step)

lemma inv_steps: "step\<^sup>*\<^sup>* s t \<Longrightarrow> inv s \<Longrightarrow> inv t"
  by (induction rule: rtranclp_induct) (auto intro: inv_step)

end

lemma reach_steps: "step\<^sup>*\<^sup>* s t \<Longrightarrow> reach init step s \<Longrightarrow> reach init step t"
  by (induction rule: rtranclp_induct) (auto intro: reach.reach_step)

end
