(* ===== verification/Core_Types.thy ===== *)
theory Core_Types
  imports Kelvin_Prelude
begin

section \<open>The data model of kelvin-core\<close>

text \<open>
  The structs and enums that cross component boundaries: run requests and results
  (\<open>brain.rs\<close>), sessions (\<open>sessions.rs\<close>), events (\<open>events.rs\<close>), tools
  (\<open>tools.rs\<close>), model input and output (\<open>model.rs\<close>) and memory hits (\<open>memory.rs\<close>).
  Field names carry a prefix, since HOL's record fields are global. A JSON value
  (\<open>serde_json::Value\<close>) is the data type \<open>json\<close>, with a number kept as its literal; a
  score (\<open>f32\<close>) is a type parameter, since no modelled code computes with it.
\<close>

datatype json =
    JNull
  | JBool bool
  | JNum string
  | JStr string
  | JArr "json list"
  | JObj "(string \<times> json) list"

subsection \<open>Runs\<close>

record agent_run_request =
  req_run_id :: string
  req_session_id :: string
  req_session_key :: string
  req_workspace_dir :: string
  req_prompt :: string
  req_extra_system_prompt :: "string option"
  req_timeout_ms :: "nat option"
  req_memory_query :: "string option"
  req_max_tool_iterations :: "nat option"

record agent_payload =
  pl_text :: string
  pl_is_error :: bool

record agent_run_meta =
  meta_duration_ms :: nat
  meta_provider :: string
  meta_model :: string
  meta_stop_reason :: "string option"
  meta_error :: "string option"
  meta_tool_iterations :: nat

record agent_run_result =
  res_payloads :: "agent_payload list"
  res_meta :: agent_run_meta

datatype wait_status = WaitOk | WaitError | WaitTimeout

record agent_wait_result =
  wr_status :: wait_status
  wr_started_at_ms :: nat
  wr_ended_at_ms :: "nat option"
  wr_error :: "string option"

subsection \<open>Sessions and events\<close>

record session_descriptor =
  sd_session_id :: string
  sd_session_key :: string
  sd_workspace_dir :: string

datatype session_role = RoleUser | RoleAssistant | RoleTool | RoleSystem

record session_message =
  sm_role :: session_role
  sm_content :: string
  sm_metadata :: json

definition user_message :: "string \<Rightarrow> session_message" where
  "user_message c = \<lparr>sm_role = RoleUser, sm_content = c, sm_metadata = JObj []\<rparr>"

definition assistant_message :: "string \<Rightarrow> session_message" where
  "assistant_message c = \<lparr>sm_role = RoleAssistant, sm_content = c, sm_metadata = JObj []\<rparr>"

definition tool_message :: "string \<Rightarrow> json \<Rightarrow> session_message" where
  "tool_message c m = \<lparr>sm_role = RoleTool, sm_content = c, sm_metadata = m\<rparr>"

datatype lifecycle_phase = LifeStart | LifeEnd | LifeError | LifeWarning

datatype tool_phase = ToolStart | ToolEnd | ToolError

datatype agent_event_data =
    Lifecycle (ev_run_id: string) (ev_phase: lifecycle_phase) (ev_message: "string option") (ev_ts: nat)
  | Assistant (ev_run_id: string) (ev_delta: string) (ev_final: bool) (ev_ts: nat)
  | ToolEvent (ev_run_id: string) (ev_tool: string) (ev_tool_phase: tool_phase)
      (ev_summary: "string option") (ev_output: "string option") (ev_ts: nat)

record agent_event =
  ev_seq :: nat
  ev_data :: agent_event_data

subsection \<open>Tools and models\<close>

record tool_definition =
  td_name :: string
  td_description :: string
  td_input_schema :: json

record tool_call_input =
  tci_run_id :: string
  tci_session_id :: string
  tci_workspace_dir :: string
  tci_arguments :: json

record tool_call_result =
  tcr_summary :: string
  tcr_output :: "string option"
  tcr_visible_text :: "string option"
  tcr_is_error :: bool

record tool_call =
  tc_id :: string
  tc_name :: string
  tc_arguments :: json

record model_usage =
  mu_input_tokens :: "nat option"
  mu_output_tokens :: "nat option"
  mu_total_tokens :: "nat option"

record model_input =
  mi_run_id :: string
  mi_session_id :: string
  mi_system_prompt :: string
  mi_user_prompt :: string
  mi_memory_snippets :: "string list"
  mi_history :: "session_message list"
  mi_tools :: "tool_definition list"

record model_output =
  mo_assistant_text :: string
  mo_stop_reason :: "string option"
  mo_tool_calls :: "tool_call list"
  mo_usage :: "model_usage option"

subsection \<open>Memory hits\<close>

datatype memory_source = SourceMemory | SourceSessions

record 'f memory_search_result =
  ms_path :: string
  ms_start_line :: nat
  ms_end_line :: nat
  ms_score :: 'f
  ms_snippet :: string
  ms_source :: memory_source
  ms_citation :: "string option"

record memory_search_options =
  mso_max_results :: nat
  mso_min_score_milli :: nat
  mso_session_key :: "string option"

definition default_memory_search_options :: memory_search_options where
  "default_memory_search_options =
     \<lparr>mso_max_results = 6, mso_min_score_milli = 0, mso_session_key = None\<rparr>"

end
