(* ===== verification/Registry_Spec.thy ===== *)
theory Registry_Spec
  imports Kelvin_Prelude
begin

section \<open>The contract of a registry with unique keys\<close>

text \<open>
  Several components keep a map into which an entry is registered once and never
  overwritten: run ids in \<open>RunRegistry\<close> and plugin ids in \<open>InMemoryPluginRegistry\<close>. The
  locale states what such a registry promises. Registering needs an admissible entry and a
  free key, adds exactly that entry, and fails otherwise; a failing call returns no registry,
  so the old one stays in place. The lemmas on whole sequences of registrations are proved
  once, here.
\<close>

locale unique_registry =
  fixes register :: "'a \<Rightarrow> 'r \<Rightarrow> 'r kelvin_result"
    and lookup :: "'r \<Rightarrow> 'k \<Rightarrow> 'v option"
    and key :: "'a \<Rightarrow> 'k"
    and entry :: "'a \<Rightarrow> 'v"
    and admits :: "'a \<Rightarrow> bool"
    and wf :: "'r \<Rightarrow> bool"
  assumes register_adds: "wf r \<Longrightarrow> register a r = Inr r' \<Longrightarrow>
      admits a \<and> lookup r (key a) = None \<and> lookup r' = (lookup r)(key a \<mapsto> entry a)"
    and register_total: "wf r \<Longrightarrow> admits a \<Longrightarrow> lookup r (key a) = None \<Longrightarrow> \<exists>r'. register a r = Inr r'"
    and register_wf: "wf r \<Longrightarrow> register a r = Inr r' \<Longrightarrow> wf r'"
begin

lemma register_iff: "wf r \<Longrightarrow> (\<exists>r'. register a r = Inr r') \<longleftrightarrow> admits a \<and> lookup r (key a) = None"
  using register_adds register_total by metis

lemma register_keeps: "wf r \<Longrightarrow> register a r = Inr r' \<Longrightarrow> lookup r j = Some v \<Longrightarrow> lookup r' j = Some v"
  using register_adds by fastforce

lemma register_duplicate: "wf r \<Longrightarrow> lookup r (key a) = Some v \<Longrightarrow> \<exists>e. register a r = Inl e"
  by (cases "register a r") (auto dest: register_adds)

fun register_all :: "'a list \<Rightarrow> 'r \<Rightarrow> 'r kelvin_result" where
  "register_all [] r = Inr r"
| "register_all (a # as) r = bindR (register a r) (register_all as)"

lemma register_all_wf: "wf r \<Longrightarrow> register_all as r = Inr r' \<Longrightarrow> wf r'"
  by (induction as arbitrary: r) (auto dest: register_wf)

lemma register_all_adds:
  "wf r \<Longrightarrow> register_all as r = Inr r' \<Longrightarrow>
     distinct (map key as) \<and> (\<forall>a\<in>set as. admits a \<and> lookup r (key a) = None) \<and>
     lookup r' = lookup r ++ map_of (map (\<lambda>a. (key a, entry a)) as)"
proof (induction as arbitrary: r)
  case Nil
  then show ?case by simp
next
  case (Cons a as)
  then obtain r1 where r1: "register a r = Inr r1" and rest: "register_all as r1 = Inr r'"
    by auto
  note a = register_adds [OF Cons.prems(1) r1]
  have IH: "distinct (map key as) \<and> (\<forall>b\<in>set as. admits b \<and> lookup r1 (key b) = None) \<and>
     lookup r' = lookup r1 ++ map_of (map (\<lambda>a. (key a, entry a)) as)"
    by (rule Cons.IH [OF register_wf [OF Cons.prems(1) r1] rest])
  have fresh: "key a \<notin> key ` set as"
    using IH a by (metis (no_types, lifting) fun_upd_same image_iff option.simps(3))
  have "map_of (map (\<lambda>a. (key a, entry a)) as) (key a) = None"
    using fresh by (auto simp: map_of_eq_None_iff image_iff)
  then have lk: "lookup r' = lookup r ++ map_of (map (\<lambda>a. (key a, entry a)) (a # as))"
    using IH a by (auto simp: fun_eq_iff map_add_def split: option.splits)
  have adm: "\<forall>b\<in>set (a # as). admits b \<and> lookup r (key b) = None"
    using IH a by (metis (no_types, lifting) fun_upd_apply option.simps(3) set_ConsD)
  have "distinct (map key (a # as))" using IH fresh by simp
  then show ?case using lk adm by blast
qed

end

end
