(* ===== verification/Core_Runtime.thy ===== *)
theory Core_Runtime
  imports Core_Types Registry_Spec
begin

section \<open>Run registry, lanes and the core runtime (kelvin-core/src/runtime.rs)\<close>

text \<open>
  \<open>RunRegistry\<close> is a map from run ids to records; its operations are functions on the map.
  \<open>LaneScheduler\<close> and the task that \<open>CoreRuntime::submit\<close> spawns run concurrently, so
  they are a step relation: one task moves at a time, from one await point to the next. The
  brain's answer is any result at any later moment, a lane's lock goes to any of the tasks
  waiting for it, and \<open>RunRegistry::wait\<close> is a second kind of process, whose reads, whose
  registration with \<open>Notify\<close> and whose timeout are separate steps. \<open>notify_waiters\<close> wakes
  the waiters registered at that moment and stores nothing for later ones.
\<close>

subsection \<open>Data\<close>

datatype run_phase = PhaseAccepted | PhaseRunning | PhaseCompleted | PhaseFailed

record run_state =
  rs_run_id :: string
  rs_phase :: run_phase
  rs_started_at_ms :: nat
  rs_ended_at_ms :: "nat option"
  rs_error :: "string option"

record run_accepted =
  ra_run_id :: string
  ra_accepted_at_ms :: nat

datatype run_outcome =
    OutcomeCompleted agent_run_result
  | OutcomeFailed string
  | OutcomeTimeout

datatype run_status =
    StAccepted
  | StRunning
  | StCompleted agent_run_result
  | StFailed string

record run_record =
  rr_run_id :: string
  rr_started_at_ms :: nat
  rr_ended_at_ms :: "nat option"
  rr_status :: run_status

datatype stored_run_result = StoredCompleted agent_run_result | StoredFailed string

type_synonym run_registry = "string \<rightharpoonup> run_record"

subsection \<open>The registry's operations\<close>

definition fresh_record :: "nat \<Rightarrow> string \<Rightarrow> run_record" where
  "fresh_record now rid =
     \<lparr>rr_run_id = rid, rr_started_at_ms = now, rr_ended_at_ms = None, rr_status = StAccepted\<rparr>"

definition register_run :: "nat \<Rightarrow> string \<Rightarrow> run_registry \<Rightarrow> run_registry kelvin_result" where
  "register_run now rid reg =
     (if reg rid \<noteq> None then Inl (InvalidInput (''run id already exists: '' @ rid))
      else Inr (reg(rid \<mapsto> fresh_record now rid)))"

definition get_record :: "run_registry \<Rightarrow> string \<Rightarrow> run_record kelvin_result" where
  "get_record reg rid =
     (case reg rid of None \<Rightarrow> Inl (NotFound (''unknown run id: '' @ rid)) | Some r \<Rightarrow> Inr r)"

fun status_phase :: "run_status \<Rightarrow> run_phase \<times> string option" where
  "status_phase StAccepted = (PhaseAccepted, None)"
| "status_phase StRunning = (PhaseRunning, None)"
| "status_phase (StCompleted _) = (PhaseCompleted, None)"
| "status_phase (StFailed e) = (PhaseFailed, Some e)"

definition run_state_of :: "run_registry \<Rightarrow> string \<Rightarrow> run_state kelvin_result" where
  "run_state_of reg rid = bindR (get_record reg rid) (\<lambda>r. case status_phase (rr_status r) of
     (phase, e) \<Rightarrow> Inr \<lparr>rs_run_id = rr_run_id r, rs_phase = phase,
       rs_started_at_ms = rr_started_at_ms r, rs_ended_at_ms = rr_ended_at_ms r, rs_error = e\<rparr>)"

definition mark_running :: "string \<Rightarrow> run_registry \<Rightarrow> run_registry kelvin_result" where
  "mark_running rid reg =
     bindR (get_record reg rid) (\<lambda>r. Inr (reg(rid \<mapsto> r\<lparr>rr_status := StRunning\<rparr>)))"

definition mark_completed ::
    "nat \<Rightarrow> string \<Rightarrow> agent_run_result \<Rightarrow> run_registry \<Rightarrow> run_registry kelvin_result" where
  "mark_completed now rid res reg = bindR (get_record reg rid) (\<lambda>r.
     Inr (reg(rid \<mapsto> r\<lparr>rr_ended_at_ms := Some now, rr_status := StCompleted res\<rparr>)))"

definition mark_failed :: "nat \<Rightarrow> string \<Rightarrow> string \<Rightarrow> run_registry \<Rightarrow> run_registry kelvin_result" where
  "mark_failed now rid e reg = bindR (get_record reg rid) (\<lambda>r.
     Inr (reg(rid \<mapsto> r\<lparr>rr_ended_at_ms := Some now, rr_status := StFailed e\<rparr>)))"

text \<open>One look of \<open>wait\<close>'s loop at the record: a result when the run is over.\<close>

fun wait_look :: "run_record \<Rightarrow> agent_wait_result option" where
  "wait_look r = (case rr_status r of
     StCompleted _ \<Rightarrow> Some \<lparr>wr_status = WaitOk, wr_started_at_ms = rr_started_at_ms r,
       wr_ended_at_ms = rr_ended_at_ms r, wr_error = None\<rparr>
   | StFailed e \<Rightarrow> Some \<lparr>wr_status = WaitError, wr_started_at_ms = rr_started_at_ms r,
       wr_ended_at_ms = rr_ended_at_ms r, wr_error = Some e\<rparr>
   | StAccepted \<Rightarrow> None
   | StRunning \<Rightarrow> None)"

definition wait_timed_out :: "nat \<Rightarrow> agent_wait_result" where
  "wait_timed_out started = \<lparr>wr_status = WaitTimeout, wr_started_at_ms = started,
     wr_ended_at_ms = None, wr_error = None\<rparr>"

definition run_result_of :: "run_registry \<Rightarrow> string \<Rightarrow> stored_run_result option kelvin_result" where
  "run_result_of reg rid = bindR (get_record reg rid) (\<lambda>r. Inr (case rr_status r of
     StCompleted res \<Rightarrow> Some (StoredCompleted res)
   | StFailed e \<Rightarrow> Some (StoredFailed e)
   | StAccepted \<Rightarrow> None
   | StRunning \<Rightarrow> None))"

text \<open>What \<open>wait_for_outcome\<close> makes of the result of its \<open>wait\<close> and the registry it then reads.\<close>

definition wait_for_outcome :: "agent_wait_result \<Rightarrow> run_registry \<Rightarrow> string \<Rightarrow> run_outcome kelvin_result" where
  "wait_for_outcome w reg rid = (case wr_status w of
     WaitTimeout \<Rightarrow> Inr OutcomeTimeout
   | _ \<Rightarrow> bindR (run_result_of reg rid) (\<lambda>res. Inr (case res of
       Some (StoredCompleted run) \<Rightarrow> OutcomeCompleted run
     | Some (StoredFailed e) \<Rightarrow> OutcomeFailed e
     | None \<Rightarrow> OutcomeTimeout)))"

subsection \<open>Lanes, tasks and waiters\<close>

datatype task_pc =
    TaskSpawned
  | TaskStarted
  | TaskWaitSession
  | TaskWaitGlobal
  | TaskExecuting
  | TaskReturned "agent_run_result kelvin_result"
  | TaskRecorded
  | TaskDone

record task =
  t_req :: agent_run_request
  t_pc :: task_pc

datatype wait_pc =
    WaitLooking
  | WaitUnregistered nat
  | WaitRegistered nat
  | WaitReturned agent_wait_result

record waiter =
  w_run :: string
  w_pc :: wait_pc

text \<open>A lane is \<open>None\<close> when free and \<open>Some rid\<close> when the task of run \<open>rid\<close> holds its lock.\<close>

record core_runtime =
  use_global_lane :: bool
  runs :: run_registry
  session_lanes :: "string \<rightharpoonup> string option"
  global_lane :: "string option"
  tasks :: "string \<rightharpoonup> task"
  waiters :: "nat \<rightharpoonup> waiter"

definition core_new :: "bool \<Rightarrow> core_runtime" where
  "core_new use_global = \<lparr>use_global_lane = use_global, runs = Map.empty,
     session_lanes = Map.empty, global_lane = None, tasks = Map.empty, waiters = Map.empty\<rparr>"

definition submit :: "nat \<Rightarrow> nat \<Rightarrow> agent_run_request \<Rightarrow> core_runtime \<Rightarrow> (run_accepted \<times> core_runtime) kelvin_result" where
  "submit now now' req s = bindR (register_run now (req_run_id req) (runs s)) (\<lambda>reg.
     Inr (\<lparr>ra_run_id = req_run_id req, ra_accepted_at_ms = now'\<rparr>,
          s\<lparr>runs := reg, tasks := (tasks s)(req_run_id req \<mapsto> \<lparr>t_req = req, t_pc = TaskSpawned\<rparr>)\<rparr>))"

definition get_session_lane :: "string \<Rightarrow> (string \<rightharpoonup> string option) \<Rightarrow> (string \<rightharpoonup> string option)" where
  "get_session_lane k lanes = (case lanes k of None \<Rightarrow> lanes(k \<mapsto> None) | Some _ \<Rightarrow> lanes)"

definition move_task :: "string \<Rightarrow> task_pc \<Rightarrow> core_runtime \<Rightarrow> core_runtime" where
  "move_task rid pc s = s\<lparr>tasks := (tasks s)(rid := map_option (t_pc_update (\<lambda>_. pc)) (tasks s rid))\<rparr>"

definition record_outcome :: "nat \<Rightarrow> string \<Rightarrow> agent_run_result kelvin_result \<Rightarrow> run_registry \<Rightarrow> run_registry" where
  "record_outcome now rid res reg = (case (case res of
       Inr run \<Rightarrow> mark_completed now rid run reg
     | Inl e \<Rightarrow> mark_failed now rid (show_error e) reg) of
     Inl _ \<Rightarrow> reg | Inr reg' \<Rightarrow> reg')"

definition notify_waiters :: "string \<Rightarrow> (nat \<rightharpoonup> waiter) \<Rightarrow> (nat \<rightharpoonup> waiter)" where
  "notify_waiters rid ws = (\<lambda>i. map_option (\<lambda>w. case w_pc w of
     WaitRegistered _ \<Rightarrow> if w_run w = rid then w\<lparr>w_pc := WaitLooking\<rparr> else w
   | _ \<Rightarrow> w) (ws i))"

abbreviation at :: "core_runtime \<Rightarrow> string \<Rightarrow> agent_run_request \<Rightarrow> task_pc \<Rightarrow> bool" where
  "at s rid req pc \<equiv> tasks s rid = Some \<lparr>t_req = req, t_pc = pc\<rparr>"

text \<open>The steps of the task spawned by \<open>submit\<close>, in the order of its code.\<close>

inductive task_step :: "string \<Rightarrow> core_runtime \<Rightarrow> core_runtime \<Rightarrow> bool" where
  start: "at s rid req TaskSpawned \<Longrightarrow> mark_running rid (runs s) = Inr reg \<Longrightarrow>
     task_step rid s (move_task rid TaskStarted (s\<lparr>runs := reg\<rparr>))"
| start_unknown: "at s rid req TaskSpawned \<Longrightarrow> mark_running rid (runs s) = Inl e \<Longrightarrow>
     task_step rid s (move_task rid TaskDone s)"
| enter_lane: "at s rid req TaskStarted \<Longrightarrow>
     task_step rid s (move_task rid TaskWaitSession
       (s\<lparr>session_lanes := get_session_lane (req_session_key req) (session_lanes s)\<rparr>))"
| lock_session: "at s rid req TaskWaitSession \<Longrightarrow> session_lanes s (req_session_key req) = Some None \<Longrightarrow>
     task_step rid s (move_task rid (if use_global_lane s then TaskWaitGlobal else TaskExecuting)
       (s\<lparr>session_lanes := (session_lanes s)(req_session_key req \<mapsto> Some rid)\<rparr>))"
| lock_global: "at s rid req TaskWaitGlobal \<Longrightarrow> global_lane s = None \<Longrightarrow>
     task_step rid s (move_task rid TaskExecuting (s\<lparr>global_lane := Some rid\<rparr>))"
| brain_return: "at s rid req TaskExecuting \<Longrightarrow>
     task_step rid s (move_task rid (TaskReturned res)
       (s\<lparr>global_lane := (if use_global_lane s then None else global_lane s),
          session_lanes := (session_lanes s)(req_session_key req \<mapsto> None)\<rparr>))"
| record_result: "at s rid req (TaskReturned res) \<Longrightarrow>
     task_step rid s (move_task rid TaskRecorded (s\<lparr>runs := record_outcome now rid res (runs s)\<rparr>))"
| notify: "at s rid req TaskRecorded \<Longrightarrow>
     task_step rid s (move_task rid TaskDone (s\<lparr>waiters := notify_waiters rid (waiters s)\<rparr>))"

text \<open>The steps of a call of \<open>RunRegistry::wait\<close>.\<close>

inductive wait_step :: "nat \<Rightarrow> core_runtime \<Rightarrow> core_runtime \<Rightarrow> bool" where
  call: "waiters s i = None \<Longrightarrow> get_record (runs s) rid = Inr r \<Longrightarrow>
     wait_step i s (s\<lparr>waiters := (waiters s)(i \<mapsto> \<lparr>w_run = rid, w_pc = WaitLooking\<rparr>)\<rparr>)"
| look_over: "waiters s i = Some \<lparr>w_run = rid, w_pc = WaitLooking\<rparr> \<Longrightarrow> runs s rid = Some r \<Longrightarrow>
     wait_look r = Some res \<Longrightarrow>
     wait_step i s (s\<lparr>waiters := (waiters s)(i \<mapsto> \<lparr>w_run = rid, w_pc = WaitReturned res\<rparr>)\<rparr>)"
| look_active: "waiters s i = Some \<lparr>w_run = rid, w_pc = WaitLooking\<rparr> \<Longrightarrow> runs s rid = Some r \<Longrightarrow>
     wait_look r = None \<Longrightarrow>
     wait_step i s (s\<lparr>waiters := (waiters s)(i \<mapsto>
       \<lparr>w_run = rid, w_pc = WaitUnregistered (rr_started_at_ms r)\<rparr>)\<rparr>)"
| register_notified: "waiters s i = Some \<lparr>w_run = rid, w_pc = WaitUnregistered st\<rparr> \<Longrightarrow>
     wait_step i s (s\<lparr>waiters := (waiters s)(i \<mapsto> \<lparr>w_run = rid, w_pc = WaitRegistered st\<rparr>)\<rparr>)"
| expire: "waiters s i = Some \<lparr>w_run = rid, w_pc = WaitRegistered st\<rparr> \<Longrightarrow>
     wait_step i s (s\<lparr>waiters := (waiters s)(i \<mapsto> \<lparr>w_run = rid, w_pc = WaitReturned (wait_timed_out st)\<rparr>)\<rparr>)"

inductive core_step :: "core_runtime \<Rightarrow> core_runtime \<Rightarrow> bool" where
  core_submit: "submit now now' req s = Inr (acc, t) \<Longrightarrow> core_step s t"
| core_task: "task_step rid s t \<Longrightarrow> core_step s t"
| core_wait: "wait_step i s t \<Longrightarrow> core_step s t"

definition core_init :: "core_runtime \<Rightarrow> bool" where
  "core_init s \<longleftrightarrow> (\<exists>g. s = core_new g)"

abbreviation core_reach :: "core_runtime \<Rightarrow> bool" where
  "core_reach \<equiv> reach core_init core_step"

subsection \<open>The registry meets the contract of a unique registry\<close>

lemmas registry_defs = register_run_def get_record_def run_state_of_def mark_running_def
  mark_completed_def mark_failed_def run_result_of_def fresh_record_def

interpretation run_reg: unique_registry
  "\<lambda>(now, rid). register_run now rid" "\<lambda>r. r" "\<lambda>(now, rid). rid"
  "\<lambda>(now, rid). fresh_record now rid" "\<lambda>_. True" "\<lambda>_. True"
  by unfold_locales (auto simp: register_run_def split: if_splits)

subsection \<open>Invariant\<close>

fun is_over :: "run_status \<Rightarrow> bool" where
  "is_over (StCompleted _) = True"
| "is_over (StFailed _) = True"
| "is_over _ = False"

fun status_ok :: "task_pc \<Rightarrow> run_record \<Rightarrow> bool" where
  "status_ok TaskSpawned r = (rr_status r = StAccepted \<and> rr_ended_at_ms r = None)"
| "status_ok TaskRecorded r = (is_over (rr_status r) \<and> rr_ended_at_ms r \<noteq> None)"
| "status_ok TaskDone r = (is_over (rr_status r) \<and> rr_ended_at_ms r \<noteq> None)"
| "status_ok _ r = (rr_status r = StRunning \<and> rr_ended_at_ms r = None)"

fun holds_session :: "task_pc \<Rightarrow> bool" where
  "holds_session TaskWaitGlobal = True"
| "holds_session TaskExecuting = True"
| "holds_session _ = False"

definition task_ok :: "string \<Rightarrow> task option \<Rightarrow> run_record option \<Rightarrow> bool" where
  "task_ok rid mt mr \<longleftrightarrow> (case mt of
     None \<Rightarrow> mr = None
   | Some tk \<Rightarrow> req_run_id (t_req tk) = rid \<and>
       (\<exists>r. mr = Some r \<and> rr_run_id r = rid \<and> status_ok (t_pc tk) r))"

definition inv_runs :: "core_runtime \<Rightarrow> bool" where
  "inv_runs s \<longleftrightarrow> (\<forall>rid. task_ok rid (tasks s rid) (runs s rid))"

definition inv_session :: "core_runtime \<Rightarrow> bool" where
  "inv_session s \<longleftrightarrow>
     (\<forall>k rid. session_lanes s k = Some (Some rid) \<longrightarrow>
        (\<exists>req pc. at s rid req pc \<and> req_session_key req = k \<and> holds_session pc)) \<and>
     (\<forall>rid req pc. at s rid req pc \<longrightarrow> holds_session pc \<longrightarrow>
        session_lanes s (req_session_key req) = Some (Some rid)) \<and>
     (\<forall>rid req. at s rid req TaskWaitSession \<longrightarrow> session_lanes s (req_session_key req) \<noteq> None)"

definition inv_global :: "core_runtime \<Rightarrow> bool" where
  "inv_global s \<longleftrightarrow>
     (\<forall>rid. global_lane s = Some rid \<longrightarrow> use_global_lane s \<and> (\<exists>req. at s rid req TaskExecuting)) \<and>
     (\<forall>rid req. at s rid req TaskExecuting \<longrightarrow> use_global_lane s \<longrightarrow> global_lane s = Some rid) \<and>
     (\<forall>rid req. at s rid req TaskWaitGlobal \<longrightarrow> use_global_lane s)"

definition inv_wait :: "core_runtime \<Rightarrow> bool" where
  "inv_wait s \<longleftrightarrow> (\<forall>i w. waiters s i = Some w \<longrightarrow> (\<exists>r. runs s (w_run w) = Some r \<and>
     (\<forall>res. w_pc w = WaitReturned res \<longrightarrow> wr_status res \<noteq> WaitTimeout \<longrightarrow> wait_look r = Some res)))"

definition core_inv :: "core_runtime \<Rightarrow> bool" where
  "core_inv s \<longleftrightarrow> inv_runs s \<and> inv_session s \<and> inv_global s \<and> inv_wait s"

lemma move_task_simps [simp]:
  "runs (move_task rid pc s) = runs s"
  "session_lanes (move_task rid pc s) = session_lanes s"
  "global_lane (move_task rid pc s) = global_lane s"
  "use_global_lane (move_task rid pc s) = use_global_lane s"
  "waiters (move_task rid pc s) = waiters s"
  "tasks (move_task rid pc s) = (tasks s)(rid := map_option (t_pc_update (\<lambda>_. pc)) (tasks s rid))"
  by (simp_all add: move_task_def)

lemma record_outcome_known:
  "reg rid = Some r \<Longrightarrow> \<exists>st. is_over st \<and>
     record_outcome now rid res reg = reg(rid \<mapsto> r\<lparr>rr_ended_at_ms := Some now, rr_status := st\<rparr>)"
  by (cases res) (auto simp: record_outcome_def mark_completed_def mark_failed_def get_record_def
      intro: exI [of _ "StCompleted _"] exI [of _ "StFailed _"])

lemma inv_runsD:
  "inv_runs s \<Longrightarrow> at s rid req pc \<Longrightarrow>
     req_run_id req = rid \<and> (\<exists>r. runs s rid = Some r \<and> rr_run_id r = rid \<and> status_ok pc r)"
  unfolding inv_runs_def task_ok_def by (drule spec [of _ rid]) simp

lemma inv_runs_update:
  assumes "inv_runs s" "at s rid req pc" "runs t = (runs s)(rid \<mapsto> r)"
    and "tasks t = (tasks s)(rid \<mapsto> \<lparr>t_req = req, t_pc = pc'\<rparr>)" "rr_run_id r = rid" "status_ok pc' r"
  shows "inv_runs t"
  unfolding inv_runs_def
proof
  fix j
  show "task_ok j (tasks t j) (runs t j)"
    using assms inv_runsD [OF assms(1,2)] by (cases "j = rid") (auto simp: inv_runs_def task_ok_def)
qed

lemma inv_runs_frame:
  assumes "inv_runs s" "at s rid req pc" "runs t = runs s" "tasks t = tasks s"
    and "\<And>r. status_ok pc r \<Longrightarrow> status_ok pc' r"
  shows "inv_runs (move_task rid pc' t)"
proof -
  obtain r where r: "runs s rid = Some r" "rr_run_id r = rid" "status_ok pc r"
    using inv_runsD [OF assms(1,2)] by blast
  then have "runs t = (runs s)(rid \<mapsto> r)" using assms(3) by auto
  with assms r show ?thesis
    by (intro inv_runs_update [OF assms(1,2), where r = r and pc' = pc']) simp_all
qed

lemma task_step_inv_runs: "task_step rid s t \<Longrightarrow> inv_runs s \<Longrightarrow> inv_runs t"
proof (induction rule: task_step.induct)
  case (start s rid req reg)
  then obtain r where "runs s rid = Some r" "rr_run_id r = rid" "status_ok TaskSpawned r"
    using inv_runsD by blast
  with start show ?case
    by (intro inv_runs_update [OF start.prems start.hyps(1),
          where r = "r\<lparr>rr_status := StRunning\<rparr>" and pc' = TaskStarted])
      (simp_all add: mark_running_def get_record_def)
next
  case (start_unknown s rid req e)
  then show ?case using inv_runsD [of s rid req TaskSpawned]
    by (auto simp: mark_running_def get_record_def)
next
  case (record_result s rid req res now)
  then obtain r where r: "runs s rid = Some r" "rr_run_id r = rid" "status_ok (TaskReturned res) r"
    using inv_runsD by blast
  then obtain st where "is_over st"
    "record_outcome now rid res (runs s) = (runs s)(rid \<mapsto> r\<lparr>rr_ended_at_ms := Some now, rr_status := st\<rparr>)"
    using record_outcome_known by blast
  with r record_result show ?case
    by (intro inv_runs_update [OF record_result.prems record_result.hyps(1),
          where r = "r\<lparr>rr_ended_at_ms := Some now, rr_status := st\<rparr>" and pc' = TaskRecorded]) simp_all
next
  case (lock_session s rid req)
  then show ?case by (auto intro: inv_runs_frame)
qed (erule (1) inv_runs_frame; simp)+

lemma inv_sessionD:
  "inv_session s \<Longrightarrow> at s rid req pc \<Longrightarrow> holds_session pc \<Longrightarrow> session_lanes s (req_session_key req) = Some (Some rid)"
  "inv_session s \<Longrightarrow> session_lanes s k = Some (Some rid) \<Longrightarrow> \<exists>req pc. at s rid req pc \<and> req_session_key req = k \<and> holds_session pc"
  "inv_session s \<Longrightarrow> at s rid req TaskWaitSession \<Longrightarrow> session_lanes s (req_session_key req) \<noteq> None"
  unfolding inv_session_def by blast+

lemma inv_globalD:
  "inv_global s \<Longrightarrow> global_lane s = Some rid \<Longrightarrow> use_global_lane s \<and> (\<exists>req. at s rid req TaskExecuting)"
  "inv_global s \<Longrightarrow> at s rid req TaskExecuting \<Longrightarrow> use_global_lane s \<Longrightarrow> global_lane s = Some rid"
  "inv_global s \<Longrightarrow> at s rid req TaskWaitGlobal \<Longrightarrow> use_global_lane s"
  unfolding inv_global_def by blast+

lemma inv_sessionI:
  assumes "\<And>k rid. session_lanes s k = Some (Some rid) \<Longrightarrow> \<exists>req pc. at s rid req pc \<and> req_session_key req = k \<and> holds_session pc"
    and "\<And>rid req pc. at s rid req pc \<Longrightarrow> holds_session pc \<Longrightarrow> session_lanes s (req_session_key req) = Some (Some rid)"
    and "\<And>rid req. at s rid req TaskWaitSession \<Longrightarrow> session_lanes s (req_session_key req) \<noteq> None"
  shows "inv_session s"
  using assms unfolding inv_session_def by blast

lemma inv_globalI:
  assumes "\<And>rid. global_lane s = Some rid \<Longrightarrow> use_global_lane s \<and> (\<exists>req. at s rid req TaskExecuting)"
    and "\<And>rid req. at s rid req TaskExecuting \<Longrightarrow> use_global_lane s \<Longrightarrow> global_lane s = Some rid"
    and "\<And>rid req. at s rid req TaskWaitGlobal \<Longrightarrow> use_global_lane s"
  shows "inv_global s"
  using assms unfolding inv_global_def by blast

text \<open>A step that takes and releases no session lane keeps the session invariant.\<close>

lemma inv_session_frame:
  assumes "inv_session s" "at s rid req pc" "session_lanes t = session_lanes s" "tasks t = tasks s"
    and "holds_session pc' = holds_session pc" "pc' \<noteq> TaskWaitSession"
  shows "inv_session (move_task rid pc' t)"
proof (rule inv_sessionI, goal_cases)
  case (1 k j)
  then show ?case using assms inv_sessionD(2) [OF assms(1), of k j] by (cases "j = rid") auto
next
  case (2 j rq p)
  then show ?case
    using assms inv_sessionD(1) [OF assms(1), of j rq p] inv_sessionD(1) [OF assms(1,2)]
    by (cases "j = rid") auto
next
  case (3 j rq)
  then show ?case using assms inv_sessionD(3) [OF assms(1), of j rq] by (cases "j = rid") auto
qed

lemma task_step_inv_session: "task_step rid s t \<Longrightarrow> inv_session s \<Longrightarrow> inv_session t"
proof (induction rule: task_step.induct)
  case (enter_lane s rid req)
  note D = inv_sessionD [OF enter_lane.prems] and h = enter_lane.hyps
  show ?case
  proof (rule inv_sessionI, goal_cases)
    case (1 k j)
    then have "session_lanes s k = Some (Some j)"
      by (auto simp: get_session_lane_def split: option.splits if_splits)
    with D(2) [OF this] h show ?case by (cases "j = rid") auto
  next
    case (2 j rq p)
    then show ?case using D(1) [of j rq p] h
      by (cases "j = rid") (auto simp: get_session_lane_def split: option.splits)
  next
    case (3 j rq)
    then show ?case using D(3) [of j rq] h
      by (cases "j = rid") (auto simp: get_session_lane_def split: option.splits)
  qed
next
  case (lock_session s rid req)
  note D = inv_sessionD [OF lock_session.prems] and h = lock_session.hyps
  show ?case
  proof (rule inv_sessionI, goal_cases)
    case (1 k j)
    then show ?case using D(2) [of k j] h by (cases "j = rid") (auto split: if_splits)
  next
    case (2 j rq p)
    then show ?case using D(1) [of j rq p] h by (cases "j = rid") (auto split: if_splits)
  next
    case (3 j rq)
    then show ?case using D(3) [of j rq] h by (cases "j = rid") (auto split: if_splits)
  qed
next
  case (brain_return s rid req res)
  note D = inv_sessionD [OF brain_return.prems] and h = brain_return.hyps
  show ?case
  proof (rule inv_sessionI, goal_cases)
    case (1 k j)
    then show ?case using D(2) [of k j] h by (cases "j = rid") (auto split: if_splits)
  next
    case (2 j rq p)
    then show ?case using D(1) [of j rq p] D(1) [of rid req TaskExecuting] h
      by (cases "j = rid") (auto split: if_splits)
  next
    case (3 j rq)
    then show ?case using D(3) [of j rq] h by (cases "j = rid") (auto split: if_splits)
  qed
qed (erule (1) inv_session_frame; simp)+

lemma inv_global_frame:
  assumes "inv_global s" "at s rid req pc" "global_lane t = global_lane s" "use_global_lane t = use_global_lane s"
    and "tasks t = tasks s" "pc \<noteq> TaskExecuting" "pc' = TaskExecuting \<Longrightarrow> \<not> use_global_lane s"
    and "pc' = TaskWaitGlobal \<Longrightarrow> use_global_lane s"
  shows "inv_global (move_task rid pc' t)"
proof (rule inv_globalI, goal_cases)
  case (1 j)
  then show ?case using assms inv_globalD(1) [OF assms(1), of j] by (cases "j = rid") auto
next
  case (2 j rq)
  then show ?case using assms inv_globalD(2) [OF assms(1), of j rq] by (cases "j = rid") auto
next
  case (3 j rq)
  then show ?case using assms inv_globalD(3) [OF assms(1), of j rq] by (cases "j = rid") auto
qed

lemma task_step_inv_global: "task_step rid s t \<Longrightarrow> inv_global s \<Longrightarrow> inv_global t"
proof (induction rule: task_step.induct)
  case (lock_global s rid req)
  note D = inv_globalD [OF lock_global.prems] and h = lock_global.hyps
  show ?case
  proof (rule inv_globalI, goal_cases)
    case (1 j)
    then show ?case using h D(3) by auto
  next
    case (2 j rq)
    then show ?case using h D(2) [of j rq] by (cases "j = rid") auto
  next
    case (3 j rq)
    then show ?case using h D(3) [of j rq] by (cases "j = rid") auto
  qed
next
  case (brain_return s rid req res)
  note D = inv_globalD [OF brain_return.prems] and h = brain_return.hyps
  show ?case
  proof (rule inv_globalI, goal_cases)
    case (1 j)
    then show ?case using h D(1) [of j] by (auto split: if_splits)
  next
    case (2 j rq)
    then show ?case using h D(2) [of j rq] D(2) [of rid req] by (cases "j = rid") auto
  next
    case (3 j rq)
    then show ?case using h D(3) [of j rq] by (cases "j = rid") auto
  qed
qed (erule (1) inv_global_frame; simp split: if_splits)+

text \<open>A run that is over keeps its record: only the task that owns it writes it, and it has finished.\<close>

lemma task_step_over:
  assumes "task_step rid s t" "inv_runs s" "runs s j = Some r" "is_over (rr_status r)"
  shows "runs t j = Some r"
  using assms
proof (induction rule: task_step.induct)
  case (start s rid req reg)
  then show ?case using inv_runsD [OF start.prems(1) start.hyps(1)]
    by (cases "j = rid") (auto simp: mark_running_def get_record_def)
next
  case (record_result s rid req res now)
  then obtain r' where "runs s rid = Some r'" "rr_status r' = StRunning"
    using inv_runsD [OF record_result.prems(1) record_result.hyps(1)] by auto
  then show ?case using record_result record_outcome_known [of "runs s" rid r' now res]
    by (cases "j = rid") auto
qed simp_all

lemma task_step_dom: "task_step rid s t \<Longrightarrow> runs s j = Some r \<Longrightarrow> \<exists>r'. runs t j = Some r'"
proof (induction rule: task_step.induct)
  case (start s rid req reg)
  then show ?case by (cases "j = rid") (auto simp: mark_running_def get_record_def split: option.splits)
next
  case (record_result s rid req res now)
  then show ?case
    by (cases "j = rid"; cases "runs s rid")
      (auto simp: record_outcome_def mark_completed_def mark_failed_def get_record_def
        split: sum.splits option.splits)
qed simp_all

lemma wait_look_over: "wait_look r = Some res \<Longrightarrow> is_over (rr_status r)"
  by (auto split: run_status.splits)

lemma wait_look_not_timeout: "wait_look r = Some res \<Longrightarrow> wr_status res \<noteq> WaitTimeout"
  by (auto split: run_status.splits)

lemma task_step_waiters:
  "task_step rid s t \<Longrightarrow> waiters t i = Some w \<Longrightarrow>
     \<exists>w'. waiters s i = Some w' \<and> w_run w = w_run w' \<and> (w_pc w = w_pc w' \<or> w_pc w = WaitLooking)"
proof (induction rule: task_step.induct)
  case (notify s rid req)
  then obtain w' where w': "waiters s i = Some w'" by (auto simp: notify_waiters_def)
  with notify show ?case by (cases "w_pc w'") (auto simp: notify_waiters_def split: if_splits)
qed simp_all

lemma task_step_inv_wait:
  assumes "task_step rid s t" "inv_runs s" "inv_wait s"
  shows "inv_wait t"
  unfolding inv_wait_def
proof (intro allI impI)
  fix i w assume "waiters t i = Some w"
  then obtain w' where w': "waiters s i = Some w'" "w_run w = w_run w'"
      "w_pc w = w_pc w' \<or> w_pc w = WaitLooking"
    using task_step_waiters [OF assms(1)] by blast
  then obtain r where r: "runs s (w_run w) = Some r"
      "\<forall>res. w_pc w' = WaitReturned res \<longrightarrow> wr_status res \<noteq> WaitTimeout \<longrightarrow> wait_look r = Some res"
    using assms(3) unfolding inv_wait_def by metis
  obtain r' where r': "runs t (w_run w) = Some r'"
    using task_step_dom [OF assms(1) r(1)] by blast
  have "wait_look r' = Some res" if "w_pc w = WaitReturned res" "wr_status res \<noteq> WaitTimeout" for res
    using that r w'(3) task_step_over [OF assms(1,2) r(1)] wait_look_over r' by fastforce
  with r' show "\<exists>r. runs t (w_run w) = Some r \<and>
      (\<forall>res. w_pc w = WaitReturned res \<longrightarrow> wr_status res \<noteq> WaitTimeout \<longrightarrow> wait_look r = Some res)"
    by blast
qed

lemma wait_step_frame:
  "wait_step i s t \<Longrightarrow> runs t = runs s \<and> tasks t = tasks s \<and> session_lanes t = session_lanes s \<and>
     global_lane t = global_lane s \<and> use_global_lane t = use_global_lane s"
  by (induction rule: wait_step.induct) auto

lemma wait_step_inv_wait: "wait_step i s t \<Longrightarrow> inv_wait s \<Longrightarrow> inv_wait t"
proof (induction rule: wait_step.induct)
  case (call s i rid r)
  then show ?case by (auto simp: inv_wait_def get_record_def split: option.splits)
next
  case (expire s i rid st)
  then show ?case by (fastforce simp: inv_wait_def wait_timed_out_def)
qed (fastforce simp: inv_wait_def)+

lemma submit_core_inv:
  assumes "submit now now' req s = Inr (acc, t)" "core_inv s"
  shows "core_inv t"
proof -
  let ?rid = "req_run_id req"
  have free: "runs s ?rid = None" and t: "t = s\<lparr>runs := (runs s)(?rid \<mapsto> fresh_record now ?rid),
      tasks := (tasks s)(?rid \<mapsto> \<lparr>t_req = req, t_pc = TaskSpawned\<rparr>)\<rparr>"
    using assms(1) by (auto simp: submit_def register_run_def split: if_splits)
  have "task_ok ?rid (tasks s ?rid) (runs s ?rid)" using assms(2) by (simp add: core_inv_def inv_runs_def)
  with free have no_task: "tasks s ?rid = None" by (auto simp: task_ok_def split: option.splits)
  have "inv_runs t"
    using assms(2) t by (auto simp: core_inv_def inv_runs_def task_ok_def fresh_record_def)
  moreover have "inv_session t"
  proof (rule inv_sessionI, goal_cases)
    case (1 k j)
    then have "session_lanes s k = Some (Some j)" using t by simp
    then obtain rq p where "at s j rq p \<and> req_session_key rq = k \<and> holds_session p"
      using assms(2) inv_sessionD(2) unfolding core_inv_def by blast
    then show ?case using no_task t by (cases "j = ?rid") auto
  next
    case (2 j rq p)
    then show ?case using assms(2) inv_sessionD(1) [of s j rq p] t
      by (cases "j = ?rid") (auto simp: core_inv_def)
  next
    case (3 j rq)
    then show ?case using assms(2) inv_sessionD(3) [of s j rq] t
      by (cases "j = ?rid") (auto simp: core_inv_def)
  qed
  moreover have "inv_global t"
  proof (rule inv_globalI, goal_cases)
    case (1 j)
    then show ?case using assms(2) inv_globalD(1) [of s j] no_task t
      by (cases "j = ?rid") (auto simp: core_inv_def)
  next
    case (2 j rq)
    then show ?case using assms(2) inv_globalD(2) [of s j rq] t
      by (cases "j = ?rid") (auto simp: core_inv_def)
  next
    case (3 j rq)
    then show ?case using assms(2) inv_globalD(3) [of s j rq] t
      by (cases "j = ?rid") (auto simp: core_inv_def)
  qed
  moreover have "inv_wait t"
    using assms(2) free t by (fastforce simp: core_inv_def inv_wait_def)
  ultimately show ?thesis by (simp add: core_inv_def)
qed

lemma core_step_inv: "core_step s t \<Longrightarrow> core_inv s \<Longrightarrow> core_inv t"
proof (induction rule: core_step.induct)
  case (core_submit now now' req s acc t)
  then show ?case by (blast intro: submit_core_inv)
next
  case (core_task rid s t)
  then show ?case
    using task_step_inv_runs [of rid s t] task_step_inv_session [of rid s t]
      task_step_inv_global [of rid s t] task_step_inv_wait [of rid s t] by (simp add: core_inv_def)
next
  case (core_wait i s t)
  have inv: "inv_runs s" "inv_session s" "inv_global s" "inv_wait s"
    using core_wait.prems by (simp_all add: core_inv_def)
  note frame = wait_step_frame [OF core_wait.hyps]
  have "inv_runs t" using inv(1) frame by (simp add: inv_runs_def)
  moreover have "inv_session t"
    using inv(2) frame unfolding inv_session_def by (simp only: simp_thms)
  moreover have "inv_global t"
    using inv(3) frame unfolding inv_global_def by (simp only: simp_thms)
  moreover have "inv_wait t" by (rule wait_step_inv_wait [OF core_wait.hyps inv(4)])
  ultimately show ?case by (simp add: core_inv_def)
qed

lemma core_init_inv: "core_init s \<Longrightarrow> core_inv s"
  by (auto simp: core_init_def core_new_def core_inv_def inv_runs_def task_ok_def inv_session_def
      inv_global_def inv_wait_def)

interpretation core: invariant_system core_init core_step core_inv
  by unfold_locales (auto intro: core_init_inv core_step_inv)


lemmas core_reach_inv = core.inv_reach [unfolded core_inv_def]

subsection \<open>Mutual exclusion, finality, draining\<close>

text \<open>
  \<^bold>\<open>C1.\<close> Lanes exclude each other: in every reachable state of the runtime, two runs whose
  brains are executing at the same time have different session keys, and with the global lane
  there is at most one executing run at all.
\<close>

theorem lane_mutual_exclusion:
  assumes "core_reach s" "at s rid1 req1 TaskExecuting" "at s rid2 req2 TaskExecuting"
    and "req_session_key req1 = req_session_key req2 \<or> use_global_lane s"
  shows "rid1 = rid2"
proof -
  have inv: "inv_session s" "inv_global s" using core_reach_inv [OF assms(1)] by auto
  from assms(4) show ?thesis
  proof
    assume "req_session_key req1 = req_session_key req2"
    then show ?thesis
      using inv_sessionD(1) [OF inv(1) assms(2)] inv_sessionD(1) [OF inv(1) assms(3)] by simp
  next
    assume "use_global_lane s"
    then show ?thesis
      using inv_globalD(2) [OF inv(2) assms(2)] inv_globalD(2) [OF inv(2) assms(3)] by simp
  qed
qed

lemma core_step_over:
  assumes "core_step s t" "core_inv s" "runs s j = Some r" "is_over (rr_status r)"
  shows "runs t j = Some r"
  using assms
proof (induction rule: core_step.induct)
  case (core_submit now now' req s acc t)
  then show ?case by (auto simp: submit_def register_run_def split: if_splits)
next
  case (core_task rid s t)
  then show ?case using task_step_over by (auto simp: core_inv_def)
next
  case (core_wait i s t)
  then show ?case using wait_step_frame by metis
qed

text \<open>
  \<^bold>\<open>C2.\<close> Results are final: once a run is completed or failed, no later step of any task, any
  waiter or any submission changes its record, so every later \<open>state\<close>, \<open>wait\<close> and \<open>result\<close>
  reports the same outcome.
\<close>

theorem run_outcome_final:
  assumes "core_reach s" "core_step\<^sup>*\<^sup>* s t" "runs s rid = Some r" "is_over (rr_status r)"
  shows "runs t rid = Some r"
  using assms(2)
proof (induction rule: rtranclp_induct)
  case base
  show ?case by (rule assms(3))
next
  case (step u v)
  have "core_inv u" by (rule core.inv_steps [OF step.hyps(1) core.inv_reach [OF assms(1)]])
  then show ?case using core_step_over [OF step.hyps(2)] step.IH assms(4) by blast
qed

text \<open>How many steps a task still has to take.\<close>

fun pc_rank :: "task_pc \<Rightarrow> nat" where
  "pc_rank TaskSpawned = 7"
| "pc_rank TaskStarted = 6"
| "pc_rank TaskWaitSession = 5"
| "pc_rank TaskWaitGlobal = 4"
| "pc_rank TaskExecuting = 3"
| "pc_rank (TaskReturned _) = 2"
| "pc_rank TaskRecorded = 1"
| "pc_rank TaskDone = 0"

definition work_left :: "core_runtime \<Rightarrow> nat" where
  "work_left s = (\<Sum>rid\<in>dom (tasks s). pc_rank (t_pc (the (tasks s rid))))"

lemma task_step_rank:
  "task_step rid s t \<Longrightarrow> \<exists>req pc pc'. at s rid req pc \<and> pc_rank pc' < pc_rank pc \<and>
     tasks t = (tasks s)(rid \<mapsto> \<lparr>t_req = req, t_pc = pc'\<rparr>)"
  by (induction rule: task_step.induct) (auto, force+)

lemma task_step_work:
  assumes "task_step rid s t" "finite (dom (tasks s))"
  shows "work_left t < work_left s \<and> finite (dom (tasks t))"
proof -
  obtain req pc pc' where h: "at s rid req pc" "pc_rank pc' < pc_rank pc"
      "tasks t = (tasks s)(rid \<mapsto> \<lparr>t_req = req, t_pc = pc'\<rparr>)"
    using task_step_rank [OF assms(1)] by blast
  have dom: "dom (tasks t) = dom (tasks s)" using h by auto
  have "work_left t < work_left s"
    unfolding work_left_def dom
    using assms(2) h by (intro sum_strict_mono_ex1) (auto intro: bexI [of _ rid])
  then show ?thesis using assms(2) dom by simp
qed

text \<open>Some task can move as long as one is not done: no cycle of tasks waiting for lanes.\<close>

lemma lanes_progress:
  assumes "core_inv s" "at s rid req pc" "pc \<noteq> TaskDone"
  shows "\<exists>j t. task_step j s t"
proof -
  have inv: "inv_runs s" "inv_session s" "inv_global s" using assms(1) by (auto simp: core_inv_def)
  have exec: "\<exists>j t. task_step j s t" if "at s j rq TaskExecuting" for j rq
    using task_step.brain_return [OF that] by blast
  have glob: "\<exists>j t. task_step j s t" if "at s j rq TaskWaitGlobal" for j rq
  proof (cases "global_lane s")
    case None
    then show ?thesis using task_step.lock_global [OF that] by blast
  next
    case (Some h)
    then show ?thesis using inv_globalD(1) [OF inv(3)] exec by blast
  qed
  show ?thesis
  proof (cases pc)
    case TaskSpawned
    then show ?thesis using assms(2) task_step.start task_step.start_unknown
      by (cases "mark_running rid (runs s)") blast+
  next
    case TaskWaitSession
    then obtain lane where "session_lanes s (req_session_key req) = Some lane"
      using inv_sessionD(3) [OF inv(2)] assms(2) by blast
    then show ?thesis
    proof (cases lane)
      case None
      then show ?thesis using TaskWaitSession assms(2) task_step.lock_session
        \<open>session_lanes s (req_session_key req) = Some lane\<close> by blast
    next
      case (Some h)
      then obtain rq p where "at s h rq p" "holds_session p"
        using inv_sessionD(2) [OF inv(2)] \<open>session_lanes s (req_session_key req) = Some lane\<close> by blast
      then show ?thesis using exec glob by (cases p) auto
    qed
  qed (use assms exec glob task_step.enter_lane task_step.record_result task_step.notify in blast)+
qed

lemma core_reach_finite: "core_reach s \<Longrightarrow> finite (dom (tasks s))"
proof (induction rule: reach.induct)
  case (reach_init s)
  then show ?case by (auto simp: core_init_def core_new_def)
next
  case (reach_step s t)
  from reach_step(2) reach_step.IH show ?case
  proof (induction rule: core_step.induct)
    case (core_submit now now' req s acc t)
    then have "dom (tasks t) \<subseteq> insert (req_run_id req) (dom (tasks s))"
      by (auto simp: submit_def)
    then show ?case using core_submit.prems by (auto intro: finite_subset)
  next
    case (core_task rid s t)
    then show ?case using task_step_work by blast
  next
    case (core_wait i s t)
    then show ?case using wait_step_frame by metis
  qed
qed

text \<open>
  \<^bold>\<open>C3.\<close> Lanes never deadlock and every accepted run can be driven to its end: from every
  reachable state, at most \<open>work_left s\<close> steps of the spawned tasks (seven per task that has not
  started) lead to a state in which every task is done and every run has an outcome.
\<close>

theorem tasks_drain:
  assumes "core_reach s"
  shows "\<exists>n t. n \<le> work_left s \<and> ((\<lambda>u v. \<exists>j. task_step j u v) ^^ n) s t \<and>
     (\<forall>rid tk. tasks t rid = Some tk \<longrightarrow> t_pc tk = TaskDone \<and>
        (\<exists>r. runs t rid = Some r \<and> is_over (rr_status r)))"
  using assms
proof (induction "work_left s" arbitrary: s rule: less_induct)
  case less
  have inv: "core_inv s" by (rule core.inv_reach [OF less.prems])
  show ?case
  proof (cases "\<exists>rid req pc. at s rid req pc \<and> pc \<noteq> TaskDone")
    case True
    then obtain j u where u: "task_step j s u" using lanes_progress [OF inv] by blast
    have lt: "work_left u < work_left s"
      using task_step_work [OF u core_reach_finite [OF less.prems]] by simp
    have "core_reach u" using less.prems u by (blast intro: reach_step core_task)
    then obtain n t where n: "n \<le> work_left u" "((\<lambda>u v. \<exists>j. task_step j u v) ^^ n) u t"
        and t: "\<forall>rid tk. tasks t rid = Some tk \<longrightarrow> t_pc tk = TaskDone \<and>
          (\<exists>r. runs t rid = Some r \<and> is_over (rr_status r))"
      using less.hyps [OF lt] by blast
    have "((\<lambda>u v. \<exists>j. task_step j u v) ^^ Suc n) s t"
      using u n(2) by (blast intro: relpowp_Suc_I2)
    then show ?thesis using n(1) lt t by (intro exI [of _ "Suc n"] exI [of _ t]) auto
  next
    case False
    have "t_pc tk = TaskDone \<and> (\<exists>r. runs s rid = Some r \<and> is_over (rr_status r))"
      if "tasks s rid = Some tk" for rid tk
    proof -
      have "at s rid (t_req tk) (t_pc tk)" using that by simp
      then show ?thesis using False inv inv_runsD [of s rid "t_req tk" TaskDone]
        by (auto simp: core_inv_def)
    qed
    then show ?thesis by (intro exI [of _ 0] exI [of _ s]) auto
  qed
qed


subsection \<open>What a waiter learns\<close>

text \<open>
  Waiting is sound: when \<open>wait\<close> returns anything but a timeout, it reports exactly the
  outcome the registry holds (status, both timestamps, error), and \<open>wait_for_outcome\<close> then
  delivers the stored result or the stored error, never a timeout.
\<close>

theorem wait_reports_outcome:
  assumes "core_reach s" "waiters s i = Some \<lparr>w_run = rid, w_pc = WaitReturned res\<rparr>"
    and "wr_status res \<noteq> WaitTimeout"
  shows "\<exists>r. runs s rid = Some r \<and> wait_look r = Some res \<and>
     wait_for_outcome res (runs s) rid = Inr (case rr_status r of
       StCompleted run \<Rightarrow> OutcomeCompleted run | StFailed e \<Rightarrow> OutcomeFailed e | _ \<Rightarrow> OutcomeTimeout) \<and>
     is_over (rr_status r)"
proof -
  have "inv_wait s" using core_reach_inv [OF assms(1)] by simp
  then obtain r where r: "runs s rid = Some r" "wait_look r = Some res"
    using assms(2,3) unfolding inv_wait_def by fastforce
  then have "is_over (rr_status r)" by (blast dest: wait_look_over)
  then show ?thesis using r assms(3)
    by (auto simp: wait_for_outcome_def run_result_of_def get_record_def
        split: wait_status.splits run_status.splits)
qed

text \<open>
  A waiter that registered before the notification is woken by it: the notifying step
  sends it back to its look at the record, and that look returns the outcome.
\<close>

theorem registered_waiter_woken:
  assumes "core_reach s" "at s rid req TaskRecorded"
    and "waiters s i = Some \<lparr>w_run = rid, w_pc = WaitRegistered st\<rparr>"
  shows "\<exists>t u res. task_step rid s t \<and> waiters t i = Some \<lparr>w_run = rid, w_pc = WaitLooking\<rparr> \<and>
     wait_step i t u \<and> waiters u i = Some \<lparr>w_run = rid, w_pc = WaitReturned res\<rparr> \<and>
     wr_status res \<noteq> WaitTimeout"
proof -
  let ?t = "move_task rid TaskDone (s\<lparr>waiters := notify_waiters rid (waiters s)\<rparr>)"
  have inv: "inv_runs s" using core_reach_inv [OF assms(1)] by simp
  obtain r where r: "runs s rid = Some r" "is_over (rr_status r)"
    using inv_runsD [OF inv assms(2)] by auto
  then obtain res where res: "wait_look r = Some res" by (cases "rr_status r") auto
  have w: "waiters ?t i = Some \<lparr>w_run = rid, w_pc = WaitLooking\<rparr>"
    using assms(3) by (simp add: notify_waiters_def)
  have "wait_step i ?t (?t\<lparr>waiters := (waiters ?t)(i \<mapsto> \<lparr>w_run = rid, w_pc = WaitReturned res\<rparr>)\<rparr>)"
    using wait_step.look_over [OF w _ res] r(1) by simp
  then show ?thesis
    using task_step.notify [OF assms(2)] w wait_look_not_timeout [OF res]
    by (intro exI [of _ ?t] exI [of _ "?t\<lparr>waiters := (waiters ?t)(i \<mapsto>
          \<lparr>w_run = rid, w_pc = WaitReturned res\<rparr>)\<rparr>"] exI [of _ res]) simp
qed

subsection \<open>An executable scheduler for the step relation\<close>

text \<open>
  One step of a task, with the clock and the brain's answer as arguments, and one move of a
  waiter. \<open>run_acts\<close> replays a schedule; whatever it reaches, the step relation reaches.
\<close>

definition task_next ::
    "nat \<Rightarrow> agent_run_result kelvin_result \<Rightarrow> string \<Rightarrow> core_runtime \<Rightarrow> core_runtime option" where
  "task_next now res rid s = (case tasks s rid of None \<Rightarrow> None | Some tk \<Rightarrow>
     let k = req_session_key (t_req tk) in (case t_pc tk of
       TaskSpawned \<Rightarrow> Some (case mark_running rid (runs s) of
         Inr reg \<Rightarrow> move_task rid TaskStarted (s\<lparr>runs := reg\<rparr>) | Inl _ \<Rightarrow> move_task rid TaskDone s)
     | TaskStarted \<Rightarrow> Some (move_task rid TaskWaitSession
         (s\<lparr>session_lanes := get_session_lane k (session_lanes s)\<rparr>))
     | TaskWaitSession \<Rightarrow> if session_lanes s k = Some None
         then Some (move_task rid (if use_global_lane s then TaskWaitGlobal else TaskExecuting)
           (s\<lparr>session_lanes := (session_lanes s)(k \<mapsto> Some rid)\<rparr>)) else None
     | TaskWaitGlobal \<Rightarrow> if global_lane s = None
         then Some (move_task rid TaskExecuting (s\<lparr>global_lane := Some rid\<rparr>)) else None
     | TaskExecuting \<Rightarrow> Some (move_task rid (TaskReturned res)
         (s\<lparr>global_lane := (if use_global_lane s then None else global_lane s),
            session_lanes := (session_lanes s)(k \<mapsto> None)\<rparr>))
     | TaskReturned out \<Rightarrow> Some (move_task rid TaskRecorded
         (s\<lparr>runs := record_outcome now rid out (runs s)\<rparr>))
     | TaskRecorded \<Rightarrow> Some (move_task rid TaskDone (s\<lparr>waiters := notify_waiters rid (waiters s)\<rparr>))
     | TaskDone \<Rightarrow> None))"

definition wait_next :: "nat \<Rightarrow> core_runtime \<Rightarrow> core_runtime option" where
  "wait_next i s = (case waiters s i of None \<Rightarrow> None | Some w \<Rightarrow>
     let move = (\<lambda>pc. s\<lparr>waiters := (waiters s)(i \<mapsto> w\<lparr>w_pc := pc\<rparr>)\<rparr>) in (case w_pc w of
       WaitLooking \<Rightarrow> (case runs s (w_run w) of None \<Rightarrow> None | Some r \<Rightarrow> (case wait_look r of
           Some res \<Rightarrow> Some (move (WaitReturned res))
         | None \<Rightarrow> Some (move (WaitUnregistered (rr_started_at_ms r)))))
     | WaitUnregistered st \<Rightarrow> Some (move (WaitRegistered st))
     | WaitRegistered st \<Rightarrow> Some (move (WaitReturned (wait_timed_out st)))
     | WaitReturned _ \<Rightarrow> None))"

datatype core_act =
    ActSubmit nat agent_run_request
  | ActTask nat "agent_run_result kelvin_result" string
  | ActCallWait nat string
  | ActWait nat

fun act_next :: "core_act \<Rightarrow> core_runtime \<Rightarrow> core_runtime option" where
  "act_next (ActSubmit now req) s = (case submit now now req s of Inl _ \<Rightarrow> None | Inr (_, t) \<Rightarrow> Some t)"
| "act_next (ActTask now res rid) s = task_next now res rid s"
| "act_next (ActCallWait i rid) s = (if waiters s i = None \<and> runs s rid \<noteq> None
     then Some (s\<lparr>waiters := (waiters s)(i \<mapsto> \<lparr>w_run = rid, w_pc = WaitLooking\<rparr>)\<rparr>) else None)"
| "act_next (ActWait i) s = wait_next i s"

fun run_acts :: "core_act list \<Rightarrow> core_runtime \<Rightarrow> core_runtime option" where
  "run_acts [] s = Some s"
| "run_acts (a # as) s = (case act_next a s of None \<Rightarrow> None | Some t \<Rightarrow> run_acts as t)"

lemma task_next_step: "task_next now res rid s = Some t \<Longrightarrow> task_step rid s t"
  unfolding task_next_def Let_def
  apply (cases "tasks s rid"; simp)
  subgoal for tk
    using task_step.lock_session [of s rid "t_req tk"] task_step.brain_return [of s rid "t_req tk" res]
    by (cases tk; cases "t_pc tk"; cases "mark_running rid (runs s)")
      (auto intro: task_step.intros simp del: move_task_simps split: if_splits)
  done

lemma wait_next_step: "wait_next i s = Some t \<Longrightarrow> wait_step i s t"
  unfolding wait_next_def Let_def
  apply (cases "waiters s i"; simp)
  subgoal for w
    by (cases w; cases "w_pc w") (auto intro: wait_step.intros simp del: wait_look.simps split: option.splits)
  done

lemma act_next_step: "act_next a s = Some t \<Longrightarrow> core_step s t"
proof (cases a)
  case (ActCallWait i rid)
  assume "act_next a s = Some t"
  with ActCallWait show ?thesis
    by (auto intro!: core_wait [OF wait_step.call] simp: get_record_def split: if_splits)
qed (auto intro: core_submit core_task core_wait task_next_step wait_next_step
    split: sum.splits prod.splits)

lemma run_acts_steps: "run_acts as s = Some t \<Longrightarrow> core_step\<^sup>*\<^sup>* s t"
  by (induction as arbitrary: s)
    (auto intro: converse_rtranclp_into_rtranclp act_next_step split: option.splits)

lemma run_acts_reach: "run_acts as (core_new g) = Some s \<Longrightarrow> core_reach s"
  using reach_init [of core_init "core_new g" core_step]
  by (blast intro: reach_steps run_acts_steps core_init_def [THEN iffD2])

subsection \<open>Schedules\<close>

text \<open>
  Two runs of one session, a waiter on the first of them: \<open>demo_lanes\<close> stops while the first run
  executes, \<open>demo_recorded\<close> when its outcome is stored and the notification is due,
  \<open>demo_missed\<close> is the schedule in which the waiter registers after the notification.
\<close>

definition demo_req :: "string \<Rightarrow> agent_run_request" where
  "demo_req rid = \<lparr>req_run_id = rid, req_session_id = ''s'', req_session_key = ''k'',
     req_workspace_dir = ''.'', req_prompt = ''hi'', req_extra_system_prompt = None,
     req_timeout_ms = None, req_memory_query = None, req_max_tool_iterations = None\<rparr>"

abbreviation demo_err :: "agent_run_result kelvin_result" where
  "demo_err \<equiv> Inl (Backend ''x'')"

definition demo_lanes :: "core_act list" where
  "demo_lanes = [ActSubmit 1 (demo_req ''a''), ActSubmit 2 (demo_req ''b''),
     ActCallWait 0 ''a'', ActWait 0] @ replicate 4 (ActTask 3 demo_err ''a'') @
     replicate 2 (ActTask 4 demo_err ''b'')"

definition demo_recorded :: "core_act list" where
  "demo_recorded = demo_lanes @ [ActWait 0] @ replicate 2 (ActTask 5 demo_err ''a'')"

definition demo_missed :: "core_act list" where
  "demo_missed = demo_lanes @ replicate 3 (ActTask 5 demo_err ''a'') @ [ActWait 0]"

lemmas demo_simps = demo_lanes_def demo_recorded_def demo_missed_def demo_req_def numeral_eq_Suc
  core_new_def submit_def register_run_def fresh_record_def task_next_def wait_next_def
  mark_running_def get_record_def get_session_lane_def record_outcome_def mark_failed_def
  notify_waiters_def move_task_def wait_timed_out_def Let_def

lemma demo_lanes_run: "\<exists>s. run_acts demo_lanes (core_new True) = Some s \<and>
    at s ''a'' (demo_req ''a'') TaskExecuting \<and> at s ''b'' (demo_req ''b'') TaskWaitSession \<and>
    use_global_lane s"
  by (simp add: demo_simps)

lemma demo_recorded_run: "\<exists>s. run_acts demo_recorded (core_new True) = Some s \<and>
    at s ''a'' (demo_req ''a'') TaskRecorded \<and>
    waiters s 0 = Some \<lparr>w_run = ''a'', w_pc = WaitRegistered 1\<rparr> \<and>
    runs s ''a'' = Some \<lparr>rr_run_id = ''a'', rr_started_at_ms = 1, rr_ended_at_ms = Some 5,
      rr_status = StFailed ''backend failure: x''\<rparr>"
  by (simp add: demo_simps)

lemma demo_missed_run: "\<exists>s. run_acts demo_missed (core_new True) = Some s \<and>
    at s ''a'' (demo_req ''a'') TaskDone \<and>
    waiters s 0 = Some \<lparr>w_run = ''a'', w_pc = WaitRegistered 1\<rparr> \<and>
    runs s ''a'' = Some \<lparr>rr_run_id = ''a'', rr_started_at_ms = 1, rr_ended_at_ms = Some 5,
      rr_status = StFailed ''backend failure: x''\<rparr>"
  by (simp add: demo_simps)

lemma demo_told_run: "\<exists>s. run_acts (demo_recorded @ [ActTask 6 demo_err ''a'', ActWait 0]) (core_new True) = Some s \<and>
    waiters s 0 = Some \<lparr>w_run = ''a'', w_pc = WaitReturned \<lparr>wr_status = WaitError,
      wr_started_at_ms = 1, wr_ended_at_ms = Some 5, wr_error = Some ''backend failure: x''\<rparr>\<rparr>"
  by (simp add: demo_simps)

subsection \<open>The theorems at the schedules\<close>

theorem lane_mutual_exclusion_witness:
  "\<exists>s. core_reach s \<and> at s ''a'' (demo_req ''a'') TaskExecuting \<and>
     at s ''b'' (demo_req ''b'') TaskWaitSession \<and>
     \<not> (\<exists>rid req. at s rid req TaskExecuting \<and> rid \<noteq> ''a'')"
proof -
  obtain s where s: "run_acts demo_lanes (core_new True) = Some s"
      "at s ''a'' (demo_req ''a'') TaskExecuting" "at s ''b'' (demo_req ''b'') TaskWaitSession"
      "use_global_lane s"
    using demo_lanes_run by blast
  note r = run_acts_reach [OF s(1)]
  then show ?thesis using s lane_mutual_exclusion [OF r _ s(2)] by blast
qed

theorem run_outcome_final_witness:
  "\<exists>s t r. core_reach s \<and> runs s ''a'' = Some r \<and> is_over (rr_status r) \<and>
     at s ''a'' (demo_req ''a'') TaskRecorded \<and> core_step\<^sup>*\<^sup>* s t \<and>
     at t ''a'' (demo_req ''a'') TaskDone \<and> runs t ''a'' = Some r"
proof -
  obtain s r where s: "run_acts demo_recorded (core_new True) = Some s"
      "at s ''a'' (demo_req ''a'') TaskRecorded" "runs s ''a'' = Some r" "is_over (rr_status r)"
    using demo_recorded_run by auto
  let ?t = "move_task ''a'' TaskDone (s\<lparr>waiters := notify_waiters ''a'' (waiters s)\<rparr>)"
  have "core_step\<^sup>*\<^sup>* s ?t" using core_task [OF task_step.notify [OF s(2)]] by blast
  then show ?thesis
    using run_outcome_final [OF run_acts_reach [OF s(1)] _ s(3,4), of ?t] run_acts_reach [OF s(1)] s
    by (intro exI [of _ s] exI [of _ ?t] exI [of _ r]) simp
qed

theorem tasks_drain_witness:
  "\<exists>s n t. core_reach s \<and> at s ''a'' (demo_req ''a'') TaskExecuting \<and>
     at s ''b'' (demo_req ''b'') TaskWaitSession \<and> n \<le> work_left s \<and>
     ((\<lambda>u v. \<exists>j. task_step j u v) ^^ n) s t \<and>
     \<not> (\<exists>rid tk. tasks t rid = Some tk \<and> t_pc tk \<noteq> TaskDone)"
proof -
  obtain s where s: "run_acts demo_lanes (core_new True) = Some s"
      "at s ''a'' (demo_req ''a'') TaskExecuting" "at s ''b'' (demo_req ''b'') TaskWaitSession"
    using demo_lanes_run by blast
  note r = run_acts_reach [OF s(1)]
  obtain n t where "n \<le> work_left s" "((\<lambda>u v. \<exists>j. task_step j u v) ^^ n) s t"
      "\<forall>rid tk. tasks t rid = Some tk \<longrightarrow> t_pc tk = TaskDone \<and>
        (\<exists>r. runs t rid = Some r \<and> is_over (rr_status r))"
    using tasks_drain [OF r] by blast
  then show ?thesis using r s by blast
qed

theorem wait_reports_outcome_witness:
  "\<exists>s res. core_reach s \<and> waiters s 0 = Some \<lparr>w_run = ''a'', w_pc = WaitReturned res\<rparr> \<and>
     wr_error res = Some ''backend failure: x'' \<and>
     (\<exists>r. runs s ''a'' = Some r \<and> wait_look r = Some res \<and> is_over (rr_status r))"
proof -
  obtain s res where s: "run_acts (demo_recorded @ [ActTask 6 demo_err ''a'', ActWait 0]) (core_new True) = Some s"
      "waiters s 0 = Some \<lparr>w_run = ''a'', w_pc = WaitReturned res\<rparr>"
      "wr_status res \<noteq> WaitTimeout" "wr_error res = Some ''backend failure: x''"
    using demo_told_run by auto
  note r = run_acts_reach [OF s(1)]
  show ?thesis using wait_reports_outcome [OF r s(2,3)] r s by blast
qed

theorem registered_waiter_woken_witness:
  "\<exists>s t u res. core_reach s \<and> at s ''a'' (demo_req ''a'') TaskRecorded \<and>
     waiters s 0 = Some \<lparr>w_run = ''a'', w_pc = WaitRegistered 1\<rparr> \<and> task_step ''a'' s t \<and>
     wait_step 0 t u \<and> waiters u 0 = Some \<lparr>w_run = ''a'', w_pc = WaitReturned res\<rparr> \<and>
     wr_status res \<noteq> WaitTimeout"
proof -
  obtain s where s: "run_acts demo_recorded (core_new True) = Some s"
      "at s ''a'' (demo_req ''a'') TaskRecorded"
      "waiters s 0 = Some \<lparr>w_run = ''a'', w_pc = WaitRegistered 1\<rparr>"
    using demo_recorded_run by blast
  note r = run_acts_reach [OF s(1)]
  show ?thesis using registered_waiter_woken [OF r s(2,3)] r s by blast
qed

text \<open>
  \<^bold>\<open>C4.\<close> The notification can be missed: \<open>wait\<close> reads the status, drops the lock and only then
  creates the \<open>notified()\<close> future, and \<open>notify_waiters\<close> stores no permit. So there is a
  schedule in which the run is over and its task done while a caller of \<open>wait\<close> is registered
  with nobody left to wake it: its only step is the timeout, and \<open>wait_for_outcome\<close> reports a
  timeout of a run whose outcome the registry holds.
\<close>

theorem wait_lost_wakeup:
  "\<exists>s t r. core_reach s \<and> at s ''a'' (demo_req ''a'') TaskDone \<and>
     runs s ''a'' = Some r \<and> is_over (rr_status r) \<and>
     waiters s 0 = Some \<lparr>w_run = ''a'', w_pc = WaitRegistered 1\<rparr> \<and>
     wait_step 0 s t \<and> waiters t 0 = Some \<lparr>w_run = ''a'', w_pc = WaitReturned (wait_timed_out 1)\<rparr> \<and>
     wait_for_outcome (wait_timed_out 1) (runs t) ''a'' = Inr OutcomeTimeout \<and>
     run_result_of (runs t) ''a'' = Inr (Some (StoredFailed ''backend failure: x''))"
proof -
  obtain s where s: "run_acts demo_missed (core_new True) = Some s"
      "at s ''a'' (demo_req ''a'') TaskDone"
      "waiters s 0 = Some \<lparr>w_run = ''a'', w_pc = WaitRegistered 1\<rparr>"
      "runs s ''a'' = Some \<lparr>rr_run_id = ''a'', rr_started_at_ms = 1, rr_ended_at_ms = Some 5,
        rr_status = StFailed ''backend failure: x''\<rparr>"
    using demo_missed_run by blast
  let ?t = "s\<lparr>waiters := (waiters s)(0 \<mapsto> \<lparr>w_run = ''a'', w_pc = WaitReturned (wait_timed_out 1)\<rparr>)\<rparr>"
  show ?thesis
    using s run_acts_reach [OF s(1)] wait_step.expire [OF s(3)]
    by (intro exI [of _ s] exI [of _ ?t])
      (simp add: wait_for_outcome_def wait_timed_out_def run_result_of_def get_record_def)
qed

end
