(* ===== verification/Plugin_Sdk.thy ===== *)
theory Plugin_Sdk
  imports Core_Types Registry_Spec "HOL-Library.Multiset" "HOL-Library.AList"
begin

section \<open>Plugins: manifests, policy, registries (kelvin-core/src/sdk.rs)\<close>

text \<open>
  A plugin manifest is validated, checked against the running core and the security policy,
  and entered into \<open>InMemoryPluginRegistry\<close>. The tool and model registries are built from
  it by a loop over the manifests sorted by id.

  The \<open>semver\<close> crate is a parameter, the record \<open>semver\<close>: parsing (with the text of the parse
  error), the order, the major number and the display of a version. A \<open>HashMap\<close> is an
  association list without duplicate keys; its iteration order is unspecified in Rust, so the
  results about a whole registry are proved for every order of its entries.
\<close>

subsection \<open>Enums\<close>

datatype plugin_capability =
    CapModelProvider | CapMemoryProvider | CapSessionStore | CapEventSink | CapToolProvider
  | CapFsRead | CapFsWrite | CapNetworkEgress | CapCommandExecution | CapCommandProvider | CapEnvAccess

text \<open>The derived \<open>Debug\<close> text of a capability.\<close>

fun show_capability :: "plugin_capability \<Rightarrow> string" where
  "show_capability CapModelProvider = ''ModelProvider''"
| "show_capability CapMemoryProvider = ''MemoryProvider''"
| "show_capability CapSessionStore = ''SessionStore''"
| "show_capability CapEventSink = ''EventSink''"
| "show_capability CapToolProvider = ''ToolProvider''"
| "show_capability CapFsRead = ''FsRead''"
| "show_capability CapFsWrite = ''FsWrite''"
| "show_capability CapNetworkEgress = ''NetworkEgress''"
| "show_capability CapCommandExecution = ''CommandExecution''"
| "show_capability CapCommandProvider = ''CommandProvider''"
| "show_capability CapEnvAccess = ''EnvAccess''"

datatype command_surface = SurfTui | SurfTelegram | SurfSlack | SurfDiscord | SurfWhatsApp

datatype sender_trust_tier = Blocked | Probation | Standard | Trusted | Owner

text \<open>\<^verbatim>\<open>derive(Ord)\<close>: the order of the declaration.\<close>

fun tier_rank :: "sender_trust_tier \<Rightarrow> nat" where
  "tier_rank Blocked = 0"
| "tier_rank Probation = 1"
| "tier_rank Standard = 2"
| "tier_rank Trusted = 3"
| "tier_rank Owner = 4"

lemma tier_rank_inject: "tier_rank a = tier_rank b \<longleftrightarrow> a = b"
  by (cases a; cases b) simp_all

instantiation sender_trust_tier :: linorder
begin

definition less_eq_sender_trust_tier :: "sender_trust_tier \<Rightarrow> sender_trust_tier \<Rightarrow> bool" where
  "a \<le> b \<longleftrightarrow> tier_rank a \<le> tier_rank b"

definition less_sender_trust_tier :: "sender_trust_tier \<Rightarrow> sender_trust_tier \<Rightarrow> bool" where
  "a < b \<longleftrightarrow> tier_rank a < tier_rank b"

instance
  by standard (auto simp: less_eq_sender_trust_tier_def less_sender_trust_tier_def tier_rank_inject)

end

fun tier_as_str :: "sender_trust_tier \<Rightarrow> string" where
  "tier_as_str Owner = ''owner''"
| "tier_as_str Trusted = ''trusted''"
| "tier_as_str Standard = ''standard''"
| "tier_as_str Probation = ''probation''"
| "tier_as_str Blocked = ''blocked''"

definition tier_parse :: "string \<Rightarrow> sender_trust_tier option" where
  "tier_parse input = (let s = to_ascii_lowercase (trim input) in
     if s = ''owner'' then Some Owner
     else if s = ''trusted'' then Some Trusted
     else if s = ''standard'' then Some Standard
     else if s = ''probation'' then Some Probation
     else if s = ''blocked'' then Some Blocked
     else None)"

subsection \<open>Data\<close>

record slash_command_meta =
  cm_name :: string
  cm_description :: string
  cm_usage :: "string option"
  cm_category :: string
  cm_surfaces :: "command_surface list"
  cm_min_tier :: "sender_trust_tier option"
  cm_bypass_queue :: bool

record command_context =
  cc_session_id :: string
  cc_workspace_dir :: string

record command_output =
  co_message :: string
  co_data :: "json option"

record plugin_manifest =
  pm_id :: string
  pm_name :: string
  pm_version :: string
  pm_api_version :: string
  pm_description :: "string option"
  pm_homepage :: "string option"
  pm_capabilities :: "plugin_capability list"
  pm_experimental :: bool
  pm_min_core_version :: "string option"
  pm_max_core_version :: "string option"

record plugin_security_policy =
  allow_experimental :: bool
  allow_fs_read :: bool
  allow_network_egress :: bool
  allow_fs_write :: bool
  allow_command_execution :: bool

record plugin_compatibility_report =
  cr_compatible :: bool
  cr_reasons :: "string list"

record 'v semver =
  sv_parse :: "string \<Rightarrow> string + 'v"
  sv_less :: "'v \<Rightarrow> 'v \<Rightarrow> bool"
  sv_major :: "'v \<Rightarrow> nat"
  sv_show :: "'v \<Rightarrow> string"

record tool_object =
  to_name :: string
  to_description :: string
  to_input_schema :: json

record model_object =
  mp_provider_name :: string
  mp_model_name :: string

record plugin_factory =
  pf_manifest :: plugin_manifest
  pf_tool :: "tool_object option"
  pf_model_provider :: "model_object option"

type_synonym plugin_registry = "(string \<times> plugin_factory) list"

subsection \<open>Manifest validation\<close>

definition KELVIN_CORE_API_VERSION :: string where "KELVIN_CORE_API_VERSION = ''1.0.0''"
definition MAX_PLUGIN_ID_LEN :: nat where "MAX_PLUGIN_ID_LEN = 128"
definition MAX_PLUGIN_NAME_LEN :: nat where "MAX_PLUGIN_NAME_LEN = 128"
definition MAX_PLUGIN_DESCRIPTION_LEN :: nat where "MAX_PLUGIN_DESCRIPTION_LEN = 4096"
definition MAX_PLUGIN_HOMEPAGE_LEN :: nat where "MAX_PLUGIN_HOMEPAGE_LEN = 2048"
definition MAX_PLUGIN_CAPABILITIES :: nat where "MAX_PLUGIN_CAPABILITIES = 32"
definition DISPLAY_PREVIEW_MAX_LEN :: nat where "DISPLAY_PREVIEW_MAX_LEN = 64"

lemmas plugin_consts = KELVIN_CORE_API_VERSION_def MAX_PLUGIN_ID_LEN_def MAX_PLUGIN_NAME_LEN_def
  MAX_PLUGIN_DESCRIPTION_LEN_def MAX_PLUGIN_HOMEPAGE_LEN_def MAX_PLUGIN_CAPABILITIES_def
  DISPLAY_PREVIEW_MAX_LEN_def

fun preview :: "string \<Rightarrow> nat \<Rightarrow> string" where
  "preview [] n = []"
| "preview (c # s) 0 = ''...''"
| "preview (c # s) (Suc n) = c # preview s n"

definition validate_semver :: "'v semver \<Rightarrow> string \<Rightarrow> string \<Rightarrow> unit kelvin_result" where
  "validate_semver sv label v =
     (if trim v = [] then Inl (InvalidInput (label @ '' must not be empty''))
      else case sv_parse sv v of
        Inl err \<Rightarrow> Inl (InvalidInput (label @ '' must be valid semver, got '' @ [CHR 39] @
          preview v DISPLAY_PREVIEW_MAX_LEN @ [CHR 39] @ '': '' @ err))
      | Inr _ \<Rightarrow> Inr ())"

definition plugin_id_char :: "char \<Rightarrow> bool" where
  "plugin_id_char c \<longleftrightarrow> is_ascii_alphanumeric c \<or> c \<in> {CHR ''_'', CHR ''-'', CHR ''.''}"

definition validate_plugin_id :: "string \<Rightarrow> unit kelvin_result" where
  "validate_plugin_id v = (let cleaned = trim v in
     if cleaned = [] then Inl (InvalidInput ''plugin id must not be empty'')
     else if length cleaned > MAX_PLUGIN_ID_LEN then
       Inl (InvalidInput (''plugin id exceeds max length '' @ show_nat MAX_PLUGIN_ID_LEN))
     else if list_ex is_control cleaned then
       Inl (InvalidInput ''plugin id must not include control characters'')
     else if \<not> list_all plugin_id_char cleaned then
       Inl (InvalidInput (''plugin id has invalid characters: '' @ preview cleaned DISPLAY_PREVIEW_MAX_LEN))
     else Inr ())"

definition validate_plugin_name :: "string \<Rightarrow> unit kelvin_result" where
  "validate_plugin_name v = (let cleaned = trim v in
     if cleaned = [] then Inl (InvalidInput ''plugin name must not be empty'')
     else if length cleaned > MAX_PLUGIN_NAME_LEN then
       Inl (InvalidInput (''plugin name exceeds max length '' @ show_nat MAX_PLUGIN_NAME_LEN))
     else if list_ex is_control cleaned then
       Inl (InvalidInput ''plugin name must not include control characters'')
     else Inr ())"

definition validate_optional_text_field :: "string \<Rightarrow> string option \<Rightarrow> nat \<Rightarrow> unit kelvin_result" where
  "validate_optional_text_field label v max_len = (case v of None \<Rightarrow> Inr () | Some raw \<Rightarrow>
     let cleaned = trim raw in
     if cleaned = [] then Inl (InvalidInput (label @ '' must not be empty''))
     else if length cleaned > max_len then
       Inl (InvalidInput (label @ '' exceeds max length '' @ show_nat max_len))
     else if list_ex is_control cleaned then
       Inl (InvalidInput (label @ '' must not include control characters''))
     else Inr ())"

definition validate_homepage :: "string option \<Rightarrow> unit kelvin_result" where
  "validate_homepage v = (case v of None \<Rightarrow> Inr () | Some raw \<Rightarrow>
     let cleaned = trim raw in
     if cleaned = [] then Inl (InvalidInput ''plugin homepage must not be empty'')
     else if length cleaned > MAX_PLUGIN_HOMEPAGE_LEN then
       Inl (InvalidInput (''plugin homepage exceeds max length '' @ show_nat MAX_PLUGIN_HOMEPAGE_LEN))
     else if list_ex (\<lambda>c. is_control c \<or> is_whitespace c) cleaned then
       Inl (InvalidInput ''plugin homepage must not include whitespace/control characters'')
     else if \<not> (starts_with ''https://'' cleaned \<or> starts_with ''http://'' cleaned) then
       Inl (InvalidInput ''plugin homepage must use http:// or https://'')
     else Inr ())"

text \<open>The loop over the capabilities with the \<open>HashSet\<close> of those already seen.\<close>

fun check_capability_duplicates ::
    "plugin_capability set \<Rightarrow> plugin_capability list \<Rightarrow> unit kelvin_result" where
  "check_capability_duplicates seen [] = Inr ()"
| "check_capability_duplicates seen (c # cs) =
     (if c \<in> seen then
        Inl (InvalidInput (''plugin capabilities contain duplicate value: '' @ show_capability c))
      else check_capability_duplicates (insert c seen) cs)"

definition validate_capabilities :: "plugin_capability list \<Rightarrow> unit kelvin_result" where
  "validate_capabilities cs =
     (if length cs > MAX_PLUGIN_CAPABILITIES then
        Inl (InvalidInput (''plugin capabilities exceed max length '' @ show_nat MAX_PLUGIN_CAPABILITIES))
      else check_capability_duplicates {} cs)"

definition validate_manifest :: "'v semver \<Rightarrow> plugin_manifest \<Rightarrow> unit kelvin_result" where
  "validate_manifest sv m = first_error
     [validate_plugin_id (pm_id m),
      validate_plugin_name (pm_name m),
      validate_semver sv ''plugin version'' (pm_version m),
      validate_semver sv ''api version'' (pm_api_version m),
      validate_optional_text_field ''plugin description'' (pm_description m) MAX_PLUGIN_DESCRIPTION_LEN,
      validate_homepage (pm_homepage m),
      validate_capabilities (pm_capabilities m),
      (case pm_min_core_version m of None \<Rightarrow> Inr () | Some v \<Rightarrow> validate_semver sv ''min core version'' v),
      (case pm_max_core_version m of None \<Rightarrow> Inr () | Some v \<Rightarrow> validate_semver sv ''max core version'' v)]"

subsection \<open>Compatibility\<close>

definition report_success :: plugin_compatibility_report where
  "report_success = \<lparr>cr_compatible = True, cr_reasons = []\<rparr>"

definition report_failure :: "string \<Rightarrow> plugin_compatibility_report" where
  "report_failure reason = \<lparr>cr_compatible = False, cr_reasons = [reason]\<rparr>"

definition quoted :: "string \<Rightarrow> string" where
  "quoted s = [CHR 39] @ s @ [CHR 39]"

definition api_reasons :: "'v semver \<Rightarrow> plugin_manifest \<Rightarrow> string list" where
  "api_reasons sv m = (case (sv_parse sv (pm_api_version m), sv_parse sv KELVIN_CORE_API_VERSION) of
     (Inr p, Inr c) \<Rightarrow> if sv_major sv p \<noteq> sv_major sv c
       then [''api version mismatch: plugin '' @ sv_show sv p @ '' vs core '' @ sv_show sv c] else []
   | _ \<Rightarrow> [])"

definition min_core_reasons :: "'v semver \<Rightarrow> 'v \<Rightarrow> string option \<Rightarrow> string list" where
  "min_core_reasons sv core mv = (case mv of None \<Rightarrow> [] | Some v \<Rightarrow> (case sv_parse sv v of
     Inr w \<Rightarrow> if sv_less sv core w
       then [''core version '' @ sv_show sv core @ '' is lower than required minimum '' @ sv_show sv w]
       else []
   | Inl err \<Rightarrow> [''invalid min_core_version '' @ quoted v @ '': '' @ err]))"

definition max_core_reasons :: "'v semver \<Rightarrow> 'v \<Rightarrow> string option \<Rightarrow> string list" where
  "max_core_reasons sv core mv = (case mv of None \<Rightarrow> [] | Some v \<Rightarrow> (case sv_parse sv v of
     Inr w \<Rightarrow> if sv_less sv w core
       then [''core version '' @ sv_show sv core @ '' exceeds plugin maximum '' @ sv_show sv w]
       else []
   | Inl err \<Rightarrow> [''invalid max_core_version '' @ quoted v @ '': '' @ err]))"

definition capability_reason ::
    "plugin_manifest \<Rightarrow> plugin_capability \<Rightarrow> bool \<Rightarrow> string \<Rightarrow> string list" where
  "capability_reason m cap allowed what = (if cap \<in> set (pm_capabilities m) \<and> \<not> allowed
     then [''plugin '' @ quoted (pm_id m) @ '' requires '' @ what @ '' but policy disallows it''] else [])"

definition policy_reasons :: "plugin_manifest \<Rightarrow> plugin_security_policy \<Rightarrow> string list" where
  "policy_reasons m pol =
     (if pm_experimental m \<and> \<not> allow_experimental pol
      then [''plugin '' @ quoted (pm_id m) @ '' is experimental and policy disallows experimental plugins'']
      else []) @
     capability_reason m CapFsRead (allow_fs_read pol) ''filesystem read'' @
     capability_reason m CapNetworkEgress (allow_network_egress pol) ''network egress'' @
     capability_reason m CapFsWrite (allow_fs_write pol) ''filesystem write'' @
     capability_reason m CapCommandExecution (allow_command_execution pol) ''command execution''"

definition check_plugin_compatibility ::
    "'v semver \<Rightarrow> plugin_manifest \<Rightarrow> string \<Rightarrow> plugin_security_policy \<Rightarrow> plugin_compatibility_report" where
  "check_plugin_compatibility sv m core_version pol = (case validate_manifest sv m of
     Inl err \<Rightarrow> report_failure (show_error err)
   | Inr _ \<Rightarrow> (case sv_parse sv core_version of
       Inl _ \<Rightarrow> report_failure (''invalid core version: '' @ core_version)
     | Inr core \<Rightarrow>
         let reasons = api_reasons sv m @ min_core_reasons sv core (pm_min_core_version m) @
               max_core_reasons sv core (pm_max_core_version m) @ policy_reasons m pol in
         if reasons = [] then report_success
         else \<lparr>cr_compatible = False, cr_reasons = reasons\<rparr>))"

subsection \<open>The plugin registry\<close>

definition register_plugin ::
    "'v semver \<Rightarrow> plugin_factory \<Rightarrow> string \<Rightarrow> plugin_security_policy \<Rightarrow> plugin_registry \<Rightarrow>
     plugin_registry kelvin_result" where
  "register_plugin sv p core_version pol reg =
     (let m = pf_manifest p; report = check_plugin_compatibility sv m core_version pol in
      if \<not> cr_compatible report then
        Inl (InvalidInput (''plugin '' @ quoted (pm_id m) @ '' rejected: '' @
          join_with ''; '' (cr_reasons report)))
      else if map_of reg (pm_id m) \<noteq> None then
        Inl (InvalidInput (''plugin '' @ quoted (pm_id m) @ '' is already registered''))
      else Inr ((pm_id m, p) # reg))"

definition get_plugin :: "plugin_registry \<Rightarrow> string \<Rightarrow> plugin_factory option" where
  "get_plugin reg pid = map_of reg pid"

definition manifests :: "plugin_registry \<Rightarrow> plugin_manifest list" where
  "manifests reg = map (\<lambda>(_, p). pf_manifest p) reg"

subsection \<open>The tool registry\<close>

type_synonym tool_map = "(string \<times> tool_object) list"

definition add_plugin_tool ::
    "plugin_manifest \<Rightarrow> plugin_factory \<Rightarrow> tool_map \<Rightarrow> tool_map kelvin_result" where
  "add_plugin_tool m p tools = (case (CapToolProvider \<in> set (pm_capabilities m), pf_tool p) of
     (False, None) \<Rightarrow> Inr tools
   | (False, Some _) \<Rightarrow> Inl (InvalidInput (''plugin '' @ quoted (pm_id m) @
       '' exposes a tool but is missing '' @ quoted ''tool_provider'' @ '' capability''))
   | (True, None) \<Rightarrow> Inl (InvalidInput (''plugin '' @ quoted (pm_id m) @
       '' declares tool capability but returned no tool''))
   | (True, Some tool) \<Rightarrow> let nm = trim (to_name tool) in
       if nm = [] then Inl (InvalidInput (''plugin '' @ quoted (pm_id m) @
         '' returned a tool with empty name''))
       else if map_of tools nm \<noteq> None then
         Inl (InvalidInput (''duplicate tool name from plugins: '' @ nm))
       else Inr ((nm, tool) # tools))"

text \<open>
  The loop both registries are built by: over the manifests in the order given, each looked up
  again in the registry, and handed with its plugin to the step \<open>add\<close>.
\<close>

fun registry_loop ::
    "string \<Rightarrow> (plugin_manifest \<Rightarrow> plugin_factory \<Rightarrow> 's \<Rightarrow> 's kelvin_result) \<Rightarrow>
     plugin_registry \<Rightarrow> plugin_manifest list \<Rightarrow> 's \<Rightarrow> 's kelvin_result" where
  "registry_loop what add reg [] s = Inr s"
| "registry_loop what add reg (m # ms) s = (case get_plugin reg (pm_id m) of
     None \<Rightarrow> Inl (NotFound (''plugin '' @ quoted (pm_id m) @ '' disappeared during '' @ what @
       '' registry build''))
   | Some p \<Rightarrow> bindR (add m p s) (registry_loop what add reg ms))"

definition tool_registry_from :: "plugin_registry \<Rightarrow> tool_map kelvin_result" where
  "tool_registry_from reg = registry_loop ''tool'' add_plugin_tool reg (sort_key pm_id (manifests reg)) []"

definition tool_get :: "tool_map \<Rightarrow> string \<Rightarrow> tool_object option" where
  "tool_get tools nm = map_of tools nm"

definition tool_names :: "tool_map \<Rightarrow> string list" where
  "tool_names tools = sort (map fst tools)"

definition tool_definitions :: "tool_map \<Rightarrow> tool_definition list" where
  "tool_definitions tools = List.map_filter (\<lambda>nm. map_option (\<lambda>t.
     \<lparr>td_name = to_name t, td_description = to_description t, td_input_schema = to_input_schema t\<rparr>)
     (tool_get tools nm)) (tool_names tools)"

subsection \<open>The model provider registry\<close>

record model_registry =
  by_plugin_id :: "(string \<times> model_object) list"
  by_provider_model :: "(string \<times> model_object) list"

definition provider_model_key :: "string \<Rightarrow> string \<Rightarrow> string" where
  "provider_model_key provider model = trim provider @ ''::'' @ trim model"

definition add_plugin_model ::
    "plugin_manifest \<Rightarrow> plugin_factory \<Rightarrow> model_registry \<Rightarrow> model_registry kelvin_result" where
  "add_plugin_model m p r = (case (CapModelProvider \<in> set (pm_capabilities m), pf_model_provider p) of
     (False, None) \<Rightarrow> Inr r
   | (False, Some _) \<Rightarrow> Inl (InvalidInput (''plugin '' @ quoted (pm_id m) @
       '' exposes a model provider but is missing '' @ quoted ''model_provider'' @ '' capability''))
   | (True, None) \<Rightarrow> Inl (InvalidInput (''plugin '' @ quoted (pm_id m) @
       '' declares model provider capability but returned no model provider''))
   | (True, Some model) \<Rightarrow>
       let key = provider_model_key (mp_provider_name model) (mp_model_name model) in
       if trim (mp_provider_name model) = [] then Inl (InvalidInput (''plugin '' @ quoted (pm_id m) @
         '' returned a model provider with empty provider_name''))
       else if trim (mp_model_name model) = [] then Inl (InvalidInput (''plugin '' @ quoted (pm_id m) @
         '' returned a model provider with empty model_name''))
       else if map_of (by_provider_model r) key \<noteq> None then
         Inl (InvalidInput (''duplicate model provider name from plugins: '' @ key))
       else Inr (r\<lparr>by_plugin_id := AList.update (pm_id m) model (by_plugin_id r),
                   by_provider_model := (key, model) # by_provider_model r\<rparr>))"

definition model_registry_from :: "plugin_registry \<Rightarrow> model_registry kelvin_result" where
  "model_registry_from reg = registry_loop ''model'' add_plugin_model reg (sort_key pm_id (manifests reg))
     \<lparr>by_plugin_id = [], by_provider_model = []\<rparr>"

definition get_by_plugin_id :: "model_registry \<Rightarrow> string \<Rightarrow> model_object option" where
  "get_by_plugin_id r pid = map_of (by_plugin_id r) pid"

definition get_by_provider_model :: "model_registry \<Rightarrow> string \<Rightarrow> string \<Rightarrow> model_object option" where
  "get_by_provider_model r provider model =
     map_of (by_provider_model r) (provider_model_key provider model)"

definition plugin_ids :: "model_registry \<Rightarrow> string list" where
  "plugin_ids r = sort (map fst (by_plugin_id r))"

subsection \<open>What validation and the compatibility check decide\<close>

lemma check_capability_duplicates_iff:
  "check_capability_duplicates seen cs = Inr () \<longleftrightarrow> distinct cs \<and> set cs \<inter> seen = {}"
  by (induction cs arbitrary: seen) auto

lemma validate_semver_iff: "validate_semver sv label v = Inr () \<longleftrightarrow>
    trim v \<noteq> [] \<and> (\<exists>w. sv_parse sv v = Inr w)"
  by (auto simp: validate_semver_def split: sum.splits)

lemma validate_plugin_id_iff: "validate_plugin_id v = Inr () \<longleftrightarrow>
    trim v \<noteq> [] \<and> length (trim v) \<le> 128 \<and> list_all plugin_id_char (trim v)"
proof -
  have "plugin_id_char c \<Longrightarrow> \<not> is_control c" for c
    by (auto simp: plugin_id_char_def is_ascii_alphanumeric_def is_digit_def is_control_def code_def)
  then have "list_all plugin_id_char s \<Longrightarrow> \<not> list_ex is_control s" for s
    by (auto simp: list_all_iff list_ex_iff)
  then show ?thesis by (auto simp: validate_plugin_id_def Let_def plugin_consts)
qed

lemma validate_capabilities_iff:
  "validate_capabilities cs = Inr () \<longleftrightarrow> length cs \<le> 32 \<and> distinct cs"
  by (auto simp: validate_capabilities_def plugin_consts check_capability_duplicates_iff)

lemma validate_manifestD:
  assumes "validate_manifest sv m = Inr ()"
  shows "validate_plugin_id (pm_id m) = Inr ()" "validate_plugin_name (pm_name m) = Inr ()"
    "validate_semver sv ''api version'' (pm_api_version m) = Inr ()"
    "validate_homepage (pm_homepage m) = Inr ()"
    "validate_capabilities (pm_capabilities m) = Inr ()"
    "pm_min_core_version m = Some v \<Longrightarrow> \<exists>w. sv_parse sv v = Inr w"
    "pm_max_core_version m = Some v \<Longrightarrow> \<exists>w. sv_parse sv v = Inr w"
  using assms by (auto simp: validate_manifest_def validate_semver_iff split: option.splits)

text \<open>The core version lies within the bounds the manifest names.\<close>

definition core_in_bounds :: "'v semver \<Rightarrow> plugin_manifest \<Rightarrow> 'v \<Rightarrow> bool" where
  "core_in_bounds sv m core \<longleftrightarrow>
     (\<forall>v w. pm_min_core_version m = Some v \<and> sv_parse sv v = Inr w \<longrightarrow> \<not> sv_less sv core w) \<and>
     (\<forall>v w. pm_max_core_version m = Some v \<and> sv_parse sv v = Inr w \<longrightarrow> \<not> sv_less sv w core)"

definition api_major_matches :: "'v semver \<Rightarrow> plugin_manifest \<Rightarrow> bool" where
  "api_major_matches sv m \<longleftrightarrow> (\<forall>p c. sv_parse sv (pm_api_version m) = Inr p \<and>
     sv_parse sv KELVIN_CORE_API_VERSION = Inr c \<longrightarrow> sv_major sv p = sv_major sv c)"

text \<open>No capability is used and no experimental flag set that the policy withholds.\<close>

definition policy_allows :: "plugin_security_policy \<Rightarrow> plugin_manifest \<Rightarrow> bool" where
  "policy_allows pol m \<longleftrightarrow>
     (pm_experimental m \<longrightarrow> allow_experimental pol) \<and>
     (CapFsRead \<in> set (pm_capabilities m) \<longrightarrow> allow_fs_read pol) \<and>
     (CapNetworkEgress \<in> set (pm_capabilities m) \<longrightarrow> allow_network_egress pol) \<and>
     (CapFsWrite \<in> set (pm_capabilities m) \<longrightarrow> allow_fs_write pol) \<and>
     (CapCommandExecution \<in> set (pm_capabilities m) \<longrightarrow> allow_command_execution pol)"

definition admissible :: "'v semver \<Rightarrow> plugin_manifest \<Rightarrow> string \<Rightarrow> plugin_security_policy \<Rightarrow> bool" where
  "admissible sv m core_version pol \<longleftrightarrow> validate_manifest sv m = Inr () \<and>
     (\<exists>core. sv_parse sv core_version = Inr core \<and> core_in_bounds sv m core) \<and>
     api_major_matches sv m \<and> policy_allows pol m"

lemma policy_reasons_Nil: "policy_reasons m pol = [] \<longleftrightarrow> policy_allows pol m"
  by (simp add: policy_reasons_def policy_allows_def capability_reason_def)

lemma api_reasons_Nil: "api_reasons sv m = [] \<longleftrightarrow> api_major_matches sv m"
  by (auto simp: api_reasons_def api_major_matches_def split: sum.splits)

lemma core_reasons_Nil:
  assumes "validate_manifest sv m = Inr ()"
  shows "min_core_reasons sv core (pm_min_core_version m) = [] \<and>
      max_core_reasons sv core (pm_max_core_version m) = [] \<longleftrightarrow> core_in_bounds sv m core"
  using validate_manifestD(6,7) [OF assms]
  by (auto simp: min_core_reasons_def max_core_reasons_def core_in_bounds_def
      split: option.splits sum.splits)

lemma compatible_iff:
  "cr_compatible (check_plugin_compatibility sv m core_version pol) \<longleftrightarrow> admissible sv m core_version pol"
proof (cases "validate_manifest sv m")
  case (Inr u)
  then have ok: "validate_manifest sv m = Inr ()" by simp
  show ?thesis
  proof (cases "sv_parse sv core_version")
    case (Inr core)
    then show ?thesis using ok core_reasons_Nil [OF ok, of core]
      by (auto simp: check_plugin_compatibility_def admissible_def Let_def report_success_def
          policy_reasons_Nil api_reasons_Nil)
  qed (simp add: check_plugin_compatibility_def admissible_def report_failure_def ok)
qed (simp add: check_plugin_compatibility_def admissible_def report_failure_def)

subsection \<open>The registry meets the contract of a unique registry\<close>

definition plugin_registry_wf :: "plugin_registry \<Rightarrow> bool" where
  "plugin_registry_wf reg \<longleftrightarrow> distinct (map fst reg) \<and> (\<forall>(pid, p)\<in>set reg. pm_id (pf_manifest p) = pid)"

lemma plugin_registry_wf_simps [simp]:
  "plugin_registry_wf []"
  "plugin_registry_wf ((pid, p) # reg) \<longleftrightarrow>
     pid \<notin> fst ` set reg \<and> pm_id (pf_manifest p) = pid \<and> plugin_registry_wf reg"
  by (auto simp: plugin_registry_wf_def)

lemma register_plugin_Inr_iff:
  "register_plugin sv p core_version pol reg = Inr reg' \<longleftrightarrow>
     admissible sv (pf_manifest p) core_version pol \<and>
     map_of reg (pm_id (pf_manifest p)) = None \<and> reg' = (pm_id (pf_manifest p), p) # reg"
  by (auto simp: register_plugin_def Let_def compatible_iff)

interpretation plugin_reg: unique_registry
  "\<lambda>(p, core_version, pol). register_plugin sv p core_version pol" get_plugin
  "\<lambda>(p, core_version, pol). pm_id (pf_manifest p)" "\<lambda>(p, core_version, pol). p"
  "\<lambda>(p, core_version, pol). admissible sv (pf_manifest p) core_version pol" plugin_registry_wf
  for sv
  by unfold_locales
    (auto simp: register_plugin_Inr_iff get_plugin_def fun_eq_iff map_of_eq_None_iff split: prod.splits)

text \<open>
  Registration is decided exactly by admissibility: a plugin enters the registry if and
  only if its manifest validates, the core version parses and lies within the manifest's
  bounds, the api major versions agree, the policy grants every gated capability it declares,
  and its id is free. It is then found under its id, and every other id is untouched.
\<close>

theorem register_plugin_exact:
  "register_plugin sv p core_version pol reg = Inr reg' \<longleftrightarrow>
     (admissible sv (pf_manifest p) core_version pol \<and>
      get_plugin reg (pm_id (pf_manifest p)) = None \<and>
      reg' = (pm_id (pf_manifest p), p) # reg \<and>
      get_plugin reg' = (get_plugin reg)(pm_id (pf_manifest p) \<mapsto> p))"
  by (auto simp: register_plugin_Inr_iff get_plugin_def fun_eq_iff)

text \<open>A host's registrations in sequence, stopping at the first rejection.\<close>

fun register_plugins ::
    "'v semver \<Rightarrow> (plugin_factory \<times> string \<times> plugin_security_policy) list \<Rightarrow> plugin_registry \<Rightarrow>
     plugin_registry kelvin_result" where
  "register_plugins sv [] reg = Inr reg"
| "register_plugins sv ((p, core_version, pol) # args) reg =
     bindR (register_plugin sv p core_version pol reg) (register_plugins sv args)"

lemma register_plugins_eq: "register_plugins sv args reg =
    unique_registry.register_all (\<lambda>(p, core_version, pol). register_plugin sv p core_version pol) args reg"
proof (induction args arbitrary: reg)
  case (Cons a args)
  then have "register_plugins sv args = unique_registry.register_all
      (\<lambda>(p, core_version, pol). register_plugin sv p core_version pol) args" by (intro ext)
  then show ?case by (cases a) simp
qed simp

text \<open>
  \<^bold>\<open>C5.\<close> No sequence of registrations gets around the policy: after registering any list of
  plugins, each against its core version and policy, into an empty registry, every plugin found
  under an id was one of the list, was admissible under the policy it was registered with, and
  the ids of the list are pairwise different.
\<close>

theorem registered_plugins_admissible:
  assumes "register_plugins sv args [] = Inr reg"
  shows "distinct (map (\<lambda>(p, core_version, pol). pm_id (pf_manifest p)) args) \<and>
    plugin_registry_wf reg \<and>
    (\<forall>pid p. get_plugin reg pid = Some p \<longrightarrow> pm_id (pf_manifest p) = pid \<and>
       (\<exists>core_version pol. (p, core_version, pol) \<in> set args \<and>
          admissible sv (pf_manifest p) core_version pol))"
proof -
  let ?k = "\<lambda>(p, core_version, pol). pm_id (pf_manifest p)"
  have wf: "plugin_registry_wf []" by simp
  note all = assms [unfolded register_plugins_eq]
  note adds = plugin_reg.register_all_adds [OF wf all]
  have "get_plugin reg = map_of (map (\<lambda>a. (?k a, (\<lambda>(p, core_version, pol). p) a)) args)"
    using adds by (auto simp: get_plugin_def map_add_def fun_eq_iff split: option.splits)
  then show ?thesis
    using adds plugin_reg.register_all_wf [OF wf all] by (fastforce dest!: map_of_SomeD)
qed

text \<open>
  What a validated manifest guarantees: the id, once trimmed, has 1 to 128 characters from
  the ASCII letters, digits, underscore, dash and dot; the capabilities are at most 32 and
  pairwise different; a homepage is an http or https URL without blanks.
\<close>

theorem validated_manifest:
  assumes "validate_manifest sv m = Inr ()"
  shows "trim (pm_id m) \<noteq> [] \<and> length (trim (pm_id m)) \<le> 128 \<and>
    list_all plugin_id_char (trim (pm_id m)) \<and>
    length (pm_capabilities m) \<le> 32 \<and> distinct (pm_capabilities m) \<and>
    (\<forall>h. pm_homepage m = Some h \<longrightarrow> length (trim h) \<le> 2048 \<and>
       (starts_with ''https://'' (trim h) \<or> starts_with ''http://'' (trim h)) \<and>
       \<not> list_ex is_whitespace (trim h))"
  using validate_manifestD [OF assms]
  by (auto simp: validate_plugin_id_iff validate_capabilities_iff validate_homepage_def Let_def
      plugin_consts list_ex_iff split: if_splits)

subsection \<open>Building the tool and model registries\<close>

text \<open>The plugins of a registry in the order of their ids, and the loop as a fold over them.\<close>

definition sorted_plugins :: "plugin_registry \<Rightarrow> plugin_factory list" where
  "sorted_plugins reg = map snd (sort_key fst reg)"

fun add_all :: "(plugin_manifest \<Rightarrow> plugin_factory \<Rightarrow> 's \<Rightarrow> 's kelvin_result) \<Rightarrow>
    plugin_factory list \<Rightarrow> 's \<Rightarrow> 's kelvin_result" where
  "add_all add [] s = Inr s"
| "add_all add (p # ps) s = bindR (add (pf_manifest p) p s) (add_all add ps)"

lemma set_sorted_plugins [simp]: "set (sorted_plugins reg) = snd ` set reg"
  by (simp add: sorted_plugins_def)

lemma map_insort_key: "(\<forall>x\<in>set (x # xs). f (g x) = h x) \<Longrightarrow>
    map g (insort_key h x xs) = insort_key f (g x) (map g xs)"
  by (induction xs) auto

lemma sort_key_map: "(\<forall>x\<in>set xs. f (g x) = h x) \<Longrightarrow> sort_key f (map g xs) = map g (sort_key h xs)"
  by (induction xs) (auto simp: map_insort_key [where f = f])

lemma sorted_manifests:
  "plugin_registry_wf reg \<Longrightarrow> sort_key pm_id (manifests reg) = map pf_manifest (sorted_plugins reg)"
  unfolding manifests_def sorted_plugins_def
  by (subst sort_key_map [where h = fst]) (auto simp: plugin_registry_wf_def)

lemma get_plugin_member:
  "plugin_registry_wf reg \<Longrightarrow> p \<in> snd ` set reg \<Longrightarrow> get_plugin reg (pm_id (pf_manifest p)) = Some p"
  by (auto simp: plugin_registry_wf_def get_plugin_def)

lemma get_plugin_Some_iff:
  assumes "plugin_registry_wf reg"
  shows "get_plugin reg pid = Some p \<longleftrightarrow> p \<in> snd ` set reg \<and> pm_id (pf_manifest p) = pid"
proof
  assume "get_plugin reg pid = Some p"
  then show "p \<in> snd ` set reg \<and> pm_id (pf_manifest p) = pid"
    using assms by (force simp: get_plugin_def plugin_registry_wf_def dest: map_of_SomeD)
qed (use get_plugin_member [OF assms] in blast)

lemma registry_loop_eq:
  assumes "plugin_registry_wf reg"
  shows "registry_loop what add reg (sort_key pm_id (manifests reg)) s = add_all add (sorted_plugins reg) s"
proof -
  have "set ps \<subseteq> snd ` set reg \<Longrightarrow>
      registry_loop what add reg (map pf_manifest ps) s = add_all add ps s" for ps
  proof (induction ps arbitrary: s)
    case (Cons p ps)
    then have "registry_loop what add reg (map pf_manifest ps) = add_all add ps" by (intro ext) simp
    then show ?case using Cons.prems get_plugin_member [OF assms, of p] by simp
  qed simp
  then show ?thesis by (simp add: sorted_manifests [OF assms])
qed

lemma plugin_registry_wf_mset:
  "mset reg = mset reg' \<Longrightarrow> plugin_registry_wf reg \<Longrightarrow> plugin_registry_wf reg'"
  unfolding plugin_registry_wf_def
  by (metis mset_eq_setD mset_map mset_eq_imp_distinct_iff)

lemma sorted_plugins_mset:
  assumes "mset reg = mset reg'" "plugin_registry_wf reg"
  shows "sorted_plugins reg = sorted_plugins reg'"
proof -
  have "inj_on fst (set reg)" using assms(2) by (simp add: plugin_registry_wf_def distinct_map)
  then have "sort_key fst reg = sort_key fst reg'"
    using assms(1) by (intro sort_key_inj_key_eq) simp_all
  then show ?thesis by (simp add: sorted_plugins_def)
qed

text \<open>
  The tool and the model registry do not depend on the iteration order of the
  \<open>HashMap\<close>: two registries with the same entries in any order give the same tool registry and
  the same model registry, or the same error.
\<close>

theorem registries_order_independent:
  assumes "mset reg = mset reg'" "plugin_registry_wf reg"
  shows "tool_registry_from reg = tool_registry_from reg' \<and>
    model_registry_from reg = model_registry_from reg'"
  using sorted_plugins_mset [OF assms] assms plugin_registry_wf_mset [OF assms]
  by (simp add: tool_registry_from_def model_registry_from_def registry_loop_eq)

text \<open>A plugin's declaration and what it returns agree, and its tool has a name.\<close>

definition tool_agrees :: "plugin_factory \<Rightarrow> bool" where
  "tool_agrees p \<longleftrightarrow> (CapToolProvider \<in> set (pm_capabilities (pf_manifest p)) \<longleftrightarrow> pf_tool p \<noteq> None) \<and>
     (\<forall>t. pf_tool p = Some t \<longrightarrow> trim (to_name t) \<noteq> [])"

fun tool_entries :: "plugin_factory list \<Rightarrow> tool_map" where
  "tool_entries [] = []"
| "tool_entries (p # ps) = (case pf_tool p of None \<Rightarrow> [] | Some t \<Rightarrow> [(trim (to_name t), t)]) @ tool_entries ps"

lemma add_plugin_tool_Inr_iff: "add_plugin_tool (pf_manifest p) p tools = Inr tools' \<longleftrightarrow>
    tool_agrees p \<and> fst ` set (tool_entries [p]) \<inter> fst ` set tools = {} \<and>
    tools' = tool_entries [p] @ tools"
  by (cases "CapToolProvider \<in> set (pm_capabilities (pf_manifest p))"; cases "pf_tool p")
    (auto simp: add_plugin_tool_def tool_agrees_def Let_def map_of_eq_None_iff)

lemma add_all_tools: "add_all add_plugin_tool ps tools = Inr tools' \<longleftrightarrow>
    (\<forall>p\<in>set ps. tool_agrees p) \<and> distinct (map fst (tool_entries ps)) \<and>
    fst ` set (tool_entries ps) \<inter> fst ` set tools = {} \<and> tools' = rev (tool_entries ps) @ tools"
proof (induction ps arbitrary: tools)
  case (Cons p ps)
  show ?case
    by (cases "pf_tool p")
      (auto simp: add_plugin_tool_Inr_iff Cons.IH rev_concat)
qed auto

lemma set_tool_entries: "(nm, t) \<in> set (tool_entries ps) \<longleftrightarrow>
    (\<exists>p\<in>set ps. pf_tool p = Some t \<and> trim (to_name t) = nm)"
  by (induction ps) (auto split: option.splits)

text \<open>
  The tool registry is exact. Building it succeeds only if every plugin that declares the
  tool capability returns a named tool and no other plugin returns one; then a name is bound to
  a tool just when some registered plugin provides that tool under that (trimmed) name, no name
  is bound twice, and \<open>names\<close> lists the bound names in strictly increasing order.
\<close>

theorem tool_registry_exact:
  assumes "plugin_registry_wf reg" "tool_registry_from reg = Inr tools"
  shows "(\<forall>p\<in>snd ` set reg. tool_agrees p) \<and>
    (\<forall>nm t. tool_get tools nm = Some t \<longleftrightarrow>
       (\<exists>pid p. get_plugin reg pid = Some p \<and> pf_tool p = Some t \<and> trim (to_name t) = nm)) \<and>
    sorted (tool_names tools) \<and> distinct (tool_names tools) \<and>
    set (tool_names tools) = dom (tool_get tools)"
proof -
  have h: "\<forall>p\<in>snd ` set reg. tool_agrees p" "distinct (map fst (tool_entries (sorted_plugins reg)))"
      "tools = rev (tool_entries (sorted_plugins reg))"
    using assms(2) unfolding tool_registry_from_def registry_loop_eq [OF assms(1)] add_all_tools by auto
  then have d: "distinct (map fst tools)" by (simp add: rev_map [symmetric])
  have dom: "tool_get tools = map_of tools" by (intro ext) (simp add: tool_get_def)
  have "tool_get tools nm = Some t \<longleftrightarrow>
       (\<exists>pid p. get_plugin reg pid = Some p \<and> pf_tool p = Some t \<and> trim (to_name t) = nm)" for nm t
    using d h(3) by (auto simp: tool_get_def map_of_eq_Some_iff set_tool_entries
        get_plugin_Some_iff [OF assms(1)])
  then show ?thesis
    using h(1) d by (simp add: tool_names_def dom dom_map_of_conv_image_fst)
qed

text \<open>
  Building the tool registry fails for no other reason: if declarations and tools agree
  and no two plugins offer the same trimmed name, there is a tool registry.
\<close>

theorem tool_registry_total:
  assumes "plugin_registry_wf reg" "\<forall>p\<in>snd ` set reg. tool_agrees p"
    and "distinct (map fst (tool_entries (map snd reg)))"
  shows "\<exists>tools. tool_registry_from reg = Inr tools"
proof -
  have "mset (tool_entries ps) = \<Sum>\<^sub># (image_mset (\<lambda>p. mset (tool_entries [p])) (mset ps))" for ps
    by (induction ps) (auto split: option.splits)
  then have "mset (tool_entries (sorted_plugins reg)) = mset (tool_entries (map snd reg))"
    by (simp add: sorted_plugins_def)
  then have "distinct (map fst (tool_entries (sorted_plugins reg)))"
    using assms(3) by (metis mset_map mset_eq_imp_distinct_iff)
  then show ?thesis
    using assms(1,2) by (simp add: tool_registry_from_def registry_loop_eq add_all_tools)
qed

subsection \<open>The model registry\<close>

definition model_agrees :: "plugin_factory \<Rightarrow> bool" where
  "model_agrees p \<longleftrightarrow>
     (CapModelProvider \<in> set (pm_capabilities (pf_manifest p)) \<longleftrightarrow> pf_model_provider p \<noteq> None) \<and>
     (\<forall>x. pf_model_provider p = Some x \<longrightarrow> trim (mp_provider_name x) \<noteq> [] \<and> trim (mp_model_name x) \<noteq> [])"

definition model_key :: "model_object \<Rightarrow> string" where
  "model_key x = provider_model_key (mp_provider_name x) (mp_model_name x)"

lemma add_plugin_model_Inr_iff:
  "add_plugin_model (pf_manifest p) p r = Inr r' \<longleftrightarrow> model_agrees p \<and>
     (case pf_model_provider p of None \<Rightarrow> r' = r | Some x \<Rightarrow>
        map_of (by_provider_model r) (model_key x) = None \<and>
        r' = r\<lparr>by_plugin_id := AList.update (pm_id (pf_manifest p)) x (by_plugin_id r),
               by_provider_model := (model_key x, x) # by_provider_model r\<rparr>)"
  by (cases "CapModelProvider \<in> set (pm_capabilities (pf_manifest p))"; cases "pf_model_provider p")
    (auto simp: add_plugin_model_def model_agrees_def model_key_def Let_def)

text \<open>Both indexes list the models of the plugins folded so far.\<close>

definition model_index_ok :: "plugin_factory list \<Rightarrow> model_registry \<Rightarrow> bool" where
  "model_index_ok ps r \<longleftrightarrow>
     (\<forall>pid x. get_by_plugin_id r pid = Some x \<longleftrightarrow>
        (\<exists>p\<in>set ps. pm_id (pf_manifest p) = pid \<and> pf_model_provider p = Some x)) \<and>
     (\<forall>k x. map_of (by_provider_model r) k = Some x \<longleftrightarrow>
        (\<exists>p\<in>set ps. pf_model_provider p = Some x \<and> model_key x = k))"

lemma add_all_models:
  assumes "add_all add_plugin_model ps r = Inr r'" "model_index_ok qs r"
    and "distinct (map (pm_id \<circ> pf_manifest) (qs @ ps))"
  shows "(\<forall>p\<in>set ps. model_agrees p) \<and> model_index_ok (qs @ ps) r'"
  using assms
proof (induction ps arbitrary: qs r)
  case (Cons p ps)
  then obtain r1 where r1: "add_plugin_model (pf_manifest p) p r = Inr r1"
      and rest: "add_all add_plugin_model ps r1 = Inr r'" by auto
  have fresh: "\<forall>q\<in>set qs. pm_id (pf_manifest q) \<noteq> pm_id (pf_manifest p)"
    using Cons.prems(3) by (force simp: image_iff)
  have "model_index_ok (qs @ [p]) r1"
  proof (cases "pf_model_provider p")
    case None
    then show ?thesis using r1 Cons.prems(2)
      unfolding add_plugin_model_Inr_iff model_index_ok_def by simp
  next
    case (Some x)
    then have new: "map_of (by_provider_model r) (model_key x) = None"
        and r1': "r1 = r\<lparr>by_plugin_id := AList.update (pm_id (pf_manifest p)) x (by_plugin_id r),
               by_provider_model := (model_key x, x) # by_provider_model r\<rparr>"
      using r1 by (auto simp: add_plugin_model_Inr_iff)
    have ids: "get_by_plugin_id r1 pid = Some y \<longleftrightarrow> (\<exists>q\<in>set (qs @ [p]).
        pm_id (pf_manifest q) = pid \<and> pf_model_provider q = Some y)" for pid y
      using Cons.prems(2) fresh Some r1'
      by (auto simp: model_index_ok_def get_by_plugin_id_def update_conv)
    have "map_of (by_provider_model r1) k = Some y \<longleftrightarrow>
        (\<exists>q\<in>set (qs @ [p]). pf_model_provider q = Some y \<and> model_key y = k)" for k y
      using Cons.prems(2) new Some r1' unfolding model_index_ok_def
      by (cases "k = model_key x") (auto, metis option.distinct(1))
    with ids show ?thesis by (simp add: model_index_ok_def)
  qed
  then show ?case
    using Cons.IH [OF rest, of "qs @ [p]"] Cons.prems(3) r1 by (auto simp: add_plugin_model_Inr_iff)
qed simp

lemma distinct_sorted_ids: "plugin_registry_wf reg \<Longrightarrow>
    distinct (map (pm_id \<circ> pf_manifest) (sorted_plugins reg))"
proof -
  assume wf: "plugin_registry_wf reg"
  have "map (pm_id \<circ> pf_manifest) (sorted_plugins reg) = map fst (sort_key fst reg)"
    using wf by (auto simp: sorted_plugins_def plugin_registry_wf_def)
  moreover have "distinct (map fst (sort_key fst reg))"
    using wf by (simp add: plugin_registry_wf_def distinct_map)
  ultimately show ?thesis by simp
qed

text \<open>
  The two indexes of the model registry are exact and agree: a plugin id is bound to the
  model of the plugin registered under it, and a provider and model name, trimmed, find a
  model just when some registered plugin offers it under those names.
\<close>

theorem model_registry_exact:
  assumes "plugin_registry_wf reg" "model_registry_from reg = Inr r"
  shows "(\<forall>p\<in>snd ` set reg. model_agrees p) \<and>
    (\<forall>pid x. get_by_plugin_id r pid = Some x \<longleftrightarrow>
       (\<exists>p. get_plugin reg pid = Some p \<and> pf_model_provider p = Some x)) \<and>
    (\<forall>provider model x. get_by_provider_model r provider model = Some x \<longleftrightarrow>
       (\<exists>p\<in>snd ` set reg. pf_model_provider p = Some x \<and>
          provider_model_key (mp_provider_name x) (mp_model_name x) = provider_model_key provider model))"
proof -
  have all: "add_all add_plugin_model (sorted_plugins reg) \<lparr>by_plugin_id = [], by_provider_model = []\<rparr> = Inr r"
    using assms(2) by (simp add: model_registry_from_def registry_loop_eq [OF assms(1)])
  have "model_index_ok [] \<lparr>by_plugin_id = [], by_provider_model = []\<rparr>"
    by (simp add: model_index_ok_def get_by_plugin_id_def)
  note h = add_all_models [OF all this, simplified, OF distinct_sorted_ids [OF assms(1)]]
  have g: "(\<exists>p\<in>snd ` set reg. pm_id (pf_manifest p) = pid \<and> pf_model_provider p = Some x) \<longleftrightarrow>
      (\<exists>p. get_plugin reg pid = Some p \<and> pf_model_provider p = Some x)" for pid x
    by (auto simp: get_plugin_Some_iff [OF assms(1)])
  show ?thesis using h
    unfolding model_index_ok_def set_sorted_plugins g get_by_provider_model_def model_key_def by blast
qed

subsection \<open>Trust tiers\<close>

text \<open>
  Printing and parsing a trust tier are inverse, in both directions: parsing what
  \<open>as_str\<close> prints gives the tier back, and a text parses to a tier just when it is that
  tier's name up to surrounding blanks and ASCII case.
\<close>

theorem tier_round_trip:
  "tier_parse (tier_as_str t) = Some t \<and>
   (tier_parse s = Some t \<longleftrightarrow> to_ascii_lowercase (trim s) = tier_as_str t)"
proof -
  have "tier_parse s = Some t \<longleftrightarrow> to_ascii_lowercase (trim s) = tier_as_str t" for s
    by (cases t) (auto simp: tier_parse_def Let_def)
  moreover have "to_ascii_lowercase (trim (tier_as_str t)) = tier_as_str t"
    by (cases t) (simp_all add: str_eval)
  ultimately show ?thesis by blast
qed

subsection \<open>The theorems at concrete registries\<close>

text \<open>A semver of three dotted numbers, and two plugins: one with a tool, one with a model.\<close>

definition demo_semver :: "(nat \<times> nat \<times> nat) semver" where
  "demo_semver = \<lparr>
     sv_parse = (\<lambda>v. case map parse_usize (split_char CHR ''.'' v) of
       [Some a, Some b, Some c] \<Rightarrow> Inr (a, b, c) | _ \<Rightarrow> Inl ''unexpected character''),
     sv_less = (\<lambda>(a, b, c) (x, y, z). a < x \<or> (a = x \<and> (b < y \<or> (b = y \<and> c < z)))),
     sv_major = fst,
     sv_show = (\<lambda>(a, b, c). show_nat a @ ''.'' @ show_nat b @ ''.'' @ show_nat c)\<rparr>"

definition demo_manifest :: "string \<Rightarrow> plugin_capability list \<Rightarrow> plugin_manifest" where
  "demo_manifest pid caps = \<lparr>pm_id = pid, pm_name = ''Echo'', pm_version = ''1.2.3'',
     pm_api_version = ''1.0.0'', pm_description = None, pm_homepage = Some ''https://kelvin'',
     pm_capabilities = caps, pm_experimental = False, pm_min_core_version = Some ''0.1.0'',
     pm_max_core_version = None\<rparr>"

definition demo_tool_plugin :: plugin_factory where
  "demo_tool_plugin = \<lparr>pf_manifest = demo_manifest ''acme.echo'' [CapToolProvider, CapFsRead],
     pf_tool = Some \<lparr>to_name = ''echo'', to_description = [], to_input_schema = JNull\<rparr>,
     pf_model_provider = None\<rparr>"

definition demo_model_plugin :: plugin_factory where
  "demo_model_plugin = \<lparr>pf_manifest = demo_manifest ''acme.model'' [CapModelProvider], pf_tool = None,
     pf_model_provider = Some \<lparr>mp_provider_name = ''acme'', mp_model_name = ''m1''\<rparr>\<rparr>"

definition demo_policy :: plugin_security_policy where
  "demo_policy = \<lparr>allow_experimental = False, allow_fs_read = True, allow_network_egress = False,
     allow_fs_write = False, allow_command_execution = False\<rparr>"

definition demo_registry :: plugin_registry where
  "demo_registry = [(''acme.model'', demo_model_plugin), (''acme.echo'', demo_tool_plugin)]"

lemmas demo_plugin_simps = demo_semver_def demo_tool_plugin_def demo_model_plugin_def
  demo_manifest_def demo_policy_def demo_registry_def

lemmas demo_plugin_eval = demo_plugin_simps str_eval plugin_consts parse_usize_def parse_unsigned_def
  u64_max_def validate_manifest_def validate_plugin_id_def validate_plugin_name_def
  validate_semver_def validate_optional_text_field_def validate_homepage_def
  validate_capabilities_def plugin_id_char_def

lemma demo_manifest_valid:
  "validate_manifest demo_semver (pf_manifest demo_tool_plugin) = Inr ()"
  "validate_manifest demo_semver (pf_manifest demo_model_plugin) = Inr ()"
  by (simp_all add: demo_plugin_eval)

lemma demo_admissible:
  "admissible demo_semver (pf_manifest demo_tool_plugin) ''0.2.0'' demo_policy"
  "admissible demo_semver (pf_manifest demo_model_plugin) ''0.2.0'' demo_policy"
  by (simp_all add: demo_plugin_eval admissible_def core_in_bounds_def api_major_matches_def policy_allows_def)

lemma demo_ids: "pm_id (pf_manifest demo_tool_plugin) = ''acme.echo''"
  "pm_id (pf_manifest demo_model_plugin) = ''acme.model''"
  by (simp_all add: demo_plugin_simps)

lemma demo_registered: "register_plugins demo_semver
    [(demo_tool_plugin, ''0.2.0'', demo_policy), (demo_model_plugin, ''0.2.0'', demo_policy)] [] =
    Inr demo_registry"
  by (simp add: register_plugin_Inr_iff demo_admissible demo_ids demo_registry_def)

lemma demo_registry_wf: "plugin_registry_wf demo_registry"
  by (simp add: demo_registry_def demo_ids)

lemma demo_tools: "tool_registry_from demo_registry =
    Inr [(''echo'', \<lparr>to_name = ''echo'', to_description = [], to_input_schema = JNull\<rparr>)]"
  by (simp add: tool_registry_from_def manifests_def get_plugin_def demo_plugin_simps
      add_plugin_tool_def str_eval Let_def)

theorem registered_plugins_admissible_witness:
  "get_plugin demo_registry ''acme.echo'' = Some demo_tool_plugin \<and>
   (\<exists>core_version pol. (demo_tool_plugin, core_version, pol) \<in>
       set [(demo_tool_plugin, ''0.2.0'', demo_policy), (demo_model_plugin, ''0.2.0'', demo_policy)] \<and>
     admissible demo_semver (pf_manifest demo_tool_plugin) core_version pol)"
proof -
  have "get_plugin demo_registry ''acme.echo'' = Some demo_tool_plugin"
    by (simp add: demo_registry_def get_plugin_def)
  then show ?thesis using registered_plugins_admissible [OF demo_registered] by blast
qed

theorem validated_manifest_witness:
  "validate_manifest demo_semver (pf_manifest demo_tool_plugin) = Inr () \<and>
   list_all plugin_id_char (trim ''acme.echo'')"
proof -
  note ok = demo_manifest_valid(1)
  show ?thesis using ok validated_manifest [OF ok] by (simp add: demo_ids)
qed

theorem registries_order_independent_witness:
  "rev demo_registry \<noteq> demo_registry \<and>
   tool_registry_from (rev demo_registry) = tool_registry_from demo_registry"
proof -
  have "rev demo_registry \<noteq> demo_registry" by (simp add: demo_registry_def)
  then show ?thesis
    using registries_order_independent [of demo_registry "rev demo_registry"] demo_registry_wf by simp
qed

theorem tool_registry_exact_witness:
  "\<exists>tools t. tool_registry_from demo_registry = Inr tools \<and> tool_get tools ''echo'' = Some t \<and>
     pf_tool demo_tool_plugin = Some t \<and> tool_get tools ''other'' = None"
proof -
  let ?t = "\<lparr>to_name = ''echo'', to_description = [], to_input_schema = JNull\<rparr> :: tool_object"
  have p: "get_plugin demo_registry ''acme.echo'' = Some demo_tool_plugin" "pf_tool demo_tool_plugin = Some ?t"
    by (simp_all add: demo_registry_def get_plugin_def demo_tool_plugin_def)
  have "tool_get [(''echo'', ?t)] ''echo'' = Some ?t"
    using tool_registry_exact [OF demo_registry_wf demo_tools] by (simp add: tool_get_def)
  then show ?thesis using demo_tools p(2) by (auto simp: tool_get_def)
qed

theorem tool_registry_total_witness: "\<exists>tools. tool_registry_from demo_registry = Inr tools"
proof (rule tool_registry_total [OF demo_registry_wf])
  show "\<forall>p\<in>snd ` set demo_registry. tool_agrees p"
    by (simp add: demo_registry_def demo_tool_plugin_def demo_model_plugin_def demo_manifest_def
        tool_agrees_def str_eval)
  show "distinct (map fst (tool_entries (map snd demo_registry)))" by (simp add: demo_plugin_simps)
qed

theorem model_registry_exact_witness:
  "\<exists>r x. model_registry_from demo_registry = Inr r \<and> get_by_plugin_id r ''acme.model'' = Some x \<and>
     get_by_provider_model r '' acme '' ''m1'' = Some x"
proof -
  let ?x = "\<lparr>mp_provider_name = ''acme'', mp_model_name = ''m1''\<rparr> :: model_object"
  have r: "model_registry_from demo_registry =
      Inr \<lparr>by_plugin_id = [(''acme.model'', ?x)], by_provider_model = [(''acme::m1'', ?x)]\<rparr>" (is "_ = Inr ?r")
    by (simp add: model_registry_from_def manifests_def get_plugin_def demo_plugin_simps
        add_plugin_model_def provider_model_key_def str_eval Let_def)
  have p: "get_plugin demo_registry ''acme.model'' = Some demo_model_plugin"
      "pf_model_provider demo_model_plugin = Some ?x" "demo_model_plugin \<in> snd ` set demo_registry"
    by (simp_all add: demo_registry_def get_plugin_def demo_model_plugin_def)
  have k: "provider_model_key ''acme'' ''m1'' = provider_model_key '' acme '' ''m1''"
    by (simp add: provider_model_key_def str_eval)
  note ex = model_registry_exact [OF demo_registry_wf r]
  have "get_by_plugin_id ?r ''acme.model'' = Some ?x" using ex p(1,2) by blast
  moreover have "get_by_provider_model ?r '' acme '' ''m1'' = Some ?x"
    using ex [THEN conjunct2, THEN conjunct2, rule_format, of "'' acme ''" "''m1''" ?x] p(2,3) k by force
  ultimately show ?thesis using r by blast
qed

end
