(* ===== verification/Model_Profile.thy ===== *)
theory Model_Profile
  imports Core_Types
begin

section \<open>Model provider profiles (kelvin-core/src/model.rs)\<close>

text \<open>
  A provider profile names the endpoint, the headers and the hosts a model plugin may reach.
  \<open>validate_profile\<close> is \<open>ModelProviderProfile::validate\<close>, with the validators of its fields;
  \<open>builtin_profile\<close> is the table of built-in profiles.
\<close>

datatype auth_scheme = AuthBearer | AuthRaw

datatype protocol_family = OpenAiResponses | OpenAiChatCompletions | AnthropicMessages

record provider_header =
  ph_name :: string
  ph_value :: string

record provider_profile =
  pp_id :: string
  pp_provider_name :: string
  pp_protocol_family :: protocol_family
  pp_api_key_env :: "string option"
  pp_base_url_env :: string
  pp_default_base_url :: string
  pp_endpoint_path :: string
  pp_auth_header :: string
  pp_auth_scheme :: auth_scheme
  pp_static_headers :: "provider_header list"
  pp_default_allow_hosts :: "string list"
  pp_dynamic_base_url :: bool

subsection \<open>Validators\<close>

definition identifier_char :: "char \<Rightarrow> bool" where
  "identifier_char c \<longleftrightarrow> is_ascii_alphanumeric c \<or> c \<in> {CHR ''_'', CHR ''-'', CHR ''.''}"

definition header_char :: "char \<Rightarrow> bool" where
  "header_char c \<longleftrightarrow> is_ascii_alphanumeric c \<or> c \<in> {CHR ''-'', CHR ''_''}"

definition host_char :: "char \<Rightarrow> bool" where
  "host_char c \<longleftrightarrow> is_ascii_alphanumeric c \<or> c \<in> {CHR ''.'', CHR ''-''}"

definition validate_identifier :: "string \<Rightarrow> string \<Rightarrow> unit kelvin_result" where
  "validate_identifier label v = (let v = trim v in
     if v = [] then Inl (InvalidInput (label @ '' must not be empty''))
     else if \<not> list_all identifier_char v then
       Inl (InvalidInput (label @ '' has invalid characters: '' @ v))
     else Inr ())"

definition validate_header_name :: "string \<Rightarrow> string \<Rightarrow> unit kelvin_result" where
  "validate_header_name label v = (let v = trim v in
     if v = [] then Inl (InvalidInput (label @ '' must not be empty''))
     else if \<not> list_all header_char v then
       Inl (InvalidInput (label @ '' has invalid characters: '' @ v))
     else Inr ())"

definition validate_http_url :: "string \<Rightarrow> string \<Rightarrow> unit kelvin_result" where
  "validate_http_url label v = (let v = trim v in
     if \<not> (starts_with ''https://'' v \<or> starts_with ''http://'' v) then
       Inl (InvalidInput (label @ '' must start with http:// or https://''))
     else if list_ex is_whitespace v then
       Inl (InvalidInput (label @ '' must not contain whitespace''))
     else Inr ())"

definition validate_endpoint_path :: "string \<Rightarrow> unit kelvin_result" where
  "validate_endpoint_path v = (let v = trim v in
     if v = [] then Inl (InvalidInput ''provider_profile.endpoint_path must not be empty'')
     else if starts_with ''/'' v \<or> contains_str ''..'' v then
       Inl (InvalidInput ''provider_profile.endpoint_path must be a safe relative path'')
     else Inr ())"

definition validate_host_pattern :: "string \<Rightarrow> unit kelvin_result" where
  "validate_host_pattern v = (let v = trim v in
     if v = [] then Inl (InvalidInput ''provider_profile.default_allow_hosts entries must not be empty'')
     else if v = ''*'' then Inr ()
     else let candidate = (case strip_prefix ''*.'' v of Some rest \<Rightarrow> rest | None \<Rightarrow> v) in
       if \<not> list_all host_char candidate then
         Inl (InvalidInput (''provider_profile.default_allow_hosts has invalid host pattern: '' @ v))
       else Inr ())"

definition validate_static_header :: "provider_header \<Rightarrow> unit kelvin_result" where
  "validate_static_header h =
     bindR (validate_header_name ''provider_profile.static_headers[].name'' (ph_name h)) (\<lambda>_.
       if trim (ph_value h) = []
       then Inl (InvalidInput ''provider_profile.static_headers[].value must not be empty'') else Inr ())"

definition validate_profile :: "provider_profile \<Rightarrow> unit kelvin_result" where
  "validate_profile p = first_error
     [validate_identifier ''provider_profile.id'' (pp_id p),
      validate_identifier ''provider_profile.provider_name'' (pp_provider_name p),
      (case pp_api_key_env p of None \<Rightarrow> Inr ()
       | Some env \<Rightarrow> validate_identifier ''provider_profile.api_key_env'' env),
      validate_identifier ''provider_profile.base_url_env'' (pp_base_url_env p),
      validate_header_name ''provider_profile.auth_header'' (pp_auth_header p),
      validate_http_url ''provider_profile.default_base_url'' (pp_default_base_url p),
      validate_endpoint_path (pp_endpoint_path p),
      (if \<not> pp_dynamic_base_url p \<and> pp_default_allow_hosts p = []
       then Inl (InvalidInput ''provider_profile.default_allow_hosts must not be empty'') else Inr ()),
      for_each validate_host_pattern (pp_default_allow_hosts p),
      for_each validate_static_header (pp_static_headers p)]"

subsection \<open>The built-in profiles\<close>

definition openai_profile :: provider_profile where
  "openai_profile = \<lparr>pp_id = ''openai.responses'', pp_provider_name = ''openai'',
     pp_protocol_family = OpenAiResponses, pp_api_key_env = Some ''OPENAI_API_KEY'',
     pp_base_url_env = ''OPENAI_BASE_URL'', pp_default_base_url = ''https://api.openai.com'',
     pp_endpoint_path = ''v1/responses'', pp_auth_header = ''authorization'',
     pp_auth_scheme = AuthBearer, pp_static_headers = [],
     pp_default_allow_hosts = [''api.openai.com''], pp_dynamic_base_url = False\<rparr>"

definition anthropic_profile :: provider_profile where
  "anthropic_profile = \<lparr>pp_id = ''anthropic.messages'', pp_provider_name = ''anthropic'',
     pp_protocol_family = AnthropicMessages, pp_api_key_env = Some ''ANTHROPIC_API_KEY'',
     pp_base_url_env = ''ANTHROPIC_BASE_URL'', pp_default_base_url = ''https://api.anthropic.com'',
     pp_endpoint_path = ''v1/messages'', pp_auth_header = ''x-api-key'',
     pp_auth_scheme = AuthRaw,
     pp_static_headers = [\<lparr>ph_name = ''anthropic-version'', ph_value = ''2023-06-01''\<rparr>],
     pp_default_allow_hosts = [''api.anthropic.com''], pp_dynamic_base_url = False\<rparr>"

definition builtin_profile :: "string \<Rightarrow> provider_profile option" where
  "builtin_profile pid =
     (if trim pid = ''openai.responses'' then Some openai_profile
      else if trim pid = ''anthropic.messages'' then Some anthropic_profile
      else None)"

definition default_model_name :: "provider_profile \<Rightarrow> string" where
  "default_model_name p = (case pp_protocol_family p of
     OpenAiResponses \<Rightarrow> ''gpt-4.1-mini''
   | OpenAiChatCompletions \<Rightarrow>
       if pp_provider_name p = ''openrouter'' then ''openai/gpt-4.1-mini'' else ''default''
   | AnthropicMessages \<Rightarrow> ''claude-haiku-4-5-20251001'')"

subsection \<open>What validation guarantees\<close>

lemma validate_endpoint_path_iff: "validate_endpoint_path v = Inr () \<longleftrightarrow>
    trim v \<noteq> [] \<and> \<not> starts_with ''/'' (trim v) \<and> \<not> contains_str ''..'' (trim v)"
  by (auto simp: validate_endpoint_path_def Let_def)

lemma no_dotdot_segment: "\<not> contains_str ''..'' s \<Longrightarrow> ''..'' \<notin> set (split_char d s)"
proof (induction s)
  case (Cons c s)
  have "\<not> contains_str ''..'' s" using Cons.prems by simp
  then have IH: "''..'' \<notin> set (split_char d s)" by (rule Cons.IH)
  have piece: "\<exists>rest. s = p @ rest" if "split_char d s = p # ps" for p ps s
    using that by (induction s arbitrary: p ps) (auto split: if_splits list.splits)
  show ?case
  proof (cases "c = d")
    case False
    then obtain p ps where p: "split_char d s = p # ps" by (cases "split_char d s") auto
    then obtain rest where "s = p @ rest" using piece by blast
    then have "c # p \<noteq> ''..''" using Cons.prems by (auto simp: starts_with_iff)
    then show ?thesis using False IH p by auto
  qed (use IH in simp)
qed simp

text \<open>
  A validated profile cannot point outside its endpoint: the trimmed endpoint path is
  relative and none of its segments is \<^verbatim>\<open>..\<close>, the base URL is an http or https URL without
  blanks, and a profile with a fixed base URL has a non-empty list of allowed hosts, each a
  star or a host pattern.
\<close>

theorem validated_profile:
  assumes "validate_profile p = Inr ()"
  shows "\<not> starts_with ''/'' (trim (pp_endpoint_path p)) \<and>
    ''..'' \<notin> set (split_char CHR ''/'' (trim (pp_endpoint_path p))) \<and>
    (starts_with ''https://'' (trim (pp_default_base_url p)) \<or>
     starts_with ''http://'' (trim (pp_default_base_url p))) \<and>
    \<not> list_ex is_whitespace (trim (pp_default_base_url p)) \<and>
    (\<not> pp_dynamic_base_url p \<longrightarrow> pp_default_allow_hosts p \<noteq> []) \<and>
    (\<forall>h\<in>set (pp_default_allow_hosts p). trim h = ''*'' \<or> list_all host_char (trim h) \<or>
       (\<exists>rest. trim h = ''*.'' @ rest \<and> list_all host_char rest))"
proof -
  have parts: "validate_endpoint_path (pp_endpoint_path p) = Inr ()"
      "validate_http_url ''provider_profile.default_base_url'' (pp_default_base_url p) = Inr ()"
      "\<not> pp_dynamic_base_url p \<longrightarrow> pp_default_allow_hosts p \<noteq> []"
      "\<forall>h\<in>set (pp_default_allow_hosts p). validate_host_pattern h = Inr ()"
    using assms by (auto simp: validate_profile_def for_each_Inr_iff split: if_splits)
  have url: "(starts_with ''https://'' (trim (pp_default_base_url p)) \<or>
     starts_with ''http://'' (trim (pp_default_base_url p))) \<and>
     \<not> list_ex is_whitespace (trim (pp_default_base_url p))"
    using parts(2) by (auto simp: validate_http_url_def Let_def split: if_splits)
  have "trim h = ''*'' \<or> list_all host_char (trim h) \<or>
       (\<exists>rest. trim h = ''*.'' @ rest \<and> list_all host_char rest)" if "validate_host_pattern h = Inr ()" for h
    using that by (auto simp: validate_host_pattern_def Let_def strip_prefix_Some_iff
        split: if_splits option.splits)
  then show ?thesis using parts url no_dotdot_segment by (simp add: validate_endpoint_path_iff)
qed

lemma demo_profiles_valid:
  "validate_profile openai_profile = Inr ()"
  "validate_profile anthropic_profile = Inr ()"
  by (simp_all add: validate_profile_def openai_profile_def anthropic_profile_def
      validate_identifier_def validate_header_name_def validate_http_url_def
      validate_endpoint_path_def validate_host_pattern_def validate_static_header_def
      identifier_char_def header_char_def host_char_def Let_def str_eval)

theorem validated_profile_witness:
  "validate_profile openai_profile = Inr () \<and>
   ''..'' \<notin> set (split_char CHR ''/'' (trim (pp_endpoint_path openai_profile)))"
  using validated_profile [OF demo_profiles_valid(1)] demo_profiles_valid(1) by blast

text \<open>
  Every built-in profile validates, is found under its own id, and is not dynamic, so its
  hosts are restricted.
\<close>

theorem builtin_profiles_valid:
  "case builtin_profile pid of
     None \<Rightarrow> trim pid \<noteq> ''openai.responses'' \<and> trim pid \<noteq> ''anthropic.messages''
   | Some p \<Rightarrow> validate_profile p = Inr () \<and> pp_id p = trim pid \<and> builtin_profile (pp_id p) = Some p \<and>
       \<not> pp_dynamic_base_url p \<and> ''*'' \<notin> set (pp_default_allow_hosts p)"
proof -
  have "pp_id openai_profile = ''openai.responses''" "pp_id anthropic_profile = ''anthropic.messages''"
      "trim ''openai.responses'' = ''openai.responses''" "trim ''anthropic.messages'' = ''anthropic.messages''"
      "\<not> pp_dynamic_base_url openai_profile \<and> ''*'' \<notin> set (pp_default_allow_hosts openai_profile)"
      "\<not> pp_dynamic_base_url anthropic_profile \<and> ''*'' \<notin> set (pp_default_allow_hosts anthropic_profile)"
    by (simp_all add: openai_profile_def anthropic_profile_def str_eval)
  then show ?thesis using demo_profiles_valid by (simp add: builtin_profile_def)
qed

end
