(* ===== verification/Tool_Loop.thy ===== *)
theory Tool_Loop
  imports Core_Types "HOL-Library.Multiset"
begin

section \<open>The tool loop detector (kelvin-brain/src/tool_loop_detector.rs)\<close>

text \<open>
  \<open>record_call\<close> compares the tool calls of one iteration with those of the iteration before
  and counts how often in a row they were the same. The serializer
  \<open>serde_json::to_string\<close> is a parameter \<open>to_json\<close>; the clock is the argument \<open>now\<close>, a
  reading for each recorded call. The index \<open>recent_calls[0]\<close> can panic in Rust: the operation
  returns \<open>None\<close> there, and \<open>detector_exact\<close> shows that it never does.
\<close>

record recorded_tool_call =
  rc_tool_name :: string
  rc_input_hash :: string
  rc_is_error :: bool
  rc_timestamp :: nat

datatype loop_detection_result =
    NoIssue
  | SuspectedLoop (sl_tool_name: string) (sl_repeat_count: nat) (sl_is_all_errors: bool)

record tool_loop_detector =
  recent_calls :: "recorded_tool_call list"
  consecutive_repeats :: nat
  repeat_threshold :: nat

definition detector_new :: tool_loop_detector where
  "detector_new = \<lparr>recent_calls = [], consecutive_repeats = 0, repeat_threshold = 3\<rparr>"

text \<open>The arguments as text, the keys of an object sorted and the approval field left out.\<close>

definition canonical_args :: "(json \<Rightarrow> string option) \<Rightarrow> json \<Rightarrow> string" where
  "canonical_args to_json args = (case args of
     JObj kvs \<Rightarrow> (case to_json (JObj (sort_key fst (filter (\<lambda>(k, v). k \<noteq> ''approval'') kvs))) of
       Some s \<Rightarrow> s | None \<Rightarrow> [])
   | _ \<Rightarrow> (case to_json args of Some s \<Rightarrow> s | None \<Rightarrow> []))"

type_synonym iteration_calls = "(string \<times> json \<times> bool) list"

definition recorded_calls ::
    "(json \<Rightarrow> string option) \<Rightarrow> (nat \<Rightarrow> nat) \<Rightarrow> iteration_calls \<Rightarrow> recorded_tool_call list" where
  "recorded_calls to_json now calls = map (\<lambda>(i, name, args, is_error).
     \<lparr>rc_tool_name = name, rc_input_hash = canonical_args to_json args, rc_is_error = is_error,
      rc_timestamp = now i mod 2 ^ 64\<rparr>) (List.enumerate 0 calls)"

definition is_same_as_last :: "recorded_tool_call list \<Rightarrow> recorded_tool_call list \<Rightarrow> bool" where
  "is_same_as_last recent new \<longleftrightarrow> recent \<noteq> [] \<and> length recent = length new \<and>
     list_all (\<lambda>(a, b). rc_tool_name a = rc_tool_name b \<and> rc_input_hash a = rc_input_hash b)
       (zip recent new)"

definition record_call ::
    "(json \<Rightarrow> string option) \<Rightarrow> (nat \<Rightarrow> nat) \<Rightarrow> iteration_calls \<Rightarrow> tool_loop_detector \<Rightarrow>
     (loop_detection_result \<times> tool_loop_detector) option" where
  "record_call to_json now calls d =
     (let new_calls = recorded_calls to_json now calls;
          repeats = (if is_same_as_last (recent_calls d) new_calls then consecutive_repeats d + 1 else 1);
          d' = d\<lparr>consecutive_repeats := repeats, recent_calls := new_calls\<rparr> in
      if repeat_threshold d \<le> repeats then
        (case new_calls of [] \<Rightarrow> None
         | c # _ \<Rightarrow> Some (SuspectedLoop (rc_tool_name c) repeats (list_all rc_is_error new_calls), d'))
      else Some (NoIssue, d'))"

subsection \<open>Canonical arguments\<close>

lemma sort_key_fst_mset:
  "mset kvs = mset kvs' \<Longrightarrow> distinct (map fst kvs) \<Longrightarrow> sort_key fst kvs = sort_key fst kvs'"
  by (intro sort_key_inj_key_eq) (simp_all add: distinct_map)

text \<open>
  Two argument objects that differ only in the order of their keys and in the approval
  field have the same canonical text, so a retry with a new approval reason counts as the same
  call.
\<close>

theorem canonical_args_ignores_order_and_approval:
  assumes "distinct (map fst kvs)"
    and "mset (filter (\<lambda>(k, v). k \<noteq> ''approval'') kvs) = mset (filter (\<lambda>(k, v). k \<noteq> ''approval'') kvs')"
  shows "canonical_args to_json (JObj kvs) = canonical_args to_json (JObj kvs')"
proof -
  have "distinct (map fst (filter (\<lambda>(k, v). k \<noteq> ''approval'') kvs))"
    using assms(1) by (simp add: distinct_map_filter)
  then show ?thesis using sort_key_fst_mset [OF assms(2)] by (simp add: canonical_args_def)
qed

theorem canonical_args_ignores_order_and_approval_witness:
  "canonical_args (\<lambda>_. Some ''x'') (JObj [(''a'', JNull), (''approval'', JBool True), (''b'', JNull)]) =
   canonical_args (\<lambda>_. Some ''x'') (JObj [(''b'', JNull), (''a'', JNull)])"
  by (rule canonical_args_ignores_order_and_approval) simp_all

subsection \<open>What the detector reports\<close>

text \<open>The part of an iteration that the comparison looks at, and the detector run over a history.\<close>

definition call_signature :: "(json \<Rightarrow> string option) \<Rightarrow> iteration_calls \<Rightarrow> (string \<times> string) list" where
  "call_signature to_json calls = map (\<lambda>(name, args, _). (name, canonical_args to_json args)) calls"

fun run_detector ::
    "(json \<Rightarrow> string option) \<Rightarrow> (nat \<Rightarrow> nat) \<Rightarrow> iteration_calls list \<Rightarrow> tool_loop_detector \<Rightarrow>
     tool_loop_detector option" where
  "run_detector to_json now [] d = Some d"
| "run_detector to_json now (calls # rest) d =
     (case record_call to_json now calls d of None \<Rightarrow> None
      | Some (_, d') \<Rightarrow> run_detector to_json now rest d')"

lemma run_detector_append: "run_detector to_json now (xs @ [x]) d =
    (case run_detector to_json now xs d of None \<Rightarrow> None
     | Some d1 \<Rightarrow> map_option snd (record_call to_json now x d1))"
  by (induction xs arbitrary: d) (auto split: option.splits)

text \<open>How many iterations at the end of a history make the same calls as the last one.\<close>

definition trailing_repeats :: "(json \<Rightarrow> string option) \<Rightarrow> iteration_calls list \<Rightarrow> nat" where
  "trailing_repeats to_json history = (case rev history of [] \<Rightarrow> 0 | x # xs \<Rightarrow>
     if x = [] then 1
     else Suc (length (takeWhile (\<lambda>y. call_signature to_json y = call_signature to_json x) xs)))"

lemma map_map_enumerate:
  "(\<And>i x. g (f (i, x)) = h x) \<Longrightarrow> map g (map f (List.enumerate n xs)) = map h xs"
  by (induction xs arbitrary: n) auto

lemma map_recorded_calls:
  "map (\<lambda>c. (rc_tool_name c, rc_input_hash c)) (recorded_calls to_json now calls) =
   call_signature to_json calls"
  unfolding recorded_calls_def call_signature_def
  by (rule map_map_enumerate) (auto split: prod.splits)

lemma length_recorded_calls [simp]: "length (recorded_calls to_json now calls) = length calls"
  by (simp add: recorded_calls_def)

lemma recorded_calls_Nil_iff [simp]: "recorded_calls to_json now calls = [] \<longleftrightarrow> calls = []"
  by (metis length_0_conv length_recorded_calls)

lemma list_all_zip_map:
  "length xs = length ys \<Longrightarrow> list_all (\<lambda>(a, b). f a = f b) (zip xs ys) \<longleftrightarrow> map f xs = map f ys"
  by (induction xs ys rule: list_induct2) auto

lemma is_same_as_last_iff: "is_same_as_last recent new \<longleftrightarrow> recent \<noteq> [] \<and>
    map (\<lambda>c. (rc_tool_name c, rc_input_hash c)) recent = map (\<lambda>c. (rc_tool_name c, rc_input_hash c)) new"
  using list_all_zip_map [of recent new "\<lambda>c. (rc_tool_name c, rc_input_hash c)"]
  by (auto simp: is_same_as_last_def dest: map_eq_imp_length_eq)

lemma call_signature_Nil_iff [simp]: "call_signature to_json calls = [] \<longleftrightarrow> calls = []"
  by (simp add: call_signature_def)

lemma all_errors_recorded:
  "list_all rc_is_error (recorded_calls to_json now calls) = list_all (\<lambda>(_, _, e). e) calls"
proof -
  have "map rc_is_error (recorded_calls to_json now calls) = map (\<lambda>(_, _, e). e) calls"
    unfolding recorded_calls_def by (rule map_map_enumerate) (auto split: prod.splits)
  then have "list_all id (map rc_is_error (recorded_calls to_json now calls)) =
      list_all id (map (\<lambda>(_, _, e). e) calls)" by simp
  then show ?thesis by (simp add: list.pred_map comp_def case_prod_unfold)
qed

lemma hd_recorded_calls: "recorded_calls to_json now calls = c # cs \<Longrightarrow> rc_tool_name c = fst (hd calls)"
  by (cases calls) (auto simp: recorded_calls_def)

text \<open>The detector after a history: its counter is the number of trailing repeats.\<close>

definition detector_at :: "(json \<Rightarrow> string option) \<Rightarrow> iteration_calls list \<Rightarrow> tool_loop_detector \<Rightarrow> bool" where
  "detector_at to_json history d \<longleftrightarrow> repeat_threshold d = 3 \<and>
     map (\<lambda>c. (rc_tool_name c, rc_input_hash c)) (recent_calls d) =
       (if history = [] then [] else call_signature to_json (last history)) \<and>
     consecutive_repeats d = trailing_repeats to_json history"

lemma trailing_repeats_snoc:
  "trailing_repeats to_json (xs @ [x]) =
     (if xs \<noteq> [] \<and> last xs \<noteq> [] \<and> call_signature to_json (last xs) = call_signature to_json x
      then trailing_repeats to_json xs + 1 else 1)"
proof (cases "rev xs")
  case (Cons y ys)
  then have xs: "xs = rev ys @ [y]" by (metis rev.simps(2) rev_swap)
  have "x = [] \<longleftrightarrow> y = []" if "call_signature to_json y = call_signature to_json x"
    using that by (metis call_signature_Nil_iff)
  then show ?thesis by (auto simp: trailing_repeats_def xs)
qed (auto simp: trailing_repeats_def)

lemma record_call_step:
  assumes "detector_at to_json history d"
  shows "\<exists>d'. record_call to_json now calls d =
      Some (if 3 \<le> trailing_repeats to_json (history @ [calls])
            then SuspectedLoop (fst (hd calls)) (trailing_repeats to_json (history @ [calls]))
              (list_all (\<lambda>(_, _, e). e) calls)
            else NoIssue, d') \<and> detector_at to_json (history @ [calls]) d'"
proof -
  let ?new = "recorded_calls to_json now calls"
  have d: "repeat_threshold d = 3" "consecutive_repeats d = trailing_repeats to_json history"
      "map (\<lambda>c. (rc_tool_name c, rc_input_hash c)) (recent_calls d) =
       (if history = [] then [] else call_signature to_json (last history))"
    using assms by (simp_all add: detector_at_def)
  have "recent_calls d = [] \<longleftrightarrow> history = [] \<or> last history = []"
    using arg_cong [OF d(3), of "\<lambda>l. l = []"] by (auto split: if_splits)
  then have same: "is_same_as_last (recent_calls d) ?new \<longleftrightarrow> history \<noteq> [] \<and> last history \<noteq> [] \<and>
      call_signature to_json (last history) = call_signature to_json calls"
    by (auto simp: is_same_as_last_iff map_recorded_calls d(3))
  then have reps: "(if is_same_as_last (recent_calls d) ?new then consecutive_repeats d + 1 else 1) =
      trailing_repeats to_json (history @ [calls])"
    by (simp add: trailing_repeats_snoc d(2))
  have "calls \<noteq> []" if "3 \<le> trailing_repeats to_json (history @ [calls])"
    using that by (auto simp: trailing_repeats_def)
  then show ?thesis
    using map_recorded_calls [of to_json now calls] all_errors_recorded [of to_json now calls]
      hd_recorded_calls [of to_json now calls]
    unfolding record_call_def Let_def reps d(1)
    by (cases ?new) (auto simp: detector_at_def d(1))
qed

lemma run_detector_at:
  "\<exists>d. run_detector to_json now history detector_new = Some d \<and> detector_at to_json history d"
proof (induction history rule: rev_induct)
  case Nil
  show ?case by (simp add: detector_at_def detector_new_def trailing_repeats_def)
next
  case (snoc x xs)
  then obtain d where "run_detector to_json now xs detector_new = Some d" "detector_at to_json xs d"
    by blast
  then show ?case using record_call_step [of to_json xs d now x] by (auto simp: run_detector_append)
qed

text \<open>
  \<^bold>\<open>C6.\<close> The detector is exact and never panics: after any history of iterations, recording
  another one reports a suspected loop exactly when it and the iterations just before it, at
  least three in a row, make the same non-empty list of calls; it reports how many there are,
  the first tool's name and whether all calls of the last iteration failed.
\<close>

theorem detector_exact:
  "\<exists>d d'. run_detector to_json now history detector_new = Some d \<and>
     record_call to_json now calls d =
       Some (if 3 \<le> trailing_repeats to_json (history @ [calls])
             then SuspectedLoop (fst (hd calls)) (trailing_repeats to_json (history @ [calls]))
               (list_all (\<lambda>(_, _, e). e) calls)
             else NoIssue, d')"
  using run_detector_at [of to_json now history] record_call_step [of to_json history _ now calls] by blast

end
