(* ===== verification/Brain.thy ===== *)
theory Brain
  imports Tool_Loop Plugin_Sdk
begin

section \<open>The agent loop (kelvin-brain/src/kelvin_brain.rs, system_prompt.rs)\<close>

text \<open>
  \<open>KelvinBrain::run\<close> drives a model and its tools. Everything it calls through a trait object
  (session store, memory, model, tools, event sink), the clock and the file system are the
  parameter \<open>brain_env\<close>: operations on an arbitrary world \<open>'w\<close> that may fail. The state adds
  to the world the event counter and a history variable \<open>bs_trace\<close>, the list of the calls the
  brain has made, in order, which the theorems speak about.

  \<open>tokio::time::timeout\<close> drops the run at one of its await points. In the model every await
  asks the world whether the deadline has passed there (\<open>be_expired\<close>, any predicate); from then
  on the run makes no call and has no effect, and ends with the timeout error.
\<close>

subsection \<open>The system prompt\<close>

abbreviation nl :: string where "nl \<equiv> [CHR 10]"
abbreviation dq :: string where "dq \<equiv> [CHR 34]"

datatype prompt_section =
    SecIdentity
  | SecSafety
  | SecTools "(string \<times> string) list"
  | SecWorkspace string
  | SecDateTime string
  | SecRuntimeInfo string string string string
  | SecExtra string

text \<open>\<open>canon\<close> is \<open>std::fs::canonicalize\<close>.\<close>

fun render_section :: "(string \<Rightarrow> string option) \<Rightarrow> prompt_section \<Rightarrow> string" where
  "render_section canon SecIdentity =
     ''You are Kelvin, an AI assistant. You help users accomplish tasks by reasoning carefully and using the tools available to you.''"
| "render_section canon SecSafety =
     ''Tool use policy:'' @ nl @
     ''Some tools are marked sensitive and require an explicit approval object in their arguments before they will execute. '' @
     ''When calling a sensitive tool, you must provide the following field:'' @ nl @ nl @
     ''  '' @ dq @ ''approval'' @ dq @ '': { '' @ dq @ ''granted'' @ dq @ '': true, '' @ dq @ ''reason'' @ dq @
     '': '' @ dq @ ''your reason here'' @ dq @ '' }'' @ nl @ nl @
     ''Rules for the approval field:'' @ nl @
     ''- granted must be the boolean true (not a string)'' @ nl @
     ''- reason must be a non-empty string, at most 256 characters, with no control characters'' @ nl @
     ''- if approval is absent, granted is not true, or reason is invalid, the tool call is blocked'' @ nl @
     ''Only invoke sensitive tools when the current task clearly warrants it.''"
| "render_section canon (SecTools tools) = join_with nl (''Available tools:'' # map (\<lambda>(name, description).
     if description = [] then ''- '' @ name else ''- '' @ name @ '': '' @ description) tools)"
| "render_section canon (SecWorkspace dir) = ''Working directory: '' @
     (case canon dir of Some p \<Rightarrow> p | None \<Rightarrow> dir)"
| "render_section canon (SecDateTime dt) = ''Current date and time (UTC): '' @ dt"
| "render_section canon (SecRuntimeInfo run_id session_id provider model) =
     ''Runtime:'' @ nl @ ''- run_id: '' @ run_id @ nl @ ''- session_id: '' @ session_id @ nl @
     ''- model: '' @ provider @ '' / '' @ model"
| "render_section canon (SecExtra text) = text"

record system_prompt_params =
  sp_run_id :: string
  sp_session_id :: string
  sp_model_provider :: string
  sp_model_name :: string
  sp_workspace_dir :: string
  sp_tools :: "tool_definition list"
  sp_extra_system_prompt :: "string option"

definition prompt_sections :: "string \<Rightarrow> system_prompt_params \<Rightarrow> prompt_section list" where
  "prompt_sections utc_now p = List.map_filter (\<lambda>x. x)
     [Some SecIdentity,
      Some SecSafety,
      (if sp_tools p = [] then None
       else Some (SecTools (map (\<lambda>t. (td_name t, td_description t)) (sp_tools p)))),
      Some (SecWorkspace (sp_workspace_dir p)),
      Some (SecDateTime utc_now),
      Some (SecRuntimeInfo (sp_run_id p) (sp_session_id p) (sp_model_provider p) (sp_model_name p)),
      map_option SecExtra (sp_extra_system_prompt p)]"

definition build_system_prompt ::
    "(string \<Rightarrow> string option) \<Rightarrow> string \<Rightarrow> system_prompt_params \<Rightarrow> string" where
  "build_system_prompt canon utc_now p =
     join_with (nl @ nl) (map (render_section canon) (prompt_sections utc_now p))"

subsection \<open>Environment and state\<close>

record 'w tool_handle =
  th_name :: string
  th_call :: "tool_call_input \<Rightarrow> ('w, tool_call_result) eff"

text \<open>The score of a memory hit is its bit pattern; the brain does not read it.\<close>

record 'w brain_env =
  be_upsert_session :: "session_descriptor \<Rightarrow> ('w, unit) eff"
  be_append_message :: "string \<Rightarrow> session_message \<Rightarrow> ('w, unit) eff"
  be_history :: "string \<Rightarrow> ('w, session_message list) eff"
  be_search :: "string \<Rightarrow> memory_search_options \<Rightarrow> ('w, nat memory_search_result list) eff"
  be_infer :: "model_input \<Rightarrow> ('w, model_output) eff"
  be_provider_name :: string
  be_model_name :: string
  be_tools_get :: "string \<Rightarrow> 'w tool_handle option"
  be_tool_definitions :: "tool_definition list"
  be_emit :: "agent_event \<Rightarrow> ('w, unit) eff"
  be_now :: "'w \<Rightarrow> nat"
  be_utc_now :: "'w \<Rightarrow> string"
  be_canonicalize :: "'w \<Rightarrow> string \<Rightarrow> string option"
  be_to_json :: "json \<Rightarrow> string option"
  be_expired :: "nat \<Rightarrow> 'w \<Rightarrow> bool"
  be_max_tool_iterations :: nat

datatype brain_obs =
    ObsEmit agent_event
  | ObsUpsert session_descriptor
  | ObsAppend string session_message
  | ObsHistory string
  | ObsSearch string
  | ObsInfer model_input
  | ObsToolCall string tool_call_input
  | ObsReceipt json

record 'w brain_state =
  bs_seq :: nat
  bs_world :: 'w
  bs_trace :: "brain_obs list"
  bs_timeout :: "nat option"
  bs_cancelled :: bool

type_synonym ('w, 'a) brain_op = "('w brain_state, 'a) eff"

definition timeout_error :: "'w brain_state \<Rightarrow> kelvin_error" where
  "timeout_error s = Timeout (''agent run exceeded timeout of '' @
     show_nat (case bs_timeout s of Some ms \<Rightarrow> ms | None \<Rightarrow> 0) @ ''ms'')"

definition deadline_passed :: "'w brain_env \<Rightarrow> 'w brain_state \<Rightarrow> bool" where
  "deadline_passed env s = (case bs_timeout s of None \<Rightarrow> False | Some ms \<Rightarrow> be_expired env ms (bs_world s))"

text \<open>An await on a call to the environment: the only place where the run can be dropped.\<close>

definition awaitE :: "'w brain_env \<Rightarrow> brain_obs \<Rightarrow> ('w, 'a) eff \<Rightarrow> ('w, 'a) brain_op" where
  "awaitE env obs op = (\<lambda>s.
     if bs_cancelled s then (Inl (timeout_error s), s)
     else case op (bs_world s) of (r, w) \<Rightarrow>
       let s' = s\<lparr>bs_world := w, bs_trace := bs_trace s @ [obs]\<rparr> in
       if deadline_passed env s' then (Inl (timeout_error s), s'\<lparr>bs_cancelled := True\<rparr>) else (r, s'))"

subsection \<open>Events and receipts\<close>

text \<open>\<open>next_seq\<close> and the construction of the event come before the await on the sink.\<close>

definition emit_event :: "'w brain_env \<Rightarrow> (nat \<Rightarrow> agent_event_data) \<Rightarrow> ('w, unit) brain_op" where
  "emit_event env mk = (\<lambda>s.
     if bs_cancelled s then (Inl (timeout_error s), s)
     else let q = (bs_seq s + 1) mod 2 ^ 64;
              ev = \<lparr>ev_seq = q, ev_data = mk (be_now env (bs_world s))\<rparr> in
       awaitE env (ObsEmit ev) (be_emit env ev) (s\<lparr>bs_seq := q\<rparr>))"

definition emit_lifecycle ::
    "'w brain_env \<Rightarrow> string \<Rightarrow> lifecycle_phase \<Rightarrow> string option \<Rightarrow> ('w, unit) brain_op" where
  "emit_lifecycle env run_id phase message = emit_event env (Lifecycle run_id phase message)"

definition emit_assistant :: "'w brain_env \<Rightarrow> string \<Rightarrow> string \<Rightarrow> bool \<Rightarrow> ('w, unit) brain_op" where
  "emit_assistant env run_id txt final_chunk = emit_event env (Assistant run_id txt final_chunk)"

definition emit_tool :: "'w brain_env \<Rightarrow> string \<Rightarrow> string \<Rightarrow> tool_phase \<Rightarrow> string option \<Rightarrow>
    string option \<Rightarrow> ('w, unit) brain_op" where
  "emit_tool env run_id tool_name phase summary output =
     emit_event env (ToolEvent run_id tool_name phase summary output)"

fun sanitize_from :: "nat \<Rightarrow> string \<Rightarrow> string" where
  "sanitize_from idx [] = []"
| "sanitize_from idx (c # s) =
     (if 512 \<le> idx then ''...''
      else if is_control c then sanitize_from (idx + 1) s
      else c # sanitize_from (idx + 1) s)"

definition sanitize_receipt_reason :: "string \<Rightarrow> string" where
  "sanitize_receipt_reason reason = sanitize_from 0 reason"

definition now_ms :: "'w brain_env \<Rightarrow> ('w, nat) brain_op" where
  "now_ms env = getsE (\<lambda>s. be_now env (bs_world s))"

definition emit_tool_receipt :: "'w brain_env \<Rightarrow> agent_run_request \<Rightarrow> string \<Rightarrow> string \<Rightarrow> string \<Rightarrow>
    string \<Rightarrow> nat \<Rightarrow> ('w, unit) brain_op" where
  "emit_tool_receipt env req tool_name tool_call_id result_class reason started = (\<lambda>s.
     if bs_cancelled s then (Inl (timeout_error s), s)
     else (Inr (), s\<lparr>bs_trace := bs_trace s @ [ObsReceipt (JObj
         [(''stream'', JStr ''tool_receipt''), (''run_id'', JStr (req_run_id req)),
          (''who'', JObj [(''session_id'', JStr (req_session_id req))]),
          (''what'', JObj [(''tool_name'', JStr tool_name), (''tool_call_id'', JStr tool_call_id)]),
          (''why'', JStr (sanitize_receipt_reason reason)),
          (''result_class'', JStr result_class),
          (''latency_ms'', JNum (show_nat (be_now env (bs_world s) - started)))])]\<rparr>))"

definition append_message :: "'w brain_env \<Rightarrow> string \<Rightarrow> session_message \<Rightarrow> ('w, unit) brain_op" where
  "append_message env sid m = awaitE env (ObsAppend sid m) (be_append_message env sid m)"

definition session_history :: "'w brain_env \<Rightarrow> string \<Rightarrow> ('w, session_message list) brain_op" where
  "session_history env sid = awaitE env (ObsHistory sid) (be_history env sid)"

definition infer :: "'w brain_env \<Rightarrow> model_input \<Rightarrow> ('w, model_output) brain_op" where
  "infer env mi = awaitE env (ObsInfer mi) (be_infer env mi)"

subsection \<open>Tool calls\<close>

definition json_opt :: "string option \<Rightarrow> json" where
  "json_opt v = (case v of Some s \<Rightarrow> JStr s | None \<Rightarrow> JNull)"

definition tool_input :: "agent_run_request \<Rightarrow> tool_call \<Rightarrow> tool_call_input" where
  "tool_input req tc = \<lparr>tci_run_id = req_run_id req, tci_session_id = req_session_id req,
     tci_workspace_dir = req_workspace_dir req, tci_arguments = tc_arguments tc\<rparr>"

text \<open>The branch for a name the registry does not know.\<close>

definition execute_unknown_tool :: "'w brain_env \<Rightarrow> agent_run_request \<Rightarrow> tool_call \<Rightarrow> nat \<Rightarrow>
    ('w, (tool_call \<times> agent_payload) list) brain_op" where
  "execute_unknown_tool env req tc started = (let summary = ''unknown tool: '' @ tc_name tc in
     seqE (emit_tool env (req_run_id req) (tc_name tc) ToolError (Some summary) None)
     (seqE (emit_tool_receipt env req (tc_name tc) (tc_id tc) ''denied'' summary started)
     (okE [(tc, \<lparr>pl_text = summary, pl_is_error = True\<rparr>)])))"

definition execute_failed_tool :: "'w brain_env \<Rightarrow> agent_run_request \<Rightarrow> tool_call \<Rightarrow> string \<Rightarrow>
    kelvin_error \<Rightarrow> nat \<Rightarrow> ('w, (tool_call \<times> agent_payload) list) brain_op" where
  "execute_failed_tool env req tc name err started =
     (let summary = ''tool '' @ quoted name @ '' failed: '' @ show_error err in
     seqE (emit_tool env (req_run_id req) name ToolError (Some summary) None)
     (seqE (append_message env (req_session_id req) (tool_message
         (summary @ nl @ nl @ ''Error:'' @ nl @ show_error err)
         (JObj [(''tool'', JStr name), (''is_error'', JBool True), (''error'', JStr (show_error err))])))
     (seqE (emit_tool_receipt env req name (tc_id tc) ''error'' summary started)
     (okE [(tc, \<lparr>pl_text = summary, pl_is_error = True\<rparr>)]))))"

definition execute_returned_tool :: "'w brain_env \<Rightarrow> agent_run_request \<Rightarrow> tool_call \<Rightarrow> string \<Rightarrow>
    tool_call_result \<Rightarrow> nat \<Rightarrow> ('w, (tool_call \<times> agent_payload) list) brain_op" where
  "execute_returned_tool env req tc name res started =
     seqE (emit_tool env (req_run_id req) name (if tcr_is_error res then ToolError else ToolEnd)
       (Some (tcr_summary res)) (tcr_output res))
     (seqE (append_message env (req_session_id req) (tool_message
         (case tcr_output res of
            Some out \<Rightarrow> tcr_summary res @ nl @ nl @ ''Output:'' @ nl @ out
          | None \<Rightarrow> tcr_summary res)
         (JObj [(''tool'', JStr name), (''is_error'', JBool (tcr_is_error res)),
                (''output'', json_opt (tcr_output res))])))
     (seqE (emit_tool_receipt env req name (tc_id tc)
         (if tcr_is_error res then ''tool_error'' else ''success'') (tcr_summary res) started)
     (okE (case tcr_visible_text res of
         Some visible \<Rightarrow> [(tc, \<lparr>pl_text = visible, pl_is_error = tcr_is_error res\<rparr>)]
       | None \<Rightarrow> []))))"

definition execute_tool_call :: "'w brain_env \<Rightarrow> agent_run_request \<Rightarrow> tool_call \<Rightarrow>
    ('w, (tool_call \<times> agent_payload) list) brain_op" where
  "execute_tool_call env req tc =
     bindE (now_ms env) (\<lambda>started.
     seqE (emit_tool env (req_run_id req) (tc_name tc) ToolStart (Some ''tool execution started'') None)
     (case be_tools_get env (tc_name tc) of
        None \<Rightarrow> execute_unknown_tool env req tc started
      | Some tool \<Rightarrow>
          bindE (attemptE (awaitE env (ObsToolCall (th_name tool) (tool_input req tc))
            (th_call tool (tool_input req tc)))) (\<lambda>r.
          case r of
            Inl err \<Rightarrow> execute_failed_tool env req tc (th_name tool) err started
          | Inr res \<Rightarrow> execute_returned_tool env req tc (th_name tool) res started)))"

fun execute_tool_calls :: "'w brain_env \<Rightarrow> agent_run_request \<Rightarrow> tool_call list \<Rightarrow>
    ('w, (tool_call \<times> agent_payload) list) brain_op" where
  "execute_tool_calls env req [] = okE []"
| "execute_tool_calls env req (tc # tcs) =
     bindE (execute_tool_call env req tc) (\<lambda>p.
     bindE (execute_tool_calls env req tcs) (\<lambda>ps. okE (p @ ps)))"

subsection \<open>The loop\<close>

definition followup_prompt :: string where
  "followup_prompt = ''Tool calls completed. Based on the results in the conversation history above, respond to the user's original request.''"

definition turn_input :: "agent_run_request \<Rightarrow> string \<Rightarrow> string list \<Rightarrow> string \<Rightarrow>
    session_message list \<Rightarrow> tool_definition list \<Rightarrow> model_input" where
  "turn_input req system_prompt snippets user_prompt history tools =
     \<lparr>mi_run_id = req_run_id req, mi_session_id = req_session_id req,
      mi_system_prompt = system_prompt, mi_user_prompt = user_prompt,
      mi_memory_snippets = snippets, mi_history = history, mi_tools = tools\<rparr>"

text \<open>What both the ordinary and the final turn do with the assistant's text.\<close>

definition deliver_text :: "'w brain_env \<Rightarrow> agent_run_request \<Rightarrow> string \<Rightarrow> bool \<Rightarrow>
    ('w, agent_payload list) brain_op" where
  "deliver_text env req txt final_chunk =
     (if txt \<noteq> [] \<and> txt \<noteq> ''NO_REPLY'' then
        seqE (emit_assistant env (req_run_id req) txt final_chunk)
        (seqE (append_message env (req_session_id req) (assistant_message txt))
        (okE (if final_chunk then [\<lparr>pl_text = txt, pl_is_error = False\<rparr>] else [])))
      else okE [])"

definition show_bool :: "bool \<Rightarrow> string" where
  "show_bool b = (if b then ''true'' else ''false'')"

definition force_reason :: "nat \<Rightarrow> nat \<Rightarrow> loop_detection_result \<Rightarrow> string option" where
  "force_reason max_iter iteration detection =
     (if max_iter \<le> iteration
      then Some (''max tool iterations ('' @ show_nat max_iter @ '') reached'')
      else case detection of
        SuspectedLoop tool_name repeat_count is_all_errors \<Rightarrow>
          Some (''loop detector triggered with (name='' @ dq @ tool_name @ dq @ '', repeat_count='' @
            show_nat repeat_count @ '', is_all_errors='' @ show_bool is_all_errors @ '')'')
      | NoIssue \<Rightarrow> None)"

text \<open>The forced last turn: a warning, then one inference without tools.\<close>

definition final_turn :: "'w brain_env \<Rightarrow> agent_run_request \<Rightarrow> string \<Rightarrow> string list \<Rightarrow> string \<Rightarrow>
    ('w, agent_payload list \<times> string option) brain_op" where
  "final_turn env req system_prompt snippets reason =
     seqE (emit_lifecycle env (req_run_id req) LifeWarning (Some reason))
     (bindE (session_history env (req_session_id req)) (\<lambda>final_history.
      bindE (infer env (turn_input req system_prompt snippets followup_prompt final_history [])) (\<lambda>out.
      bindE (deliver_text env req (trim (mo_assistant_text out)) True) (\<lambda>ps.
      okE (ps, mo_stop_reason out)))))"

text \<open>
  One pass of the loop up to the decision whether to go on: the payloads of the turn, the stop
  reason, and \<open>None\<close> for the \<open>break\<close> of a turn without tool calls or the results of its calls.
\<close>

definition model_turn :: "'w brain_env \<Rightarrow> agent_run_request \<Rightarrow> string \<Rightarrow> string list \<Rightarrow>
    session_message list \<Rightarrow> nat \<Rightarrow>
    ('w, agent_payload list \<times> string option \<times> (tool_call \<times> agent_payload) list option) brain_op" where
  "model_turn env req system_prompt snippets prior_history iteration =
     bindE (if iteration = 0 then okE prior_history else session_history env (req_session_id req)) (\<lambda>history.
     bindE (infer env (turn_input req system_prompt snippets
        (if iteration = 0 then req_prompt req else followup_prompt) history (be_tool_definitions env))) (\<lambda>out.
     bindE (deliver_text env req (trim (mo_assistant_text out)) (mo_tool_calls out = [])) (\<lambda>ps.
     if mo_tool_calls out = [] then okE (ps, mo_stop_reason out, None)
     else bindE (execute_tool_calls env req (mo_tool_calls out)) (\<lambda>results.
       okE (ps, mo_stop_reason out, Some results)))))"

definition detector_calls :: "(tool_call \<times> agent_payload) list \<Rightarrow> iteration_calls" where
  "detector_calls results = map (\<lambda>(tc, tp). (tc_name tc, tc_arguments tc, pl_is_error tp)) results"

text \<open>
  The loop. A panic of the detector would end the task; it is an error here, and
  \<open>Tool_Loop.record_call_step\<close> shows that this branch is not taken.
\<close>

function brain_loop :: "'w brain_env \<Rightarrow> agent_run_request \<Rightarrow> string \<Rightarrow> string list \<Rightarrow>
    session_message list \<Rightarrow> nat \<Rightarrow> nat \<Rightarrow> agent_payload list \<Rightarrow> tool_loop_detector \<Rightarrow>
    ('w, agent_payload list \<times> string option \<times> nat) brain_op" where
  "brain_loop env req system_prompt snippets prior_history max_iter iteration payloads detector =
     bindE (model_turn env req system_prompt snippets prior_history iteration) (\<lambda>(ps, stop_reason, tools).
     case tools of
       None \<Rightarrow> okE (payloads @ ps, stop_reason, iteration)
     | Some results \<Rightarrow>
         bindE (now_ms env) (\<lambda>now.
         case record_call (be_to_json env) (\<lambda>_. now) (detector_calls results) detector of
           None \<Rightarrow> errE (Backend ''index out of bounds'')
         | Some (detection, detector') \<Rightarrow>
             let payloads' = payloads @ ps @ map snd results; iteration' = iteration + 1 in
             case force_reason max_iter iteration' detection of
               Some reason \<Rightarrow>
                 bindE (final_turn env req system_prompt snippets reason) (\<lambda>(fs, stop_reason').
                 okE (payloads' @ fs, stop_reason', iteration'))
             | None \<Rightarrow> brain_loop env req system_prompt snippets prior_history max_iter iteration'
                 payloads' detector'))"
  by pat_completeness auto

lemma force_reason_None: "force_reason max_iter i d = None \<Longrightarrow> i < max_iter"
  by (auto simp: force_reason_def split: if_splits)

termination brain_loop
  by (relation "measure (\<lambda>(env, req, sp, sn, ph, max_iter, iteration, ps, d). max_iter - iteration)")
    (auto dest!: force_reason_None)

declare brain_loop.simps [simp del]

definition memory_snippet :: "nat memory_search_result \<Rightarrow> string" where
  "memory_snippet item = ms_path item @ ''#'' @ show_nat (ms_start_line item) @ ''-'' @
     show_nat (ms_end_line item) @ '': '' @ ms_snippet item"

definition effective_max_iter :: "'w brain_env \<Rightarrow> agent_run_request \<Rightarrow> nat" where
  "effective_max_iter env req =
     (case req_max_tool_iterations req of Some m \<Rightarrow> m | None \<Rightarrow> be_max_tool_iterations env)"

definition prompt_params :: "'w brain_env \<Rightarrow> agent_run_request \<Rightarrow> system_prompt_params" where
  "prompt_params env req = \<lparr>sp_run_id = req_run_id req, sp_session_id = req_session_id req,
     sp_model_provider = be_provider_name env, sp_model_name = be_model_name env,
     sp_workspace_dir = req_workspace_dir req, sp_tools = be_tool_definitions env,
     sp_extra_system_prompt = req_extra_system_prompt req\<rparr>"

definition run_inner :: "'w brain_env \<Rightarrow> agent_run_request \<Rightarrow> ('w, agent_run_result) brain_op" where
  "run_inner env req =
     (if trim (req_prompt req) = [] then errE (InvalidInput ''prompt must not be empty'') else
      bindE (now_ms env) (\<lambda>started_at.
      seqE (emit_lifecycle env (req_run_id req) LifeStart None)
      (seqE (let sd = \<lparr>sd_session_id = req_session_id req, sd_session_key = req_session_key req,
                        sd_workspace_dir = req_workspace_dir req\<rparr>
             in awaitE env (ObsUpsert sd) (be_upsert_session env sd))
      (bindE (session_history env (req_session_id req)) (\<lambda>prior_history.
       seqE (append_message env (req_session_id req) (user_message (req_prompt req)))
       (bindE (let q = (case req_memory_query req of Some q \<Rightarrow> q | None \<Rightarrow> req_prompt req)
               in attemptE (awaitE env (ObsSearch q) (be_search env q default_memory_search_options))) (\<lambda>found.
        let snippets = map memory_snippet (case found of Inr hits \<Rightarrow> hits | Inl _ \<Rightarrow> []) in
        bindE (getsE (\<lambda>s. build_system_prompt (be_canonicalize env (bs_world s))
            (be_utc_now env (bs_world s)) (prompt_params env req))) (\<lambda>system_prompt.
        bindE (brain_loop env req system_prompt snippets prior_history (effective_max_iter env req)
            0 [] detector_new) (\<lambda>(payloads, stop_reason, iterations).
        seqE (emit_lifecycle env (req_run_id req) LifeEnd None)
        (bindE (now_ms env) (\<lambda>ended_at.
         okE \<lparr>res_payloads = payloads, res_meta = \<lparr>meta_duration_ms = ended_at - started_at,
           meta_provider = be_provider_name env, meta_model = be_model_name env,
           meta_stop_reason = stop_reason, meta_error = None, meta_tool_iterations = iterations\<rparr>\<rparr>)))))))))))"

definition brain_run :: "'w brain_env \<Rightarrow> agent_run_request \<Rightarrow> ('w, agent_run_result) brain_op" where
  "brain_run env req = (\<lambda>s.
     case run_inner env req (s\<lparr>bs_timeout := req_timeout_ms req, bs_cancelled := False\<rparr>) of (r, s1) \<Rightarrow>
       let result = (if bs_cancelled s1 then Inl (timeout_error s1) else r);
           s2 = s1\<lparr>bs_timeout := None, bs_cancelled := False\<rparr> in
       case result of
         Inr x \<Rightarrow> (Inr x, s2)
       | Inl err \<Rightarrow> (Inl err,
           snd (emit_lifecycle env (req_run_id req) LifeError (Some (show_error err)) s2)))"

subsection \<open>What an operation adds to the trace\<close>

definition observes :: "('w, 'a) brain_op \<Rightarrow> (brain_obs list \<Rightarrow> 'a kelvin_result \<Rightarrow> bool) \<Rightarrow> bool" where
  "observes m Q \<longleftrightarrow> (\<forall>s. \<exists>t. bs_trace (snd (m s)) = bs_trace s @ t \<and> Q t (fst (m s)))"

lemma observesD: "observes m Q \<Longrightarrow> m s = (r, s') \<Longrightarrow> \<exists>t. bs_trace s' = bs_trace s @ t \<and> Q t r"
  unfolding observes_def by (metis fst_conv snd_conv)

lemma observes_weaken: "observes m Q \<Longrightarrow> (\<And>t r. Q t r \<Longrightarrow> R t r) \<Longrightarrow> observes m R"
  unfolding observes_def by meson

lemma observes_okE: "Q [] (Inr x) \<Longrightarrow> observes (okE x) Q"
  by (simp add: observes_def)

lemma observes_errE: "Q [] (Inl e) \<Longrightarrow> observes (errE e) Q"
  by (simp add: observes_def)

lemma observes_bindE:
  assumes "observes m Q" "\<And>x. observes (k x) (R x)"
    and "\<And>t e. Q t (Inl e) \<Longrightarrow> S t (Inl e)"
    and "\<And>t x u r. Q t (Inr x) \<Longrightarrow> R x u r \<Longrightarrow> S (t @ u) r"
  shows "observes (bindE m k) S"
  unfolding observes_def
proof
  fix s
  obtain r s' where m: "m s = (r, s')" by (cases "m s")
  then obtain t where t: "bs_trace s' = bs_trace s @ t" "Q t r" using observesD [OF assms(1)] by blast
  show "\<exists>t. bs_trace (snd (bindE m k s)) = bs_trace s @ t \<and> S t (fst (bindE m k s))"
  proof (cases r)
    case (Inl e)
    then show ?thesis using m t assms(3) by auto
  next
    case (Inr x)
    obtain u where "bs_trace (snd (k x s')) = bs_trace s' @ u" "R x u (fst (k x s'))"
      using assms(2) unfolding observes_def by blast
    then show ?thesis using m t Inr assms(4) [of t x u] by (intro exI [of _ "t @ u"]) simp
  qed
qed

lemma observes_attemptE: "observes m Q \<Longrightarrow> (\<And>t r. Q t r \<Longrightarrow> R t (Inr r)) \<Longrightarrow> observes (attemptE m) R"
  unfolding observes_def attemptE_def by (metis (no_types, lifting) case_prod_beta fst_conv snd_conv)

lemma observes_awaitE:
  "(\<And>e. Q [] (Inl e)) \<Longrightarrow> (\<And>r. Q [obs] r) \<Longrightarrow> observes (awaitE env obs op) Q"
  by (auto simp: observes_def awaitE_def Let_def split: prod.splits)

lemma observes_emit_event:
  assumes "\<And>e. Q [] (Inl e)" and "\<And>q ts r. Q [ObsEmit \<lparr>ev_seq = q, ev_data = mk ts\<rparr>] r"
  shows "observes (emit_event env mk) Q"
  using assms by (auto simp: observes_def emit_event_def awaitE_def Let_def split: prod.splits)

text \<open>Projections of a trace.\<close>

definition infers :: "brain_obs list \<Rightarrow> model_input list" where
  "infers t = List.map_filter (\<lambda>obs. case obs of ObsInfer mi \<Rightarrow> Some mi | _ \<Rightarrow> None) t"

definition events_of :: "brain_obs list \<Rightarrow> agent_event list" where
  "events_of t = List.map_filter (\<lambda>obs. case obs of ObsEmit ev \<Rightarrow> Some ev | _ \<Rightarrow> None) t"

definition phases :: "brain_obs list \<Rightarrow> lifecycle_phase list" where
  "phases t = List.map_filter (\<lambda>ev. case ev_data ev of Lifecycle _ p _ _ \<Rightarrow> Some p | _ \<Rightarrow> None) (events_of t)"

definition tool_phases :: "brain_obs list \<Rightarrow> (string \<times> tool_phase) list" where
  "tool_phases t = List.map_filter (\<lambda>ev. case ev_data ev of
     ToolEvent _ name p _ _ _ \<Rightarrow> Some (name, p) | _ \<Rightarrow> None) (events_of t)"

definition receipts :: "brain_obs list \<Rightarrow> json list" where
  "receipts t = List.map_filter (\<lambda>obs. case obs of ObsReceipt j \<Rightarrow> Some j | _ \<Rightarrow> None) t"

lemma map_filter_append [simp]: "List.map_filter f (xs @ ys) = List.map_filter f xs @ List.map_filter f ys"
  by (simp add: List.map_filter_def)

lemma projections [simp]:
  "infers [] = []" "infers (t @ u) = infers t @ infers u"
  "infers (ObsInfer mi # t) = mi # infers t" "infers (ObsEmit ev # t) = infers t"
  "infers (ObsUpsert d # t) = infers t" "infers (ObsAppend a b # t) = infers t"
  "infers (ObsHistory a # t) = infers t" "infers (ObsSearch a # t) = infers t"
  "infers (ObsToolCall a c # t) = infers t" "infers (ObsReceipt j # t) = infers t"
  by (simp_all add: infers_def List.map_filter_def)

lemma event_projections [simp]:
  "events_of [] = []" "events_of (t @ u) = events_of t @ events_of u"
  "events_of (ObsInfer mi # t) = events_of t" "events_of (ObsEmit ev # t) = ev # events_of t"
  "events_of (ObsUpsert d # t) = events_of t" "events_of (ObsAppend a b # t) = events_of t"
  "events_of (ObsHistory a # t) = events_of t" "events_of (ObsSearch a # t) = events_of t"
  "events_of (ObsToolCall a c # t) = events_of t" "events_of (ObsReceipt j # t) = events_of t"
  by (simp_all add: events_of_def List.map_filter_def)

lemma receipt_projections [simp]:
  "receipts [] = []" "receipts (t @ u) = receipts t @ receipts u"
  "receipts (ObsEmit ev # t) = receipts t" "receipts (ObsAppend a b # t) = receipts t"
  "receipts (ObsToolCall a c # t) = receipts t" "receipts (ObsReceipt j # t) = j # receipts t"
  by (simp_all add: receipts_def List.map_filter_def)

lemma phase_projections [simp]:
  "phases [] = []" "phases (t @ u) = phases t @ phases u"
  "tool_phases [] = []" "tool_phases (t @ u) = tool_phases t @ tool_phases u"
  by (simp_all add: phases_def tool_phases_def)

text \<open>Operations that neither call the model nor report a lifecycle phase.\<close>

definition quiet :: "('w, 'a) brain_op \<Rightarrow> bool" where
  "quiet m \<longleftrightarrow> observes m (\<lambda>t r. infers t = [] \<and> phases t = [])"

named_theorems quiet_rules \<open>operations without inference and lifecycle events\<close>

lemma quiet_bindE [quiet_rules]: "quiet m \<Longrightarrow> (\<And>x. quiet (k x)) \<Longrightarrow> quiet (bindE m k)"
  unfolding quiet_def by (erule observes_bindE, assumption) auto

lemma quiet_seqE [quiet_rules]: "quiet m \<Longrightarrow> quiet n \<Longrightarrow> quiet (seqE m n)"
  by (simp add: seqE_def quiet_bindE)

lemma quiet_okE [quiet_rules]: "quiet (okE x)"
  by (simp add: quiet_def observes_okE)

lemma quiet_attemptE [quiet_rules]: "quiet m \<Longrightarrow> quiet (attemptE m)"
  unfolding quiet_def by (erule observes_attemptE)

lemma quiet_getsE [quiet_rules]: "quiet (getsE f)"
  by (simp add: quiet_def observes_def)

lemma quiet_now_ms [quiet_rules]: "quiet (now_ms env)"
  by (simp add: now_ms_def quiet_getsE)

lemma quiet_emit_tool [quiet_rules]: "quiet (emit_tool env rid name ph sm out)"
  unfolding quiet_def emit_tool_def
  by (rule observes_emit_event) (simp_all add: phases_def List.map_filter_def)

lemma quiet_emit_assistant [quiet_rules]: "quiet (emit_assistant env rid txt fin)"
  unfolding quiet_def emit_assistant_def
  by (rule observes_emit_event) (simp_all add: phases_def List.map_filter_def)

lemma quiet_awaits [quiet_rules]:
  "quiet (append_message env sid m)"
  "quiet (session_history env sid)"
  "quiet (awaitE env (ObsToolCall nm inp) op1)"
  "quiet (awaitE env (ObsUpsert sd) op2)"
  "quiet (awaitE env (ObsSearch q) op3)"
  unfolding quiet_def append_message_def session_history_def
  by (rule observes_awaitE; simp add: phases_def List.map_filter_def)+

lemma quiet_receipt [quiet_rules]: "quiet (emit_tool_receipt env req nm cid cls reason st)"
  by (auto simp: quiet_def observes_def emit_tool_receipt_def phases_def)

lemma quiet_case_option [quiet_rules]:
  "quiet m \<Longrightarrow> (\<And>y. quiet (n y)) \<Longrightarrow> quiet (case x of None \<Rightarrow> m | Some y \<Rightarrow> n y)"
  by (cases x) auto

lemma quiet_case_sum [quiet_rules]:
  "(\<And>y. quiet (m y)) \<Longrightarrow> (\<And>y. quiet (n y)) \<Longrightarrow> quiet (case x of Inl y \<Rightarrow> m y | Inr y \<Rightarrow> n y)"
  by (cases x) auto

lemma quiet_if [quiet_rules]: "quiet m \<Longrightarrow> quiet n \<Longrightarrow> quiet (if b then m else n)"
  by simp

lemma quiet_execute_tool_calls [quiet_rules]: "quiet (execute_tool_calls env req tcs)"
proof (induction tcs)
  case (Cons tc tcs)
  have "quiet (execute_tool_call env req tc)"
    unfolding execute_tool_call_def execute_unknown_tool_def execute_failed_tool_def
      execute_returned_tool_def Let_def
    by (intro quiet_rules)
  then show ?case using Cons.IH unfolding execute_tool_calls.simps by (intro quiet_rules)
next
  case Nil
  show ?case unfolding execute_tool_calls.simps by (rule quiet_okE)
qed

lemma quiet_deliver_text [quiet_rules]: "quiet (deliver_text env req txt fin)"
  unfolding deliver_text_def by (intro quiet_rules)

text \<open>What is inferred and which phases are reported, as functions of the result.\<close>

definition reports :: "('w, 'a) brain_op \<Rightarrow>
    (model_input list \<Rightarrow> lifecycle_phase list \<Rightarrow> 'a kelvin_result \<Rightarrow> bool) \<Rightarrow> bool" where
  "reports m Q \<longleftrightarrow> observes m (\<lambda>t r. Q (infers t) (phases t) r)"

lemma reports_quiet_bindE:
  "quiet m \<Longrightarrow> (\<And>x. reports (k x) Q) \<Longrightarrow> (\<And>e. Q [] [] (Inl e)) \<Longrightarrow> reports (bindE m k) Q"
  unfolding quiet_def reports_def by (erule observes_bindE, assumption) auto

lemma reports_quiet_seqE:
  "quiet m \<Longrightarrow> reports n Q \<Longrightarrow> (\<And>e. Q [] [] (Inl e)) \<Longrightarrow> reports (seqE m n) Q"
  by (simp add: seqE_def reports_quiet_bindE)

lemma reports_bindE_quiet:
  "reports m Q \<Longrightarrow> (\<And>x. quiet (k x)) \<Longrightarrow> (\<And>i p e. Q i p (Inl e) \<Longrightarrow> S i p (Inl e)) \<Longrightarrow>
   (\<And>i p x r. Q i p (Inr x) \<Longrightarrow> S i p r) \<Longrightarrow> reports (bindE m k) S"
  unfolding quiet_def reports_def by (erule observes_bindE, assumption) auto

lemma reports_bindE:
  "reports m Q \<Longrightarrow> (\<And>x. reports (k x) (R x)) \<Longrightarrow> (\<And>i p e. Q i p (Inl e) \<Longrightarrow> S i p (Inl e)) \<Longrightarrow>
   (\<And>i p x i' p' r. Q i p (Inr x) \<Longrightarrow> R x i' p' r \<Longrightarrow> S (i @ i') (p @ p') r) \<Longrightarrow> reports (bindE m k) S"
  unfolding reports_def by (erule observes_bindE, assumption) auto

lemma reports_weaken: "reports m Q \<Longrightarrow> (\<And>i p r. Q i p r \<Longrightarrow> S i p r) \<Longrightarrow> reports m S"
  unfolding reports_def by (erule observes_weaken) blast

lemma reports_infer: "reports (infer env mi)
    (\<lambda>i p r. p = [] \<and> (i = [mi] \<or> i = [] \<and> isl r))"
  unfolding reports_def infer_def
  by (rule observes_awaitE) (simp_all add: phases_def)

lemma reports_emit_lifecycle: "reports (emit_lifecycle env rid ph msg)
    (\<lambda>i p r. i = [] \<and> (p = [ph] \<or> p = [] \<and> isl r))"
  unfolding reports_def emit_lifecycle_def
  by (rule observes_emit_event) (simp_all add: phases_def List.map_filter_def)

lemma reports_model_turn: "reports (model_turn env req sys snip prior i)
    (\<lambda>mis p r. p = [] \<and> (mis = [] \<and> isl r \<or> (\<exists>mi. mis = [mi] \<and> mi_tools mi = be_tool_definitions env)))"
  unfolding model_turn_def
  apply (rule reports_quiet_bindE, intro quiet_rules)
  subgoal for history
    by (rule reports_bindE_quiet [OF reports_infer], intro quiet_rules) (auto simp: turn_input_def)
  by simp

lemma reports_final_turn: "reports (final_turn env req sys snip reason)
    (\<lambda>mis p r. (p = [LifeWarning] \<or> p = [] \<and> isl r) \<and>
       (mis = [] \<and> isl r \<or> (\<exists>mi. mis = [mi] \<and> mi_tools mi = [])))"
  unfolding final_turn_def seqE_def
  apply (rule reports_bindE [OF reports_emit_lifecycle, where
        R = "\<lambda>_ mis p r. p = [] \<and> (mis = [] \<and> isl r \<or> (\<exists>mi. mis = [mi] \<and> mi_tools mi = []))"])
  subgoal for u
    apply (rule reports_quiet_bindE, intro quiet_rules)
    subgoal for history
      by (rule reports_bindE_quiet [OF reports_infer], intro quiet_rules) (auto simp: turn_input_def)
    by simp
  by auto

text \<open>
  The shape of the loop's calls of the model: at most \<open>n\<close> turns with the registered tools, then
  at most one without; on success their number is the number of iterations made, plus one.
\<close>

definition loop_shape :: "tool_definition list \<Rightarrow> nat \<Rightarrow> nat \<Rightarrow> model_input list \<Rightarrow> lifecycle_phase list \<Rightarrow>
    (agent_payload list \<times> string option \<times> nat) kelvin_result \<Rightarrow> bool" where
  "loop_shape tools n i mis p r \<longleftrightarrow> (p = [] \<or> p = [LifeWarning]) \<and>
     (\<exists>us fs. mis = us @ fs \<and> length us \<le> n \<and> (\<forall>u\<in>set us. mi_tools u = tools) \<and>
        (fs = [] \<or> (\<exists>x. fs = [x] \<and> mi_tools x = [])) \<and>
        (\<forall>ps sr k. r = Inr (ps, sr, k) \<longrightarrow> i \<le> k \<and> k \<le> i + n \<and> length mis = k - i + 1))"

lemma loop_shape_err: "p = [] \<or> p = [LifeWarning] \<Longrightarrow> 1 \<le> n \<Longrightarrow>
    mis = [] \<or> (\<exists>mi. mis = [mi] \<and> mi_tools mi = tools) \<Longrightarrow> loop_shape tools n i mis p (Inl e)"
  unfolding loop_shape_def by (auto intro: exI [of _ "[]"] exI [of _ mis])

lemma loop_shape_break: "1 \<le> n \<Longrightarrow> mi_tools mi = tools \<Longrightarrow> loop_shape tools n i [mi] [] (Inr (ps, sr, i))"
  unfolding loop_shape_def by (intro conjI exI [of _ "[mi]"] exI [of _ "[]"]) auto

lemma loop_shape_final:
  assumes "1 \<le> n" "mi_tools mi = tools" "p = [LifeWarning] \<or> p = [] \<and> isl r"
    and "fs = [] \<and> isl r \<or> (\<exists>x. fs = [x] \<and> mi_tools x = [])"
    and "\<And>x. r = Inr x \<Longrightarrow> \<exists>ps sr. x = (ps, sr, Suc i)"
  shows "loop_shape tools n i (mi # fs) p r"
  unfolding loop_shape_def
  using assms by (intro conjI exI [of _ "[mi]"] exI [of _ fs]) auto

lemma loop_shape_Cons:
  assumes "loop_shape tools n (Suc i) mis p r" "mi_tools mi = tools"
  shows "loop_shape tools (Suc n) i (mi # mis) p r"
proof -
  obtain us fs where h: "mis = us @ fs" "length us \<le> n" "\<forall>u\<in>set us. mi_tools u = tools"
      "fs = [] \<or> (\<exists>x. fs = [x] \<and> mi_tools x = [])" "p = [] \<or> p = [LifeWarning]"
      "\<forall>ps sr k. r = Inr (ps, sr, k) \<longrightarrow> Suc i \<le> k \<and> k \<le> Suc i + n \<and> length mis = k - Suc i + 1"
    using assms(1) unfolding loop_shape_def by blast
  have "\<forall>ps sr k. r = Inr (ps, sr, k) \<longrightarrow> i \<le> k \<and> k \<le> i + Suc n \<and> length (mi # mis) = k - i + 1"
    using h(6) by (auto simp: Suc_diff_le)
  then show ?thesis unfolding loop_shape_def
    using h(1-5) assms(2) by (intro conjI exI [of _ "mi # us"] exI [of _ fs]) simp_all
qed

lemma reports_brain_loop: "reports (brain_loop env req sys snip prior max_iter i payloads d)
    (loop_shape (be_tool_definitions env) (max 1 (max_iter - i)) i)"
proof (induction "max_iter - i" arbitrary: i payloads d rule: less_induct)
  case less
  let ?D = "be_tool_definitions env" and ?n = "max 1 (max_iter - i)"
  let ?R = "\<lambda>mis p r. \<forall>mi. mi_tools mi = ?D \<longrightarrow> loop_shape ?D ?n i (mi # mis) p r"
  have rest: "reports (case force_reason max_iter (i + 1) detection of
      Some reason \<Rightarrow> bindE (final_turn env req sys snip reason) (\<lambda>(fs, sr').
        okE (payloads' @ fs, sr', i + 1))
    | None \<Rightarrow> brain_loop env req sys snip prior max_iter (i + 1) payloads' d') ?R"
    for detection payloads' d'
  proof (cases "force_reason max_iter (i + 1) detection")
    case None
    then have lt: "i + 1 < max_iter" by (rule force_reason_None)
    then have n: "?n = Suc (max 1 (max_iter - (i + 1)))" by auto
    have "reports (brain_loop env req sys snip prior max_iter (i + 1) payloads' d')
        (loop_shape ?D (max 1 (max_iter - (i + 1))) (i + 1))"
      using lt by (intro less.hyps) simp
    then show ?thesis unfolding None option.case n
      by (rule reports_weaken) (simp add: loop_shape_Cons)
  next
    case (Some reason)
    have "reports (bindE (final_turn env req sys snip reason) (\<lambda>(fs, sr').
        okE (payloads' @ fs, sr', i + 1))) ?R"
      by (rule reports_bindE [OF reports_final_turn,
            where R = "\<lambda>x mis p r. mis = [] \<and> p = [] \<and> r = Inr (payloads' @ fst x, snd x, i + 1)"])
        (auto simp: reports_def observes_okE case_prod_unfold intro!: loop_shape_final)
    then show ?thesis unfolding Some option.case .
  qed
  have turn: "reports (case x of (ps, sr, tools) \<Rightarrow> case tools of
       None \<Rightarrow> okE (payloads @ ps, sr, i)
     | Some results \<Rightarrow> bindE (now_ms env) (\<lambda>now.
         case record_call (be_to_json env) (\<lambda>_. now) (detector_calls results) d of
           None \<Rightarrow> errE (Backend ''index out of bounds'')
         | Some (detection, d') \<Rightarrow>
             let payloads' = payloads @ ps @ map snd results; iteration' = i + 1 in
             case force_reason max_iter iteration' detection of
               Some reason \<Rightarrow> bindE (final_turn env req sys snip reason) (\<lambda>(fs, sr').
                 okE (payloads' @ fs, sr', iteration'))
             | None \<Rightarrow> brain_loop env req sys snip prior max_iter iteration' payloads' d')) ?R" for x
  proof (cases "snd (snd x)")
    case None
    then show ?thesis
      by (auto simp: reports_def case_prod_unfold intro!: observes_okE loop_shape_break)
  next
    case (Some results)
    have "reports (case o' of None \<Rightarrow> errE (Backend ''index out of bounds'')
         | Some (detection, d') \<Rightarrow>
             let payloads' = payloads @ fst x @ map snd results; iteration' = i + 1 in
             case force_reason max_iter iteration' detection of
               Some reason \<Rightarrow> bindE (final_turn env req sys snip reason) (\<lambda>(fs, sr').
                 okE (payloads' @ fs, sr', iteration'))
             | None \<Rightarrow> brain_loop env req sys snip prior max_iter iteration' payloads' d') ?R" for o'
    proof (cases o')
      case None
      then show ?thesis by (auto simp: reports_def intro!: observes_errE loop_shape_err)
    next
      case (Some y)
      obtain det d' where y: "y = (det, d')" by (cases y)
      show ?thesis unfolding Some y option.case prod.case Let_def by (rule rest)
    qed
    then show ?thesis
      using Some unfolding case_prod_unfold
      by (auto intro!: reports_quiet_bindE quiet_now_ms loop_shape_err)
  qed
  show ?case
    unfolding brain_loop.simps [of env req sys snip prior max_iter i payloads d]
    by (rule reports_bindE [OF reports_model_turn, where R = "\<lambda>_. ?R"], rule turn)
      (auto intro!: loop_shape_err)
qed

text \<open>The whole run: the loop between the start and the end event.\<close>

definition run_shape :: "tool_definition list \<Rightarrow> nat \<Rightarrow> model_input list \<Rightarrow> lifecycle_phase list \<Rightarrow>
    agent_run_result kelvin_result \<Rightarrow> bool" where
  "run_shape tools n mis p r \<longleftrightarrow>
     (\<exists>us fs. mis = us @ fs \<and> length us \<le> n \<and> list_all (\<lambda>u. mi_tools u = tools) us \<and>
        (fs = [] \<or> (\<exists>x. fs = [x] \<and> mi_tools x = []))) \<and>
     (case r of
        Inr res \<Rightarrow> meta_tool_iterations (res_meta res) \<le> n \<and>
          length mis = meta_tool_iterations (res_meta res) + 1 \<and>
          p \<in> {[LifeStart, LifeEnd], [LifeStart, LifeWarning, LifeEnd]}
      | Inl _ \<Rightarrow> p \<in> {[], [LifeStart], [LifeStart, LifeWarning], [LifeStart, LifeEnd],
          [LifeStart, LifeWarning, LifeEnd]})"

lemma run_shape_early: "p \<in> {[], [LifeStart]} \<Longrightarrow> run_shape tools n [] p (Inl e)"
  by (auto simp: run_shape_def)

definition tail_shape :: "nat \<Rightarrow> lifecycle_phase list \<Rightarrow> agent_run_result kelvin_result \<Rightarrow> bool" where
  "tail_shape k p r \<longleftrightarrow> (case r of
     Inr res \<Rightarrow> p = [LifeEnd] \<and> meta_tool_iterations (res_meta res) = k | Inl _ \<Rightarrow> p \<in> {[], [LifeEnd]})"

lemma run_shape_loop:
  assumes "loop_shape tools n 0 mis p (Inr (ps, sr, k))" "tail_shape k p' r"
  shows "run_shape tools n mis (LifeStart # p @ p') r"
  using assms unfolding loop_shape_def run_shape_def tail_shape_def list_all_iff
  by (cases r) auto

lemma run_shape_loop_err:
  assumes "loop_shape tools n 0 mis p (Inl e)" shows "run_shape tools n mis (LifeStart # p) (Inl e)"
  using assms unfolding loop_shape_def run_shape_def list_all_iff by auto

lemma reports_tail: "reports (seqE (emit_lifecycle env rid LifeEnd None) (bindE (now_ms env) (\<lambda>ended.
     okE \<lparr>res_payloads = ps, res_meta = \<lparr>meta_duration_ms = ended - started,
           meta_provider = pn, meta_model = mn, meta_stop_reason = sr, meta_error = None,
           meta_tool_iterations = k\<rparr>\<rparr>))) (\<lambda>mis p r. mis = [] \<and> tail_shape k p r)"
  unfolding seqE_def
  apply (rule reports_bindE [OF reports_emit_lifecycle, where R = "\<lambda>_ mis p r. mis = [] \<and> p = [] \<and>
        (case r of Inr res \<Rightarrow> meta_tool_iterations (res_meta res) = k | Inl _ \<Rightarrow> True)"])
  subgoal for u
    by (rule reports_quiet_bindE, rule quiet_now_ms) (auto simp: reports_def intro!: observes_okE)
  by (auto simp: tail_shape_def split: sum.splits)

lemma reports_started:
  assumes "\<And>x. reports (k x) (\<lambda>mis p r. run_shape tools n mis (LifeStart # p) r)" "quiet m"
  shows "reports (bindE m k) (\<lambda>mis p r. run_shape tools n mis (LifeStart # p) r)"
  using assms(2,1) by (rule reports_quiet_bindE) (simp add: run_shape_early)

lemma reports_run_inner: "reports (run_inner env req)
    (run_shape (be_tool_definitions env) (max 1 (effective_max_iter env req)))"
proof -
  let ?D = "be_tool_definitions env" and ?n = "max 1 (effective_max_iter env req)"
  have loop: "reports (bindE (brain_loop env req sys snip prior (effective_max_iter env req) 0 [] detector_new)
      (\<lambda>(ps, sr, k). seqE (emit_lifecycle env (req_run_id req) LifeEnd None)
        (bindE (now_ms env) (\<lambda>ended. okE \<lparr>res_payloads = ps, res_meta = \<lparr>meta_duration_ms = ended - started,
           meta_provider = be_provider_name env, meta_model = be_model_name env,
           meta_stop_reason = sr, meta_error = None, meta_tool_iterations = k\<rparr>\<rparr>))))
      (\<lambda>mis p r. run_shape ?D ?n mis (LifeStart # p) r)" for sys snip prior started
    apply (rule reports_bindE [where Q = "loop_shape ?D ?n 0" and
          R = "\<lambda>x mis p r. mis = [] \<and> tail_shape (snd (snd x)) p r"])
    using reports_brain_loop [of env req sys snip prior "effective_max_iter env req" 0] apply simp
    by (auto simp: case_prod_unfold reports_tail intro: run_shape_loop run_shape_loop_err)
  show ?thesis
  proof (cases "trim (req_prompt req) = []")
    case True
    then show ?thesis
      by (simp add: run_inner_def reports_def observes_errE run_shape_early)
  next
    case False
    show ?thesis
      unfolding run_inner_def seqE_def Let_def if_not_P [OF False]
      apply (rule reports_quiet_bindE [OF quiet_now_ms])
      apply (rule reports_bindE [OF reports_emit_lifecycle,
            where R = "\<lambda>_ mis p r. run_shape ?D ?n mis (LifeStart # p) r"])
      apply (rule reports_started, rule reports_started, rule reports_started, rule reports_started,
          rule reports_started, rule loop [unfolded seqE_def])
      by (auto intro!: quiet_rules run_shape_early)
  qed
qed

lemma brain_run_cases:
  obtains (ok) res s1 where "run_inner env req (s\<lparr>bs_timeout := req_timeout_ms req, bs_cancelled := False\<rparr>) = (Inr res, s1)"
      "brain_run env req s = (Inr res, s1\<lparr>bs_timeout := None, bs_cancelled := False\<rparr>)"
  | (err) r e s1 q ts s' where
      "run_inner env req (s\<lparr>bs_timeout := req_timeout_ms req, bs_cancelled := False\<rparr>) = (r, s1)"
      "brain_run env req s = (Inl e, s')"
      "bs_trace s' = bs_trace s1 @ [ObsEmit \<lparr>ev_seq = q, ev_data =
         Lifecycle (req_run_id req) LifeError (Some (show_error e)) ts\<rparr>]"
      "e = timeout_error s1 \<or> r = Inl e"
proof -
  obtain r s1 where r: "run_inner env req (s\<lparr>bs_timeout := req_timeout_ms req, bs_cancelled := False\<rparr>) = (r, s1)"
    by (metis surj_pair)
  have emit: "\<exists>q ts. bs_trace (snd (emit_lifecycle env rid ph msg (s1\<lparr>bs_timeout := None, bs_cancelled := False\<rparr>))) =
      bs_trace s1 @ [ObsEmit \<lparr>ev_seq = q, ev_data = Lifecycle rid ph msg ts\<rparr>]" for rid ph msg
    by (auto simp: emit_lifecycle_def emit_event_def awaitE_def deadline_passed_def Let_def split: prod.splits)
  show thesis
  proof (cases "\<exists>res. r = Inr res \<and> \<not> bs_cancelled s1")
    case True
    then show thesis using r ok by (auto simp: brain_run_def)
  next
    case False
    then obtain e where e: "brain_run env req s = (Inl e, snd (emit_lifecycle env (req_run_id req) LifeError
        (Some (show_error e)) (s1\<lparr>bs_timeout := None, bs_cancelled := False\<rparr>)))"
        "e = timeout_error s1 \<or> r = Inl e"
      using r by (cases "bs_cancelled s1"; cases r) (auto simp: brain_run_def Let_def)
    show thesis using emit [of "req_run_id req" LifeError "Some (show_error e)"] err [OF r e(1) _ e(2)] by blast
  qed
qed

lemma run_inner_trace:
  assumes "run_inner env req s = (r, s')"
  shows "\<exists>t. bs_trace s' = bs_trace s @ t \<and>
    run_shape (be_tool_definitions env) (max 1 (effective_max_iter env req)) (infers t) (phases t) r"
  using observesD [OF reports_run_inner [unfolded reports_def] assms] .

subsection \<open>Bounded, reported runs\<close>

text \<open>
  \<^bold>\<open>C7.\<close> Every run ends after a bounded number of model calls, whatever the model, the tools and
  the stores answer: at most \<open>max 1 max_tool_iterations\<close> inferences that are offered the
  registered tools, then at most one more, which is offered none. A run that succeeds reports in
  \<open>tool_iterations\<close> how many tool rounds it made, one less than the number of inferences.
\<close>

theorem brain_run_bounded:
  "\<exists>t us fs. bs_trace (snd (brain_run env req s)) = bs_trace s @ t \<and> infers t = us @ fs \<and>
     length us \<le> max 1 (effective_max_iter env req) \<and>
     list_all (\<lambda>u. mi_tools u = be_tool_definitions env) us \<and>
     (fs = [] \<or> (\<exists>x. fs = [x] \<and> mi_tools x = [])) \<and>
     (case fst (brain_run env req s) of
        Inr res \<Rightarrow> length (infers t) = meta_tool_iterations (res_meta res) + 1 \<and>
          meta_tool_iterations (res_meta res) \<le> max 1 (effective_max_iter env req)
      | Inl _ \<Rightarrow> True)"
proof (rule brain_run_cases [of env req s])
  fix res s1
  assume run: "run_inner env req (s\<lparr>bs_timeout := req_timeout_ms req, bs_cancelled := False\<rparr>) = (Inr res, s1)"
    and r: "brain_run env req s = (Inr res, s1\<lparr>bs_timeout := None, bs_cancelled := False\<rparr>)"
  show ?thesis using run_inner_trace [OF run] unfolding r run_shape_def by auto
next
  fix r e s1 q ts s'
  assume run: "run_inner env req (s\<lparr>bs_timeout := req_timeout_ms req, bs_cancelled := False\<rparr>) = (r, s1)"
    and r: "brain_run env req s = (Inl e, s')"
    and tr: "bs_trace s' = bs_trace s1 @ [ObsEmit \<lparr>ev_seq = q, ev_data =
         Lifecycle (req_run_id req) LifeError (Some (show_error e)) ts\<rparr>]"
  obtain t where t: "bs_trace s1 = bs_trace s @ t"
      "run_shape (be_tool_definitions env) (max 1 (effective_max_iter env req)) (infers t) (phases t) r"
    using run_inner_trace [OF run] by auto
  obtain us fs where "infers t = us @ fs" "length us \<le> max 1 (effective_max_iter env req)"
      "list_all (\<lambda>u. mi_tools u = be_tool_definitions env) us" "fs = [] \<or> (\<exists>x. fs = [x] \<and> mi_tools x = [])"
    using t(2) unfolding run_shape_def by blast
  then show ?thesis
    using t(1) tr r by (intro exI [of _ "t @ [ObsEmit \<lparr>ev_seq = q, ev_data =
         Lifecycle (req_run_id req) LifeError (Some (show_error e)) ts\<rparr>]"] exI [of _ us] exI [of _ fs]) simp
qed

text \<open>
  \<^bold>\<open>C8.\<close> The lifecycle of a run is well formed. A run that returns a result has reported start,
  at most one warning, and the end, in this order and nothing else. A run that returns an error,
  a timeout included, reports the error exactly once, as its last event and with the error's text.
\<close>

theorem brain_run_lifecycle:
  "\<exists>t. bs_trace (snd (brain_run env req s)) = bs_trace s @ t \<and>
     (case fst (brain_run env req s) of
        Inr _ \<Rightarrow> phases t = [LifeStart, LifeEnd] \<or> phases t = [LifeStart, LifeWarning, LifeEnd]
      | Inl e \<Rightarrow> (\<exists>pre. phases t = pre @ [LifeError] \<and> LifeError \<notin> set pre) \<and>
          (\<exists>q ts. last t = ObsEmit \<lparr>ev_seq = q, ev_data =
             Lifecycle (req_run_id req) LifeError (Some (show_error e)) ts\<rparr>))"
proof (rule brain_run_cases [of env req s])
  fix res s1
  assume run: "run_inner env req (s\<lparr>bs_timeout := req_timeout_ms req, bs_cancelled := False\<rparr>) = (Inr res, s1)"
    and r: "brain_run env req s = (Inr res, s1\<lparr>bs_timeout := None, bs_cancelled := False\<rparr>)"
  show ?thesis using run_inner_trace [OF run] unfolding r run_shape_def by auto
next
  fix r e s1 q ts s'
  let ?ev = "ObsEmit \<lparr>ev_seq = q, ev_data = Lifecycle (req_run_id req) LifeError (Some (show_error e)) ts\<rparr>"
  assume run: "run_inner env req (s\<lparr>bs_timeout := req_timeout_ms req, bs_cancelled := False\<rparr>) = (r, s1)"
    and r: "brain_run env req s = (Inl e, s')" and tr: "bs_trace s' = bs_trace s1 @ [?ev]"
  obtain t where t: "bs_trace s1 = bs_trace s @ t"
      "run_shape (be_tool_definitions env) (max 1 (effective_max_iter env req)) (infers t) (phases t) r"
    using run_inner_trace [OF run] by auto
  have "LifeError \<notin> set (phases t)" using t(2) by (auto simp: run_shape_def split: sum.splits)
  moreover have "phases [?ev] = [LifeError]" by (simp add: phases_def List.map_filter_def)
  ultimately show ?thesis using t(1) tr r by (intro exI [of _ "t @ [?ev]"]) simp
qed

subsection \<open>Sequence numbers\<close>

text \<open>Since state \<open>s0\<close>, the events were numbered one after the other, modulo \<open>2 ^ 64\<close>.\<close>

definition seq_inv :: "nat \<Rightarrow> brain_obs list \<Rightarrow> 'w brain_state \<Rightarrow> bool" where
  "seq_inv q0 t0 s \<longleftrightarrow> (\<exists>t. bs_trace s = t0 @ t \<and>
     map ev_seq (events_of t) = map (\<lambda>k. (q0 + k) mod 2 ^ 64) [1..<Suc (length (events_of t))] \<and>
     bs_seq s mod 2 ^ 64 = (q0 + length (events_of t)) mod 2 ^ 64)"

fun is_emit :: "brain_obs \<Rightarrow> bool" where
  "is_emit (ObsEmit _) = True"
| "is_emit _ = False"

lemma seq_inv_quiet:
  assumes "seq_inv q0 t0 s" "\<not> is_emit obs" "bs_trace s' = bs_trace s @ [obs]" "bs_seq s' = bs_seq s"
  shows "seq_inv q0 t0 s'"
proof -
  have "events_of [obs] = []" using assms(2) by (cases obs) simp_all
  then show ?thesis using assms(1,3,4) unfolding seq_inv_def
    by (metis append.assoc append_Nil2 event_projections(2))
qed

lemma seq_inv_flags [simp]: "seq_inv q0 t0 (s\<lparr>bs_cancelled := c\<rparr>) = seq_inv q0 t0 s"
  "seq_inv q0 t0 (s\<lparr>bs_timeout := d\<rparr>) = seq_inv q0 t0 s"
  by (simp_all add: seq_inv_def)

lemma keeps_awaitE: "\<not> is_emit obs \<Longrightarrow> keeps (seq_inv q0 t0) (awaitE env obs op)"
  by (auto simp: keeps_def awaitE_def Let_def intro: seq_inv_quiet split: prod.splits)

lemma keeps_emit_event: "keeps (seq_inv q0 t0) (emit_event env mk)"
proof -
  have "seq_inv q0 t0 s'" if inv: "seq_inv q0 t0 s" and
      s': "bs_seq s' = (bs_seq s + 1) mod 2 ^ 64"
        "bs_trace s' = bs_trace s @ [ObsEmit \<lparr>ev_seq = (bs_seq s + 1) mod 2 ^ 64, ev_data = d\<rparr>]"
    for s s' :: "'a brain_state" and d
  proof -
    obtain t where t: "bs_trace s = t0 @ t"
        "map ev_seq (events_of t) = map (\<lambda>k. (q0 + k) mod 2 ^ 64) [1..<Suc (length (events_of t))]"
        "bs_seq s mod 2 ^ 64 = (q0 + length (events_of t)) mod 2 ^ 64"
      using inv unfolding seq_inv_def by blast
    have "(bs_seq s + 1) mod 2 ^ 64 = (q0 + Suc (length (events_of t))) mod 2 ^ 64"
      using t(3) by (metis add.commute mod_add_right_eq add_Suc_right plus_1_eq_Suc)
    then show ?thesis unfolding seq_inv_def using t(1,2) s'
      by (intro exI [of _ "t @ [ObsEmit \<lparr>ev_seq = (bs_seq s + 1) mod 2 ^ 64, ev_data = d\<rparr>]"]) simp
  qed
  then show ?thesis
    by (auto simp: keeps_def emit_event_def awaitE_def Let_def split: prod.splits)
qed

lemma keeps_emits [keeps_rules]:
  "keeps (seq_inv q0 t0) (emit_lifecycle env rid ph msg)"
  "keeps (seq_inv q0 t0) (emit_assistant env rid txt fin)"
  "keeps (seq_inv q0 t0) (emit_tool env rid nm tph sm out)"
  by (simp_all add: emit_lifecycle_def emit_assistant_def emit_tool_def keeps_emit_event)

lemma keeps_awaits [keeps_rules]:
  "keeps (seq_inv q0 t0) (append_message env sid m)"
  "keeps (seq_inv q0 t0) (session_history env sid)"
  "keeps (seq_inv q0 t0) (infer env mi)"
  "keeps (seq_inv q0 t0) (awaitE env (ObsToolCall nm inp) op1)"
  "keeps (seq_inv q0 t0) (awaitE env (ObsUpsert sd) op2)"
  "keeps (seq_inv q0 t0) (awaitE env (ObsSearch q) op3)"
  by (simp_all add: append_message_def session_history_def infer_def keeps_awaitE)

lemma keeps_now_ms [keeps_rules]: "keeps I (now_ms env)"
  by (simp add: now_ms_def keeps_getsE)

lemma keeps_receipt [keeps_rules]: "keeps (seq_inv q0 t0) (emit_tool_receipt env req nm cid cls reason st)"
  by (auto simp: keeps_def emit_tool_receipt_def intro: seq_inv_quiet [of _ _ _ "ObsReceipt _"])

lemma keeps_execute_tool_calls [keeps_rules]: "keeps (seq_inv q0 t0) (execute_tool_calls env req tcs)"
proof (induction tcs)
  case (Cons tc tcs)
  have "keeps (seq_inv q0 t0) (execute_tool_call env req tc)"
    unfolding execute_tool_call_def execute_unknown_tool_def execute_failed_tool_def
      execute_returned_tool_def Let_def
    by (intro keeps_rules)
  then show ?case using Cons.IH unfolding execute_tool_calls.simps by (intro keeps_rules)
next
  case Nil
  show ?case unfolding execute_tool_calls.simps by (rule keeps_okE)
qed

lemma keeps_deliver_text [keeps_rules]: "keeps (seq_inv q0 t0) (deliver_text env req txt fin)"
  unfolding deliver_text_def by (intro keeps_rules)

lemma keeps_turns [keeps_rules]:
  "keeps (seq_inv q0 t0) (final_turn env req sys snip reason)"
  "keeps (seq_inv q0 t0) (model_turn env req sys snip prior i)"
  unfolding final_turn_def model_turn_def by (intro keeps_rules)+

lemma keeps_brain_loop [keeps_rules]:
  "keeps (seq_inv q0 t0) (brain_loop env req sys snip prior max_iter i payloads d)"
proof (induction "max_iter - i" arbitrary: i payloads d rule: less_induct)
  case less
  have step: "keeps (seq_inv q0 t0) (brain_loop env req sys snip prior max_iter (i + 1) ps d')"
    if "force_reason max_iter (i + 1) det = None" for ps d' det
    using force_reason_None [OF that] by (intro less.hyps) simp
  show ?case
    unfolding brain_loop.simps [of env req sys snip prior max_iter i payloads d] Let_def
    by (intro keeps_rules step) auto
qed

text \<open>
  The events of a run carry consecutive sequence numbers: the k-th event emitted since the
  call has number \<open>seq + k\<close>, modulo the range of the 64-bit counter, on every path through the
  run, errors and timeouts included.
\<close>

theorem brain_run_sequence:
  "\<exists>t. bs_trace (snd (brain_run env req s)) = bs_trace s @ t \<and>
     map ev_seq (events_of t) = map (\<lambda>k. (bs_seq s + k) mod 2 ^ 64) [1..<Suc (length (events_of t))]"
proof -
  let ?I = "seq_inv (bs_seq s) (bs_trace s) :: 'a brain_state \<Rightarrow> bool"
  have inner: "keeps ?I (run_inner env req)"
    unfolding run_inner_def Let_def by (intro keeps_rules)
  have s: "?I s" by (simp add: seq_inv_def)
  obtain r s1 where r: "run_inner env req (s\<lparr>bs_timeout := req_timeout_ms req, bs_cancelled := False\<rparr>) = (r, s1)"
    by (metis surj_pair)
  have s1: "?I (s1\<lparr>bs_timeout := None, bs_cancelled := False\<rparr>)"
    using keepsD [OF inner _ r] s by simp
  have "?I (snd (brain_run env req s))"
    using r s1 keeps_snd [OF keeps_emits(1) s1]
    by (cases "bs_cancelled s1"; cases r) (auto simp: brain_run_def Let_def)
  then show ?thesis unfolding seq_inv_def by blast
qed

subsection \<open>Tool calls are reported one by one\<close>

text \<open>
  The report a list of calls should leave, computed without errors and deadlines from the counter of the events and
  the world: what each call's tool answers in the world it is called in decides the report of this call.
\<close>

datatype tool_outcome = Denied | Raised kelvin_error | Returned tool_call_result

definition outcome_at :: "'w brain_env \<Rightarrow> agent_run_request \<Rightarrow> tool_call \<Rightarrow> 'w \<Rightarrow> tool_outcome \<times> 'w" where
  "outcome_at env req tc w = (case be_tools_get env (tc_name tc) of
     None \<Rightarrow> (Denied, w)
   | Some h \<Rightarrow> (case th_call h (tool_input req tc) w of
       (Inl err, w') \<Rightarrow> (Raised err, w') | (Inr res, w') \<Rightarrow> (Returned res, w')))"

text \<open>The name in the reports after the start is the tool's own, and the requested one if there is no tool.\<close>

definition reported_name :: "'w brain_env \<Rightarrow> tool_call \<Rightarrow> string" where
  "reported_name env tc = (case be_tools_get env (tc_name tc) of None \<Rightarrow> tc_name tc | Some h \<Rightarrow> th_name h)"

fun outcome_summary :: "string \<Rightarrow> tool_outcome \<Rightarrow> string" where
  "outcome_summary name Denied = ''unknown tool: '' @ name"
| "outcome_summary name (Raised err) = ''tool '' @ quoted name @ '' failed: '' @ show_error err"
| "outcome_summary name (Returned res) = tcr_summary res"

fun outcome_failed :: "tool_outcome \<Rightarrow> bool" where
  "outcome_failed (Returned res) = tcr_is_error res"
| "outcome_failed outcome = True"

fun outcome_class :: "tool_outcome \<Rightarrow> string" where
  "outcome_class Denied = ''denied''"
| "outcome_class (Raised err) = ''error''"
| "outcome_class (Returned res) = (if tcr_is_error res then ''tool_error'' else ''success'')"

fun outcome_output :: "tool_outcome \<Rightarrow> string option" where
  "outcome_output (Returned res) = tcr_output res"
| "outcome_output outcome = None"

fun outcome_messages :: "string \<Rightarrow> tool_outcome \<Rightarrow> session_message list" where
  "outcome_messages name Denied = []"
| "outcome_messages name (Raised err) = [tool_message
     (outcome_summary name (Raised err) @ nl @ nl @ ''Error:'' @ nl @ show_error err)
     (JObj [(''tool'', JStr name), (''is_error'', JBool True), (''error'', JStr (show_error err))])]"
| "outcome_messages name (Returned res) = [tool_message
     (case tcr_output res of None \<Rightarrow> tcr_summary res | Some out \<Rightarrow> tcr_summary res @ nl @ nl @ ''Output:'' @ nl @ out)
     (JObj [(''tool'', JStr name), (''is_error'', JBool (tcr_is_error res)), (''output'', json_opt (tcr_output res))])]"

fun outcome_payloads :: "string \<Rightarrow> tool_call \<Rightarrow> tool_outcome \<Rightarrow> (tool_call \<times> agent_payload) list" where
  "outcome_payloads name tc (Returned res) = (case tcr_visible_text res of None \<Rightarrow> []
     | Some visible \<Rightarrow> [(tc, \<lparr>pl_text = visible, pl_is_error = tcr_is_error res\<rparr>)])"
| "outcome_payloads name tc outcome = [(tc, \<lparr>pl_text = outcome_summary name outcome, pl_is_error = True\<rparr>)]"

definition receipt_of :: "agent_run_request \<Rightarrow> string \<Rightarrow> tool_call \<Rightarrow> tool_outcome \<Rightarrow> nat \<Rightarrow> json" where
  "receipt_of req name tc outcome latency = JObj
     [(''stream'', JStr ''tool_receipt''), (''run_id'', JStr (req_run_id req)),
      (''who'', JObj [(''session_id'', JStr (req_session_id req))]),
      (''what'', JObj [(''tool_name'', JStr name), (''tool_call_id'', JStr (tc_id tc))]),
      (''why'', JStr (sanitize_receipt_reason (outcome_summary name outcome))),
      (''result_class'', JStr (outcome_class outcome)), (''latency_ms'', JNum (show_nat latency))]"

text \<open>An event gets the next number, and the time of the world it is emitted in.\<close>

definition report_event :: "'w brain_env \<Rightarrow> (nat \<Rightarrow> agent_event_data) \<Rightarrow> nat \<times> 'w \<Rightarrow> agent_event \<times> nat \<times> 'w" where
  "report_event env mk qw = (case qw of (q, w) \<Rightarrow>
     let ev = \<lparr>ev_seq = (q + 1) mod 2 ^ 64, ev_data = mk (be_now env w)\<rparr> in (ev, ev_seq ev, snd (be_emit env ev w)))"

fun report_messages :: "'w brain_env \<Rightarrow> string \<Rightarrow> session_message list \<Rightarrow> 'w \<Rightarrow> 'w" where
  "report_messages env sid [] w = w"
| "report_messages env sid (m # ms) w = report_messages env sid ms (snd (be_append_message env sid m w))"

definition call_report :: "'w brain_env \<Rightarrow> agent_run_request \<Rightarrow> tool_call \<Rightarrow> nat \<times> 'w \<Rightarrow>
    brain_obs list \<times> (tool_call \<times> agent_payload) list \<times> nat \<times> 'w" where
  "call_report env req tc qw =
     (let rid = req_run_id req; sid = req_session_id req; name = reported_name env tc;
          started = be_now env (snd qw);
          (ev1, q1, w1) = report_event env (ToolEvent rid (tc_name tc) ToolStart (Some ''tool execution started'') None) qw;
          (outcome, w2) = outcome_at env req tc w1;
          (ev2, q2, w3) = report_event env (ToolEvent rid name (if outcome_failed outcome then ToolError else ToolEnd)
             (Some (outcome_summary name outcome)) (outcome_output outcome)) (q1, w2);
          w4 = report_messages env sid (outcome_messages name outcome) w3 in
      ([ObsEmit ev1] @
       (if be_tools_get env (tc_name tc) = None then [] else [ObsToolCall name (tool_input req tc)]) @
       [ObsEmit ev2] @ map (ObsAppend sid) (outcome_messages name outcome) @
       [ObsReceipt (receipt_of req name tc outcome (be_now env w4 - started))],
       outcome_payloads name tc outcome, q2, w4))"

fun calls_report :: "'w brain_env \<Rightarrow> agent_run_request \<Rightarrow> tool_call list \<Rightarrow> nat \<times> 'w \<Rightarrow>
    brain_obs list \<times> (tool_call \<times> agent_payload) list \<times> nat \<times> 'w" where
  "calls_report env req [] qw = ([], [], qw)"
| "calls_report env req (tc # tcs) qw = (case call_report env req tc qw of (obs, ps, qw1) \<Rightarrow>
     case calls_report env req tcs qw1 of (obs', ps', qw2) \<Rightarrow> (obs @ obs', ps @ ps', qw2))"

text \<open>
  Why an operation stops with an error before its report is complete: the deadline has passed, or the last thing
  it did was to hand an event or a message to a sink or store that answered with this error.
\<close>

definition stopped :: "'w brain_env \<Rightarrow> brain_obs list \<Rightarrow> kelvin_error \<Rightarrow> 'w brain_state \<Rightarrow> bool" where
  "stopped env t e s \<longleftrightarrow> bs_cancelled s \<and> e = timeout_error s \<or>
     (\<exists>u ev w. t = u @ [ObsEmit ev] \<and> fst (be_emit env ev w) = Inl e) \<or>
     (\<exists>u sid m w. t = u @ [ObsAppend sid m] \<and> fst (be_append_message env sid m w) = Inl e)"

lemma stopped_append: "stopped env t e s \<Longrightarrow> stopped env (u @ t) e s"
  unfolding stopped_def by (metis append_assoc)

text \<open>A part \<open>t\<close> of a report, with \<open>rest\<close> left out, that is not a complete report: a receipt ends it.\<close>

definition unfinished :: "brain_obs list \<Rightarrow> brain_obs list \<Rightarrow> bool" where
  "unfinished t rest \<longleftrightarrow> rest \<noteq> [] \<or> (\<exists>u ob. t = u @ [ob] \<and> (\<forall>j. ob \<noteq> ObsReceipt j))"

lemma unfinished_append: "unfinished t rest \<Longrightarrow> unfinished (u @ t) rest" "unfinished t rest \<Longrightarrow> unfinished t (rest @ v)"
  unfolding unfinished_def by (metis append_assoc) auto

lemma unfinished_single [simp]: "unfinished [ob] [] \<longleftrightarrow> (\<forall>j. ob \<noteq> ObsReceipt j)" "unfinished t (x # xs)"
  by (auto simp: unfinished_def)

text \<open>
  \<open>follows env m report\<close>: \<open>m\<close> adds its report to the trace, all of it when it succeeds with the
  value that belongs to the report, and a part from the front when it stops.
\<close>

definition follows_at :: "'w brain_env \<Rightarrow> ('a kelvin_result \<times> 'w brain_state) \<Rightarrow> 'w brain_state \<Rightarrow>
    (brain_obs list \<times> 'a \<times> nat \<times> 'w) \<Rightarrow> bool" where
  "follows_at env out s report \<longleftrightarrow> (case report of (obs, x, q, w) \<Rightarrow> case out of (r, s') \<Rightarrow>
     \<exists>t rest. bs_trace s' = bs_trace s @ t \<and> obs = t @ rest \<and>
       (case r of Inr y \<Rightarrow> rest = [] \<and> y = x \<and> bs_seq s' = q \<and> bs_world s' = w
        | Inl e \<Rightarrow> unfinished t rest \<and> stopped env t e s'))"

definition follows :: "'w brain_env \<Rightarrow> ('w, 'a) brain_op \<Rightarrow> (nat \<times> 'w \<Rightarrow> brain_obs list \<times> 'a \<times> nat \<times> 'w) \<Rightarrow> bool" where
  "follows env m report \<longleftrightarrow> (\<forall>s. follows_at env (m s) s (report (bs_seq s, bs_world s)))"

lemma follows_okE: "follows env (okE x) (\<lambda>qw. ([], x, qw))"
  by (simp add: follows_def follows_at_def okE_def)

lemma follows_now: "follows env (now_ms env) (\<lambda>qw. ([], be_now env (snd qw), qw))"
  by (simp add: follows_def follows_at_def now_ms_def getsE_def)

lemma timeout_error_cong [simp]:
  "timeout_error (s\<lparr>bs_world := w\<rparr>) = timeout_error s" "timeout_error (s\<lparr>bs_trace := t\<rparr>) = timeout_error s"
  "timeout_error (s\<lparr>bs_cancelled := c\<rparr>) = timeout_error s" "timeout_error (s\<lparr>bs_seq := q\<rparr>) = timeout_error s"
  by (simp_all add: timeout_error_def)

lemma stopped_timeout: "bs_cancelled s \<Longrightarrow> stopped env t (timeout_error s) s"
  by (simp add: stopped_def)

lemma stopped_refused:
  "fst (be_emit env ev w) = Inl e \<Longrightarrow> stopped env [ObsEmit ev] e s"
  "fst (be_append_message env sid m w) = Inl e \<Longrightarrow> stopped env [ObsAppend sid m] e s"
  unfolding stopped_def by (metis append_Nil)+

lemma follows_cancelled:
  "bs_cancelled s \<Longrightarrow> fst report \<noteq> [] \<Longrightarrow> follows_at env (Inl (timeout_error s), s) s report"
  by (cases report) (simp add: follows_at_def stopped_timeout unfinished_def)

lemma follows_await:
  assumes "\<And>w e s'. fst (op w) = Inl e \<Longrightarrow> stopped env [ob] e s'" "\<And>j. ob \<noteq> ObsReceipt j"
  shows "follows_at env (awaitE env ob op s) s ([ob], (), bs_seq s, snd (op (bs_world s)))"
proof (cases "bs_cancelled s")
  case True
  then show ?thesis by (simp add: awaitE_def follows_cancelled)
next
  case False
  obtain r w where o: "op (bs_world s) = (r, w)" by fastforce
  let ?s = "s\<lparr>bs_world := w, bs_trace := bs_trace s @ [ob]\<rparr>"
  show ?thesis
  proof (cases "deadline_passed env ?s")
    case True
    then show ?thesis using False o assms(2) stopped_timeout [of "?s\<lparr>bs_cancelled := True\<rparr>" env "[ob]"]
      by (auto simp: awaitE_def follows_at_def Let_def)
  next
    case ok: False
    have "stopped env [ob] e ?s" if "r = Inl e" for e using assms(1) that o by (metis fst_conv)
    then show ?thesis using False ok o assms(2) by (auto simp: awaitE_def follows_at_def Let_def split: sum.split)
  qed
qed

lemma follows_append:
  "follows env (append_message env sid m) (\<lambda>(q, w). ([ObsAppend sid m], (), q, snd (be_append_message env sid m w)))"
  by (simp add: follows_def append_message_def follows_await stopped_refused)

lemma follows_emit:
  "follows env (emit_tool env rid name ph sm out)
     (\<lambda>qw. case report_event env (ToolEvent rid name ph sm out) qw of (ev, qw') \<Rightarrow> ([ObsEmit ev], (), qw'))"
proof -
  have "follows_at env (emit_tool env rid name ph sm out s) s
      (case report_event env (ToolEvent rid name ph sm out) (bs_seq s, bs_world s) of (ev, qw') \<Rightarrow> ([ObsEmit ev], (), qw'))" for s
  proof (cases "bs_cancelled s")
    case True
    then show ?thesis
      by (simp add: emit_tool_def emit_event_def follows_cancelled split: prod.split)
  next
    case False
    let ?q = "(bs_seq s + 1) mod 2 ^ 64"
    let ?ev = "\<lparr>ev_seq = ?q, ev_data = ToolEvent rid name ph sm out (be_now env (bs_world s))\<rparr>"
    have "follows_at env (awaitE env (ObsEmit ?ev) (be_emit env ?ev) (s\<lparr>bs_seq := ?q\<rparr>)) (s\<lparr>bs_seq := ?q\<rparr>)
        ([ObsEmit ?ev], (), ?q, snd (be_emit env ?ev (bs_world s)))"
      using follows_await [of "be_emit env ?ev" env "ObsEmit ?ev" "s\<lparr>bs_seq := ?q\<rparr>"] by (simp add: stopped_refused)
    then show ?thesis using False
      by (simp add: emit_tool_def emit_event_def report_event_def Let_def follows_at_def)
  qed
  then show ?thesis by (simp add: follows_def)
qed

lemma follows_receipt:
  assumes "cls = outcome_class oc" "reason = outcome_summary name oc"
  shows "follows env (emit_tool_receipt env req name (tc_id tc) cls reason started)
     (\<lambda>(q, w). ([ObsReceipt (receipt_of req name tc oc (be_now env w - started))], (), q, w))"
proof -
  have "follows_at env (emit_tool_receipt env req name (tc_id tc) (outcome_class oc) (outcome_summary name oc) started s) s
      ([ObsReceipt (receipt_of req name tc oc (be_now env (bs_world s) - started))], (), bs_seq s, bs_world s)" for s
    by (cases "bs_cancelled s") (simp_all add: emit_tool_receipt_def follows_cancelled, simp add: follows_at_def receipt_of_def)
  then show ?thesis unfolding assms by (simp add: follows_def)
qed

lemma follows_at_append:
  assumes "follows_at env out s1 (obs', y, qw)" "bs_trace s1 = bs_trace s @ obs"
  shows "follows_at env out s (obs @ obs', y, qw)"
proof -
  obtain r s' q w where out: "out = (r, s')" "qw = (q, w)" by fastforce
  then obtain t rest where t: "bs_trace s' = bs_trace s1 @ t" "obs' = t @ rest"
      "case r of Inr z \<Rightarrow> rest = [] \<and> z = y \<and> bs_seq s' = q \<and> bs_world s' = w | Inl e \<Rightarrow> unfinished t rest \<and> stopped env t e s'"
    using assms(1) by (auto simp: follows_at_def)
  then have "bs_trace s' = bs_trace s @ (obs @ t)" "obs @ obs' = (obs @ t) @ rest" using assms(2) by simp_all
  moreover have "case r of Inr z \<Rightarrow> rest = [] \<and> z = y \<and> bs_seq s' = q \<and> bs_world s' = w
      | Inl e \<Rightarrow> unfinished (obs @ t) rest \<and> stopped env (obs @ t) e s'"
    using t(3) by (cases r) (simp_all add: unfinished_append stopped_append)
  ultimately show ?thesis unfolding follows_at_def out prod.case by blast
qed

lemma follows_bindE:
  assumes "follows env m report" "\<And>x. follows env (k x) (report' x)"
  shows "follows env (bindE m k) (\<lambda>qw. case report qw of (obs, x, qw1) \<Rightarrow>
    case report' x qw1 of (obs', y, qw2) \<Rightarrow> (obs @ obs', y, qw2))"
proof -
  have "follows_at env (bindE m k s) s (case report (bs_seq s, bs_world s) of (obs, x, qw1) \<Rightarrow>
      case report' x qw1 of (obs', y, qw2) \<Rightarrow> (obs @ obs', y, qw2))" for s
  proof -
    obtain obs x q w where r: "report (bs_seq s, bs_world s) = (obs, x, q, w)" by (metis surj_pair)
    obtain obs' y qw2 where r': "report' x (q, w) = (obs', y, qw2)" by (metis surj_pair)
    obtain res s1 where m: "m s = (res, s1)" by fastforce
    have f: "follows_at env (res, s1) s (obs, x, q, w)" using assms(1) r m by (metis follows_def)
    show ?thesis
    proof (cases res)
      case (Inl e)
      then show ?thesis using f m r r' by (cases qw2) (auto simp: follows_at_def bindE_def intro: unfinished_append)
    next
      case (Inr z)
      then have 1: "bs_trace s1 = bs_trace s @ obs" "z = x" "bs_seq s1 = q" "bs_world s1 = w"
        using f by (auto simp: follows_at_def)
      have "follows_at env (k x s1) s1 (obs', y, qw2)" using assms(2) 1 r' by (metis follows_def)
      then have "follows_at env (k x s1) s (obs @ obs', y, qw2)"
        using 1(1) by (rule follows_at_append)
      then show ?thesis using m Inr r r' 1 by (simp add: bindE_def)
    qed
  qed
  then show ?thesis by (simp add: follows_def)
qed

lemma follows_seqE: "follows env m report \<Longrightarrow> follows env n report' \<Longrightarrow>
   follows env (seqE m n) (\<lambda>qw. case report qw of (obs, x, qw1) \<Rightarrow> case report' qw1 of (obs', y, qw2) \<Rightarrow> (obs @ obs', y, qw2))"
  unfolding seqE_def by (rule follows_bindE)

text \<open>
  The call of a tool: its error is a value, and after a deadline during the call what comes next does nothing.
\<close>

lemma follows_call:
  assumes "\<And>r. follows env (k r) (report r)" "\<And>r qw. fst (report r qw) \<noteq> []"
    and "\<And>r s. bs_cancelled s \<Longrightarrow> k r s = (Inl (timeout_error s), s)"
  shows "follows env (bindE (attemptE (awaitE env (ObsToolCall name inp) op)) k)
    (\<lambda>(q, w). case op w of (r, w') \<Rightarrow> case report r (q, w') of (obs, x, qw') \<Rightarrow> (ObsToolCall name inp # obs, x, qw'))"
proof -
  let ?m = "bindE (attemptE (awaitE env (ObsToolCall name inp) op)) k"
  have "follows_at env (?m s) s (case op (bs_world s) of (r, w') \<Rightarrow> case report r (bs_seq s, w') of
      (obs, x, qw') \<Rightarrow> (ObsToolCall name inp # obs, x, qw'))" for s
  proof (cases "bs_cancelled s")
    case True
    then have "?m s = (Inl (timeout_error s), s)" using assms(3) by (simp add: bindE_def attemptE_def awaitE_def)
    then show ?thesis using True by (simp add: follows_cancelled split: prod.split)
  next
    case False
    obtain r w where o: "op (bs_world s) = (r, w)" by fastforce
    let ?s = "s\<lparr>bs_world := w, bs_trace := bs_trace s @ [ObsToolCall name inp]\<rparr>"
    obtain obs x qw' where rep: "report r (bs_seq s, w) = (obs, x, qw')" by (metis surj_pair)
    show ?thesis
    proof (cases "deadline_passed env ?s")
      case True
      let ?c = "?s\<lparr>bs_cancelled := True\<rparr>"
      have "?m s = (Inl (timeout_error ?c), ?c)"
        using False True o assms(3) [of ?c] by (simp add: bindE_def attemptE_def awaitE_def Let_def)
      moreover have "follows_at env (Inl (timeout_error ?c), ?c) ?c (obs, x, qw')"
        using assms(2) [of r "(bs_seq s, w)"] rep by (intro follows_cancelled) simp_all
      ultimately show ?thesis using follows_at_append [of env _ ?c obs x qw' s "[ObsToolCall name inp]"] o rep by simp
    next
      case ok: False
      have "?m s = k r ?s" using False ok o by (simp add: bindE_def attemptE_def awaitE_def Let_def)
      moreover have "follows_at env (k r ?s) ?s (obs, x, qw')" using assms(1) [of r, unfolded follows_def, rule_format, of ?s] rep by simp
      ultimately show ?thesis using follows_at_append [of env _ ?s obs x qw' s "[ObsToolCall name inp]"] o rep by simp
    qed
  qed
  then show ?thesis by (simp add: follows_def)
qed

text \<open>The end of a call's report, for each outcome, and the whole of it.\<close>

definition outcome_report :: "'w brain_env \<Rightarrow> agent_run_request \<Rightarrow> tool_call \<Rightarrow> nat \<Rightarrow> tool_outcome \<Rightarrow> nat \<times> 'w \<Rightarrow>
    brain_obs list \<times> (tool_call \<times> agent_payload) list \<times> nat \<times> 'w" where
  "outcome_report env req tc started outcome qw =
     (let name = reported_name env tc; sid = req_session_id req;
          (ev2, q2, w3) = report_event env (ToolEvent (req_run_id req) name (if outcome_failed outcome then ToolError else ToolEnd)
             (Some (outcome_summary name outcome)) (outcome_output outcome)) qw;
          w4 = report_messages env sid (outcome_messages name outcome) w3 in
      ([ObsEmit ev2] @ map (ObsAppend sid) (outcome_messages name outcome) @
       [ObsReceipt (receipt_of req name tc outcome (be_now env w4 - started))],
       outcome_payloads name tc outcome, q2, w4))"

lemma follows_eq: "follows env m report \<Longrightarrow> (\<And>qw. report qw = report' qw) \<Longrightarrow> follows env m report'"
  by (simp add: follows_def)

lemma follows_outcomes:
  "be_tools_get env (tc_name tc) = None \<Longrightarrow>
     follows env (execute_unknown_tool env req tc started) (outcome_report env req tc started Denied)"
  "be_tools_get env (tc_name tc) = Some h \<Longrightarrow>
     follows env (execute_failed_tool env req tc (th_name h) err started) (outcome_report env req tc started (Raised err))"
  "be_tools_get env (tc_name tc) = Some h \<Longrightarrow>
     follows env (execute_returned_tool env req tc (th_name h) res started) (outcome_report env req tc started (Returned res))"
  subgoal
    unfolding execute_unknown_tool_def Let_def
    by (rule follows_eq, rule follows_seqE, rule follows_emit, rule follows_seqE, rule follows_receipt [where oc = Denied],
        simp, simp, rule follows_okE)
      (simp add: outcome_report_def reported_name_def report_event_def Let_def split: prod.split)
  subgoal
    unfolding execute_failed_tool_def Let_def
    by (rule follows_eq, rule follows_seqE, rule follows_emit, rule follows_seqE, rule follows_append, rule follows_seqE,
        rule follows_receipt [where oc = "Raised err"], simp, simp, rule follows_okE)
      (simp add: outcome_report_def reported_name_def report_event_def Let_def split: prod.split)
  subgoal
    unfolding execute_returned_tool_def
    by (rule follows_eq, rule follows_seqE, rule follows_emit, rule follows_seqE, rule follows_append, rule follows_seqE,
        rule follows_receipt [where oc = "Returned res"], simp, simp, rule follows_okE)
      (auto simp: outcome_report_def reported_name_def report_event_def Let_def split: prod.split option.split)
  done

lemma outcomes_cancelled:
  assumes "bs_cancelled s"
  shows "execute_failed_tool env req tc name err started s = (Inl (timeout_error s), s)"
    "execute_returned_tool env req tc name res started s = (Inl (timeout_error s), s)"
  using assms by (simp_all add: execute_failed_tool_def execute_returned_tool_def Let_def seqE_def bindE_def
      emit_tool_def emit_event_def)

lemma follows_tool_call: "follows env (execute_tool_call env req tc) (call_report env req tc)"
proof -
  let ?start = "emit_tool env (req_run_id req) (tc_name tc) ToolStart (Some ''tool execution started'') None"
  let ?ev = "ToolEvent (req_run_id req) (tc_name tc) ToolStart (Some ''tool execution started'') None"
  let ?inp = "tool_input req tc"
  define rest where "rest started = (\<lambda>qw. case outcome_at env req tc (snd qw) of (outcome, w) \<Rightarrow>
    case outcome_report env req tc started outcome (fst qw, w) of (obs, x, qw') \<Rightarrow>
      ((if be_tools_get env (tc_name tc) = None then [] else [ObsToolCall (reported_name env tc) ?inp]) @ obs, x, qw'))" for started
  have called: "follows env (case be_tools_get env (tc_name tc) of
      None \<Rightarrow> execute_unknown_tool env req tc started
    | Some tool \<Rightarrow> bindE (attemptE (awaitE env (ObsToolCall (th_name tool) ?inp) (th_call tool ?inp))) (\<lambda>r. case r of
        Inl err \<Rightarrow> execute_failed_tool env req tc (th_name tool) err started
      | Inr res \<Rightarrow> execute_returned_tool env req tc (th_name tool) res started)) (rest started)" for started
  proof (cases "be_tools_get env (tc_name tc)")
    case None
    show ?thesis unfolding None option.case
      by (rule follows_eq [OF follows_outcomes(1) [OF None]]) (auto simp: rest_def outcome_at_def None split: prod.split)
  next
    case (Some h)
    let ?report = "\<lambda>r. outcome_report env req tc started (case r of Inl err \<Rightarrow> Raised err | Inr res \<Rightarrow> Returned res)"
    have "follows env (bindE (attemptE (awaitE env (ObsToolCall (th_name h) ?inp) (th_call h ?inp))) (\<lambda>r. case r of
        Inl err \<Rightarrow> execute_failed_tool env req tc (th_name h) err started
      | Inr res \<Rightarrow> execute_returned_tool env req tc (th_name h) res started))
      (\<lambda>(q, w). case th_call h ?inp w of (r, w') \<Rightarrow> case ?report r (q, w') of (obs, x, qw') \<Rightarrow>
        (ObsToolCall (th_name h) ?inp # obs, x, qw'))"
    proof (rule follows_call, goal_cases)
      case (1 r)
      show ?case using follows_outcomes(2,3) [OF Some] by (cases r) simp_all
    next
      case (2 r qw)
      show ?case by (simp add: outcome_report_def Let_def split: prod.split)
    next
      case (3 r s)
      then show ?case by (cases r) (simp_all add: outcomes_cancelled)
    qed
    then show ?thesis unfolding Some option.case
      by (rule follows_eq) (auto simp: rest_def outcome_at_def Some reported_name_def split: prod.split sum.split)
  qed
  show ?thesis unfolding execute_tool_call_def
    by (rule follows_eq, rule follows_bindE, rule follows_now, rule follows_seqE, rule follows_emit, rule called)
      (auto simp: call_report_def rest_def outcome_report_def Let_def split: prod.split)
qed

lemma follows_tool_calls: "follows env (execute_tool_calls env req tcs) (calls_report env req tcs)"
proof (induction tcs)
  case Nil
  show ?case unfolding execute_tool_calls.simps by (rule follows_eq [OF follows_okE]) simp
next
  case (Cons tc tcs)
  show ?case unfolding execute_tool_calls.simps
    by (rule follows_eq, rule follows_bindE, rule follows_tool_call, rule follows_bindE, rule Cons.IH, rule follows_okE)
      (auto split: prod.split)
qed

lemma call_report_ends: "\<exists>u j. fst (call_report env req tc qw) = u @ [ObsReceipt j]"
  by (simp add: call_report_def Let_def split: prod.split)

lemma calls_report_ends: "tcs = [] \<or> (\<exists>u j. fst (calls_report env req tcs qw) = u @ [ObsReceipt j])"
proof (induction tcs arbitrary: qw)
  case (Cons tc tcs)
  obtain obs ps qw1 where 1: "call_report env req tc qw = (obs, ps, qw1)" by (metis surj_pair)
  obtain obs' ps' qw2 where 2: "calls_report env req tcs qw1 = (obs', ps', qw2)" by (metis surj_pair)
  show ?case
  proof (cases "tcs = []")
    case True
    then show ?thesis using 1 call_report_ends [of env req tc qw] by simp
  next
    case False
    then obtain u j where "obs' = u @ [ObsReceipt j]" using Cons.IH [of qw1] 2 by auto
    then have "fst (calls_report env req (tc # tcs) qw) = (obs @ u) @ [ObsReceipt j]" using 1 2 by simp
    then show ?thesis by blast
  qed
qed simp

text \<open>
  \<^bold>\<open>C9.\<close> Tool calls are executed in order and each is reported completely. In every execution of a list of calls, what it
  adds to the trace is the complete report of the calls or a proper part of it from the front. The report of a call is: the
  start event; the call of the tool that the registry holds under its name, with the arguments of the call (none if there is no such
  tool); the end or error event, the message to the session and the receipt with the call's id, all by what that tool
  answered in the world it was called in; and then the next call's. The execution succeeds just when the report is
  complete, with the texts the answers show as its payloads, in order; it stops only after the deadline or at an event sink or
  session store that failed, with its error, so a failing or missing tool never stops it.
\<close>

theorem tool_calls_reported:
  "case execute_tool_calls env req tcs s of (result, s') \<Rightarrow>
   case calls_report env req tcs (bs_seq s, bs_world s) of (report, payloads, q, w) \<Rightarrow>
     \<exists>t rest. bs_trace s' = bs_trace s @ t \<and> report = t @ rest \<and>
       (case result of
          Inr ps \<Rightarrow> rest = [] \<and> ps = payloads \<and> bs_seq s' = q \<and> bs_world s' = w
        | Inl err \<Rightarrow> rest \<noteq> [] \<and> stopped env t err s')"
proof -
  obtain result s' where run: "execute_tool_calls env req tcs s = (result, s')" by fastforce
  obtain report payloads q w where rep: "calls_report env req tcs (bs_seq s, bs_world s) = (report, payloads, q, w)"
    by (metis surj_pair)
  obtain t rest where t: "bs_trace s' = bs_trace s @ t" "report = t @ rest"
      "case result of Inr ps \<Rightarrow> rest = [] \<and> ps = payloads \<and> bs_seq s' = q \<and> bs_world s' = w
        | Inl err \<Rightarrow> unfinished t rest \<and> stopped env t err s'"
    using follows_tool_calls [of env req tcs, unfolded follows_def, rule_format, of s] run rep
    by (auto simp: follows_at_def)
  have "rest \<noteq> []" if err: "result = Inl err" for err
  proof
    assume "rest = []"
    then obtain u ob where u: "report = u @ [ob]" "\<forall>j. ob \<noteq> ObsReceipt j" using t err by (auto simp: unfinished_def)
    have "tcs \<noteq> []" using err run by auto
    then show False using calls_report_ends [of tcs env req "(bs_seq s, bs_world s)"] rep u by auto
  qed
  then have "case result of Inr ps \<Rightarrow> rest = [] \<and> ps = payloads \<and> bs_seq s' = q \<and> bs_world s' = w
        | Inl err \<Rightarrow> rest \<noteq> [] \<and> stopped env t err s'"
    using t(3) by (cases result) simp_all
  then show ?thesis unfolding run rep prod.case using t(1,2) by blast
qed

subsection \<open>Tools without visible text escape the loop detector\<close>

lemma bindE_okD: "bindE m k s = (Inr y, s') \<Longrightarrow> (\<And>x s1. m s = (Inr x, s1) \<Longrightarrow> k x s1 = (Inr y, s') \<Longrightarrow> P) \<Longrightarrow> P"
  by (drule bindE_Inr) blast

definition silent_tool :: "'w tool_handle \<Rightarrow> bool" where
  "silent_tool h \<longleftrightarrow> (\<forall>inp w. \<exists>res w'. th_call h inp w = (Inr res, w') \<and> tcr_visible_text res = None)"

lemma awaitE_silent:
  assumes "silent_tool h" "awaitE env obs (th_call h inp) s = (r, s')"
  shows "(\<exists>res. r = Inr res \<and> tcr_visible_text res = None) \<or> bs_cancelled s'"
proof -
  obtain res w where "th_call h inp (bs_world s) = (Inr res, w)" "tcr_visible_text res = None"
    using assms(1) unfolding silent_tool_def by blast
  then show ?thesis using assms(2) by (auto simp: awaitE_def Let_def split: if_splits)
qed

lemma emit_tool_cancelled: "bs_cancelled s \<Longrightarrow> emit_tool env rid nm ph sm out s = (Inl (timeout_error s), s)"
  by (simp add: emit_tool_def emit_event_def)

lemma execute_silent_call:
  assumes tool: "be_tools_get env (tc_name tc) = Some h" "silent_tool h"
    and run: "execute_tool_call env req tc s = (Inr ps, s')"
  shows "ps = []"
proof -
  obtain r s1 s2 started where await: "awaitE env (ObsToolCall (th_name h) (tool_input req tc))
        (th_call h (tool_input req tc)) s1 = (r, s2)"
      and k: "(case r of Inl err \<Rightarrow> execute_failed_tool env req tc (th_name h) err started
        | Inr res \<Rightarrow> execute_returned_tool env req tc (th_name h) res started) s2 = (Inr ps, s')"
    using run unfolding execute_tool_call_def seqE_def
    by (auto simp: tool(1) attemptE_def elim!: bindE_okD split: prod.splits)
  show ?thesis
  proof (cases "bs_cancelled s2")
    case True
    then show ?thesis using k
      by (cases r) (auto simp: execute_failed_tool_def execute_returned_tool_def seqE_def bindE_def Let_def
          emit_tool_cancelled [OF True])
  next
    case False
    then obtain res where "r = Inr res" "tcr_visible_text res = None"
      using awaitE_silent [OF tool(2) await] by blast
    then show ?thesis using k
      by (auto simp: execute_returned_tool_def seqE_def elim!: bindE_okD)
  qed
qed

lemma execute_silent_calls:
  assumes "list_all (\<lambda>tc. \<exists>h. be_tools_get env (tc_name tc) = Some h \<and> silent_tool h) tcs"
    and "execute_tool_calls env req tcs s = (Inr ps, s')"
  shows "ps = []"
  using assms
proof (induction tcs arbitrary: s ps)
  case (Cons tc tcs)
  then show ?case
    by (auto elim!: bindE_okD dest: execute_silent_call)
qed simp

text \<open>
  The loop detector does not see tools without visible text: if every call of a turn goes to
  a tool that succeeds without one, \<open>execute_tool_calls\<close> returns no payload, the detector is
  handed an empty list, and it reports no issue and stays below its threshold, however often the
  same calls are repeated.
\<close>

theorem silent_tools_unseen:
  assumes "list_all (\<lambda>tc. \<exists>h. be_tools_get env (tc_name tc) = Some h \<and> silent_tool h) tcs"
    and "execute_tool_calls env req tcs s = (Inr ps, s')" and "repeat_threshold d = 3"
  shows "ps = [] \<and> (\<exists>d'. record_call to_json now (detector_calls ps) d = Some (NoIssue, d') \<and>
    repeat_threshold d' = 3 \<and> consecutive_repeats d' = 1)"
  using execute_silent_calls [OF assms(1,2)] assms(3)
  by (simp add: detector_calls_def record_call_def recorded_calls_def is_same_as_last_def Let_def)

text \<open>A world in which a single silent tool is called.\<close>

definition demo_silent :: "unit tool_handle" where
  "demo_silent = \<lparr>th_name = ''t'', th_call = (\<lambda>_. okE \<lparr>tcr_summary = ''done'', tcr_output = None,
     tcr_visible_text = None, tcr_is_error = False\<rparr>)\<rparr>"

definition demo_env :: "unit brain_env" where
  "demo_env = \<lparr>be_upsert_session = (\<lambda>_. okE ()), be_append_message = (\<lambda>_ _. okE ()),
     be_history = (\<lambda>_. okE []), be_search = (\<lambda>_ _. okE []),
     be_infer = (\<lambda>_. okE \<lparr>mo_assistant_text = ''hi'', mo_stop_reason = None, mo_tool_calls = [], mo_usage = None\<rparr>),
     be_provider_name = ''p'', be_model_name = ''m'', be_tools_get = (\<lambda>_. Some demo_silent),
     be_tool_definitions = [], be_emit = (\<lambda>_. okE ()), be_now = (\<lambda>_. 0), be_utc_now = (\<lambda>_. []),
     be_canonicalize = (\<lambda>_ _. None), be_to_json = (\<lambda>_. Some []), be_expired = (\<lambda>_ _. False),
     be_max_tool_iterations = 10\<rparr>"

definition demo_request :: agent_run_request where
  "demo_request = \<lparr>req_run_id = ''r'', req_session_id = ''s'', req_session_key = ''k'',
     req_workspace_dir = ''.'', req_prompt = ''hi'', req_extra_system_prompt = None,
     req_timeout_ms = None, req_memory_query = None, req_max_tool_iterations = None\<rparr>"

abbreviation demo_state :: "unit brain_state" where
  "demo_state \<equiv> \<lparr>bs_seq = 0, bs_world = (), bs_trace = [], bs_timeout = None, bs_cancelled = False\<rparr>"

abbreviation demo_call :: tool_call where
  "demo_call \<equiv> \<lparr>tc_id = ''1'', tc_name = ''t'', tc_arguments = JNull\<rparr>"

theorem silent_tools_unseen_witness:
  "\<exists>s'. execute_tool_calls demo_env demo_request [demo_call] demo_state = (Inr [], s') \<and>
     length (receipts (bs_trace s')) = 1 \<and>
     (\<exists>d'. record_call (\<lambda>_. Some []) (\<lambda>_. 0) (detector_calls []) detector_new = Some (NoIssue, d'))"
proof -
  have silent: "silent_tool demo_silent" by (simp add: silent_tool_def demo_silent_def)
  have reg: "list_all (\<lambda>tc. \<exists>h. be_tools_get demo_env (tc_name tc) = Some h \<and> silent_tool h) [demo_call]"
    using silent by (simp add: demo_env_def)
  have th: "repeat_threshold detector_new = 3" by (simp add: detector_new_def)
  obtain ps s' where run: "execute_tool_calls demo_env demo_request [demo_call] demo_state = (Inr ps, s')"
      and "length (receipts (bs_trace s')) = 1"
    by (simp add: execute_tool_call_def execute_returned_tool_def demo_env_def demo_silent_def
        emit_tool_def emit_event_def awaitE_def deadline_passed_def append_message_def
        emit_tool_receipt_def now_ms_def seqE_def bindE_def attemptE_def Let_def)
  then show ?thesis using silent_tools_unseen [OF reg run th, of "\<lambda>_. Some []" "\<lambda>_. 0"] by auto
qed

end
