(* ===== verification/Cron.thy ===== *)
theory Cron
  imports Kelvin_Prelude
begin

section \<open>Cron schedules (kelvin-sdk/src/scheduler/cron.rs)\<close>

text \<open>
  Parsing of five-field cron expressions into bit vectors and the search for the next minute
  that matches. The calendar (the \<open>chrono\<close> crate) is a parameter: it maps milliseconds since the
  epoch to civil time, or to \<open>None\<close> outside its range; \<open>calendar_ok\<close> states the documented
  ranges of the fields, which the code relies on when it indexes the vectors.

  The loop that sets the bits of a range is run with a fuel of one more than the largest value,
  enough because every round moves on by at least one (\<open>mark_range_fuel\<close>).
\<close>

record cron_schedule =
  cs_raw :: string
  cs_minutes :: "bool list"
  cs_hours :: "bool list"
  cs_month_days :: "bool list"
  cs_months :: "bool list"
  cs_week_days :: "bool list"
  cs_month_days_wild :: bool
  cs_week_days_wild :: bool

record civil_time =
  cv_minute :: nat
  cv_hour :: nat
  cv_day :: nat
  cv_month :: nat
  cv_weekday :: nat

type_synonym calendar = "nat \<Rightarrow> civil_time option"

definition calendar_ok :: "calendar \<Rightarrow> bool" where
  "calendar_ok cal \<longleftrightarrow> (\<forall>ms ct. cal ms = Some ct \<longrightarrow> cv_minute ct < 60 \<and> cv_hour ct < 24 \<and>
     1 \<le> cv_day ct \<and> cv_day ct \<le> 31 \<and> 1 \<le> cv_month ct \<and> cv_month ct \<le> 12 \<and> cv_weekday ct < 7)"

definition MINUTE_MS :: nat where "MINUTE_MS = 60000"
definition MAX_CRON_SCAN_MINUTES :: nat where "MAX_CRON_SCAN_MINUTES = 1051200"
definition i64_max :: nat where "i64_max = 2 ^ 63 - 1"

subsection \<open>Parsing\<close>

abbreviation quote1 :: "string \<Rightarrow> string" where "quote1 s \<equiv> [CHR 39] @ s @ [CHR 39]"

definition parse_value :: "string \<Rightarrow> nat \<Rightarrow> nat \<Rightarrow> bool \<Rightarrow> nat kelvin_result" where
  "parse_value raw minv maxv sunday_alias = (case parse_usize raw of
     None \<Rightarrow> Inl (InvalidInput (''invalid cron value '' @ quote1 raw))
   | Some v \<Rightarrow> let v' = (if sunday_alias \<and> v = 7 then 0 else v) in
       if v' < minv \<or> maxv < v' then
         Inl (InvalidInput (''cron value '' @ quote1 raw @ '' must be between '' @ show_nat minv @
           '' and '' @ show_nat maxv))
       else Inr v')"

text \<open>The range text and the step of one item of a field.\<close>

definition item_step :: "string \<Rightarrow> (string \<times> nat) kelvin_result" where
  "item_step item = (case split_once CHR ''/'' item of
     Some (rng, step) \<Rightarrow> (case parse_usize (trim step) of
         None \<Rightarrow> Inl (InvalidInput (''invalid cron step '' @ quote1 (trim step)))
       | Some 0 \<Rightarrow> Inl (InvalidInput ''cron step must be >= 1'')
       | Some (Suc k) \<Rightarrow> Inr (trim rng, Suc k))
   | None \<Rightarrow> Inr (trim item, 1))"

definition item_range :: "string \<Rightarrow> nat \<Rightarrow> nat \<Rightarrow> bool \<Rightarrow> (nat \<times> nat) kelvin_result" where
  "item_range range_raw minv maxv sunday_alias =
     bindR (if range_raw = ''*'' then Inr (minv, maxv)
       else case split_once CHR ''-'' range_raw of
         Some (s, e) \<Rightarrow>
           bindR (parse_value (trim s) minv maxv sunday_alias) (\<lambda>start.
           bindR (parse_value (trim e) minv maxv sunday_alias) (\<lambda>stop. Inr (start, stop)))
       | None \<Rightarrow> bindR (parse_value range_raw minv maxv sunday_alias) (\<lambda>v. Inr (v, v)))
     (\<lambda>(start, stop). if stop < start
        then Inl (InvalidInput (''invalid cron range '' @ quote1 range_raw)) else Inr (start, stop))"

fun mark_range :: "nat \<Rightarrow> bool list \<Rightarrow> nat \<Rightarrow> nat \<Rightarrow> nat \<Rightarrow> bool list" where
  "mark_range 0 field v stop step = field"
| "mark_range (Suc fuel) field v stop step =
     (if v \<le> stop then
        let field' = field[v := True]; v' = sat_add64 v step in
        if v' = 0 then field' else mark_range fuel field' v' stop step
      else field)"

definition mark_item :: "nat \<Rightarrow> nat \<Rightarrow> bool \<Rightarrow> string \<Rightarrow> bool list \<Rightarrow> bool list kelvin_result" where
  "mark_item minv maxv sunday_alias item field =
     bindR (item_step item) (\<lambda>(range_raw, step).
     bindR (item_range range_raw minv maxv sunday_alias) (\<lambda>(start, stop).
     Inr (mark_range (Suc stop) field start stop step)))"

fun mark_items :: "nat \<Rightarrow> nat \<Rightarrow> bool \<Rightarrow> string list \<Rightarrow> bool list \<Rightarrow> bool list kelvin_result" where
  "mark_items minv maxv sunday_alias [] field = Inr field"
| "mark_items minv maxv sunday_alias (item # items) field =
     bindR (mark_item minv maxv sunday_alias item field) (mark_items minv maxv sunday_alias items)"

definition parse_field :: "string \<Rightarrow> nat \<Rightarrow> nat \<Rightarrow> bool \<Rightarrow> bool list kelvin_result" where
  "parse_field raw minv maxv sunday_alias =
     (if trim raw = [] then Inl (InvalidInput ''cron contains empty field'')
      else mark_items minv maxv sunday_alias (split_char CHR '','' raw) (replicate (maxv + 1) False))"

definition cron_parse :: "string \<Rightarrow> cron_schedule kelvin_result" where
  "cron_parse raw = (case split_whitespace (trim raw) of
     [p0, p1, p2, p3, p4] \<Rightarrow>
       bindR (parse_field p0 0 59 False) (\<lambda>minutes.
       bindR (parse_field p1 0 23 False) (\<lambda>hours.
       bindR (parse_field p2 1 31 False) (\<lambda>month_days.
       bindR (parse_field p3 1 12 False) (\<lambda>months.
       bindR (parse_field p4 0 7 True) (\<lambda>week_days.
       Inr \<lparr>cs_raw = trim raw, cs_minutes = minutes, cs_hours = hours, cs_month_days = month_days,
            cs_months = months, cs_week_days = week_days, cs_month_days_wild = (trim p2 = ''*''),
            cs_week_days_wild = (trim p4 = ''*'')\<rparr>)))))
   | _ \<Rightarrow> Inl (InvalidInput ''cron must have exactly 5 fields''))"

subsection \<open>Matching\<close>

definition civil_matches :: "cron_schedule \<Rightarrow> civil_time \<Rightarrow> bool" where
  "civil_matches c ct =
     (if \<not> cs_minutes c ! cv_minute ct \<or> \<not> cs_hours c ! cv_hour ct \<or> \<not> cs_months c ! cv_month ct
      then False
      else case (cs_month_days_wild c, cs_week_days_wild c) of
        (True, True) \<Rightarrow> True
      | (True, False) \<Rightarrow> cs_week_days c ! cv_weekday ct
      | (False, True) \<Rightarrow> cs_month_days c ! cv_day ct
      | (False, False) \<Rightarrow> cs_month_days c ! cv_day ct \<or> cs_week_days c ! cv_weekday ct)"

definition cron_matches :: "calendar \<Rightarrow> cron_schedule \<Rightarrow> nat \<Rightarrow> bool kelvin_result" where
  "cron_matches cal c slot_ms = (case cal (min slot_ms i64_max) of
     None \<Rightarrow> Inl (InvalidInput ''invalid scheduler timestamp'')
   | Some ct \<Rightarrow> Inr (civil_matches c ct))"

fun cron_scan :: "calendar \<Rightarrow> cron_schedule \<Rightarrow> nat \<Rightarrow> nat \<Rightarrow> nat kelvin_result" where
  "cron_scan cal c 0 candidate = Inl (InvalidInput (''cron '' @ quote1 (cs_raw c) @
     '' produced no matching slot within scan window''))"
| "cron_scan cal c (Suc n) candidate = bindR (cron_matches cal c candidate) (\<lambda>hit.
     if hit then Inr candidate else cron_scan cal c n (sat_add128 candidate MINUTE_MS))"

definition first_slot_at_or_after :: "calendar \<Rightarrow> cron_schedule \<Rightarrow> nat \<Rightarrow> nat kelvin_result" where
  "first_slot_at_or_after cal c start_ms = cron_scan cal c MAX_CRON_SCAN_MINUTES start_ms"

definition next_slot_after :: "calendar \<Rightarrow> cron_schedule \<Rightarrow> nat \<Rightarrow> nat kelvin_result" where
  "next_slot_after cal c slot_ms = first_slot_at_or_after cal c (sat_add128 slot_ms MINUTE_MS)"

subsection \<open>What a field denotes\<close>

lemma parse_value_bounds: "parse_value raw minv maxv al = Inr v \<Longrightarrow> minv \<le> v \<and> v \<le> maxv"
  by (auto simp: parse_value_def Let_def split: option.splits if_splits)

lemma item_range_bounds:
  "item_range rr minv maxv al = Inr (start, stop) \<Longrightarrow> minv \<le> maxv \<Longrightarrow> minv \<le> start \<and> start \<le> stop \<and> stop \<le> maxv"
  by (auto simp: item_range_def dest: parse_value_bounds split: if_splits option.splits prod.splits)

lemma item_step_pos: "item_step item = Inr (rr, step) \<Longrightarrow> 1 \<le> step"
  by (auto simp: item_step_def split: option.splits prod.splits nat.splits)

lemma length_mark_range [simp]: "length (mark_range fuel field v stop step) = length field"
  by (induction fuel field v stop step rule: mark_range.induct) (auto simp: Let_def)

lemma progression_step:
  fixes v i step :: nat
  assumes "1 \<le> step" "v < i" "step dvd (i - v)"
  shows "v + step \<le> i \<and> step dvd (i - (v + step))"
proof -
  have "step \<le> i - v" using assms by (intro dvd_imp_le) auto
  then have le: "v + step \<le> i" using assms(2) by simp
  have "i - v = (i - (v + step)) + step" using le by simp
  then show ?thesis using assms(3) le by (metis dvd_add_left_iff dvd_refl)
qed

lemma progression_unstep:
  fixes v i step :: nat
  assumes "v + step \<le> i" "step dvd (i - (v + step))"
  shows "step dvd (i - v)"
proof -
  have "i - v = (i - (v + step)) + step" using assms(1) by simp
  then show ?thesis using assms(2) by simp
qed

lemma mark_range_fuel:
  assumes "1 \<le> step" "stop < u64_max" "stop < length field" "stop < v + fuel" "i < length field"
  shows "mark_range fuel field v stop step ! i \<longleftrightarrow>
    field ! i \<or> (v \<le> i \<and> i \<le> stop \<and> step dvd (i - v))"
  using assms
proof (induction fuel arbitrary: field v)
  case (Suc fuel)
  show ?case
  proof (cases "v \<le> stop")
    case True
    let ?v' = "sat_add64 v step"
    have v': "v < ?v'" using True Suc.prems(1,2) by (simp add: sat_add64_def)
    have IH: "mark_range fuel (field[v := True]) ?v' stop step ! i \<longleftrightarrow>
        field[v := True] ! i \<or> (?v' \<le> i \<and> i \<le> stop \<and> step dvd (i - ?v'))"
      using Suc.prems v' by (intro Suc.IH) auto
    have "(?v' \<le> i \<and> i \<le> stop \<and> step dvd (i - ?v')) \<longleftrightarrow> (v < i \<and> i \<le> stop \<and> step dvd (i - v))"
    proof (cases "v + step \<le> u64_max")
      case True
      then have "?v' = v + step" by (simp add: sat_add64_def)
      then show ?thesis
        using progression_step [OF Suc.prems(1), of v i] progression_unstep [of v step i] Suc.prems(1) by auto
    next
      case False
      then have "?v' = u64_max" by (simp add: sat_add64_def)
      then show ?thesis
        using progression_step [OF Suc.prems(1), of v i] Suc.prems(2) False by auto
    qed
    then have "mark_range (Suc fuel) field v stop step ! i \<longleftrightarrow>
        field[v := True] ! i \<or> (v < i \<and> i \<le> stop \<and> step dvd (i - v))"
      using IH True v' by (simp add: Let_def)
    then show ?thesis using True Suc.prems(5) by (cases "i = v") auto
  qed auto
qed auto

text \<open>The values an item of a field denotes: an arithmetic progression within its range.\<close>

definition item_values :: "nat \<Rightarrow> nat \<Rightarrow> bool \<Rightarrow> string \<Rightarrow> nat set" where
  "item_values minv maxv al item = (case item_step item of
     Inr (rr, step) \<Rightarrow> (case item_range rr minv maxv al of
         Inr (start, stop) \<Rightarrow> {v. start \<le> v \<and> v \<le> stop \<and> step dvd (v - start)}
       | Inl _ \<Rightarrow> {})
   | Inl _ \<Rightarrow> {})"

lemma mark_item_nth:
  assumes "mark_item minv maxv al item field = Inr field'" "minv \<le> maxv" "maxv < u64_max"
    and "length field = maxv + 1"
  shows "length field' = maxv + 1 \<and>
    (\<forall>i\<le>maxv. field' ! i \<longleftrightarrow> field ! i \<or> i \<in> item_values minv maxv al item)"
proof -
  obtain rr step start stop where h: "item_step item = Inr (rr, step)"
      "item_range rr minv maxv al = Inr (start, stop)"
      "field' = mark_range (Suc stop) field start stop step"
    using assms(1) by (auto simp: mark_item_def split: prod.splits)
  note b = item_range_bounds [OF h(2) assms(2)]
  have "field' ! i \<longleftrightarrow> field ! i \<or> (start \<le> i \<and> i \<le> stop \<and> step dvd (i - start))" if "i \<le> maxv" for i
    unfolding h(3) using b assms(3,4) that item_step_pos [OF h(1)] by (intro mark_range_fuel) auto
  then show ?thesis using assms(4) h(1,2) by (simp add: item_values_def h(3) del: mark_range.simps)
qed

lemma mark_items_nth:
  assumes "mark_items minv maxv al items field = Inr field'" "minv \<le> maxv" "maxv < u64_max"
    and "length field = maxv + 1"
  shows "length field' = maxv + 1 \<and>
    (\<forall>i\<le>maxv. field' ! i \<longleftrightarrow> field ! i \<or> (\<exists>item\<in>set items. i \<in> item_values minv maxv al item))"
  using assms
proof (induction items arbitrary: field)
  case (Cons item items)
  then obtain f1 where f1: "mark_item minv maxv al item field = Inr f1"
      "mark_items minv maxv al items f1 = Inr field'" by auto
  note m = mark_item_nth [OF f1(1) Cons.prems(2-4)]
  then show ?case using Cons.IH [OF f1(2) Cons.prems(2,3)] by auto
qed simp

lemma item_values_bounds: "minv \<le> maxv \<Longrightarrow> item_values minv maxv al item \<subseteq> {minv..maxv}"
  by (auto simp: item_values_def dest: item_range_bounds split: sum.splits prod.splits)

text \<open>
  A parsed field is the set its text denotes: the vector has one bit for each value up to the
  maximum, and a bit is set exactly when some comma-separated item denotes it, a value, a range
  or a star, thinned out by the step; no bit outside the field's bounds is set.
\<close>

theorem parse_field_denotes:
  assumes "parse_field raw minv maxv al = Inr field" "minv \<le> maxv" "maxv < u64_max"
  shows "length field = maxv + 1 \<and>
    (\<forall>v\<le>maxv. field ! v \<longleftrightarrow> (\<exists>item\<in>set (split_char CHR '','' raw). v \<in> item_values minv maxv al item)) \<and>
    (\<forall>v\<le>maxv. field ! v \<longrightarrow> minv \<le> v)"
proof -
  have "mark_items minv maxv al (split_char CHR '','' raw) (replicate (maxv + 1) False) = Inr field"
    using assms(1) by (auto simp: parse_field_def split: if_splits)
  note m = mark_items_nth [OF this assms(2,3)]
  then have len: "length field = maxv + 1"
      and bits: "\<And>v. v \<le> maxv \<Longrightarrow> field ! v \<longleftrightarrow>
        (\<exists>item\<in>set (split_char CHR '','' raw). v \<in> item_values minv maxv al item)"
    by (auto simp: nth_replicate simp del: replicate.simps)
  have "minv \<le> v" if "v \<le> maxv" "field ! v" for v
    using bits [OF that(1)] that(2) item_values_bounds [OF assms(2), of al] by fastforce
  then show ?thesis using len bits by blast
qed

subsection \<open>Indexing and searching\<close>

lemma parse_field_length:
  "parse_field raw minv maxv al = Inr field \<Longrightarrow> minv \<le> maxv \<Longrightarrow> maxv < u64_max \<Longrightarrow> length field = maxv + 1"
  using mark_items_nth [of minv maxv al "split_char CHR '','' raw" "replicate (maxv + 1) False" field]
  by (auto simp: parse_field_def simp del: replicate.simps split: if_splits)

lemma cron_parse_lengths:
  assumes "cron_parse raw = Inr c"
  shows "length (cs_minutes c) = 60" "length (cs_hours c) = 24" "length (cs_month_days c) = 32"
    "length (cs_months c) = 13" "length (cs_week_days c) = 8"
proof -
  have big: "59 < u64_max" by (simp add: u64_max_def)
  obtain p0 p1 p2 p3 p4 where f: "parse_field p0 0 59 False = Inr (cs_minutes c)"
      "parse_field p1 0 23 False = Inr (cs_hours c)" "parse_field p2 1 31 False = Inr (cs_month_days c)"
      "parse_field p3 1 12 False = Inr (cs_months c)" "parse_field p4 0 7 True = Inr (cs_week_days c)"
    using assms by (auto simp: cron_parse_def split: list.splits)
  show "length (cs_minutes c) = 60" "length (cs_hours c) = 24" "length (cs_month_days c) = 32"
    "length (cs_months c) = 13" "length (cs_week_days c) = 8"
    using f [THEN parse_field_length] big by simp_all
qed

text \<open>
  Matching never indexes out of bounds: for a schedule that was parsed and any civil time
  within the calendar's documented ranges, each of the five vectors is long enough for the
  value it is indexed with, so \<open>matches\<close> cannot panic.
\<close>

theorem cron_index_in_bounds:
  assumes "cron_parse raw = Inr c" "calendar_ok cal" "cal ms = Some ct"
  shows "cv_minute ct < length (cs_minutes c) \<and> cv_hour ct < length (cs_hours c) \<and>
    cv_day ct < length (cs_month_days c) \<and> cv_month ct < length (cs_months c) \<and>
    cv_weekday ct < length (cs_week_days c)"
proof -
  have "cv_minute ct < 60 \<and> cv_hour ct < 24 \<and> 1 \<le> cv_day ct \<and> cv_day ct \<le> 31 \<and>
      1 \<le> cv_month ct \<and> cv_month ct \<le> 12 \<and> cv_weekday ct < 7"
    using assms(2,3) unfolding calendar_ok_def by blast
  then show ?thesis using cron_parse_lengths [OF assms(1)] by simp
qed

text \<open>The slot found is the k-th minute: it matches, and the ones before it do not.\<close>

definition first_match :: "calendar \<Rightarrow> cron_schedule \<Rightarrow> nat \<Rightarrow> nat \<Rightarrow> nat \<Rightarrow> bool" where
  "first_match cal c start k s \<longleftrightarrow> s = start + k * MINUTE_MS \<and> cron_matches cal c s = Inr True \<and>
     (\<forall>j<k. cron_matches cal c (start + j * MINUTE_MS) = Inr False)"

lemma first_match_Suc:
  assumes "cron_matches cal c start = Inr False"
  shows "first_match cal c start (Suc k) s \<longleftrightarrow> first_match cal c (start + MINUTE_MS) k s"
proof -
  have "(\<forall>j<Suc k. cron_matches cal c (start + j * MINUTE_MS) = Inr False) \<longleftrightarrow>
      (\<forall>j<k. cron_matches cal c (start + Suc j * MINUTE_MS) = Inr False)"
    using assms by (simp add: All_less_Suc2)
  then show ?thesis by (simp add: first_match_def add.assoc)
qed

lemma first_match_0: "first_match cal c start 0 s \<longleftrightarrow> s = start \<and> cron_matches cal c start = Inr True"
  by (auto simp: first_match_def)

lemma first_match_hit: "cron_matches cal c start \<noteq> Inr False \<Longrightarrow> \<not> first_match cal c start (Suc k) s"
  by (auto simp: first_match_def intro!: exI [of _ 0])

lemma ex_less_Suc_first: "(\<exists>k<Suc n. P k) \<longleftrightarrow> P 0 \<or> (\<exists>k<n. P (Suc k))"
  using Ex_less_Suc2 by blast

lemma cron_scan_iff:
  assumes "candidate + n * MINUTE_MS \<le> u128_max"
  shows "cron_scan cal c n candidate = Inr s \<longleftrightarrow> (\<exists>k<n. first_match cal c candidate k s)"
  using assms
proof (induction n arbitrary: candidate)
  case (Suc n)
  have step: "sat_add128 candidate MINUTE_MS = candidate + MINUTE_MS"
    using Suc.prems by (simp add: sat_add128_def)
  have IH: "cron_scan cal c n (candidate + MINUTE_MS) = Inr s \<longleftrightarrow>
      (\<exists>k<n. first_match cal c (candidate + MINUTE_MS) k s)"
    using Suc.prems by (intro Suc.IH) simp
  consider e where "cron_matches cal c candidate = Inl e" | "cron_matches cal c candidate = Inr True"
    | "cron_matches cal c candidate = Inr False"
    by (cases "cron_matches cal c candidate") auto
  then show ?case
  proof cases
    case 3
    then show ?thesis unfolding ex_less_Suc_first first_match_Suc [OF 3] first_match_0
      by (simp add: step IH)
  qed (auto simp: ex_less_Suc_first first_match_0 first_match_hit)
qed simp

text \<open>
  \<^bold>\<open>C10.\<close> The search for a slot is exact: it returns a slot if and only if that is the first minute
  at or after the start, within the scan window of 1,051,200 minutes, that matches, with valid
  timestamps up to it. The start must leave room for the window below \<open>u128::MAX\<close>, where the
  additions would saturate.
\<close>

theorem first_slot_is_earliest_match:
  assumes "start + MAX_CRON_SCAN_MINUTES * MINUTE_MS \<le> u128_max"
  shows "first_slot_at_or_after cal c start = Inr s \<longleftrightarrow>
    (\<exists>k<MAX_CRON_SCAN_MINUTES. s = start + k * MINUTE_MS \<and> cron_matches cal c s = Inr True \<and>
       (\<forall>j<k. cron_matches cal c (start + j * MINUTE_MS) = Inr False))"
  using cron_scan_iff [OF assms] by (simp add: first_slot_at_or_after_def first_match_def)

lemma next_slot_later:
  assumes "next_slot_after cal c slot = Inr s" "slot + Suc MAX_CRON_SCAN_MINUTES * MINUTE_MS \<le> u128_max"
  shows "slot < s"
proof -
  have "sat_add128 slot MINUTE_MS = slot + MINUTE_MS" using assms(2) by (simp add: sat_add128_def)
  then have "cron_scan cal c MAX_CRON_SCAN_MINUTES (slot + MINUTE_MS) = Inr s"
    using assms(1) by (simp add: next_slot_after_def first_slot_at_or_after_def)
  then show ?thesis using cron_scan_iff [of "slot + MINUTE_MS" MAX_CRON_SCAN_MINUTES cal c s] assms(2)
    by (auto simp: first_match_def MINUTE_MS_def)
qed

subsection \<open>Sunday as seven\<close>

text \<open>
  The alias is applied before the range is checked, so a range that ends in Sunday written as 7
  is rejected, and \<^verbatim>\<open>0-7\<close> is Sunday alone.
\<close>

lemmas cron_eval = parse_field_def mark_item_def item_step_def item_range_def parse_value_def
  parse_usize_def parse_unsigned_def u64_max_def sat_add64_def str_eval Let_def

lemma sunday_range:
  "parse_field ''5-7'' 0 7 True = Inl (InvalidInput (''invalid cron range '' @ quote1 ''5-7''))"
  "parse_field ''0-7'' 0 7 True = Inr [True, False, False, False, False, False, False, False]"
proof -
  have eight: "replicate 8 False = [False, False, False, False, False, False, False, False]"
    by (simp add: numeral_eq_Suc)
  show "parse_field ''5-7'' 0 7 True = Inl (InvalidInput (''invalid cron range '' @ quote1 ''5-7''))"
    "parse_field ''0-7'' 0 7 True = Inr [True, False, False, False, False, False, False, False]"
    by (simp_all add: cron_eval eight)
qed

subsection \<open>The theorems at concrete schedules\<close>

text \<open>A calendar with months of 28 days that are all January, enough to run the matching.\<close>

definition demo_calendar :: calendar where
  "demo_calendar ms = Some \<lparr>cv_minute = ms div 60000 mod 60, cv_hour = ms div 3600000 mod 24,
     cv_day = ms div 86400000 mod 28 + 1, cv_month = 1, cv_weekday = ms div 86400000 mod 7\<rparr>"

lemma demo_calendar_ok: "calendar_ok demo_calendar"
  by (auto simp: calendar_ok_def demo_calendar_def)

definition demo_cron :: cron_schedule where
  "demo_cron = \<lparr>cs_raw = ''0 0 1 1 0'', cs_minutes = (replicate 60 False)[0 := True],
     cs_hours = (replicate 24 False)[0 := True], cs_month_days = (replicate 32 False)[1 := True],
     cs_months = (replicate 13 False)[1 := True], cs_week_days = (replicate 8 False)[0 := True],
     cs_month_days_wild = False, cs_week_days_wild = False\<rparr>"

lemma demo_cron_parse: "cron_parse ''0 0 1 1 0'' = Inr demo_cron"
  by (simp add: cron_parse_def demo_cron_def cron_eval)

theorem parse_field_denotes_witness:
  "\<exists>field. parse_field ''0,1'' 0 7 True = Inr field \<and> length field = 8 \<and>
     field ! 1 \<and> (1 \<in> item_values 0 7 True ''0'' \<or> 1 \<in> item_values 0 7 True ''1'')"
proof -
  have p: "parse_field ''0,1'' 0 7 True = Inr ((replicate 8 False)[0 := True, 1 := True])"
    by (simp add: cron_eval)
  note d = parse_field_denotes [OF p]
  have "((replicate 8 False)[0 := True, 1 := True]) ! 1 \<longleftrightarrow>
      (\<exists>item\<in>set (split_char CHR '','' ''0,1''). 1 \<in> item_values 0 7 True item)"
    using d by (auto simp: u64_max_def simp del: split_char.simps dest!: spec [of _ 1])
  then show ?thesis using p by simp
qed

theorem cron_index_in_bounds_witness:
  "cron_parse ''0 0 1 1 0'' = Inr demo_cron \<and> (\<exists>ct. demo_calendar 86400000 = Some ct \<and>
     cv_minute ct < length (cs_minutes demo_cron) \<and> cv_day ct < length (cs_month_days demo_cron))"
proof -
  obtain ct where ct: "demo_calendar 86400000 = Some ct" by (simp add: demo_calendar_def)
  show ?thesis using cron_index_in_bounds [OF demo_cron_parse demo_calendar_ok ct] ct demo_cron_parse by blast
qed

theorem first_slot_is_earliest_match_witness: "first_slot_at_or_after demo_calendar demo_cron 0 = Inr 0"
proof -
  have room: "0 + MAX_CRON_SCAN_MINUTES * MINUTE_MS \<le> u128_max"
    by (simp add: MAX_CRON_SCAN_MINUTES_def MINUTE_MS_def u128_max_def)
  have "cron_matches demo_calendar demo_cron 0 = Inr True"
    by (simp add: cron_matches_def demo_calendar_def civil_matches_def demo_cron_def)
  then show ?thesis
    unfolding first_slot_is_earliest_match [OF room]
    by (intro exI [of _ 0]) (simp add: MAX_CRON_SCAN_MINUTES_def)
qed

end
