(* ===== verification/Scheduler_Store.thy ===== *)
theory Scheduler_Store
  imports Cron Core_Types "HOL-Library.Product_Lexorder" "HOL-Library.Multiset"
begin

section \<open>The scheduler store (kelvin-sdk/src/scheduler/mod.rs, store.rs, persistence.rs)\<close>

text \<open>
  Schedules, claimed slots and an audit log are kept in one JSON file. Every operation loads the
  file, changes the state and writes it back. The file is modelled by its decoded contents
  (serde's round trip is what the code relies on), missing or corrupt included; the outcome of
  reading, of the quarantine rename and of the atomic write are the argument \<open>io\<close>.
  \<open>with_state_mut\<close> holds the lock for loading and changing only; the write comes after it, and
  the two halves of an operation are separate definitions where that matters
  (\<open>claim_prepare\<close> and \<open>claim_commit\<close>).
\<close>

subsection \<open>Data\<close>

record schedule_reply_target =
  rt_channel :: string
  rt_account_id :: string

record scheduled_task =
  st_id :: string
  st_cron :: string
  st_prompt :: string
  st_session_id :: "string option"
  st_workspace_dir :: "string option"
  st_timeout_ms :: "nat option"
  st_system_prompt :: "string option"
  st_memory_query :: "string option"
  st_reply_target :: "schedule_reply_target option"
  st_created_by_session :: string
  st_created_at_ms :: nat
  st_approval_reason :: string
  st_next_slot_at_ms :: nat

record new_scheduled_task =
  nt_id :: string
  nt_cron :: string
  nt_prompt :: string
  nt_session_id :: "string option"
  nt_workspace_dir :: "string option"
  nt_timeout_ms :: "nat option"
  nt_system_prompt :: "string option"
  nt_memory_query :: "string option"
  nt_reply_target :: "schedule_reply_target option"
  nt_created_by_session :: string
  nt_created_at_ms :: nat
  nt_approval_reason :: string

datatype slot_phase = SlotClaimed | SlotSubmitFailed | SlotSubmitted | SlotCompleted | SlotFailed | SlotTimeout

record reply_delivery =
  rd_delivered :: bool
  rd_attempted_at_ms :: nat
  rd_error :: "string option"

record slot_record =
  sl_schedule_id :: string
  sl_slot_at_ms :: nat
  sl_claimed_at_ms :: nat
  sl_phase :: slot_phase
  sl_run_id :: "string option"
  sl_finished_at_ms :: "nat option"
  sl_error :: "string option"
  sl_response_preview :: "string option"
  sl_reply :: "reply_delivery option"

record audit_entry =
  au_ts_ms :: nat
  au_kind :: string
  au_schedule_id :: "string option"
  au_slot_at_ms :: "nat option"
  au_run_id :: "string option"
  au_actor_session_id :: "string option"
  au_message :: string
  au_detail :: json

record claimed_slot =
  cl_schedule :: scheduled_task
  cl_slot_at_ms :: nat

record scheduler_state =
  schedules :: "scheduled_task list"
  slots :: "slot_record list"
  audit :: "audit_entry list"

record scheduler_status =
  ss_schedule_count :: nat
  ss_slot_count :: nat
  ss_audit_count :: nat
  ss_due_now_count :: nat
  ss_next_slot_at_ms :: "nat option"

datatype scheduler_file = FileMissing | FileCorrupt | FileState scheduler_state

record io_outcome =
  io_read :: "unit kelvin_result"
  io_quarantine :: bool
  io_write :: "unit kelvin_result"

type_synonym 'a store_op = "(scheduler_file, 'a) eff"

subsection \<open>Helpers and validation (mod.rs)\<close>

definition minute_slot :: "nat \<Rightarrow> nat" where
  "minute_slot ts = ts div MINUTE_MS * MINUTE_MS"

definition trim_option :: "string option \<Rightarrow> string option" where
  "trim_option v = (case v of None \<Rightarrow> None | Some s \<Rightarrow> if trim s = [] then None else Some (trim s))"

definition truncate_chars :: "string \<Rightarrow> nat \<Rightarrow> string" where
  "truncate_chars v max_len = (if length v \<le> max_len then v else take max_len v)"

definition sched_validate_identifier :: "string \<Rightarrow> string \<Rightarrow> nat \<Rightarrow> unit kelvin_result" where
  "sched_validate_identifier label v max_len = (let trimmed = trim v in
     if trimmed = [] then Inl (InvalidInput (label @ '' must not be empty''))
     else if utf8_len trimmed > max_len then
       Inl (InvalidInput (label @ '' exceeds '' @ show_nat max_len @ '' bytes''))
     else if list_ex is_control trimmed then
       Inl (InvalidInput (label @ '' must not contain control characters''))
     else Inr ())"

definition normalize_reply_target :: "schedule_reply_target \<Rightarrow> schedule_reply_target kelvin_result" where
  "normalize_reply_target t =
     (let channel = to_ascii_lowercase (trim (rt_channel t)); account = trim (rt_account_id t) in
      if channel \<notin> {''telegram'', ''slack'', ''discord''} then
        Inl (InvalidInput (''reply_target.channel must be one of telegram, slack, discord (got '' @
          quote1 (rt_channel t) @ '')''))
      else if account = [] then Inl (InvalidInput ''reply_target.account_id must not be empty'')
      else if list_ex is_control account then
        Inl (InvalidInput ''reply_target.account_id must not contain control characters'')
      else Inr \<lparr>rt_channel = channel, rt_account_id = account\<rparr>)"

definition require_text :: "string \<Rightarrow> string \<Rightarrow> string kelvin_result" where
  "require_text message v = (if trim v = [] then Inl (InvalidInput message) else Inr (trim v))"

definition into_task :: "calendar \<Rightarrow> nat \<Rightarrow> new_scheduled_task \<Rightarrow> scheduled_task kelvin_result" where
  "into_task cal now n =
     bindR (sched_validate_identifier ''schedule id'' (nt_id n) 128) (\<lambda>_.
     bindR (require_text ''schedule prompt must not be empty'' (nt_prompt n)) (\<lambda>prompt.
     bindR (require_text ''schedule approval reason must not be empty'' (nt_approval_reason n)) (\<lambda>reason.
     bindR (require_text ''schedule created_by_session must not be empty'' (nt_created_by_session n)) (\<lambda>creator.
     bindR (cron_parse (nt_cron n)) (\<lambda>cron.
     let created = (if nt_created_at_ms n = 0 then now else nt_created_at_ms n) in
     bindR (case nt_reply_target n of None \<Rightarrow> Inr None
            | Some t \<Rightarrow> bindR (normalize_reply_target t) (\<lambda>t'. Inr (Some t'))) (\<lambda>target.
     bindR (first_slot_at_or_after cal cron (minute_slot created)) (\<lambda>slot.
     Inr \<lparr>st_id = nt_id n, st_cron = cs_raw cron, st_prompt = prompt,
          st_session_id = trim_option (nt_session_id n), st_workspace_dir = trim_option (nt_workspace_dir n),
          st_timeout_ms = nt_timeout_ms n, st_system_prompt = trim_option (nt_system_prompt n),
          st_memory_query = trim_option (nt_memory_query n), st_reply_target = target,
          st_created_by_session = creator, st_created_at_ms = created,
          st_approval_reason = reason, st_next_slot_at_ms = slot\<rparr>)))))))"

subsection \<open>Persistence (persistence.rs)\<close>

definition MAX_SLOT_ENTRIES :: nat where "MAX_SLOT_ENTRIES = 4096"
definition MAX_AUDIT_ENTRIES :: nat where "MAX_AUDIT_ENTRIES = 4096"

definition empty_state :: scheduler_state where
  "empty_state = \<lparr>schedules = [], slots = [], audit = []\<rparr>"

definition load_state :: "io_outcome \<Rightarrow> scheduler_state store_op" where
  "load_state io = (\<lambda>f. case f of
     FileMissing \<Rightarrow> (Inr empty_state, f)
   | _ \<Rightarrow> (case io_read io of
       Inl e \<Rightarrow> (Inl e, f)
     | Inr _ \<Rightarrow> (case f of
         FileState st \<Rightarrow> (Inr st, f)
       | _ \<Rightarrow> (Inr empty_state, if io_quarantine io then FileMissing else f))))"

definition slot_key :: "slot_record \<Rightarrow> string \<times> nat" where
  "slot_key r = (sl_schedule_id r, sl_slot_at_ms r)"

text \<open>What is written: the lists sorted, the oldest entries dropped beyond the limits.\<close>

definition persisted :: "scheduler_state \<Rightarrow> scheduler_state" where
  "persisted st =
     (let sl = sort_key slot_key (slots st); au = sort_key au_ts_ms (audit st) in
      \<lparr>schedules = sort_key st_id (schedules st),
       slots = drop (length sl - MAX_SLOT_ENTRIES) sl,
       audit = drop (length au - MAX_AUDIT_ENTRIES) au\<rparr>)"

definition save_state :: "io_outcome \<Rightarrow> scheduler_state \<Rightarrow> unit store_op" where
  "save_state io st = (\<lambda>f. case io_write io of
     Inl e \<Rightarrow> (Inl e, f) | Inr _ \<Rightarrow> (Inr (), FileState (persisted st)))"

definition json_get_str :: "string \<Rightarrow> json \<Rightarrow> string option" where
  "json_get_str k j = (case j of JObj kvs \<Rightarrow> (case map_of kvs k of Some (JStr s) \<Rightarrow> Some s | _ \<Rightarrow> None)
     | _ \<Rightarrow> None)"

definition or_default :: "string option \<Rightarrow> string \<Rightarrow> string" where
  "or_default v d = (case v of Some s \<Rightarrow> s | None \<Rightarrow> d)"

definition legacy_audit :: "nat \<Rightarrow> scheduled_task \<Rightarrow> audit_entry" where
  "legacy_audit now t = \<lparr>au_ts_ms = now, au_kind = ''legacy_migrated'', au_schedule_id = Some (st_id t),
     au_slot_at_ms = None, au_run_id = None, au_actor_session_id = Some (st_created_by_session t),
     au_message = ''migrated legacy schedule '' @ quote1 (st_id t), au_detail = JObj []\<rparr>"

fun migrate_items :: "calendar \<Rightarrow> nat \<Rightarrow> string \<Rightarrow> json list \<Rightarrow> scheduler_state \<Rightarrow> scheduler_state kelvin_result" where
  "migrate_items cal now wsdir [] st = Inr st"
| "migrate_items cal now wsdir (item # items) st =
     (let tid = or_default (json_get_str ''id'' item) []; cron = or_default (json_get_str ''cron'' item) [];
          prompt = or_default (json_get_str ''task'' item) [];
          reason = or_default (json_get_str ''approval_reason'' item) [] in
      if tid = [] \<or> cron = [] \<or> prompt = [] \<or> reason = [] then migrate_items cal now wsdir items st
      else bindR (into_task cal now \<lparr>nt_id = tid, nt_cron = cron, nt_prompt = prompt, nt_session_id = None,
             nt_workspace_dir = Some wsdir, nt_timeout_ms = None, nt_system_prompt = None,
             nt_memory_query = None, nt_reply_target = None,
             nt_created_by_session = or_default (json_get_str ''created_by_session'' item) ''legacy'',
             nt_created_at_ms = now, nt_approval_reason = reason\<rparr>) (\<lambda>t.
           migrate_items cal now wsdir items (st\<lparr>schedules := schedules st @ [t],
             audit := audit st @ [legacy_audit now t]\<rparr>)))"

text \<open>\<open>legacy\<close> is the decoded legacy file, \<open>None\<close> when there is none.\<close>

definition migrate_legacy_if_needed ::
    "io_outcome \<Rightarrow> calendar \<Rightarrow> nat \<Rightarrow> string \<Rightarrow> json list kelvin_result option \<Rightarrow> unit store_op" where
  "migrate_legacy_if_needed io cal now wsdir legacy = (\<lambda>f.
     if f \<noteq> FileMissing then (Inr (), f)
     else case legacy of None \<Rightarrow> (Inr (), f)
       | Some items \<Rightarrow> bindE (liftE (bindR items (\<lambda>is. migrate_items cal now wsdir is empty_state)))
           (save_state io) f)"

subsection \<open>The store's operations (store.rs)\<close>

definition with_state :: "io_outcome \<Rightarrow> (scheduler_state \<Rightarrow> 'a) \<Rightarrow> 'a store_op" where
  "with_state io reader = bindE (load_state io) (\<lambda>st. okE (reader st))"

definition with_state_mut ::
    "io_outcome \<Rightarrow> (scheduler_state \<Rightarrow> (scheduler_state \<times> 'a) kelvin_result) \<Rightarrow>
     (scheduler_state \<times> 'a) store_op" where
  "with_state_mut io writer = bindE (load_state io) (\<lambda>st. liftE (writer st))"

definition added_audit :: "nat \<Rightarrow> scheduled_task \<Rightarrow> audit_entry" where
  "added_audit now t = \<lparr>au_ts_ms = now, au_kind = ''schedule_added'', au_schedule_id = Some (st_id t),
     au_slot_at_ms = None, au_run_id = None, au_actor_session_id = Some (st_created_by_session t),
     au_message = ''schedule '' @ quote1 (st_id t) @ '' added'',
     au_detail = JObj [(''cron'', JStr (st_cron t)), (''next_slot_at_ms'', JNum (show_nat (st_next_slot_at_ms t))),
       (''has_reply_target'', JBool (st_reply_target t \<noteq> None))]\<rparr>"

definition add_schedule :: "io_outcome \<Rightarrow> calendar \<Rightarrow> nat \<Rightarrow> new_scheduled_task \<Rightarrow> scheduled_task store_op" where
  "add_schedule io cal now n =
     bindE (liftE (into_task cal now n)) (\<lambda>t.
     bindE (with_state_mut io (\<lambda>st.
       if st_id t \<in> st_id ` set (schedules st) then
         Inl (InvalidInput (''schedule id already exists: '' @ st_id t))
       else Inr (st\<lparr>schedules := schedules st @ [t], audit := audit st @ [added_audit now t]\<rparr>, ()))) (\<lambda>(st, _).
     seqE (save_state io st) (okE t)))"

definition removed_audit :: "nat \<Rightarrow> string \<Rightarrow> string \<Rightarrow> string \<Rightarrow> audit_entry" where
  "removed_audit now tid actor reason = \<lparr>au_ts_ms = now, au_kind = ''schedule_removed'',
     au_schedule_id = Some tid, au_slot_at_ms = None, au_run_id = None, au_actor_session_id = Some actor,
     au_message = ''schedule '' @ quote1 tid @ '' removed'',
     au_detail = JObj [(''approval_reason'', JStr reason)]\<rparr>"

definition remove_schedule :: "io_outcome \<Rightarrow> nat \<Rightarrow> string \<Rightarrow> string \<Rightarrow> string \<Rightarrow> bool store_op" where
  "remove_schedule io now tid actor reason =
     bindE (with_state_mut io (\<lambda>st.
       let kept = filter (\<lambda>t. st_id t \<noteq> tid) (schedules st);
           removed = (length kept \<noteq> length (schedules st)) in
       Inr (st\<lparr>schedules := kept, audit := (if removed then audit st @ [removed_audit now tid actor reason]
              else audit st)\<rparr>, removed))) (\<lambda>(st, removed).
     if removed then seqE (save_state io st) (okE True) else okE False)"

definition list_schedules :: "io_outcome \<Rightarrow> scheduled_task list store_op" where
  "list_schedules io = with_state io schedules"

text \<open>\<open>sort_by_key\<close> with \<open>Reverse\<close>: a stable sort by decreasing key.\<close>

definition recent_slots :: "io_outcome \<Rightarrow> string option \<Rightarrow> nat \<Rightarrow> slot_record list store_op" where
  "recent_slots io sid limit = with_state io (\<lambda>st.
     let sl = (case sid of None \<Rightarrow> slots st | Some i \<Rightarrow> filter (\<lambda>r. sl_schedule_id r = i) (slots st)) in
     take (max limit 1) (sort_key (\<lambda>r. - int (sl_slot_at_ms r)) sl))"

definition recent_audit :: "io_outcome \<Rightarrow> string option \<Rightarrow> nat \<Rightarrow> audit_entry list store_op" where
  "recent_audit io sid limit = with_state io (\<lambda>st.
     let au = (case sid of None \<Rightarrow> audit st | Some i \<Rightarrow> filter (\<lambda>e. au_schedule_id e = Some i) (audit st)) in
     take (max limit 1) (sort_key (\<lambda>e. - int (au_ts_ms e)) au))"

definition scheduler_status_of :: "io_outcome \<Rightarrow> nat \<Rightarrow> scheduler_status store_op" where
  "scheduler_status_of io now = with_state io (\<lambda>st.
     \<lparr>ss_schedule_count = length (schedules st), ss_slot_count = length (slots st),
      ss_audit_count = length (audit st),
      ss_due_now_count = length (filter (\<lambda>t. st_next_slot_at_ms t \<le> minute_slot now) (schedules st)),
      ss_next_slot_at_ms = (if schedules st = [] then None
        else Some (Min (st_next_slot_at_ms ` set (schedules st))))\<rparr>)"

definition claimed_record :: "nat \<Rightarrow> scheduled_task \<Rightarrow> slot_record" where
  "claimed_record now t = \<lparr>sl_schedule_id = st_id t, sl_slot_at_ms = st_next_slot_at_ms t,
     sl_claimed_at_ms = now, sl_phase = SlotClaimed, sl_run_id = None, sl_finished_at_ms = None,
     sl_error = None, sl_response_preview = None, sl_reply = None\<rparr>"

definition claimed_audit :: "nat \<Rightarrow> scheduled_task \<Rightarrow> audit_entry" where
  "claimed_audit now t = \<lparr>au_ts_ms = now, au_kind = ''slot_claimed'', au_schedule_id = Some (st_id t),
     au_slot_at_ms = Some (st_next_slot_at_ms t), au_run_id = None, au_actor_session_id = None,
     au_message = ''claimed schedule slot '' @ quote1 (st_id t) @ '' at '' @ show_nat (st_next_slot_at_ms t),
     au_detail = JObj []\<rparr>"

record claim_acc =
  ca_slots :: "slot_record list"
  ca_audit :: "audit_entry list"
  ca_claimed :: "claimed_slot list"

fun claim_schedule ::
    "calendar \<Rightarrow> nat \<Rightarrow> nat \<Rightarrow> cron_schedule \<Rightarrow> nat \<Rightarrow> scheduled_task \<Rightarrow> claim_acc \<Rightarrow>
     (scheduled_task \<times> claim_acc) kelvin_result" where
  "claim_schedule cal now cutoff cron 0 t a = Inr (t, a)"
| "claim_schedule cal now cutoff cron (Suc n) t a =
     (if cutoff < st_next_slot_at_ms t then Inr (t, a)
      else if (st_id t, st_next_slot_at_ms t) \<in> slot_key ` set (ca_slots a) then
        bindR (next_slot_after cal cron (st_next_slot_at_ms t)) (\<lambda>nx.
        claim_schedule cal now cutoff cron n (t\<lparr>st_next_slot_at_ms := nx\<rparr>) a)
      else
        bindR (next_slot_after cal cron (st_next_slot_at_ms t)) (\<lambda>nx.
        claim_schedule cal now cutoff cron n (t\<lparr>st_next_slot_at_ms := nx\<rparr>)
          \<lparr>ca_slots = ca_slots a @ [claimed_record now t], ca_audit = ca_audit a @ [claimed_audit now t],
           ca_claimed = ca_claimed a @ [\<lparr>cl_schedule = t, cl_slot_at_ms = st_next_slot_at_ms t\<rparr>]\<rparr>))"

fun claim_all ::
    "calendar \<Rightarrow> nat \<Rightarrow> nat \<Rightarrow> nat \<Rightarrow> scheduled_task list \<Rightarrow> claim_acc \<Rightarrow>
     (scheduled_task list \<times> claim_acc) kelvin_result" where
  "claim_all cal now cutoff n [] a = Inr ([], a)"
| "claim_all cal now cutoff n (t # ts) a =
     bindR (cron_parse (st_cron t)) (\<lambda>cron.
     bindR (claim_schedule cal now cutoff cron n t a) (\<lambda>(t', a').
     bindR (claim_all cal now cutoff n ts a') (\<lambda>(ts', a'').
     Inr (t' # ts', a''))))"

definition claim_state :: "calendar \<Rightarrow> nat \<Rightarrow> nat \<Rightarrow> scheduler_state \<Rightarrow>
    (scheduler_state \<times> claimed_slot list) kelvin_result" where
  "claim_state cal now max_per_schedule st =
     bindR (claim_all cal now (minute_slot now) (max max_per_schedule 1) (schedules st)
         \<lparr>ca_slots = slots st, ca_audit = audit st, ca_claimed = []\<rparr>) (\<lambda>(ts, a).
     Inr (\<lparr>schedules = ts, slots = ca_slots a, audit = ca_audit a\<rparr>, ca_claimed a))"

definition claim_prepare :: "io_outcome \<Rightarrow> calendar \<Rightarrow> nat \<Rightarrow> nat \<Rightarrow>
    (scheduler_state \<times> claimed_slot list) store_op" where
  "claim_prepare io cal now max_per_schedule = with_state_mut io (claim_state cal now max_per_schedule)"

definition claim_commit :: "io_outcome \<Rightarrow> scheduler_state \<Rightarrow> claimed_slot list \<Rightarrow> claimed_slot list store_op" where
  "claim_commit io st claimed =
     (if claimed \<noteq> [] then seqE (save_state io st) (okE claimed) else okE claimed)"

definition claim_due_slots :: "io_outcome \<Rightarrow> calendar \<Rightarrow> nat \<Rightarrow> nat \<Rightarrow> claimed_slot list store_op" where
  "claim_due_slots io cal now max_per_schedule =
     bindE (claim_prepare io cal now max_per_schedule) (\<lambda>(st, claimed). claim_commit io st claimed)"

subsection \<open>Slot updates\<close>

fun update_first :: "('a \<Rightarrow> bool) \<Rightarrow> ('a \<Rightarrow> 'a) \<Rightarrow> 'a list \<Rightarrow> 'a list" where
  "update_first P g [] = []"
| "update_first P g (x # xs) = (if P x then g x # xs else x # update_first P g xs)"

text \<open>
  \<open>mutate\<close> gives the changed slot and the audit entry it pushes. The change is made under the lock
  (\<open>update_prepare\<close>), and what it leaves is written after the lock is released.
\<close>

definition update_prepare :: "io_outcome \<Rightarrow> string \<Rightarrow> nat \<Rightarrow> (slot_record \<Rightarrow> slot_record \<times> audit_entry) \<Rightarrow>
    scheduler_state store_op" where
  "update_prepare io sid slot_at mutate =
     bindE (with_state_mut io (\<lambda>st. case find (\<lambda>r. slot_key r = (sid, slot_at)) (slots st) of
         None \<Rightarrow> Inl (NotFound (''unknown schedule slot: '' @ sid @ ''@'' @ show_nat slot_at))
       | Some r \<Rightarrow> Inr (st\<lparr>slots := update_first (\<lambda>r. slot_key r = (sid, slot_at)) (\<lambda>r. fst (mutate r)) (slots st),
           audit := audit st @ [snd (mutate r)]\<rparr>, ()))) (\<lambda>(st, _). okE st)"

definition update_slot :: "io_outcome \<Rightarrow> string \<Rightarrow> nat \<Rightarrow> (slot_record \<Rightarrow> slot_record \<times> audit_entry) \<Rightarrow>
    unit store_op" where
  "update_slot io sid slot_at mutate = bindE (update_prepare io sid slot_at mutate) (save_state io)"

definition slot_audit :: "nat \<Rightarrow> string \<Rightarrow> string \<Rightarrow> nat \<Rightarrow> string option \<Rightarrow> string \<Rightarrow> json \<Rightarrow> audit_entry" where
  "slot_audit now kind sid slot_at run_id message detail = \<lparr>au_ts_ms = now, au_kind = kind,
     au_schedule_id = Some sid, au_slot_at_ms = Some slot_at, au_run_id = run_id,
     au_actor_session_id = None, au_message = message, au_detail = detail\<rparr>"

definition json_str_opt :: "string option \<Rightarrow> json" where
  "json_str_opt v = (case v of Some s \<Rightarrow> JStr s | None \<Rightarrow> JNull)"

definition submitted_change :: "nat \<Rightarrow> string \<Rightarrow> nat \<Rightarrow> string \<Rightarrow> slot_record \<Rightarrow> slot_record \<times> audit_entry" where
  "submitted_change now sid slot_at run_id = (\<lambda>r.
     (r\<lparr>sl_phase := SlotSubmitted, sl_run_id := Some run_id\<rparr>,
      slot_audit now ''slot_submitted'' sid slot_at (Some run_id)
        (''submitted run '' @ quote1 run_id @ '' for schedule '' @ quote1 sid) (JObj [])))"

definition mark_slot_submitted :: "io_outcome \<Rightarrow> nat \<Rightarrow> string \<Rightarrow> nat \<Rightarrow> string \<Rightarrow> unit store_op" where
  "mark_slot_submitted io now sid slot_at run_id =
     update_slot io sid slot_at (submitted_change now sid slot_at run_id)"

definition submit_failed_change :: "nat \<Rightarrow> string \<Rightarrow> nat \<Rightarrow> string \<Rightarrow> slot_record \<Rightarrow> slot_record \<times> audit_entry" where
  "submit_failed_change now sid slot_at err = (\<lambda>r.
     (r\<lparr>sl_phase := SlotSubmitFailed, sl_finished_at_ms := Some now,
        sl_error := Some (truncate_chars err 512)\<rparr>,
      slot_audit now ''slot_submit_failed'' sid slot_at None
        (''schedule '' @ quote1 sid @ '' submit failed'') (JObj [(''error'', JStr (truncate_chars err 512))])))"

definition mark_slot_submit_failed :: "io_outcome \<Rightarrow> nat \<Rightarrow> string \<Rightarrow> nat \<Rightarrow> string \<Rightarrow> unit store_op" where
  "mark_slot_submit_failed io now sid slot_at err =
     update_slot io sid slot_at (submit_failed_change now sid slot_at err)"

text \<open>The derived \<open>Debug\<close> text of a phase.\<close>

fun show_phase :: "slot_phase \<Rightarrow> string" where
  "show_phase SlotClaimed = ''Claimed''"
| "show_phase SlotSubmitFailed = ''SubmitFailed''"
| "show_phase SlotSubmitted = ''Submitted''"
| "show_phase SlotCompleted = ''Completed''"
| "show_phase SlotFailed = ''Failed''"
| "show_phase SlotTimeout = ''Timeout''"

definition outcome_change :: "nat \<Rightarrow> string \<Rightarrow> nat \<Rightarrow> slot_phase \<Rightarrow> string \<Rightarrow> string option \<Rightarrow> string option \<Rightarrow> slot_record \<Rightarrow> slot_record \<times> audit_entry" where
  "outcome_change now sid slot_at phase run_id response err = (\<lambda>r.
     let pv = map_option (\<lambda>v. truncate_chars v 512) response;
         er = map_option (\<lambda>v. truncate_chars v 512) err in
     (r\<lparr>sl_phase := phase, sl_run_id := Some run_id, sl_finished_at_ms := Some now,
        sl_response_preview := pv, sl_error := er\<rparr>,
      slot_audit now (to_ascii_lowercase (''slot_'' @ show_phase phase)) sid slot_at (Some run_id)
        (''schedule '' @ quote1 sid @ '' finished with '' @ show_phase phase)
        (JObj [(''response_preview'', json_str_opt pv), (''error'', json_str_opt er)])))"

definition mark_slot_outcome :: "io_outcome \<Rightarrow> nat \<Rightarrow> string \<Rightarrow> nat \<Rightarrow> slot_phase \<Rightarrow> string \<Rightarrow>
    string option \<Rightarrow> string option \<Rightarrow> unit store_op" where
  "mark_slot_outcome io now sid slot_at phase run_id response err =
     update_slot io sid slot_at (outcome_change now sid slot_at phase run_id response err)"

definition reply_change :: "nat \<Rightarrow> string \<Rightarrow> nat \<Rightarrow> bool \<Rightarrow> string option \<Rightarrow> slot_record \<Rightarrow> slot_record \<times> audit_entry" where
  "reply_change now sid slot_at delivered err = (\<lambda>r.
     let er = map_option (\<lambda>v. truncate_chars v 512) err in
     (r\<lparr>sl_reply := Some \<lparr>rd_delivered = delivered, rd_attempted_at_ms = now, rd_error = er\<rparr>\<rparr>,
      slot_audit now (if delivered then ''reply_delivered'' else ''reply_failed'') sid slot_at (sl_run_id r)
        (if delivered then ''delivered reply for schedule '' @ quote1 sid
         else ''reply delivery failed for schedule '' @ quote1 sid)
        (JObj [(''error'', json_str_opt er)])))"

definition mark_reply_result :: "io_outcome \<Rightarrow> nat \<Rightarrow> string \<Rightarrow> nat \<Rightarrow> bool \<Rightarrow> string option \<Rightarrow> unit store_op" where
  "mark_reply_result io now sid slot_at delivered err =
     update_slot io sid slot_at (reply_change now sid slot_at delivered err)"

subsection \<open>What claiming does\<close>

definition claim_key :: "claimed_slot \<Rightarrow> string \<times> nat" where
  "claim_key c = (st_id (cl_schedule c), cl_slot_at_ms c)"

text \<open>The clock leaves room for the scan window below \<open>u128::MAX\<close>.\<close>

definition clock_ok :: "nat \<Rightarrow> bool" where
  "clock_ok now \<longleftrightarrow> now + Suc MAX_CRON_SCAN_MINUTES * MINUTE_MS \<le> u128_max"

lemma minute_slot_le: "minute_slot now \<le> now"
  by (simp add: minute_slot_def)

text \<open>New claims of one schedule: between its old and its new next slot, due, and not recorded.\<close>

definition claims_of :: "scheduled_task \<Rightarrow> scheduled_task \<Rightarrow> nat \<Rightarrow> slot_record list \<Rightarrow> claimed_slot \<Rightarrow> bool" where
  "claims_of t t' cutoff recorded c \<longleftrightarrow> st_id (cl_schedule c) = st_id t \<and>
     st_next_slot_at_ms t \<le> cl_slot_at_ms c \<and> cl_slot_at_ms c < st_next_slot_at_ms t' \<and>
     cl_slot_at_ms c \<le> cutoff \<and> claim_key c \<notin> slot_key ` set recorded"

definition advanced :: "scheduled_task \<Rightarrow> scheduled_task \<Rightarrow> bool" where
  "advanced t t' \<longleftrightarrow> st_id t' = st_id t \<and> st_next_slot_at_ms t \<le> st_next_slot_at_ms t'"

definition claim_adds :: "claim_acc \<Rightarrow> claim_acc \<Rightarrow> claimed_slot list \<Rightarrow> bool" where
  "claim_adds a a' new \<longleftrightarrow> ca_claimed a' = ca_claimed a @ new \<and>
     map slot_key (ca_slots a') = map slot_key (ca_slots a) @ map claim_key new \<and>
     distinct (map claim_key new)"

lemma claim_schedule_spec:
  assumes "claim_schedule cal now cutoff cron n t a = Inr (t', a')"
    and "cutoff + Suc MAX_CRON_SCAN_MINUTES * MINUTE_MS \<le> u128_max"
  shows "\<exists>new. claim_adds a a' new \<and> advanced t t' \<and> (\<forall>c\<in>set new. claims_of t t' cutoff (ca_slots a) c)"
  using assms
proof (induction n arbitrary: t a)
  case 0
  then show ?case by (intro exI [of _ "[]"]) (simp add: claim_adds_def advanced_def)
next
  case (Suc n)
  let ?s = "st_next_slot_at_ms t"
  show ?case
  proof (cases "cutoff < ?s")
    case True
    then show ?thesis using Suc.prems
      by (intro exI [of _ "[]"]) (simp add: claim_adds_def advanced_def)
  next
    case due: False
    then obtain nx where nx: "next_slot_after cal cron ?s = Inr nx"
      using Suc.prems(1) by (auto split: if_splits)
    have later: "?s < nx" using next_slot_later [OF nx] due Suc.prems(2) by simp
    show ?thesis
    proof (cases "(st_id t, ?s) \<in> slot_key ` set (ca_slots a)")
      case True
      then have "claim_schedule cal now cutoff cron n (t\<lparr>st_next_slot_at_ms := nx\<rparr>) a = Inr (t', a')"
        using Suc.prems(1) due nx by simp
      from Suc.IH [OF this Suc.prems(2)] show ?thesis
        using later by (fastforce simp: advanced_def claims_of_def)
    next
      case False
      let ?c = "\<lparr>cl_schedule = t, cl_slot_at_ms = ?s\<rparr>"
      let ?a = "\<lparr>ca_slots = ca_slots a @ [claimed_record now t], ca_audit = ca_audit a @ [claimed_audit now t],
           ca_claimed = ca_claimed a @ [?c]\<rparr>"
      have "claim_schedule cal now cutoff cron n (t\<lparr>st_next_slot_at_ms := nx\<rparr>) ?a = Inr (t', a')"
        using Suc.prems(1) due nx False by simp
      from Suc.IH [OF this Suc.prems(2)] obtain new where new: "claim_adds ?a a' new"
          "advanced (t\<lparr>st_next_slot_at_ms := nx\<rparr>) t'"
          "\<forall>c\<in>set new. claims_of (t\<lparr>st_next_slot_at_ms := nx\<rparr>) t' cutoff (ca_slots ?a) c" by blast
      have key: "claim_key ?c = (st_id t, ?s)" "slot_key (claimed_record now t) = (st_id t, ?s)"
        by (simp_all add: claim_key_def slot_key_def claimed_record_def)
      have "claim_key ?c \<notin> claim_key ` set new" using new(3) key by (auto simp: claims_of_def)
      then have "claim_adds a a' (?c # new)" using new(1) key by (simp add: claim_adds_def)
      moreover have "advanced t t'" using new(2) later by (simp add: advanced_def)
      moreover have "claims_of t t' cutoff (ca_slots a) ?c"
        using new(2) later due False key by (simp add: claims_of_def advanced_def)
      moreover have "claims_of t t' cutoff (ca_slots a) c" if "c \<in> set new" for c
        using new(3) that later by (fastforce simp: claims_of_def)
      ultimately show ?thesis by (intro exI [of _ "?c # new"]) auto
    qed
  qed
qed

lemma claim_all_spec:
  assumes "claim_all cal now cutoff n ts a = Inr (ts', a')"
    and "cutoff + Suc MAX_CRON_SCAN_MINUTES * MINUTE_MS \<le> u128_max" "distinct (map st_id ts)"
  shows "\<exists>new. claim_adds a a' new \<and> list_all2 advanced ts ts' \<and>
    (\<forall>c\<in>set new. \<exists>(t, t')\<in>set (zip ts ts'). claims_of t t' cutoff (ca_slots a) c)"
  using assms
proof (induction ts arbitrary: a ts')
  case Nil
  then show ?case by (intro exI [of _ "[]"]) (simp add: claim_adds_def)
next
  case (Cons t ts)
  obtain cron t1 a1 ts1 where h: "claim_schedule cal now cutoff cron n t a = Inr (t1, a1)"
      "claim_all cal now cutoff n ts a1 = Inr (ts1, a')" "ts' = t1 # ts1"
    using Cons.prems(1) by auto
  obtain new1 where n1: "claim_adds a a1 new1" "advanced t t1"
      "\<forall>c\<in>set new1. claims_of t t1 cutoff (ca_slots a) c"
    using claim_schedule_spec [OF h(1) Cons.prems(2)] by blast
  obtain new2 where n2: "claim_adds a1 a' new2" "list_all2 advanced ts ts1"
      "\<forall>c\<in>set new2. \<exists>(t, t')\<in>set (zip ts ts1). claims_of t t' cutoff (ca_slots a1) c"
    using Cons.IH [OF h(2) Cons.prems(2)] Cons.prems(3) by auto
  have sub: "slot_key ` set (ca_slots a) \<subseteq> slot_key ` set (ca_slots a1)"
    using arg_cong [OF n1(1) [unfolded claim_adds_def, THEN conjunct2, THEN conjunct1], of set] by auto
  have ids1: "\<forall>c\<in>set new1. st_id (cl_schedule c) = st_id t" using n1(3) by (simp add: claims_of_def)
  have ids2: "\<forall>c\<in>set new2. st_id (cl_schedule c) \<in> st_id ` set ts"
    using n2(3) by (fastforce simp: claims_of_def dest: set_zip_leftD)
  have "claim_key c \<noteq> claim_key d" if "c \<in> set new1" "d \<in> set new2" for c d
  proof -
    have "st_id (cl_schedule c) = st_id t" "st_id (cl_schedule d) \<in> st_id ` set ts"
      using ids1 ids2 that by auto
    then show ?thesis using Cons.prems(3) by (auto simp: claim_key_def)
  qed
  then have "claim_key ` set new1 \<inter> claim_key ` set new2 = {}" by blast
  then have adds: "claim_adds a a' (new1 @ new2)" using n1(1) n2(1) by (auto simp: claim_adds_def)
  have "\<exists>(u, u')\<in>set (zip (t # ts) ts'). claims_of u u' cutoff (ca_slots a) c"
    if mem: "c \<in> set (new1 @ new2)" for c
  proof (cases "c \<in> set new1")
    case True
    then show ?thesis using n1(3) h(3) by auto
  next
    case False
    then obtain u u' where u: "(u, u') \<in> set (zip ts ts1)" "claims_of u u' cutoff (ca_slots a1) c"
      using mem n2(3) by auto
    then have "claims_of u u' cutoff (ca_slots a) c" using sub by (auto simp: claims_of_def)
    then show ?thesis using u(1) h(3) by auto
  qed
  then show ?case using adds n1(2) n2(2) h(3) by (intro exI [of _ "new1 @ new2"]) auto
qed

lemma set_sort_drop_schedules [simp]: "set (schedules (persisted st)) = set (schedules st)"
  by (simp add: persisted_def Let_def)

lemma distinct_persisted_ids: "distinct (map st_id (schedules st)) \<Longrightarrow> distinct (map st_id (schedules (persisted st)))"
proof -
  assume "distinct (map st_id (schedules st))"
  moreover have "mset (map st_id (schedules (persisted st))) = mset (map st_id (schedules st))"
    by (simp add: persisted_def Let_def)
  ultimately show ?thesis by (metis mset_eq_imp_distinct_iff)
qed

text \<open>What a claim that returns has done to a file with the state \<open>st\<close>.\<close>

lemma claim_state_spec:
  assumes "claim_state cal now n st = Inr (st', claimed)" "clock_ok now" "distinct (map st_id (schedules st))"
  shows "distinct (map claim_key claimed)"
    "\<forall>c\<in>set claimed. \<exists>t\<in>set (schedules st). st_id t = fst (claim_key c) \<and>
       st_next_slot_at_ms t \<le> snd (claim_key c) \<and> snd (claim_key c) \<le> minute_slot now \<and>
       claim_key c \<notin> slot_key ` set (slots st)"
    "map st_id (schedules st') = map st_id (schedules st)"
    "\<forall>t'\<in>set (schedules st'). \<exists>t\<in>set (schedules st). advanced t t' \<and>
       (\<forall>c\<in>set claimed. fst (claim_key c) = st_id t' \<longrightarrow> snd (claim_key c) < st_next_slot_at_ms t')"
    "map slot_key (slots st') = map slot_key (slots st) @ map claim_key claimed"
proof -
  obtain ts a where h: "claim_all cal now (minute_slot now) (max n 1) (schedules st)
         \<lparr>ca_slots = slots st, ca_audit = audit st, ca_claimed = []\<rparr> = Inr (ts, a)"
      "st' = \<lparr>schedules = ts, slots = ca_slots a, audit = ca_audit a\<rparr>" "claimed = ca_claimed a"
    using assms(1) by (auto simp: claim_state_def)
  have room: "minute_slot now + Suc MAX_CRON_SCAN_MINUTES * MINUTE_MS \<le> u128_max"
    using assms(2) minute_slot_le [of now] by (simp add: clock_ok_def)
  obtain new where new: "claim_adds \<lparr>ca_slots = slots st, ca_audit = audit st, ca_claimed = []\<rparr> a new"
      "list_all2 advanced (schedules st) ts"
      "\<forall>c\<in>set new. \<exists>(t, t')\<in>set (zip (schedules st) ts). claims_of t t' (minute_slot now) (slots st) c"
    using claim_all_spec [OF h(1) room assms(3)] by auto
  have cl: "claimed = new" using new(1) h(3) by (simp add: claim_adds_def)
  show "distinct (map claim_key claimed)"
    "map slot_key (slots st') = map slot_key (slots st) @ map claim_key claimed"
    using new(1) cl h(2) by (simp_all add: claim_adds_def)
  show "\<forall>c\<in>set claimed. \<exists>t\<in>set (schedules st). st_id t = fst (claim_key c) \<and>
       st_next_slot_at_ms t \<le> snd (claim_key c) \<and> snd (claim_key c) \<le> minute_slot now \<and>
       claim_key c \<notin> slot_key ` set (slots st)"
    using new(3) cl by (fastforce simp: claims_of_def claim_key_def dest: set_zip_leftD)
  have "st_id (ts ! i) = st_id (schedules st ! i)" if "i < length ts" for i
    using new(2) that by (auto simp: list_all2_conv_all_nth advanced_def)
  then show ids: "map st_id (schedules st') = map st_id (schedules st)"
    using new(2) h(2) by (auto simp: list_all2_lengthD intro!: nth_equalityI)
  have dist: "distinct (map st_id ts)" using ids assms(3) h(2) by simp
  show "\<forall>t'\<in>set (schedules st'). \<exists>t\<in>set (schedules st). advanced t t' \<and>
       (\<forall>c\<in>set claimed. fst (claim_key c) = st_id t' \<longrightarrow> snd (claim_key c) < st_next_slot_at_ms t')"
  proof
    fix t' assume "t' \<in> set (schedules st')"
    then have t': "t' \<in> set ts" using h(2) by simp
    then obtain t where t: "t \<in> set (schedules st)" "advanced t t'"
      using new(2) by (metis in_set_conv_nth list_all2_conv_all_nth)
    have "snd (claim_key c) < st_next_slot_at_ms t'" if c: "c \<in> set claimed" "fst (claim_key c) = st_id t'" for c
    proof -
      obtain u u' where u: "(u, u') \<in> set (zip (schedules st) ts)" "claims_of u u' (minute_slot now) (slots st) c"
        using new(3) c(1) cl by auto
      have "advanced u u'" using new(2) u(1) by (metis in_set_zip list_all2_nthD2 list_all2_lengthD fst_conv snd_conv)
      then have "st_id u' = st_id t'" using u(2) c(2) by (simp add: claims_of_def claim_key_def advanced_def)
      moreover have "u' \<in> set ts" using u(1) by (rule set_zip_rightD)
      ultimately have "u' = t'" using dist t' by (simp add: distinct_map inj_on_def)
      then show ?thesis using u(2) by (simp add: claims_of_def claim_key_def)
    qed
    then show "\<exists>t\<in>set (schedules st). advanced t t' \<and>
       (\<forall>c\<in>set claimed. fst (claim_key c) = st_id t' \<longrightarrow> snd (claim_key c) < st_next_slot_at_ms t')"
      using t by blast
  qed
qed

lemma load_state_cases:
  "load_state io f = (r, f') \<Longrightarrow> (r = Inr empty_state \<and> (f' = FileMissing \<or> f' = FileCorrupt) \<and> f = f' \<or>
     r = Inr empty_state \<and> f' = FileMissing \<or> (\<exists>e. r = Inl e \<and> f' = f) \<or>
     (\<exists>st. f = FileState st \<and> r = Inr st \<and> f' = f))"
  by (auto simp: load_state_def split: scheduler_file.splits sum.splits if_splits)

text \<open>
  Claiming is right about what it claims: every slot returned belongs to a stored schedule, is
  due at the current minute, not before the schedule's next slot and not yet recorded; no slot is
  returned twice, each one is recorded with the state that is written, and each schedule's next
  slot moves past the slots claimed for it.
\<close>

theorem claims_due_and_fresh:
  assumes "claim_prepare io cal now n (FileState st) = (Inr (st', claimed), f')"
    and "clock_ok now" "distinct (map st_id (schedules st))"
  shows "distinct (map claim_key claimed) \<and>
    (\<forall>c\<in>set claimed. (\<exists>t\<in>set (schedules st). st_id t = fst (claim_key c) \<and>
        st_next_slot_at_ms t \<le> snd (claim_key c)) \<and> snd (claim_key c) \<le> now \<and>
        claim_key c \<notin> slot_key ` set (slots st) \<and> claim_key c \<in> slot_key ` set (slots st')) \<and>
    (\<forall>t'\<in>set (schedules st'). \<forall>c\<in>set claimed.
        fst (claim_key c) = st_id t' \<longrightarrow> snd (claim_key c) < st_next_slot_at_ms t')"
proof -
  have "claim_state cal now n st = Inr (st', claimed)"
    using assms(1) by (auto simp: claim_prepare_def with_state_mut_def bindE_def load_state_def
        split: sum.splits prod.splits)
  note s = claim_state_spec [OF this assms(2,3)]
  have "slot_key ` set (slots st') = slot_key ` set (slots st) \<union> claim_key ` set claimed"
    using arg_cong [OF s(5), of set] by simp
  then show ?thesis using s(1,2,4) minute_slot_le [of now] by fastforce
qed

subsection \<open>Sequential use: no slot is claimed twice\<close>

text \<open>All slots in \<open>K\<close> lie before the next slot of their schedule.\<close>

definition file_past :: "(string \<times> nat) set \<Rightarrow> scheduler_file \<Rightarrow> bool" where
  "file_past K f \<longleftrightarrow> (case f of FileState st \<Rightarrow> distinct (map st_id (schedules st)) \<and>
       (\<forall>k\<in>K. \<forall>t\<in>set (schedules st). st_id t = fst k \<longrightarrow> snd k < st_next_slot_at_ms t)
     | _ \<Rightarrow> True)"

lemma file_past_simps [simp]: "file_past K FileMissing" "file_past K FileCorrupt"
  by (simp_all add: file_past_def)

lemma claim_state_empty: "claim_state cal now n empty_state = Inr (empty_state, [])"
  by (simp add: claim_state_def empty_state_def)

lemma claim_prepare_past:
  assumes "file_past K f" "clock_ok now" "claim_prepare io cal now n f = (r, f')"
  shows "file_past K f' \<and> (case r of Inl _ \<Rightarrow> True
    | Inr (st', cl) \<Rightarrow> distinct (map claim_key cl) \<and> claim_key ` set cl \<inter> K = {} \<and>
        (cl = [] \<or> file_past (K \<union> claim_key ` set cl) (FileState (persisted st'))))"
proof -
  obtain lr f1 where load: "load_state io f = (lr, f1)" by (cases "load_state io f")
  have keep: "file_past K f1" using load_state_cases [OF load] assms(1) by auto
  show ?thesis
  proof (cases lr)
    case (Inl e)
    then show ?thesis using assms(3) load keep
      by (auto simp: claim_prepare_def with_state_mut_def bindE_def)
  next
    case (Inr st)
    show ?thesis
    proof (cases "claim_state cal now n st")
      case none: (Inl e)
      have "claim_prepare io cal now n f = (Inl e, f1)"
        using load Inr none by (simp add: claim_prepare_def with_state_mut_def bindE_def)
      then show ?thesis using assms(3) keep by auto
    next
      case prep: (Inr p)
      obtain st' cl where p: "p = (st', cl)" by (cases p)
      have r: "r = Inr (st', cl)" "f' = f1"
        using assms(3) load Inr prep p by (auto simp: claim_prepare_def with_state_mut_def bindE_def)
      show ?thesis
      proof (cases "cl = []")
        case True
        then show ?thesis using r keep by simp
      next
        case False
        then have "st \<noteq> empty_state" using prep p claim_state_empty by auto
        then have f: "f = FileState st" "f1 = f" using load_state_cases [OF load] Inr by auto
        have d: "distinct (map st_id (schedules st))"
            and past: "\<forall>k\<in>K. \<forall>t\<in>set (schedules st). st_id t = fst k \<longrightarrow> snd k < st_next_slot_at_ms t"
          using assms(1) f(1) by (simp_all add: file_past_def)
        note s = claim_state_spec [OF prep [unfolded p] assms(2) d]
        have disj: "claim_key ` set cl \<inter> K = {}" using s(2) past by fastforce
        have "snd k < st_next_slot_at_ms t'"
          if mem: "k \<in> K \<union> claim_key ` set cl" "t' \<in> set (schedules st')" "st_id t' = fst k" for k t'
        proof -
          obtain t where t: "t \<in> set (schedules st)" "advanced t t'"
              "\<forall>c\<in>set cl. fst (claim_key c) = st_id t' \<longrightarrow> snd (claim_key c) < st_next_slot_at_ms t'"
            using s(4) mem(2) by blast
          show ?thesis
          proof (cases "k \<in> K")
            case True
            then have "snd k < st_next_slot_at_ms t" using past t(1,2) mem(3) by (simp add: advanced_def)
            then show ?thesis using t(2) by (simp add: advanced_def)
          next
            case False
            then show ?thesis using mem(1,3) t(3) by auto
          qed
        qed
        moreover have "distinct (map st_id (schedules st'))" using s(3) d by simp
        ultimately have "file_past (K \<union> claim_key ` set cl) (FileState (persisted st'))"
          by (simp add: file_past_def distinct_persisted_ids)
        then show ?thesis using s(1) disj keep r by simp
      qed
    qed
  qed
qed

lemma claim_commit_past:
  assumes "claim_commit io st cl f = (r, f')" "file_past K f" "cl = [] \<or> file_past (K \<union> claim_key ` set cl) (FileState (persisted st))"
  shows "case r of Inl _ \<Rightarrow> file_past K f' \<and> f' = f | Inr cl' \<Rightarrow> cl' = cl \<and> file_past (K \<union> claim_key ` set cl) f'"
  using assms by (auto simp: claim_commit_def save_state_def seqE_def bindE_def okE_def split: if_splits sum.splits)

lemma claim_step:
  assumes "file_past K f" "clock_ok now" "claim_due_slots io cal now n f = (r, f')"
  shows "case r of Inl _ \<Rightarrow> file_past K f'
    | Inr cl \<Rightarrow> distinct (map claim_key cl) \<and> claim_key ` set cl \<inter> K = {} \<and> file_past (K \<union> claim_key ` set cl) f'"
proof -
  obtain pr f1 where p: "claim_prepare io cal now n f = (pr, f1)" by fastforce
  note past = claim_prepare_past [OF assms(1,2) p]
  show ?thesis
  proof (cases pr)
    case (Inl e)
    then show ?thesis using p past assms(3) by (auto simp: claim_due_slots_def bindE_def)
  next
    case (Inr x)
    obtain st' cl where x: "x = (st', cl)" by (cases x)
    have c: "claim_commit io st' cl f1 = (r, f')" using p Inr x assms(3) by (simp add: claim_due_slots_def bindE_def)
    show ?thesis using claim_commit_past [OF c, of K] past Inr x by (cases r) auto
  qed
qed

lemma update_prepare_past:
  assumes "file_past K f" "update_prepare io sid at mutate f = (r, f')"
  shows "file_past K f' \<and> (case r of Inl _ \<Rightarrow> True | Inr st \<Rightarrow> file_past K (FileState (persisted st)))"
proof -
  obtain lr f1 where load: "load_state io f = (lr, f1)" by (cases "load_state io f")
  have keep: "file_past K f1" using load_state_cases [OF load] assms(1) by auto
  show ?thesis
  proof (cases lr)
    case (Inl e)
    then show ?thesis using assms(2) load keep
      by (auto simp: update_prepare_def with_state_mut_def bindE_def)
  next
    case (Inr st)
    show ?thesis
    proof (cases "find (\<lambda>r. slot_key r = (sid, at)) (slots st)")
      case None
      then show ?thesis using assms(2) load keep Inr
        by (auto simp: update_prepare_def with_state_mut_def bindE_def)
    next
      case (Some x)
      then have "st \<noteq> empty_state" by (auto simp: empty_state_def)
      then have f: "f = FileState st" using load_state_cases [OF load] Inr by auto
      have "file_past K (FileState (persisted (st\<lparr>slots := sl, audit := au\<rparr>)))" for sl au
        using assms(1) f distinct_persisted_ids [of "st\<lparr>slots := sl, audit := au\<rparr>"] by (simp add: file_past_def)
      then show ?thesis using assms(2) load keep Inr Some
        by (auto simp: update_prepare_def with_state_mut_def bindE_def okE_def)
    qed
  qed
qed

lemma update_step:
  assumes "file_past K f" "update_slot io sid at mutate f = (r, f')"
  shows "file_past K f'"
proof -
  obtain pr f1 where p: "update_prepare io sid at mutate f = (pr, f1)" by fastforce
  show ?thesis using update_prepare_past [OF assms(1) p] assms(2) p
    by (cases pr) (auto simp: update_slot_def bindE_def save_state_def split: sum.splits)
qed

text \<open>What one scheduler process does to its store between claims.\<close>

datatype store_act =
    DoClaim io_outcome nat nat
  | DoSubmitted io_outcome nat string nat string
  | DoSubmitFailed io_outcome nat string nat string
  | DoOutcome io_outcome nat string nat slot_phase string "string option" "string option"
  | DoReply io_outcome nat string nat bool "string option"

fun act_clock_ok :: "store_act \<Rightarrow> bool" where
  "act_clock_ok (DoClaim io now n) = clock_ok now"
| "act_clock_ok _ = True"

text \<open>The claims returned by a sequence of calls; an error returns none.\<close>

fun do_act :: "calendar \<Rightarrow> store_act \<Rightarrow> scheduler_file \<Rightarrow> claimed_slot list \<times> scheduler_file" where
  "do_act cal (DoClaim io now n) f = (case claim_due_slots io cal now n f of
     (Inr cl, f') \<Rightarrow> (cl, f') | (Inl _, f') \<Rightarrow> ([], f'))"
| "do_act cal (DoSubmitted io now sid at rid) f = ([], snd (mark_slot_submitted io now sid at rid f))"
| "do_act cal (DoSubmitFailed io now sid at e) f = ([], snd (mark_slot_submit_failed io now sid at e f))"
| "do_act cal (DoOutcome io now sid at ph rid p e) f = ([], snd (mark_slot_outcome io now sid at ph rid p e f))"
| "do_act cal (DoReply io now sid at d e) f = ([], snd (mark_reply_result io now sid at d e f))"

fun do_acts :: "calendar \<Rightarrow> store_act list \<Rightarrow> scheduler_file \<Rightarrow> claimed_slot list \<times> scheduler_file" where
  "do_acts cal [] f = ([], f)"
| "do_acts cal (a # as) f = (case do_act cal a f of (cl, f1) \<Rightarrow>
     case do_acts cal as f1 of (cl', f2) \<Rightarrow> (cl @ cl', f2))"

lemma update_slot_past: "file_past K f \<Longrightarrow> file_past K (snd (update_slot io sid at mutate f))"
  using update_step [of K f io sid at mutate] by (cases "update_slot io sid at mutate f") simp

lemma marks_past:
  assumes "file_past K f"
  shows "file_past K (snd (mark_slot_submitted io now sid at rid f))"
    "file_past K (snd (mark_slot_submit_failed io now sid at e f))"
    "file_past K (snd (mark_slot_outcome io now sid at ph rid pv er f))"
    "file_past K (snd (mark_reply_result io now sid at d er f))"
  unfolding mark_slot_submitted_def mark_slot_submit_failed_def mark_slot_outcome_def mark_reply_result_def
  by (rule update_slot_past [OF assms])+

lemma do_act_step:
  assumes "file_past K f" "act_clock_ok a" "do_act cal a f = (cl, f')"
  shows "distinct (map claim_key cl) \<and> claim_key ` set cl \<inter> K = {} \<and> file_past (K \<union> claim_key ` set cl) f'"
proof (cases a)
  case (DoClaim io now n)
  then show ?thesis
    using assms claim_step [of K f now io cal n] by (auto split: prod.splits sum.splits)
qed (use assms marks_past [OF assms(1)] in auto)

lemma do_acts_distinct:
  assumes "file_past K f" "list_all act_clock_ok as" "do_acts cal as f = (cl, f')"
  shows "distinct (map claim_key cl) \<and> claim_key ` set cl \<inter> K = {}"
  using assms
proof (induction as arbitrary: K f cl)
  case (Cons a as)
  obtain c1 f1 where 1: "do_act cal a f = (c1, f1)" by (cases "do_act cal a f")
  obtain c2 f2 where 2: "do_acts cal as f1 = (c2, f2)" by (cases "do_acts cal as f1")
  have s: "distinct (map claim_key c1) \<and> claim_key ` set c1 \<inter> K = {} \<and> file_past (K \<union> claim_key ` set c1) f1"
    using do_act_step [OF Cons.prems(1) _ 1] Cons.prems(2) by simp
  then have "distinct (map claim_key c2) \<and> claim_key ` set c2 \<inter> (K \<union> claim_key ` set c1) = {}"
    using Cons.IH [of "K \<union> claim_key ` set c1" f1 c2] 2 Cons.prems(2,3) 1 by auto
  then have ih: "distinct (map claim_key c2)" "claim_key ` set c2 \<inter> K = {}"
      "claim_key ` set c1 \<inter> claim_key ` set c2 = {}"
    by blast+
  have cl: "cl = c1 @ c2" using Cons.prems(3) 1 2 by simp
  show ?case unfolding cl using s ih by (simp add: image_Un Int_Un_distrib2)
qed simp

text \<open>
  \<^bold>\<open>C11.\<close> Used by one operation at a time the store hands out every slot at most once: over any
  sequence of claims, at any times and with any limits, and of submissions, outcomes and replies
  in between, with any failures of reading and writing, the slots returned are pairwise different.
\<close>

theorem no_slot_claimed_twice:
  assumes "list_all act_clock_ok as" "do_acts cal as (FileState st) = (claimed, f')"
    and "distinct (map st_id (schedules st))"
  shows "distinct (map claim_key claimed)"
  using do_acts_distinct [of "{}" "FileState st"] assms by (simp add: file_past_def)

subsection \<open>Updating a slot\<close>

lemma update_first_map:
  "distinct (map slot_key rs) \<Longrightarrow> update_first (\<lambda>r. slot_key r = k) g rs = map (\<lambda>r. if slot_key r = k then g r else r) rs"
proof (induction rs)
  case (Cons r rs)
  have "map (\<lambda>x. if slot_key x = k then g x else x) rs = rs" if "slot_key r = k"
    using Cons.prems that by (intro map_idI) (metis distinct.simps(2) image_eqI list.simps(9) list.set_map)
  then show ?case using Cons by auto
qed simp

text \<open>
  Recording an outcome changes one slot only: with a readable, writable file whose slot keys
  are unique, \<open>mark_slot_outcome\<close> rewrites the slot with the given key, with the texts cut to 512
  characters, appends one audit entry and writes the result; for a key that is not recorded it
  fails and the file is unchanged.
\<close>

theorem mark_slot_outcome_exact:
  assumes "io_read io = Inr ()" "io_write io = Inr ()" "distinct (map slot_key (slots st))"
  shows "mark_slot_outcome io now sid at phase rid response err (FileState st) =
    (if (sid, at) \<in> slot_key ` set (slots st) then
       (Inr (), FileState (persisted (st\<lparr>
          slots := map (\<lambda>r. if slot_key r = (sid, at) then r\<lparr>sl_phase := phase, sl_run_id := Some rid,
             sl_finished_at_ms := Some now, sl_response_preview := map_option (take 512) response,
             sl_error := map_option (take 512) err\<rparr> else r) (slots st),
          audit := audit st @ [slot_audit now (to_ascii_lowercase (''slot_'' @ show_phase phase)) sid at (Some rid)
             (''schedule '' @ quote1 sid @ '' finished with '' @ show_phase phase)
             (JObj [(''response_preview'', json_str_opt (map_option (take 512) response)),
                    (''error'', json_str_opt (map_option (take 512) err))])]\<rparr>)))
     else (Inl (NotFound (''unknown schedule slot: '' @ sid @ ''@'' @ show_nat at)), FileState st))"
proof -
  have cut: "(\<lambda>v. truncate_chars v 512) = take 512" by (auto simp: truncate_chars_def)
  show ?thesis
  proof (cases "find (\<lambda>r. slot_key r = (sid, at)) (slots st)")
    case None
    then have "(sid, at) \<notin> slot_key ` set (slots st)" by (auto simp: find_None_iff)
    then show ?thesis using None assms(1)
      by (simp add: mark_slot_outcome_def update_slot_def update_prepare_def with_state_mut_def bindE_def load_state_def)
  next
    case (Some r)
    then have "r \<in> set (slots st)" "slot_key r = (sid, at)" by (auto simp: find_Some_iff)
    then have "(sid, at) \<in> slot_key ` set (slots st)" by force
    then show ?thesis using Some assms cut
      by (simp add: mark_slot_outcome_def outcome_change_def update_slot_def update_prepare_def with_state_mut_def bindE_def
          load_state_def okE_def save_state_def update_first_map Let_def)
  qed
qed

subsection \<open>One bad schedule stops all claims\<close>

lemma claim_schedule_stuck:
  assumes "st_next_slot_at_ms t \<le> cutoff" "next_slot_after cal cron (st_next_slot_at_ms t) = Inl e" "0 < n"
  shows "claim_schedule cal now cutoff cron n t a = Inl e"
  using assms by (cases n) auto

lemma claim_all_stuck:
  assumes "t \<in> set ts" "\<And>cron a. cron_parse (st_cron t) = Inr cron \<Longrightarrow>
      \<exists>e. claim_schedule cal now cutoff cron n t a = Inl e"
  shows "\<exists>e. claim_all cal now cutoff n ts a = Inl e"
  using assms(1)
proof (induction ts arbitrary: a)
  case (Cons u ts)
  show ?case
  proof (cases "u = t")
    case True
    show ?thesis
    proof (cases "cron_parse (st_cron t)")
      case (Inr cron)
      then obtain e where "claim_schedule cal now cutoff cron n t a = Inl e" using assms(2) by blast
      then show ?thesis using Inr True by simp
    qed (simp add: True)
  next
    case False
    then have "\<exists>e. claim_all cal now cutoff n ts a' = Inl e" for a' using Cons by simp
    then show ?thesis by (auto simp: bindR_def split: sum.splits prod.splits) (metis sum.distinct(1))
  qed
qed simp

text \<open>
  A schedule whose next occurrence lies beyond the scan window blocks the scheduler: as soon
  as it is due (a leap-day schedule is accepted and becomes due, but has no further slot within
  730 days), \<open>claim_due_slots\<close> fails for every schedule, whatever else is due, and leaves the
  file as it was, so the next call fails in the same way.
\<close>

theorem exhausted_schedule_blocks_claims:
  assumes "t \<in> set (schedules st)" "cron_parse (st_cron t) = Inr cron"
    and "st_next_slot_at_ms t \<le> minute_slot now" "next_slot_after cal cron (st_next_slot_at_ms t) = Inl e"
    and "io_read io = Inr ()"
  shows "\<exists>e'. claim_due_slots io cal now n (FileState st) = (Inl e', FileState st)"
proof -
  have "\<exists>e'. claim_all cal now (minute_slot now) (max n 1) (schedules st) a = Inl e'" for a
    using claim_schedule_stuck [OF assms(3,4)] assms(2)
    by (intro claim_all_stuck [OF assms(1)]) auto
  then have "\<exists>e'. claim_state cal now n st = Inl e'"
    unfolding claim_state_def bindR_def by (metis (no_types, lifting) old.sum.simps(5))
  then show ?thesis
    using assms(5) by (auto simp: claim_due_slots_def claim_prepare_def with_state_mut_def bindE_def load_state_def)
qed

subsection \<open>Two processes\<close>

text \<open>
  Claims by several threads of one process, or several processes: loading and changing the state
  is one step (the lock covers it), writing the file is a later one.
\<close>

datatype claimer =
    ClIdle
  | ClPrepared scheduler_state "claimed_slot list"
  | ClDone "claimed_slot list"

inductive claim_race :: "io_outcome \<Rightarrow> calendar \<Rightarrow> nat \<Rightarrow> nat \<Rightarrow>
    scheduler_file \<times> (nat \<Rightarrow> claimer) \<Rightarrow> scheduler_file \<times> (nat \<Rightarrow> claimer) \<Rightarrow> bool"
  for io :: io_outcome and cal :: calendar and now :: nat and n :: nat where
  prepare: "cs i = ClIdle \<Longrightarrow> claim_prepare io cal now n f = (Inr (st, cl), f') \<Longrightarrow>
     claim_race io cal now n (f, cs) (f', cs(i := ClPrepared st cl))"
| commit: "cs i = ClPrepared st cl \<Longrightarrow> claim_commit io st cl f = (Inr cl, f') \<Longrightarrow>
     claim_race io cal now n (f, cs) (f', cs(i := ClDone cl))"

lemma race_double_claim:
  assumes "claim_prepare io cal now n f = (Inr (st, cl), f)" "claim_commit io st cl f = (Inr cl, f1)"
    "claim_commit io st cl f1 = (Inr cl, f2)"
  shows "(claim_race io cal now n)\<^sup>*\<^sup>* (f, \<lambda>_. ClIdle) (f2, (\<lambda>_. ClIdle)(0 := ClDone cl, 1 := ClDone cl))"
proof -
  let ?c0 = "\<lambda>_ :: nat. ClIdle"
  let ?p = "ClPrepared st cl"
  have "claim_race io cal now n (f, ?c0) (f, ?c0(0 := ?p))" using assms(1) by (intro prepare) simp_all
  moreover have "claim_race io cal now n (f, ?c0(0 := ?p)) (f, ?c0(0 := ?p, 1 := ?p))"
    using assms(1) by (intro prepare) simp_all
  moreover have "claim_race io cal now n (f, ?c0(0 := ?p, 1 := ?p)) (f1, ?c0(0 := ?p, 1 := ?p, 0 := ClDone cl))"
    using assms(2) by (intro commit) simp_all
  moreover have "claim_race io cal now n (f1, ?c0(0 := ?p, 1 := ?p, 0 := ClDone cl))
      (f2, ?c0(0 := ?p, 1 := ?p, 0 := ClDone cl, 1 := ClDone cl))"
    using assms(3) by (intro commit) simp_all
  moreover have "?c0(0 := ?p, 1 := ?p, 0 := ClDone cl, 1 := ClDone cl) = ?c0(0 := ClDone cl, 1 := ClDone cl)"
    by auto
  ultimately show ?thesis by (metis (no_types, lifting) converse_rtranclp_into_rtranclp rtranclp.rtrancl_refl)
qed

subsection \<open>The theorems at concrete stores\<close>

text \<open>
  A calendar on which the demo schedule matches every minute, one on which it matches none after
  the first two, a stored schedule that is due, and error-free input and output.
\<close>

definition always_calendar :: calendar where
  "always_calendar ms = Some \<lparr>cv_minute = 0, cv_hour = 0, cv_day = 1, cv_month = 1, cv_weekday = 0\<rparr>"

definition once_calendar :: calendar where
  "once_calendar ms = Some \<lparr>cv_minute = (if ms \<le> 60000 then 0 else 1), cv_hour = 0, cv_day = 1,
     cv_month = 1, cv_weekday = 0\<rparr>"

definition demo_task :: scheduled_task where
  "demo_task = \<lparr>st_id = ''a'', st_cron = ''0 0 1 1 0'', st_prompt = ''hi'', st_session_id = None,
     st_workspace_dir = None, st_timeout_ms = None, st_system_prompt = None, st_memory_query = None,
     st_reply_target = None, st_created_by_session = ''s'', st_created_at_ms = 1,
     st_approval_reason = ''ok'', st_next_slot_at_ms = 60000\<rparr>"

definition demo_store :: scheduler_state where
  "demo_store = \<lparr>schedules = [demo_task], slots = [], audit = []\<rparr>"

definition io_fine :: io_outcome where
  "io_fine = \<lparr>io_read = Inr (), io_quarantine = True, io_write = Inr ()\<rparr>"

definition demo_claim :: claimed_slot where
  "demo_claim = \<lparr>cl_schedule = demo_task, cl_slot_at_ms = 60000\<rparr>"

lemma demo_clock: "clock_ok 60005"
  by (simp add: clock_ok_def MAX_CRON_SCAN_MINUTES_def MINUTE_MS_def u128_max_def)

lemma demo_next: "next_slot_after always_calendar demo_cron 60000 = Inr 120000"
proof -
  have "cron_matches always_calendar demo_cron 120000 = Inr True"
    by (simp add: cron_matches_def always_calendar_def civil_matches_def demo_cron_def)
  then have "cron_scan always_calendar demo_cron (Suc n) 120000 = Inr 120000" for n by simp
  from this [of 1051199] show ?thesis
    by (simp add: next_slot_after_def first_slot_at_or_after_def MAX_CRON_SCAN_MINUTES_def MINUTE_MS_def
        sat_add128_def u128_max_def del: cron_scan.simps)
qed

lemma demo_prepare: "\<exists>st. claim_prepare io_fine always_calendar 60005 1 (FileState demo_store) =
    (Inr (st, [demo_claim]), FileState demo_store)"
proof -
  have parse: "cron_parse (st_cron demo_task) = Inr demo_cron" using demo_cron_parse by (simp add: demo_task_def)
  have at: "st_next_slot_at_ms demo_task = 60000" by (simp add: demo_task_def)
  have cutoff: "minute_slot 60005 = 60000" by (simp add: minute_slot_def MINUTE_MS_def)
  show ?thesis
    by (simp add: claim_prepare_def with_state_mut_def bindE_def load_state_def io_fine_def claim_state_def
        demo_store_def parse cutoff at demo_next demo_claim_def)
qed

theorem claims_due_and_fresh_witness:
  "\<exists>st f'. claim_prepare io_fine always_calendar 60005 1 (FileState demo_store) = (Inr (st, [demo_claim]), f') \<and>
     claim_key demo_claim \<in> slot_key ` set (slots st)"
proof -
  obtain st where st: "claim_prepare io_fine always_calendar 60005 1 (FileState demo_store) =
      (Inr (st, [demo_claim]), FileState demo_store)" using demo_prepare by blast
  have "distinct (map st_id (schedules demo_store))" by (simp add: demo_store_def)
  from claims_due_and_fresh [OF st demo_clock this] show ?thesis using st by auto
qed

theorem no_slot_claimed_twice_witness:
  "\<exists>claimed f'. do_acts always_calendar [DoClaim io_fine 60005 1, DoClaim io_fine 60005 1] (FileState demo_store) =
     (claimed, f') \<and> claim_key demo_claim \<in> claim_key ` set claimed \<and> distinct (map claim_key claimed)"
proof -
  obtain st where st: "claim_prepare io_fine always_calendar 60005 1 (FileState demo_store) =
      (Inr (st, [demo_claim]), FileState demo_store)" using demo_prepare by blast
  have first: "claim_due_slots io_fine always_calendar 60005 1 (FileState demo_store) =
      (Inr [demo_claim], FileState (persisted st))"
    using st by (simp add: claim_due_slots_def bindE_def claim_commit_def save_state_def seqE_def io_fine_def)
  obtain claimed f' where run: "do_acts always_calendar [DoClaim io_fine 60005 1, DoClaim io_fine 60005 1]
      (FileState demo_store) = (claimed, f')" by fastforce
  then have "demo_claim \<in> set claimed" by (auto simp: first [unfolded One_nat_def] split: prod.splits sum.splits)
  moreover have "list_all act_clock_ok [DoClaim io_fine 60005 1, DoClaim io_fine 60005 1]"
    using demo_clock by simp
  moreover have "distinct (map st_id (schedules demo_store))" by (simp add: demo_store_def)
  ultimately show ?thesis using no_slot_claimed_twice [OF _ run] run by blast
qed

theorem mark_slot_outcome_exact_witness:
  "\<exists>f'. mark_slot_outcome io_fine 7 ''a'' 60000 SlotCompleted ''r'' (Some ''ok'') None
     (FileState (demo_store\<lparr>slots := [claimed_record 5 demo_task]\<rparr>)) = (Inr (), f')"
proof -
  have d: "distinct (map slot_key (slots (demo_store\<lparr>slots := [claimed_record 5 demo_task]\<rparr>)))" by simp
  have io: "io_read io_fine = Inr ()" "io_write io_fine = Inr ()" by (simp_all add: io_fine_def)
  show ?thesis unfolding mark_slot_outcome_exact [OF io d]
    by (simp add: slot_key_def claimed_record_def demo_task_def)
qed

lemma cron_scan_none:
  "(\<And>ms. start \<le> ms \<Longrightarrow> cron_matches cal c ms = Inr False) \<Longrightarrow> start \<le> u128_max \<Longrightarrow> \<exists>e. cron_scan cal c n start = Inl e"
proof (induction n arbitrary: start)
  case (Suc n)
  have "\<exists>e. cron_scan cal c n (sat_add128 start MINUTE_MS) = Inl e"
    using sat_add128_ge [OF Suc.prems(2)] Suc.prems(1) by (intro Suc.IH) (auto intro: order_trans)
  then show ?case using Suc.prems(1) [of start] by simp
qed simp

theorem exhausted_schedule_blocks_claims_witness:
  "\<exists>e'. claim_due_slots io_fine once_calendar 60005 1 (FileState demo_store) = (Inl e', FileState demo_store)"
proof -
  have "cron_matches once_calendar demo_cron ms = Inr False" if "120000 \<le> ms" for ms
    using that by (simp add: cron_matches_def once_calendar_def civil_matches_def demo_cron_def i64_max_def)
  then obtain e where "cron_scan once_calendar demo_cron MAX_CRON_SCAN_MINUTES 120000 = Inl e"
    using cron_scan_none [of 120000 once_calendar demo_cron] by (auto simp: u128_max_def)
  then have next': "next_slot_after once_calendar demo_cron (st_next_slot_at_ms demo_task) = Inl e"
    by (simp add: next_slot_after_def first_slot_at_or_after_def demo_task_def MINUTE_MS_def
        sat_add128_def u128_max_def)
  have t: "demo_task \<in> set (schedules demo_store)" "cron_parse (st_cron demo_task) = Inr demo_cron"
      "st_next_slot_at_ms demo_task \<le> minute_slot 60005" "io_read io_fine = Inr ()"
    using demo_cron_parse by (simp_all add: demo_store_def demo_task_def minute_slot_def MINUTE_MS_def io_fine_def)
  show ?thesis by (rule exhausted_schedule_blocks_claims [OF t(1-3) next' t(4)])
qed

text \<open>
  \<^bold>\<open>C12.\<close> With two claimers the guarantee is lost: \<open>with_state_mut\<close> releases the lock before the state
  is written, so there is an interleaving of two calls of \<open>claim_due_slots\<close> on one store after
  which both have returned the same slot.
\<close>

theorem concurrent_double_claim:
  "\<exists>f f' cl cs. (claim_race io_fine always_calendar 60005 1)\<^sup>*\<^sup>* (f, \<lambda>_. ClIdle) (f', cs) \<and>
     cl \<noteq> [] \<and> cs 0 = ClDone cl \<and> cs 1 = ClDone cl"
proof -
  obtain st where st: "claim_prepare io_fine always_calendar 60005 1 (FileState demo_store) =
      (Inr (st, [demo_claim]), FileState demo_store)" using demo_prepare by blast
  have commit: "claim_commit io_fine st [demo_claim] f = (Inr [demo_claim], FileState (persisted st))" for f
    by (simp add: claim_commit_def save_state_def seqE_def bindE_def io_fine_def)
  show ?thesis using race_double_claim [OF st commit commit]
    by (intro exI [of _ "FileState demo_store"] exI [of _ "FileState (persisted st)"]
        exI [of _ "[demo_claim]"] exI [of _ "(\<lambda>_. ClIdle)(0 := ClDone [demo_claim], 1 := ClDone [demo_claim])"])
      simp
qed

end
