(* ===== verification/Commands.thy ===== *)
theory Commands
  imports Plugin_Sdk
begin

section \<open>Slash commands (kelvin-commands/src/lib.rs)\<close>

text \<open>
  The registry merges the commands the terminal client handles itself with those of the gateway;
  \<open>parse_slash_input\<close> splits an input line into a command and its arguments. \<open>label\<close> and
  \<open>help_text\<close> only format text, with characters outside the modelled range, and are left out.
\<close>

record completion_item =
  ci_name :: string
  ci_description :: string
  ci_usage :: "string option"
  ci_category :: string

datatype local_command = CmdQuit | CmdHelp

datatype slash_command = SlashLocal local_command | SlashRemote string

record local_entry =
  le_cmd :: local_command
  le_item :: completion_item

record command_registry =
  cr_local :: "local_entry list"
  cr_remote :: "slash_command_meta list"

definition registry_default :: command_registry where
  "registry_default = \<lparr>cr_local =
     [\<lparr>le_cmd = CmdHelp, le_item = \<lparr>ci_name = ''help'', ci_description = ''Show available commands'',
        ci_usage = None, ci_category = ''system''\<rparr>\<rparr>,
      \<lparr>le_cmd = CmdQuit, le_item = \<lparr>ci_name = ''quit'', ci_description = ''Exit the TUI'',
        ci_usage = None, ci_category = ''system''\<rparr>\<rparr>],
     cr_remote = []\<rparr>"

definition stub_meta :: "string \<Rightarrow> string \<Rightarrow> string option \<Rightarrow> slash_command_meta" where
  "stub_meta name description usage = \<lparr>cm_name = name, cm_description = description, cm_usage = usage,
     cm_category = ''session'', cm_surfaces = [], cm_min_tier = None, cm_bypass_queue = False\<rparr>"

definition tui_gateway_stubs :: "slash_command_meta list" where
  "tui_gateway_stubs =
     [stub_meta ''clear'' ''Clear session history and chat display'' None,
      stub_meta ''new'' ''Create a new session'' (Some ''[name]''),
      stub_meta ''session'' ''List or switch sessions'' (Some ''[id]'')]"

definition tui_default :: command_registry where
  "tui_default = registry_default\<lparr>cr_remote := cr_remote registry_default @ tui_gateway_stubs\<rparr>"

definition local_names :: "command_registry \<Rightarrow> string set" where
  "local_names r = (ci_name \<circ> le_item) ` set (cr_local r)"

definition from_slash_meta :: "slash_command_meta list \<Rightarrow> command_surface option \<Rightarrow> command_registry" where
  "from_slash_meta commands surface =
     fold (\<lambda>meta r. if (case surface of Some s \<Rightarrow> s \<notin> set (cm_surfaces meta) | None \<Rightarrow> False) then r
       else if cm_name meta \<notin> local_names r then r\<lparr>cr_remote := cr_remote r @ [meta]\<rparr> else r)
     commands registry_default"

definition json_field :: "string \<Rightarrow> json \<Rightarrow> json option" where
  "json_field k j = (case j of JObj kvs \<Rightarrow> map_of kvs k | _ \<Rightarrow> None)"

definition json_str_field :: "string \<Rightarrow> json \<Rightarrow> string option" where
  "json_str_field k j = (case json_field k j of Some (JStr s) \<Rightarrow> Some s | _ \<Rightarrow> None)"

definition gateway_meta :: "json \<Rightarrow> slash_command_meta option" where
  "gateway_meta item = map_option (\<lambda>name. \<lparr>cm_name = name,
     cm_description = (case json_str_field ''description'' item of Some d \<Rightarrow> d | None \<Rightarrow> []),
     cm_usage = json_str_field ''usage'' item,
     cm_category = (case json_str_field ''category'' item of Some c \<Rightarrow> c | None \<Rightarrow> ''system''),
     cm_surfaces = [], cm_min_tier = None, cm_bypass_queue = False\<rparr>) (json_str_field ''name'' item)"

definition set_gateway_commands :: "json \<Rightarrow> command_registry \<Rightarrow> command_registry" where
  "set_gateway_commands commands r = r\<lparr>cr_remote :=
     (case json_field ''commands'' commands of
        Some (JArr arr) \<Rightarrow> filter (\<lambda>m. cm_name m \<notin> local_names r) (List.map_filter gateway_meta arr)
      | _ \<Rightarrow> [])\<rparr>"

definition lookup_meta :: "command_registry \<Rightarrow> string \<Rightarrow> slash_command_meta option" where
  "lookup_meta r name = find (\<lambda>m. cm_name m = to_ascii_lowercase name) (cr_remote r)"

definition item_of_meta :: "slash_command_meta \<Rightarrow> completion_item" where
  "item_of_meta m = \<lparr>ci_name = cm_name m, ci_description = cm_description m, ci_usage = cm_usage m,
     ci_category = cm_category m\<rparr>"

definition completions :: "command_registry \<Rightarrow> string \<Rightarrow> completion_item list" where
  "completions r pre = (let p = to_ascii_lowercase pre in
     filter (\<lambda>it. starts_with p (ci_name it)) (map le_item (cr_local r)) @
     map item_of_meta (filter (\<lambda>m. starts_with p (to_ascii_lowercase (cm_name m))) (cr_remote r)))"

definition resolve :: "command_registry \<Rightarrow> string \<Rightarrow> slash_command option" where
  "resolve r name = (let lower = to_ascii_lowercase name in
     case find (\<lambda>e. ci_name (le_item e) = lower) (cr_local r) of
       Some e \<Rightarrow> Some (SlashLocal (le_cmd e))
     | None \<Rightarrow> if list_ex (\<lambda>m. cm_name m = lower) (cr_remote r) then Some (SlashRemote lower) else None)"

text \<open>\<^verbatim>\<open>splitn(2, char::is_whitespace)\<close>: the part before the first blank, and the part after it.\<close>

definition parse_slash_input :: "string \<Rightarrow> (string \<times> string) option" where
  "parse_slash_input input = (case strip_prefix ''/'' input of
     None \<Rightarrow> None
   | Some body \<Rightarrow>
       let name = to_ascii_lowercase (trim (takeWhile (\<lambda>c. \<not> is_whitespace c) body));
           args = trim (drop 1 (dropWhile (\<lambda>c. \<not> is_whitespace c) body)) in
       if name = [] then None else Some (name, args))"

subsection \<open>Parsing\<close>

lemma trim_no_ws: "(\<forall>c\<in>set s. \<not> is_whitespace c) \<Longrightarrow> trim s = s"
proof -
  assume h: "\<forall>c\<in>set s. \<not> is_whitespace c"
  have d: "dropWhile is_whitespace t = t" if "\<forall>c\<in>set t. \<not> is_whitespace c" for t
    using that by (cases t) auto
  show ?thesis using d [OF h] d [of "rev s"] h by (simp add: trim_def trim_start_def trim_end_def)
qed

lemma takeWhile_no_ws [simp]: "trim (takeWhile (\<lambda>c. \<not> is_whitespace c) s) = takeWhile (\<lambda>c. \<not> is_whitespace c) s"
  by (rule trim_no_ws) (auto dest: set_takeWhileD)

lemma lower_not_ws: "is_whitespace (to_ascii_lower_char c) \<longleftrightarrow> is_whitespace c"
  by (auto simp: to_ascii_lower_char_def is_whitespace_def)

text \<open>
  Slash commands round-trip: a lower-case command name without blanks, a blank and trimmed
  arguments parse back to the name and the arguments; whatever an input parses to is a non-empty
  lower-case name without blanks and trimmed arguments; and an input is a command exactly when it
  starts with a slash that is followed by a character other than a blank.
\<close>

theorem parse_slash_round_trip:
  "(parse_slash_input input \<noteq> None \<longleftrightarrow> starts_with ''/'' input \<and> tl input \<noteq> [] \<and> \<not> is_whitespace (hd (tl input))) \<and>
   (case parse_slash_input input of None \<Rightarrow> True
    | Some (name, args) \<Rightarrow> name \<noteq> [] \<and> list_all (\<lambda>c. \<not> is_whitespace c) name \<and>
        to_ascii_lowercase name = name \<and> trim args = args \<and>
        parse_slash_input (''/'' @ name @ '' '' @ args) = Some (name, args))"
proof -
  have again: "parse_slash_input (''/'' @ name @ '' '' @ args) = Some (name, args)"
    if "name \<noteq> []" "list_all (\<lambda>c. \<not> is_whitespace c) name" "to_ascii_lowercase name = name" "trim args = args"
    for name args
  proof -
    have sp: "is_whitespace CHR '' ''" by (simp add: str_eval)
    have ws: "\<forall>c\<in>set name. \<not> is_whitespace c" using that(2) by (simp add: list_all_iff)
    have "takeWhile (\<lambda>c. \<not> is_whitespace c) (name @ CHR '' '' # args) = name"
      "dropWhile (\<lambda>c. \<not> is_whitespace c) (name @ CHR '' '' # args) = CHR '' '' # args"
      using ws sp by (auto simp: takeWhile_append dropWhile_append2)
    then show ?thesis using that trim_no_ws [OF ws]
      by (simp add: parse_slash_input_def strip_prefix_def starts_with_def Let_def)
  qed
  have shape: "name \<noteq> [] \<and> list_all (\<lambda>c. \<not> is_whitespace c) name \<and> to_ascii_lowercase name = name \<and> trim args = args"
    if p: "parse_slash_input input = Some (name, args)" for name args
  proof -
    obtain body where b: "strip_prefix ''/'' input = Some body"
        "name = to_ascii_lowercase (takeWhile (\<lambda>c. \<not> is_whitespace c) body)" "name \<noteq> []" "trim args = args"
      using p by (auto simp: parse_slash_input_def Let_def split: option.splits if_splits)
    have "list_all (\<lambda>c. \<not> is_whitespace c) name"
      unfolding b(2) by (auto simp: to_ascii_lowercase_def list_all_iff lower_not_ws dest: set_takeWhileD)
    then show ?thesis using b by simp
  qed
  have "parse_slash_input input \<noteq> None \<longleftrightarrow> starts_with ''/'' input \<and> tl input \<noteq> [] \<and> \<not> is_whitespace (hd (tl input))"
    using takeWhile_no_ws [of "tl input"]
    by (cases input; cases "tl input"; cases "is_whitespace (hd (tl input))")
      (auto simp: parse_slash_input_def strip_prefix_def starts_with_def to_ascii_lowercase_def Let_def)
  then show ?thesis using shape again by (auto split: option.splits)
qed


subsection \<open>Resolution\<close>

lemma find_cases:
  "case find P xs of None \<Rightarrow> \<forall>x\<in>set xs. \<not> P x | Some x \<Rightarrow> x \<in> set xs \<and> P x"
  by (induction xs) (auto split: option.splits)

lemma find_Some_mem: "find P xs = Some x \<Longrightarrow> x \<in> set xs \<and> P x"
  using find_cases [where P = P and xs = xs] by simp

lemma find_None_mem: "find P xs = None \<Longrightarrow> x \<in> set xs \<Longrightarrow> \<not> P x"
  using find_cases [where P = P and xs = xs] by simp

lemma starts_with_take: "starts_with (to_ascii_lowercase (take k s)) (to_ascii_lowercase s)"
  by (cases "k \<le> length s") (simp_all add: starts_with_def to_ascii_lowercase_def take_map)

lemma completions_local:
  "e \<in> set (cr_local r) \<Longrightarrow> ci_name (le_item e) = to_ascii_lowercase name \<Longrightarrow>
     le_item e \<in> set (completions r (take k name))"
  by (auto simp: completions_def Let_def starts_with_take)

lemma completions_remote:
  "m \<in> set (cr_remote r) \<Longrightarrow> cm_name m = to_ascii_lowercase name \<Longrightarrow>
     item_of_meta m \<in> set (completions r (take k name))"
  by (auto simp: completions_def Let_def starts_with_take)

lemma resolve_local_case:
  assumes "find (\<lambda>e. ci_name (le_item e) = to_ascii_lowercase name) (cr_local r) = Some e"
  shows "e \<in> set (cr_local r) \<and> ci_name (le_item e) = to_ascii_lowercase name \<and> resolve r name = Some (SlashLocal (le_cmd e))"
  using find_Some_mem [OF assms] assms by (simp add: resolve_def Let_def)

lemma lookup_meta_mem:
  "lookup_meta r name = Some m \<Longrightarrow> m \<in> set (cr_remote r) \<and> cm_name m = to_ascii_lowercase name"
  unfolding lookup_meta_def by (rule find_Some_mem)

lemma resolve_remote_case:
  assumes "find (\<lambda>e. ci_name (le_item e) = to_ascii_lowercase name) (cr_local r) = None"
  shows "to_ascii_lowercase name \<notin> local_names r \<and>
    resolve r name = map_option (\<lambda>m. SlashRemote (cm_name m)) (lookup_meta r name)"
proof -
  have "to_ascii_lowercase name \<notin> local_names r"
    using find_None_mem [OF assms] by (force simp: local_names_def)
  moreover have "list_ex (\<lambda>m. cm_name m = to_ascii_lowercase name) (cr_remote r) \<longleftrightarrow> lookup_meta r name \<noteq> None"
    using find_cases [where P = "\<lambda>m. cm_name m = to_ascii_lowercase name" and xs = "cr_remote r"]
    by (auto simp: lookup_meta_def list_ex_iff split: option.splits)
  ultimately show ?thesis using assms
    by (cases "lookup_meta r name") (simp_all add: resolve_def Let_def lookup_meta_mem)
qed

text \<open>
  Resolving a command: an input resolves to a local command exactly when a local entry has its
  lower-cased name, and otherwise to the remote command that \<open>lookup_meta\<close> finds, and to nothing when
  there is none; what resolves is offered as a completion of every prefix of the input, whatever its
  case. The remote commands built from the metadata are the ones of the wanted surface whose name is
  not a local one, in their order, and neither they nor the commands reported by the gateway ever
  carry a local name.
\<close>

theorem resolve_dispatch:
  "(case resolve r name of
      None \<Rightarrow> to_ascii_lowercase name \<notin> local_names r \<and> lookup_meta r name = None
    | Some (SlashLocal c) \<Rightarrow> (\<exists>e\<in>set (cr_local r). le_cmd e = c \<and> ci_name (le_item e) = to_ascii_lowercase name \<and>
        le_item e \<in> set (completions r (take k name)))
    | Some (SlashRemote n) \<Rightarrow> n = to_ascii_lowercase name \<and> n \<notin> local_names r \<and>
        (\<exists>m. lookup_meta r name = Some m \<and> cm_name m = n \<and> item_of_meta m \<in> set (completions r (take k name)))) \<and>
   cr_remote (from_slash_meta metas surface) =
     filter (\<lambda>m. cm_name m \<noteq> ''help'' \<and> cm_name m \<noteq> ''quit'' \<and>
       (case surface of None \<Rightarrow> True | Some s \<Rightarrow> s \<in> set (cm_surfaces m))) metas \<and>
   local_names (set_gateway_commands j r) = local_names r \<and>
   local_names r \<inter> cm_name ` set (cr_remote (set_gateway_commands j r)) = {}"
proof -
  let ?find = "find (\<lambda>e. ci_name (le_item e) = to_ascii_lowercase name) (cr_local r)"
  have res: "case resolve r name of
      None \<Rightarrow> to_ascii_lowercase name \<notin> local_names r \<and> lookup_meta r name = None
    | Some (SlashLocal c) \<Rightarrow> (\<exists>e\<in>set (cr_local r). le_cmd e = c \<and> ci_name (le_item e) = to_ascii_lowercase name \<and>
        le_item e \<in> set (completions r (take k name)))
    | Some (SlashRemote n) \<Rightarrow> n = to_ascii_lowercase name \<and> n \<notin> local_names r \<and>
        (\<exists>m. lookup_meta r name = Some m \<and> cm_name m = n \<and> item_of_meta m \<in> set (completions r (take k name)))"
  proof (cases ?find)
    case None
    note rc = resolve_remote_case [OF None]
    show ?thesis
    proof (cases "lookup_meta r name")
      case (Some m)
      then show ?thesis using rc lookup_meta_mem [OF Some] completions_remote by simp
    qed (use rc in simp)
  next
    case (Some e)
    then show ?thesis using resolve_local_case [OF Some] completions_local by auto
  qed
  have "cr_local q = cr_local registry_default \<Longrightarrow> 
     cr_remote (fold (\<lambda>meta r. if (case surface of Some s \<Rightarrow> s \<notin> set (cm_surfaces meta) | None \<Rightarrow> False) then r
       else if cm_name meta \<notin> local_names r then r\<lparr>cr_remote := cr_remote r @ [meta]\<rparr> else r) metas q) =
     cr_remote q @ filter (\<lambda>m. cm_name m \<noteq> ''help'' \<and> cm_name m \<noteq> ''quit'' \<and>
       (case surface of None \<Rightarrow> True | Some s \<Rightarrow> s \<in> set (cm_surfaces m))) metas" for q
    by (induction metas arbitrary: q)
      (auto simp: local_names_def registry_default_def split: option.splits)
  from this [of registry_default] have fsm: "cr_remote (from_slash_meta metas surface) =
     filter (\<lambda>m. cm_name m \<noteq> ''help'' \<and> cm_name m \<noteq> ''quit'' \<and>
       (case surface of None \<Rightarrow> True | Some s \<Rightarrow> s \<in> set (cm_surfaces m))) metas"
    by (simp add: from_slash_meta_def) (simp add: registry_default_def)
  have "local_names r \<inter> cm_name ` set (cr_remote (set_gateway_commands j r)) = {}"
    unfolding set_gateway_commands_def by (cases "json_field ''commands'' j") (auto split: json.splits)
  then show ?thesis using res fsm by (simp add: set_gateway_commands_def local_names_def)
qed

end
