(* ===== verification/Channel_Routing.thy ===== *)
theory Channel_Routing
  imports Commands "HOL-Library.Product_Lexorder" "HOL-Library.Multiset"
begin

section \<open>Channel routing (kelvin-gateway/src/channels.rs)\<close>

text \<open>
  The routing table of the channels: operator rules, sorted once when they are loaded, of which
  the first that matches a message decides its session, workspace and system prompt. The JSON
  text of the rules and its decoding by serde are not modelled: \<open>routing_from_rules\<close> starts from the
  decoded list.
\<close>

subsection \<open>Data\<close>

datatype channel_kind = Telegram | Slack | Discord | WhatsApp

fun kind_as_str :: "channel_kind \<Rightarrow> string" where
  "kind_as_str Telegram = ''telegram''"
| "kind_as_str Slack = ''slack''"
| "kind_as_str Discord = ''discord''"
| "kind_as_str WhatsApp = ''whatsapp''"

fun as_command_surface :: "channel_kind \<Rightarrow> command_surface" where
  "as_command_surface Telegram = SurfTelegram"
| "as_command_surface Slack = SurfSlack"
| "as_command_surface Discord = SurfDiscord"
| "as_command_surface WhatsApp = SurfWhatsApp"

record route_rule =
  ru_id :: string
  ru_priority :: int
  ru_channel :: "string option"
  ru_account_id :: "string option"
  ru_sender_tier :: "sender_trust_tier option"
  ru_session_id :: "string option"
  ru_workspace_dir :: "string option"
  ru_route_session_id :: "string option"
  ru_route_workspace_dir :: "string option"
  ru_route_system_prompt :: "string option"

record route_decision =
  rd_matched_rule_id :: "string option"
  rd_session_id :: string
  rd_workspace_dir :: "string option"
  rd_system_prompt :: "string option"
  rd_sender_tier :: string

record route_input =
  ri_channel :: string
  ri_account_id :: string
  ri_requested_session_id :: "string option"
  ri_requested_workspace_dir :: "string option"
  ri_sender_tier :: sender_trust_tier

record wasm_policy_decision =
  wd_allow :: bool
  wd_reason :: "string option"
  wd_trust_tier :: "sender_trust_tier option"
  wd_override_text :: "string option"
  wd_route_session_id :: "string option"
  wd_route_workspace_dir :: "string option"
  wd_route_system_prompt :: "string option"

subsection \<open>Operations\<close>

definition default_session_id :: "string \<Rightarrow> string \<Rightarrow> string" where
  "default_session_id channel account_id = trim channel @ '':'' @ trim account_id"

definition rule_matches :: "route_rule \<Rightarrow> route_input \<Rightarrow> bool" where
  "rule_matches r input \<longleftrightarrow>
     (case ru_channel r of None \<Rightarrow> True
      | Some channel \<Rightarrow> let normalized = to_ascii_lowercase (trim channel) in
          normalized = ''*'' \<or> normalized = to_ascii_lowercase (ri_channel input)) \<and>
     (case ru_account_id r of None \<Rightarrow> True | Some account_id \<Rightarrow> trim account_id = ri_account_id input) \<and>
     (case ru_sender_tier r of None \<Rightarrow> True | Some tier \<Rightarrow> tier = ri_sender_tier input) \<and>
     (case ru_session_id r of None \<Rightarrow> True | Some sid \<Rightarrow> ri_requested_session_id input = Some (trim sid)) \<and>
     (case ru_workspace_dir r of None \<Rightarrow> True | Some dir \<Rightarrow> ri_requested_workspace_dir input = Some (trim dir))"

fun check_rule_ids :: "string list \<Rightarrow> route_rule list \<Rightarrow> unit kelvin_result" where
  "check_rule_ids seen [] = Inr ()"
| "check_rule_ids seen (r # rs) =
     (if trim (ru_id r) = [] then Inl (InvalidInput ''channel routing rule id must not be empty'')
      else if ru_id r \<in> set seen then
        Inl (InvalidInput (''duplicate channel routing rule id '' @ quoted (ru_id r)))
      else check_rule_ids (ru_id r # seen) rs)"

definition rule_key :: "route_rule \<Rightarrow> int \<times> string" where
  "rule_key r = (- ru_priority r, ru_id r)"

definition routing_from_rules :: "route_rule list \<Rightarrow> route_rule list kelvin_result" where
  "routing_from_rules parsed = bindR (check_rule_ids [] parsed) (\<lambda>_. Inr (sort_key rule_key parsed))"

fun decide :: "route_rule list \<Rightarrow> route_input \<Rightarrow> route_decision" where
  "decide [] input =
     \<lparr>rd_matched_rule_id = None,
      rd_session_id = opt_or (ri_requested_session_id input)
        (default_session_id (ri_channel input) (ri_account_id input)),
      rd_workspace_dir = ri_requested_workspace_dir input,
      rd_system_prompt = None,
      rd_sender_tier = tier_as_str (ri_sender_tier input)\<rparr>"
| "decide (r # rs) input =
     (if \<not> rule_matches r input then decide rs input
      else \<lparr>rd_matched_rule_id = Some (ru_id r),
        rd_session_id = opt_or (ru_route_session_id r)
          (default_session_id (ri_channel input) (ri_account_id input)),
        rd_workspace_dir = (case ru_route_workspace_dir r of Some d \<Rightarrow> Some d
          | None \<Rightarrow> ri_requested_workspace_dir input),
        rd_system_prompt = ru_route_system_prompt r,
        rd_sender_tier = tier_as_str (ri_sender_tier input)\<rparr>)"

definition non_blank :: "string option \<Rightarrow> string option" where
  "non_blank x = (case x of None \<Rightarrow> None | Some s \<Rightarrow> if trim s = [] then None else Some (trim s))"

definition apply_wasm_overrides :: "wasm_policy_decision \<Rightarrow> route_decision \<Rightarrow> route_decision" where
  "apply_wasm_overrides d route = route
     \<lparr>rd_session_id := opt_or (non_blank (wd_route_session_id d)) (rd_session_id route),
      rd_workspace_dir := (case non_blank (wd_route_workspace_dir d) of
        Some w \<Rightarrow> Some w | None \<Rightarrow> rd_workspace_dir route),
      rd_system_prompt := (case non_blank (wd_route_system_prompt d) of
        Some p \<Rightarrow> Some p | None \<Rightarrow> rd_system_prompt route)\<rparr>"

subsection \<open>The rule that decides\<close>

lemma check_rule_ids_Inr:
  "check_rule_ids seen rs = Inr () \<longleftrightarrow>
     (\<forall>r\<in>set rs. trim (ru_id r) \<noteq> [] \<and> ru_id r \<notin> set seen) \<and> distinct (map ru_id rs)"
  by (induction rs arbitrary: seen) (auto simp: image_iff)

lemma routing_from_rules_Inr:
  "routing_from_rules rs = Inr t \<longleftrightarrow>
     t = sort_key rule_key rs \<and> distinct (map ru_id rs) \<and> (\<forall>r\<in>set rs. trim (ru_id r) \<noteq> [])"
proof -
  have "(\<exists>x. check_rule_ids [] rs = Inr x) \<longleftrightarrow> check_rule_ids [] rs = Inr ()" by auto
  then show ?thesis by (auto simp: routing_from_rules_def check_rule_ids_Inr)
qed

lemma decide_find:
  "decide rs input = (case find (\<lambda>r. rule_matches r input) rs of
     None \<Rightarrow> decide [] input | Some r \<Rightarrow> decide [r] input)"
  by (induction rs) (auto simp del: decide.simps(1) simp: find_Some_iff)

lemma find_sorted_least:
  assumes "sorted (map f xs)" and "find P xs = Some x"
  shows "x \<in> set xs \<and> P x \<and> (\<forall>y\<in>set xs. P y \<longrightarrow> f x \<le> f y)"
  using assms by (induction xs) (auto split: if_splits)

lemma rule_key_inj: "distinct (map ru_id rs) \<Longrightarrow> inj_on rule_key (set rs)"
  by (auto simp: rule_key_def inj_on_def distinct_map)

lemma routing_order_independent:
  assumes "mset rs = mset rs'" and "routing_from_rules rs = Inr t"
  shows "routing_from_rules rs' = Inr t"
proof -
  have d: "distinct (map ru_id rs)" and t: "t = sort_key rule_key rs"
    and ne: "\<forall>r\<in>set rs. trim (ru_id r) \<noteq> []"
    using assms(2) by (simp_all add: routing_from_rules_Inr)
  have "mset (map ru_id rs') = mset (map ru_id rs)" using assms(1) by simp
  then have d': "distinct (map ru_id rs')" using d mset_eq_imp_distinct_iff by blast
  have "sort_key rule_key rs = sort_key rule_key rs'"
    using assms(1) d by (intro sort_key_inj_key_eq) (simp_all add: rule_key_inj)
  moreover have "set rs' = set rs" using assms(1) by (metis set_mset_mset)
  ultimately show ?thesis using t d' ne by (simp add: routing_from_rules_Inr)
qed


text \<open>
  The table that is loaded from a list of rules routes a message by the matching rule of
  highest priority, and among those by the one with the least id; a message that no rule matches
  gets the default route. The order in which the rules are written has no influence: any
  permutation of them loads the same table.
\<close>

theorem route_highest_priority:
  assumes "routing_from_rules rules = Inr table" and "mset rules = mset rules'"
  shows "(case rd_matched_rule_id (decide table input) of
      None \<Rightarrow> (\<forall>r\<in>set rules. \<not> rule_matches r input) \<and> decide table input = decide [] input
    | Some i \<Rightarrow> \<exists>r\<in>set rules. ru_id r = i \<and> rule_matches r input \<and> decide table input = decide [r] input \<and>
        (\<forall>q\<in>set rules. rule_matches q input \<longrightarrow> ru_priority q < ru_priority r \<or>
           ru_priority q = ru_priority r \<and> ru_id r \<le> ru_id q)) \<and>
    routing_from_rules rules' = Inr table"
proof -
  have t: "table = sort_key rule_key rules" using assms(1) by (simp add: routing_from_rules_Inr)
  show ?thesis
  proof (cases "find (\<lambda>r. rule_matches r input) table")
    case None
    then have no: "\<forall>r\<in>set rules. \<not> rule_matches r input" by (simp add: find_None_iff t)
    have "decide table input = decide [] input" using None by (subst decide_find) simp
    with no show ?thesis using routing_order_independent [OF assms(2,1)] by simp
  next
    case (Some r)
    have d: "decide table input = decide [r] input" using Some by (subst decide_find) simp
    have "r \<in> set rules \<and> rule_matches r input \<and> (\<forall>q\<in>set rules. rule_matches q input \<longrightarrow> rule_key r \<le> rule_key q)"
      using find_sorted_least [OF _ Some, of rule_key] by (simp add: t)
    then show ?thesis using d routing_order_independent [OF assms(2,1)]
      by (auto simp: rule_key_def intro!: bexI [of _ r])
  qed
qed

definition demo_rule :: "string \<Rightarrow> int \<Rightarrow> string option \<Rightarrow> route_rule" where
  "demo_rule i p c = \<lparr>ru_id = i, ru_priority = p, ru_channel = c, ru_account_id = None, ru_sender_tier = None,
     ru_session_id = None, ru_workspace_dir = None, ru_route_session_id = Some i,
     ru_route_workspace_dir = None, ru_route_system_prompt = None\<rparr>"

definition demo_rules :: "route_rule list" where
  "demo_rules = [demo_rule ''any'' 1 None, demo_rule ''vip'' 5 (Some '' Slack '')]"

definition demo_route_input :: route_input where
  "demo_route_input = \<lparr>ri_channel = ''slack'', ri_account_id = ''C1'', ri_requested_session_id = None,
     ri_requested_workspace_dir = None, ri_sender_tier = Standard\<rparr>"

theorem route_highest_priority_witness:
  "\<exists>table. routing_from_rules demo_rules = Inr table \<and> routing_from_rules (rev demo_rules) = Inr table \<and>
     rd_matched_rule_id (decide table demo_route_input) = Some ''vip''"
proof -
  have l: "routing_from_rules demo_rules = Inr (rev demo_rules)"
    by (simp add: routing_from_rules_def demo_rules_def demo_rule_def rule_key_def str_eval)
  have m: "rule_matches (demo_rule ''vip'' 5 (Some '' Slack '')) demo_route_input"
    by (simp add: rule_matches_def demo_rule_def demo_route_input_def str_eval)
  show ?thesis
    using l m route_highest_priority [OF l, of "rev demo_rules" demo_route_input]
    by (auto simp: demo_rules_def demo_rule_def split: option.splits)
qed

end
