(* ===== verification/Channel_Config.thy ===== *)
theory Channel_Config
  imports Channel_Routing
begin

section \<open>Channel configuration (kelvin-gateway/src/channels.rs, consts.rs)\<close>

text \<open>
  \<open>TextChannelConfig::from_env\<close> reads the limits, the trust lists and the transport of a channel
  from environment variables. The process environment is the parameter \<open>getenv\<close>; the URL parser of
  the \<open>url\<close> crate, reading a module from disk and creating the WebAssembly engine are the record
  \<open>config_env\<close>. The warning on standard error for a missing bot token is left out.
\<close>

subsection \<open>Constants\<close>

definition CHANNEL_QUOTA_STANDARD_DEFAULT_PER_MINUTE :: nat where
  "CHANNEL_QUOTA_STANDARD_DEFAULT_PER_MINUTE = 20"
definition CHANNEL_QUOTA_MIN_PER_MINUTE :: nat where "CHANNEL_QUOTA_MIN_PER_MINUTE = 1"
definition CHANNEL_QUOTA_MAX_STANDARD_PER_MINUTE :: nat where "CHANNEL_QUOTA_MAX_STANDARD_PER_MINUTE = 20000"
definition CHANNEL_QUOTA_MAX_OWNER_PER_MINUTE :: nat where "CHANNEL_QUOTA_MAX_OWNER_PER_MINUTE = 80000"
definition CHANNEL_QUOTA_MAX_TRUSTED_PER_MINUTE :: nat where "CHANNEL_QUOTA_MAX_TRUSTED_PER_MINUTE = 40000"
definition CHANNEL_COOLDOWN_PROBATION_DEFAULT_MS :: nat where "CHANNEL_COOLDOWN_PROBATION_DEFAULT_MS = 1000"
definition CHANNEL_COOLDOWN_PROBATION_MAX_MS :: nat where "CHANNEL_COOLDOWN_PROBATION_MAX_MS = 600000"
definition CHANNEL_MAX_SEEN_DELIVERY_IDS_DEFAULT :: nat where "CHANNEL_MAX_SEEN_DELIVERY_IDS_DEFAULT = 4096"
definition CHANNEL_MAX_SEEN_DELIVERY_IDS_MIN :: nat where "CHANNEL_MAX_SEEN_DELIVERY_IDS_MIN = 128"
definition CHANNEL_MAX_SEEN_DELIVERY_IDS_MAX :: nat where "CHANNEL_MAX_SEEN_DELIVERY_IDS_MAX = 200000"
definition CHANNEL_MAX_QUEUE_DEPTH_DEFAULT :: nat where "CHANNEL_MAX_QUEUE_DEPTH_DEFAULT = 1024"
definition CHANNEL_MAX_QUEUE_DEPTH_MAX :: nat where "CHANNEL_MAX_QUEUE_DEPTH_MAX = 100000"
definition CHANNEL_MAX_TEXT_BYTES_DEFAULT :: nat where "CHANNEL_MAX_TEXT_BYTES_DEFAULT = 4096"
definition CHANNEL_MAX_TEXT_BYTES_MIN :: nat where "CHANNEL_MAX_TEXT_BYTES_MIN = 64"
definition CHANNEL_MAX_TEXT_BYTES_MAX :: nat where "CHANNEL_MAX_TEXT_BYTES_MAX = 64000"
definition CHANNEL_OUTBOUND_MAX_RETRIES_DEFAULT :: nat where "CHANNEL_OUTBOUND_MAX_RETRIES_DEFAULT = 2"
definition CHANNEL_OUTBOUND_MAX_RETRIES_MAX :: nat where "CHANNEL_OUTBOUND_MAX_RETRIES_MAX = 10"
definition CHANNEL_OUTBOUND_RETRY_BACKOFF_DEFAULT_MS :: nat where
  "CHANNEL_OUTBOUND_RETRY_BACKOFF_DEFAULT_MS = 200"
definition CHANNEL_OUTBOUND_RETRY_BACKOFF_MAX_MS :: nat where "CHANNEL_OUTBOUND_RETRY_BACKOFF_MAX_MS = 20000"
definition MAX_CHANNEL_IDENTIFIER_BYTES :: nat where "MAX_CHANNEL_IDENTIFIER_BYTES = 256"

lemmas channel_consts = CHANNEL_QUOTA_STANDARD_DEFAULT_PER_MINUTE_def CHANNEL_QUOTA_MIN_PER_MINUTE_def
  CHANNEL_QUOTA_MAX_STANDARD_PER_MINUTE_def CHANNEL_QUOTA_MAX_OWNER_PER_MINUTE_def
  CHANNEL_QUOTA_MAX_TRUSTED_PER_MINUTE_def CHANNEL_COOLDOWN_PROBATION_DEFAULT_MS_def
  CHANNEL_COOLDOWN_PROBATION_MAX_MS_def CHANNEL_MAX_SEEN_DELIVERY_IDS_DEFAULT_def
  CHANNEL_MAX_SEEN_DELIVERY_IDS_MIN_def CHANNEL_MAX_SEEN_DELIVERY_IDS_MAX_def
  CHANNEL_MAX_QUEUE_DEPTH_DEFAULT_def CHANNEL_MAX_QUEUE_DEPTH_MAX_def CHANNEL_MAX_TEXT_BYTES_DEFAULT_def
  CHANNEL_MAX_TEXT_BYTES_MIN_def CHANNEL_MAX_TEXT_BYTES_MAX_def CHANNEL_OUTBOUND_MAX_RETRIES_DEFAULT_def
  CHANNEL_OUTBOUND_MAX_RETRIES_MAX_def CHANNEL_OUTBOUND_RETRY_BACKOFF_DEFAULT_MS_def
  CHANNEL_OUTBOUND_RETRY_BACKOFF_MAX_MS_def MAX_CHANNEL_IDENTIFIER_BYTES_def

subsection \<open>Data\<close>

fun env_prefix :: "channel_kind \<Rightarrow> string" where
  "env_prefix Telegram = ''KELVIN_TELEGRAM''"
| "env_prefix Slack = ''KELVIN_SLACK''"
| "env_prefix Discord = ''KELVIN_DISCORD''"
| "env_prefix WhatsApp = ''KELVIN_WHATSAPP''"

record channel_policy =
  cp_ingress_token :: "string option"
  cp_allow_accounts :: "string set"
  cp_allow_senders :: "string set"
  cp_owner_senders :: "string set"
  cp_trusted_senders :: "string set"
  cp_probation_senders :: "string set"
  cp_blocked_senders :: "string set"
  cp_quota_owner_per_minute :: nat
  cp_quota_standard_per_minute :: nat
  cp_quota_trusted_per_minute :: nat
  cp_quota_probation_per_minute :: nat
  cp_cooldown_probation_ms :: nat
  cp_max_seen_delivery_ids :: nat
  cp_max_queue_depth :: nat
  cp_max_text_bytes :: nat

record channel_transport =
  ct_api_base_url :: string
  ct_bot_token :: "string option"
  ct_outbound_max_retries :: nat
  ct_outbound_retry_backoff_ms :: nat

record direct_ingress_config =
  di_listener_enabled :: bool
  di_webhook_path :: "string option"
  di_verification_method :: "string option"
  di_verification_configured :: bool

record channel_sandbox_policy =
  sb_max_module_bytes :: nat
  sb_max_request_bytes :: nat
  sb_max_response_bytes :: nat
  sb_fuel_budget :: nat

record wasm_policy_plugin =
  wp_module_path :: string
  wp_wasm_bytes :: "nat list"
  wp_policy :: channel_sandbox_policy

record text_channel_config =
  tc_kind :: channel_kind
  tc_enabled :: bool
  tc_pairing_enabled :: bool
  tc_direct_ingress :: direct_ingress_config
  tc_policy :: channel_policy
  tc_transport :: channel_transport
  tc_wasm_policy_plugin :: "wasm_policy_plugin option"

record parsed_url =
  u_scheme :: string
  u_username :: string
  u_password :: "string option"
  u_query :: "string option"
  u_fragment :: "string option"
  u_host :: "string option"

record config_env =
  ev_getenv :: "string \<Rightarrow> string option"
  ev_parse_url :: "string \<Rightarrow> string + parsed_url"
  ev_read_module :: "string \<Rightarrow> string + nat list"
  ev_new_engine :: "unit kelvin_result"

subsection \<open>Reading variables\<close>

definition read_env_text :: "config_env \<Rightarrow> string \<Rightarrow> string option" where
  "read_env_text env name = non_blank (ev_getenv env name)"

definition read_env_csv_set :: "config_env \<Rightarrow> string \<Rightarrow> string set" where
  "read_env_csv_set env name = (case read_env_text env name of
     None \<Rightarrow> {}
   | Some v \<Rightarrow> set (filter (\<lambda>item. item \<noteq> []) (map trim (split_char CHR '','' v))))"

text \<open>
  \<open>to_lowercase\<close> agrees with its ASCII version in a comparison with an ASCII word, on the modelled
  characters.
\<close>

definition read_env_bool :: "config_env \<Rightarrow> string \<Rightarrow> bool \<Rightarrow> bool kelvin_result" where
  "read_env_bool env name dflt = (case ev_getenv env name of
     None \<Rightarrow> Inr dflt
   | Some v \<Rightarrow> let s = to_ascii_lowercase (trim v) in
       if s \<in> {''1'', ''true'', ''yes'', ''on''} then Inr True
       else if s \<in> {''0'', ''false'', ''no'', ''off''} then Inr False
       else Inl (InvalidInput (''invalid boolean value for '' @ name @ '': '' @ v)))"

text \<open>
  \<open>read_env_usize\<close>, \<open>read_env_u64\<close> and \<open>read_env_u8\<close> differ only in the largest value that parses.
\<close>

definition read_env_number :: "nat \<Rightarrow> config_env \<Rightarrow> string \<Rightarrow> nat \<Rightarrow> nat \<Rightarrow> nat \<Rightarrow> nat kelvin_result" where
  "read_env_number type_max env name dflt lo hi = (case ev_getenv env name of
     None \<Rightarrow> Inr dflt
   | Some v \<Rightarrow> (case parse_unsigned type_max (trim v) of
       None \<Rightarrow> Inl (InvalidInput (''invalid numeric value for '' @ name @ '': '' @ v))
     | Some parsed \<Rightarrow>
         if parsed < lo \<or> hi < parsed then
           Inl (InvalidInput (name @ '' must be between '' @ show_nat lo @ '' and '' @ show_nat hi))
         else Inr parsed))"

definition read_env_usize :: "config_env \<Rightarrow> string \<Rightarrow> nat \<Rightarrow> nat \<Rightarrow> nat \<Rightarrow> nat kelvin_result" where
  "read_env_usize = read_env_number u64_max"

definition read_env_u64 :: "config_env \<Rightarrow> string \<Rightarrow> nat \<Rightarrow> nat \<Rightarrow> nat \<Rightarrow> nat kelvin_result" where
  "read_env_u64 = read_env_number u64_max"

definition read_env_u8 :: "config_env \<Rightarrow> string \<Rightarrow> nat \<Rightarrow> nat \<Rightarrow> nat \<Rightarrow> nat kelvin_result" where
  "read_env_u8 = read_env_number 255"

fun default_base_url :: "channel_kind \<Rightarrow> string" where
  "default_base_url Telegram = ''https://api.telegram.org''"
| "default_base_url Slack = ''https://slack.com/api''"
| "default_base_url Discord = ''https://discord.com/api/v10''"
| "default_base_url WhatsApp = ''https://graph.facebook.com/v21.0''"

fun default_host :: "channel_kind \<Rightarrow> string" where
  "default_host Telegram = ''api.telegram.org''"
| "default_host Slack = ''slack.com''"
| "default_host Discord = ''discord.com''"
| "default_host WhatsApp = ''graph.facebook.com''"

definition validate_base_url :: "config_env \<Rightarrow> channel_kind \<Rightarrow> string \<Rightarrow> bool \<Rightarrow> unit kelvin_result" where
  "validate_base_url env kind raw allow_custom_base = (case ev_parse_url env raw of
     Inl err \<Rightarrow> Inl (InvalidInput (''invalid '' @ kind_as_str kind @ '' api base url '' @ quoted raw @ '': '' @ err))
   | Inr u \<Rightarrow>
       if u_scheme u \<noteq> ''https'' then
         Inl (InvalidInput (kind_as_str kind @ '' api base url must use https''))
       else if u_username u \<noteq> [] \<or> u_password u \<noteq> None then
         Inl (InvalidInput (kind_as_str kind @ '' api base url must not include credentials''))
       else if u_query u \<noteq> None \<or> u_fragment u \<noteq> None then
         Inl (InvalidInput (kind_as_str kind @ '' api base url must not include query or fragment''))
       else if \<not> allow_custom_base \<and> to_ascii_lowercase (opt_or (u_host u) []) \<noteq> default_host kind then
         Inl (InvalidInput (kind_as_str kind @ '' api base url host must be '' @ quoted (default_host kind) @
           '' unless '' @ env_prefix kind @ ''_ALLOW_CUSTOM_BASE_URL=true''))
       else Inr ())"

definition default_sandbox_policy :: channel_sandbox_policy where
  "default_sandbox_policy = \<lparr>sb_max_module_bytes = 512 * 1024, sb_max_request_bytes = 256 * 1024,
     sb_max_response_bytes = 256 * 1024, sb_fuel_budget = 1000000\<rparr>"

definition wasm_plugin_from_env :: "config_env \<Rightarrow> channel_kind \<Rightarrow> wasm_policy_plugin option kelvin_result" where
  "wasm_plugin_from_env env kind = (let prefix = env_prefix kind in
     case read_env_text env (prefix @ ''_WASM_POLICY_PATH'') of
       None \<Rightarrow> Inr None
     | Some path \<Rightarrow> (case ev_read_module env path of
         Inl err \<Rightarrow> Inl (Io (''failed to read '' @ kind_as_str kind @ '' channel wasm policy module '' @
           quoted path @ '': '' @ err))
       | Inr bytes \<Rightarrow>
           bindR (read_env_usize env (prefix @ ''_WASM_MAX_MODULE_BYTES'')
             (sb_max_module_bytes default_sandbox_policy) 1024 (16 * 1024 * 1024)) (\<lambda>m.
           bindR (read_env_usize env (prefix @ ''_WASM_MAX_REQUEST_BYTES'')
             (sb_max_request_bytes default_sandbox_policy) 256 (2 * 1024 * 1024)) (\<lambda>q.
           bindR (read_env_usize env (prefix @ ''_WASM_MAX_RESPONSE_BYTES'')
             (sb_max_response_bytes default_sandbox_policy) 256 (2 * 1024 * 1024)) (\<lambda>p.
           bindR (read_env_u64 env (prefix @ ''_WASM_FUEL_BUDGET'')
             (sb_fuel_budget default_sandbox_policy) 1000 100000000) (\<lambda>f.
           bindR (ev_new_engine env) (\<lambda>_.
           Inr (Some \<lparr>wp_module_path = path, wp_wasm_bytes = bytes, wp_policy =
             \<lparr>sb_max_module_bytes = m, sb_max_request_bytes = q, sb_max_response_bytes = p,
              sb_fuel_budget = f\<rparr>\<rparr>))))))))"


subsection \<open>The configuration of a channel\<close>

type_synonym policy_limits = "nat \<times> nat \<times> nat \<times> nat \<times> nat \<times> nat \<times> nat \<times> nat"

definition read_limits :: "config_env \<Rightarrow> string \<Rightarrow> policy_limits kelvin_result" where
  "read_limits env prefix =
     bindR (read_env_usize env (prefix @ ''_MAX_MESSAGES_PER_MINUTE'')
       CHANNEL_QUOTA_STANDARD_DEFAULT_PER_MINUTE CHANNEL_QUOTA_MIN_PER_MINUTE
       CHANNEL_QUOTA_MAX_STANDARD_PER_MINUTE) (\<lambda>standard.
     bindR (read_env_usize env (prefix @ ''_MAX_MESSAGES_PER_MINUTE_OWNER'')
       (max (min (standard * 4) u64_max) CHANNEL_QUOTA_MIN_PER_MINUTE) CHANNEL_QUOTA_MIN_PER_MINUTE
       CHANNEL_QUOTA_MAX_OWNER_PER_MINUTE) (\<lambda>owner.
     bindR (read_env_usize env (prefix @ ''_MAX_MESSAGES_PER_MINUTE_TRUSTED'')
       (max (min (standard * 2) u64_max) CHANNEL_QUOTA_MIN_PER_MINUTE) CHANNEL_QUOTA_MIN_PER_MINUTE
       CHANNEL_QUOTA_MAX_TRUSTED_PER_MINUTE) (\<lambda>trusted.
     bindR (read_env_usize env (prefix @ ''_MAX_MESSAGES_PER_MINUTE_PROBATION'')
       (max (standard div 2) CHANNEL_QUOTA_MIN_PER_MINUTE) CHANNEL_QUOTA_MIN_PER_MINUTE
       CHANNEL_QUOTA_MAX_STANDARD_PER_MINUTE) (\<lambda>probation.
     bindR (read_env_u64 env (prefix @ ''_COOLDOWN_MS_PROBATION'') CHANNEL_COOLDOWN_PROBATION_DEFAULT_MS 0
       CHANNEL_COOLDOWN_PROBATION_MAX_MS) (\<lambda>cooldown.
     bindR (read_env_usize env (prefix @ ''_MAX_SEEN_DELIVERY_IDS'') CHANNEL_MAX_SEEN_DELIVERY_IDS_DEFAULT
       CHANNEL_MAX_SEEN_DELIVERY_IDS_MIN CHANNEL_MAX_SEEN_DELIVERY_IDS_MAX) (\<lambda>max_seen.
     bindR (read_env_usize env (prefix @ ''_MAX_QUEUE_DEPTH'') CHANNEL_MAX_QUEUE_DEPTH_DEFAULT
       CHANNEL_QUOTA_MIN_PER_MINUTE CHANNEL_MAX_QUEUE_DEPTH_MAX) (\<lambda>max_queue.
     bindR (read_env_usize env (prefix @ ''_MAX_TEXT_BYTES'') CHANNEL_MAX_TEXT_BYTES_DEFAULT
       CHANNEL_MAX_TEXT_BYTES_MIN CHANNEL_MAX_TEXT_BYTES_MAX) (\<lambda>max_text.
     Inr (standard, owner, trusted, probation, cooldown, max_seen, max_queue, max_text)))))))))"

definition read_policy :: "config_env \<Rightarrow> channel_kind \<Rightarrow> channel_policy kelvin_result" where
  "read_policy env kind = (let prefix = env_prefix kind; tg = (kind = Telegram);
       csv = (\<lambda>name. read_env_csv_set env name);
       allow_accounts = csv (prefix @ ''_ALLOW_ACCOUNT_IDS'') \<union>
         (if tg then csv ''KELVIN_TELEGRAM_ALLOW_CHAT_IDS'' else {}) in
     bindR (read_limits env prefix) (\<lambda>(standard, owner, trusted, probation, cooldown, max_seen, max_queue, max_text).
     Inr \<lparr>cp_ingress_token = read_env_text env (prefix @ ''_INGRESS_TOKEN''),
       cp_allow_accounts = allow_accounts,
       cp_allow_senders = csv (prefix @ ''_ALLOW_SENDER_IDS'') \<union> (if tg then allow_accounts else {}),
       cp_owner_senders = csv (prefix @ ''_OWNER_IDS'') \<union>
         (if tg then csv ''KELVIN_TELEGRAM_OWNER_CHAT_IDS'' else {}),
       cp_trusted_senders = csv (prefix @ ''_TRUSTED_SENDER_IDS'') \<union>
         (if tg then csv ''KELVIN_TELEGRAM_TRUSTED_CHAT_IDS'' else {}),
       cp_probation_senders = csv (prefix @ ''_PROBATION_SENDER_IDS'') \<union>
         (if tg then csv ''KELVIN_TELEGRAM_PROBATION_CHAT_IDS'' else {}),
       cp_blocked_senders = csv (prefix @ ''_BLOCKED_SENDER_IDS'') \<union>
         (if tg then csv ''KELVIN_TELEGRAM_BLOCKED_CHAT_IDS'' else {}),
       cp_quota_owner_per_minute = owner,
       cp_quota_standard_per_minute = standard,
       cp_quota_trusted_per_minute = trusted,
       cp_quota_probation_per_minute = probation,
       cp_cooldown_probation_ms = cooldown,
       cp_max_seen_delivery_ids = max_seen,
       cp_max_queue_depth = max_queue,
       cp_max_text_bytes = max_text\<rparr>))"

definition config_from_env ::
    "config_env \<Rightarrow> channel_kind \<Rightarrow> direct_ingress_config \<Rightarrow> text_channel_config kelvin_result" where
  "config_from_env env kind direct_ingress = (let prefix = env_prefix kind;
       api_base_url = opt_or (read_env_text env (prefix @ ''_API_BASE_URL'')) (default_base_url kind) in
     bindR (read_env_bool env (prefix @ ''_ENABLED'') False) (\<lambda>enabled.
     bindR (read_env_bool env (prefix @ ''_ALLOW_CUSTOM_BASE_URL'') False) (\<lambda>allow_custom_base.
     bindR (validate_base_url env kind api_base_url allow_custom_base) (\<lambda>_.
     bindR (if kind = Telegram then read_env_bool env ''KELVIN_TELEGRAM_PAIRING_ENABLED'' True
       else Inr False) (\<lambda>pairing_enabled.
     bindR (read_policy env kind) (\<lambda>policy.
     bindR (read_env_u8 env (prefix @ ''_OUTBOUND_MAX_RETRIES'') CHANNEL_OUTBOUND_MAX_RETRIES_DEFAULT 0
       CHANNEL_OUTBOUND_MAX_RETRIES_MAX) (\<lambda>retries.
     bindR (read_env_u64 env (prefix @ ''_OUTBOUND_RETRY_BACKOFF_MS'')
       CHANNEL_OUTBOUND_RETRY_BACKOFF_DEFAULT_MS 1 CHANNEL_OUTBOUND_RETRY_BACKOFF_MAX_MS) (\<lambda>backoff.
     bindR (wasm_plugin_from_env env kind) (\<lambda>plugin.
     Inr \<lparr>tc_kind = kind, tc_enabled = enabled, tc_pairing_enabled = pairing_enabled,
       tc_direct_ingress = direct_ingress, tc_policy = policy,
       tc_transport = \<lparr>ct_api_base_url = api_base_url, ct_bot_token = read_env_text env (prefix @ ''_BOT_TOKEN''),
         ct_outbound_max_retries = retries, ct_outbound_retry_backoff_ms = backoff\<rparr>,
       tc_wasm_policy_plugin = plugin\<rparr>)))))))))"

subsection \<open>Limits\<close>

lemma read_env_number_bounds:
  "read_env_number m env name dflt lo hi = Inr n \<Longrightarrow> lo \<le> dflt \<and> dflt \<le> hi \<longrightarrow> lo \<le> n \<and> n \<le> hi"
  by (auto simp: read_env_number_def split: option.splits if_splits)

lemmas read_env_bounds = read_env_number_bounds [where m = u64_max, folded read_env_usize_def]
  read_env_number_bounds [where m = u64_max, folded read_env_u64_def]
  read_env_number_bounds [where m = 255, folded read_env_u8_def]

definition policy_in_bounds :: "channel_policy \<Rightarrow> bool" where
  "policy_in_bounds p \<longleftrightarrow>
     1 \<le> cp_quota_standard_per_minute p \<and> cp_quota_standard_per_minute p \<le> 20000 \<and>
     1 \<le> cp_quota_owner_per_minute p \<and> cp_quota_owner_per_minute p \<le> 80000 \<and>
     1 \<le> cp_quota_trusted_per_minute p \<and> cp_quota_trusted_per_minute p \<le> 40000 \<and>
     1 \<le> cp_quota_probation_per_minute p \<and> cp_quota_probation_per_minute p \<le> 20000 \<and>
     cp_cooldown_probation_ms p \<le> 600000 \<and>
     128 \<le> cp_max_seen_delivery_ids p \<and> cp_max_seen_delivery_ids p \<le> 200000 \<and>
     1 \<le> cp_max_queue_depth p \<and> cp_max_queue_depth p \<le> 100000 \<and>
     64 \<le> cp_max_text_bytes p \<and> cp_max_text_bytes p \<le> 64000"

lemma read_limits_bounds:
  assumes "read_limits env prefix = Inr (s, w, t, b, c, seen, queue, bytes)"
  shows "1 \<le> s \<and> s \<le> 20000 \<and> 1 \<le> w \<and> w \<le> 80000 \<and> 1 \<le> t \<and> t \<le> 40000 \<and> 1 \<le> b \<and> b \<le> 20000 \<and>
    c \<le> 600000 \<and> 128 \<le> seen \<and> seen \<le> 200000 \<and> 1 \<le> queue \<and> queue \<le> 100000 \<and>
    64 \<le> bytes \<and> bytes \<le> 64000"
proof -
  note r = assms [unfolded read_limits_def channel_consts bindR_Inr_iff sum.inject prod.inject]
  have s: "1 \<le> s \<and> s \<le> 20000" using r by (elim exE conjE) (drule read_env_bounds, simp)
  show ?thesis using r s by (elim exE conjE) (drule read_env_bounds, simp)+
qed

lemma read_policy_in_bounds:
  assumes "read_policy env kind = Inr p"
  shows "policy_in_bounds p"
proof -
  obtain s w t b c seen queue bytes where
      l: "read_limits env (env_prefix kind) = Inr (s, w, t, b, c, seen, queue, bytes)"
    and p: "cp_quota_standard_per_minute p = s" "cp_quota_owner_per_minute p = w"
      "cp_quota_trusted_per_minute p = t" "cp_quota_probation_per_minute p = b"
      "cp_cooldown_probation_ms p = c" "cp_max_seen_delivery_ids p = seen"
      "cp_max_queue_depth p = queue" "cp_max_text_bytes p = bytes"
    using assms unfolding read_policy_def Let_def bindR_Inr_iff by auto
  show ?thesis using read_limits_bounds [OF l] by (simp add: policy_in_bounds_def p)
qed

text \<open>
  Whatever the environment variables hold, a channel configuration that is accepted has every
  limit within its documented bounds (also the quotas whose default is derived from the standard
  quota), retries a message at most ten times, keeps pairing off except on Telegram, and sends to a
  base URL with scheme https, without credentials, query or fragment, and on the channel's own host
  unless a custom base was allowed by the environment.
\<close>

theorem config_limits_in_bounds:
  assumes "config_from_env env kind ingress = Inr cfg"
  shows "policy_in_bounds (tc_policy cfg) \<and>
    ct_outbound_max_retries (tc_transport cfg) \<le> 10 \<and>
    1 \<le> ct_outbound_retry_backoff_ms (tc_transport cfg) \<and>
    ct_outbound_retry_backoff_ms (tc_transport cfg) \<le> 20000 \<and>
    (tc_pairing_enabled cfg \<longrightarrow> kind = Telegram) \<and>
    (\<exists>u. ev_parse_url env (ct_api_base_url (tc_transport cfg)) = Inr u \<and> u_scheme u = ''https'' \<and>
       u_username u = [] \<and> u_password u = None \<and> u_query u = None \<and> u_fragment u = None \<and>
       (read_env_bool env (env_prefix kind @ ''_ALLOW_CUSTOM_BASE_URL'') False = Inr True \<or>
        to_ascii_lowercase (opt_or (u_host u) []) = default_host kind))"
proof -
  have "policy_in_bounds (tc_policy cfg)"
    using assms by (auto simp: config_from_env_def Let_def dest: read_policy_in_bounds)
  moreover have "ct_outbound_max_retries (tc_transport cfg) \<le> 10"
    using assms by (auto simp: config_from_env_def Let_def channel_consts dest!: read_env_bounds)
  moreover have "1 \<le> ct_outbound_retry_backoff_ms (tc_transport cfg) \<and>
      ct_outbound_retry_backoff_ms (tc_transport cfg) \<le> 20000"
    using assms by (auto simp: config_from_env_def Let_def channel_consts dest!: read_env_bounds)
  moreover have "tc_pairing_enabled cfg \<longrightarrow> kind = Telegram"
    using assms by (auto simp: config_from_env_def Let_def split: if_splits)
  moreover obtain b where "read_env_bool env (env_prefix kind @ ''_ALLOW_CUSTOM_BASE_URL'') False = Inr b"
      "validate_base_url env kind (ct_api_base_url (tc_transport cfg)) b = Inr ()"
    using assms by (auto simp: config_from_env_def Let_def)
  ultimately show ?thesis
    by (auto simp: validate_base_url_def split: sum.splits if_splits)
qed

text \<open>An environment with a Slack channel and a large standard quota.\<close>

definition demo_config_env :: config_env where
  "demo_config_env = \<lparr>
     ev_getenv = (\<lambda>name. if name = ''KELVIN_SLACK_ENABLED'' then Some ''yes''
       else if name = ''KELVIN_SLACK_MAX_MESSAGES_PER_MINUTE'' then Some ''20000'' else None),
     ev_parse_url = (\<lambda>raw. Inr \<lparr>u_scheme = ''https'', u_username = [], u_password = None, u_query = None,
       u_fragment = None, u_host = Some ''Slack.com''\<rparr>),
     ev_read_module = (\<lambda>_. Inl []), ev_new_engine = Inr ()\<rparr>"

definition demo_ingress :: direct_ingress_config where
  "demo_ingress = \<lparr>di_listener_enabled = False, di_webhook_path = None, di_verification_method = None,
     di_verification_configured = False\<rparr>"

lemma demo_getenv:
  "ev_getenv demo_config_env name = (if name = ''KELVIN_SLACK_ENABLED'' then Some ''yes''
     else if name = ''KELVIN_SLACK_MAX_MESSAGES_PER_MINUTE'' then Some ''20000'' else None)"
  by (simp add: demo_config_env_def)

theorem config_limits_in_bounds_witness:
  "\<exists>cfg. config_from_env demo_config_env Slack demo_ingress = Inr cfg \<and>
     cp_quota_owner_per_minute (tc_policy cfg) = 80000 \<and> policy_in_bounds (tc_policy cfg)"
proof -
  have num: "parse_unsigned u64_max (trim ''20000'') = Some 20000"
    by (simp add: parse_unsigned_def str_eval u64_max_def)
  have "\<exists>cfg. config_from_env demo_config_env Slack demo_ingress = Inr cfg \<and>
      cp_quota_owner_per_minute (tc_policy cfg) = 80000"
    by (simp add: config_from_env_def read_policy_def read_limits_def Let_def read_env_bool_def read_env_usize_def read_env_u64_def
        read_env_u8_def read_env_number_def read_env_text_def read_env_csv_set_def non_blank_def
        validate_base_url_def wasm_plugin_from_env_def demo_getenv channel_consts num
        u64_max_def [symmetric])
      (simp add: demo_config_env_def opt_or_def str_eval u64_max_def ex_bool_eq)
  then show ?thesis using config_limits_in_bounds by blast
qed

end
