(* ===== verification/Bounded_Memory.thy ===== *)
theory Bounded_Memory
  imports Kelvin_Prelude
begin

section \<open>The contract of a bounded memory\<close>

text \<open>
  Three parts of the gateway remember a bounded number of keys in a queue with an index beside it: the
  seen deliveries of a channel, the idempotency cache and the failed logins of a peer. What their
  clients rely on is how long a key is remembered. The locale \<open>bounded_memory\<close> states it by the age of
  a key, the number of keys that would be forgotten after it, and derives the retention window once.
\<close>

definition age :: "'k \<Rightarrow> 'k list \<Rightarrow> nat" where
  "age k order = length (takeWhile (\<lambda>x. x \<noteq> k) (rev order))"

text \<open>The queue after a new key, with at most \<open>n\<close> keys kept.\<close>

definition fifo_put :: "nat \<Rightarrow> 'k \<Rightarrow> 'k list \<Rightarrow> 'k list" where
  "fifo_put n x xs = drop (Suc (length xs) - n) (xs @ [x])"

lemma age_snoc [simp]: "age k (xs @ [x]) = (if x = k then 0 else Suc (age k xs))"
  by (simp add: age_def)

lemma age_lt_length: "k \<in> set xs \<Longrightarrow> age k xs < length xs"
  by (induction xs rule: rev_induct) auto

lemma age_drop:
  assumes "k \<in> set xs" and "age k xs < length xs - m"
  shows "k \<in> set (drop m xs) \<and> age k (drop m xs) = age k xs"
  using assms
proof (induction xs rule: rev_induct)
  case (snoc x xs)
  then have "m \<le> length xs" by simp
  then show ?case using snoc by auto
qed simp

lemma age_removeAll: "k \<noteq> x \<Longrightarrow> age k (removeAll x xs) \<le> age k xs"
  by (induction xs rule: rev_induct) auto

lemma fifo_put_fresh: "0 < n \<Longrightarrow> x \<in> set (fifo_put n x xs) \<and> age x (fifo_put n x xs) = 0"
  using age_drop [of x "xs @ [x]" "Suc (length xs) - n"] by (simp add: fifo_put_def)

lemma fifo_put_retain:
  assumes "k \<in> set xs" and "Suc (age k xs) < n"
  shows "k \<in> set (fifo_put n x xs) \<and> age k (fifo_put n x xs) \<le> Suc (age k xs)"
proof -
  have "age k (xs @ [x]) < length (xs @ [x]) - (Suc (length xs) - n)"
    using assms age_lt_length [OF assms(1)] by auto
  then show ?thesis using age_drop [of k "xs @ [x]" "Suc (length xs) - n"] assms(1)
    by (auto simp: fifo_put_def)
qed

lemma fifo_put_distinct: "distinct xs \<Longrightarrow> x \<notin> set xs \<Longrightarrow> distinct (fifo_put n x xs)"
  unfolding fifo_put_def by (rule distinct_drop) simp

lemma length_fifo_put: "length (fifo_put n x xs) = min n (Suc (length xs))"
  by (simp add: fifo_put_def)

lemma fifo_put_one:
  "length xs \<le> n \<Longrightarrow> 0 < n \<Longrightarrow> fifo_put n x xs = (if n \<le> length xs then tl xs @ [x] else xs @ [x])"
  by (cases xs) (auto simp: fifo_put_def)

lemma drop_fifo_put:
  "drop (length (fifo_put n x xs) + length ys - n) (fifo_put n x xs @ ys) =
     drop (length xs + length (x # ys) - n) (xs @ x # ys)"
proof -
  have "fifo_put n x xs @ ys = drop (Suc (length xs) - n) (xs @ x # ys)"
    by (cases "n = 0") (simp_all add: fifo_put_def)
  moreover have "length (fifo_put n x xs) + length ys - n + (Suc (length xs) - n) = length xs + length (x # ys) - n"
    by (auto simp: length_fifo_put min_def)
  ultimately show ?thesis by (simp only: drop_drop)
qed

lemma disjoint_subset: "A \<inter> B = {} \<Longrightarrow> C \<subseteq> B \<Longrightarrow> A \<inter> C = {}"
  by blast

locale bounded_memory =
  fixes inv :: "nat \<Rightarrow> 's \<Rightarrow> bool"
    and order :: "'s \<Rightarrow> 'k list"
    and member :: "'k \<Rightarrow> 's \<Rightarrow> bool"
    and key :: "'v \<Rightarrow> 'k"
    and put :: "nat \<Rightarrow> 'v \<Rightarrow> 's \<Rightarrow> 's"
  assumes inv_put: "inv n s \<Longrightarrow> 0 < n \<Longrightarrow> inv n (put n v s)"
    and inv_bound: "inv n s \<Longrightarrow> 0 < n \<Longrightarrow> distinct (order s) \<and> length (order s) \<le> n"
    and member_order: "inv n s \<Longrightarrow> member k s \<longleftrightarrow> k \<in> set (order s)"
    and put_fresh: "inv n s \<Longrightarrow> 0 < n \<Longrightarrow> \<not> member (key v) s \<Longrightarrow>
      order (put n v s) = fifo_put n (key v) (order s)"
    and put_retain: "inv n s \<Longrightarrow> 0 < n \<Longrightarrow> k \<in> set (order s) \<Longrightarrow> Suc (age k (order s)) < n \<Longrightarrow>
      k \<in> set (order (put n v s)) \<and> age k (order (put n v s)) \<le> Suc (age k (order s))"
begin

lemma inv_puts: "inv n s \<Longrightarrow> 0 < n \<Longrightarrow> inv n (fold (put n) vs s)"
  by (induction vs arbitrary: s) (auto intro: inv_put)

lemma retained:
  "inv n s \<Longrightarrow> 0 < n \<Longrightarrow> k \<in> set (order s) \<Longrightarrow> age k (order s) + length vs < n \<Longrightarrow>
     k \<in> set (order (fold (put n) vs s)) \<and> age k (order (fold (put n) vs s)) \<le> age k (order s) + length vs"
proof (induction vs arbitrary: s)
  case (Cons v vs)
  have r: "k \<in> set (order (put n v s)) \<and> age k (order (put n v s)) \<le> Suc (age k (order s))"
    using Cons.prems by (intro put_retain) auto
  then show ?case using Cons.IH [of "put n v s"] Cons.prems inv_put [of n s v] by fastforce
qed simp

text \<open>A new key is remembered while fewer than \<open>n\<close> further keys are put.\<close>

lemma window:
  assumes "inv n s" "\<not> member (key v) s" "length vs < n"
  shows "member (key v) (fold (put n) vs (put n v s))"
proof -
  have n: "0 < n" using assms(3) by simp
  have i: "inv n (put n v s)" using inv_put [OF assms(1) n] .
  have "key v \<in> set (order (put n v s)) \<and> age (key v) (order (put n v s)) = 0"
    using put_fresh [OF assms(1) n assms(2)] fifo_put_fresh [OF n] by simp
  then show ?thesis using retained [OF i n, of "key v" vs] assms(3) member_order [OF inv_puts [OF i n]] by simp
qed

text \<open>A key is forgotten after \<open>n\<close> further keys, when each of them is new at its turn.\<close>

lemma puts_fresh:
  assumes "inv n s" "0 < n" "distinct (map key vs)" "set (map key vs) \<inter> set (order s) = {}"
  shows "order (fold (put n) vs s) = drop (length (order s) + length vs - n) (order s @ map key vs)"
  using assms
proof (induction vs arbitrary: s)
  case Nil
  then show ?case using inv_bound [of n s] by simp
next
  case (Cons v vs)
  have i: "inv n (put n v s)" using Cons.prems by (intro inv_put)
  have p: "order (put n v s) = fifo_put n (key v) (order s)"
    using Cons.prems member_order [of n s] by (intro put_fresh) auto
  have sub: "set (fifo_put n (key v) (order s)) \<subseteq> insert (key v) (set (order s))"
    unfolding fifo_put_def by (rule subset_trans [OF set_drop_subset]) simp
  have disj: "set (map key vs) \<inter> set (order (put n v s)) = {}"
  proof -
    have "set (map key vs) \<inter> insert (key v) (set (order s)) = {}" using Cons.prems(3,4) by simp
    then show ?thesis using sub unfolding p by (rule disjoint_subset)
  qed
  have "order (fold (put n) (v # vs) s) =
      drop (length (order (put n v s)) + length vs - n) (order (put n v s) @ map key vs)"
    using Cons.IH [OF i _ _ disj] Cons.prems(2,3) by (simp only: fold.simps comp_apply list.map distinct.simps)
  then show ?case using drop_fifo_put [of n "key v" "order s" "map key vs"] by (simp only: p length_map list.map list.size)
qed

lemma forgotten:
  assumes "inv n s" "0 < n" "\<not> member (key v) s" "distinct (map key (v # vs))"
    "set (map key vs) \<inter> set (order s) = {}"
  shows "member (key v) (fold (put n) vs (put n v s)) \<longleftrightarrow> length vs < n"
proof -
  have i: "inv n (fold (put n) vs (put n v s))" using inv_puts [OF inv_put] assms by simp
  have k: "key v \<notin> set (order s)" using assms member_order by blast
  have o: "order (fold (put n) (v # vs) s) =
      drop (length (order s) + length (v # vs) - n) (order s @ map key (v # vs))"
    using assms k by (intro puts_fresh) auto
  have "\<not> length vs < n \<Longrightarrow> key v \<notin> set (order (fold (put n) vs (put n v s)))"
    using o inv_bound [OF assms(1,2)] assms(4) by (auto simp: Suc_diff_le dest!: in_set_dropD)
  then show ?thesis using window [OF assms(1,3)] member_order [OF i] by auto
qed

end

end
