(* ===== verification/Sliding_Window.thy ===== *)
theory Sliding_Window
  imports Kelvin_Prelude
begin

section \<open>Rate limits by a sliding window of instants\<close>

text \<open>
  The channels, the installed tools and the installed model providers limit a rate in the same way: a queue
  of the instants of the accepted calls, from the front of which those older than a span are dropped, and a
  new call is accepted while the queue is shorter than the quota. What the limit promises is proved here
  once: within any span at most the quota is accepted, over the whole history.
\<close>

definition prune_span :: "nat \<Rightarrow> nat \<Rightarrow> nat list \<Rightarrow> nat list" where
  "prune_span span now window = dropWhile (\<lambda>ts. span < now - ts) window"

text \<open>One decision on a window.\<close>

definition window_step :: "nat \<Rightarrow> nat \<Rightarrow> nat \<Rightarrow> nat list \<Rightarrow> bool \<times> nat list" where
  "window_step span quota now window = (let w = prune_span span now window in
     if quota \<le> length w then (False, w) else (True, w @ [now]))"

text \<open>How many of the instants \<open>ts\<close> fall into the span that ends at \<open>t\<close>.\<close>

definition in_span :: "nat \<Rightarrow> nat \<Rightarrow> nat list \<Rightarrow> nat" where
  "in_span span t ts = length (filter (\<lambda>x. t \<le> x + span \<and> x \<le> t) ts)"

lemma in_span_append [simp]: "in_span span t (xs @ ys) = in_span span t xs + in_span span t ys"
  by (simp add: in_span_def)

lemma in_span_Nil [simp]: "in_span span t [] = 0"
  by (simp add: in_span_def)

text \<open>The window against all accepted instants \<open>h\<close>: a suffix of them that lacks only old ones.\<close>

definition window_in :: "nat \<Rightarrow> nat \<Rightarrow> nat list \<Rightarrow> nat list \<Rightarrow> bool" where
  "window_in span now h w \<longleftrightarrow> (\<exists>old. h = old @ w \<and> (\<forall>x\<in>set old. x + span < now)) \<and> (\<forall>x\<in>set h. x \<le> now)"

lemma window_in_Nil [simp]: "window_in span now [] []"
  by (simp add: window_in_def)

lemma window_in_later: "window_in span now h w \<Longrightarrow> now \<le> now' \<Longrightarrow> window_in span now' h w"
  by (force simp: window_in_def)

lemma window_in_prune:
  assumes "window_in span now h w" and "now \<le> now'"
  shows "window_in span now' h (prune_span span now' w)"
proof -
  obtain old where o: "h = old @ w" "\<forall>x\<in>set old. x + span < now" and le: "\<forall>x\<in>set h. x \<le> now"
    using assms(1) by (auto simp: window_in_def)
  have "h = (old @ takeWhile (\<lambda>ts. span < now' - ts) w) @ prune_span span now' w"
    using o by (simp add: prune_span_def)
  moreover have "\<forall>x\<in>set (old @ takeWhile (\<lambda>ts. span < now' - ts) w). x + span < now'"
    using o assms(2) by (auto dest!: set_takeWhileD)
  ultimately show ?thesis using le assms(2) by (force simp: window_in_def)
qed

lemma in_span_window:
  assumes "window_in span now h w" and "now \<le> t"
  shows "in_span span t h \<le> length w"
proof -
  obtain old where o: "h = old @ w" "\<forall>x\<in>set old. x + span < now" using assms(1) by (auto simp: window_in_def)
  have "in_span span t old = 0" using o assms(2) by (auto simp: in_span_def filter_empty_conv)
  then show ?thesis using o by (simp add: in_span_def)
qed

lemma window_step_in:
  assumes "window_in span now h w" "now \<le> now'" "\<And>t. in_span span t h \<le> quota"
    "window_step span quota now' w = (ok, w')"
  shows "window_in span now' (if ok then h @ [now'] else h) w' \<and>
    (\<forall>t. in_span span t (if ok then h @ [now'] else h) \<le> quota)"
proof -
  let ?p = "prune_span span now' w"
  have p: "window_in span now' h ?p" using window_in_prune [OF assms(1,2)] .
  show ?thesis
  proof (cases "quota \<le> length ?p")
    case True
    then show ?thesis using assms(3,4) p by (auto simp: window_step_def Let_def)
  next
    case False
    then have r: "ok" "w' = ?p @ [now']" using assms(4) by (auto simp: window_step_def Let_def)
    have "window_in span now' (h @ [now']) (?p @ [now'])" using p by (auto simp: window_in_def)
    moreover have "in_span span t (h @ [now']) \<le> quota" for t
    proof (cases "now' \<le> t")
      case True
      then show ?thesis using in_span_window [OF p True] False by (simp add: in_span_def)
    next
      case f: False
      then have "in_span span t [now'] = 0" by (simp add: in_span_def)
      then show ?thesis using assms(3) [of t] by simp
    qed
    ultimately show ?thesis using r by simp
  qed
qed

end
