(* ===== verification/Channel_Adapter.thy ===== *)
theory Channel_Adapter
  imports Channel_Config Core_Runtime Bounded_Memory Sliding_Window "HOL-Library.Word" "HOL-Library.AList"
begin

section \<open>Text channels (kelvin-gateway/src/channels.rs)\<close>

text \<open>
  \<open>TextChannelAdapter\<close>: the state of one channel and every operation on it. What the adapter calls is
  the record \<open>channel_env\<close>, operations on an arbitrary world \<open>'w\<close>: the clock, writing the state file,
  the HTTP client, the SDK runtime (submitting a run, waiting for it), the command dispatcher of the
  gateway, the WebAssembly policy module and the JSON coders. The state keeps the world and a history
  variable \<open>ad_trace\<close> with the runs, commands and requests issued so far.

  The JSON payload of a reply is a constructor of \<open>channel_reply\<close>, named after its \<open>status\<close> field.
  \<open>HashMap::iter\<close> has no fixed order; \<open>pending_pair_codes\<close> is an association list whose order stands for
  it, and the pairing theorem shows that the order is never observed.
\<close>

unbundle bit_operations_syntax

subsection \<open>Data\<close>

record channel_envelope =
  en_delivery_id :: string
  en_sender_id :: string
  en_account_id :: string
  en_text :: string
  en_timeout_ms :: "nat option"
  en_auth_token :: "string option"
  en_session_id :: "string option"
  en_workspace_dir :: "string option"

record queued_slash_command =
  qs_command_name :: string
  qs_args :: json
  qs_session_id :: "string option"

record queued_envelope =
  qe_envelope :: channel_envelope
  qe_route :: route_decision
  qe_slash_command :: "queued_slash_command option"

record channel_metrics =
  m_ingest_total :: nat
  m_webhook_total :: nat
  m_webhook_accepted_total :: nat
  m_webhook_denied_total :: nat
  m_webhook_retry_total :: nat
  m_verification_ok_total :: nat
  m_verification_failed_total :: nat
  m_deduped_total :: nat
  m_queued_total :: nat
  m_queue_rejected_total :: nat
  m_pairing_required_total :: nat
  m_pairing_approved_total :: nat
  m_policy_denied_total :: nat
  m_rate_limited_total :: nat
  m_completed_total :: nat
  m_failed_total :: nat
  m_timeout_total :: nat
  m_outbound_attempt_total :: nat
  m_outbound_retry_total :: nat
  m_outbound_failure_total :: nat
  m_last_error :: "string option"
  m_last_delivery_at_ms :: "nat option"
  m_last_webhook_request_at_ms :: "nat option"
  m_last_webhook_accept_at_ms :: "nat option"
  m_last_webhook_status_code :: "nat option"
  m_last_verification_ok_at_ms :: "nat option"
  m_last_verification_failed_at_ms :: "nat option"
  m_last_verification_error :: "string option"

record persisted_channel_state =
  ps_paired_accounts :: "string set"
  ps_pending_pair_codes :: "(string \<times> string) list"
  ps_seen_delivery_order :: "string list"
  ps_rate_windows :: "string \<rightharpoonup> nat list"
  ps_cooldown_until_ms :: "string \<rightharpoonup> nat"
  ps_inbox :: "queued_envelope list"
  ps_metrics :: channel_metrics

record sdk_run_request =
  sr_prompt :: string
  sr_session_id :: "string option"
  sr_workspace_dir :: "string option"
  sr_timeout_ms :: "nat option"
  sr_system_prompt :: "string option"
  sr_memory_query :: "string option"
  sr_run_id :: "string option"

record sdk_accepted_run =
  sa_run_id :: string
  sa_accepted_at_ms :: nat
  sa_cli_plugin_preflight :: "string option"

record command_exec_params =
  ce_command :: string
  ce_args :: json
  ce_session_id :: "string option"

text \<open>A request to the HTTP client: the endpoint, the authorization header and the JSON body.\<close>

record outbound_request =
  or_endpoint :: string
  or_authorization :: "string option"
  or_body :: json

datatype channel_obs =
    ObsSubmit sdk_run_request
  | ObsCommand command_exec_params
  | ObsPost outbound_request

datatype channel_reply =
    Deduped string
  | PairingRequired string string
  | CommandDenied string string
  | CommandDispatched string string
  | CommandCompleted string string
  | Completed string string string route_decision
  | Failed string string string route_decision
  | RunTimeout string string route_decision
  | Queued string nat
  | PairingApproved string

record 'w channel_env =
  cv_persistent :: bool
  cv_now :: "'w \<Rightarrow> nat \<times> 'w"
  cv_save :: "persisted_channel_state \<Rightarrow> ('w, unit) eff"
  cv_post :: "outbound_request \<Rightarrow> 'w \<Rightarrow> (string + bool \<times> string) \<times> 'w"
  cv_phone_number_id :: "string option"
  cv_submit :: "sdk_run_request \<Rightarrow> ('w, sdk_accepted_run) eff"
  cv_wait :: "string \<Rightarrow> nat \<Rightarrow> ('w, run_outcome) eff"
  cv_command :: "command_exec_params \<Rightarrow> ('w, json) eff"
  cv_run_policy :: "wasm_policy_plugin \<Rightarrow> json \<Rightarrow> ('w, string) eff"
  cv_parse_decision :: "string \<Rightarrow> string + wasm_policy_decision"
  cv_pretty :: "json \<Rightarrow> string option"

record 'w channel_state =
  ad_paired_accounts :: "string set"
  ad_pending_pair_codes :: "(string \<times> string) list"
  ad_seen_delivery_ids :: "string set"
  ad_seen_delivery_order :: "string list"
  ad_rate_windows :: "string \<rightharpoonup> nat list"
  ad_cooldown_until_ms :: "string \<rightharpoonup> nat"
  ad_inbox :: "queued_envelope list"
  ad_metrics :: channel_metrics
  ad_world :: 'w
  ad_trace :: "channel_obs list"

type_synonym ('w, 'a) channel_op = "('w channel_state, 'a) eff"

subsection \<open>Calls to the environment\<close>

definition worldE :: "('w, 'a) eff \<Rightarrow> ('w, 'a) channel_op" where
  "worldE op = (\<lambda>s. case op (ad_world s) of (r, w) \<Rightarrow> (r, s\<lparr>ad_world := w\<rparr>))"

definition observeE :: "channel_obs \<Rightarrow> ('w, unit) channel_op" where
  "observeE ev = modifyE (\<lambda>s. s\<lparr>ad_trace := ad_trace s @ [ev]\<rparr>)"

definition clockE :: "'w channel_env \<Rightarrow> ('w, nat) channel_op" where
  "clockE env = worldE (\<lambda>w. case cv_now env w of (t, w') \<Rightarrow> (Inr t, w'))"

definition metricsE :: "(channel_metrics \<Rightarrow> channel_metrics) \<Rightarrow> ('w, unit) channel_op" where
  "metricsE f = modifyE (\<lambda>s. s\<lparr>ad_metrics := f (ad_metrics s)\<rparr>)"

abbreviation inc64 :: "nat \<Rightarrow> nat" where
  "inc64 n \<equiv> sat_add64 n 1"

subsection \<open>Persistence\<close>

definition snapshot_state :: "'w channel_state \<Rightarrow> persisted_channel_state" where
  "snapshot_state s = \<lparr>ps_paired_accounts = ad_paired_accounts s, ps_pending_pair_codes = ad_pending_pair_codes s,
     ps_seen_delivery_order = ad_seen_delivery_order s, ps_rate_windows = ad_rate_windows s,
     ps_cooldown_until_ms = ad_cooldown_until_ms s, ps_inbox = ad_inbox s, ps_metrics = ad_metrics s\<rparr>"

definition persist_state :: "'w channel_env \<Rightarrow> ('w, unit) channel_op" where
  "persist_state env = (\<lambda>s.
     if \<not> cv_persistent env then (Inr (), s) else worldE (cv_save env (snapshot_state s)) s)"

text \<open>The loop that drops the entries at the front of a window that are older than a minute.\<close>

definition prune_window :: "nat \<Rightarrow> nat list \<Rightarrow> nat list" where
  "prune_window now window = dropWhile (\<lambda>ts. 60000 < now - ts) window"

definition apply_persisted_state ::
    "text_channel_config \<Rightarrow> nat \<Rightarrow> persisted_channel_state \<Rightarrow> 'w channel_state \<Rightarrow> 'w channel_state" where
  "apply_persisted_state cfg now st s = (let p = tc_policy cfg;
       order = drop (length (ps_seen_delivery_order st) - cp_max_seen_delivery_ids p) (ps_seen_delivery_order st) in
     s\<lparr>ad_paired_accounts := ps_paired_accounts st,
       ad_pending_pair_codes := ps_pending_pair_codes st,
       ad_seen_delivery_order := order,
       ad_seen_delivery_ids := set order,
       ad_rate_windows := (\<lambda>sender. case ps_rate_windows st sender of
         None \<Rightarrow> None
       | Some window \<Rightarrow> if prune_window now window = [] then None else Some (prune_window now window)),
       ad_cooldown_until_ms := (\<lambda>sender. case ps_cooldown_until_ms st sender of
         None \<Rightarrow> None
       | Some until_ms \<Rightarrow> if now < until_ms then Some until_ms else None),
       ad_inbox := take (cp_max_queue_depth p) (ps_inbox st),
       ad_metrics := ps_metrics st\<rparr>)"

definition default_metrics :: channel_metrics where
  "default_metrics = \<lparr>m_ingest_total = 0, m_webhook_total = 0, m_webhook_accepted_total = 0,
     m_webhook_denied_total = 0, m_webhook_retry_total = 0, m_verification_ok_total = 0,
     m_verification_failed_total = 0, m_deduped_total = 0, m_queued_total = 0, m_queue_rejected_total = 0,
     m_pairing_required_total = 0, m_pairing_approved_total = 0, m_policy_denied_total = 0,
     m_rate_limited_total = 0, m_completed_total = 0, m_failed_total = 0, m_timeout_total = 0,
     m_outbound_attempt_total = 0, m_outbound_retry_total = 0, m_outbound_failure_total = 0,
     m_last_error = None, m_last_delivery_at_ms = None, m_last_webhook_request_at_ms = None,
     m_last_webhook_accept_at_ms = None, m_last_webhook_status_code = None,
     m_last_verification_ok_at_ms = None, m_last_verification_failed_at_ms = None,
     m_last_verification_error = None\<rparr>"

definition fresh_adapter :: "'w \<Rightarrow> 'w channel_state" where
  "fresh_adapter w = \<lparr>ad_paired_accounts = {}, ad_pending_pair_codes = [], ad_seen_delivery_ids = {},
     ad_seen_delivery_order = [], ad_rate_windows = Map.empty, ad_cooldown_until_ms = Map.empty,
     ad_inbox = [], ad_metrics = default_metrics, ad_world = w, ad_trace = []\<rparr>"

text \<open>\<open>loaded\<close> is what \<open>ChannelStatePersistence::load\<close> returns.\<close>

definition load_persisted_state :: "'w channel_env \<Rightarrow> text_channel_config \<Rightarrow>
    persisted_channel_state option kelvin_result \<Rightarrow> ('w, unit) channel_op" where
  "load_persisted_state env cfg loaded = (if \<not> cv_persistent env then okE ()
     else bindE (liftE loaded) (\<lambda>found. case found of
       None \<Rightarrow> okE ()
     | Some st \<Rightarrow> bindE (clockE env) (\<lambda>now. modifyE (apply_persisted_state cfg now st))))"

text \<open>\<open>opened\<close> is what \<open>ChannelStatePersistence::for_channel\<close> returns, which creates the directory.\<close>

definition new_adapter :: "'w channel_env \<Rightarrow> text_channel_config \<Rightarrow> unit kelvin_result \<Rightarrow>
    persisted_channel_state option kelvin_result \<Rightarrow> 'w \<Rightarrow> 'w channel_state option kelvin_result" where
  "new_adapter env cfg opened loaded w = (if \<not> tc_enabled cfg then Inr None
     else case seqE (if cv_persistent env then liftE opened else okE ())
         (load_persisted_state env cfg loaded) (fresh_adapter w) of
       (Inl e, _) \<Rightarrow> Inl e | (Inr _, s) \<Rightarrow> Inr (Some s))"


subsection \<open>Outbound messages\<close>

definition trim_end_slashes :: "string \<Rightarrow> string" where
  "trim_end_slashes s = rev (dropWhile (\<lambda>c. c = CHR ''/'') (rev s))"

fun outbound_request_of :: "channel_kind \<Rightarrow> string \<Rightarrow> string \<Rightarrow> string \<Rightarrow> string \<Rightarrow> string \<Rightarrow> outbound_request" where
  "outbound_request_of Telegram base phone_number_id bot_token account_id body =
     \<lparr>or_endpoint = base @ ''/bot'' @ bot_token @ ''/sendMessage'', or_authorization = None,
      or_body = JObj [(''chat_id'', JStr account_id), (''text'', JStr body)]\<rparr>"
| "outbound_request_of Slack base phone_number_id bot_token account_id body =
     \<lparr>or_endpoint = base @ ''/chat.postMessage'', or_authorization = Some (''Bearer '' @ bot_token),
      or_body = JObj [(''channel'', JStr account_id), (''text'', JStr body)]\<rparr>"
| "outbound_request_of Discord base phone_number_id bot_token account_id body =
     \<lparr>or_endpoint = base @ ''/channels/'' @ account_id @ ''/messages'',
      or_authorization = Some (''Bot '' @ bot_token),
      or_body = JObj [(''content'', JStr body)]\<rparr>"
| "outbound_request_of WhatsApp base phone_number_id bot_token account_id body =
     \<lparr>or_endpoint = base @ ''/'' @ phone_number_id @ ''/messages'',
      or_authorization = Some (''Bearer '' @ bot_token),
      or_body = JObj [(''messaging_product'', JStr ''whatsapp''), (''to'', JStr account_id),
        (''type'', JStr ''text''), (''text'', JObj [(''body'', JStr body)])]\<rparr>"

definition send_outbound_once ::
    "'w channel_env \<Rightarrow> text_channel_config \<Rightarrow> string \<Rightarrow> string \<Rightarrow> string \<Rightarrow> ('w, unit) channel_op" where
  "send_outbound_once env cfg bot_token account_id body = (let kind = tc_kind cfg;
       request = outbound_request_of kind (trim_end_slashes (ct_api_base_url (tc_transport cfg)))
         (opt_or (cv_phone_number_id env) []) bot_token account_id body in
     seqE (observeE (ObsPost request))
     (worldE (\<lambda>w. case cv_post env request w of
       (Inl err, w') \<Rightarrow> (Inl (Backend (kind_as_str kind @ '' outbound request failed: '' @ err)), w')
     | (Inr (success, status), w') \<Rightarrow>
         (if success then Inr () else Inl (Backend (kind_as_str kind @ '' outbound endpoint '' @
            quoted (or_endpoint request) @ '' returned status '' @ status)), w'))))"

definition send_attempt ::
    "'w channel_env \<Rightarrow> text_channel_config \<Rightarrow> string \<Rightarrow> string \<Rightarrow> string \<Rightarrow> ('w, unit kelvin_result) channel_op" where
  "send_attempt env cfg bot_token account_id body =
     seqE (metricsE (\<lambda>m. m\<lparr>m_outbound_attempt_total := inc64 (m_outbound_attempt_total m)\<rparr>))
     (attemptE (send_outbound_once env cfg bot_token account_id body))"

definition send_failed :: "text_channel_config \<Rightarrow> kelvin_error \<Rightarrow> ('w, unit) channel_op" where
  "send_failed cfg err =
     seqE (metricsE (\<lambda>m. m\<lparr>m_outbound_failure_total := inc64 (m_outbound_failure_total m),
       m_last_error := Some (show_error err)\<rparr>))
     (errE (Backend (kind_as_str (tc_kind cfg) @ '' outbound delivery failed after retries: '' @ show_error err)))"

text \<open>The loop \<^verbatim>\<open>for attempt in 0..=max\<close>, with the number of retries that are left.\<close>

primrec send_attempts ::
    "'w channel_env \<Rightarrow> text_channel_config \<Rightarrow> string \<Rightarrow> string \<Rightarrow> string \<Rightarrow> nat \<Rightarrow> ('w, unit) channel_op" where
  "send_attempts env cfg bot_token account_id body 0 =
     bindE (send_attempt env cfg bot_token account_id body) (\<lambda>call. case call of
       Inr _ \<Rightarrow> okE ()
     | Inl err \<Rightarrow> send_failed cfg err)"
| "send_attempts env cfg bot_token account_id body (Suc left) =
     bindE (send_attempt env cfg bot_token account_id body) (\<lambda>call. case call of
       Inr _ \<Rightarrow> okE ()
     | Inl err \<Rightarrow>
         seqE (metricsE (\<lambda>m. m\<lparr>m_outbound_retry_total := inc64 (m_outbound_retry_total m)\<rparr>))
         (send_attempts env cfg bot_token account_id body left))"

definition send_message_with_retry ::
    "'w channel_env \<Rightarrow> text_channel_config \<Rightarrow> string \<Rightarrow> string \<Rightarrow> ('w, unit) channel_op" where
  "send_message_with_retry env cfg account_id body = (case ct_bot_token (tc_transport cfg) of
     None \<Rightarrow> okE ()
   | Some bot_token \<Rightarrow>
       send_attempts env cfg bot_token account_id body (ct_outbound_max_retries (tc_transport cfg)))"

definition deliver_outbound_message ::
    "'w channel_env \<Rightarrow> text_channel_config \<Rightarrow> string \<Rightarrow> string \<Rightarrow> ('w, unit) channel_op" where
  "deliver_outbound_message env cfg account_id body =
     seqE (send_message_with_retry env cfg account_id body) (persist_state env)"

subsection \<open>Webhook records and pairing\<close>

definition record_webhook_verified :: "'w channel_env \<Rightarrow> nat \<Rightarrow> bool \<Rightarrow> ('w, unit) channel_op" where
  "record_webhook_verified env status_code retry_hint =
     bindE (clockE env) (\<lambda>now.
     seqE (metricsE (\<lambda>m. m\<lparr>m_webhook_total := inc64 (m_webhook_total m),
       m_webhook_accepted_total := inc64 (m_webhook_accepted_total m),
       m_verification_ok_total := inc64 (m_verification_ok_total m),
       m_webhook_retry_total := (if retry_hint then inc64 (m_webhook_retry_total m) else m_webhook_retry_total m),
       m_last_webhook_request_at_ms := Some now,
       m_last_webhook_accept_at_ms := Some now,
       m_last_webhook_status_code := Some status_code,
       m_last_verification_ok_at_ms := Some now,
       m_last_verification_error := None\<rparr>))
     (persist_state env))"

definition record_webhook_denied :: "'w channel_env \<Rightarrow> nat \<Rightarrow> bool \<Rightarrow> string \<Rightarrow> ('w, unit) channel_op" where
  "record_webhook_denied env status_code retry_hint reason =
     bindE (clockE env) (\<lambda>now.
     seqE (metricsE (\<lambda>m. m\<lparr>m_webhook_total := inc64 (m_webhook_total m),
       m_webhook_denied_total := inc64 (m_webhook_denied_total m),
       m_verification_failed_total := inc64 (m_verification_failed_total m),
       m_webhook_retry_total := (if retry_hint then inc64 (m_webhook_retry_total m) else m_webhook_retry_total m),
       m_last_webhook_request_at_ms := Some now,
       m_last_webhook_status_code := Some status_code,
       m_last_verification_failed_at_ms := Some now,
       m_last_verification_error := Some reason\<rparr>))
     (persist_state env))"

definition approve_pairing ::
    "'w channel_env \<Rightarrow> text_channel_config \<Rightarrow> string \<Rightarrow> ('w, channel_reply) channel_op" where
  "approve_pairing env cfg code_arg = (\<lambda>s. let normalized = trim code_arg in
     if \<not> tc_pairing_enabled cfg then (Inl (InvalidInput ''pairing is not enabled for this channel''), s)
     else if normalized = [] then (Inl (InvalidInput ''pairing code must not be empty''), s)
     else case map_of (ad_pending_pair_codes s) normalized of
       None \<Rightarrow> (Inl (NotFound ''pairing code not found''), s)
     | Some account_id \<Rightarrow>
         let s1 = s\<lparr>ad_pending_pair_codes := AList.delete normalized (ad_pending_pair_codes s),
               ad_paired_accounts := insert account_id (ad_paired_accounts s),
               ad_metrics := (ad_metrics s)
                 \<lparr>m_pairing_approved_total := inc64 (m_pairing_approved_total (ad_metrics s))\<rparr>\<rparr> in
         case persist_state env s1 of
           (Inl err, s2) \<Rightarrow> (Inl err, s2\<lparr>ad_paired_accounts := ad_paired_accounts s2 - {account_id},
             ad_pending_pair_codes := AList.update normalized account_id (ad_pending_pair_codes s2),
             ad_metrics := (ad_metrics s2)
               \<lparr>m_pairing_approved_total := m_pairing_approved_total (ad_metrics s2) - 1\<rparr>\<rparr>)
         | (Inr _, s2) \<Rightarrow> (Inr (PairingApproved account_id), s2))"

definition utf8_bytes :: "string \<Rightarrow> nat list" where
  "utf8_bytes s = concat (map (\<lambda>c. if code c < 128 then [code c]
     else [192 + code c div 64, 128 + code c mod 64]) s)"

definition SIMPLE_HASH_SEED :: "128 word" where "SIMPLE_HASH_SEED = 1469598103934665603"
definition SIMPLE_HASH_MULTIPLIER :: "128 word" where "SIMPLE_HASH_MULTIPLIER = 1099511628211"

definition simple_hash :: "string \<Rightarrow> 128 word" where
  "simple_hash input =
     fold (\<lambda>byte hash. (hash XOR of_nat byte) * SIMPLE_HASH_MULTIPLIER) (utf8_bytes input) SIMPLE_HASH_SEED"

definition pairing_code :: "nat \<Rightarrow> string \<Rightarrow> string" where
  "pairing_code now account_id =
     show_nat (unat ((of_nat now :: 128 word) XOR simple_hash account_id) mod 900000 + 100000)"

definition enforce_pairing_policy ::
    "'w channel_env \<Rightarrow> text_channel_config \<Rightarrow> string \<Rightarrow> ('w, string option) channel_op" where
  "enforce_pairing_policy env cfg account_id =
     (if \<not> tc_pairing_enabled cfg then okE None
      else bindE (getsE (\<lambda>s. (account_id \<in> ad_paired_accounts s,
          find (\<lambda>(_, pending). pending = account_id) (ad_pending_pair_codes s)))) (\<lambda>(paired, existing).
        if account_id \<in> cp_allow_accounts (tc_policy cfg) \<or> paired then okE None
        else case existing of
          Some (c, _) \<Rightarrow> okE (Some c)
        | None \<Rightarrow>
            bindE (clockE env) (\<lambda>now. let c = pairing_code now account_id in
            seqE (modifyE (\<lambda>s. s\<lparr>ad_pending_pair_codes := AList.update c account_id (ad_pending_pair_codes s)\<rparr>))
            (bindE (attemptE (persist_state env)) (\<lambda>saved. case saved of
              Inl err \<Rightarrow>
                seqE (modifyE (\<lambda>s. s\<lparr>ad_pending_pair_codes := AList.delete c (ad_pending_pair_codes s)\<rparr>)) (errE err)
            | Inr _ \<Rightarrow> okE (Some c))))))"


subsection \<open>Admission of a message\<close>

definition tier_from_policy :: "channel_policy \<Rightarrow> string \<Rightarrow> sender_trust_tier" where
  "tier_from_policy policy sender_id =
     (if sender_id \<in> cp_blocked_senders policy then Blocked
      else if sender_id \<in> cp_owner_senders policy then Owner
      else if sender_id \<in> cp_trusted_senders policy then Trusted
      else if sender_id \<in> cp_probation_senders policy then Probation
      else Standard)"

definition normalize_identifier :: "string \<Rightarrow> string \<Rightarrow> nat \<Rightarrow> string kelvin_result" where
  "normalize_identifier label value max_len = (let normalized = trim value in
     if normalized = [] then Inl (InvalidInput (label @ '' must not be empty''))
     else if max_len < utf8_len normalized then
       Inl (InvalidInput (label @ '' exceeds '' @ show_nat max_len @ '' bytes''))
     else if list_ex is_control normalized then
       Inl (InvalidInput (label @ '' must not include control characters''))
     else Inr normalized)"

definition verify_ingress_auth :: "text_channel_config \<Rightarrow> channel_envelope \<Rightarrow> unit kelvin_result" where
  "verify_ingress_auth cfg e = (case cp_ingress_token (tc_policy cfg) of
     None \<Rightarrow> Inr ()
   | Some required \<Rightarrow> (case en_auth_token e of
       None \<Rightarrow> Inl (NotFound (kind_as_str (tc_kind cfg) @ '' ingress auth token missing''))
     | Some provided \<Rightarrow>
         if provided \<noteq> required
         then Inl (NotFound (kind_as_str (tc_kind cfg) @ '' ingress auth token mismatch''))
         else Inr ()))"

definition normalize_envelope :: "text_channel_config \<Rightarrow> channel_envelope \<Rightarrow> channel_envelope kelvin_result" where
  "normalize_envelope cfg e =
     bindR (normalize_identifier ''delivery_id'' (en_delivery_id e) MAX_CHANNEL_IDENTIFIER_BYTES) (\<lambda>delivery_id.
     bindR (normalize_identifier ''sender_id'' (en_sender_id e) MAX_CHANNEL_IDENTIFIER_BYTES) (\<lambda>sender_id.
     bindR (normalize_identifier ''account_id'' (en_account_id e) MAX_CHANNEL_IDENTIFIER_BYTES) (\<lambda>account_id.
     let body = trim (en_text e); max_text_bytes = cp_max_text_bytes (tc_policy cfg);
         e' = e\<lparr>en_delivery_id := delivery_id, en_sender_id := sender_id, en_account_id := account_id,
           en_text := body\<rparr> in
     if body = [] then Inl (InvalidInput ''message text must not be empty'')
     else if max_text_bytes < utf8_len body then
       Inl (InvalidInput (''message text exceeds '' @ show_nat max_text_bytes @ '' bytes''))
     else bindR (verify_ingress_auth cfg e') (\<lambda>_. Inr (e'\<lparr>en_auth_token := None\<rparr>)))))"

definition is_duplicate_delivery :: "string \<Rightarrow> 'w channel_state \<Rightarrow> bool" where
  "is_duplicate_delivery delivery_id s \<longleftrightarrow> delivery_id \<in> ad_seen_delivery_ids s"

fun evict_seen :: "nat \<Rightarrow> string list \<Rightarrow> string set \<Rightarrow> string list \<times> string set" where
  "evict_seen limit [] ids = ([], ids)"
| "evict_seen limit (evicted # order) ids =
     (if limit < length (evicted # order) then evict_seen limit order (ids - {evicted})
      else (evicted # order, ids))"

text \<open>The two collections of seen ids after a delivery: the state of the deduplication.\<close>

definition track_seen :: "nat \<Rightarrow> string \<Rightarrow> string list \<times> string set \<Rightarrow> string list \<times> string set" where
  "track_seen limit delivery_id = (\<lambda>(order, ids).
     if delivery_id \<in> ids then evict_seen limit order ids
     else evict_seen limit (order @ [delivery_id]) (insert delivery_id ids))"

definition track_delivery_id :: "'w channel_env \<Rightarrow> text_channel_config \<Rightarrow> string \<Rightarrow> ('w, unit) channel_op" where
  "track_delivery_id env cfg delivery_id = bindE (clockE env) (\<lambda>now. modifyE (\<lambda>s.
     case track_seen (cp_max_seen_delivery_ids (tc_policy cfg)) delivery_id
         (ad_seen_delivery_order s, ad_seen_delivery_ids s) of
       (order, ids) \<Rightarrow> s\<lparr>ad_seen_delivery_order := order, ad_seen_delivery_ids := ids,
         ad_metrics := (ad_metrics s)\<lparr>m_last_delivery_at_ms := Some now\<rparr>\<rparr>))"

fun tier_quota :: "channel_policy \<Rightarrow> sender_trust_tier \<Rightarrow> nat" where
  "tier_quota p Owner = cp_quota_owner_per_minute p"
| "tier_quota p Trusted = cp_quota_trusted_per_minute p"
| "tier_quota p Standard = cp_quota_standard_per_minute p"
| "tier_quota p Probation = cp_quota_probation_per_minute p"
| "tier_quota p Blocked = 0"

definition enforce_rate_limit ::
    "'w channel_env \<Rightarrow> text_channel_config \<Rightarrow> string \<Rightarrow> sender_trust_tier \<Rightarrow> ('w, unit) channel_op" where
  "enforce_rate_limit env cfg sender_id tier = bindE (clockE env) (\<lambda>now s.
     let window = prune_window now (opt_or (ad_rate_windows s sender_id) []) in
     if tier_quota (tc_policy cfg) tier \<le> length window then
       (Inl (Timeout (kind_as_str (tc_kind cfg) @ '' sender '' @ quoted sender_id @
          '' exceeded per-minute quota'')),
        s\<lparr>ad_rate_windows := (ad_rate_windows s)(sender_id \<mapsto> window),
          ad_metrics := (ad_metrics s)\<lparr>m_rate_limited_total := inc64 (m_rate_limited_total (ad_metrics s))\<rparr>\<rparr>)
     else (Inr (), s\<lparr>ad_rate_windows := (ad_rate_windows s)(sender_id \<mapsto> window @ [now])\<rparr>))"

definition deny_policy :: "kelvin_error \<Rightarrow> ('w, 'a) channel_op" where
  "deny_policy err =
     seqE (metricsE (\<lambda>m. m\<lparr>m_policy_denied_total := inc64 (m_policy_denied_total m)\<rparr>)) (errE err)"

definition enforce_cooldown :: "'w channel_env \<Rightarrow> text_channel_config \<Rightarrow> string \<Rightarrow> ('w, unit) channel_op" where
  "enforce_cooldown env cfg sender_id = bindE (clockE env) (\<lambda>now s.
     if (case ad_cooldown_until_ms s sender_id of None \<Rightarrow> False | Some until_ms \<Rightarrow> now < until_ms) then
       (Inl (Timeout (kind_as_str (tc_kind cfg) @ '' sender '' @ quoted sender_id @ '' is in cooldown'')), s)
     else (Inr (), s\<lparr>ad_cooldown_until_ms := (ad_cooldown_until_ms s)(sender_id \<mapsto>
       sat_add128 now (cp_cooldown_probation_ms (tc_policy cfg)))\<rparr>))"

definition enforce_policy ::
    "'w channel_env \<Rightarrow> text_channel_config \<Rightarrow> channel_envelope \<Rightarrow> ('w, sender_trust_tier) channel_op" where
  "enforce_policy env cfg e = (let p = tc_policy cfg; kind = kind_as_str (tc_kind cfg);
       tier = tier_from_policy p (en_sender_id e) in
     if tier = Blocked then
       deny_policy (NotFound (kind @ '' sender '' @ quoted (en_sender_id e) @ '' is blocked''))
     else if cp_allow_accounts p \<noteq> {} \<and> en_account_id e \<notin> cp_allow_accounts p \<and> tier \<noteq> Owner then
       deny_policy (NotFound (kind @ '' account '' @ quoted (en_account_id e) @ '' is not allowlisted''))
     else if cp_allow_senders p \<noteq> {} \<and> en_sender_id e \<notin> cp_allow_senders p \<and> tier = Standard then
       deny_policy (NotFound (kind @ '' sender '' @ quoted (en_sender_id e) @ '' is not allowlisted''))
     else
       seqE (enforce_rate_limit env cfg (en_sender_id e) tier)
       (seqE (if tier = Probation \<and> 0 < cp_cooldown_probation_ms p
          then enforce_cooldown env cfg (en_sender_id e) else okE ())
       (seqE (persist_state env) (okE tier))))"

definition opt_str :: "string option \<Rightarrow> json" where
  "opt_str x = (case x of None \<Rightarrow> JNull | Some v \<Rightarrow> JStr v)"

definition evaluate_policy :: "'w channel_env \<Rightarrow> text_channel_config \<Rightarrow> wasm_policy_plugin \<Rightarrow> channel_envelope \<Rightarrow>
    sender_trust_tier \<Rightarrow> ('w, wasm_policy_decision) channel_op" where
  "evaluate_policy env cfg plugin e tier = (let kind = kind_as_str (tc_kind cfg) in
     bindE (clockE env) (\<lambda>now.
     let input = JObj [(''channel'', JStr kind), (''delivery_id'', JStr (en_delivery_id e)),
       (''sender_id'', JStr (en_sender_id e)), (''account_id'', JStr (en_account_id e)),
       (''text'', JStr (en_text e)),
       (''timeout_ms'', case en_timeout_ms e of None \<Rightarrow> JNull | Some t \<Rightarrow> JNum (show_nat t)),
       (''session_id'', opt_str (en_session_id e)), (''workspace_dir'', opt_str (en_workspace_dir e)),
       (''trust_tier'', JStr (tier_as_str tier)), (''now_ms'', JNum (show_nat now))] in
     bindE (attemptE (worldE (cv_run_policy env plugin input))) (\<lambda>run. case run of
       Inl err \<Rightarrow> errE (Backend (kind @ '' channel wasm policy '' @ quoted (wp_module_path plugin) @
         '' failed: '' @ show_error err))
     | Inr output \<Rightarrow> (case cv_parse_decision env output of
         Inl err \<Rightarrow> errE (InvalidInput (kind @ '' channel wasm policy '' @ quoted (wp_module_path plugin) @
           '' returned invalid json: '' @ err))
       | Inr decision \<Rightarrow> okE decision))))"

text \<open>
  The policy module's say: the trust tier, the text and the overrides of the route after it.
\<close>

definition apply_policy_plugin :: "'w channel_env \<Rightarrow> text_channel_config \<Rightarrow> channel_envelope \<Rightarrow>
    sender_trust_tier \<Rightarrow> ('w, sender_trust_tier \<times> channel_envelope \<times> wasm_policy_decision option) channel_op" where
  "apply_policy_plugin env cfg e tier = (case tc_wasm_policy_plugin cfg of
     None \<Rightarrow> okE (tier, e, None)
   | Some plugin \<Rightarrow> bindE (evaluate_policy env cfg plugin e tier) (\<lambda>d.
       if \<not> wd_allow d then
         deny_policy (NotFound (kind_as_str (tc_kind cfg) @ '' channel message denied: '' @
           opt_or (wd_reason d) ''blocked by wasm policy''))
       else let tier' = opt_or (wd_trust_tier d) tier in
         case wd_override_text d of
           None \<Rightarrow> okE (tier', e, Some d)
         | Some t \<Rightarrow>
             if trim t = [] then
               errE (InvalidInput ''wasm channel policy override_text must not be empty'')
             else if cp_max_text_bytes (tc_policy cfg) < utf8_len (trim t) then
               errE (InvalidInput ''wasm channel policy override_text exceeds max text bytes'')
             else okE (tier', e\<lparr>en_text := trim t\<rparr>, Some d)))"


subsection \<open>The seen deliveries\<close>

definition seen_ok :: "nat \<Rightarrow> string list \<times> string set \<Rightarrow> bool" where
  "seen_ok limit st \<longleftrightarrow> snd st = set (fst st) \<and> distinct (fst st) \<and> length (fst st) \<le> limit"

lemma evict_seen_drop:
  "distinct order \<Longrightarrow> evict_seen limit order (set order) =
     (drop (length order - limit) order, set (drop (length order - limit) order))"
proof (induction order)
  case (Cons x xs)
  then have "set (x # xs) - {x} = set xs" by auto
  with Cons show ?case by (auto simp: Suc_diff_le)
qed simp

lemma track_seen_known: "seen_ok limit st \<Longrightarrow> d \<in> snd st \<Longrightarrow> track_seen limit d st = st"
  by (cases st) (auto simp: seen_ok_def track_seen_def evict_seen_drop)

lemma track_seen_new:
  assumes "seen_ok limit st" and "d \<notin> snd st"
  shows "track_seen limit d st = (fifo_put limit d (fst st), set (fifo_put limit d (fst st)))"
proof -
  obtain order ids where st: "st = (order, ids)" by (cases st)
  have h: "ids = set order" "distinct (order @ [d])" using assms st by (auto simp: seen_ok_def)
  have "insert d ids = set (order @ [d])" using h by simp
  then show ?thesis using assms(2) evict_seen_drop [OF h(2), of limit]
    by (simp add: st track_seen_def fifo_put_def)
qed

lemma track_seen_ok: "seen_ok limit st \<Longrightarrow> seen_ok limit (track_seen limit d st)"
  by (cases "d \<in> snd st")
    (auto simp: track_seen_known track_seen_new, auto simp: seen_ok_def fifo_put_distinct length_fifo_put)

interpretation seen: bounded_memory seen_ok fst "\<lambda>d st. d \<in> snd st" "\<lambda>d. d" track_seen
proof (unfold_locales, goal_cases)
  case (1 n s v) then show ?case by (simp add: track_seen_ok)
next
  case (2 n s) then show ?case by (simp add: seen_ok_def)
next
  case (3 n s k) then show ?case by (simp add: seen_ok_def)
next
  case (4 n s v) then show ?case by (simp add: track_seen_new)
next
  case (5 n s k v)
  then show ?case
    by (cases "v \<in> snd s") (simp_all add: track_seen_known track_seen_new fifo_put_retain)
qed

subsection \<open>The rate limit\<close>

text \<open>The window of a sender is a sliding window of a minute.\<close>

abbreviation rate_step :: "nat \<Rightarrow> nat \<Rightarrow> nat list \<Rightarrow> bool \<times> nat list" where
  "rate_step \<equiv> window_step 60000"

abbreviation in_minute :: "nat \<Rightarrow> nat list \<Rightarrow> nat" where
  "in_minute \<equiv> in_span 60000"

lemma prune_window_span: "prune_window = prune_span 60000"
  by (simp add: fun_eq_iff prune_window_def prune_span_def)

lemma enforce_rate_limit_step:
  assumes "cv_now env (ad_world s) = (now, w)"
    "rate_step (tier_quota (tc_policy cfg) tier) now (opt_or (ad_rate_windows s sender) []) = (ok, window)"
  shows "\<exists>r s'. enforce_rate_limit env cfg sender tier s = (r, s') \<and> (r = Inr () \<longleftrightarrow> ok) \<and>
    ad_rate_windows s' = (ad_rate_windows s)(sender \<mapsto> window) \<and> ad_world s' = w"
  using assms by (auto simp: enforce_rate_limit_def prune_window_span window_step_def Let_def clockE_def worldE_def bindE_def
      split: if_splits)

text \<open>
  The messages of a sequence that the rate limit lets through: sender and instant, in order. The tier
  of a sender is the one its policy gives.
\<close>

fun rate_run :: "'w channel_env \<Rightarrow> text_channel_config \<Rightarrow> string list \<Rightarrow> 'w channel_state \<Rightarrow> (string \<times> nat) list" where
  "rate_run env cfg [] s = []"
| "rate_run env cfg (sender # senders) s =
     (case enforce_rate_limit env cfg sender (tier_from_policy (tc_policy cfg) sender) s of
        (Inr _, s') \<Rightarrow> (sender, fst (cv_now env (ad_world s))) # rate_run env cfg senders s'
      | (Inl _, s') \<Rightarrow> rate_run env cfg senders s')"

definition accepted_at :: "string \<Rightarrow> (string \<times> nat) list \<Rightarrow> nat list" where
  "accepted_at sender run = map snd (filter (\<lambda>(x, _). x = sender) run)"

lemma accepted_at_simps [simp]:
  "accepted_at sender [] = []"
  "accepted_at sender ((x, t) # run) = (if x = sender then t # accepted_at sender run else accepted_at sender run)"
  by (simp_all add: accepted_at_def)

definition clock_monotone :: "'w channel_env \<Rightarrow> bool" where
  "clock_monotone env \<longleftrightarrow> (\<forall>w. fst (cv_now env w) \<le> fst (cv_now env (snd (cv_now env w))))"

lemma rate_run_window:
  assumes "clock_monotone env" "now \<le> fst (cv_now env (ad_world s))"
    "window_in 60000 now h (opt_or (ad_rate_windows s sender) [])" 
    "\<And>t. in_minute t h \<le> tier_quota (tc_policy cfg) (tier_from_policy (tc_policy cfg) sender)"
  shows "in_minute t (h @ accepted_at sender (rate_run env cfg senders s))
    \<le> tier_quota (tc_policy cfg) (tier_from_policy (tc_policy cfg) sender)"
  using assms(2-)
proof (induction senders arbitrary: s h now)
  case (Cons x senders)
  let ?q = "\<lambda>x. tier_quota (tc_policy cfg) (tier_from_policy (tc_policy cfg) x)"
  obtain now' w where n: "cv_now env (ad_world s) = (now', w)" by (cases "cv_now env (ad_world s)")
  obtain ok window where st: "rate_step (?q x) now' (opt_or (ad_rate_windows s x) []) = (ok, window)"
    by (cases "rate_step (?q x) now' (opt_or (ad_rate_windows s x) [])")
  obtain r s' where e: "enforce_rate_limit env cfg x (tier_from_policy (tc_policy cfg) x) s = (r, s')"
      "r = Inr () \<longleftrightarrow> ok" "ad_rate_windows s' = (ad_rate_windows s)(x \<mapsto> window)" "ad_world s' = w"
    using enforce_rate_limit_step [OF n st] by blast
  have next_now: "now' \<le> fst (cv_now env (ad_world s'))"
    using assms(1) n e(4) unfolding clock_monotone_def by (metis fst_conv snd_conv)
  have le: "now \<le> now'" using Cons.prems(1) n by simp
  have acc: "accepted_at sender (rate_run env cfg (x # senders) s) =
      (if ok \<and> x = sender then [now'] else []) @ accepted_at sender (rate_run env cfg senders s')"
    using e n by (cases r) auto
  show ?case
  proof (cases "x = sender")
    case True
    have w: "window_in 60000 now' (if ok then h @ [now'] else h) window \<and>
        (\<forall>t. in_minute t (if ok then h @ [now'] else h) \<le> ?q sender)"
      using window_step_in [OF Cons.prems(2) le Cons.prems(3)] st True by simp
    then show ?thesis using Cons.IH [OF next_now, of "if ok then h @ [now'] else h"] acc e(3) True
      by (cases ok) (simp_all add: opt_or_def)
  next
    case False
    have "window_in 60000 now' h (opt_or (ad_rate_windows s sender) [])"
      using Cons.prems(2) le by (force simp: window_in_def)
    then show ?thesis using Cons.IH [OF next_now, of h] Cons.prems(3) acc e(3) False by (simp add: opt_or_def)
  qed
qed (use assms(4) in simp)

text \<open>
  The per-minute quota is a true sliding window: over any sequence of messages from any senders, with
  a clock that does not run backwards, the number of messages of one sender that the rate limit lets
  through within any span of 60 seconds never exceeds the quota of the sender's trust tier, and a
  blocked sender gets none through.
\<close>

theorem rate_limit_sliding_window:
  assumes "clock_monotone env" "ad_rate_windows s sender = None"
  shows "in_minute t (accepted_at sender (rate_run env cfg senders s))
      \<le> tier_quota (tc_policy cfg) (tier_from_policy (tc_policy cfg) sender) \<and>
    (sender \<in> cp_blocked_senders (tc_policy cfg) \<longrightarrow> accepted_at sender (rate_run env cfg senders s) = [])"
proof -
  have w: "window_in 60000 0 [] (opt_or (ad_rate_windows s sender) [])"
    using assms(2) by (simp add: window_in_def opt_or_def)
  have b: "in_minute t (accepted_at sender (rate_run env cfg senders s))
      \<le> tier_quota (tc_policy cfg) (tier_from_policy (tc_policy cfg) sender)" for t
    using rate_run_window [OF assms(1) _ w, of cfg t senders] by (simp add: in_span_def)
  moreover have "accepted_at sender (rate_run env cfg senders s) = []"
    if "sender \<in> cp_blocked_senders (tc_policy cfg)"
  proof (rule ccontr)
    assume "accepted_at sender (rate_run env cfg senders s) \<noteq> []"
    then obtain x xs where "accepted_at sender (rate_run env cfg senders s) = x # xs" by (meson neq_Nil_conv)
    then show False using b [of x] that by (simp add: tier_from_policy_def in_span_def)
  qed
  ultimately show ?thesis by blast
qed


text \<open>A world that is its own clock, advanced by a second at every reading, and answers every call.\<close>

definition demo_metrics_env :: "nat channel_env" where
  "demo_metrics_env = \<lparr>cv_persistent = True, cv_now = (\<lambda>w. (w, w + 1000)), cv_save = (\<lambda>_ w. (Inr (), w)),
     cv_post = (\<lambda>_ w. (Inr (True, ''200 OK''), w)), cv_phone_number_id = None,
     cv_submit = (\<lambda>_ w. (Inr \<lparr>sa_run_id = ''r1'', sa_accepted_at_ms = w, sa_cli_plugin_preflight = None\<rparr>, w)),
     cv_wait = (\<lambda>_ _ w. (Inr OutcomeTimeout, w)), cv_command = (\<lambda>_ w. (Inr JNull, w)),
     cv_run_policy = (\<lambda>_ _ w. (Inl (Backend []), w)), cv_parse_decision = (\<lambda>_. Inl []),
     cv_pretty = (\<lambda>_. Some ''null'')\<rparr>"

definition demo_policy :: channel_policy where
  "demo_policy = \<lparr>cp_ingress_token = None, cp_allow_accounts = {}, cp_allow_senders = {}, cp_owner_senders = {},
     cp_trusted_senders = {}, cp_probation_senders = {}, cp_blocked_senders = {''mallory''},
     cp_quota_owner_per_minute = 8, cp_quota_standard_per_minute = 2, cp_quota_trusted_per_minute = 4,
     cp_quota_probation_per_minute = 1, cp_cooldown_probation_ms = 1000, cp_max_seen_delivery_ids = 128,
     cp_max_queue_depth = 1, cp_max_text_bytes = 64\<rparr>"

definition demo_channel :: text_channel_config where
  "demo_channel = \<lparr>tc_kind = Slack, tc_enabled = True, tc_pairing_enabled = False,
     tc_direct_ingress = demo_ingress, tc_policy = demo_policy,
     tc_transport = \<lparr>ct_api_base_url = ''https://slack.com/api'', ct_bot_token = None,
       ct_outbound_max_retries = 2, ct_outbound_retry_backoff_ms = 200\<rparr>,
     tc_wasm_policy_plugin = None\<rparr>"

theorem rate_limit_sliding_window_witness:
  "clock_monotone demo_metrics_env \<and> ad_rate_windows (fresh_adapter (0 :: nat)) ''bob'' = None \<and>
   in_minute 60000 (accepted_at ''bob'' (rate_run demo_metrics_env demo_channel
     [''bob'', ''amy'', ''bob'', ''bob'', ''mallory''] (fresh_adapter 0))) \<le> 2"
proof -
  have c: "clock_monotone demo_metrics_env" by (simp add: clock_monotone_def demo_metrics_env_def)
  have n: "ad_rate_windows (fresh_adapter (0 :: nat)) ''bob'' = None" by (simp add: fresh_adapter_def)
  show ?thesis using c n rate_limit_sliding_window [OF c n, of 60000 demo_channel
      "[''bob'', ''amy'', ''bob'', ''bob'', ''mallory'']"]
    by (simp add: demo_channel_def demo_policy_def tier_from_policy_def)
qed

subsection \<open>Pairing\<close>

definition pairing_ok :: "'w channel_state \<Rightarrow> bool" where
  "pairing_ok s \<longleftrightarrow> distinct (map fst (ad_pending_pair_codes s)) \<and> distinct (map snd (ad_pending_pair_codes s)) \<and>
     ad_paired_accounts s \<inter> set (map snd (ad_pending_pair_codes s)) = {}"

lemma update_snd:
  "set (map snd (AList.update k v al)) \<subseteq> insert v (set (map snd al))"
  by (induction al) auto

lemma update_snd_distinct:
  "distinct (map snd al) \<Longrightarrow> v \<notin> set (map snd al) \<Longrightarrow> distinct (map snd (AList.update k v al))"
proof (induction al)
  case (Cons x al)
  then show ?case using update_snd [of k v al] by (cases x) auto
qed simp

lemma delete_eq_filter: "AList.delete k al = filter (\<lambda>(k', _). k \<noteq> k') al"
  by (simp add: AList.delete_eq case_prod_unfold)

lemma delete_snd: "set (map snd (AList.delete k al)) \<subseteq> set (map snd al)"
  by (auto simp: delete_eq_filter)

lemma delete_snd_distinct: "distinct (map snd al) \<Longrightarrow> distinct (map snd (AList.delete k al))"
  unfolding delete_eq_filter by (rule distinct_map_filter)

lemma delete_snd_gone:
  "distinct (map snd al) \<Longrightarrow> map_of al k = Some v \<Longrightarrow> v \<notin> set (map snd (AList.delete k al))"
proof (induction al)
  case (Cons x al)
  then show ?case using map_of_SomeD [of al k v] by (cases x) (force simp: delete_eq_filter split: if_splits)
qed simp

lemma pairing_ok_delete:
  "pairing_ok s \<Longrightarrow> pairing_ok (s\<lparr>ad_pending_pair_codes := AList.delete k (ad_pending_pair_codes s)\<rparr>)"
  using delete_snd [of k "ad_pending_pair_codes s"]
  by (auto simp: pairing_ok_def distinct_delete delete_snd_distinct)

lemma pairing_ok_insert:
  assumes "pairing_ok s" "account \<notin> ad_paired_accounts s" "account \<notin> set (map snd (ad_pending_pair_codes s))"
  shows "pairing_ok (s\<lparr>ad_pending_pair_codes := AList.update k account (ad_pending_pair_codes s)\<rparr>)"
  using assms update_snd [of k account "ad_pending_pair_codes s"]
  by (auto simp: pairing_ok_def distinct_update update_snd_distinct)

lemma pairing_ok_approve:
  assumes "pairing_ok s" "map_of (ad_pending_pair_codes s) k = Some account"
  shows "pairing_ok (s\<lparr>ad_pending_pair_codes := AList.delete k (ad_pending_pair_codes s),
    ad_paired_accounts := insert account (ad_paired_accounts s)\<rparr>)"
  using pairing_ok_delete [OF assms(1), of k] delete_snd_gone [OF _ assms(2)] assms(1)
  by (auto simp: pairing_ok_def)

lemma persist_state_cases:
  obtains e s' where "persist_state env s = (Inl e, s')" "s' = s\<lparr>ad_world := ad_world s'\<rparr>"
  | s' where "persist_state env s = (Inr (), s')" "s' = s\<lparr>ad_world := ad_world s'\<rparr>"
proof (cases "persist_state env s")
  case (Pair r s')
  then have "s' = s\<lparr>ad_world := ad_world s'\<rparr>"
    by (auto simp: persist_state_def worldE_def split: if_splits prod.splits)
  with Pair that show ?thesis by (cases r) auto
qed

text \<open>
  \<^bold>\<open>C15.\<close> Approving a pairing: a code is accepted exactly when pairing is on, the trimmed code is pending and
  the state could be saved; then precisely the account the code was issued to becomes paired and
  the code is used up. Whatever goes wrong, a failed save included, leaves the paired accounts, the
  pending codes and the counter as they were, and the pairing data stays consistent: no account is
  both paired and pending, and no account has two codes.
\<close>

theorem approve_pairing_exact:
  assumes "pairing_ok s" "m_pairing_approved_total (ad_metrics s) < u64_max"
    "approve_pairing env cfg c s = (r, s')"
  shows "pairing_ok s' \<and> (case r of
      Inr reply \<Rightarrow> (\<exists>account. reply = PairingApproved account \<and> tc_pairing_enabled cfg \<and>
        map_of (ad_pending_pair_codes s) (trim c) = Some account \<and>
        ad_paired_accounts s' = insert account (ad_paired_accounts s) \<and> account \<notin> ad_paired_accounts s \<and>
        map_of (ad_pending_pair_codes s') = (map_of (ad_pending_pair_codes s))(trim c := None))
    | Inl e \<Rightarrow> ad_paired_accounts s' = ad_paired_accounts s \<and>
        map_of (ad_pending_pair_codes s') = map_of (ad_pending_pair_codes s) \<and>
        m_pairing_approved_total (ad_metrics s') = m_pairing_approved_total (ad_metrics s))"
proof (cases "tc_pairing_enabled cfg \<and> trim c \<noteq> [] \<and> map_of (ad_pending_pair_codes s) (trim c) \<noteq> None")
  case False
  then have "s' = s \<and> (\<exists>e. r = Inl e)" using assms(3)
    by (auto simp: approve_pairing_def Let_def split: if_splits option.splits)
  then show ?thesis using assms(1) by auto
next
  case True
  then obtain account where a: "map_of (ad_pending_pair_codes s) (trim c) = Some account" by auto
  have fresh: "account \<notin> ad_paired_accounts s"
    using assms(1) map_of_SomeD [OF a] by (force simp: pairing_ok_def)
  let ?s1 = "s\<lparr>ad_pending_pair_codes := AList.delete (trim c) (ad_pending_pair_codes s),
      ad_paired_accounts := insert account (ad_paired_accounts s),
      ad_metrics := (ad_metrics s)\<lparr>m_pairing_approved_total := inc64 (m_pairing_approved_total (ad_metrics s))\<rparr>\<rparr>"
  have ok1: "pairing_ok ?s1" using pairing_ok_approve [OF assms(1) a] by (simp add: pairing_ok_def)
  show ?thesis
  proof (rule persist_state_cases [of env ?s1])
    fix e s2 assume p: "persist_state env ?s1 = (Inl e, s2)" "s2 = ?s1\<lparr>ad_world := ad_world s2\<rparr>"
    have s2: "ad_paired_accounts s2 = insert account (ad_paired_accounts s)"
        "ad_pending_pair_codes s2 = AList.delete (trim c) (ad_pending_pair_codes s)"
        "m_pairing_approved_total (ad_metrics s2) = Suc (m_pairing_approved_total (ad_metrics s))"
      using assms(2) by (subst p(2), simp add: sat_add64_def)+
    have r: "r = Inl e" "s' = s2\<lparr>ad_paired_accounts := ad_paired_accounts s2 - {account},
        ad_pending_pair_codes := AList.update (trim c) account (ad_pending_pair_codes s2),
        ad_metrics := (ad_metrics s2)\<lparr>m_pairing_approved_total := m_pairing_approved_total (ad_metrics s2) - 1\<rparr>\<rparr>"
      using assms(3) True a p(1) by (auto simp: approve_pairing_def Let_def)
    have "pairing_ok (s2\<lparr>ad_paired_accounts := ad_paired_accounts s2 - {account}\<rparr>)"
      using ok1 s2 by (auto simp: pairing_ok_def)
    moreover have "account \<notin> set (map snd (ad_pending_pair_codes s2))"
      using delete_snd_gone [OF _ a] assms(1) by (simp add: s2 pairing_ok_def)
    ultimately have "pairing_ok s'" unfolding r(2)
      using pairing_ok_insert [of "s2\<lparr>ad_paired_accounts := ad_paired_accounts s2 - {account}\<rparr>" account "trim c"]
      by (simp add: pairing_ok_def)
    then show ?thesis using r s2 fresh a by (auto simp: update_conv' delete_conv' fun_eq_iff)
  next
    fix s2 assume p: "persist_state env ?s1 = (Inr (), s2)" "s2 = ?s1\<lparr>ad_world := ad_world s2\<rparr>"
    have r: "r = Inr (PairingApproved account)" "s' = s2"
      using assms(3) True a p(1) by (auto simp: approve_pairing_def Let_def)
    have "pairing_ok s2" using ok1 by (subst p(2)) (simp add: pairing_ok_def)
    moreover have "ad_paired_accounts s2 = insert account (ad_paired_accounts s)"
        "ad_pending_pair_codes s2 = AList.delete (trim c) (ad_pending_pair_codes s)"
      by (subst p(2), simp)+
    ultimately show ?thesis using r True a fresh by (simp add: delete_conv')
  qed
qed


definition demo_pairing_state :: "nat channel_state" where
  "demo_pairing_state = (fresh_adapter 0)\<lparr>ad_pending_pair_codes := [(''123456'', ''7''), (''654321'', ''8'')]\<rparr>"

theorem approve_pairing_exact_witness:
  "\<exists>s'. approve_pairing demo_metrics_env (demo_channel\<lparr>tc_kind := Telegram, tc_pairing_enabled := True\<rparr>)
      '' 123456 '' demo_pairing_state = (Inr (PairingApproved ''7''), s') \<and>
    pairing_ok s' \<and> ad_paired_accounts s' = {''7''} \<and> map_of (ad_pending_pair_codes s') ''123456'' = None"
proof -
  let ?cfg = "demo_channel\<lparr>tc_kind := Telegram, tc_pairing_enabled := True\<rparr>"
  obtain s' where e: "approve_pairing demo_metrics_env ?cfg '' 123456 '' demo_pairing_state = (Inr (PairingApproved ''7''), s')"
    by (simp add: approve_pairing_def Let_def demo_pairing_state_def persist_state_def worldE_def
        demo_metrics_env_def str_eval split: prod.splits)
  have ok: "pairing_ok demo_pairing_state" and m: "m_pairing_approved_total (ad_metrics demo_pairing_state) < u64_max"
    by (simp_all add: pairing_ok_def demo_pairing_state_def fresh_adapter_def default_metrics_def u64_max_def)
  have tr: "trim '' 123456 '' = ''123456''" by (simp add: str_eval)
  show ?thesis using approve_pairing_exact [OF ok m e] e tr
    by (auto simp: demo_pairing_state_def fresh_adapter_def)
qed

subsection \<open>Restarts\<close>

lemma prune_window_twice: "now \<le> now' \<Longrightarrow> prune_window now' (prune_window now w) = prune_window now' w"
  unfolding prune_window_def by (induction w) auto

definition in_cooldown :: "nat \<Rightarrow> string \<Rightarrow> 'w channel_state \<Rightarrow> bool" where
  "in_cooldown now sender s \<longleftrightarrow> (case ad_cooldown_until_ms s sender of None \<Rightarrow> False | Some t \<Rightarrow> now < t)"

text \<open>
  A restart loses nothing: loading the state that was saved gives back the paired accounts, the
  pending codes, the seen deliveries, the inbox and the metrics, and although expired rate-limit
  entries and cooldowns are dropped while loading, every later rate-limit and cooldown decision is
  the one the running adapter would have taken.
\<close>

theorem restart_round_trip:
  assumes "seen_ok (cp_max_seen_delivery_ids (tc_policy cfg)) (ad_seen_delivery_order s, ad_seen_delivery_ids s)"
    "length (ad_inbox s) \<le> cp_max_queue_depth (tc_policy cfg)"
    "s' = apply_persisted_state cfg now (snapshot_state s) s0" "now \<le> later"
  shows "snapshot_state (s'\<lparr>ad_rate_windows := ad_rate_windows s, ad_cooldown_until_ms := ad_cooldown_until_ms s\<rparr>)
      = snapshot_state s \<and>
    ad_seen_delivery_ids s' = ad_seen_delivery_ids s \<and>
    prune_window later (opt_or (ad_rate_windows s' sender) []) =
      prune_window later (opt_or (ad_rate_windows s sender) []) \<and>
    in_cooldown later sender s' = in_cooldown later sender s"
proof -
  have order: "drop (length (ad_seen_delivery_order s) - cp_max_seen_delivery_ids (tc_policy cfg))
      (ad_seen_delivery_order s) = ad_seen_delivery_order s"
    using assms(1) by (simp add: seen_ok_def)
  have "prune_window later (opt_or (ad_rate_windows s' sender) []) =
      prune_window later (opt_or (ad_rate_windows s sender) [])"
  proof (cases "ad_rate_windows s sender")
    case (Some w)
    have "prune_window later (prune_window now w) = prune_window later w"
      using prune_window_twice [OF assms(4)] .
    moreover have "prune_window later [] = []" by (simp add: prune_window_def)
    ultimately show ?thesis using Some
      by (cases "prune_window now w = []")
        (simp_all add: assms(3) apply_persisted_state_def snapshot_state_def Let_def opt_or_def)
  qed (simp add: assms(3) apply_persisted_state_def snapshot_state_def Let_def opt_or_def)
  moreover have "in_cooldown later sender s' = in_cooldown later sender s"
    using assms(4) by (auto simp: in_cooldown_def assms(3) apply_persisted_state_def snapshot_state_def Let_def
        split: option.splits)
  ultimately show ?thesis using order assms(1,2)
    by (simp add: assms(3) apply_persisted_state_def snapshot_state_def Let_def seen_ok_def)
qed

definition demo_saved_state :: "nat channel_state" where
  "demo_saved_state = demo_pairing_state\<lparr>ad_seen_delivery_order := [''d1'', ''d2''],
     ad_seen_delivery_ids := {''d1'', ''d2''}, ad_rate_windows := [''bob'' \<mapsto> [5, 70000]],
     ad_cooldown_until_ms := [''amy'' \<mapsto> 71000]\<rparr>"

theorem restart_round_trip_witness:
  "\<exists>s'. s' = apply_persisted_state demo_channel 70500 (snapshot_state demo_saved_state) (fresh_adapter (0 :: nat)) \<and>
     ad_rate_windows s' ''bob'' = Some [70000] \<and> ad_seen_delivery_ids s' = {''d1'', ''d2''} \<and>
     prune_window 70600 (opt_or (ad_rate_windows s' ''bob'') []) =
       prune_window 70600 (opt_or (ad_rate_windows demo_saved_state ''bob'') [])"
proof -
  let ?s' = "apply_persisted_state demo_channel 70500 (snapshot_state demo_saved_state) (fresh_adapter (0 :: nat))"
  have "seen_ok (cp_max_seen_delivery_ids (tc_policy demo_channel))
      (ad_seen_delivery_order demo_saved_state, ad_seen_delivery_ids demo_saved_state)"
    "length (ad_inbox demo_saved_state) \<le> cp_max_queue_depth (tc_policy demo_channel)"
    by (simp_all add: seen_ok_def demo_saved_state_def demo_pairing_state_def fresh_adapter_def demo_channel_def
        demo_policy_def)
  from restart_round_trip [OF this refl, of 70500 70600 "fresh_adapter (0 :: nat)" "''bob''"]
  have "ad_seen_delivery_ids ?s' = ad_seen_delivery_ids demo_saved_state"
    "prune_window 70600 (opt_or (ad_rate_windows ?s' ''bob'') []) =
       prune_window 70600 (opt_or (ad_rate_windows demo_saved_state ''bob'') [])" by simp_all
  moreover have "ad_rate_windows ?s' ''bob'' = Some [70000]"
    by (simp add: apply_persisted_state_def snapshot_state_def Let_def demo_saved_state_def prune_window_def)
  ultimately show ?thesis by (simp add: demo_saved_state_def)
qed

end
