(* ===== verification/Channel_Ingest.thy ===== *)
theory Channel_Ingest
  imports Channel_Adapter
begin

section \<open>Ingesting and executing channel messages (kelvin-gateway/src/channels.rs)\<close>

text \<open>
  The handler \<open>ingest\<close> of a text channel with the inbox it fills and drains, and the engine that
  dispatches to the four channels.
\<close>

subsection \<open>Executing an entry of the inbox\<close>

abbreviation newline :: string where "newline \<equiv> [CHR 10]"

definition submitE :: "'w channel_env \<Rightarrow> sdk_run_request \<Rightarrow> ('w, sdk_accepted_run) channel_op" where
  "submitE env req = seqE (observeE (ObsSubmit req)) (worldE (cv_submit env req))"

text \<open>\<open>command_exec_payload\<close> and the rendering of its result as the text of the reply.\<close>

definition run_command :: "'w channel_env \<Rightarrow> command_exec_params \<Rightarrow> ('w, string) channel_op" where
  "run_command env params =
     seqE (observeE (ObsCommand params))
     (bindE (attemptE (worldE (cv_command env params))) (\<lambda>r. okE (case r of
       Inr result \<Rightarrow> opt_or (cv_pretty env result) ''done''
     | Inl err \<Rightarrow> ''/'' @ ce_command params @ '' failed: '' @ show_error err)))"

text \<open>\<^verbatim>\<open>let _ = self.send_message_with_retry(..)\<close>\<close>

definition send_ignoring :: "'w channel_env \<Rightarrow> text_channel_config \<Rightarrow> string \<Rightarrow> string \<Rightarrow> ('w, unit) channel_op" where
  "send_ignoring env cfg account_id body =
     bindE (attemptE (send_message_with_retry env cfg account_id body)) (\<lambda>_. okE ())"

definition slash_params :: "queued_slash_command \<Rightarrow> command_exec_params" where
  "slash_params slash = \<lparr>ce_command = qs_command_name slash, ce_args = qs_args slash,
     ce_session_id = qs_session_id slash\<rparr>"

definition execute_slash :: "'w channel_env \<Rightarrow> text_channel_config \<Rightarrow> channel_envelope \<Rightarrow>
    queued_slash_command \<Rightarrow> ('w, channel_reply) channel_op" where
  "execute_slash env cfg e slash =
     bindE (run_command env (slash_params slash)) (\<lambda>reply.
     seqE (send_ignoring env cfg (en_account_id e) reply)
     (seqE (persist_state env)
     (okE (CommandCompleted (qs_command_name slash) (en_delivery_id e)))))"

definition run_request :: "text_channel_config \<Rightarrow> channel_envelope \<Rightarrow> route_decision \<Rightarrow> sdk_run_request" where
  "run_request cfg e route = (let sender_context = ''[Channel: '' @ kind_as_str (tc_kind cfg) @ '' | Sender: '' @
       en_sender_id e @ '' | Tier: '' @ rd_sender_tier route @ '']'' in
     \<lparr>sr_prompt = en_text e, sr_session_id = Some (rd_session_id route),
      sr_workspace_dir = rd_workspace_dir route, sr_timeout_ms = en_timeout_ms e,
      sr_system_prompt = Some (case rd_system_prompt route of
        Some existing \<Rightarrow> sender_context @ newline @ existing | None \<Rightarrow> sender_context),
      sr_memory_query = None, sr_run_id = None\<rparr>)"

definition outbound_text_of :: "agent_run_result \<Rightarrow> string" where
  "outbound_text_of res = (let response_text = join_with newline (map pl_text (res_payloads res)) in
     if trim response_text = [] then ''No response generated.'' else response_text)"

definition execute_message :: "'w channel_env \<Rightarrow> text_channel_config \<Rightarrow> channel_envelope \<Rightarrow>
    route_decision \<Rightarrow> ('w, channel_reply) channel_op" where
  "execute_message env cfg e route =
     bindE (submitE env (run_request cfg e route)) (\<lambda>accepted. let run_id = sa_run_id accepted in
     bindE (worldE (cv_wait env run_id (sat_add64 (opt_or (en_timeout_ms e) 30000) 3000))) (\<lambda>outcome.
     case outcome of
       OutcomeCompleted res \<Rightarrow> (let outbound_text = outbound_text_of res in
         seqE (send_message_with_retry env cfg (en_account_id e) outbound_text)
         (seqE (metricsE (\<lambda>m. m\<lparr>m_completed_total := inc64 (m_completed_total m), m_last_error := None\<rparr>))
         (seqE (persist_state env)
         (okE (Completed run_id (en_delivery_id e) outbound_text route)))))
     | OutcomeFailed err \<Rightarrow>
         seqE (metricsE (\<lambda>m. m\<lparr>m_failed_total := inc64 (m_failed_total m), m_last_error := Some err\<rparr>))
         (seqE (send_ignoring env cfg (en_account_id e) (''Kelvin run failed: '' @ err))
         (seqE (persist_state env)
         (okE (Failed run_id (en_delivery_id e) err route))))
     | OutcomeTimeout \<Rightarrow>
         seqE (metricsE (\<lambda>m. m\<lparr>m_timeout_total := inc64 (m_timeout_total m),
           m_last_error := Some ''run timed out''\<rparr>))
         (seqE (send_ignoring env cfg (en_account_id e) ''Kelvin run timed out.'')
         (seqE (persist_state env)
         (okE (RunTimeout run_id (en_delivery_id e) route))))))"

definition execute_entry ::
    "'w channel_env \<Rightarrow> text_channel_config \<Rightarrow> queued_envelope \<Rightarrow> ('w, channel_reply) channel_op" where
  "execute_entry env cfg entry = (case qe_slash_command entry of
     Some slash \<Rightarrow> execute_slash env cfg (qe_envelope entry) slash
   | None \<Rightarrow> execute_message env cfg (qe_envelope entry) (qe_route entry))"

subsection \<open>Frame conditions\<close>

text \<open>
  \<open>frame f m\<close>: the operation \<open>m\<close> leaves the part \<open>f\<close> of the state as it is. Outbound messages,
  persistence and the execution of an entry touch only the metrics, the world and the trace.
\<close>

definition frame :: "('s \<Rightarrow> 'b) \<Rightarrow> ('s, 'a) eff \<Rightarrow> bool" where
  "frame f m \<longleftrightarrow> (\<forall>s. f (snd (m s)) = f s)"

lemma frame_keeps: "frame f m \<longleftrightarrow> (\<forall>v. keeps (\<lambda>s. f s = v) m)"
  by (auto simp: frame_def keeps_def)

definition core_state :: "'w channel_state \<Rightarrow> string set \<times> (string \<times> string) list \<times> string set \<times> string list \<times>
    (string \<rightharpoonup> nat list) \<times> (string \<rightharpoonup> nat) \<times> queued_envelope list" where
  "core_state s = (ad_paired_accounts s, ad_pending_pair_codes s, ad_seen_delivery_ids s, ad_seen_delivery_order s,
     ad_rate_windows s, ad_cooldown_until_ms s, ad_inbox s)"

lemma core_state_simps [simp]:
  "core_state (s\<lparr>ad_metrics := m\<rparr>) = core_state s"
  "core_state (s\<lparr>ad_world := w\<rparr>) = core_state s"
  "core_state (s\<lparr>ad_trace := t\<rparr>) = core_state s"
  by (simp_all add: core_state_def)

lemma core_frame_basic [keeps_rules]:
  "keeps (\<lambda>s. core_state s = v) (worldE op)"
  "keeps (\<lambda>s. core_state s = v) (observeE ev)"
  "keeps (\<lambda>s. core_state s = v) (metricsE g)"
  by (auto simp: keeps_def worldE_def observeE_def metricsE_def split: prod.splits)

lemma core_frame_calls [keeps_rules]:
  "keeps (\<lambda>s. core_state s = v) (clockE env)"
  "keeps (\<lambda>s. core_state s = v) (persist_state env)"
  by (auto simp: keeps_def clockE_def persist_state_def worldE_def split: prod.splits)

lemma core_frame_send_attempts [keeps_rules]:
  "keeps (\<lambda>s. core_state s = v) (send_attempts env cfg tok acc body n)"
  by (induction n)
    (auto simp: send_attempt_def send_failed_def send_outbound_once_def Let_def intro!: keeps_rules)

lemma core_frame_send [keeps_rules]:
  "keeps (\<lambda>s. core_state s = v) (send_message_with_retry env cfg acc body)"
  "keeps (\<lambda>s. core_state s = v) (send_ignoring env cfg acc body)"
  by (auto simp: send_message_with_retry_def send_ignoring_def intro!: keeps_rules)

lemma core_frame_execute [keeps_rules]:
  "keeps (\<lambda>s. core_state s = v) (run_command env params)"
  "keeps (\<lambda>s. core_state s = v) (execute_entry env cfg entry)"
  by (auto simp: run_command_def execute_entry_def execute_slash_def execute_message_def submitE_def Let_def
      split: run_outcome.splits intro!: keeps_rules)

lemma execute_entry_core: "execute_entry env cfg entry s = (r, s') \<Longrightarrow> core_state s' = core_state s"
  using keepsD [OF core_frame_execute(2)] by fastforce

lemma persist_state_core: "persist_state env s = (r, s') \<Longrightarrow> core_state s' = core_state s"
  using keepsD [OF core_frame_calls(2)] by fastforce

lemma core_state_inbox: "core_state s' = core_state s \<Longrightarrow> ad_inbox s' = ad_inbox s"
  by (simp add: core_state_def)

subsection \<open>Draining the inbox\<close>

function process_inbox :: "'w channel_env \<Rightarrow> text_channel_config \<Rightarrow> string \<Rightarrow> channel_reply option \<Rightarrow>
    ('w, channel_reply) channel_op" where
  "process_inbox env cfg target response s = (case ad_inbox s of
     [] \<Rightarrow> (Inr (opt_or response (Queued target (length (ad_inbox s)))), s)
   | entry # rest \<Rightarrow> (case persist_state env (s\<lparr>ad_inbox := rest\<rparr>) of
       (Inl err, s1) \<Rightarrow> (Inl err, s1)
     | (Inr _, s1) \<Rightarrow> (case execute_entry env cfg entry s1 of
         (Inr reply, s2) \<Rightarrow> process_inbox env cfg target
           (if en_delivery_id (qe_envelope entry) = target then Some reply else response) s2
       | (Inl err, s2) \<Rightarrow>
           if en_delivery_id (qe_envelope entry) = target then (Inl err, s2)
           else process_inbox env cfg target response
             (s2\<lparr>ad_metrics := (ad_metrics s2)\<lparr>m_last_error := Some (show_error err)\<rparr>\<rparr>))))"
  by pat_completeness auto
termination
proof (relation "measure (\<lambda>(_, _, _, _, s). length (ad_inbox s))", goal_cases)
  case (2 env cfg target response s entry rest a b aa s1 r s2)
  then show ?case by (auto dest!: execute_entry_core [OF sym] persist_state_core [OF sym] core_state_inbox)
next
  case (3 env cfg target response s entry rest a b aa s1 r s2)
  then show ?case by (auto dest!: execute_entry_core [OF sym] persist_state_core [OF sym] core_state_inbox)
qed simp

declare process_inbox.simps [simp del]


subsection \<open>The ingest handler\<close>

definition queue_full :: "text_channel_config \<Rightarrow> 'w channel_state \<Rightarrow> bool" where
  "queue_full cfg s \<longleftrightarrow> cp_max_queue_depth (tc_policy cfg) \<le> length (ad_inbox s)"

definition enqueue :: "'w channel_env \<Rightarrow> text_channel_config \<Rightarrow> queued_envelope \<Rightarrow> ('w, channel_reply) channel_op" where
  "enqueue env cfg entry = bindE (getsE (queue_full cfg)) (\<lambda>full.
     if full then
       seqE (metricsE (\<lambda>m. m\<lparr>m_queue_rejected_total := inc64 (m_queue_rejected_total m),
         m_last_error := Some ''channel queue is full''\<rparr>))
       (seqE (persist_state env)
       (errE (Backend (kind_as_str (tc_kind cfg) @ '' channel queue is full''))))
     else
       seqE (metricsE (\<lambda>m. m\<lparr>m_queued_total := inc64 (m_queued_total m)\<rparr>))
       (seqE (modifyE (\<lambda>s. s\<lparr>ad_inbox := ad_inbox s @ [entry]\<rparr>))
       (seqE (persist_state env)
       (process_inbox env cfg (en_delivery_id (qe_envelope entry)) None))))"

definition route_input_of :: "text_channel_config \<Rightarrow> channel_envelope \<Rightarrow> sender_trust_tier \<Rightarrow> route_input" where
  "route_input_of cfg e tier = \<lparr>ri_channel = kind_as_str (tc_kind cfg), ri_account_id = en_account_id e,
     ri_requested_session_id = en_session_id e, ri_requested_workspace_dir = en_workspace_dir e,
     ri_sender_tier = tier\<rparr>"

definition ingest_command :: "'w channel_env \<Rightarrow> text_channel_config \<Rightarrow> route_rule list \<Rightarrow> channel_envelope \<Rightarrow>
    sender_trust_tier \<Rightarrow> slash_command_meta \<Rightarrow> string \<Rightarrow> string \<Rightarrow> ('w, channel_reply) channel_op" where
  "ingest_command env cfg routing e tier meta cmd_name args =
     (if (case cm_min_tier meta of None \<Rightarrow> False | Some min_tier \<Rightarrow> tier < min_tier) then
        seqE (track_delivery_id env cfg (en_delivery_id e))
        (seqE (send_ignoring env cfg (en_account_id e) (''/'' @ cmd_name @ '' requires elevated access''))
        (okE (CommandDenied cmd_name (en_delivery_id e))))
      else let slash = \<lparr>qs_command_name = cmd_name, qs_args = (if args = [] then JNull else JStr args),
             qs_session_id = en_session_id e\<rparr> in
        seqE (track_delivery_id env cfg (en_delivery_id e))
        (if cm_bypass_queue meta then
           bindE (run_command env (slash_params slash)) (\<lambda>reply.
           seqE (send_ignoring env cfg (en_account_id e) reply)
           (okE (CommandDispatched cmd_name (en_delivery_id e))))
         else enqueue env cfg \<lparr>qe_envelope = e, qe_route = decide routing (route_input_of cfg e tier),
           qe_slash_command = Some slash\<rparr>))"

definition ingest_message :: "'w channel_env \<Rightarrow> text_channel_config \<Rightarrow> route_rule list \<Rightarrow> channel_envelope \<Rightarrow>
    sender_trust_tier \<Rightarrow> wasm_policy_decision option \<Rightarrow> ('w, channel_reply) channel_op" where
  "ingest_message env cfg routing e tier decision =
     (let route = decide routing (route_input_of cfg e tier);
          route' = (case decision of None \<Rightarrow> route | Some d \<Rightarrow> apply_wasm_overrides d route) in
      seqE (track_delivery_id env cfg (en_delivery_id e))
      (enqueue env cfg \<lparr>qe_envelope = e, qe_route = route', qe_slash_command = None\<rparr>))"

text \<open>The command a message names, if it is known and offered on the channel.\<close>

definition channel_command :: "text_channel_config \<Rightarrow> command_registry \<Rightarrow> string \<Rightarrow>
    (slash_command_meta \<times> string \<times> string) option" where
  "channel_command cfg reg body = (case parse_slash_input body of
     None \<Rightarrow> None
   | Some (cmd_name, args) \<Rightarrow> (case lookup_meta reg cmd_name of
       None \<Rightarrow> None
     | Some meta \<Rightarrow>
         if cm_surfaces meta = [] \<or> as_command_surface (tc_kind cfg) \<in> set (cm_surfaces meta)
         then Some (meta, cmd_name, args) else None))"

definition dispatch :: "'w channel_env \<Rightarrow> text_channel_config \<Rightarrow> route_rule list \<Rightarrow> command_registry \<Rightarrow>
    channel_envelope \<Rightarrow> sender_trust_tier \<Rightarrow> wasm_policy_decision option \<Rightarrow> ('w, channel_reply) channel_op" where
  "dispatch env cfg routing reg e tier decision = (case channel_command cfg reg (en_text e) of
     Some (meta, cmd_name, args) \<Rightarrow> ingest_command env cfg routing e tier meta cmd_name args
   | None \<Rightarrow> ingest_message env cfg routing e tier decision)"

definition pairing_message :: "string \<Rightarrow> string" where
  "pairing_message c = ''KelvinClaw pairing required. Approve code: '' @ c @
     '' using channel.telegram.pair.approve.''"

text \<open>The handler, by its stages: after the pairing check, after the duplicate check, and as a whole.\<close>

definition ingest_paired :: "'w channel_env \<Rightarrow> text_channel_config \<Rightarrow> route_rule list \<Rightarrow> command_registry \<Rightarrow>
    channel_envelope \<Rightarrow> ('w, channel_reply) channel_op" where
  "ingest_paired env cfg routing reg e =
     bindE (enforce_policy env cfg e) (\<lambda>tier.
     bindE (apply_policy_plugin env cfg e tier) (\<lambda>(tier', e', decision).
     dispatch env cfg routing reg e' tier' decision))"

definition require_pairing :: "'w channel_env \<Rightarrow> text_channel_config \<Rightarrow> channel_envelope \<Rightarrow> string \<Rightarrow>
    ('w, channel_reply) channel_op" where
  "require_pairing env cfg e c =
     seqE (metricsE (\<lambda>m. m\<lparr>m_pairing_required_total := inc64 (m_pairing_required_total m)\<rparr>))
     (seqE (send_ignoring env cfg (en_account_id e) (pairing_message c))
     (okE (PairingRequired (en_account_id e) c)))"

definition ingest_fresh :: "'w channel_env \<Rightarrow> text_channel_config \<Rightarrow> route_rule list \<Rightarrow> command_registry \<Rightarrow>
    channel_envelope \<Rightarrow> ('w, channel_reply) channel_op" where
  "ingest_fresh env cfg routing reg e =
     bindE (enforce_pairing_policy env cfg (en_account_id e)) (\<lambda>pairing. case pairing of
       Some c \<Rightarrow> require_pairing env cfg e c
     | None \<Rightarrow> ingest_paired env cfg routing reg e)"

definition ingest :: "'w channel_env \<Rightarrow> text_channel_config \<Rightarrow> route_rule list \<Rightarrow> command_registry \<Rightarrow>
    channel_envelope \<Rightarrow> ('w, channel_reply) channel_op" where
  "ingest env cfg routing reg envelope =
     seqE (metricsE (\<lambda>m. m\<lparr>m_ingest_total := inc64 (m_ingest_total m)\<rparr>))
     (bindE (liftE (normalize_envelope cfg envelope)) (\<lambda>e.
      bindE (getsE (is_duplicate_delivery (en_delivery_id e))) (\<lambda>dup.
      if dup then
        seqE (metricsE (\<lambda>m. m\<lparr>m_deduped_total := inc64 (m_deduped_total m)\<rparr>)) (okE (Deduped (en_delivery_id e)))
      else ingest_fresh env cfg routing reg e)))"

subsection \<open>The engine\<close>

record 'w channel_engine =
  eg_routing :: "route_rule list"
  eg_commands :: command_registry
  eg_adapters :: "channel_kind \<Rightarrow> (text_channel_config \<times> 'w channel_state) option"
  eg_world :: 'w

definition engine_is_enabled :: "channel_kind \<Rightarrow> 'w channel_engine \<Rightarrow> bool" where
  "engine_is_enabled kind g \<longleftrightarrow> eg_adapters g kind \<noteq> None"

text \<open>
  \<open>adapter_mut\<close> and a call on the adapter it returns; the world is shared by the adapters and handed to
  the one that is called.
\<close>

definition with_adapter :: "channel_kind \<Rightarrow> (text_channel_config \<Rightarrow> ('w, 'a) channel_op) \<Rightarrow>
    ('w channel_engine, 'a) eff" where
  "with_adapter kind f = (\<lambda>g. case eg_adapters g kind of
     None \<Rightarrow> (Inl (NotFound (kind_as_str kind @ '' channel is not enabled'')), g)
   | Some (cfg, s) \<Rightarrow> (case f cfg (s\<lparr>ad_world := eg_world g\<rparr>) of
       (r, s') \<Rightarrow> (r, g\<lparr>eg_adapters := (eg_adapters g)(kind \<mapsto> (cfg, s')), eg_world := ad_world s'\<rparr>)))"

record ingress_request =
  ir_delivery_id :: string
  ir_chat_id :: int
  ir_channel_id :: string
  ir_user_id :: string
  ir_user_phone :: string
  ir_text :: string
  ir_timeout_ms :: "nat option"
  ir_auth_token :: "string option"
  ir_session_id :: "string option"
  ir_workspace_dir :: "string option"

text \<open>
  The four request types as one record; each kind reads the fields its own type has. On Telegram and
  WhatsApp the sender is the account.
\<close>

definition envelope_of_request :: "channel_kind \<Rightarrow> ingress_request \<Rightarrow> channel_envelope" where
  "envelope_of_request kind r = \<lparr>en_delivery_id = ir_delivery_id r,
     en_sender_id = (case kind of Telegram \<Rightarrow> show_int (ir_chat_id r) | WhatsApp \<Rightarrow> ir_user_phone r | _ \<Rightarrow> ir_user_id r),
     en_account_id = (case kind of Telegram \<Rightarrow> show_int (ir_chat_id r) | WhatsApp \<Rightarrow> ir_user_phone r
       | _ \<Rightarrow> ir_channel_id r),
     en_text = ir_text r, en_timeout_ms = ir_timeout_ms r, en_auth_token = ir_auth_token r,
     en_session_id = ir_session_id r, en_workspace_dir = ir_workspace_dir r\<rparr>"

definition engine_ingest :: "'w channel_env \<Rightarrow> channel_kind \<Rightarrow> ingress_request \<Rightarrow>
    ('w channel_engine, channel_reply) eff" where
  "engine_ingest env kind r = (\<lambda>g. with_adapter kind (\<lambda>cfg.
     ingest env cfg (eg_routing g) (eg_commands g) (envelope_of_request kind r)) g)"

definition telegram_approve_pairing :: "'w channel_env \<Rightarrow> string \<Rightarrow> ('w channel_engine, channel_reply) eff" where
  "telegram_approve_pairing env code_arg = with_adapter Telegram (\<lambda>cfg. approve_pairing env cfg code_arg)"

definition engine_record_webhook_verified ::
    "'w channel_env \<Rightarrow> channel_kind \<Rightarrow> nat \<Rightarrow> bool \<Rightarrow> ('w channel_engine, unit) eff" where
  "engine_record_webhook_verified env kind status_code retry_hint =
     with_adapter kind (\<lambda>_. record_webhook_verified env status_code retry_hint)"

definition engine_record_webhook_denied ::
    "'w channel_env \<Rightarrow> channel_kind \<Rightarrow> nat \<Rightarrow> bool \<Rightarrow> string \<Rightarrow> ('w channel_engine, unit) eff" where
  "engine_record_webhook_denied env kind status_code retry_hint reason =
     with_adapter kind (\<lambda>_. record_webhook_denied env status_code retry_hint reason)"

definition kind_of_name :: "string \<Rightarrow> channel_kind option" where
  "kind_of_name channel = find (\<lambda>k. kind_as_str k = channel) [Telegram, Slack, Discord, WhatsApp]"

definition deliver_scheduled_reply :: "'w channel_env \<Rightarrow> string \<Rightarrow> string \<Rightarrow> string \<Rightarrow> ('w channel_engine, unit) eff" where
  "deliver_scheduled_reply env channel account_id body = (case kind_of_name channel of
     Some kind \<Rightarrow> with_adapter kind (\<lambda>cfg. deliver_outbound_message env cfg account_id body)
   | None \<Rightarrow> errE (InvalidInput (''unsupported scheduled reply target channel '' @ quoted channel)))"

definition route_inspect :: "'w channel_engine \<Rightarrow> string \<Rightarrow> string \<Rightarrow> string option \<Rightarrow> string option \<Rightarrow> string option \<Rightarrow>
    (route_decision \<times> nat) kelvin_result" where
  "route_inspect g channel account_id sender_tier session_id workspace_dir =
     bindR (case sender_tier of
         None \<Rightarrow> Inr Standard
       | Some value \<Rightarrow> (case tier_parse value of
           Some t \<Rightarrow> Inr t
         | None \<Rightarrow> Inl (InvalidInput (''invalid sender_tier '' @ quoted value @
             '' (expected owner|trusted|standard|probation|blocked)''))))
       (\<lambda>tier. Inr (decide (eg_routing g) \<lparr>ri_channel = channel, ri_account_id = account_id,
          ri_requested_session_id = session_id, ri_requested_workspace_dir = workspace_dir,
          ri_sender_tier = tier\<rparr>, length (eg_routing g)))"


subsection \<open>The inbox is drained in order\<close>

definition executions :: "channel_obs list \<Rightarrow> channel_obs list" where
  "executions tr = filter (\<lambda>ev. case ev of ObsPost _ \<Rightarrow> False | _ \<Rightarrow> True) tr"

definition exec_of :: "text_channel_config \<Rightarrow> queued_envelope \<Rightarrow> channel_obs" where
  "exec_of cfg entry = (case qe_slash_command entry of
     Some slash \<Rightarrow> ObsCommand (slash_params slash)
   | None \<Rightarrow> ObsSubmit (run_request cfg (qe_envelope entry) (qe_route entry)))"

text \<open>
  What a client of the channel can observe of a call: the runs and commands, the inbox and the seen
  deliveries. Sending, saving, pairing and the policy checks leave it alone.
\<close>

definition effect_view :: "'w channel_state \<Rightarrow> channel_obs list \<times> queued_envelope list \<times> string list \<times> string set" where
  "effect_view s = (executions (ad_trace s), ad_inbox s, ad_seen_delivery_order s, ad_seen_delivery_ids s)"

lemma executions_append [simp]: "executions (a @ b) = executions a @ executions b"
  by (simp add: executions_def)

lemma executions_simps [simp]:
  "executions [] = []"
  "executions [ObsPost q] = []" "executions [ObsSubmit r] = [ObsSubmit r]" "executions [ObsCommand c] = [ObsCommand c]"
  by (simp_all add: executions_def)

lemma effect_view_simps [simp]:
  "effect_view (s\<lparr>ad_metrics := m\<rparr>) = effect_view s"
  "effect_view (s\<lparr>ad_world := w\<rparr>) = effect_view s"
  "effect_view (s\<lparr>ad_pending_pair_codes := p\<rparr>) = effect_view s"
  "effect_view (s\<lparr>ad_rate_windows := rw\<rparr>) = effect_view s"
  "effect_view (s\<lparr>ad_cooldown_until_ms := cd\<rparr>) = effect_view s"
  "effect_view (s\<lparr>ad_trace := ad_trace s @ [ObsPost q]\<rparr>) = effect_view s"
  by (simp_all add: effect_view_def)

lemma quiet_basic [keeps_rules]:
  "keeps (\<lambda>s. effect_view s = v) (worldE op)"
  "keeps (\<lambda>s. effect_view s = v) (observeE (ObsPost q))"
  "keeps (\<lambda>s. effect_view s = v) (metricsE g)"
  "keeps (\<lambda>s. effect_view s = v) (clockE env)"
  "keeps (\<lambda>s. effect_view s = v) (persist_state env)"
  by (auto simp: keeps_def clockE_def persist_state_def worldE_def observeE_def metricsE_def split: prod.splits)

lemma quiet_send_attempts [keeps_rules]:
  "keeps (\<lambda>s. effect_view s = v) (send_attempts env cfg tok acc body n)"
  by (induction n)
    (auto simp: send_attempt_def send_failed_def send_outbound_once_def Let_def intro!: keeps_rules)

lemma quiet_send [keeps_rules]:
  "keeps (\<lambda>s. effect_view s = v) (send_message_with_retry env cfg acc body)"
  "keeps (\<lambda>s. effect_view s = v) (send_ignoring env cfg acc body)"
  by (auto simp: send_message_with_retry_def send_ignoring_def intro!: keeps_rules)

lemma quiet_pairing [keeps_rules]: "keeps (\<lambda>s. effect_view s = v) (enforce_pairing_policy env cfg acc)"
  unfolding enforce_pairing_policy_def Let_def
  by (intro keeps_rules) (auto intro!: keeps_rules keeps_modifyE split: option.splits)

lemma quiet_rate_limit [keeps_rules]: "keeps (\<lambda>s. effect_view s = v) (enforce_rate_limit env cfg sender tier)"
  unfolding enforce_rate_limit_def by (intro keeps_rules) (simp add: keeps_def Let_def)

lemma quiet_cooldown [keeps_rules]: "keeps (\<lambda>s. effect_view s = v) (enforce_cooldown env cfg sender)"
  unfolding enforce_cooldown_def by (intro keeps_rules) (simp add: keeps_def)

lemma quiet_deny [keeps_rules]: "keeps (\<lambda>s. effect_view s = v) (deny_policy err)"
  unfolding deny_policy_def by (intro keeps_rules)

lemma quiet_policy [keeps_rules]:
  "keeps (\<lambda>s. effect_view s = v) (enforce_policy env cfg e)"
  "keeps (\<lambda>s. effect_view s = v) (apply_policy_plugin env cfg e tier)"
  by (auto simp: enforce_policy_def apply_policy_plugin_def evaluate_policy_def Let_def
      intro!: keeps_rules split: sum.splits option.splits)

lemma seq_observe:
  assumes "\<And>v. keeps (\<lambda>s. effect_view s = v) m" and "seqE (observeE ev) m s = (r, s')"
  shows "effect_view s' = effect_view (s\<lparr>ad_trace := ad_trace s @ [ev]\<rparr>)"
  using assms(2) keeps_snd [OF assms(1), of "s\<lparr>ad_trace := ad_trace s @ [ev]\<rparr>"]
  by (simp add: seqE_def observeE_def bindE_def)

lemma seq_assoc: "bindE (seqE m n) k = seqE m (bindE n k)"
  by (auto simp: seqE_def bindE_def fun_eq_iff split: prod.splits sum.splits)

lemma execute_entry_effect:
  assumes "execute_entry env cfg entry s = (r, s')"
  shows "effect_view s' = effect_view (s\<lparr>ad_trace := ad_trace s @ [exec_of cfg entry]\<rparr>)"
proof (cases "qe_slash_command entry")
  case None
  note h = assms [unfolded execute_entry_def None option.case execute_message_def submitE_def seq_assoc]
  show ?thesis unfolding exec_of_def None option.case
    by (rule seq_observe [OF _ h]) (auto simp: Let_def intro!: keeps_rules split: run_outcome.splits)
next
  case (Some slash)
  note h = assms [unfolded execute_entry_def Some option.case execute_slash_def run_command_def seq_assoc]
  show ?thesis unfolding exec_of_def Some option.case
    by (rule seq_observe [OF _ h]) (auto intro!: keeps_rules)
qed

text \<open>The part of the state that draining the inbox leaves alone.\<close>

definition idle_view :: "'w channel_state \<Rightarrow> string set \<times> (string \<times> string) list \<times> string set \<times> string list \<times>
    (string \<rightharpoonup> nat list) \<times> (string \<rightharpoonup> nat)" where
  "idle_view s = (ad_paired_accounts s, ad_pending_pair_codes s, ad_seen_delivery_ids s, ad_seen_delivery_order s,
     ad_rate_windows s, ad_cooldown_until_ms s)"

lemma idle_of_core: "core_state s' = core_state s \<Longrightarrow> idle_view s' = idle_view s"
  by (simp add: core_state_def idle_view_def)

lemma idle_view_simps [simp]:
  "idle_view (s\<lparr>ad_inbox := q\<rparr>) = idle_view s"
  "idle_view (s\<lparr>ad_metrics := m\<rparr>) = idle_view s"
  by (simp_all add: idle_view_def)

definition reply_delivery :: "channel_reply \<Rightarrow> string option" where
  "reply_delivery reply = (case reply of
     CommandCompleted _ d \<Rightarrow> Some d | Completed _ d _ _ \<Rightarrow> Some d | Failed _ d _ _ \<Rightarrow> Some d
   | RunTimeout _ d _ \<Rightarrow> Some d | Queued d _ \<Rightarrow> Some d | _ \<Rightarrow> None)"

lemma seqE_Inr: "seqE m n s = (Inr y, t) \<Longrightarrow> \<exists>x s1. m s = (Inr x, s1) \<and> n s1 = (Inr y, t)"
  unfolding seqE_def by (rule bindE_Inr)

lemma execute_entry_reply:
  assumes "execute_entry env cfg entry s = (Inr reply, s')"
  shows "reply_delivery reply = Some (en_delivery_id (qe_envelope entry))"
  using assms
  by (auto simp: execute_entry_def execute_slash_def execute_message_def Let_def reply_delivery_def
      dest!: bindE_Inr seqE_Inr split: option.splits run_outcome.splits)

text \<open>
  \<open>drained cfg r s s'\<close>: from \<open>s\<close> to \<open>s'\<close> the first entries of the inbox were executed, in order and once
  each, and taken out; all of them on success, and on an error at most one more entry was taken out.
\<close>

definition drained :: "text_channel_config \<Rightarrow> 'a kelvin_result \<Rightarrow> 'w channel_state \<Rightarrow> 'w channel_state \<Rightarrow> bool" where
  "drained cfg r s s' \<longleftrightarrow> (\<exists>k j.
     executions (ad_trace s') = executions (ad_trace s) @ map (exec_of cfg) (take k (ad_inbox s)) \<and>
     ad_inbox s' = drop j (ad_inbox s) \<and> k \<le> j \<and> j \<le> length (ad_inbox s) \<and>
     (case r of Inr _ \<Rightarrow> k = length (ad_inbox s) | Inl _ \<Rightarrow> j \<le> Suc k \<and> 0 < j) \<and> idle_view s' = idle_view s)"

lemma drainedI:
  "executions (ad_trace s') = executions (ad_trace s) @ map (exec_of cfg) (take k (ad_inbox s)) \<Longrightarrow>
   ad_inbox s' = drop j (ad_inbox s) \<Longrightarrow> k \<le> j \<Longrightarrow> j \<le> length (ad_inbox s) \<Longrightarrow>
   (case r of Inr _ \<Rightarrow> k = length (ad_inbox s) | Inl _ \<Rightarrow> j \<le> Suc k \<and> 0 < j) \<Longrightarrow>
   idle_view s' = idle_view s \<Longrightarrow> drained cfg r s s'"
  unfolding drained_def by blast

lemma drained_step:
  assumes "drained cfg r s2 s'" "executions (ad_trace s2) = executions (ad_trace s) @ [exec_of cfg entry]"
    "ad_inbox s = entry # ad_inbox s2" "idle_view s2 = idle_view s"
  shows "drained cfg r s s'"
proof -
  obtain k j where "executions (ad_trace s') = executions (ad_trace s2) @ map (exec_of cfg) (take k (ad_inbox s2))"
    "ad_inbox s' = drop j (ad_inbox s2)" "k \<le> j" "j \<le> length (ad_inbox s2)"
    "case r of Inr _ \<Rightarrow> k = length (ad_inbox s2) | Inl _ \<Rightarrow> j \<le> Suc k \<and> 0 < j" "idle_view s' = idle_view s2"
    using assms(1) by (auto simp: drained_def)
  then show ?thesis using assms
    by (intro drainedI [where k = "Suc k" and j = "Suc j"]) (simp_all split: sum.splits)
qed

lemma pop_entry:
  assumes "ad_inbox s = entry # rest" "persist_state env (s\<lparr>ad_inbox := rest\<rparr>) = (pr, s1)"
  shows "executions (ad_trace s1) = executions (ad_trace s) \<and> ad_inbox s1 = rest \<and> idle_view s1 = idle_view s"
  using keepsD [OF quiet_basic(5) _ assms(2)] idle_of_core [OF persist_state_core [OF assms(2)]]
  by (simp add: effect_view_def)

lemma run_entry:
  assumes "ad_inbox s = entry # rest" "persist_state env (s\<lparr>ad_inbox := rest\<rparr>) = (pr, s1)"
    "execute_entry env cfg entry s1 = (er, s2)"
  shows "executions (ad_trace s2) = executions (ad_trace s) @ [exec_of cfg entry] \<and>
    ad_inbox s = entry # ad_inbox s2 \<and> idle_view s2 = idle_view s"
proof -
  have "executions [exec_of cfg entry] = [exec_of cfg entry]" by (simp add: exec_of_def split: option.splits)
  then show ?thesis
    using execute_entry_effect [OF assms(3)] idle_of_core [OF execute_entry_core [OF assms(3)]]
      pop_entry [OF assms(1,2)] assms(1) by (simp add: effect_view_def)
qed

lemma process_inbox_drained:
  "process_inbox env cfg target response s = (r, s') \<Longrightarrow> drained cfg r s s'"
proof (induction "ad_inbox s" arbitrary: s response)
  case Nil
  then show ?case by (auto simp: process_inbox.simps drained_def)
next
  case (Cons entry rest)
  note ib = Cons.hyps(2) [symmetric]
  obtain pr s1 where p: "persist_state env (s\<lparr>ad_inbox := rest\<rparr>) = (pr, s1)" by fastforce
  note unf = process_inbox.simps [of env cfg target response s, unfolded Cons.prems ib list.case p prod.case]
  show ?case
  proof (cases pr)
    case (Inl err)
    then have "r = Inl err" "s' = s1" using unf by simp_all
    then show ?thesis using pop_entry [OF ib p] ib by (intro drainedI [where k = 0 and j = 1]) simp_all
  next
    case (Inr u)
    obtain er s2 where x: "execute_entry env cfg entry s1 = (er, s2)" by fastforce
    note run = run_entry [OF ib p x]
    have go: "drained cfg r s s'"
      if "process_inbox env cfg target resp s3 = (r, s')" "ad_trace s3 = ad_trace s2" "ad_inbox s3 = ad_inbox s2"
        "idle_view s3 = idle_view s2" for resp s3
    proof -
      have rest: "rest = ad_inbox s3" using run that(3) ib by (metis list.inject)
      show ?thesis using run that(2-4) by (intro drained_step [OF Cons.hyps(1) [OF rest that(1)]]) simp_all
    qed
    show ?thesis
    proof (cases er)
      case (Inr reply)
      then show ?thesis using unf \<open>pr = Inr u\<close> x by (intro go [of _ s2]) simp_all
    next
      case (Inl err)
      show ?thesis
      proof (cases "en_delivery_id (qe_envelope entry) = target")
        case True
        then have "r = Inl err" "s' = s2" using unf \<open>pr = Inr u\<close> x Inl by simp_all
        then show ?thesis using run ib by (intro drainedI [where k = 1 and j = 1]) simp_all
      next
        case False
        then have "process_inbox env cfg target response
            (s2\<lparr>ad_metrics := (ad_metrics s2)\<lparr>m_last_error := Some (show_error err)\<rparr>\<rparr>) = (r, s')"
          using unf \<open>pr = Inr u\<close> x Inl by simp
        then show ?thesis by (rule go) simp_all
      qed
    qed
  qed
qed


lemma process_inbox_reply:
  assumes "process_inbox env cfg target response s = (Inr reply, s')"
    "case response of None \<Rightarrow> True | Some x \<Rightarrow> reply_delivery x = Some target"
  shows "reply_delivery reply = Some target"
  using assms
proof (induction "ad_inbox s" arbitrary: s response)
  case Nil
  then show ?case by (auto simp: process_inbox.simps opt_or_def reply_delivery_def split: option.splits)
next
  case (Cons entry rest)
  note ib = Cons.hyps(2) [symmetric]
  obtain pr s1 where p: "persist_state env (s\<lparr>ad_inbox := rest\<rparr>) = (pr, s1)" by fastforce
  obtain er s2 where x: "execute_entry env cfg entry s1 = (er, s2)" by fastforce
  have rest: "rest = ad_inbox s2" using run_entry [OF ib p x] ib by simp
  note unf = process_inbox.simps [of env cfg target response s, unfolded Cons.prems(1) ib list.case p prod.case x]
  show ?case
  proof (cases er)
    case (Inr y)
    then have "process_inbox env cfg target
        (if en_delivery_id (qe_envelope entry) = target then Some y else response) s2 = (Inr reply, s')"
      using unf by (simp split: sum.splits)
    moreover have "reply_delivery y = Some (en_delivery_id (qe_envelope entry))"
      using execute_entry_reply x Inr by blast
    ultimately show ?thesis using Cons.hyps(1) [OF rest] Cons.prems(2)
      by (cases "en_delivery_id (qe_envelope entry) = target") simp_all
  next
    case (Inl err)
    then have "process_inbox env cfg target response
        (s2\<lparr>ad_metrics := (ad_metrics s2)\<lparr>m_last_error := Some (show_error err)\<rparr>\<rparr>) = (Inr reply, s')"
      using unf by (auto split: sum.splits if_splits)
    then show ?thesis using rest Cons.prems(2) by (intro Cons.hyps(1)) simp_all
  qed
qed

text \<open>
  Draining the inbox is first in, first out: when it succeeds, every entry that was queued has been
  executed exactly once and in the order of arrival (a run submitted for a message, a command
  dispatched for a slash command), the inbox is empty, and the reply is the one of the delivery the
  call is about. When it fails, the executed entries are a prefix of the inbox, and what is left of
  the inbox is the rest, short of at most the one entry at which it failed.
\<close>

theorem inbox_fifo:
  "case process_inbox env cfg target None s of
     (Inr reply, s') \<Rightarrow>
       executions (ad_trace s') = executions (ad_trace s) @ map (exec_of cfg) (ad_inbox s) \<and>
       ad_inbox s' = [] \<and> reply_delivery reply = Some target
   | (Inl _, s') \<Rightarrow> \<exists>k j. k \<le> j \<and> j \<le> Suc k \<and>
       executions (ad_trace s') = executions (ad_trace s) @ map (exec_of cfg) (take k (ad_inbox s)) \<and>
       ad_inbox s' = drop j (ad_inbox s)"
proof (cases "process_inbox env cfg target None s")
  case (Pair r s')
  then show ?thesis using process_inbox_drained [OF Pair] process_inbox_reply [of env cfg target None s]
    by (cases r) (auto simp: drained_def)
qed

subsection \<open>Admission\<close>

lemma keeps_eqD: "(\<And>v. keeps (\<lambda>s. f s = v) m) \<Longrightarrow> m s = (r, s') \<Longrightarrow> f s' = f s"
  unfolding keeps_def by (metis snd_conv)

lemma enforce_pairing_gate:
  assumes "enforce_pairing_policy env cfg acc s = (Inr None, s')"
  shows "(tc_pairing_enabled cfg \<longrightarrow> acc \<in> cp_allow_accounts (tc_policy cfg) \<or> acc \<in> ad_paired_accounts s) \<and> s' = s"
  using assms
  by (auto simp: enforce_pairing_policy_def Let_def bindE_def seqE_def attemptE_def clockE_def worldE_def persist_state_def
      split: if_splits option.splits prod.splits sum.splits)

text \<open>The rate windows and cooldowns; only the policy check changes them.\<close>

definition limit_view :: "'w channel_state \<Rightarrow> (string \<rightharpoonup> nat list) \<times> (string \<rightharpoonup> nat)" where
  "limit_view s = (ad_rate_windows s, ad_cooldown_until_ms s)"

text \<open>
  The limits of a sender at the times the handler reads. The first reading decides on the quota: the
  messages of the window that are not older than a minute must be fewer than the quota of the sender's tier, and
  the new one is recorded behind them. For a sender on probation the second reading decides on the cooldown,
  which must be over and starts again.
\<close>

definition quota_of :: "channel_policy \<Rightarrow> sender_trust_tier \<Rightarrow> nat" where
  "quota_of p tier = (case tier of Owner \<Rightarrow> cp_quota_owner_per_minute p | Trusted \<Rightarrow> cp_quota_trusted_per_minute p
     | Standard \<Rightarrow> cp_quota_standard_per_minute p | Probation \<Rightarrow> cp_quota_probation_per_minute p | Blocked \<Rightarrow> 0)"

definition last_minute :: "nat \<Rightarrow> nat list option \<Rightarrow> nat list" where
  "last_minute now window = (case window of None \<Rightarrow> [] | Some ts \<Rightarrow> dropWhile (\<lambda>t. t + 60000 < now) ts)"

definition within_limits :: "'w channel_env \<Rightarrow> text_channel_config \<Rightarrow> string \<Rightarrow> 'w channel_state \<Rightarrow> 'w channel_state \<Rightarrow> bool" where
  "within_limits env cfg sender s s' \<longleftrightarrow> (let p = tc_policy cfg; tier = tier_from_policy p sender;
       (now, w1) = cv_now env (ad_world s); (now2, w2) = cv_now env w1;
       recent = last_minute now (ad_rate_windows s sender) in
     length recent < quota_of p tier \<and> ad_rate_windows s' = (ad_rate_windows s)(sender \<mapsto> recent @ [now]) \<and>
     (if tier = Probation \<and> 0 < cp_cooldown_probation_ms p
      then (case ad_cooldown_until_ms s sender of None \<Rightarrow> True | Some until_ms \<Rightarrow> until_ms \<le> now2) \<and>
        ad_cooldown_until_ms s' = (ad_cooldown_until_ms s)(sender \<mapsto> sat_add128 now2 (cp_cooldown_probation_ms p))
      else ad_cooldown_until_ms s' = ad_cooldown_until_ms s))"

lemma within_limits_cong: "limit_view s2 = limit_view s1 \<Longrightarrow> within_limits env cfg sender s s1 \<Longrightarrow> within_limits env cfg sender s s2"
  by (auto simp: within_limits_def limit_view_def Let_def)

lemma last_minute_prune: "last_minute now window = prune_window now (opt_or window [])"
proof -
  have "(\<lambda>t. t + 60000 < now) = (\<lambda>t. 60000 < now - t)" by auto
  then show ?thesis by (simp add: last_minute_def prune_window_def opt_or_def split: option.split)
qed

lemma quota_of_tier: "quota_of p tier = tier_quota p tier"
  by (cases tier) (simp_all add: quota_of_def)

lemma enforce_limits_gate:
  assumes "seqE (enforce_rate_limit env cfg sender tier)
      (seqE (if tier = Probation \<and> 0 < cp_cooldown_probation_ms (tc_policy cfg) then enforce_cooldown env cfg sender else okE ())
      (seqE (persist_state env) (okE tier))) s = (Inr tier', s')"
    and "tier = tier_from_policy (tc_policy cfg) sender"
  shows "within_limits env cfg sender s s' \<and> tier' = tier"
proof -
  obtain now w1 where n1: "cv_now env (ad_world s) = (now, w1)" by fastforce
  obtain now2 w2 where n2: "cv_now env w1 = (now2, w2)" by fastforce
  have saved: "limit_view s2 = limit_view s1" if "persist_state env s1 = (r, s2)" for s1 r s2
    using persist_state_core [OF that] by (simp add: core_state_def limit_view_def)
  show ?thesis
    using assms n1 n2
    by (auto simp: seqE_def enforce_rate_limit_def enforce_cooldown_def bindE_def clockE_def worldE_def Let_def
        within_limits_def last_minute_prune quota_of_tier limit_view_def not_less
        split: if_splits prod.splits sum.splits option.splits dest!: saved)
qed

text \<open>What a message must satisfy before it has any effect.\<close>

definition may_enter :: "text_channel_config \<Rightarrow> 'w channel_state \<Rightarrow> channel_envelope \<Rightarrow> bool" where
  "may_enter cfg s e \<longleftrightarrow> (let p = tc_policy cfg; tier = tier_from_policy p (en_sender_id e) in
     en_delivery_id e \<notin> ad_seen_delivery_ids s \<and>
     (\<not> tc_pairing_enabled cfg \<or> en_account_id e \<in> cp_allow_accounts p \<or> en_account_id e \<in> ad_paired_accounts s) \<and>
     en_sender_id e \<notin> cp_blocked_senders p \<and>
     (cp_allow_accounts p = {} \<or> en_account_id e \<in> cp_allow_accounts p \<or> tier = Owner) \<and>
     (cp_allow_senders p = {} \<or> en_sender_id e \<in> cp_allow_senders p \<or> tier \<noteq> Standard))"

lemma blocked_tier: "tier_from_policy p x = Blocked \<longleftrightarrow> x \<in> cp_blocked_senders p"
  by (simp add: tier_from_policy_def)

lemma enforce_policy_gate:
  assumes "enforce_policy env cfg e s = (Inr tier, s')" "en_delivery_id e \<notin> ad_seen_delivery_ids s"
    "tc_pairing_enabled cfg \<longrightarrow> en_account_id e \<in> cp_allow_accounts (tc_policy cfg) \<or> en_account_id e \<in> ad_paired_accounts s"
  shows "may_enter cfg s e \<and> within_limits env cfg (en_sender_id e) s s'"
proof -
  let ?p = "tc_policy cfg" and ?t = "tier_from_policy (tc_policy cfg) (en_sender_id e)"
  have deny: "deny_policy err s \<noteq> (Inr tier, s')" for err
    by (simp add: deny_policy_def seqE_def bindE_def metricsE_def)
  have g: "?t \<noteq> Blocked" "cp_allow_accounts ?p = {} \<or> en_account_id e \<in> cp_allow_accounts ?p \<or> ?t = Owner"
      "cp_allow_senders ?p = {} \<or> en_sender_id e \<in> cp_allow_senders ?p \<or> ?t \<noteq> Standard"
    and go: "seqE (enforce_rate_limit env cfg (en_sender_id e) ?t)
        (seqE (if ?t = Probation \<and> 0 < cp_cooldown_probation_ms ?p then enforce_cooldown env cfg (en_sender_id e) else okE ())
        (seqE (persist_state env) (okE ?t))) s = (Inr tier, s')"
    using assms(1) deny unfolding enforce_policy_def Let_def by (auto split: if_splits)
  show ?thesis using g enforce_limits_gate [OF go refl] assms(2,3)
    by (auto simp: may_enter_def Let_def blocked_tier)
qed

lemma normalized_envelope:
  assumes "normalize_envelope cfg envelope = Inr e"
  shows "(cp_ingress_token (tc_policy cfg) = None \<or> en_auth_token envelope = cp_ingress_token (tc_policy cfg)) \<and>
    en_text e \<noteq> [] \<and> utf8_len (en_text e) \<le> cp_max_text_bytes (tc_policy cfg) \<and>
    en_delivery_id e \<noteq> [] \<and> en_delivery_id e = trim (en_delivery_id envelope) \<and> utf8_len (en_delivery_id e) \<le> 256"
  using assms
  by (auto simp: normalize_envelope_def normalize_identifier_def verify_ingress_auth_def Let_def
      MAX_CHANNEL_IDENTIFIER_BYTES_def split: if_splits option.splits)

lemma bindE_quiet:
  assumes "\<And>v. keeps (\<lambda>s. effect_view s = v) m" "bindE m k s = (r, s')" "effect_view s' \<noteq> effect_view s"
  obtains x s1 where "m s = (Inr x, s1)" "effect_view s1 = effect_view s" "k x s1 = (r, s')"
proof (cases "m s")
  case (Pair y s1)
  then have "effect_view s1 = effect_view s" using keeps_eqD [OF assms(1)] by blast
  then show ?thesis using Pair assms(2,3) that by (cases y) (auto simp: bindE_def)
qed

lemma apply_policy_plugin_ids:
  "apply_policy_plugin env cfg e tier s = (Inr (tier', e', decision), s') \<Longrightarrow>
     en_delivery_id e' = en_delivery_id e \<and> en_account_id e' = en_account_id e"
  by (auto simp: apply_policy_plugin_def Let_def deny_policy_def seqE_def
      split: option.splits if_splits dest!: bindE_Inr)

text \<open>A call of \<open>ingest\<close> that has any effect admitted its message and reached \<open>dispatch\<close>.\<close>

definition reaches_dispatch :: "'w channel_env \<Rightarrow> text_channel_config \<Rightarrow> route_rule list \<Rightarrow> command_registry \<Rightarrow>
    channel_envelope \<Rightarrow> 'w channel_state \<Rightarrow> channel_reply kelvin_result \<times> 'w channel_state \<Rightarrow> bool" where
  "reaches_dispatch env cfg routing reg e s out \<longleftrightarrow> (\<exists>e' tier decision s1.
     en_delivery_id e' = en_delivery_id e \<and> en_account_id e' = en_account_id e \<and> effect_view s1 = effect_view s \<and>
     within_limits env cfg (en_sender_id e) s s1 \<and> dispatch env cfg routing reg e' tier decision s1 = out)"

lemma keeps_pred: "(\<And>v. keeps (\<lambda>s. f s = v) m) \<Longrightarrow> (\<And>s s'. f s' = f s \<Longrightarrow> I s \<Longrightarrow> I s') \<Longrightarrow> keeps I m"
  unfolding keeps_def by metis

lemma limits_policy_plugin: "keeps (\<lambda>s. limit_view s = v) (apply_policy_plugin env cfg e tier)"
proof -
  have core: "keeps (\<lambda>s. limit_view s = v) m" if "\<And>v. keeps (\<lambda>s. core_state s = v) m" for m :: "('a, 'z) channel_op"
    by (rule keeps_pred [OF that]) (simp add: core_state_def limit_view_def)
  show ?thesis
    by (rule core) (auto simp: apply_policy_plugin_def evaluate_policy_def deny_policy_def Let_def
        intro!: keeps_rules split: sum.splits option.splits)
qed

lemma ingest_paired_effect:
  assumes "ingest_paired env cfg routing reg e s = (r, s')" "effect_view s' \<noteq> effect_view s"
    "en_delivery_id e \<notin> ad_seen_delivery_ids s"
    "tc_pairing_enabled cfg \<longrightarrow> en_account_id e \<in> cp_allow_accounts (tc_policy cfg) \<or> en_account_id e \<in> ad_paired_accounts s"
  shows "may_enter cfg s e \<and> reaches_dispatch env cfg routing reg e s (r, s')"
proof (rule bindE_quiet [OF quiet_policy(1) assms(1) [unfolded ingest_paired_def] assms(2)], goal_cases)
  case (1 tier s1)
  have ne: "effect_view s' \<noteq> effect_view s1" using assms(2) 1(2) by simp
  have gate: "may_enter cfg s e" "within_limits env cfg (en_sender_id e) s s1"
    using enforce_policy_gate [OF 1(1) assms(3,4)] by simp_all
  have "reaches_dispatch env cfg routing reg e s (r, s')"
  proof (rule bindE_quiet [OF quiet_policy(2) 1(3) ne], goal_cases)
    case (1 out s2)
    obtain tier' e' decision where out: "out = (tier', e', decision)" by (cases out)
    have "limit_view s2 = limit_view s1" by (rule keeps_eqD [OF limits_policy_plugin 1(1)])
    then have "within_limits env cfg (en_sender_id e) s s2" using gate(2) by (rule within_limits_cong)
    then show ?case using apply_policy_plugin_ids [OF 1(1) [unfolded out]] 1 out \<open>effect_view s1 = effect_view s\<close>
      unfolding reaches_dispatch_def by auto
  qed
  then show ?case using gate(1) by blast
qed

lemma ingest_fresh_effect:
  assumes "ingest_fresh env cfg routing reg e s = (r, s')" "effect_view s' \<noteq> effect_view s"
    "en_delivery_id e \<notin> ad_seen_delivery_ids s"
  shows "may_enter cfg s e \<and> reaches_dispatch env cfg routing reg e s (r, s')"
proof (rule bindE_quiet [OF quiet_pairing assms(1) [unfolded ingest_fresh_def] assms(2)], goal_cases)
  case (1 pairing s1)
  show ?case
  proof (cases pairing)
    case None
    have g: "s1 = s" "tc_pairing_enabled cfg \<longrightarrow>
        en_account_id e \<in> cp_allow_accounts (tc_policy cfg) \<or> en_account_id e \<in> ad_paired_accounts s"
      using enforce_pairing_gate 1(1) None by blast+
    show ?thesis using 1(3) None g assms(2,3) by (intro ingest_paired_effect) simp_all
  next
    case (Some c)
    have quiet: "keeps (\<lambda>s. effect_view s = v) (require_pairing env cfg e c)" for v
      unfolding require_pairing_def by (intro keeps_rules)
    have "effect_view s' = effect_view s1" using keeps_eqD [OF quiet] 1(3) Some by simp
    then show ?thesis using 1(2) assms(2) by simp
  qed
qed

lemma ingest_effect:
  assumes "ingest env cfg routing reg envelope s = (r, s')" "effect_view s' \<noteq> effect_view s"
  obtains e where "normalize_envelope cfg envelope = Inr e" "may_enter cfg s e"
    "reaches_dispatch env cfg routing reg e s (r, s')"
proof -
  define s0 where "s0 = s\<lparr>ad_metrics := (ad_metrics s)\<lparr>m_ingest_total := inc64 (m_ingest_total (ad_metrics s))\<rparr>\<rparr>"
  have s0: "effect_view s0 = effect_view s" "ad_seen_delivery_ids s0 = ad_seen_delivery_ids s"
    "\<And>e. may_enter cfg s0 e = may_enter cfg s e" "\<And>x s1. within_limits env cfg x s0 s1 = within_limits env cfg x s s1"
    by (simp_all add: s0_def may_enter_def within_limits_def cong: if_cong)
  obtain e where e: "normalize_envelope cfg envelope = Inr e" using assms
    by (cases "normalize_envelope cfg envelope") (auto simp: ingest_def bindE_def seqE_def metricsE_def)
  have fresh: "en_delivery_id e \<notin> ad_seen_delivery_ids s" using assms e
    by (auto simp: ingest_def bindE_def seqE_def metricsE_def is_duplicate_delivery_def)
  then have "ingest_fresh env cfg routing reg e s0 = (r, s')" using assms(1) e
    by (simp add: ingest_def bindE_def seqE_def metricsE_def is_duplicate_delivery_def s0_def)
  then have "may_enter cfg s e \<and> reaches_dispatch env cfg routing reg e s (r, s')"
    using ingest_fresh_effect [of env cfg routing reg e s0] assms(2) fresh s0 by (simp add: reaches_dispatch_def)
  then show ?thesis using e that by blast
qed


subsection \<open>Projections of a kept view\<close>

lemma keepsI: "(\<And>s r s'. m s = (r, s') \<Longrightarrow> I s \<Longrightarrow> I s') \<Longrightarrow> keeps I m"
  unfolding keeps_def by (metis surjective_pairing)

lemmas keeps_core = keeps_pred [where f = core_state]
lemmas keeps_effect = keeps_pred [where f = effect_view]

lemma idle_core_rules [keeps_rules]:
  "keeps (\<lambda>s. idle_view s = v) (worldE op)" "keeps (\<lambda>s. idle_view s = v) (observeE ev)"
  "keeps (\<lambda>s. idle_view s = v) (metricsE g)" "keeps (\<lambda>s. idle_view s = v) (clockE env)"
  "keeps (\<lambda>s. idle_view s = v) (persist_state env)" "keeps (\<lambda>s. idle_view s = v) (send_ignoring env cfg acc body)"
  "keeps (\<lambda>s. idle_view s = v) (run_command env params)"
  by (rule keeps_core, rule keeps_rules, drule idle_of_core, simp)+

lemma idle_enqueue [keeps_rules]: "keeps (\<lambda>s. idle_view s = v) (enqueue env cfg entry)"
proof -
  have "keeps (\<lambda>s. idle_view s = v) (process_inbox env cfg target None)" for target v
    by (rule keepsI) (auto simp: drained_def dest: process_inbox_drained)
  then show ?thesis unfolding enqueue_def
    by (intro keeps_rules keeps_modifyE) simp_all
qed

definition seen_view :: "'w channel_state \<Rightarrow> string list \<times> string set" where
  "seen_view s = (ad_seen_delivery_order s, ad_seen_delivery_ids s)"

lemma seen_of_idle: "idle_view s' = idle_view s \<Longrightarrow> seen_view s' = seen_view s"
  by (simp add: idle_view_def seen_view_def)

lemma seen_of_effect: "effect_view s' = effect_view s \<Longrightarrow> seen_view s' = seen_view s"
  by (simp add: effect_view_def seen_view_def)

abbreviation seen_limit :: "text_channel_config \<Rightarrow> nat" where
  "seen_limit cfg \<equiv> cp_max_seen_delivery_ids (tc_policy cfg)"

lemma track_delivery_id_run:
  "\<exists>s'. track_delivery_id env cfg d s = (Inr (), s') \<and> seen_view s' = track_seen (seen_limit cfg) d (seen_view s) \<and>
     ad_inbox s' = ad_inbox s \<and> ad_trace s' = ad_trace s \<and> ad_paired_accounts s' = ad_paired_accounts s \<and>
     ad_pending_pair_codes s' = ad_pending_pair_codes s"
  by (simp add: track_delivery_id_def clockE_def worldE_def bindE_def seen_view_def split: prod.splits)

text \<open>\<open>dispatch\<close> records the delivery first, whatever comes after.\<close>

lemma dispatch_tracks:
  "\<exists>m. dispatch env cfg routing reg e tier decision = seqE (track_delivery_id env cfg (en_delivery_id e)) m \<and>
     (\<forall>v. keeps (\<lambda>s. idle_view s = v) m)"
proof (cases "channel_command cfg reg (en_text e)")
  case None
  show ?thesis unfolding dispatch_def None option.case ingest_message_def Let_def
    by (intro exI conjI, rule refl, intro allI keeps_rules)
next
  case (Some c)
  obtain meta cmd args where c: "c = (meta, cmd, args)" by (cases c)
  show ?thesis
  proof (cases "case cm_min_tier meta of None \<Rightarrow> False | Some min_tier \<Rightarrow> tier < min_tier")
    case True
    show ?thesis unfolding dispatch_def Some c option.case prod.case ingest_command_def if_P [OF True]
      by (intro exI conjI, rule refl, intro allI keeps_rules)
  next
    case False
    show ?thesis unfolding dispatch_def Some c option.case prod.case ingest_command_def if_not_P [OF False] Let_def
      by (intro exI conjI, rule refl, intro allI keeps_rules)
  qed
qed

lemma dispatch_seen:
  assumes "dispatch env cfg routing reg e tier decision s = (r, s')"
  shows "seen_view s' = track_seen (seen_limit cfg) (en_delivery_id e) (seen_view s)"
proof -
  obtain m where m: "\<And>v. keeps (\<lambda>s. idle_view s = v) m"
    and d: "dispatch env cfg routing reg e tier decision = seqE (track_delivery_id env cfg (en_delivery_id e)) m"
    using dispatch_tracks by blast
  obtain s1 where t: "track_delivery_id env cfg (en_delivery_id e) s = (Inr (), s1)"
    "seen_view s1 = track_seen (seen_limit cfg) (en_delivery_id e) (seen_view s)"
    using track_delivery_id_run by blast
  then have "m s1 = (r, s')" using assms by (simp add: d seqE_def)
  then show ?thesis using keeps_eqD [OF m] seen_of_idle t(2) by metis
qed

lemma dispatch_limits:
  assumes "dispatch env cfg routing reg e tier decision s = (r, s')"
  shows "limit_view s' = limit_view s"
proof -
  obtain m where m: "\<And>v. keeps (\<lambda>s. idle_view s = v) m"
    and d: "dispatch env cfg routing reg e tier decision = seqE (track_delivery_id env cfg (en_delivery_id e)) m"
    using dispatch_tracks by blast
  obtain s1 where t: "track_delivery_id env cfg (en_delivery_id e) s = (Inr (), s1)" "limit_view s1 = limit_view s"
    using track_delivery_id_run [of env cfg "en_delivery_id e" s]
    by (cases "cv_now env (ad_world s)")
      (auto simp: track_delivery_id_def clockE_def worldE_def bindE_def limit_view_def modifyE_def split: prod.splits)
  then have "m s1 = (r, s')" using assms by (simp add: d seqE_def)
  then have "idle_view s' = idle_view s1" by (rule keeps_eqD [OF m])
  then show ?thesis using t(2) by (simp add: idle_view_def limit_view_def)
qed

text \<open>
  \<^bold>\<open>C13.\<close> Only admitted messages have an effect: when a call of the handler executes a run or a command,
  changes the inbox or records a delivery, then the envelope carried the configured ingress token,
  its text is not empty and within the limit, its delivery id is new, its account is paired where
  pairing is on, and its sender is neither blocked nor outside the allow lists that apply to its trust
  tier. At the time the handler reads first, fewer messages of the sender from the last minute were on
  record than its tier's quota, and the message is recorded with that time, in place of the older ones; a sender on
  probation was not in a cooldown at the time read next, and a new one was started.
\<close>

theorem ingest_effect_admitted:
  assumes "ingest env cfg routing reg envelope s = (r, s')"
    "executions (ad_trace s') \<noteq> executions (ad_trace s) \<or> ad_inbox s' \<noteq> ad_inbox s \<or>
     ad_seen_delivery_order s' \<noteq> ad_seen_delivery_order s"
  shows "\<exists>e. normalize_envelope cfg envelope = Inr e \<and> may_enter cfg s e \<and>
    within_limits env cfg (en_sender_id e) s s' \<and>
    (cp_ingress_token (tc_policy cfg) = None \<or> en_auth_token envelope = cp_ingress_token (tc_policy cfg)) \<and>
    en_text e \<noteq> [] \<and> utf8_len (en_text e) \<le> cp_max_text_bytes (tc_policy cfg)"
proof -
  have "effect_view s' \<noteq> effect_view s" using assms(2) by (auto simp: effect_view_def)
  then obtain e where e: "normalize_envelope cfg envelope = Inr e" "may_enter cfg s e"
    "reaches_dispatch env cfg routing reg e s (r, s')" by (auto elim!: ingest_effect [OF assms(1)])
  then obtain e' tier decision s1 where "within_limits env cfg (en_sender_id e) s s1"
    "dispatch env cfg routing reg e' tier decision s1 = (r, s')" by (auto simp: reaches_dispatch_def)
  then have "within_limits env cfg (en_sender_id e) s s'" using within_limits_cong dispatch_limits by blast
  then show ?thesis using normalized_envelope e by blast
qed

lemma ingest_seen:
  assumes "ingest env cfg routing reg envelope s = (r, s')"
  shows "seen_view s' = seen_view s \<or> (\<exists>e. normalize_envelope cfg envelope = Inr e \<and>
    en_delivery_id e \<notin> ad_seen_delivery_ids s \<and>
    seen_view s' = track_seen (seen_limit cfg) (en_delivery_id e) (seen_view s))"
proof (cases "effect_view s' = effect_view s")
  case True
  then show ?thesis using seen_of_effect by blast
next
  case False
  from ingest_effect [OF assms False] obtain e where e: "normalize_envelope cfg envelope = Inr e" "may_enter cfg s e"
    "reaches_dispatch env cfg routing reg e s (r, s')" by blast
  then obtain e' tier decision s1 where d: "en_delivery_id e' = en_delivery_id e" "effect_view s1 = effect_view s"
      "dispatch env cfg routing reg e' tier decision s1 = (r, s')"
    by (auto simp: reaches_dispatch_def)
  have "seen_view s' = track_seen (seen_limit cfg) (en_delivery_id e) (seen_view s)"
    using dispatch_seen [OF d(3)] seen_of_effect [OF d(2)] d(1) by simp
  moreover have "en_delivery_id e \<notin> ad_seen_delivery_ids s" using e(2) by (simp add: may_enter_def Let_def)
  ultimately show ?thesis using e(1) by blast
qed

definition ingest_all :: "'w channel_env \<Rightarrow> text_channel_config \<Rightarrow> route_rule list \<Rightarrow> command_registry \<Rightarrow>
    channel_envelope list \<Rightarrow> 'w channel_state \<Rightarrow> 'w channel_state" where
  "ingest_all env cfg routing reg envelopes s = fold (\<lambda>e s. snd (ingest env cfg routing reg e s)) envelopes s"

lemma ingest_all_seen:
  "\<exists>ds. length ds \<le> length es \<and>
     seen_view (ingest_all env cfg routing reg es s) = fold (track_seen (seen_limit cfg)) ds (seen_view s)"
proof (induction es arbitrary: s)
  case Nil
  then show ?case by (auto simp: ingest_all_def)
next
  case (Cons e es)
  obtain r s1 where i: "ingest env cfg routing reg e s = (r, s1)" by fastforce
  obtain ds where ds: "length ds \<le> length es"
    "seen_view (ingest_all env cfg routing reg es s1) = fold (track_seen (seen_limit cfg)) ds (seen_view s1)"
    using Cons by blast
  have step: "ingest_all env cfg routing reg (e # es) s = ingest_all env cfg routing reg es s1"
    by (simp add: ingest_all_def i)
  from ingest_seen [OF i] show ?case
  proof (elim disjE exE conjE)
    assume "seen_view s1 = seen_view s"
    then show ?thesis using ds step by (intro exI [of _ ds]) simp
  next
    fix e' assume "seen_view s1 = track_seen (seen_limit cfg) (en_delivery_id e') (seen_view s)"
    then show ?thesis using ds step by (intro exI [of _ "en_delivery_id e' # ds"]) simp
  qed
qed

text \<open>
  A message is handled once: after a delivery was recorded, a message with the same delivery id is
  answered as a duplicate and has no effect on the runs, the commands, the inbox or the recorded
  deliveries, as long as fewer other messages than the memory has entries arrived in between,
  whatever they were and whatever became of them.
\<close>

theorem redelivery_deduped:
  assumes "seen_ok (seen_limit cfg) (seen_view s)"
    "ingest env cfg routing reg first s = (r, s1)" "seen_view s1 \<noteq> seen_view s"
    "length others < seen_limit cfg"
    "s2 = ingest_all env cfg routing reg others s1"
    "normalize_envelope cfg again = Inr e" "trim (en_delivery_id again) = trim (en_delivery_id first)"
  shows "\<exists>s3. ingest env cfg routing reg again s2 = (Inr (Deduped (trim (en_delivery_id first))), s3) \<and>
    effect_view s3 = effect_view s2"
proof -
  let ?n = "seen_limit cfg" and ?d = "trim (en_delivery_id first)"
  have d: "en_delivery_id e = ?d" using normalized_envelope [OF assms(6)] assms(7) by simp
  have t: "seen_view s1 = track_seen ?n ?d (seen_view s)" "?d \<notin> snd (seen_view s)"
    using ingest_seen [OF assms(2)] assms(3) normalized_envelope by (auto simp: seen_view_def)
  obtain ds where ds: "length ds \<le> length others" "seen_view s2 = fold (track_seen ?n) ds (seen_view s1)"
    using ingest_all_seen assms(5) by blast
  have "?d \<in> snd (seen_view s2)" using seen.window [OF assms(1) t(2)] ds assms(4) t(1) by simp
  then have "is_duplicate_delivery (en_delivery_id e) s2" by (simp add: is_duplicate_delivery_def seen_view_def d)
  then show ?thesis using assms(6) d
    by (simp add: ingest_def bindE_def seqE_def metricsE_def is_duplicate_delivery_def)
qed


subsection \<open>A message through a channel\<close>

definition demo_envelope :: "string \<Rightarrow> channel_envelope" where
  "demo_envelope d = \<lparr>en_delivery_id = d, en_sender_id = ''bob'', en_account_id = ''C1'', en_text = ''hi'',
     en_timeout_ms = None, en_auth_token = None, en_session_id = None, en_workspace_dir = None\<rparr>"

lemma demo_normalize: "normalize_envelope demo_channel (demo_envelope ''d1'') = Inr (demo_envelope ''d1'')"
  by (simp add: normalize_envelope_def normalize_identifier_def verify_ingress_auth_def Let_def demo_channel_def
      demo_policy_def demo_envelope_def str_eval MAX_CHANNEL_IDENTIFIER_BYTES_def utf8_len_def)

lemma demo_command: "channel_command demo_channel registry_default (en_text (demo_envelope d)) = None"
  by (simp add: channel_command_def demo_envelope_def parse_slash_input_def strip_prefix_def starts_with_def)

lemmas demo_run = bindE_def seqE_def attemptE_def clockE_def worldE_def metricsE_def observeE_def persist_state_def
  demo_metrics_env_def

lemma demo_enforce_policy:
  "enforce_policy demo_metrics_env demo_channel (demo_envelope d) s =
     (if 2 \<le> length (prune_window (ad_world s) (opt_or (ad_rate_windows s ''bob'') []))
      then enforce_policy demo_metrics_env demo_channel (demo_envelope d) s
      else (Inr Standard, s\<lparr>ad_world := ad_world s + 1000, ad_rate_windows := (ad_rate_windows s)(''bob'' \<mapsto>
        prune_window (ad_world s) (opt_or (ad_rate_windows s ''bob'') []) @ [ad_world s])\<rparr>))"
  by (auto simp: enforce_policy_def enforce_rate_limit_def demo_run Let_def demo_channel_def demo_policy_def
      demo_envelope_def tier_from_policy_def)

lemma demo_ingest:
  "\<exists>s1. ingest demo_metrics_env demo_channel [] registry_default (demo_envelope ''d1'') (fresh_adapter 0) =
     dispatch demo_metrics_env demo_channel [] registry_default (demo_envelope ''d1'') Standard None s1 \<and>
     seen_view s1 = ([], {}) \<and> ad_inbox s1 = [] \<and> ad_trace s1 = []"
proof -
  have pol: "enforce_policy demo_metrics_env demo_channel (demo_envelope ''d1'') s =
      (Inr Standard, s\<lparr>ad_world := ad_world s + 1000, ad_rate_windows := (ad_rate_windows s)(''bob'' \<mapsto> [ad_world s])\<rparr>)"
    if "ad_rate_windows s = Map.empty" for s
    using that demo_enforce_policy [of "''d1''" s] by (simp add: opt_or_def prune_window_def)
  have plug: "apply_policy_plugin demo_metrics_env demo_channel e tier = okE (tier, e, None)" for e tier
    by (simp add: apply_policy_plugin_def demo_channel_def)
  have pair: "enforce_pairing_policy demo_metrics_env demo_channel acc = okE None" for acc
    by (simp add: enforce_pairing_policy_def demo_channel_def)
  show ?thesis
    by (rule exI, rule conjI, simp add: ingest_def demo_normalize is_duplicate_delivery_def bindE_def seqE_def metricsE_def
        fresh_adapter_def ingest_fresh_def ingest_paired_def pair pol plug, simp add: seen_view_def)
qed

lemma demo_ingest_seen:
  "\<exists>r s1. ingest demo_metrics_env demo_channel [] registry_default (demo_envelope ''d1'') (fresh_adapter 0) = (r, s1) \<and>
     seen_view s1 = ([''d1''], {''d1''})"
proof -
  obtain r s1 where i: "ingest demo_metrics_env demo_channel [] registry_default (demo_envelope ''d1'') (fresh_adapter 0) = (r, s1)"
    by fastforce
  obtain s0 where d: "dispatch demo_metrics_env demo_channel [] registry_default (demo_envelope ''d1'') Standard None s0 = (r, s1)"
    "seen_view s0 = ([], {})" using demo_ingest i by auto
  have "seen_view s1 = track_seen 128 ''d1'' ([], {})"
    using dispatch_seen [OF d(1)] d(2) by (simp add: demo_channel_def demo_policy_def demo_envelope_def)
  then show ?thesis using i by (simp add: track_seen_def)
qed

theorem ingest_effect_admitted_witness:
  "\<exists>r s' e. ingest demo_metrics_env demo_channel [] registry_default (demo_envelope ''d1'') (fresh_adapter 0) = (r, s') \<and>
     ad_seen_delivery_order s' = [''d1''] \<and>
     normalize_envelope demo_channel (demo_envelope ''d1'') = Inr e \<and> may_enter demo_channel (fresh_adapter (0 :: nat)) e \<and>
     within_limits demo_metrics_env demo_channel (en_sender_id e) (fresh_adapter (0 :: nat)) s'"
proof -
  obtain r s1 where i: "ingest demo_metrics_env demo_channel [] registry_default (demo_envelope ''d1'') (fresh_adapter 0) = (r, s1)"
    "seen_view s1 = ([''d1''], {''d1''})" using demo_ingest_seen by blast
  then have o: "ad_seen_delivery_order s1 = [''d1'']" by (simp add: seen_view_def)
  then have "ad_seen_delivery_order s1 \<noteq> ad_seen_delivery_order (fresh_adapter (0 :: nat))" by (simp add: fresh_adapter_def)
  then show ?thesis using ingest_effect_admitted [OF i(1)] i(1) o by blast
qed

theorem redelivery_deduped_witness:
  "\<exists>r s1 s3. ingest demo_metrics_env demo_channel [] registry_default (demo_envelope ''d1'') (fresh_adapter 0) = (r, s1) \<and>
     ingest demo_metrics_env demo_channel [] registry_default (demo_envelope ''d1'')
       (ingest_all demo_metrics_env demo_channel [] registry_default [demo_envelope ''d2''] s1) = (Inr (Deduped ''d1''), s3)"
proof -
  obtain r s1 where i: "ingest demo_metrics_env demo_channel [] registry_default (demo_envelope ''d1'') (fresh_adapter 0) = (r, s1)"
    "seen_view s1 = ([''d1''], {''d1''})" using demo_ingest_seen by blast
  have ok: "seen_ok (seen_limit demo_channel) (seen_view (fresh_adapter (0 :: nat)))"
    and ch: "seen_view s1 \<noteq> seen_view (fresh_adapter (0 :: nat))"
    using i(2) by (simp_all add: seen_ok_def seen_view_def fresh_adapter_def)
  have len: "length [demo_envelope ''d2''] < seen_limit demo_channel" by (simp add: demo_channel_def demo_policy_def)
  have tr: "trim (en_delivery_id (demo_envelope ''d1'')) = ''d1''" by (simp add: demo_envelope_def str_eval)
  show ?thesis using redelivery_deduped [OF ok i(1) ch len refl demo_normalize refl] i(1) tr by auto
qed


subsection \<open>A full inbox\<close>

definition submissions :: "channel_obs list \<Rightarrow> channel_obs list" where
  "submissions tr = filter (\<lambda>ev. case ev of ObsSubmit _ \<Rightarrow> True | _ \<Rightarrow> False) tr"

lemma submissions_executions: "submissions (executions tr) = submissions tr"
  by (induction tr) (auto simp: submissions_def executions_def split: channel_obs.splits)

definition stuck :: "queued_envelope list \<Rightarrow> channel_obs list \<Rightarrow> 'w channel_state \<Rightarrow> bool" where
  "stuck q t s \<longleftrightarrow> ad_inbox s = q \<and> submissions (ad_trace s) = t"

lemma stuck_effect: "effect_view s' = effect_view s \<Longrightarrow> stuck q t s \<Longrightarrow> stuck q t s'"
  unfolding stuck_def effect_view_def by (metis prod.inject submissions_executions)

lemma stuck_rules [keeps_rules]:
  "keeps (stuck q t) (worldE op)" "keeps (stuck q t) (metricsE g)" "keeps (stuck q t) (persist_state env)"
  "keeps (stuck q t) (send_ignoring env cfg acc body)"
  by (rule keeps_effect [OF quiet_basic(1)], erule (1) stuck_effect)
    (rule keeps_effect [OF quiet_basic(3)], erule (1) stuck_effect,
     rule keeps_effect [OF quiet_basic(5)], erule (1) stuck_effect,
     rule keeps_effect [OF quiet_send(2)], erule (1) stuck_effect)

lemma stuck_track [keeps_rules]: "keeps (stuck q t) (track_delivery_id env cfg d)"
proof (rule keepsI)
  fix s r s' assume "track_delivery_id env cfg d s = (r, s')" "stuck q t s"
  then show "stuck q t s'" using track_delivery_id_run [of env cfg d s] by (auto simp: stuck_def)
qed

lemma stuck_command [keeps_rules]: "keeps (stuck q t) (run_command env params)"
proof -
  have "keeps (stuck q t) (observeE (ObsCommand params))"
    by (simp add: keeps_def observeE_def stuck_def submissions_def)
  then show ?thesis unfolding run_command_def by (intro keeps_rules)
qed

lemma stuck_enqueue:
  assumes "cp_max_queue_depth (tc_policy cfg) \<le> length q"
  shows "keeps (stuck q t) (enqueue env cfg entry)"
proof (rule keepsI)
  fix s r s' assume e: "enqueue env cfg entry s = (r, s')" and st: "stuck q t s"
  let ?m = "seqE (metricsE (\<lambda>m. m\<lparr>m_queue_rejected_total := inc64 (m_queue_rejected_total m),
         m_last_error := Some ''channel queue is full''\<rparr>))
       (seqE (persist_state env)
       (errE (Backend (kind_as_str (tc_kind cfg) @ '' channel queue is full'')))) :: ('a, channel_reply) channel_op"
  have "?m s = (r, s')" using e st assms by (simp add: enqueue_def bindE_def queue_full_def stuck_def)
  moreover have "keeps (stuck q t) ?m" by (intro keeps_rules)
  ultimately show "stuck q t s'" using st by (rule keepsD [rotated 2])
qed

lemma stuck_ingest:
  assumes "cp_max_queue_depth (tc_policy cfg) \<le> length q"
  shows "keeps (stuck q t) (ingest env cfg routing reg envelope)"
proof (rule keepsI)
  fix s r s' assume i: "ingest env cfg routing reg envelope s = (r, s')" and st: "stuck q t s"
  show "stuck q t s'"
  proof (cases "effect_view s' = effect_view s")
    case True
    then show ?thesis using stuck_effect st by blast
  next
    case False
    obtain e0 where "reaches_dispatch env cfg routing reg e0 s (r, s')" by (rule ingest_effect [OF i False])
    then obtain e tier decision s1 where
      d: "dispatch env cfg routing reg e tier decision s1 = (r, s')" "effect_view s1 = effect_view s"
      unfolding reaches_dispatch_def by blast
    have "keeps (stuck q t) (dispatch env cfg routing reg e tier decision)"
      unfolding dispatch_def ingest_command_def ingest_message_def Let_def
      by (intro keeps_rules stuck_enqueue assms)
    then show ?thesis using stuck_effect [OF d(2) st] d(1) by (rule keepsD)
  qed
qed

text \<open>
  A full inbox is never drained: once it holds as many entries as the queue allows, for instance
  after a restart with the entries that were queued, no sequence of further messages takes an entry
  out of it or submits a run, since the inbox is drained only after a successful push.
\<close>

theorem full_inbox_never_drains:
  assumes "queue_full cfg s"
  shows "ad_inbox (ingest_all env cfg routing reg envelopes s) = ad_inbox s \<and>
    submissions (ad_trace (ingest_all env cfg routing reg envelopes s)) = submissions (ad_trace s)"
proof -
  have q: "cp_max_queue_depth (tc_policy cfg) \<le> length (ad_inbox s)" using assms by (simp add: queue_full_def)
  have "stuck (ad_inbox s) t s1 \<Longrightarrow> stuck (ad_inbox s) t (ingest_all env cfg routing reg es s1)" for es t s1
  proof (induction es arbitrary: s1)
    case (Cons e es)
    then show ?case using keeps_snd [OF stuck_ingest [OF q], of t s1 env routing reg e] by (simp add: ingest_all_def)
  qed (simp add: ingest_all_def)
  from this [of "submissions (ad_trace s)" s envelopes] show ?thesis by (simp add: stuck_def)
qed

text \<open>
  The adapter saves its state between the push and the execution of an entry. After a stop in
  between, a channel with a queue of depth one restarts with a full inbox.
\<close>

definition demo_queued :: queued_envelope where
  "demo_queued = \<lparr>qe_envelope = demo_envelope ''d1'',
     qe_route = decide [] (route_input_of demo_channel (demo_envelope ''d1'') Standard), qe_slash_command = None\<rparr>"

theorem full_inbox_never_drains_witness:
  "\<exists>s. new_adapter demo_metrics_env demo_channel (Inr ())
       (Inr (Some (snapshot_state ((fresh_adapter (0 :: nat))\<lparr>ad_inbox := [demo_queued]\<rparr>)))) 0 = Inr (Some s) \<and>
     queue_full demo_channel s \<and>
     ad_inbox (ingest_all demo_metrics_env demo_channel [] registry_default [demo_envelope ''d2'', demo_envelope ''d3''] s)
       = [demo_queued]"
proof -
  obtain s where s: "new_adapter demo_metrics_env demo_channel (Inr ())
       (Inr (Some (snapshot_state ((fresh_adapter (0 :: nat))\<lparr>ad_inbox := [demo_queued]\<rparr>)))) 0 = Inr (Some s)"
      "ad_inbox s = [demo_queued]"
    by (simp add: new_adapter_def load_persisted_state_def demo_run apply_persisted_state_def snapshot_state_def Let_def
        demo_channel_def demo_policy_def)
  then have f: "queue_full demo_channel s" by (simp add: queue_full_def demo_channel_def demo_policy_def)
  show ?thesis using s f full_inbox_never_drains [OF f] by simp
qed


subsection \<open>The invariant of an adapter\<close>

definition adapter_inv :: "text_channel_config \<Rightarrow> 'w channel_state \<Rightarrow> bool" where
  "adapter_inv cfg s \<longleftrightarrow> pairing_ok s \<and> seen_ok (seen_limit cfg) (seen_view s) \<and>
     length (ad_inbox s) \<le> cp_max_queue_depth (tc_policy cfg)"

lemma adapter_inv_core: "core_state s' = core_state s \<Longrightarrow> adapter_inv cfg s \<Longrightarrow> adapter_inv cfg s'"
  by (simp add: adapter_inv_def core_state_def seen_view_def pairing_ok_def)

lemma adapter_inv_idle:
  "idle_view s' = idle_view s \<Longrightarrow> length (ad_inbox s') \<le> length (ad_inbox s) \<Longrightarrow> adapter_inv cfg s \<Longrightarrow> adapter_inv cfg s'"
  by (simp add: adapter_inv_def idle_view_def seen_view_def pairing_ok_def)

lemma adapter_inv_quiet [keeps_rules]:
  "keeps (adapter_inv cfg) (worldE op)" "keeps (adapter_inv cfg) (metricsE g)" "keeps (adapter_inv cfg) (clockE env)"
  "keeps (adapter_inv cfg) (persist_state env)" "keeps (adapter_inv cfg) (send_message_with_retry env cfg' acc body)"
  "keeps (adapter_inv cfg) (send_ignoring env cfg' acc body)" "keeps (adapter_inv cfg) (run_command env params)"
  by (rule keeps_core [OF core_frame_basic(1) adapter_inv_core], assumption+)
    (rule keeps_core [OF core_frame_basic(3) adapter_inv_core], assumption+,
     rule keeps_core [OF core_frame_calls(1) adapter_inv_core], assumption+,
     rule keeps_core [OF core_frame_calls(2) adapter_inv_core], assumption+,
     rule keeps_core [OF core_frame_send(1) adapter_inv_core], assumption+,
     rule keeps_core [OF core_frame_send(2) adapter_inv_core], assumption+,
     rule keeps_core [OF core_frame_execute(1) adapter_inv_core], assumption+)

lemma adapter_inv_pairing [keeps_rules]: "keeps (adapter_inv cfg) (enforce_pairing_policy env cfg' acc)"
proof (cases "tc_pairing_enabled cfg'")
  case True
  show ?thesis
  proof (rule keepsI)
    fix s r s' assume e: "enforce_pairing_policy env cfg' acc s = (r, s')" and i: "adapter_inv cfg s"
    show "adapter_inv cfg s'"
    proof (cases "acc \<in> ad_paired_accounts s \<or> find (\<lambda>(_, pending). pending = acc) (ad_pending_pair_codes s) \<noteq> None
        \<or> acc \<in> cp_allow_accounts (tc_policy cfg')")
      case t: True
      then show ?thesis using e i True by (auto simp: enforce_pairing_policy_def bindE_def split: if_splits)
    next
      case False
      let ?put = "\<lambda>c s. s\<lparr>ad_pending_pair_codes := AList.update c acc (ad_pending_pair_codes s)\<rparr>"
      let ?del = "\<lambda>c s. s\<lparr>ad_pending_pair_codes := AList.delete c (ad_pending_pair_codes s)\<rparr>"
      obtain now w where n: "cv_now env (ad_world s) = (now, w)" by fastforce
      let ?c = "pairing_code now acc" and ?s1 = "s\<lparr>ad_world := w\<rparr>"
      have fresh: "acc \<notin> set (map snd (ad_pending_pair_codes s))" using False by (auto simp: find_None_iff)
      have put: "adapter_inv cfg (?put ?c ?s1)"
        using pairing_ok_insert [of ?s1 acc ?c] i False fresh by (simp add: adapter_inv_def pairing_ok_def seen_view_def)
      obtain pr s2 where p: "persist_state env (?put ?c ?s1) = (pr, s2)" by fastforce
      have s2: "adapter_inv cfg s2" using adapter_inv_core [OF persist_state_core [OF p] put] .
      have del: "adapter_inv cfg (?del ?c s2)"
        using s2 pairing_ok_delete [of s2 ?c] by (simp add: adapter_inv_def seen_view_def)
      have none: "find (\<lambda>(_, pending). pending = acc) (ad_pending_pair_codes s) = None"
        "acc \<notin> ad_paired_accounts s" "acc \<notin> cp_allow_accounts (tc_policy cfg')" using False by blast+
      have "s' = s2 \<or> s' = ?del ?c s2" using e none True n p
        by (cases pr) (auto simp: enforce_pairing_policy_def bindE_def clockE_def worldE_def seqE_def attemptE_def Let_def)
      then show ?thesis using s2 del by auto
    qed
  qed
next
  case False
  then show ?thesis unfolding enforce_pairing_policy_def by (simp add: keeps_okE)
qed

lemma adapter_inv_policy [keeps_rules]:
  "keeps (adapter_inv cfg) (enforce_policy env cfg' e)" "keeps (adapter_inv cfg) (apply_policy_plugin env cfg' e tier)"
proof -
  have rate: "keeps (adapter_inv cfg) (enforce_rate_limit env cfg' sender t)"
    and cool: "keeps (adapter_inv cfg) (enforce_cooldown env cfg' sender)"
    and deny: "keeps (adapter_inv cfg) (deny_policy err :: (_, 'z) channel_op)" for sender t err
    unfolding enforce_rate_limit_def enforce_cooldown_def deny_policy_def
    by (intro keeps_rules, simp add: keeps_def adapter_inv_def pairing_ok_def seen_view_def Let_def)+
      (intro keeps_rules)
  show "keeps (adapter_inv cfg) (enforce_policy env cfg' e)"
    unfolding enforce_policy_def Let_def by (intro keeps_rules rate cool) (simp_all add: deny_policy_def keeps_rules)
  show "keeps (adapter_inv cfg) (apply_policy_plugin env cfg' e tier)"
    unfolding apply_policy_plugin_def evaluate_policy_def Let_def deny_policy_def by (intro keeps_rules)
qed

lemma adapter_inv_track [keeps_rules]: "keeps (adapter_inv cfg) (track_delivery_id env cfg d)"
proof (rule keepsI)
  fix s r s' assume "track_delivery_id env cfg d s = (r, s')" "adapter_inv cfg s"
  then show "adapter_inv cfg s'" using track_delivery_id_run [of env cfg d s] track_seen_ok
    by (auto simp: adapter_inv_def pairing_ok_def)
qed

lemma adapter_inv_enqueue [keeps_rules]: "keeps (adapter_inv cfg) (enqueue env cfg entry)"
proof (rule keepsI)
  fix s r s' assume e: "enqueue env cfg entry s = (r, s')" and i: "adapter_inv cfg s"
  show "adapter_inv cfg s'"
  proof (cases "queue_full cfg s")
    case True
    let ?m = "seqE (metricsE (\<lambda>m. m\<lparr>m_queue_rejected_total := inc64 (m_queue_rejected_total m),
         m_last_error := Some ''channel queue is full''\<rparr>))
       (seqE (persist_state env)
       (errE (Backend (kind_as_str (tc_kind cfg) @ '' channel queue is full'')))) :: ('a, channel_reply) channel_op"
    have "keeps (adapter_inv cfg) ?m" by (intro keeps_rules)
    moreover have "?m s = (r, s')" using e True by (simp add: enqueue_def bindE_def)
    ultimately show ?thesis using i by (auto dest: keepsD)
  next
    case False
    let ?s1 = "s\<lparr>ad_metrics := (ad_metrics s)\<lparr>m_queued_total := inc64 (m_queued_total (ad_metrics s))\<rparr>,
      ad_inbox := ad_inbox s @ [entry]\<rparr>"
    have i1: "adapter_inv cfg ?s1" using i False by (simp add: adapter_inv_def pairing_ok_def seen_view_def queue_full_def)
    obtain pr s2 where p: "persist_state env ?s1 = (pr, s2)" by fastforce
    have i2: "adapter_inv cfg s2" using adapter_inv_core [OF persist_state_core [OF p] i1] .
    have "s' = s2 \<or> process_inbox env cfg (en_delivery_id (qe_envelope entry)) None s2 = (r, s')"
      using e False p by (cases pr) (auto simp: enqueue_def bindE_def seqE_def metricsE_def)
    then show ?thesis
    proof
      assume "process_inbox env cfg (en_delivery_id (qe_envelope entry)) None s2 = (r, s')"
      then have "drained cfg r s2 s'" by (rule process_inbox_drained)
      then have "idle_view s' = idle_view s2 \<and> length (ad_inbox s') \<le> length (ad_inbox s2)"
        by (auto simp: drained_def)
      then show ?thesis using adapter_inv_idle [OF _ _ i2] by blast
    qed (use i2 in simp)
  qed
qed

lemma adapter_inv_ingest: "keeps (adapter_inv cfg) (ingest env cfg routing reg envelope)"
  unfolding ingest_def ingest_fresh_def ingest_paired_def require_pairing_def dispatch_def ingest_command_def
    ingest_message_def Let_def by (intro keeps_rules)


lemma adapter_inv_approve:
  assumes "adapter_inv cfg s" "approve_pairing env cfg' c s = (r, s')"
  shows "adapter_inv cfg s'"
proof (cases "tc_pairing_enabled cfg' \<and> trim c \<noteq> [] \<and> map_of (ad_pending_pair_codes s) (trim c) \<noteq> None")
  case False
  then have "s' = s" using assms(2) by (auto simp: approve_pairing_def Let_def split: if_splits option.splits)
  then show ?thesis using assms(1) by simp
next
  case True
  then obtain account where a: "map_of (ad_pending_pair_codes s) (trim c) = Some account" by auto
  let ?s1 = "s\<lparr>ad_pending_pair_codes := AList.delete (trim c) (ad_pending_pair_codes s),
      ad_paired_accounts := insert account (ad_paired_accounts s),
      ad_metrics := (ad_metrics s)\<lparr>m_pairing_approved_total := inc64 (m_pairing_approved_total (ad_metrics s))\<rparr>\<rparr>"
  have i1: "adapter_inv cfg ?s1" using pairing_ok_approve [OF _ a] assms(1)
    by (simp add: adapter_inv_def pairing_ok_def seen_view_def)
  obtain pr s2 where p: "persist_state env ?s1 = (pr, s2)" by fastforce
  have c2: "core_state s2 = core_state ?s1" using persist_state_core [OF p] .
  have i2: "adapter_inv cfg s2" using adapter_inv_core [OF c2 i1] .
  let ?s3 = "s2\<lparr>ad_paired_accounts := ad_paired_accounts s2 - {account},
      ad_pending_pair_codes := AList.update (trim c) account (ad_pending_pair_codes s2),
      ad_metrics := (ad_metrics s2)\<lparr>m_pairing_approved_total := m_pairing_approved_total (ad_metrics s2) - 1\<rparr>\<rparr>"
  have gone: "account \<notin> set (map snd (ad_pending_pair_codes s2))"
    using delete_snd_gone [OF _ a] assms(1) c2 by (simp add: adapter_inv_def pairing_ok_def core_state_def)
  have "pairing_ok (s2\<lparr>ad_paired_accounts := ad_paired_accounts s2 - {account}\<rparr>)"
    using i2 by (auto simp: adapter_inv_def pairing_ok_def)
  then have "adapter_inv cfg ?s3" using i2 gone
      pairing_ok_insert [of "s2\<lparr>ad_paired_accounts := ad_paired_accounts s2 - {account}\<rparr>" account "trim c"]
    by (simp add: adapter_inv_def pairing_ok_def seen_view_def)
  moreover have "s' = s2 \<or> s' = ?s3" using assms(2) True a p by (cases pr) (auto simp: approve_pairing_def Let_def)
  ultimately show ?thesis using i2 by auto
qed

text \<open>
  The life of an adapter: it starts with an empty or a saved state, and every call of the gateway on it
  is a step, whatever the world answers.
\<close>

inductive adapter_step :: "'w channel_env \<Rightarrow> text_channel_config \<Rightarrow> 'w channel_state \<Rightarrow> 'w channel_state \<Rightarrow> bool"
  for env :: "'w channel_env" and cfg :: text_channel_config where
  step_ingest: "ingest env cfg routing reg envelope s = (r, s') \<Longrightarrow> adapter_step env cfg s s'"
| step_approve: "approve_pairing env cfg c s = (r, s') \<Longrightarrow> adapter_step env cfg s s'"
| step_verified: "record_webhook_verified env status retry s = (r, s') \<Longrightarrow> adapter_step env cfg s s'"
| step_denied: "record_webhook_denied env status retry reason s = (r, s') \<Longrightarrow> adapter_step env cfg s s'"
| step_deliver: "deliver_outbound_message env cfg account body s = (r, s') \<Longrightarrow> adapter_step env cfg s s'"
| step_world: "s' = s\<lparr>ad_world := w\<rparr> \<Longrightarrow> adapter_step env cfg s s'"

definition adapter_start :: "'w channel_env \<Rightarrow> text_channel_config \<Rightarrow> 'w channel_state \<Rightarrow> bool" where
  "adapter_start env cfg s \<longleftrightarrow> (\<exists>opened loaded w. new_adapter env cfg opened loaded w = Inr (Some s) \<and>
     (loaded = Inr None \<or> (\<exists>cfg0 (s0 :: 'w channel_state). loaded = Inr (Some (snapshot_state s0)) \<and> adapter_inv cfg0 s0)))"

lemma adapter_inv_load:
  "adapter_inv cfg0 s0 \<Longrightarrow> adapter_inv cfg (apply_persisted_state cfg now (snapshot_state s0) s)"
  by (auto simp: adapter_inv_def apply_persisted_state_def snapshot_state_def Let_def pairing_ok_def seen_view_def
      seen_ok_def)

lemma bindE_liftE: "bindE (liftE (Inr x)) k = k x"
  by (simp add: bindE_def fun_eq_iff)

lemma adapter_inv_fresh: "adapter_inv cfg (fresh_adapter w)"
  by (simp add: adapter_inv_def fresh_adapter_def pairing_ok_def seen_view_def seen_ok_def)

interpretation adapter: invariant_system "adapter_start env cfg" "adapter_step env cfg" "adapter_inv cfg"
  for env :: "'w channel_env" and cfg
proof (unfold_locales, goal_cases)
  case (1 s)
  then obtain opened loaded w where n: "new_adapter env cfg opened loaded w = Inr (Some s)"
    and l: "loaded = Inr None \<or> (\<exists>cfg0 (s0 :: 'w channel_state). loaded = Inr (Some (snapshot_state s0)) \<and> adapter_inv cfg0 s0)"
    unfolding adapter_start_def by blast
  have load: "keeps (adapter_inv cfg) (load_persisted_state env cfg loaded)"
    using l
  proof (elim disjE exE conjE)
    assume "loaded = Inr None"
    then show ?thesis by (auto simp: load_persisted_state_def bindE_liftE keeps_def)
  next
    fix cfg0 and s0 :: "'w channel_state"
    assume "loaded = Inr (Some (snapshot_state s0))" "adapter_inv cfg0 s0"
    then show ?thesis using adapter_inv_load
      by (auto simp: load_persisted_state_def bindE_liftE intro!: keeps_rules keeps_modifyE)
  qed
  have "keeps (adapter_inv cfg) (seqE (if cv_persistent env then liftE opened else okE ()) (load_persisted_state env cfg loaded))"
    by (intro keeps_rules load)
  then have "adapter_inv cfg (snd (seqE (if cv_persistent env then liftE opened else okE ())
      (load_persisted_state env cfg loaded) (fresh_adapter w)))" by (rule keeps_snd) (rule adapter_inv_fresh)
  then show ?case using n by (auto simp: new_adapter_def split: if_splits prod.splits sum.splits)
next
  case (2 s t)
  from 2(2) show ?case
  proof cases
    case (step_ingest routing reg envelope r)
    then show ?thesis using keepsD [OF adapter_inv_ingest 2(1)] by blast
  next
    case (step_approve c r)
    then show ?thesis using adapter_inv_approve [OF 2(1)] by blast
  next
    case (step_verified status retry r)
    have "keeps (adapter_inv cfg) (record_webhook_verified env status retry)"
      unfolding record_webhook_verified_def by (intro keeps_rules)
    then show ?thesis using 2(1) step_verified by (rule keepsD)
  next
    case (step_denied status retry reason r)
    have "keeps (adapter_inv cfg) (record_webhook_denied env status retry reason)"
      unfolding record_webhook_denied_def by (intro keeps_rules)
    then show ?thesis using 2(1) step_denied by (rule keepsD)
  next
    case (step_deliver account body r)
    have "keeps (adapter_inv cfg) (deliver_outbound_message env cfg account body)"
      unfolding deliver_outbound_message_def by (intro keeps_rules)
    then show ?thesis using 2(1) step_deliver by (rule keepsD)
  next
    case (step_world w)
    then show ?thesis using adapter_inv_core [of t s] 2(1) by simp
  qed
qed

text \<open>
  \<^bold>\<open>C14.\<close> In every state an adapter can reach, from an empty or a saved state and through any calls of the
  gateway with any answers of the world, the index of seen deliveries and their queue hold the same ids,
  each once and at most as many as configured; the inbox is within its limit; and the pairing data is
  consistent: one code per pending account, one account per code, and no account both pending and paired.
\<close>

theorem adapter_reachable_ok:
  assumes "reach (adapter_start env cfg) (adapter_step env cfg) s"
  shows "ad_seen_delivery_ids s = set (ad_seen_delivery_order s) \<and> distinct (ad_seen_delivery_order s) \<and>
    length (ad_seen_delivery_order s) \<le> cp_max_seen_delivery_ids (tc_policy cfg) \<and>
    length (ad_inbox s) \<le> cp_max_queue_depth (tc_policy cfg) \<and>
    distinct (map fst (ad_pending_pair_codes s)) \<and> distinct (map snd (ad_pending_pair_codes s)) \<and>
    ad_paired_accounts s \<inter> set (map snd (ad_pending_pair_codes s)) = {}"
  using adapter.inv_reach [OF assms] by (simp add: adapter_inv_def seen_ok_def seen_view_def pairing_ok_def)

theorem adapter_reachable_ok_witness:
  "\<exists>s. reach (adapter_start demo_metrics_env demo_channel) (adapter_step demo_metrics_env demo_channel) s \<and>
     ad_seen_delivery_order s = [''d1''] \<and> ad_seen_delivery_ids s = {''d1''}"
proof -
  obtain r s where i: "ingest demo_metrics_env demo_channel [] registry_default (demo_envelope ''d1'') (fresh_adapter 0) = (r, s)"
    "seen_view s = ([''d1''], {''d1''})" using demo_ingest_seen by blast
  have "new_adapter demo_metrics_env demo_channel (Inr ()) (Inr None) 0 = Inr (Some (fresh_adapter 0))"
    by (simp add: new_adapter_def load_persisted_state_def seqE_def bindE_def demo_channel_def)
  then have start: "adapter_start demo_metrics_env demo_channel (fresh_adapter 0)" unfolding adapter_start_def by blast
  have h: "reach (adapter_start demo_metrics_env demo_channel) (adapter_step demo_metrics_env demo_channel) s"
    by (rule reach.reach_step) (rule reach.reach_init, rule start, rule step_ingest, rule i(1))
  show ?thesis using adapter_reachable_ok [OF h] h i(2) by (intro exI [of _ s]) (simp add: seen_view_def)
qed

end
