(* ===== verification/Gateway_Guards.thy ===== *)
theory Gateway_Guards
  imports Bounded_Memory
begin

section \<open>Guards of the gateway (kelvin-gateway/src/lib.rs)\<close>

text \<open>
  What stands between the network and the runtime: the check of the security profile at start-up, the
  token check, the tracker of failed logins with its backoff, and the cache that makes submissions
  idempotent. The clock is read by the caller and passed as \<open>now\<close>; \<open>is_file\<close> is the file system.
\<close>

subsection \<open>Security profile\<close>

datatype ip_addr =
    IpV4 nat nat nat nat
  | IpV6 nat

text \<open>\<open>IpAddr::is_loopback\<close>: 127.0.0.0/8 or ::1.\<close>

fun is_loopback :: "ip_addr \<Rightarrow> bool" where
  "is_loopback (IpV4 a b c d) = (a = 127)"
| "is_loopback (IpV6 n) = (n = 1)"

text \<open>\<open>so_text\<close> is what the \<open>Display\<close> instance of \<open>SocketAddr\<close> prints; only error texts use it.\<close>

record socket_addr =
  so_ip :: ip_addr
  so_text :: string

record gateway_tls_config =
  cert_path :: string
  key_path :: string

record gateway_security_config =
  gs_tls :: "gateway_tls_config option"
  allow_insecure_public_bind :: bool
  max_connections :: nat
  max_message_size_bytes :: nat
  max_frame_size_bytes :: nat
  handshake_timeout_ms :: nat
  auth_failure_threshold :: nat
  auth_failure_backoff_ms :: nat
  max_outbound_messages_per_connection :: nat

definition default_security :: gateway_security_config where
  "default_security = \<lparr>gs_tls = None, allow_insecure_public_bind = False, max_connections = 128,
     max_message_size_bytes = 64 * 1024, max_frame_size_bytes = 16 * 1024, handshake_timeout_ms = 5000,
     auth_failure_threshold = 3, auth_failure_backoff_ms = 1500, max_outbound_messages_per_connection = 128\<rparr>"

definition MIN_MESSAGE_SIZE_BYTES :: nat where "MIN_MESSAGE_SIZE_BYTES = 1024"
definition MIN_FRAME_SIZE_BYTES :: nat where "MIN_FRAME_SIZE_BYTES = 512"
definition MIN_HANDSHAKE_TIMEOUT_MS :: nat where "MIN_HANDSHAKE_TIMEOUT_MS = 100"
definition MIN_AUTH_FAILURE_BACKOFF_MS :: nat where "MIN_AUTH_FAILURE_BACKOFF_MS = 100"
definition IDEMPOTENCY_CACHE_MAX_ENTRIES :: nat where "IDEMPOTENCY_CACHE_MAX_ENTRIES = 2048"
definition AUTH_FAILURE_MAX_ENTRIES :: nat where "AUTH_FAILURE_MAX_ENTRIES = 512"

lemmas gateway_consts = MIN_MESSAGE_SIZE_BYTES_def MIN_FRAME_SIZE_BYTES_def MIN_HANDSHAKE_TIMEOUT_MS_def
  MIN_AUTH_FAILURE_BACKOFF_MS_def IDEMPOTENCY_CACHE_MAX_ENTRIES_def AUTH_FAILURE_MAX_ENTRIES_def

definition gateway_scheme :: "gateway_security_config \<Rightarrow> string" where
  "gateway_scheme security = (if gs_tls security \<noteq> None then ''wss'' else ''ws'')"

definition is_loopback_bind :: "socket_addr \<Rightarrow> bool" where
  "is_loopback_bind bind_addr = is_loopback (so_ip bind_addr)"

definition auth_configured :: "string option \<Rightarrow> bool" where
  "auth_configured auth_token = (case auth_token of None \<Rightarrow> False | Some token \<Rightarrow> trim token \<noteq> [])"

definition validate_gateway_security ::
    "(string \<Rightarrow> bool) \<Rightarrow> socket_addr \<Rightarrow> string option \<Rightarrow> gateway_security_config \<Rightarrow> string + unit" where
  "validate_gateway_security is_file bind_addr auth_token security =
     (let public_bind = \<not> is_loopback_bind bind_addr in
      if max_connections security = 0 then Inl ''gateway max_connections must be >= 1''
      else if max_message_size_bytes security < MIN_MESSAGE_SIZE_BYTES then
        Inl (''gateway max_message_size_bytes must be >= '' @ show_nat MIN_MESSAGE_SIZE_BYTES)
      else if max_frame_size_bytes security < MIN_FRAME_SIZE_BYTES then
        Inl (''gateway max_frame_size_bytes must be >= '' @ show_nat MIN_FRAME_SIZE_BYTES)
      else if max_message_size_bytes security < max_frame_size_bytes security then
        Inl ''gateway max_frame_size_bytes must be <= max_message_size_bytes''
      else if handshake_timeout_ms security < MIN_HANDSHAKE_TIMEOUT_MS then
        Inl (''gateway handshake_timeout_ms must be >= '' @ show_nat MIN_HANDSHAKE_TIMEOUT_MS)
      else if auth_failure_threshold security = 0 then Inl ''gateway auth_failure_threshold must be >= 1''
      else if auth_failure_backoff_ms security < MIN_AUTH_FAILURE_BACKOFF_MS then
        Inl (''gateway auth_failure_backoff_ms must be >= '' @ show_nat MIN_AUTH_FAILURE_BACKOFF_MS)
      else if max_outbound_messages_per_connection security = 0 then
        Inl ''gateway max_outbound_messages_per_connection must be >= 1''
      else if public_bind \<and> \<not> auth_configured auth_token then
        Inl (''refusing public bind on '' @ so_text bind_addr @ '' without --token or KELVIN_GATEWAY_TOKEN'')
      else if public_bind \<and> gs_tls security = None \<and> \<not> allow_insecure_public_bind security then
        Inl (''refusing public bind on '' @ so_text bind_addr @ '' without TLS; configure --tls-cert/--tls-key or set --allow-insecure-public-bind true for an explicit insecure override'')
      else case gs_tls security of
        None \<Rightarrow> Inr ()
      | Some tls \<Rightarrow>
          if \<not> is_file (cert_path tls) then Inl (''gateway tls cert is missing: '' @ cert_path tls)
          else if \<not> is_file (key_path tls) then Inl (''gateway tls key is missing: '' @ key_path tls)
          else Inr ())"

subsection \<open>Errors and the token\<close>

record gateway_error =
  ge_code :: string
  ge_message :: string

fun kelvin_error_code :: "kelvin_error \<Rightarrow> string" where
  "kelvin_error_code (InvalidInput m) = ''invalid_input''"
| "kelvin_error_code (NotFound m) = ''not_found''"
| "kelvin_error_code (Timeout m) = ''timeout''"
| "kelvin_error_code (Backend m) = ''backend_error''"
| "kelvin_error_code (Io m) = ''io_error''"

definition map_kelvin_error :: "kelvin_error \<Rightarrow> gateway_error" where
  "map_kelvin_error err = \<lparr>ge_code = kelvin_error_code err, ge_message = show_error err\<rparr>"

definition verify_auth_token :: "string option \<Rightarrow> string option \<Rightarrow> gateway_error + unit" where
  "verify_auth_token required_token provided_auth = (case required_token of
     None \<Rightarrow> Inr ()
   | Some required \<Rightarrow> (case provided_auth of
       None \<Rightarrow> Inl \<lparr>ge_code = ''unauthorized'', ge_message = ''missing auth token''\<rparr>
     | Some token \<Rightarrow>
         if token \<noteq> required then Inl \<lparr>ge_code = ''unauthorized'', ge_message = ''invalid auth token''\<rparr>
         else Inr ()))"

subsection \<open>Failed logins\<close>

record auth_failure_entry =
  af_failures :: nat
  af_blocked_until_ms :: nat

record auth_failure_tracker =
  at_max_entries :: nat
  at_map :: "ip_addr \<rightharpoonup> auth_failure_entry"
  at_order :: "ip_addr list"

definition tracker_new :: "nat \<Rightarrow> auth_failure_tracker" where
  "tracker_new max_entries = \<lparr>at_max_entries = max max_entries 32, at_map = Map.empty, at_order = []\<rparr>"

definition backoff_remaining_ms :: "nat \<Rightarrow> ip_addr \<Rightarrow> auth_failure_tracker \<Rightarrow> nat option \<times> auth_failure_tracker" where
  "backoff_remaining_ms now ip t = (case at_map t ip of
     None \<Rightarrow> (None, t)
   | Some entry \<Rightarrow>
       if af_blocked_until_ms entry \<le> now then
         (None, t\<lparr>at_map := (at_map t)(ip \<mapsto> entry\<lparr>af_blocked_until_ms := 0\<rparr>)\<rparr>)
       else (Some (min (af_blocked_until_ms entry - now) u64_max), t))"

definition touch :: "ip_addr \<Rightarrow> auth_failure_entry \<Rightarrow> auth_failure_tracker \<Rightarrow> auth_failure_tracker" where
  "touch ip entry t = (let order = removeAll ip (at_order t);
       full = (0 < at_max_entries t \<and> at_max_entries t \<le> length order \<and> order \<noteq> []);
       order' = (if full then tl order else order);
       m = (if full then (at_map t)(hd order := None) else at_map t) in
     t\<lparr>at_order := order' @ [ip], at_map := m(ip \<mapsto> entry)\<rparr>)"

definition u32_max :: nat where "u32_max = 2 ^ 32 - 1"

definition sat_add32 :: "nat \<Rightarrow> nat \<Rightarrow> nat" where
  "sat_add32 a b = min (a + b) u32_max"

text \<open>The product of the backoff and the multiplier fits in a \<open>u128\<close>; the sum with the clock saturates.\<close>

definition count_failure :: "nat \<Rightarrow> gateway_security_config \<Rightarrow> auth_failure_entry \<Rightarrow> auth_failure_entry" where
  "count_failure now security entry0 = (let failures = sat_add32 (af_failures entry0) 1;
       entry = entry0\<lparr>af_failures := failures\<rparr> in
     if auth_failure_threshold security \<le> failures then
       entry\<lparr>af_blocked_until_ms := sat_add128 now
         (auth_failure_backoff_ms security * sat_add32 (failures - auth_failure_threshold security) 1)\<rparr>
     else entry)"

definition record_failure ::
    "nat \<Rightarrow> ip_addr \<Rightarrow> gateway_security_config \<Rightarrow> auth_failure_tracker \<Rightarrow> auth_failure_tracker" where
  "record_failure now ip security t = (let entry = (case at_map t ip of
       Some e \<Rightarrow> e | None \<Rightarrow> \<lparr>af_failures = 0, af_blocked_until_ms = 0\<rparr>) in
     touch ip (count_failure now security entry) (t\<lparr>at_map := (at_map t)(ip := None)\<rparr>))"

definition clear_failures :: "ip_addr \<Rightarrow> auth_failure_tracker \<Rightarrow> auth_failure_tracker" where
  "clear_failures ip t = t\<lparr>at_map := (at_map t)(ip := None), at_order := removeAll ip (at_order t)\<rparr>"

subsection \<open>The idempotency cache\<close>

record cached_agent_acceptance =
  ca_run_id :: string
  ca_accepted_at_ms :: nat
  ca_cli_plugin_preflight :: "string option"

record idempotency_cache =
  ic_max_entries :: nat
  ic_map :: "string \<rightharpoonup> cached_agent_acceptance"
  ic_order :: "string list"

definition cache_new :: "nat \<Rightarrow> idempotency_cache" where
  "cache_new max_entries = \<lparr>ic_max_entries = max_entries, ic_map = Map.empty, ic_order = []\<rparr>"

definition cache_get :: "string \<Rightarrow> idempotency_cache \<Rightarrow> cached_agent_acceptance option" where
  "cache_get request_id c = ic_map c request_id"

definition cache_insert :: "string \<Rightarrow> cached_agent_acceptance \<Rightarrow> idempotency_cache \<Rightarrow> idempotency_cache" where
  "cache_insert request_id acceptance c =
     (if ic_map c request_id \<noteq> None then c\<lparr>ic_map := (ic_map c)(request_id \<mapsto> acceptance)\<rparr>
      else let full = (0 < ic_max_entries c \<and> ic_max_entries c \<le> length (ic_order c) \<and> ic_order c \<noteq> []);
               order = (if full then tl (ic_order c) else ic_order c);
               m = (if full then (ic_map c)(hd (ic_order c) := None) else ic_map c) in
        c\<lparr>ic_order := order @ [request_id], ic_map := m(request_id \<mapsto> acceptance)\<rparr>)"

subsection \<open>Both memories keep the contract of a bounded memory\<close>

definition cache_ok :: "nat \<Rightarrow> idempotency_cache \<Rightarrow> bool" where
  "cache_ok n c \<longleftrightarrow> ic_max_entries c = n \<and> distinct (ic_order c) \<and> set (ic_order c) = dom (ic_map c) \<and>
     (0 < n \<longrightarrow> length (ic_order c) \<le> n)"

lemma cache_ok_new [simp]: "cache_ok n (cache_new n)"
  by (simp add: cache_ok_def cache_new_def)

lemma set_tl_distinct: "distinct xs \<Longrightarrow> xs \<noteq> [] \<Longrightarrow> set (tl xs) = set xs - {hd xs}"
  by (cases xs) auto

lemma length_removeAll_le: "length xs \<le> n \<Longrightarrow> length (removeAll x xs) \<le> n"
  by (rule le_trans [OF length_removeAll_less_eq])

lemma cache_ok_insert: "cache_ok n c \<Longrightarrow> cache_ok n (cache_insert k v c)"
  by (auto simp: cache_ok_def cache_insert_def Let_def distinct_tl set_tl_distinct dom_def)

lemma cache_insert_order:
  "cache_ok n c \<Longrightarrow> 0 < n \<Longrightarrow>
     ic_order (cache_insert k v c) = (if k \<in> set (ic_order c) then ic_order c else fifo_put n k (ic_order c))"
  by (auto simp: cache_ok_def cache_insert_def Let_def fifo_put_one)

definition put_acceptance :: "nat \<Rightarrow> string \<times> cached_agent_acceptance \<Rightarrow> idempotency_cache \<Rightarrow> idempotency_cache" where
  "put_acceptance n kv c = cache_insert (fst kv) (snd kv) c"

interpretation idempotency: bounded_memory cache_ok ic_order "\<lambda>k c. ic_map c k \<noteq> None" fst put_acceptance
proof
  fix n c k and v :: "string \<times> cached_agent_acceptance"
  assume c: "cache_ok n c"
  show "(ic_map c k \<noteq> None) = (k \<in> set (ic_order c))" using c by (auto simp: cache_ok_def)
  assume n: "0 < n"
  show "cache_ok n (put_acceptance n v c)" using c by (simp add: put_acceptance_def cache_ok_insert)
  show "distinct (ic_order c) \<and> length (ic_order c) \<le> n" using c n by (simp add: cache_ok_def)
  show "ic_order (put_acceptance n v c) = fifo_put n (fst v) (ic_order c)" if "\<not> ic_map c (fst v) \<noteq> None"
    using that c n by (simp add: put_acceptance_def cache_insert_order) (simp add: cache_ok_def domIff)
  show "k \<in> set (ic_order (put_acceptance n v c)) \<and> age k (ic_order (put_acceptance n v c)) \<le> Suc (age k (ic_order c))"
    if "k \<in> set (ic_order c)" "Suc (age k (ic_order c)) < n"
    using that c n fifo_put_retain [OF that] by (simp add: put_acceptance_def cache_insert_order)
qed

definition track_ok :: "nat \<Rightarrow> auth_failure_tracker \<Rightarrow> bool" where
  "track_ok n t \<longleftrightarrow> at_max_entries t = n \<and> distinct (at_order t) \<and> set (at_order t) = dom (at_map t) \<and>
     (0 < n \<longrightarrow> length (at_order t) \<le> n)"

lemma track_ok_new: "track_ok (max n 32) (tracker_new n)"
  by (simp add: track_ok_def tracker_new_def)

lemma touch_order:
  "track_ok n t \<Longrightarrow> 0 < n \<Longrightarrow> at_order (touch ip e t) = fifo_put n ip (removeAll ip (at_order t))"
  by (auto simp: track_ok_def touch_def Let_def fifo_put_one length_removeAll_le)

lemma track_ok_touch: "track_ok n t \<Longrightarrow> track_ok n (touch ip e t)"
  by (auto simp: track_ok_def touch_def Let_def distinct_tl set_tl_distinct distinct_removeAll length_removeAll_le dom_def)

definition put_failure :: "nat \<Rightarrow> ip_addr \<times> auth_failure_entry \<Rightarrow> auth_failure_tracker \<Rightarrow> auth_failure_tracker" where
  "put_failure n kv t = touch (fst kv) (snd kv) t"

interpretation failures: bounded_memory track_ok at_order "\<lambda>ip t. at_map t ip \<noteq> None" fst put_failure
proof
  fix n t ip and v :: "ip_addr \<times> auth_failure_entry"
  assume t: "track_ok n t"
  show "(at_map t ip \<noteq> None) = (ip \<in> set (at_order t))" using t by (auto simp: track_ok_def)
  assume n: "0 < n"
  show "track_ok n (put_failure n v t)" using t by (simp add: put_failure_def track_ok_touch)
  show "distinct (at_order t) \<and> length (at_order t) \<le> n" using t n by (simp add: track_ok_def)
  show "at_order (put_failure n v t) = fifo_put n (fst v) (at_order t)" if "\<not> at_map t (fst v) \<noteq> None"
    using that t n by (simp add: put_failure_def touch_order) (simp add: track_ok_def domIff)
  show "ip \<in> set (at_order (put_failure n v t)) \<and> age ip (at_order (put_failure n v t)) \<le> Suc (age ip (at_order t))"
    if a: "ip \<in> set (at_order t)" "Suc (age ip (at_order t)) < n"
  proof (cases "ip = fst v")
    case True
    then show ?thesis using t n fifo_put_fresh [OF n, of ip "removeAll ip (at_order t)"]
      by (simp add: put_failure_def touch_order)
  next
    case False
    then have "age ip (removeAll (fst v) (at_order t)) \<le> age ip (at_order t)" by (rule age_removeAll)
    then show ?thesis
      using t n a False fifo_put_retain [of ip "removeAll (fst v) (at_order t)" n "fst v"]
      by (simp add: put_failure_def touch_order)
  qed
qed

text \<open>Dropping the entry before \<open>touch\<close> makes no difference, since \<open>touch\<close> writes it again.\<close>

lemma record_failure_touch:
  "record_failure now ip security t = touch ip (count_failure now security (case at_map t ip of
     Some e \<Rightarrow> e | None \<Rightarrow> \<lparr>af_failures = 0, af_blocked_until_ms = 0\<rparr>)) t"
  by (auto simp: record_failure_def touch_def Let_def fun_upd_twist)

lemma track_ok_record: "track_ok n t \<Longrightarrow> track_ok n (record_failure now ip security t)"
  by (simp add: record_failure_touch track_ok_touch)

lemma track_ok_clear: "track_ok n t \<Longrightarrow> track_ok n (clear_failures ip t)"
  by (auto simp: track_ok_def clear_failures_def distinct_removeAll length_removeAll_le)

lemma track_ok_backoff: "track_ok n t \<Longrightarrow> track_ok n (snd (backoff_remaining_ms now ip t))"
  by (auto simp: track_ok_def backoff_remaining_ms_def split: option.splits)

subsection \<open>What a validated profile guarantees\<close>

definition security_limits_ok :: "gateway_security_config \<Rightarrow> bool" where
  "security_limits_ok s \<longleftrightarrow> 1 \<le> max_connections s \<and> 1024 \<le> max_message_size_bytes s \<and>
     512 \<le> max_frame_size_bytes s \<and> max_frame_size_bytes s \<le> max_message_size_bytes s \<and>
     100 \<le> handshake_timeout_ms s \<and> 1 \<le> auth_failure_threshold s \<and> 100 \<le> auth_failure_backoff_ms s \<and>
     1 \<le> max_outbound_messages_per_connection s"

text \<open>
  The gateway starts if and only if its limits are within their bounds, it is bound to the
  loopback interface or has a token that is not blank together with TLS or the explicit override, and
  the certificate and key files of a TLS configuration exist.
\<close>

theorem validated_gateway_exposure:
  "validate_gateway_security is_file bind_addr auth_token security = Inr () \<longleftrightarrow>
     security_limits_ok security \<and>
     (is_loopback (so_ip bind_addr) \<or>
      (\<exists>token. auth_token = Some token \<and> trim token \<noteq> []) \<and>
      ((\<exists>tls. gs_tls security = Some tls) \<or> allow_insecure_public_bind security)) \<and>
     (case gs_tls security of None \<Rightarrow> True | Some tls \<Rightarrow> is_file (cert_path tls) \<and> is_file (key_path tls))"
  by (auto simp: validate_gateway_security_def security_limits_ok_def Let_def gateway_consts auth_configured_def
      is_loopback_bind_def not_less split: option.splits)

subsection \<open>The idempotency cache refines a bounded association list\<close>

definition cache_entries :: "idempotency_cache \<Rightarrow> (string \<times> cached_agent_acceptance) list" where
  "cache_entries c = map (\<lambda>k. (k, the (ic_map c k))) (ic_order c)"

text \<open>The specification: a known key is updated in its place, a new one goes to the end and, when the
  memory is bounded, the oldest beyond the bound are dropped.\<close>

definition spec_insert :: "nat \<Rightarrow> 'k \<times> 'v \<Rightarrow> ('k \<times> 'v) list \<Rightarrow> ('k \<times> 'v) list" where
  "spec_insert n kv al = (if fst kv \<in> fst ` set al then map (\<lambda>(k, v). (k, if k = fst kv then snd kv else v)) al
     else drop (if n = 0 then 0 else Suc (length al) - n) (al @ [kv]))"

lemma fst_cache_entries: "fst ` set (cache_entries c) = set (ic_order c)"
  by (force simp: cache_entries_def)

lemma map_of_cache_entries: "cache_ok n c \<Longrightarrow> map_of (cache_entries c) = ic_map c"
proof
  fix k
  assume c: "cache_ok n c"
  show "map_of (cache_entries c) k = ic_map c k"
  proof (cases "k \<in> set (ic_order c)")
    case True
    then show ?thesis using c by (auto simp: cache_entries_def map_of_map_restrict restrict_map_def cache_ok_def)
  next
    case False
    then show ?thesis using c by (auto simp: cache_entries_def map_of_map_restrict restrict_map_def cache_ok_def domIff)
  qed
qed

lemma cache_entries_insert:
  assumes "cache_ok n c"
  shows "cache_entries (cache_insert k v c) = spec_insert n (k, v) (cache_entries c)"
proof (cases "k \<in> set (ic_order c)")
  case True
  then have "ic_map c k \<noteq> None" using assms by (auto simp: cache_ok_def)
  then show ?thesis using True
    by (auto simp: cache_insert_def spec_insert_def fst_cache_entries) (auto simp: cache_entries_def)
next
  case False
  then have "ic_map c k = None" using assms by (auto simp: cache_ok_def domIff)
  then show ?thesis using False assms
    by (cases "ic_order c")
      (auto simp: cache_insert_def spec_insert_def fst_cache_entries Let_def cache_ok_def cache_entries_def)
qed

lemma cache_entries_put: "cache_ok n c \<Longrightarrow> cache_entries (put_acceptance n kv c) = spec_insert n kv (cache_entries c)"
  by (simp add: put_acceptance_def cache_entries_insert)

lemma cache_runs_ok: "cache_ok n (fold (put_acceptance n) kvs (cache_new n))"
proof -
  have "cache_ok n c \<Longrightarrow> cache_ok n (fold (put_acceptance n) kvs c)" for c
    by (induction kvs arbitrary: c) (auto simp: put_acceptance_def cache_ok_insert)
  then show ?thesis by simp
qed

text \<open>
  \<^bold>\<open>C20.\<close> After any sequence of insertions the cache holds exactly the entries of a bounded
  association list under the same insertions, in the same order, and a lookup finds what a lookup in the
  list finds.
\<close>

theorem cache_refines_bounded_list:
  "cache_entries (fold (put_acceptance n) kvs (cache_new n)) = fold (spec_insert n) kvs [] \<and>
   cache_get k (fold (put_acceptance n) kvs (cache_new n)) = map_of (fold (spec_insert n) kvs []) k"
proof -
  have "cache_entries (fold (put_acceptance n) kvs (cache_new n)) = fold (spec_insert n) kvs []"
  proof (induction kvs rule: rev_induct)
    case Nil
    then show ?case by (simp add: cache_entries_def cache_new_def)
  next
    case (snoc kv kvs)
    then show ?case by (simp add: cache_entries_put cache_runs_ok)
  qed
  then show ?thesis using map_of_cache_entries [OF cache_runs_ok [of n kvs]] by (simp add: cache_get_def)
qed

subsection \<open>The backoff spaces out wrong tokens\<close>

text \<open>
  One login after the other: \<open>handle_connection\<close> asks for the backoff when the socket is open and compares
  the token when the connect request has arrived.
\<close>

datatype login_result = Backoff nat | Denied gateway_error | Admitted

record login_attempt =
  la_ip :: ip_addr
  la_opened_ms :: nat
  la_checked_ms :: nat
  la_token :: "string option"

definition authenticate :: "gateway_security_config \<Rightarrow> string option \<Rightarrow> nat \<Rightarrow> ip_addr \<Rightarrow> string option \<Rightarrow>
    auth_failure_tracker \<Rightarrow> (gateway_error + unit) \<times> auth_failure_tracker" where
  "authenticate security required now ip provided t = (case verify_auth_token required provided of
     Inl err \<Rightarrow> (Inl err, record_failure now ip security t)
   | Inr _ \<Rightarrow> (Inr (), clear_failures ip t))"

definition login :: "gateway_security_config \<Rightarrow> string option \<Rightarrow> login_attempt \<Rightarrow> auth_failure_tracker \<Rightarrow>
    login_result \<times> auth_failure_tracker" where
  "login security required a t = (case backoff_remaining_ms (la_opened_ms a) (la_ip a) t of
     (Some ms, t') \<Rightarrow> (Backoff ms, t')
   | (None, t') \<Rightarrow> (case authenticate security required (la_checked_ms a) (la_ip a) (la_token a) t' of
       (Inl err, t'') \<Rightarrow> (Denied err, t'')
     | (Inr _, t'') \<Rightarrow> (Admitted, t'')))"

fun token_checked :: "login_result \<Rightarrow> bool" where
  "token_checked (Backoff ms) = False"
| "token_checked (Denied e) = True"
| "token_checked Admitted = True"

definition login_step :: "gateway_security_config \<Rightarrow> string option \<Rightarrow> login_attempt \<Rightarrow>
    login_attempt list \<times> auth_failure_tracker \<Rightarrow> login_attempt list \<times> auth_failure_tracker" where
  "login_step security required a st = (case login security required a (snd st) of
     (r, t) \<Rightarrow> (if token_checked r then fst st @ [a] else fst st, t))"

text \<open>The attempts whose token was compared, in order, and the tracker after all of them.\<close>

definition logins :: "gateway_security_config \<Rightarrow> string option \<Rightarrow> login_attempt list \<Rightarrow>
    login_attempt list \<times> auth_failure_tracker" where
  "logins security required as = fold (login_step security required) as ([], tracker_new AUTH_FAILURE_MAX_ENTRIES)"

definition checked_for :: "ip_addr \<Rightarrow> login_attempt list \<Rightarrow> login_attempt list" where
  "checked_for ip as = filter (\<lambda>a. la_ip a = ip) as"

lemma touch_room:
  assumes "track_ok n t" "set (at_order t) \<subseteq> P" "finite P" "card P \<le> n" "ip \<in> P"
  shows "at_map (touch ip e t) = (at_map t)(ip \<mapsto> e)" and "set (at_order (touch ip e t)) \<subseteq> P"
proof -
  have "set (removeAll ip (at_order t)) \<subseteq> P - {ip}" using assms(2) by auto
  then have "card (set (removeAll ip (at_order t))) \<le> card (P - {ip})" using assms(3) by (intro card_mono) auto
  moreover have "card (set (removeAll ip (at_order t))) = length (removeAll ip (at_order t))"
    using assms(1) by (intro distinct_card) (simp add: track_ok_def distinct_removeAll)
  moreover have "card (P - {ip}) < card P" using assms(3,5) by (rule card_Diff1_less)
  ultimately have "length (removeAll ip (at_order t)) < n" using assms(4) by linarith
  then have nf: "\<not> at_max_entries t \<le> length (removeAll ip (at_order t))" using assms(1) by (simp add: track_ok_def)
  show "at_map (touch ip e t) = (at_map t)(ip \<mapsto> e)" using nf by (simp add: touch_def Let_def)
  show "set (at_order (touch ip e t)) \<subseteq> P" using nf assms(2,5) by (auto simp: touch_def Let_def)
qed

definition room :: "ip_addr set \<Rightarrow> auth_failure_tracker \<Rightarrow> bool" where
  "room P t \<longleftrightarrow> track_ok AUTH_FAILURE_MAX_ENTRIES t \<and> set (at_order t) \<subseteq> P \<and> finite P \<and> card P \<le> AUTH_FAILURE_MAX_ENTRIES"

lemma room_record:
  assumes "room P t" "ip \<in> P"
  shows "at_map (record_failure now ip security t) = (at_map t)(ip \<mapsto> count_failure now security
      (case at_map t ip of Some e \<Rightarrow> e | None \<Rightarrow> \<lparr>af_failures = 0, af_blocked_until_ms = 0\<rparr>)) \<and>
    room P (record_failure now ip security t)"
  using assms touch_room [of AUTH_FAILURE_MAX_ENTRIES t P ip]
  by (simp add: room_def record_failure_touch track_ok_touch)

lemma room_clear: "room P t \<Longrightarrow> room P (clear_failures ip t)"
  by (auto simp: room_def track_ok_clear) (auto simp: clear_failures_def)

lemma room_backoff: "room P t \<Longrightarrow> room P (snd (backoff_remaining_ms now ip t))"
  by (auto simp: room_def track_ok_backoff) (auto simp: backoff_remaining_ms_def split: option.splits if_splits)

lemma backoff_other: "ip \<noteq> p \<Longrightarrow> at_map (snd (backoff_remaining_ms now ip t)) p = at_map t p"
  by (auto simp: backoff_remaining_ms_def split: option.splits)

lemma login_other:
  assumes "room P t" "la_ip a \<in> P" "la_ip a \<noteq> p" "login security required a t = (r, t')"
  shows "room P t' \<and> at_map t' p = at_map t p"
proof -
  obtain b t1 where b: "backoff_remaining_ms (la_opened_ms a) (la_ip a) t = (b, t1)" by fastforce
  then have t1: "room P t1" "at_map t1 p = at_map t p"
    using room_backoff [OF assms(1), of "la_opened_ms a" "la_ip a"]
      backoff_other [OF assms(3), of "la_opened_ms a" t] by simp_all
  show ?thesis
    using assms(2-4) b t1 room_record [OF t1(1) assms(2), of "la_checked_ms a" security] room_clear [OF t1(1), of "la_ip a"]
    by (auto simp: login_def authenticate_def clear_failures_def split: option.splits sum.splits)
qed

definition penalty :: "gateway_security_config \<Rightarrow> nat \<Rightarrow> nat" where
  "penalty security n = auth_failure_backoff_ms security * (n + 1 - auth_failure_threshold security)"

text \<open>The tracker's entry after the checked attempts \<open>cs\<close> of a peer, all of them failures.\<close>

definition entry_after :: "gateway_security_config \<Rightarrow> login_attempt list \<Rightarrow> auth_failure_entry option" where
  "entry_after security cs = (if cs = [] then None else Some \<lparr>af_failures = length cs,
     af_blocked_until_ms = (if auth_failure_threshold security \<le> length cs
       then la_checked_ms (last cs) + penalty security (length cs) else 0)\<rparr>)"

definition spaced :: "gateway_security_config \<Rightarrow> login_attempt list \<Rightarrow> bool" where
  "spaced security cs \<longleftrightarrow> (\<forall>i < length cs - 1. auth_failure_threshold security \<le> Suc i \<longrightarrow>
     la_checked_ms (cs ! i) + penalty security (Suc i) \<le> la_opened_ms (cs ! Suc i))"

lemma spaced_snoc:
  assumes "spaced security cs"
    and "cs \<noteq> [] \<Longrightarrow> auth_failure_threshold security \<le> length cs \<Longrightarrow>
     la_checked_ms (last cs) + penalty security (length cs) \<le> la_opened_ms a"
  shows "spaced security (cs @ [a])"
  unfolding spaced_def
proof (intro allI impI)
  fix i
  assume i: "i < length (cs @ [a]) - 1" and th: "auth_failure_threshold security \<le> Suc i"
  show "la_checked_ms ((cs @ [a]) ! i) + penalty security (Suc i) \<le> la_opened_ms ((cs @ [a]) ! Suc i)"
  proof (cases "Suc i = length cs")
    case True
    then have "cs \<noteq> []" and "i = length cs - 1" by auto
    then show ?thesis using assms(2) th True by (auto simp: nth_append last_conv_nth)
  next
    case False
    then show ?thesis using assms(1) th i by (auto simp: spaced_def nth_append)
  qed
qed

text \<open>No counter saturates: fewer than \<open>2^32\<close> failures, clock readings below \<open>2^127\<close>, a backoff of 64 bits.\<close>

definition unsaturated :: "gateway_security_config \<Rightarrow> login_attempt list \<Rightarrow> bool" where
  "unsaturated security as \<longleftrightarrow> 1 \<le> auth_failure_threshold security \<and> auth_failure_backoff_ms security \<le> u64_max \<and>
     length as \<le> u32_max \<and> list_all (\<lambda>a. la_checked_ms a < 2 ^ 127) as"

lemma count_failure_exact:
  assumes "Suc n \<le> u32_max" "now < 2 ^ 127" "1 \<le> auth_failure_threshold security"
    "auth_failure_backoff_ms security \<le> u64_max"
  shows "count_failure now security \<lparr>af_failures = n, af_blocked_until_ms = 0\<rparr> =
    \<lparr>af_failures = Suc n, af_blocked_until_ms = (if auth_failure_threshold security \<le> Suc n
       then now + penalty security (Suc n) else 0)\<rparr>"
proof -
  have s: "sat_add32 n 1 = Suc n" using assms(1) by (simp add: sat_add32_def)
  have k: "sat_add32 (Suc n - auth_failure_threshold security) 1 = Suc n + 1 - auth_failure_threshold security"
    if "auth_failure_threshold security \<le> Suc n"
    using that assms(1,3) by (auto simp: sat_add32_def min_def)
  have "penalty security (Suc n) \<le> u64_max * u32_max"
    unfolding penalty_def using assms(1,3,4) by (intro mult_le_mono) auto
  then have "now + penalty security (Suc n) \<le> 2 ^ 127 + u64_max * u32_max"
    using assms(2) by linarith
  also have "\<dots> \<le> u128_max" by (simp add: u128_max_def u64_max_def u32_max_def)
  finally have "sat_add128 now (penalty security (Suc n)) = now + penalty security (Suc n)"
    by (simp add: sat_add128_def)
  then show ?thesis by (simp add: count_failure_def Let_def s [simplified] k [simplified] penalty_def)
qed

lemma login_wrong:
  assumes r: "room P t" "la_ip a \<in> P" and e: "at_map t (la_ip a) = entry_after security cs"
    and bad: "verify_auth_token required (la_token a) \<noteq> Inr ()"
    and u: "unsaturated security (cs @ [a])" and l: "login security required a t = (r, t')" and sp: "spaced security cs"
  shows "room P t' \<and> at_map t' (la_ip a) = entry_after security (if token_checked r then cs @ [a] else cs) \<and>
    spaced security (if token_checked r then cs @ [a] else cs)"
proof -
  obtain b t1 where b: "backoff_remaining_ms (la_opened_ms a) (la_ip a) t = (b, t1)" by fastforce
  have t1: "room P t1" using room_backoff [OF r(1)] b by (metis snd_conv)
  show ?thesis
  proof (cases b)
    case None
    have free: "cs \<noteq> [] \<Longrightarrow> auth_failure_threshold security \<le> length cs \<Longrightarrow>
        la_checked_ms (last cs) + penalty security (length cs) \<le> la_opened_ms a"
      using b None e by (auto simp: backoff_remaining_ms_def entry_after_def split: if_splits)
    have "at_map t1 (la_ip a) = (if cs = [] then None else Some \<lparr>af_failures = length cs, af_blocked_until_ms = 0\<rparr>)"
      using b None e by (auto simp: backoff_remaining_ms_def entry_after_def split: if_splits)
    then have "(case at_map t1 (la_ip a) of Some e \<Rightarrow> e | None \<Rightarrow> \<lparr>af_failures = 0, af_blocked_until_ms = 0\<rparr>) =
        \<lparr>af_failures = length cs, af_blocked_until_ms = 0\<rparr>" by simp
    then have m: "at_map (record_failure (la_checked_ms a) (la_ip a) security t1) (la_ip a) = entry_after security (cs @ [a])"
      using room_record [OF t1 r(2), of "la_checked_ms a" security] u
      by (simp add: count_failure_exact unsaturated_def entry_after_def)
    show ?thesis using l b None bad m spaced_snoc [OF sp free] room_record [OF t1 r(2), of "la_checked_ms a" security]
      by (auto simp: login_def authenticate_def split: sum.splits)
  next
    case (Some ms)
    then have "t1 = t" using b by (auto simp: backoff_remaining_ms_def split: option.splits if_splits)
    then show ?thesis using l b Some r e sp by (auto simp: login_def)
  qed
qed

lemma logins_spaced:
  assumes "finite P" "card P \<le> AUTH_FAILURE_MAX_ENTRIES" "list_all (\<lambda>a. la_ip a \<in> P) as"
    "list_all (\<lambda>a. la_ip a = p \<longrightarrow> verify_auth_token required (la_token a) \<noteq> Inr ()) as" "unsaturated security as"
  shows "let (cs, t) = logins security required as in room P t \<and> length cs \<le> length as \<and> set cs \<subseteq> set as \<and>
    at_map t p = entry_after security (checked_for p cs) \<and> spaced security (checked_for p cs)"
  using assms
proof (induction as rule: rev_induct)
  case Nil
  then show ?case
    using track_ok_new [of AUTH_FAILURE_MAX_ENTRIES]
    by (simp add: logins_def room_def checked_for_def entry_after_def spaced_def)
      (simp add: tracker_new_def gateway_consts)
next
  case (snoc a as)
  obtain cs t where s: "logins security required as = (cs, t)" by fastforce
  obtain r t' where l: "login security required a t = (r, t')" by fastforce
  have s': "logins security required (as @ [a]) = (if token_checked r then cs @ [a] else cs, t')"
    using s l by (simp add: logins_def login_step_def)
  have "unsaturated security as" using snoc.prems(5) by (auto simp: unsaturated_def)
  then have ih: "room P t" "length cs \<le> length as" "set cs \<subseteq> set as" "at_map t p = entry_after security (checked_for p cs)"
    "spaced security (checked_for p cs)"
    using snoc s by auto
  have "length (checked_for p cs) \<le> length as"
    unfolding checked_for_def using ih(2) by (rule le_trans [OF length_filter_le])
  then have u: "unsaturated security (checked_for p cs @ [a])"
    using snoc.prems(5) ih(3) by (auto simp: unsaturated_def checked_for_def list_all_iff)
  show ?case
  proof (cases "la_ip a = p")
    case True
    then show ?thesis
      using login_wrong [OF ih(1) _ _ _ u l ih(5)] snoc.prems ih s'
      by (auto simp: checked_for_def)
  next
    case False
    then show ?thesis
      using login_other [OF ih(1) _ False l] snoc.prems ih s' by (auto simp: checked_for_def)
  qed
qed

text \<open>
  \<^bold>\<open>C17.\<close> The backoff spaces out guesses of the token. Take any sequence of logins, one after the
  other, by at most 512 peers, in which those of the peer \<open>p\<close> all carry a wrong token. Once \<open>p\<close> has failed
  as often as the threshold, its token is compared for the \<open>(i+2)\<close>nd time only on a connection opened after the
  backoff times \<open>i + 2 - threshold\<close> has passed since the comparison before.
\<close>

theorem wrong_tokens_spaced:
  assumes "finite P" "card P \<le> 512" "list_all (\<lambda>a. la_ip a \<in> P) as"
    "list_all (\<lambda>a. la_ip a = p \<longrightarrow> verify_auth_token required (la_token a) \<noteq> Inr ()) as" "unsaturated security as"
    "cs = checked_for p (fst (logins security required as))"
    "Suc i < length cs" "auth_failure_threshold security \<le> Suc i"
  shows "la_checked_ms (cs ! i) + auth_failure_backoff_ms security * (i + 2 - auth_failure_threshold security) \<le>
    la_opened_ms (cs ! Suc i)"
proof -
  have "spaced security cs"
    using logins_spaced [OF assms(1) _ assms(3-5)] assms(2,6)
    by (auto simp: gateway_consts split: prod.splits)
  then show ?thesis using assms(7,8) by (auto simp: spaced_def penalty_def)
qed

definition demo_login :: "nat \<Rightarrow> login_attempt" where
  "demo_login now = \<lparr>la_ip = IpV4 10 0 0 9, la_opened_ms = now, la_checked_ms = now, la_token = Some ''guess''\<rparr>"

text \<open>Five guesses: the fourth is refused by the backoff, the fifth is compared.\<close>

theorem wrong_tokens_spaced_witness:
  "la_checked_ms (demo_login 12) + 1500 * 1 \<le> la_opened_ms (demo_login 1600)"
  using wrong_tokens_spaced [of "{IpV4 10 0 0 9}" "map demo_login [10, 11, 12, 1000, 1600]" "IpV4 10 0 0 9"
      "Some ''secret''" default_security _ 2, OF _ _ _ _ _ refl]
  by (simp add: demo_login_def logins_def login_step_def login_def authenticate_def verify_auth_token_def
      backoff_remaining_ms_def record_failure_def touch_def count_failure_def Let_def tracker_new_def
      gateway_consts default_security_def unsaturated_def u64_max_def u32_max_def u128_max_def sat_add32_def
      sat_add128_def checked_for_def)

end
