(* ===== verification/Gateway_Server.thy ===== *)
theory Gateway_Server
  imports Gateway_Guards Channel_Ingest
begin

section \<open>Requests and connections of the gateway (kelvin-gateway/src/lib.rs)\<close>

text \<open>
  The WebSocket server: the slash commands it executes, idempotent submission, the dispatch of a request,
  and a connection from the handshake to its end. The runtime (\<open>KelvinSdkRuntime\<close>), the read-only reports
  of the operator API, the scheduler and the channel status, the decoders that serde derives and the
  writer queue are the parameter \<open>gateway_env\<close>; the channel engine is the one of \<open>Channel_Ingest\<close> and
  carries the world. Requests of one connection are handled one at a time, as the code does; the
  interleaving of two connections is made explicit where it matters.
\<close>

subsection \<open>Environment and state\<close>

record agent_params =
  ap_request_id :: string
  ap_prompt :: string
  ap_session_id :: "string option"
  ap_workspace_dir :: "string option"
  ap_timeout_ms :: "nat option"
  ap_system_prompt :: "string option"
  ap_memory_query :: "string option"
  ap_run_id :: "string option"

record run_wait_params =
  rw_run_id :: string
  rw_timeout_ms :: "nat option"

record route_inspect_params =
  rp_channel :: string
  rp_account_id :: string
  rp_sender_tier :: "string option"
  rp_session_id :: "string option"
  rp_workspace_dir :: "string option"

datatype gateway_payload =
    PJson json
  | PAccepted string nat bool "string option"
  | PWait agent_wait_result
  | PState run_state
  | POutcome run_outcome
  | PChannel channel_reply
  | PRoute route_decision nat

datatype server_frame =
    ResOk string gateway_payload
  | ResErr string gateway_error
  | CloseFrame

datatype gateway_obs =
    ObsHandled string string json
  | ObsFrame server_frame
  | ObsTokenCheck ip_addr

text \<open>The decoders: \<open>serde_json::from_value\<close> at each parameter type, with serde's message on failure.\<close>

record gateway_decoders =
  dc_frame :: "string \<Rightarrow> string + string \<times> string \<times> json"
  dc_connect :: "json \<Rightarrow> string + string option"
  dc_agent :: "json \<Rightarrow> string + agent_params"
  dc_run_wait :: "json \<Rightarrow> string + run_wait_params"
  dc_run_state :: "json \<Rightarrow> string + string"
  dc_ingress :: "channel_kind \<Rightarrow> json \<Rightarrow> string + ingress_request"
  dc_pair_approve :: "json \<Rightarrow> string + string"
  dc_route_inspect :: "json \<Rightarrow> string + route_inspect_params"
  dc_report :: "string \<Rightarrow> json \<Rightarrow> string + json"
  dc_command_exec :: "json \<Rightarrow> string + command_exec_params"

record 'w gateway_env =
  gv_channel_env :: "'w channel_env"
  gv_submit :: "sdk_run_request \<Rightarrow> ('w, sdk_accepted_run) eff"
  gv_wait :: "string \<Rightarrow> nat \<Rightarrow> ('w, agent_wait_result) eff"
  gv_run_state :: "string \<Rightarrow> ('w, run_state) eff"
  gv_outcome :: "string \<Rightarrow> nat \<Rightarrow> ('w, run_outcome) eff"
  gv_upsert_session :: "session_descriptor \<Rightarrow> ('w, unit) eff"
  gv_clear_history :: "string \<Rightarrow> ('w, unit) eff"
  gv_tool_definitions :: "tool_definition list"
  gv_workspace_dir :: string
  gv_report :: "string \<Rightarrow> json \<Rightarrow> ('w, json) eff"
  gv_health :: "'w channel_engine \<Rightarrow> json \<times> 'w"
  gv_channel_status :: "channel_kind \<Rightarrow> 'w channel_engine \<Rightarrow> json"
  gv_decode :: gateway_decoders
  gv_connected :: "'w \<Rightarrow> json"
  gv_send :: "server_frame \<Rightarrow> 'w \<Rightarrow> bool \<times> 'w"
  gv_now :: "'w \<Rightarrow> nat \<times> 'w"

record gateway_config =
  gc_auth_token :: "string option"
  gc_security :: gateway_security_config

record 'w gateway_state =
  gt_channels :: "'w channel_engine"
  gt_idempotency :: idempotency_cache
  gt_auth_failures :: auth_failure_tracker
  gt_trace :: "gateway_obs list"

type_synonym ('w, 'a) gateway_op = "'w gateway_state \<Rightarrow> (gateway_error + 'a) \<times> 'w gateway_state"

abbreviation gt_world :: "'w gateway_state \<Rightarrow> 'w" where
  "gt_world s \<equiv> eg_world (gt_channels s)"

definition set_world :: "'w \<Rightarrow> 'w gateway_state \<Rightarrow> 'w gateway_state" where
  "set_world w s = s\<lparr>gt_channels := (gt_channels s)\<lparr>eg_world := w\<rparr>\<rparr>"

definition observe :: "gateway_obs \<Rightarrow> 'w gateway_state \<Rightarrow> 'w gateway_state" where
  "observe ev s = s\<lparr>gt_trace := gt_trace s @ [ev]\<rparr>"

text \<open>A call of the runtime, with its error mapped by \<open>map_kelvin_error\<close>.\<close>

definition runtimeG :: "('w, 'a) eff \<Rightarrow> ('w, 'a) gateway_op" where
  "runtimeG op = (\<lambda>s. case op (gt_world s) of
     (Inl err, w) \<Rightarrow> (Inl (map_kelvin_error err), set_world w s)
   | (Inr x, w) \<Rightarrow> (Inr x, set_world w s))"

definition engineG :: "('w channel_engine, 'a) eff \<Rightarrow> ('w, 'a) gateway_op" where
  "engineG op = (\<lambda>s. case op (gt_channels s) of
     (Inl err, g) \<Rightarrow> (Inl (map_kelvin_error err), s\<lparr>gt_channels := g\<rparr>)
   | (Inr x, g) \<Rightarrow> (Inr x, s\<lparr>gt_channels := g\<rparr>))"

definition mapG :: "('a \<Rightarrow> 'b) \<Rightarrow> ('w, 'a) gateway_op \<Rightarrow> ('w, 'b) gateway_op" where
  "mapG f m = (\<lambda>s. case m s of (Inl err, s') \<Rightarrow> (Inl err, s') | (Inr x, s') \<Rightarrow> (Inr (f x), s'))"

definition parse_params :: "('j \<Rightarrow> string + 'a) \<Rightarrow> 'j \<Rightarrow> string \<Rightarrow> ('a \<Rightarrow> ('w, 'b) gateway_op) \<Rightarrow> ('w, 'b) gateway_op" where
  "parse_params dec params meth k = (case dec params of
     Inl err \<Rightarrow> (\<lambda>s. (Inl \<lparr>ge_code = ''invalid_input'', ge_message = ''invalid params for '' @ meth @ '': '' @ err\<rparr>, s))
   | Inr p \<Rightarrow> k p)"

subsection \<open>Slash commands\<close>

definition all_surfaces :: "command_surface list" where
  "all_surfaces = [SurfTui, SurfTelegram, SurfSlack, SurfDiscord, SurfWhatsApp]"

definition builtin_meta :: "string \<Rightarrow> string \<Rightarrow> string option \<Rightarrow> string \<Rightarrow> command_surface list \<Rightarrow> sender_trust_tier \<Rightarrow>
    slash_command_meta" where
  "builtin_meta name description usage category surfaces tier = \<lparr>cm_name = name, cm_description = description,
     cm_usage = usage, cm_category = category, cm_surfaces = surfaces, cm_min_tier = Some tier,
     cm_bypass_queue = False\<rparr>"

definition builtin_commands :: "slash_command_meta list" where
  "builtin_commands =
     [builtin_meta ''new'' ''Create a new session'' (Some ''[name]'') ''session'' all_surfaces Trusted,
      builtin_meta ''clear'' ''Clear session history'' None ''session'' all_surfaces Trusted,
      builtin_meta ''tools'' ''List all available tools'' None ''tools'' all_surfaces Standard,
      builtin_meta ''session'' ''List or switch sessions'' (Some ''[id]'') ''session'' all_surfaces Standard,
      builtin_meta ''plugins'' ''List loaded plugins'' None ''system'' [SurfTui] Owner]"

definition build_command_registry :: command_registry where
  "build_command_registry = from_slash_meta builtin_commands None"

definition commands_list_payload :: json where
  "commands_list_payload = JObj [(''commands'', JArr (map (\<lambda>c. JObj
     [(''name'', JStr (cm_name c)), (''description'', JStr (cm_description c)), (''usage'', opt_str (cm_usage c)),
      (''category'', JStr (cm_category c)), (''min_tier'', opt_str (map_option tier_as_str (cm_min_tier c))),
      (''bypass_queue'', JBool (cm_bypass_queue c))]) builtin_commands))]"

definition command_name :: "command_exec_params \<Rightarrow> string" where
  "command_name params = dropWhile (\<lambda>c. c = CHR ''/'') (trim (ce_command params))"

text \<open>The session id a \<open>session\<close> command is given as the member \<open>session_id\<close> of its arguments.\<close>

definition requested_session :: "json \<Rightarrow> string option" where
  "requested_session args = (case json_str_field ''session_id'' args of
     Some sid \<Rightarrow> if trim sid = [] then None else Some sid
   | None \<Rightarrow> None)"

definition command_exec_payload :: "'w gateway_env \<Rightarrow> command_exec_params \<Rightarrow> ('w, json) eff" where
  "command_exec_payload env params = (let name = command_name params;
       session_id = opt_or (ce_session_id params) ''main'' in
     if name = ''new'' then
       seqE (gv_upsert_session env \<lparr>sd_session_id = session_id, sd_session_key = session_id,
         sd_workspace_dir = gv_workspace_dir env\<rparr>)
       (okE (JObj [(''command'', JStr ''new''), (''session_id'', JStr session_id)]))
     else if name = ''clear'' then
       seqE (gv_clear_history env session_id)
       (okE (JObj [(''command'', JStr ''clear''), (''session_id'', JStr session_id)]))
     else if name = ''tools'' then
       okE (JObj [(''command'', JStr ''tools''), (''count'', JNum (show_nat (length (gv_tool_definitions env)))),
         (''tools'', JArr (map (\<lambda>d. JObj [(''name'', JStr (td_name d)), (''description'', JStr (td_description d))])
           (gv_tool_definitions env)))])
     else if name = ''session'' then
       (case requested_session (ce_args params) of
          Some sid \<Rightarrow> okE (JObj [(''command'', JStr ''session''), (''session_id'', JStr sid)])
        | None \<Rightarrow> bindE (gv_report env ''operator.sessions.list'' JNull) (\<lambda>payload.
            okE (JObj [(''command'', JStr ''session''), (''result'', payload)])))
     else if name = ''plugins'' then
       bindE (gv_report env ''operator.plugins.inspect'' JNull) (\<lambda>payload.
         okE (JObj [(''command'', JStr ''plugins''), (''result'', payload)]))
     else errE (InvalidInput (''unknown command: /'' @ name)))"

subsection \<open>Submission\<close>

definition agent_request :: "agent_params \<Rightarrow> sdk_run_request" where
  "agent_request p = \<lparr>sr_prompt = ap_prompt p, sr_session_id = ap_session_id p, sr_workspace_dir = ap_workspace_dir p,
     sr_timeout_ms = ap_timeout_ms p, sr_system_prompt = ap_system_prompt p, sr_memory_query = ap_memory_query p,
     sr_run_id = ap_run_id p\<rparr>"

definition cached_reply :: "cached_agent_acceptance \<Rightarrow> bool \<Rightarrow> gateway_payload" where
  "cached_reply c deduped = PAccepted (ca_run_id c) (ca_accepted_at_ms c) deduped (ca_cli_plugin_preflight c)"

definition acceptance_of :: "sdk_accepted_run \<Rightarrow> cached_agent_acceptance" where
  "acceptance_of accepted = \<lparr>ca_run_id = sa_run_id accepted, ca_accepted_at_ms = sa_accepted_at_ms accepted,
     ca_cli_plugin_preflight = sa_cli_plugin_preflight accepted\<rparr>"

definition submit_agent :: "'w gateway_env \<Rightarrow> agent_params \<Rightarrow> ('w, gateway_payload) gateway_op" where
  "submit_agent env p = (\<lambda>s. let request_id = trim (ap_request_id p) in
     if request_id = [] then
       (Inl \<lparr>ge_code = ''invalid_input'', ge_message = ''request_id must not be empty''\<rparr>, s)
     else case cache_get request_id (gt_idempotency s) of
       Some cached \<Rightarrow> (Inr (cached_reply cached True), s)
     | None \<Rightarrow> (case runtimeG (gv_submit env (agent_request p)) s of
         (Inl err, s') \<Rightarrow> (Inl err, s')
       | (Inr accepted, s') \<Rightarrow> (Inr (cached_reply (acceptance_of accepted) False),
           s'\<lparr>gt_idempotency := cache_insert request_id (acceptance_of accepted) (gt_idempotency s')\<rparr>)))"

subsection \<open>Dispatch of a request\<close>

definition GATEWAY_METHODS_V1 :: "string list" where
  "GATEWAY_METHODS_V1 =
     [''agent'', ''agent.outcome'', ''agent.state'', ''agent.wait'', ''channel.discord.ingest'',
      ''channel.discord.status'', ''channel.route.inspect'', ''channel.slack.ingest'', ''channel.slack.status'',
      ''channel.telegram.ingest'', ''channel.telegram.pair.approve'', ''channel.telegram.status'',
      ''channel.whatsapp.ingest'', ''channel.whatsapp.status'', ''command.exec'', ''commands.list'', ''connect'',
      ''health'', ''operator.plugins.inspect'', ''operator.runs.list'', ''operator.session.get'',
      ''operator.sessions.list'', ''run.outcome'', ''run.state'', ''run.submit'', ''run.wait'',
      ''schedule.history'', ''schedule.list'']"

definition is_supported_method :: "string \<Rightarrow> bool" where
  "is_supported_method meth \<longleftrightarrow> meth \<in> set GATEWAY_METHODS_V1"

definition unknown_method :: "string \<Rightarrow> gateway_error" where
  "unknown_method meth = \<lparr>ge_code = ''method_not_found'', ge_message = ''unknown method: '' @ meth\<rparr>"

text \<open>Which handler a method has.\<close>

datatype gateway_method =
    MHealth | MSubmit | MWait | MState | MOutcome | MIngest channel_kind | MPairApprove | MStatus channel_kind
  | MRouteInspect | MReport | MCommandsList | MCommandExec

definition report_methods :: "string list" where
  "report_methods = [''schedule.list'', ''schedule.history'', ''operator.runs.list'', ''operator.sessions.list'',
     ''operator.session.get'', ''operator.plugins.inspect'']"

definition method_of_name :: "string \<Rightarrow> gateway_method option" where
  "method_of_name m =
     (if m = ''health'' then Some MHealth
      else if m = ''agent'' \<or> m = ''run.submit'' then Some MSubmit
      else if m = ''agent.wait'' \<or> m = ''run.wait'' then Some MWait
      else if m = ''agent.state'' \<or> m = ''run.state'' then Some MState
      else if m = ''agent.outcome'' \<or> m = ''run.outcome'' then Some MOutcome
      else if m = ''channel.telegram.ingest'' then Some (MIngest Telegram)
      else if m = ''channel.telegram.pair.approve'' then Some MPairApprove
      else if m = ''channel.telegram.status'' then Some (MStatus Telegram)
      else if m = ''channel.slack.ingest'' then Some (MIngest Slack)
      else if m = ''channel.slack.status'' then Some (MStatus Slack)
      else if m = ''channel.discord.ingest'' then Some (MIngest Discord)
      else if m = ''channel.discord.status'' then Some (MStatus Discord)
      else if m = ''channel.whatsapp.ingest'' then Some (MIngest WhatsApp)
      else if m = ''channel.whatsapp.status'' then Some (MStatus WhatsApp)
      else if m = ''channel.route.inspect'' then Some MRouteInspect
      else if m \<in> set report_methods then Some MReport
      else if m = ''commands.list'' then Some MCommandsList
      else if m = ''command.exec'' then Some MCommandExec
      else None)"

definition inspect_payload :: "'w gateway_state \<Rightarrow> route_inspect_params \<Rightarrow> gateway_error + gateway_payload" where
  "inspect_payload s p = (case route_inspect (gt_channels s) (rp_channel p) (rp_account_id p) (rp_sender_tier p)
       (rp_session_id p) (rp_workspace_dir p) of
     Inl err \<Rightarrow> Inl (map_kelvin_error err) | Inr (d, n) \<Rightarrow> Inr (PRoute d n))"

definition channel_envG :: "'w gateway_env \<Rightarrow> 'w channel_env" where
  "channel_envG env = (gv_channel_env env)\<lparr>cv_submit := gv_submit env, cv_wait := gv_outcome env,
     cv_command := command_exec_payload env\<rparr>"

definition handle_request :: "'w gateway_env \<Rightarrow> string \<Rightarrow> json \<Rightarrow> ('w, gateway_payload) gateway_op" where
  "handle_request env meth params = (let dec = gv_decode env in case method_of_name meth of
     None \<Rightarrow> (\<lambda>s. (Inl (unknown_method meth), s))
   | Some MHealth \<Rightarrow> (\<lambda>s. case gv_health env (gt_channels s) of (j, w) \<Rightarrow> (Inr (PJson j), set_world w s))
   | Some MSubmit \<Rightarrow> parse_params (dc_agent dec) params meth (submit_agent env)
   | Some MWait \<Rightarrow> parse_params (dc_run_wait dec) params meth (\<lambda>p.
       mapG PWait (runtimeG (gv_wait env (rw_run_id p) (opt_or (rw_timeout_ms p) 30000))))
   | Some MState \<Rightarrow> parse_params (dc_run_state dec) params meth (\<lambda>run_id.
       mapG PState (runtimeG (gv_run_state env run_id)))
   | Some MOutcome \<Rightarrow> parse_params (dc_run_wait dec) params meth (\<lambda>p.
       mapG POutcome (runtimeG (gv_outcome env (rw_run_id p) (opt_or (rw_timeout_ms p) 30000))))
   | Some (MIngest kind) \<Rightarrow> parse_params (dc_ingress dec kind) params meth (\<lambda>p.
       mapG PChannel (engineG (engine_ingest (channel_envG env) kind p)))
   | Some MPairApprove \<Rightarrow> parse_params (dc_pair_approve dec) params meth (\<lambda>code_arg.
       mapG PChannel (engineG (telegram_approve_pairing (channel_envG env) code_arg)))
   | Some (MStatus kind) \<Rightarrow> (\<lambda>s. (Inr (PJson (gv_channel_status env kind (gt_channels s))), s))
   | Some MRouteInspect \<Rightarrow> parse_params (dc_route_inspect dec) params meth (\<lambda>p s. (inspect_payload s p, s))
   | Some MReport \<Rightarrow> parse_params (dc_report dec meth) params meth (\<lambda>p.
       mapG PJson (runtimeG (gv_report env meth p)))
   | Some MCommandsList \<Rightarrow> (\<lambda>s. (Inr (PJson commands_list_payload), s))
   | Some MCommandExec \<Rightarrow> parse_params (dc_command_exec dec) params meth (\<lambda>p.
       mapG PJson (runtimeG (command_exec_payload env p))))"

subsection \<open>A connection\<close>

definition send_frame :: "'w gateway_env \<Rightarrow> server_frame \<Rightarrow> 'w gateway_state \<Rightarrow> (string + unit) \<times> 'w gateway_state" where
  "send_frame env fr s = (case gv_send env fr (gt_world s) of
     (True, w) \<Rightarrow> (Inr (), observe (ObsFrame fr) (set_world w s))
   | (False, w) \<Rightarrow> (Inl ''connection closed or writer queue full'', set_world w s))"

definition error_frame :: "string \<Rightarrow> string \<Rightarrow> string \<Rightarrow> server_frame" where
  "error_frame fid c message = ResErr fid \<lparr>ge_code = c, ge_message = message\<rparr>"

text \<open>\<^verbatim>\<open>let _ = send_error(..); let _ = writer_tx.try_send(Message::Close(None))\<close>\<close>

definition reject :: "'w gateway_env \<Rightarrow> server_frame \<Rightarrow> 'w gateway_state \<Rightarrow> 'w gateway_state" where
  "reject env fr s = snd (send_frame env CloseFrame (snd (send_frame env fr s)))"

datatype socket_event = SockText string | SockOther | SockClose | SockError string

datatype first_message = FirstTimeout | FirstEvent socket_event | FirstEnd

definition answer_request :: "'w gateway_env \<Rightarrow> string \<Rightarrow> string \<Rightarrow> json \<Rightarrow> 'w gateway_state \<Rightarrow>
    (string + unit) \<times> 'w gateway_state" where
  "answer_request env fid meth params s =
     (if meth = ''connect'' then
        send_frame env (error_frame fid ''invalid_request'' ''connect can only be sent once per socket'') s
      else if \<not> is_supported_method meth then send_frame env (ResErr fid (unknown_method meth)) s
      else case handle_request env meth params (observe (ObsHandled fid meth params) s) of
        (Inr payload, s') \<Rightarrow> send_frame env (ResOk fid payload) s'
      | (Inl err, s') \<Rightarrow> send_frame env (ResErr fid err) s')"

fun serve :: "'w gateway_env \<Rightarrow> socket_event list \<Rightarrow> 'w gateway_state \<Rightarrow> (string + unit) \<times> 'w gateway_state" where
  "serve env [] s = (Inr (), s)"
| "serve env (SockClose # evs) s = (Inr (), s)"
| "serve env (SockOther # evs) s = serve env evs s"
| "serve env (SockError err # evs) s = (Inl (''socket read failed: '' @ err), s)"
| "serve env (SockText txt # evs) s = (case dc_frame (gv_decode env) txt of
     Inl err \<Rightarrow> (Inr (), reject env (error_frame [] ''invalid_request'' (''invalid frame: '' @ err)) s)
   | Inr (fid, meth, params) \<Rightarrow>
       (case answer_request env fid meth params s of
          (Inl err, s') \<Rightarrow> (Inl err, s')
        | (Inr _, s') \<Rightarrow> serve env evs s'))"

definition clockG :: "'w gateway_env \<Rightarrow> 'w gateway_state \<Rightarrow> nat \<times> 'w gateway_state" where
  "clockG env s = (case gv_now env (gt_world s) of (now, w) \<Rightarrow> (now, set_world w s))"

text \<open>From the connect request on: the parameters, the token, the greeting, then the requests.\<close>

definition connect_request :: "'w gateway_env \<Rightarrow> gateway_config \<Rightarrow> ip_addr \<Rightarrow> string \<Rightarrow> json \<Rightarrow> socket_event list \<Rightarrow>
    'w gateway_state \<Rightarrow> (string + unit) \<times> 'w gateway_state" where
  "connect_request env cfg ip fid params evs s = (case dc_connect (gv_decode env) params of
     Inl err \<Rightarrow> (Inr (), reject env (error_frame fid ''invalid_input'' (''invalid params for connect: '' @ err)) s)
   | Inr token \<Rightarrow> (case clockG env (observe (ObsTokenCheck ip) s) of (now, s1) \<Rightarrow>
       (case authenticate (gc_security cfg) (gc_auth_token cfg) now ip token (gt_auth_failures s1) of
          (Inl err, t) \<Rightarrow> (Inr (), reject env (ResErr fid err) (s1\<lparr>gt_auth_failures := t\<rparr>))
        | (Inr _, t) \<Rightarrow> (let s2 = s1\<lparr>gt_auth_failures := t\<rparr> in
            case send_frame env (ResOk fid (PJson (gv_connected env (gt_world s2)))) s2 of
              (Inl err, s3) \<Rightarrow> (Inl err, s3)
            | (Inr _, s3) \<Rightarrow> serve env evs s3))))"

definition handle_connection :: "'w gateway_env \<Rightarrow> gateway_config \<Rightarrow> ip_addr \<Rightarrow> first_message \<Rightarrow> socket_event list \<Rightarrow>
    'w gateway_state \<Rightarrow> (string + unit) \<times> 'w gateway_state" where
  "handle_connection env cfg ip first evs s = (case clockG env s of (now, s1) \<Rightarrow>
     (case backoff_remaining_ms now ip (gt_auth_failures s1) of (remaining, t) \<Rightarrow>
       (let s2 = s1\<lparr>gt_auth_failures := t\<rparr> in
        case remaining of
          Some ms \<Rightarrow> (Inr (), reject env (error_frame [] ''unauthorized''
            (''auth backoff active; retry after '' @ show_nat ms @ ''ms'')) s2)
        | None \<Rightarrow> (case first of
            FirstTimeout \<Rightarrow> (Inr (), reject env (error_frame [] ''timeout'' ''connect handshake timed out'') s2)
          | FirstEnd \<Rightarrow> (Inr (), s2)
          | FirstEvent (SockError err) \<Rightarrow> (Inl (''receive failed: '' @ err), s2)
          | FirstEvent (SockText txt) \<Rightarrow> (case dc_frame (gv_decode env) txt of
              Inl err \<Rightarrow> (Inr (), reject env (error_frame [] ''invalid_request'' (''invalid frame: '' @ err)) s2)
            | Inr (fid, meth, params) \<Rightarrow>
                if meth \<noteq> ''connect'' then
                  (Inr (), reject env (error_frame fid ''handshake_required'' ''first method must be connect'') s2)
                else connect_request env cfg ip fid params evs s2)
          | FirstEvent _ \<Rightarrow> (Inr (), reject env (error_frame [] ''handshake_required''
              ''first frame must be a connect request'') s2)))))"

subsection \<open>The allowlist and the dispatcher agree\<close>

text \<open>
  The methods the gateway advertises and lets through are exactly those its dispatcher has
  a handler for, and \<open>connect\<close>, which only the handshake answers.
\<close>

theorem supported_methods_dispatched:
  "is_supported_method m \<longleftrightarrow> m = ''connect'' \<or> (\<exists>h. method_of_name m = Some h)"
  by (auto simp: is_supported_method_def GATEWAY_METHODS_V1_def method_of_name_def report_methods_def)

text \<open>
  What a user types after a slash command on a channel never has an effect on the gateway's
  commands: \<open>/session <id>\<close> lists the sessions instead of switching to one and \<open>/new <name>\<close> creates the
  session of the channel, because the channel passes the text as a JSON string, of which \<open>session_id\<close> is no member.
\<close>

theorem channel_arguments_ignored:
  "command_exec_payload env (slash_params \<lparr>qs_command_name = name, qs_args = JStr args, qs_session_id = sid\<rparr>) =
   command_exec_payload env (slash_params \<lparr>qs_command_name = name, qs_args = JNull, qs_session_id = sid\<rparr>)"
  by (simp add: command_exec_payload_def Let_def slash_params_def command_name_def requested_session_def json_str_field_def
      json_field_def)

subsection \<open>Requests touch neither the tracker nor the trace\<close>

lemma set_world_simps [simp]:
  "gt_trace (set_world w s) = gt_trace s"
  "gt_idempotency (set_world w s) = gt_idempotency s"
  "gt_auth_failures (set_world w s) = gt_auth_failures s"
  by (simp_all add: set_world_def)

lemma observe_simps [simp]:
  "gt_trace (observe ev s) = gt_trace s @ [ev]"
  "gt_idempotency (observe ev s) = gt_idempotency s"
  "gt_auth_failures (observe ev s) = gt_auth_failures s"
  "gt_channels (observe ev s) = gt_channels s"
  by (simp_all add: observe_def)

definition guard_state :: "'w gateway_state \<Rightarrow> gateway_obs list \<times> auth_failure_tracker \<times> idempotency_cache" where
  "guard_state s = (gt_trace s, gt_auth_failures s, gt_idempotency s)"

lemma guard_basic:
  "guard_state (snd (runtimeG op s)) = guard_state s"
  "guard_state (snd (engineG op' s)) = guard_state s"
  "snd (mapG f m s) = snd (m s)"
  by (auto simp: guard_state_def runtimeG_def engineG_def mapG_def set_world_def split: prod.splits sum.splits)

definition submits :: "'w gateway_env \<Rightarrow> string \<Rightarrow> json \<Rightarrow> agent_params option" where
  "submits env meth params = (if method_of_name meth = Some MSubmit then
     (case dc_agent (gv_decode env) params of Inl e \<Rightarrow> None | Inr p \<Rightarrow> Some p) else None)"

lemma handle_request_submits:
  "submits env meth params = Some p \<Longrightarrow> handle_request env meth params = submit_agent env p"
  by (auto simp: submits_def handle_request_def parse_params_def Let_def split: if_splits sum.splits)

lemma guard_parse:
  "(\<And>p. guard_state (snd (k p s)) = guard_state s) \<Longrightarrow> guard_state (snd (parse_params dec params meth k s)) = guard_state s"
  by (auto simp: parse_params_def split: sum.splits)

lemma guard_health:
  "guard_state (snd (case gv_health env g of (j, w) \<Rightarrow> (Inr (PJson j), set_world w s))) = guard_state s"
  by (simp add: guard_state_def split: prod.splits)

lemma handle_request_other:
  assumes "submits env meth params = None"
  shows "guard_state (snd (handle_request env meth params s)) = guard_state s"
proof (cases "method_of_name meth")
  case None
  then show ?thesis by (simp add: handle_request_def Let_def)
next
  case (Some h)
  show ?thesis
  proof (cases "h = MSubmit")
    case True
    then show ?thesis using assms Some
      by (auto simp: handle_request_def Let_def submits_def parse_params_def split: sum.splits)
  next
    case False
    then show ?thesis using Some
      by (cases h) (auto simp: handle_request_def Let_def guard_basic guard_health intro!: guard_parse)
  qed
qed

lemma submit_agent_guard:
  "submit_agent env p s = (r, s') \<Longrightarrow> gt_trace s' = gt_trace s \<and> gt_auth_failures s' = gt_auth_failures s \<and>
     (gt_idempotency s' = gt_idempotency s \<or>
      (\<exists>v. ic_map (gt_idempotency s) (trim (ap_request_id p)) = None \<and>
        gt_idempotency s' = cache_insert (trim (ap_request_id p)) v (gt_idempotency s)))"
  using guard_basic(1) [of "gv_submit env (agent_request p)" s]
  by (auto simp: submit_agent_def Let_def cache_get_def guard_state_def split: if_splits option.splits prod.splits sum.splits)

lemma handle_request_guard:
  assumes "handle_request env meth params s = (r, s')"
  shows "gt_trace s' = gt_trace s \<and> gt_auth_failures s' = gt_auth_failures s \<and>
    (gt_idempotency s' = gt_idempotency s \<or>
     (\<exists>k v. ic_map (gt_idempotency s) k = None \<and> gt_idempotency s' = cache_insert k v (gt_idempotency s)))"
proof (cases "submits env meth params")
  case None
  then show ?thesis using handle_request_other [OF None, of s] assms by (simp add: guard_state_def)
next
  case (Some p)
  then show ?thesis using submit_agent_guard [of env p s r s'] handle_request_submits [OF Some] assms by fastforce
qed

subsection \<open>A repeated submission is answered from the cache\<close>

fun run_requests :: "'w gateway_env \<Rightarrow> (string \<times> json) list \<Rightarrow> 'w gateway_state \<Rightarrow> 'w gateway_state" where
  "run_requests env [] s = s"
| "run_requests env ((meth, params) # rs) s = run_requests env rs (snd (handle_request env meth params s))"

lemma request_cache_ok:
  "cache_ok n (gt_idempotency s) \<Longrightarrow> cache_ok n (gt_idempotency (snd (handle_request env meth params s)))"
  using handle_request_guard [of env meth params s] by (metis cache_ok_insert prod.collapse)

lemma requests_cache_ok: "cache_ok n (gt_idempotency s) \<Longrightarrow> cache_ok n (gt_idempotency (run_requests env rs s))"
  by (induction env rs s rule: run_requests.induct) (auto intro: request_cache_ok)

lemma cache_insert_other:
  "k \<noteq> k' \<Longrightarrow> ic_map (cache_insert k' v' c) k = ic_map c k \<or> ic_map (cache_insert k' v' c) k = None"
  by (auto simp: cache_insert_def Let_def)

definition remembered :: "nat \<Rightarrow> string \<Rightarrow> cached_agent_acceptance \<Rightarrow> nat \<Rightarrow> idempotency_cache \<Rightarrow> bool" where
  "remembered n k v m c \<longleftrightarrow> cache_ok n c \<and> ic_map c k = Some v \<and> age k (ic_order c) \<le> m"

lemma remembered_insert:
  assumes "remembered n k v m c" "ic_map c k' = None" "Suc m < n"
  shows "remembered n k v (Suc m) (cache_insert k' v' c)"
proof -
  have c: "cache_ok n c" "ic_map c k = Some v" "age k (ic_order c) \<le> m" "k \<in> set (ic_order c)" "k \<noteq> k'"
    using assms(1,2) by (auto simp: remembered_def cache_ok_def)
  have "k \<in> set (ic_order (cache_insert k' v' c)) \<and> age k (ic_order (cache_insert k' v' c)) \<le> Suc (age k (ic_order c))"
    using idempotency.put_retain [of n c k "(k', v')"] c assms(3) by (simp add: put_acceptance_def)
  moreover have ok: "cache_ok n (cache_insert k' v' c)" using c(1) by (rule cache_ok_insert)
  moreover have "ic_map (cache_insert k' v' c) k \<noteq> None" using calculation by (auto simp: cache_ok_def)
  ultimately show ?thesis using cache_insert_other [OF c(5), of v' c] c by (auto simp: remembered_def)
qed

lemma remembered_request:
  assumes "remembered n k v m (gt_idempotency s)" "Suc m < n"
  shows "remembered n k v (Suc m) (gt_idempotency (snd (handle_request env meth params s)))"
proof -
  have "remembered n k v (Suc m) (gt_idempotency s)" using assms(1) by (simp add: remembered_def)
  then show ?thesis
    using handle_request_guard [of env meth params s] remembered_insert [OF assms(1) _ assms(2)]
    by (metis prod.collapse)
qed

lemma remembered_requests:
  "remembered n k v m (gt_idempotency s) \<Longrightarrow> m + length rs < n \<Longrightarrow>
     remembered n k v (m + length rs) (gt_idempotency (run_requests env rs s))"
proof (induction env rs s arbitrary: m rule: run_requests.induct)
  case (2 env meth params rs s)
  then show ?case using 2(1) [OF remembered_request [OF 2(2)]] by simp
qed simp

lemma submit_remembers:
  assumes "cache_ok n (gt_idempotency s)" "0 < n" "submit_agent env p s = (Inr (PAccepted run ms False pf), s')"
  shows "remembered n (trim (ap_request_id p)) \<lparr>ca_run_id = run, ca_accepted_at_ms = ms, ca_cli_plugin_preflight = pf\<rparr>
    0 (gt_idempotency s') \<and> trim (ap_request_id p) \<noteq> []"
proof -
  let ?k = "trim (ap_request_id p)" and ?v = "\<lparr>ca_run_id = run, ca_accepted_at_ms = ms, ca_cli_plugin_preflight = pf\<rparr>"
  have k: "?k \<noteq> []" "ic_map (gt_idempotency s) ?k = None" "gt_idempotency s' = cache_insert ?k ?v (gt_idempotency s)"
    using assms(3) guard_basic(1) [of "gv_submit env (agent_request p)" s]
    by (auto simp: submit_agent_def Let_def cache_get_def guard_state_def cached_reply_def acceptance_of_def
        split: if_splits option.splits prod.splits sum.splits)
  have "ic_map (cache_insert ?k ?v (gt_idempotency s)) ?k = Some ?v"
    using k(2) by (simp add: cache_insert_def Let_def)
  moreover have "age ?k (ic_order (cache_insert ?k ?v (gt_idempotency s))) = 0"
    using idempotency.put_fresh [OF assms(1,2), of "(?k, ?v)"] k(2)
      fifo_put_fresh [OF assms(2), of ?k "ic_order (gt_idempotency s)"]
    by (simp add: put_acceptance_def)
  ultimately show ?thesis using k cache_ok_insert [OF assms(1)] by (simp add: remembered_def)
qed

text \<open>
  \<^bold>\<open>C19.\<close> A submission is idempotent. When a gateway has accepted a request id, a later submission with
  the same id, surrounding blanks aside, is answered with the same run, marked as deduplicated, and starts
  nothing, as long as fewer than 2,048 requests of any kind were handled in between, one at a time.
\<close>

theorem resubmission_deduped:
  assumes "gt_idempotency s0 = cache_new IDEMPOTENCY_CACHE_MAX_ENTRIES" "s = run_requests env rs0 s0"
    "submit_agent env p s = (Inr (PAccepted run ms False pf), s1)" "length rs < 2048" "s2 = run_requests env rs s1"
    "trim (ap_request_id q) = trim (ap_request_id p)"
  shows "submit_agent env q s2 = (Inr (PAccepted run ms True pf), s2)"
proof -
  have "cache_ok 2048 (gt_idempotency s)" using assms(1,2) by (simp add: requests_cache_ok gateway_consts)
  from submit_remembers [OF this _ assms(3)]
  have r: "remembered 2048 (trim (ap_request_id p))
      \<lparr>ca_run_id = run, ca_accepted_at_ms = ms, ca_cli_plugin_preflight = pf\<rparr> 0 (gt_idempotency s1)"
    and "trim (ap_request_id p) \<noteq> []" by simp_all
  moreover from remembered_requests [OF r, of rs env]
  have "ic_map (gt_idempotency s2) (trim (ap_request_id p)) =
      Some \<lparr>ca_run_id = run, ca_accepted_at_ms = ms, ca_cli_plugin_preflight = pf\<rparr>"
    using assms(4,5) by (simp add: remembered_def)
  ultimately show ?thesis using assms(6) by (simp add: submit_agent_def cache_get_def cached_reply_def)
qed

subsection \<open>Two submissions at once\<close>

text \<open>
  \<open>submit_agent\<close> by its awaits: the lock of the cache is released after the lookup and taken again for the
  insertion, so that another connection's submission can come in between.
\<close>

datatype submit_task =
    SubLookup agent_params
  | SubRun agent_params
  | SubInsert agent_params sdk_accepted_run
  | SubDone "gateway_error + gateway_payload"

fun submit_step :: "'w gateway_env \<Rightarrow> submit_task \<Rightarrow> 'w gateway_state \<Rightarrow> submit_task \<times> 'w gateway_state" where
  "submit_step env (SubLookup p) s = (let request_id = trim (ap_request_id p) in
     if request_id = [] then
       (SubDone (Inl \<lparr>ge_code = ''invalid_input'', ge_message = ''request_id must not be empty''\<rparr>), s)
     else case cache_get request_id (gt_idempotency s) of
       Some cached \<Rightarrow> (SubDone (Inr (cached_reply cached True)), s)
     | None \<Rightarrow> (SubRun p, s))"
| "submit_step env (SubRun p) s = (case runtimeG (gv_submit env (agent_request p)) s of
       (Inl err, s') \<Rightarrow> (SubDone (Inl err), s')
     | (Inr accepted, s') \<Rightarrow> (SubInsert p accepted, s'))"
| "submit_step env (SubInsert p accepted) s = (SubDone (Inr (cached_reply (acceptance_of accepted) False)),
     s\<lparr>gt_idempotency := cache_insert (trim (ap_request_id p)) (acceptance_of accepted) (gt_idempotency s)\<rparr>)"
| "submit_step env (SubDone r) s = (SubDone r, s)"

text \<open>Alone, the three steps are \<open>submit_agent\<close>.\<close>

lemma submit_steps_alone:
  "(case submit_step env (SubLookup p) s of (a, s1) \<Rightarrow> case submit_step env a s1 of (b, s2) \<Rightarrow> submit_step env b s2) =
   (case submit_agent env p s of (r, s') \<Rightarrow> (SubDone r, s'))"
  by (auto simp: submit_agent_def Let_def split: option.splits prod.splits sum.splits)

text \<open>Two tasks under a schedule: \<open>True\<close> lets the first one step.\<close>

fun two_submits :: "'w gateway_env \<Rightarrow> bool list \<Rightarrow> submit_task \<times> submit_task \<Rightarrow> 'w gateway_state \<Rightarrow>
    (submit_task \<times> submit_task) \<times> 'w gateway_state" where
  "two_submits env [] ts s = (ts, s)"
| "two_submits env (b # bs) (t1, t2) s =
     (if b then (case submit_step env t1 s of (t1', s') \<Rightarrow> two_submits env bs (t1', t2) s')
      else (case submit_step env t2 s of (t2', s') \<Rightarrow> two_submits env bs (t1, t2') s'))"

text \<open>
  Two submissions with the same new request id that arrive on two connections at once can both
  start a run: each looks its id up before the other has inserted it, and both are answered as not deduplicated.
\<close>

theorem concurrent_double_submit:
  assumes "trim (ap_request_id p) \<noteq> []" "trim (ap_request_id q) = trim (ap_request_id p)"
    "cache_get (trim (ap_request_id p)) (gt_idempotency s) = None"
    "gv_submit env (agent_request p) (gt_world s) = (Inr a, w)" "gv_submit env (agent_request q) w = (Inr b, w')"
  shows "fst (two_submits env [True, False, True, False, True, False] (SubLookup p, SubLookup q) s) =
    (SubDone (Inr (cached_reply (acceptance_of a) False)), SubDone (Inr (cached_reply (acceptance_of b) False)))"
  using assms by (simp add: runtimeG_def Let_def set_world_def)

subsection \<open>Guesses at once\<close>

text \<open>
  Connections of one peer, all with the same wrong token, under the semaphore of \<open>max_connections\<close>: the
  number of admitted connections whose token is yet to be compared, and of comparisons made.
\<close>

inductive guess_step :: "gateway_security_config \<Rightarrow> string option \<Rightarrow> nat \<Rightarrow> ip_addr \<Rightarrow> string option \<Rightarrow>
    auth_failure_tracker \<times> nat \<times> nat \<Rightarrow> auth_failure_tracker \<times> nat \<times> nat \<Rightarrow> bool"
  for security required now ip token where
  open_connection: "a < max_connections security \<Longrightarrow> backoff_remaining_ms now ip t = (None, t') \<Longrightarrow>
    guess_step security required now ip token (t, a, c) (t', Suc a, c)"
| compare_token: "authenticate security required now ip token t = (r, t') \<Longrightarrow>
    guess_step security required now ip token (t, Suc a, c) (t', a, Suc c)"

lemma open_many:
  "n \<le> max_connections security \<Longrightarrow> at_map t ip = None \<Longrightarrow>
     (guess_step security required now ip token)\<^sup>*\<^sup>* (t, 0, 0) (t, n, 0)"
proof (induction n)
  case (Suc n)
  then have "(guess_step security required now ip token)\<^sup>*\<^sup>* (t, 0, 0) (t, n, 0)" by simp
  moreover have "guess_step security required now ip token (t, n, 0) (t, Suc n, 0)"
    using Suc.prems by (intro open_connection) (auto simp: backoff_remaining_ms_def)
  ultimately show ?case by (rule rtranclp.rtrancl_into_rtrancl)
qed simp

lemma compare_many:
  "\<exists>t'. (guess_step security required now ip token)\<^sup>*\<^sup>* (t, n, c) (t', 0, c + n)"
proof (induction n arbitrary: t c)
  case (Suc n)
  have "guess_step security required now ip token (t, Suc n, c) (snd (authenticate security required now ip token t), n, Suc c)"
    by (intro compare_token) (rule surjective_pairing)
  moreover obtain t' where "(guess_step security required now ip token)\<^sup>*\<^sup>*
      (snd (authenticate security required now ip token t), n, Suc c) (t', 0, Suc c + n)"
    using Suc.IH by blast
  ultimately show ?case by (auto intro: converse_rtranclp_into_rtranclp)
qed auto

text \<open>
  The backoff does not limit guesses made at once: a peer can have the token compared
  \<open>max_connections\<close> times at the same instant, whatever the threshold, since the backoff is only looked at when
  a connection opens.
\<close>

theorem parallel_guesses_unlimited:
  "\<exists>t. (guess_step security required now ip token)\<^sup>*\<^sup>* (tracker_new AUTH_FAILURE_MAX_ENTRIES, 0, 0)
     (t, 0, max_connections security)"
proof -
  have "(guess_step security required now ip token)\<^sup>*\<^sup>* (tracker_new AUTH_FAILURE_MAX_ENTRIES, 0, 0)
      (tracker_new AUTH_FAILURE_MAX_ENTRIES, max_connections security, 0)"
    by (rule open_many) (simp_all add: tracker_new_def)
  then show ?thesis
    using compare_many [of security required now ip token "tracker_new AUTH_FAILURE_MAX_ENTRIES" "max_connections security" 0]
    by (auto intro: rtranclp_trans)
qed

subsection \<open>What a connection does\<close>

text \<open>\<open>appends P m\<close>-style facts: sending only adds frames to the trace.\<close>

lemma send_frame_trace:
  "send_frame env f s = (r, s') \<Longrightarrow> (\<exists>tr. gt_trace s' = gt_trace s @ tr \<and> tr = (if r = Inr () then [ObsFrame f] else [])) \<and>
     gt_auth_failures s' = gt_auth_failures s \<and> gt_idempotency s' = gt_idempotency s"
  by (auto simp: send_frame_def split: prod.splits bool.splits)

fun is_frame :: "gateway_obs \<Rightarrow> bool" where
  "is_frame (ObsFrame f) = True"
| "is_frame ev = False"

lemma reject_trace:
  obtains tr where "gt_trace (reject env f s) = gt_trace s @ tr" "list_all is_frame tr"
    "tr \<in> {[], [ObsFrame f], [ObsFrame CloseFrame], [ObsFrame f, ObsFrame CloseFrame]}"
proof -
  obtain r s1 where a: "send_frame env f s = (r, s1)" by fastforce
  obtain r' s2 where b: "send_frame env CloseFrame s1 = (r', s2)" by fastforce
  show ?thesis
    using send_frame_trace [OF a] send_frame_trace [OF b] a b
      that [of "(if r = Inr () then [ObsFrame f] else []) @ (if r' = Inr () then [ObsFrame CloseFrame] else [])"]
    by (simp add: reject_def split: if_splits)
qed

definition handled :: "gateway_obs list \<Rightarrow> gateway_obs list" where
  "handled tr = filter (\<lambda>ev. case ev of ObsHandled fid m ps \<Rightarrow> True | _ \<Rightarrow> False) tr"

lemma handled_frames: "list_all is_frame tr \<Longrightarrow> handled tr = []"
  by (auto simp: handled_def filter_empty_conv list_all_iff split: gateway_obs.splits)

lemma handled_append [simp]: "handled (xs @ ys) = handled xs @ handled ys"
  by (simp add: handled_def)

text \<open>
  \<^bold>\<open>C16.\<close> A connection that handles a request has logged in before: its peer was not in backoff when
  it opened, its first message was a connect request, and the token of that request is the configured one.
\<close>

theorem requests_need_login:
  assumes "handle_connection env cfg ip first evs s = (r, s')" "handled (gt_trace s') \<noteq> handled (gt_trace s)"
  shows "fst (backoff_remaining_ms (fst (clockG env s)) ip (gt_auth_failures s)) = None \<and>
    (\<exists>txt fid params token. first = FirstEvent (SockText txt) \<and>
       dc_frame (gv_decode env) txt = Inr (fid, ''connect'', params) \<and>
       dc_connect (gv_decode env) params = Inr token \<and> verify_auth_token (gc_auth_token cfg) token = Inr ())"
proof -
  have rej: "handled (gt_trace (reject env f u)) = handled (gt_trace u)" for f u
    using reject_trace [of env f u] handled_frames by (metis append_Nil2 handled_append)
  have clock: "gt_trace (snd (clockG env u)) = gt_trace u" "gt_auth_failures (snd (clockG env u)) = gt_auth_failures u" for u
    by (simp_all add: clockG_def split: prod.splits)
  obtain now s1 where c: "clockG env s = (now, s1)" by fastforce
  obtain rem t where b: "backoff_remaining_ms now ip (gt_auth_failures s1) = (rem, t)" by fastforce
  let ?s2 = "s1\<lparr>gt_auth_failures := t\<rparr>"
  have s2: "handled (gt_trace ?s2) = handled (gt_trace s)" "gt_auth_failures s1 = gt_auth_failures s" using clock [of s] c by simp_all
  have none: "rem = None" using assms c b s2 rej by (auto simp: handle_connection_def Let_def split: option.splits)
  then obtain raw fid params where f: "first = FirstEvent (SockText raw)"
    "dc_frame (gv_decode env) raw = Inr (fid, ''connect'', params)"
    and h: "connect_request env cfg ip fid params evs ?s2 = (r, s')"
    using assms c b s2 rej
    by (auto simp: handle_connection_def Let_def split: first_message.splits socket_event.splits sum.splits if_splits prod.splits)
  obtain now' s3 where c': "clockG env (observe (ObsTokenCheck ip) ?s2) = (now', s3)" by fastforce
  have s3: "handled (gt_trace s3) = handled (gt_trace s)"
    using clock(1) [of "observe (ObsTokenCheck ip) ?s2"] c' s2 by (simp add: handled_def)
  have "\<exists>token. dc_connect (gv_decode env) params = Inr token \<and> verify_auth_token (gc_auth_token cfg) token = Inr ()"
    using h assms(2) s2 s3 c' rej by (auto simp: connect_request_def authenticate_def Let_def split: sum.splits)
  then show ?thesis using none b c s2(2) f by auto
qed

definition token_checks :: "gateway_obs list \<Rightarrow> gateway_obs list" where
  "token_checks tr = filter (\<lambda>ev. case ev of ObsTokenCheck ip \<Rightarrow> True | _ \<Rightarrow> False) tr"

lemma token_checks_append [simp]: "token_checks (xs @ ys) = token_checks xs @ token_checks ys"
  by (simp add: token_checks_def)

lemma token_checks_frames: "list_all is_frame tr \<Longrightarrow> token_checks tr = []"
  by (auto simp: token_checks_def filter_empty_conv list_all_iff split: gateway_obs.splits)

lemma send_frame_checks: "send_frame env f s = (r, s') \<Longrightarrow> token_checks (gt_trace s') = token_checks (gt_trace s)"
  by (auto dest: send_frame_trace simp: token_checks_def)

lemma reject_checks: "token_checks (gt_trace (reject env f s)) = token_checks (gt_trace s)"
  unfolding reject_def by (metis prod.collapse send_frame_checks)

lemma send_frame_failures: "send_frame env f s = (r, s') \<Longrightarrow> gt_auth_failures s' = gt_auth_failures s"
  by (auto dest: send_frame_trace)

lemma reject_failures: "gt_auth_failures (reject env f s) = gt_auth_failures s"
  unfolding reject_def by (metis prod.collapse send_frame_failures)

lemma answer_request_login:
  assumes "answer_request env fid meth params s = (r, s')"
  shows "token_checks (gt_trace s') = token_checks (gt_trace s) \<and> gt_auth_failures s' = gt_auth_failures s"
proof -
  obtain x s1 where h: "handle_request env meth params (observe (ObsHandled fid meth params) s) = (x, s1)" by fastforce
  have "token_checks (gt_trace s1) = token_checks (gt_trace s) \<and> gt_auth_failures s1 = gt_auth_failures s"
    using handle_request_guard [OF h] by (simp add: token_checks_def)
  then show ?thesis using assms h
    by (auto simp: answer_request_def split: if_splits sum.splits dest: send_frame_checks send_frame_failures)
qed

lemma serve_login:
  "serve env evs s = (r, s') \<Longrightarrow> token_checks (gt_trace s') = token_checks (gt_trace s) \<and> gt_auth_failures s' = gt_auth_failures s"
proof (induction env evs s arbitrary: r s' rule: serve.induct)
  case (5 env raw evs s)
  show ?case
  proof (cases "dc_frame (gv_decode env) raw")
    case (Inl err)
    then show ?thesis using 5(2) by (auto simp: reject_checks reject_failures)
  next
    case (Inr q)
    obtain fid meth params where q: "q = (fid, meth, params)" by (cases q)
    obtain x u where a: "answer_request env fid meth params s = (x, u)" by fastforce
    show ?thesis
    proof (cases x)
      case (Inl err)
      then show ?thesis using 5(2) Inr q a answer_request_login [OF a] by simp
    next
      case (Inr y)
      then have "serve env evs u = (r, s')" using 5(2) \<open>dc_frame (gv_decode env) raw = Inr q\<close> q a by simp
      moreover have "\<And>r s'. serve env evs u = (r, s') \<Longrightarrow>
          token_checks (gt_trace s') = token_checks (gt_trace u) \<and> gt_auth_failures s' = gt_auth_failures u"
        using 5(1) [OF \<open>dc_frame (gv_decode env) raw = Inr q\<close> q [symmetric] refl a [symmetric] Inr] by blast
      ultimately show ?thesis using answer_request_login [OF a] by simp
    qed
  qed
qed auto

lemma greeted:
  assumes "send_frame env f s = (x, u)" "serve env evs u = (r, s')"
  shows "token_checks (gt_trace s') = token_checks (gt_trace s) \<and> gt_auth_failures s' = gt_auth_failures s"
  using send_frame_checks [OF assms(1)] send_frame_failures [OF assms(1)] serve_login [OF assms(2)] by simp

text \<open>
  \<^bold>\<open>C18.\<close> For the tracker of failed logins a connection is one login: if its token is compared, the
  tracker changes as \<open>login\<close> says, for the times at which the connection opened and its token was compared;
  otherwise only an expired backoff is reset. Nothing that happens later on the connection touches it.
\<close>

theorem connection_refines_login:
  assumes "handle_connection env cfg ip first evs s = (r, s')" "now = fst (clockG env s)"
  shows "(token_checks (gt_trace s') = token_checks (gt_trace s) \<and>
      gt_auth_failures s' = snd (backoff_remaining_ms now ip (gt_auth_failures s))) \<or>
    (\<exists>now' token. token_checks (gt_trace s') = token_checks (gt_trace s) @ [ObsTokenCheck ip] \<and>
      (let (res, t) = login (gc_security cfg) (gc_auth_token cfg)
         \<lparr>la_ip = ip, la_opened_ms = now, la_checked_ms = now', la_token = token\<rparr> (gt_auth_failures s) in
       token_checked res \<and> gt_auth_failures s' = t))"
proof -
  have clock: "gt_trace (snd (clockG env u)) = gt_trace u" "gt_auth_failures (snd (clockG env u)) = gt_auth_failures u" for u
    by (simp_all add: clockG_def split: prod.splits)
  obtain s1 where c: "clockG env s = (now, s1)" using assms(2) by (metis prod.collapse)
  obtain rem t where b: "backoff_remaining_ms now ip (gt_auth_failures s) = (rem, t)" by fastforce
  let ?s2 = "s1\<lparr>gt_auth_failures := t\<rparr>"
  have s1: "gt_trace s1 = gt_trace s" "gt_auth_failures s1 = gt_auth_failures s" using clock [of s] c by simp_all
  note step = assms(1) c b s1
  show ?thesis
  proof (cases "\<exists>fid params token. rem = None \<and> (\<exists>raw. first = FirstEvent (SockText raw) \<and>
      dc_frame (gv_decode env) raw = Inr (fid, ''connect'', params)) \<and> dc_connect (gv_decode env) params = Inr token")
    case False
    then show ?thesis using step
      by (intro disjI1) (auto simp: handle_connection_def connect_request_def Let_def reject_checks reject_failures
          split: option.splits first_message.splits socket_event.splits sum.splits if_splits prod.splits)
  next
    case True
    then obtain fid params token raw where f: "rem = None" "first = FirstEvent (SockText raw)"
      "dc_frame (gv_decode env) raw = Inr (fid, ''connect'', params)" "dc_connect (gv_decode env) params = Inr token" by blast
    then have h: "connect_request env cfg ip fid params evs ?s2 = (r, s')" using step by (simp add: handle_connection_def Let_def)
    obtain now' s3 where c': "clockG env (observe (ObsTokenCheck ip) ?s2) = (now', s3)" by fastforce
    have s3: "gt_auth_failures s3 = t" "token_checks (gt_trace s3) = token_checks (gt_trace s) @ [ObsTokenCheck ip]"
      using clock [of "observe (ObsTokenCheck ip) ?s2"] c' s1 by (simp_all add: token_checks_def)
    obtain res t' where a: "authenticate (gc_security cfg) (gc_auth_token cfg) now' ip token t = (res, t')" by fastforce
    have "token_checks (gt_trace s') = token_checks (gt_trace s) @ [ObsTokenCheck ip] \<and> gt_auth_failures s' = t'"
      using h f(4) c' s3 a
      by (auto simp: connect_request_def Let_def reject_failures reject_checks split: sum.splits prod.splits
          dest: send_frame_checks send_frame_failures greeted)
    moreover have "login (gc_security cfg) (gc_auth_token cfg)
         \<lparr>la_ip = ip, la_opened_ms = now, la_checked_ms = now', la_token = token\<rparr> (gt_auth_failures s) =
       ((case res of Inl e \<Rightarrow> Denied e | Inr _ \<Rightarrow> Admitted), t')"
      using b f(1) a by (simp add: login_def split: sum.splits)
    ultimately show ?thesis
      by (intro disjI2 exI [of _ now'] exI [of _ token]) (auto split: sum.splits)
  qed
qed

subsection \<open>Every request is answered, in order\<close>

definition response_id :: "gateway_obs \<Rightarrow> string option" where
  "response_id ev = (case ev of ObsFrame (ResOk fid p) \<Rightarrow> Some fid | ObsFrame (ResErr fid e) \<Rightarrow> Some fid | _ \<Rightarrow> None)"

definition response_ids :: "gateway_obs list \<Rightarrow> string list" where
  "response_ids tr = List.map_filter response_id tr"

lemma response_ids_append [simp]: "response_ids (xs @ ys) = response_ids xs @ response_ids ys"
  by (simp add: response_ids_def map_filter_def)

lemma response_ids_simps [simp]:
  "response_ids [] = []"
  "response_ids [ObsFrame (ResOk fid p)] = [fid]"
  "response_ids [ObsFrame (ResErr fid e)] = [fid]"
  "response_ids [ObsFrame CloseFrame] = []"
  "response_ids (ObsHandled fid m ps # tr) = response_ids tr"
  by (simp_all add: response_ids_def map_filter_def response_id_def)

text \<open>The ids of the requests a connection receives before it is closed or sends a malformed frame.\<close>

fun request_ids :: "gateway_decoders \<Rightarrow> socket_event list \<Rightarrow> string list" where
  "request_ids dec (SockText txt # evs) = (case dc_frame dec txt of
     Inl err \<Rightarrow> [] | Inr (fid, meth, params) \<Rightarrow> fid # request_ids dec evs)"
| "request_ids dec (SockOther # evs) = request_ids dec evs"
| "request_ids dec evs = []"

lemma send_frame_response:
  "send_frame env f s = (Inr y, s') \<Longrightarrow> gt_trace s' = gt_trace s @ [ObsFrame f]"
  by (auto simp: send_frame_def split: prod.splits bool.splits)

lemma answer_request_response:
  assumes "answer_request env fid meth params s = (Inr y, s')"
  shows "response_ids (gt_trace s') = response_ids (gt_trace s) @ [fid]"
proof -
  obtain x s1 where h: "handle_request env meth params (observe (ObsHandled fid meth params) s) = (x, s1)" by fastforce
  have "gt_trace s1 = gt_trace s @ [ObsHandled fid meth params]" using handle_request_guard [OF h] by simp
  then show ?thesis using assms h
    by (auto simp: answer_request_def error_frame_def split: if_splits sum.splits dest!: send_frame_response)
qed

lemma reject_response:
  "\<exists>tail. response_ids (gt_trace (reject env (error_frame [] c m) s)) = response_ids (gt_trace s) @ tail \<and>
     tail \<in> {[], [[]]}"
proof -
  obtain tr where "gt_trace (reject env (error_frame [] c m) s) = gt_trace s @ tr"
    and "tr \<in> {[], [ObsFrame (error_frame [] c m)], [ObsFrame CloseFrame],
      [ObsFrame (error_frame [] c m), ObsFrame CloseFrame]}"
    using reject_trace [of env "error_frame [] c m" s] by metis
  moreover have "response_ids [ObsFrame (error_frame [] c m), ObsFrame CloseFrame] = [[]]"
    by (simp add: error_frame_def response_ids_def map_filter_def response_id_def)
  ultimately show ?thesis by (auto simp: error_frame_def)
qed

text \<open>
  A connection that ends without an I/O error has answered every request it received exactly
  once and in the order of arrival, by a frame with the id of the request; at most a final error without an
  id, for a malformed frame, comes after them.
\<close>

theorem responses_in_order:
  assumes "serve env evs s = (Inr (), s')"
  shows "\<exists>tail. response_ids (gt_trace s') = response_ids (gt_trace s) @ request_ids (gv_decode env) evs @ tail \<and>
    tail \<in> {[], [[]]}"
  using assms
proof (induction env evs s arbitrary: s' rule: serve.induct)
  case (5 env raw evs s)
  show ?case
  proof (cases "dc_frame (gv_decode env) raw")
    case (Inl err)
    then show ?thesis using 5(2) reject_response [of env "''invalid_request''" "''invalid frame: '' @ err" s] by auto
  next
    case (Inr q)
    obtain fid meth params where q: "q = (fid, meth, params)" by (cases q)
    obtain x u where a: "answer_request env fid meth params s = (x, u)" by fastforce
    with 5(2) Inr q obtain y where x: "x = Inr y" and v: "serve env evs u = (Inr (), s')" by (cases x) auto
    have "\<exists>tail. response_ids (gt_trace s') = response_ids (gt_trace u) @ request_ids (gv_decode env) evs @ tail \<and>
        tail \<in> {[], [[]]}"
      using 5(1) [OF Inr q [symmetric] refl a [symmetric] x v] .
    then show ?thesis using answer_request_response [OF a [unfolded x]] Inr q by simp
  qed
qed auto

subsection \<open>Witnesses\<close>

text \<open>
  A gateway over a world that counts: every reading of the clock and every submission advances it, a frame
  is the name of its method, and a submission is its request id as a string.
\<close>

definition demo_decoders :: gateway_decoders where
  "demo_decoders = \<lparr>
     dc_frame = (\<lambda>t. if t = ''{'' then Inl ''EOF'' else Inr (''1'', t, JStr ''req-7'')),
     dc_connect = (\<lambda>j. Inr (Some ''secret'')),
     dc_agent = (\<lambda>j. case j of JStr r \<Rightarrow> Inr \<lparr>ap_request_id = r, ap_prompt = ''hi'', ap_session_id = None,
       ap_workspace_dir = None, ap_timeout_ms = None, ap_system_prompt = None, ap_memory_query = None,
       ap_run_id = None\<rparr> | _ \<Rightarrow> Inl ''missing field'' ),
     dc_run_wait = (\<lambda>j. Inl []), dc_run_state = (\<lambda>j. Inl []), dc_ingress = (\<lambda>k j. Inl []),
     dc_pair_approve = (\<lambda>j. Inl []), dc_route_inspect = (\<lambda>j. Inl []), dc_report = (\<lambda>m j. Inr j),
     dc_command_exec = (\<lambda>j. Inl [])\<rparr>"

definition demo_gateway_env :: "nat gateway_env" where
  "demo_gateway_env = \<lparr>gv_channel_env = demo_metrics_env,
     gv_submit = (\<lambda>r w. (Inr \<lparr>sa_run_id = ''run-'' @ replicate w (CHR ''i''), sa_accepted_at_ms = w,
       sa_cli_plugin_preflight = None\<rparr>, w + 1)),
     gv_wait = (\<lambda>r t w. (Inl (NotFound r), w)), gv_run_state = (\<lambda>r w. (Inl (NotFound r), w)),
     gv_outcome = (\<lambda>r t w. (Inr OutcomeTimeout, w)), gv_upsert_session = (\<lambda>d w. (Inr (), w)),
     gv_clear_history = (\<lambda>d w. (Inr (), w)), gv_tool_definitions = [], gv_workspace_dir = ''/work'',
     gv_report = (\<lambda>m p w. (Inr JNull, w)), gv_health = (\<lambda>g. (JStr ''ok'', eg_world g)),
     gv_channel_status = (\<lambda>k g. JNull), gv_decode = demo_decoders, gv_connected = (\<lambda>w. JNull),
     gv_send = (\<lambda>f w. (True, w)), gv_now = (\<lambda>w. (w, w + 1000))\<rparr>"

definition demo_gateway :: "nat gateway_state" where
  "demo_gateway = \<lparr>gt_channels = \<lparr>eg_routing = [], eg_commands = build_command_registry,
       eg_adapters = (\<lambda>k. None), eg_world = 1\<rparr>,
     gt_idempotency = cache_new IDEMPOTENCY_CACHE_MAX_ENTRIES,
     gt_auth_failures = tracker_new AUTH_FAILURE_MAX_ENTRIES, gt_trace = []\<rparr>"

definition demo_agent :: "string \<Rightarrow> agent_params" where
  "demo_agent r = \<lparr>ap_request_id = r, ap_prompt = ''hi'', ap_session_id = None, ap_workspace_dir = None,
     ap_timeout_ms = None, ap_system_prompt = None, ap_memory_query = None, ap_run_id = None\<rparr>"

definition demo_server :: gateway_config where
  "demo_server = \<lparr>gc_auth_token = Some ''secret'', gc_security = default_security\<rparr>"

lemmas demo_gateway_defs = demo_gateway_def demo_gateway_env_def demo_decoders_def demo_agent_def demo_server_def

lemma demo_submit:
  "submit_agent demo_gateway_env (demo_agent ''a'') demo_gateway = (Inr (PAccepted ''run-i'' 1 False None),
     demo_gateway\<lparr>gt_channels := (gt_channels demo_gateway)\<lparr>eg_world := 2\<rparr>,
       gt_idempotency := cache_insert ''a'' \<lparr>ca_run_id = ''run-i'', ca_accepted_at_ms = 1, ca_cli_plugin_preflight = None\<rparr>
         (cache_new IDEMPOTENCY_CACHE_MAX_ENTRIES)\<rparr>)"
  by (simp add: demo_gateway_defs submit_agent_def Let_def str_eval cache_get_def cache_new_def runtimeG_def
      set_world_def cached_reply_def acceptance_of_def)

theorem resubmission_deduped_witness:
  "\<exists>s2. submit_agent demo_gateway_env (demo_agent '' a '') s2 = (Inr (PAccepted ''run-i'' 1 True None), s2)"
proof -
  have t: "trim (ap_request_id (demo_agent '' a '')) = trim (ap_request_id (demo_agent ''a''))"
    by (simp add: demo_agent_def str_eval)
  have i: "gt_idempotency demo_gateway = cache_new IDEMPOTENCY_CACHE_MAX_ENTRIES" by (simp add: demo_gateway_def)
  have l: "length [(''health'', JNull)] < (2048 :: nat)" by simp
  show ?thesis
    using resubmission_deduped [OF i run_requests.simps(1) [symmetric] demo_submit l refl t] by blast
qed

theorem concurrent_double_submit_witness:
  "fst (two_submits demo_gateway_env [True, False, True, False, True, False]
     (SubLookup (demo_agent ''a''), SubLookup (demo_agent ''a'')) demo_gateway) =
   (SubDone (Inr (PAccepted ''run-i'' 1 False None)), SubDone (Inr (PAccepted ''run-ii'' 2 False None)))"
proof -
  have "trim (ap_request_id (demo_agent ''a'')) = ''a''" by (simp add: demo_agent_def str_eval)
  moreover have "gv_submit demo_gateway_env (agent_request (demo_agent ''a'')) (gt_world demo_gateway) =
      (Inr \<lparr>sa_run_id = ''run-i'', sa_accepted_at_ms = 1, sa_cli_plugin_preflight = None\<rparr>, 2)"
    by (simp add: demo_gateway_defs)
  moreover have "gv_submit demo_gateway_env (agent_request (demo_agent ''a'')) 2 =
      (Inr \<lparr>sa_run_id = ''run-ii'', sa_accepted_at_ms = 2, sa_cli_plugin_preflight = None\<rparr>, 3)"
    by (simp add: demo_gateway_defs numeral_2_eq_2)
  ultimately show ?thesis
    using concurrent_double_submit [of "demo_agent ''a''" "demo_agent ''a''" demo_gateway demo_gateway_env]
    by (simp add: cached_reply_def acceptance_of_def cache_get_def demo_gateway_def cache_new_def)
qed

lemma demo_connection:
  "\<exists>r s'. handle_connection demo_gateway_env demo_server (IpV4 10 0 0 9) (FirstEvent (SockText ''connect''))
      [SockText ''health'', SockText ''{''] demo_gateway = (r, s') \<and> handled (gt_trace s') \<noteq> handled (gt_trace demo_gateway)"
  by (simp add: demo_gateway_defs handle_connection_def clockG_def set_world_def backoff_remaining_ms_def tracker_new_def
      connect_request_def authenticate_def verify_auth_token_def clear_failures_def send_frame_def observe_def Let_def
      answer_request_def is_supported_method_def GATEWAY_METHODS_V1_def handle_request_def method_of_name_def
      reject_def handled_def)

theorem requests_need_login_witness:
  "fst (backoff_remaining_ms (fst (clockG demo_gateway_env demo_gateway)) (IpV4 10 0 0 9) (gt_auth_failures demo_gateway)) = None"
  using demo_connection requests_need_login by blast

lemma demo_token_checked:
  "token_checks (gt_trace (snd (handle_connection demo_gateway_env demo_server (IpV4 10 0 0 9)
      (FirstEvent (SockText ''connect'')) [] demo_gateway))) = [ObsTokenCheck (IpV4 10 0 0 9)]"
  by (simp add: demo_gateway_defs handle_connection_def clockG_def set_world_def backoff_remaining_ms_def tracker_new_def
      connect_request_def authenticate_def verify_auth_token_def clear_failures_def send_frame_def observe_def Let_def
      token_checks_def)

theorem connection_refines_login_witness:
  "\<exists>now' token. let (res, t) = login default_security (Some ''secret'')
      \<lparr>la_ip = IpV4 10 0 0 9, la_opened_ms = 1, la_checked_ms = now', la_token = token\<rparr> (gt_auth_failures demo_gateway) in
     token_checked res \<and> gt_auth_failures (snd (handle_connection demo_gateway_env demo_server (IpV4 10 0 0 9)
       (FirstEvent (SockText ''connect'')) [] demo_gateway)) = t"
proof -
  have c: "fst (clockG demo_gateway_env demo_gateway) = 1" by (simp add: demo_gateway_defs clockG_def)
  have "token_checks (gt_trace demo_gateway) = []" by (simp add: demo_gateway_def token_checks_def)
  then show ?thesis
    using connection_refines_login [of demo_gateway_env demo_server "IpV4 10 0 0 9" "FirstEvent (SockText ''connect'')" "[]"
        demo_gateway, OF prod.collapse [symmetric] refl, unfolded c] demo_token_checked
    by (simp add: demo_server_def)
qed

lemma demo_serve:
  "serve demo_gateway_env [SockText ''health'', SockOther, SockText ''{''] demo_gateway = (Inr (),
     demo_gateway\<lparr>gt_trace := [ObsHandled ''1'' ''health'' (JStr ''req-7''), ObsFrame (ResOk ''1'' (PJson (JStr ''ok''))),
       ObsFrame (error_frame [] ''invalid_request'' ''invalid frame: EOF''), ObsFrame CloseFrame]\<rparr>)"
  by (simp add: demo_gateway_defs set_world_def send_frame_def observe_def Let_def
      answer_request_def is_supported_method_def GATEWAY_METHODS_V1_def handle_request_def method_of_name_def
      reject_def error_frame_def)

theorem responses_in_order_witness:
  "\<exists>tail. response_ids [ObsHandled ''1'' ''health'' (JStr ''req-7''), ObsFrame (ResOk ''1'' (PJson (JStr ''ok''))),
       ObsFrame (error_frame [] ''invalid_request'' ''invalid frame: EOF''), ObsFrame CloseFrame] = ''1'' # tail \<and>
     tail \<in> {[], [[]]}"
  using responses_in_order [OF demo_serve]
  by (simp add: demo_gateway_defs response_ids_def map_filter_def response_id_def)

end
