(* ===== verification/Plugin_Package.thy ===== *)
theory Plugin_Package
  imports Plugin_Sdk Model_Profile
begin

section \<open>Packages of installed plugins (kelvin-brain/src/installed_plugins.rs)\<close>

text \<open>
  The manifest \<^verbatim>\<open>plugin.json\<close> of an installed plugin, the names it resolves to, and the checks that
  turn what it declares into the scopes, the operational controls and the sandbox policy it runs under.
  The manifest is the record the JSON decodes to, with serde's defaults already filled in.
\<close>

subsection \<open>Data\<close>

record capability_scopes =
  cs_fs_read_paths :: "string list"
  cs_network_allow_hosts :: "string list"
  cs_env_allow :: "string list"

record operational_controls =
  oc_timeout_ms :: nat
  oc_max_retries :: nat
  oc_max_calls_per_minute :: nat
  oc_circuit_breaker_failures :: nat
  oc_circuit_breaker_cooldown_ms :: nat

record operational_controls_manifest = operational_controls +
  oc_fuel_budget :: "nat option"

record package_manifest = plugin_manifest +
  pk_runtime :: "string option"
  pk_tool_name :: "string option"
  pk_provider_name :: "string option"
  pk_provider_profile :: "provider_profile option"
  pk_model_name :: "string option"
  pk_entrypoint :: string
  pk_entrypoint_sha256 :: "string option"
  pk_publisher :: "string option"
  pk_quality_tier :: "string option"
  pk_capability_scopes :: capability_scopes
  pk_operational_controls :: operational_controls_manifest
  pk_tool_input_schema :: "json option"

definition default_controls :: operational_controls_manifest where
  "default_controls = \<lparr>oc_timeout_ms = 30000, oc_max_retries = 0, oc_max_calls_per_minute = 120,
     oc_circuit_breaker_failures = 3, oc_circuit_breaker_cooldown_ms = 30000, oc_fuel_budget = None\<rparr>"

definition DEFAULT_TOOL_RUNTIME_KIND :: string where "DEFAULT_TOOL_RUNTIME_KIND = ''wasm_tool_v1''"
definition DEFAULT_MODEL_RUNTIME_KIND :: string where "DEFAULT_MODEL_RUNTIME_KIND = ''wasm_model_v1''"
definition QUALITY_TIER_UNSIGNED_LOCAL :: string where "QUALITY_TIER_UNSIGNED_LOCAL = ''unsigned_local''"
definition OPERATIONAL_MAX_TIMEOUT :: nat where "OPERATIONAL_MAX_TIMEOUT = 600000"
definition OPERATIONAL_MAX_RETRIES :: nat where "OPERATIONAL_MAX_RETRIES = 5"
definition OPERATIONAL_MAX_CALLS_PER_MINUTE :: nat where "OPERATIONAL_MAX_CALLS_PER_MINUTE = 10000"
definition OPERATIONAL_MAX_CIRCUIT_BREAKER_FAILURES :: nat where "OPERATIONAL_MAX_CIRCUIT_BREAKER_FAILURES = 100"
definition OPERATIONAL_MAX_CIRCUIT_BREAKER_COOLDOWN :: nat where "OPERATIONAL_MAX_CIRCUIT_BREAKER_COOLDOWN = 600000"
definition MAX_FUEL_BUDGET :: nat where "MAX_FUEL_BUDGET = 100000000"

lemmas package_consts = DEFAULT_TOOL_RUNTIME_KIND_def DEFAULT_MODEL_RUNTIME_KIND_def QUALITY_TIER_UNSIGNED_LOCAL_def
  OPERATIONAL_MAX_TIMEOUT_def OPERATIONAL_MAX_RETRIES_def OPERATIONAL_MAX_CALLS_PER_MINUTE_def
  OPERATIONAL_MAX_CIRCUIT_BREAKER_FAILURES_def OPERATIONAL_MAX_CIRCUIT_BREAKER_COOLDOWN_def MAX_FUEL_BUDGET_def

definition to_core_manifest :: "package_manifest \<Rightarrow> plugin_manifest" where
  "to_core_manifest m = \<lparr>pm_id = pm_id m, pm_name = pm_name m, pm_version = pm_version m,
     pm_api_version = pm_api_version m, pm_description = pm_description m, pm_homepage = pm_homepage m,
     pm_capabilities = pm_capabilities m, pm_experimental = pm_experimental m,
     pm_min_core_version = pm_min_core_version m, pm_max_core_version = pm_max_core_version m\<rparr>"

definition runtime_kind :: "package_manifest \<Rightarrow> string" where
  "runtime_kind m = trim (opt_or (pk_runtime m) DEFAULT_TOOL_RUNTIME_KIND)"

definition quality_tier :: "package_manifest \<Rightarrow> string" where
  "quality_tier m = trim (opt_or (pk_quality_tier m) QUALITY_TIER_UNSIGNED_LOCAL)"

subsection \<open>Names\<close>

definition plugin_said :: "package_manifest \<Rightarrow> string \<Rightarrow> kelvin_error" where
  "plugin_said m what = InvalidInput (''plugin '' @ quoted (pm_id m) @ what)"

definition underscored :: "string \<Rightarrow> string" where
  "underscored s = map (\<lambda>c. if c = CHR ''.'' then CHR ''_'' else c) s"

definition resolve_name :: "package_manifest \<Rightarrow> string \<Rightarrow> string \<Rightarrow> string kelvin_result" where
  "resolve_name m field candidate =
     (if candidate = [] then Inl (plugin_said m ('' has empty '' @ field))
      else if \<not> list_all identifier_char candidate then
        Inl (plugin_said m ('' has invalid '' @ field @ '' '' @ quoted candidate))
      else Inr candidate)"

definition resolve_tool_name :: "package_manifest \<Rightarrow> string kelvin_result" where
  "resolve_tool_name m = resolve_name m ''tool_name'' (trim (opt_or (pk_tool_name m) (underscored (pm_id m))))"

definition resolve_model_provider_name :: "package_manifest \<Rightarrow> provider_profile option \<Rightarrow> string kelvin_result" where
  "resolve_model_provider_name m profile =
     bindR (resolve_name m ''provider_name'' (trim (opt_or (pk_provider_name m)
       (case profile of Some p \<Rightarrow> pp_provider_name p | None \<Rightarrow> underscored (pm_id m))))) (\<lambda>candidate.
     case profile of
       None \<Rightarrow> Inr candidate
     | Some p \<Rightarrow> if candidate \<noteq> pp_provider_name p
         then Inl (plugin_said m ('' provider_name '' @ quoted candidate @ '' does not match provider_profile '' @ quoted (pp_id p)))
         else Inr candidate)"

definition resolved_model_name :: "package_manifest \<Rightarrow> string kelvin_result" where
  "resolved_model_name m = (let candidate = trim (opt_or (pk_model_name m) ''default'') in
     if candidate = [] then Inl (plugin_said m '' has empty model_name'') else Inr candidate)"

definition resolved_provider_profile :: "package_manifest \<Rightarrow> provider_profile kelvin_result" where
  "resolved_provider_profile m = (case pk_provider_profile m of
     None \<Rightarrow> Inl (plugin_said m '' requires a structured provider_profile object'')
   | Some p \<Rightarrow> bindR (validate_profile p) (\<lambda>_. Inr p))"

record model_plugin_abi_usage =
  uses_openai_import :: bool
  uses_provider_profile_import :: bool

definition resolve_model_provider_profile ::
    "package_manifest \<Rightarrow> model_plugin_abi_usage \<Rightarrow> provider_profile option kelvin_result" where
  "resolve_model_provider_profile m usage = bindR (resolved_provider_profile m) (\<lambda>p.
     if uses_openai_import usage \<and> pp_protocol_family p \<noteq> OpenAiResponses then
       Inl (plugin_said m ('' uses legacy openai import but provider_profile '' @ quoted (pp_id p) @ '' is not compatible''))
     else Inr (Some p))"

text \<open>
  \<open>validate_model_plugin_imports\<close> on what \<open>wasmparser\<close> reads from the module, in the order in which it reads it:
  the module and name of every import, or the error that ends the reading.
\<close>

definition model_import :: "string \<Rightarrow> string \<times> string \<Rightarrow> model_plugin_abi_usage \<Rightarrow> model_plugin_abi_usage kelvin_result" where
  "model_import plugin_id imp usage = (case imp of (module, name) \<Rightarrow>
     if module \<noteq> ''kelvin_model_host_v1'' then
       Inl (InvalidInput (''model plugin '' @ quoted plugin_id @ '' has forbidden import module '' @ quoted module))
     else if name = ''openai_responses_call'' then Inr (usage\<lparr>uses_openai_import := True\<rparr>)
     else if name = ''provider_profile_call'' then Inr (usage\<lparr>uses_provider_profile_import := True\<rparr>)
     else if name = ''log'' \<or> name = ''clock_now_ms'' then Inr usage
     else Inl (InvalidInput (''model plugin '' @ quoted plugin_id @ '' has forbidden import '' @
       quoted (module @ ''.'' @ name))))"

datatype wasm_event = WasmError string | ImportError string | WasmImport "string \<times> string"

fun model_imports :: "string \<Rightarrow> wasm_event list \<Rightarrow> model_plugin_abi_usage \<Rightarrow> model_plugin_abi_usage kelvin_result" where
  "model_imports plugin_id [] usage = Inr usage"
| "model_imports plugin_id (WasmError err # is) usage = Inl (InvalidInput (''invalid model wasm: '' @ err))"
| "model_imports plugin_id (ImportError err # is) usage =
     Inl (InvalidInput (''invalid model wasm import section: '' @ err))"
| "model_imports plugin_id (WasmImport i # is) usage = bindR (model_import plugin_id i usage) (model_imports plugin_id is)"

definition validate_model_plugin_imports ::
    "(nat list \<Rightarrow> wasm_event list) \<Rightarrow> nat list \<Rightarrow> string \<Rightarrow> model_plugin_abi_usage kelvin_result" where
  "validate_model_plugin_imports wasm_imports wasm_bytes plugin_id =
     bindR (model_imports plugin_id (wasm_imports wasm_bytes)
       \<lparr>uses_openai_import = False, uses_provider_profile_import = False\<rparr>) (\<lambda>usage.
     if uses_openai_import usage \<and> uses_provider_profile_import usage then
       Inl (InvalidInput (''model plugin '' @ quoted plugin_id @ '' mixes legacy and provider-profile imports''))
     else Inr usage)"

subsection \<open>Paths\<close>

datatype path_component = RootDir | CurDir | ParentDir | NormalDir string

text \<open>\<open>Path::components\<close> on Unix: empty and inner \<open>.\<close> segments are dropped.\<close>

definition segment_component :: "string \<Rightarrow> path_component option" where
  "segment_component seg = (if seg = [] \<or> seg = ''.'' then None
     else if seg = ''..'' then Some ParentDir else Some (NormalDir seg))"

definition path_components :: "string \<Rightarrow> path_component list" where
  "path_components s = (let segs = split_char (CHR ''/'') s in
     (if starts_with ''/'' s then [RootDir] else if hd segs = ''.'' then [CurDir] else []) @
     List.map_filter segment_component segs)"

definition backslashed :: "string \<Rightarrow> string" where
  "backslashed s = map (\<lambda>c. if c = CHR 92 then CHR ''/'' else c) s"

definition normalize_safe_relative_path :: "string \<Rightarrow> string \<Rightarrow> string kelvin_result" where
  "normalize_safe_relative_path raw field_name = (let normalized = backslashed (trim raw) in
     if normalized = [] then Inl (InvalidInput (field_name @ '' must not be empty''))
     else if starts_with ''/'' normalized then Inl (InvalidInput (field_name @ '' must be relative path''))
     else if ParentDir \<in> set (path_components normalized) then
       Inl (InvalidInput (field_name @ '' path traversal is not allowed''))
     else Inr normalized)"

definition scope_match :: "string \<Rightarrow> string list \<Rightarrow> bool" where
  "scope_match target allowlist = list_ex (\<lambda>scope. target = scope \<or>
     (case strip_prefix scope target of Some rest \<Rightarrow> starts_with ''/'' rest | None \<Rightarrow> False)) allowlist"

subsection \<open>Scopes, controls and sandbox\<close>

definition host_pattern_char :: "char \<Rightarrow> bool" where
  "host_pattern_char c \<longleftrightarrow> is_ascii_alphanumeric c \<or> c \<in> {CHR ''.'', CHR ''-'', CHR ''*'', CHR '':''}"

definition normalize_host_pattern :: "string \<Rightarrow> string kelvin_result" where
  "normalize_host_pattern input = (let cleaned = to_ascii_lowercase (trim input) in
     if cleaned = [] then Inl (InvalidInput ''network allowlist host must not be empty'')
     else if list_ex (\<lambda>c. is_control c \<or> is_whitespace c) cleaned then
       Inl (InvalidInput ''network allowlist host must not contain whitespace/control characters'')
     else if \<not> list_all host_pattern_char cleaned then
       Inl (InvalidInput (''invalid network allowlist host pattern: '' @ cleaned))
     else Inr cleaned)"

definition normalize_scopes :: "package_manifest \<Rightarrow> capability_scopes kelvin_result" where
  "normalize_scopes m = (let has_fs_read = CapFsRead \<in> set (pm_capabilities m);
       has_network = CapNetworkEgress \<in> set (pm_capabilities m);
       model_runtime = (runtime_kind m = DEFAULT_MODEL_RUNTIME_KIND);
       scopes = pk_capability_scopes m in
     bindR (traverseR (\<lambda>p. normalize_safe_relative_path p ''capability_scopes.fs_read_paths'') (cs_fs_read_paths scopes))
       (\<lambda>fs_read_paths.
     if has_fs_read \<and> fs_read_paths = [] then
       Inl (plugin_said m '' declares fs_read but has no fs_read scope paths'')
     else if \<not> has_fs_read \<and> fs_read_paths \<noteq> [] then
       Inl (plugin_said m '' has fs_read scope paths but does not declare fs_read capability'')
     else bindR (traverseR normalize_host_pattern (cs_network_allow_hosts scopes)) (\<lambda>hosts.
     if (has_network \<or> model_runtime) \<and> hosts = [] \<and>
        \<not> (case pk_provider_profile m of None \<Rightarrow> False | Some p \<Rightarrow> pp_dynamic_base_url p) then
       Inl (plugin_said m '' requires network allowlist but has no network allow hosts'')
     else if \<not> has_network \<and> \<not> model_runtime \<and> hosts \<noteq> [] then
       Inl (plugin_said m '' has network allowlist but does not declare network_egress capability'')
     else Inr \<lparr>cs_fs_read_paths = fs_read_paths, cs_network_allow_hosts = hosts, cs_env_allow = cs_env_allow scopes\<rparr>)))"

definition between :: "nat \<Rightarrow> nat \<Rightarrow> string" where
  "between lo hi = '' must be between '' @ show_nat lo @ '' and '' @ show_nat hi"

definition normalize_controls :: "package_manifest \<Rightarrow> operational_controls kelvin_result" where
  "normalize_controls m = (let c = pk_operational_controls m in
     if oc_timeout_ms c = 0 \<or> OPERATIONAL_MAX_TIMEOUT < oc_timeout_ms c then
       Inl (plugin_said m ('' timeout_ms'' @ between 1 OPERATIONAL_MAX_TIMEOUT))
     else if OPERATIONAL_MAX_RETRIES < oc_max_retries c then
       Inl (plugin_said m ('' max_retries must be <= '' @ show_nat OPERATIONAL_MAX_RETRIES))
     else if oc_max_calls_per_minute c = 0 \<or> OPERATIONAL_MAX_CALLS_PER_MINUTE < oc_max_calls_per_minute c then
       Inl (plugin_said m ('' max_calls_per_minute'' @ between 1 OPERATIONAL_MAX_CALLS_PER_MINUTE))
     else if oc_circuit_breaker_failures c = 0 \<or>
         OPERATIONAL_MAX_CIRCUIT_BREAKER_FAILURES < oc_circuit_breaker_failures c then
       Inl (plugin_said m ('' circuit_breaker_failures'' @ between 1 OPERATIONAL_MAX_CIRCUIT_BREAKER_FAILURES))
     else if oc_circuit_breaker_cooldown_ms c < 100 \<or>
         OPERATIONAL_MAX_CIRCUIT_BREAKER_COOLDOWN < oc_circuit_breaker_cooldown_ms c then
       Inl (plugin_said m ('' circuit_breaker_cooldown_ms'' @ between 100 OPERATIONAL_MAX_CIRCUIT_BREAKER_COOLDOWN))
     else Inr \<lparr>oc_timeout_ms = oc_timeout_ms c, oc_max_retries = oc_max_retries c,
       oc_max_calls_per_minute = oc_max_calls_per_minute c,
       oc_circuit_breaker_failures = oc_circuit_breaker_failures c,
       oc_circuit_breaker_cooldown_ms = oc_circuit_breaker_cooldown_ms c\<rparr>)"

record sandbox_policy =
  sb_allow_move_servo :: bool
  sb_allow_fs_read :: bool
  sb_network_allow_hosts :: "string list"
  sb_env_allow :: "string list"
  sb_max_module_bytes :: nat
  sb_fuel_budget :: nat
  sb_max_request_bytes :: nat
  sb_max_response_bytes :: nat

definition locked_down :: sandbox_policy where
  "locked_down = \<lparr>sb_allow_move_servo = False, sb_allow_fs_read = False, sb_network_allow_hosts = [],
     sb_env_allow = [], sb_max_module_bytes = 512 * 1024, sb_fuel_budget = 1000000,
     sb_max_request_bytes = 256 * 1024, sb_max_response_bytes = 256 * 1024\<rparr>"

definition sandbox_from_manifest :: "package_manifest \<Rightarrow> sandbox_policy kelvin_result" where
  "sandbox_from_manifest m = (let scopes = pk_capability_scopes m;
       p0 = locked_down;
       p1 = (if CapFsRead \<in> set (pm_capabilities m) then p0\<lparr>sb_allow_fs_read := True\<rparr> else p0);
       p2 = (if CapNetworkEgress \<in> set (pm_capabilities m)
             then p1\<lparr>sb_network_allow_hosts := cs_network_allow_hosts scopes\<rparr> else p1) in
     if cs_env_allow scopes \<noteq> [] \<and> CapEnvAccess \<notin> set (pm_capabilities m) then
       Inl (plugin_said m '' declares env_allow scopes but lacks 'env_access' capability'')
     else let p3 = (if cs_env_allow scopes \<noteq> [] then p2\<lparr>sb_env_allow := cs_env_allow scopes\<rparr> else p2);
              p4 = (case oc_fuel_budget (pk_operational_controls m) of
                      Some budget \<Rightarrow> p3\<lparr>sb_fuel_budget := min budget MAX_FUEL_BUDGET\<rparr> | None \<Rightarrow> p3) in
       if CapFsWrite \<in> set (pm_capabilities m) \<or> CapCommandExecution \<in> set (pm_capabilities m) then
         Inl (plugin_said m '' requests unsupported runtime capability'')
       else Inr p4)"

subsection \<open>What the checks establish\<close>

lemma set_mapfilter: "y \<in> set (List.map_filter f xs) \<longleftrightarrow> (\<exists>x\<in>set xs. f x = Some y)"
  by (induction xs) (auto simp: List.map_filter_simps split: option.splits)

lemma ParentDir_segment: "ParentDir \<in> set (path_components s) \<longleftrightarrow> ''..'' \<in> set (split_char (CHR ''/'') s)"
  by (force simp: path_components_def Let_def set_mapfilter segment_component_def split: if_splits)

lemma safe_path_iff: "normalize_safe_relative_path raw f = Inr p \<longleftrightarrow>
    p = backslashed (trim raw) \<and> p \<noteq> [] \<and> \<not> starts_with ''/'' p \<and> ParentDir \<notin> set (path_components p)"
  by (auto simp: normalize_safe_relative_path_def Let_def)

lemma split_char_append: "split_char d (s @ d # t) = split_char d s @ split_char d t"
  by (induction s) (auto split: list.splits if_splits)

text \<open>A directory with its name spelled out is a prefix, by components, of every path below it.\<close>

lemma path_components_below:
  assumes "s \<noteq> []"
  shows "path_components (s @ CHR ''/'' # t) = path_components s @
    List.map_filter segment_component (split_char (CHR ''/'') t)"
proof -
  have "starts_with ''/'' (s @ CHR ''/'' # t) \<longleftrightarrow> starts_with ''/'' s" using assms by (cases s) (auto simp: starts_with_def)
  moreover have "hd (split_char (CHR ''/'') (s @ CHR ''/'' # t)) = hd (split_char (CHR ''/'') s)"
    by (simp add: split_char_append)
  ultimately show ?thesis by (simp add: path_components_def Let_def split_char_append List.map_filter_def)
qed

lemma scope_match_iff: "scope_match target scopes \<longleftrightarrow> (\<exists>s\<in>set scopes. target = s \<or> (\<exists>t. target = s @ CHR ''/'' # t))"
proof -
  have "(case strip_prefix s target of Some rest \<Rightarrow> starts_with ''/'' rest | None \<Rightarrow> False) \<longleftrightarrow>
      (\<exists>t. target = s @ CHR ''/'' # t)" for s
  proof (cases "strip_prefix s target")
    case None
    then have "\<forall>t. target \<noteq> s @ CHR ''/'' # t" by (metis strip_prefix_Some_iff option.distinct(1))
    then show ?thesis using None by simp
  next
    case (Some rest)
    then have "target = s @ rest" by (simp add: strip_prefix_Some_iff)
    then show ?thesis using Some by (simp add: starts_with_iff)
  qed
  then show ?thesis by (simp add: scope_match_def list_ex_iff)
qed

end
