(* ===== verification/Plugin_Trust.thy ===== *)
theory Plugin_Trust
  imports Plugin_Package "HOL-Library.Option_ord" "HOL-Library.Product_Lexorder"
begin

section \<open>Trust in publishers and the loading of installed plugins (kelvin-brain/src/installed_plugins.rs)\<close>

text \<open>
  The trust policy, the verification of a package's signature, and the loader that walks the plugin home.
  Base64, ed25519, SHA-256, serde, wasmparser and semver are the fields of \<open>loader_env\<close>. The file system is
  the record \<open>file_system\<close> of what its calls return at a path; a path is the string that names it. An
  \<^verbatim>\<open>io::Error\<close> is the \<open>Io\<close> error that \<open>From\<close> makes of it.
\<close>

subsection \<open>Environment\<close>

record ('k, 'g) crypto =
  cx_base64 :: "string \<Rightarrow> string + nat list"
  cx_key :: "nat list \<Rightarrow> string + 'k"
  cx_signature :: "nat list \<Rightarrow> string + 'g"
  cx_verify :: "'k \<Rightarrow> nat list \<Rightarrow> 'g \<Rightarrow> string + unit"
  cx_sha256 :: "nat list \<Rightarrow> nat list"

record dir_entry =
  de_name :: string
  de_is_dir :: "bool kelvin_result"

record file_system =
  fs_exists :: "string \<Rightarrow> bool"
  fs_is_dir :: "string \<Rightarrow> bool"
  fs_is_file :: "string \<Rightarrow> bool"
  fs_link :: "string \<Rightarrow> string kelvin_result option"
  fs_entries :: "string \<Rightarrow> dir_entry kelvin_result list kelvin_result"
  fs_read :: "string \<Rightarrow> nat list kelvin_result"
  fs_read_text :: "string \<Rightarrow> string kelvin_result"

record trusted_publisher_entry =
  tp_id :: string
  tp_ed25519_public_key :: string

record trust_policy_file =
  tf_require_signature :: "bool option"
  tf_publishers :: "trusted_publisher_entry list"
  tf_revoked_publishers :: "string list"
  tf_pinned_plugin_publishers :: "(string \<times> string) list"

record ('v, 'k, 'g) loader_env = "('k, 'g) crypto" +
  le_semver :: "'v semver"
  le_package :: "nat list \<Rightarrow> string + package_manifest"
  le_policy :: "string \<Rightarrow> string + trust_policy_file"
  le_imports :: "nat list \<Rightarrow> wasm_event list"
  le_fs :: file_system

text \<open>\<open>Path::join\<close> and \<open>Path::file_name\<close> on Unix.\<close>

definition path_join :: "string \<Rightarrow> string \<Rightarrow> string" where
  "path_join a b = (if starts_with ''/'' b then b
     else if a = [] \<or> last a = CHR ''/'' then a @ b else a @ ''/'' @ b)"

definition path_file_name :: "string \<Rightarrow> string option" where
  "path_file_name p = (case rev (path_components p) of NormalDir n # _ \<Rightarrow> Some n | _ \<Rightarrow> None)"

subsection \<open>The trust policy\<close>

record 'k trust_policy =
  require_signature :: bool
  trusted_publishers :: "string \<rightharpoonup> 'k"
  revoked_publishers :: "string set"
  pinned_plugin_publishers :: "string \<rightharpoonup> string"

definition default_trust_policy :: "'k trust_policy" where
  "default_trust_policy = \<lparr>require_signature = True, trusted_publishers = (\<lambda>_. None),
     revoked_publishers = {}, pinned_plugin_publishers = (\<lambda>_. None)\<rparr>"

definition parse_public_key :: "('k, 'g, 'z) crypto_scheme \<Rightarrow> string \<Rightarrow> 'k kelvin_result" where
  "parse_public_key cx key_base64 = (case cx_base64 cx (trim key_base64) of
     Inl err \<Rightarrow> Inl (InvalidInput (''invalid base64 public key: '' @ err))
   | Inr bytes \<Rightarrow> if length bytes \<noteq> 32 then Inl (InvalidInput ''ed25519 public key must be 32 bytes'')
       else (case cx_key cx bytes of
           Inl err \<Rightarrow> Inl (InvalidInput (''invalid ed25519 public key: '' @ err))
         | Inr key \<Rightarrow> Inr key))"

definition with_signature_requirement :: "bool \<Rightarrow> 'k trust_policy \<Rightarrow> 'k trust_policy" where
  "with_signature_requirement required p = p\<lparr>require_signature := required\<rparr>"

definition with_publisher_key ::
    "('k, 'g, 'z) crypto_scheme \<Rightarrow> string \<Rightarrow> string \<Rightarrow> 'k trust_policy \<Rightarrow> 'k trust_policy kelvin_result" where
  "with_publisher_key cx publisher_id key_base64 p = bindR (parse_public_key cx key_base64) (\<lambda>key.
     Inr (p\<lparr>trusted_publishers := (trusted_publishers p)(publisher_id \<mapsto> key)\<rparr>))"

definition with_revoked_publisher :: "string \<Rightarrow> 'k trust_policy \<Rightarrow> 'k trust_policy" where
  "with_revoked_publisher publisher_id p = p\<lparr>revoked_publishers := insert publisher_id (revoked_publishers p)\<rparr>"

definition with_pinned_plugin_publisher :: "string \<Rightarrow> string \<Rightarrow> 'k trust_policy \<Rightarrow> 'k trust_policy" where
  "with_pinned_plugin_publisher plugin_id publisher_id p =
     p\<lparr>pinned_plugin_publishers := (pinned_plugin_publishers p)(plugin_id \<mapsto> publisher_id)\<rparr>"

fun add_publishers ::
    "('k, 'g, 'z) crypto_scheme \<Rightarrow> trusted_publisher_entry list \<Rightarrow> 'k trust_policy \<Rightarrow> 'k trust_policy kelvin_result" where
  "add_publishers cx [] p = Inr p"
| "add_publishers cx (e # es) p =
     bindR (with_publisher_key cx (tp_id e) (tp_ed25519_public_key e) p) (add_publishers cx es)"

definition add_revoked :: "string list \<Rightarrow> 'k trust_policy \<Rightarrow> 'k trust_policy" where
  "add_revoked ids p = fold (\<lambda>i p. let cleaned = trim i in
     if cleaned \<noteq> [] then with_revoked_publisher cleaned p else p) ids p"

definition add_pins :: "(string \<times> string) list \<Rightarrow> 'k trust_policy \<Rightarrow> 'k trust_policy" where
  "add_pins pins p = fold (\<lambda>(plugin_id, publisher_id) p.
     if trim plugin_id \<noteq> [] \<and> trim publisher_id \<noteq> []
     then with_pinned_plugin_publisher (trim plugin_id) (trim publisher_id) p else p) pins p"

definition trust_policy_from_file ::
    "('k, 'g, 'z) crypto_scheme \<Rightarrow> trust_policy_file \<Rightarrow> 'k trust_policy kelvin_result" where
  "trust_policy_from_file cx f = bindR (add_publishers cx (tf_publishers f)
       (with_signature_requirement (opt_or (tf_require_signature f) True) default_trust_policy)) (\<lambda>p.
     Inr (add_pins (tf_pinned_plugin_publishers f) (add_revoked (tf_revoked_publishers f) p)))"

definition from_json_file :: "('v, 'k, 'g) loader_env \<Rightarrow> string \<Rightarrow> 'k trust_policy kelvin_result" where
  "from_json_file le path = bindR (fs_read_text (le_fs le) path) (\<lambda>contents.
     case le_policy le contents of
       Inl err \<Rightarrow> Inl (InvalidInput (''invalid publisher trust policy JSON: '' @ err))
     | Inr f \<Rightarrow> trust_policy_from_file le f)"

subsection \<open>Verification of a package\<close>

definition check_pin :: "'k trust_policy \<Rightarrow> package_manifest \<Rightarrow> unit kelvin_result" where
  "check_pin p m = (case pinned_plugin_publishers p (pm_id m) of
     None \<Rightarrow> Inr ()
   | Some expected \<Rightarrow> (case pk_publisher m of
       Some actual \<Rightarrow> if actual = expected then Inr ()
         else Inl (plugin_said m ('' publisher '' @ quoted actual @ '' does not match pinned publisher '' @ quoted expected))
     | None \<Rightarrow> Inl (plugin_said m '' is missing publisher id required by pinning policy'')))"

definition check_revoked :: "'k trust_policy \<Rightarrow> package_manifest \<Rightarrow> unit kelvin_result" where
  "check_revoked p m = (case pk_publisher m of
     Some publisher \<Rightarrow> if publisher \<in> revoked_publishers p
       then Inl (plugin_said m ('' publisher '' @ quoted publisher @ '' is revoked'')) else Inr ()
   | None \<Rightarrow> Inr ())"

definition check_signature ::
    "('k, 'g, 'z) crypto_scheme \<Rightarrow> package_manifest \<Rightarrow> nat list \<Rightarrow> 'k \<Rightarrow> string \<Rightarrow> unit kelvin_result" where
  "check_signature cx m manifest_bytes key signature_text = (let signature_base64 = trim signature_text in
     if signature_base64 = [] then Inl (plugin_said m '' has empty plugin.sig'')
     else case cx_base64 cx signature_base64 of
       Inl err \<Rightarrow> Inl (InvalidInput (''invalid plugin.sig base64: '' @ err))
     | Inr bytes \<Rightarrow> (case cx_signature cx bytes of
         Inl err \<Rightarrow> Inl (InvalidInput (''invalid ed25519 signature: '' @ err))
       | Inr signature \<Rightarrow> (case cx_verify cx key manifest_bytes signature of
           Inl err \<Rightarrow> Inl (plugin_said m ('' signature verification failed: '' @ err))
         | Inr _ \<Rightarrow> Inr ())))"

definition missing_signature :: "package_manifest \<Rightarrow> kelvin_error" where
  "missing_signature m = plugin_said m '' is missing required plugin.sig''"

definition verify_manifest_signature ::
    "('k, 'g, 'z) crypto_scheme \<Rightarrow> file_system \<Rightarrow> 'k trust_policy \<Rightarrow> package_manifest \<Rightarrow> nat list \<Rightarrow> string \<Rightarrow>
     unit kelvin_result" where
  "verify_manifest_signature cx fs p m manifest_bytes version_dir =
     (let signature_path = path_join version_dir ''plugin.sig'';
          has_signature = fs_is_file fs signature_path in
      bindR (check_pin p m) (\<lambda>_. bindR (check_revoked p m) (\<lambda>_.
      if \<not> require_signature p \<and> \<not> has_signature then Inr ()
      else if quality_tier m = QUALITY_TIER_UNSIGNED_LOCAL \<and> \<not> has_signature then
        (case pk_publisher m of
           Some publisher \<Rightarrow> if trusted_publishers p publisher \<noteq> None then Inl (missing_signature m) else Inr ()
         | None \<Rightarrow> Inr ())
      else case pk_publisher m of
        None \<Rightarrow> Inl (plugin_said m '' is missing publisher id for signature verification'')
      | Some publisher \<Rightarrow> (case trusted_publishers p publisher of
          None \<Rightarrow> Inl (plugin_said m ('' publisher '' @ quoted publisher @ '' is not trusted''))
        | Some key \<Rightarrow> if \<not> has_signature then Inl (missing_signature m)
            else bindR (fs_read_text fs signature_path) (check_signature cx m manifest_bytes key)))))"

subsection \<open>The version directory\<close>

definition collect_dirs :: "dir_entry kelvin_result list \<Rightarrow> string list kelvin_result" where
  "collect_dirs entries = bindR (traverseR (\<lambda>e. bindR e (\<lambda>e. bindR (de_is_dir e) (\<lambda>d. Inr (de_name e, d)))) entries)
     (\<lambda>ds. Inr (map fst (filter snd ds)))"

definition collect_plugin_dirs :: "file_system \<Rightarrow> string \<Rightarrow> string list kelvin_result" where
  "collect_plugin_dirs fs plugin_home = bindR (fs_entries fs plugin_home) (\<lambda>entries.
     bindR (collect_dirs entries) (\<lambda>names. Inr (map (path_join plugin_home) (sort names))))"

text \<open>The loop that keeps the first of the highest versions; \<open>a \<le> b\<close> of semver is that \<open>b\<close> is not less than \<open>a\<close>.\<close>

fun best_version :: "'v semver \<Rightarrow> dir_entry kelvin_result list \<Rightarrow> ('v \<times> string) option \<Rightarrow>
    ('v \<times> string) option kelvin_result" where
  "best_version sv [] best = Inr best"
| "best_version sv (e # es) best = bindR e (\<lambda>entry. bindR (de_is_dir entry) (\<lambda>dir.
     if \<not> dir \<or> de_name entry = ''current'' then best_version sv es best
     else case sv_parse sv (de_name entry) of
       Inl _ \<Rightarrow> best_version sv es best
     | Inr version \<Rightarrow> (case best of
         Some (best_v, _) \<Rightarrow> if \<not> sv_less sv best_v version then best_version sv es best
           else best_version sv es (Some (version, de_name entry))
       | None \<Rightarrow> best_version sv es (Some (version, de_name entry)))))"

definition resolve_version_dir :: "'v semver \<Rightarrow> file_system \<Rightarrow> string \<Rightarrow> string kelvin_result" where
  "resolve_version_dir sv fs plugin_dir = (let current = path_join plugin_dir ''current'' in
     case fs_link fs current of
       Some link \<Rightarrow> bindR link (\<lambda>target.
         bindR (normalize_safe_relative_path target ''current symlink target'') (\<lambda>normalized.
         let resolved = path_join plugin_dir normalized in
         if fs_is_dir fs resolved then Inr resolved
         else Inl (InvalidInput (''plugin current symlink points to missing directory: '' @ current))))
     | None \<Rightarrow> bindR (fs_entries fs plugin_dir) (\<lambda>entries. bindR (best_version sv entries None) (\<lambda>best.
         case best of
           Some (_, name) \<Rightarrow> Inr (path_join plugin_dir name)
         | None \<Rightarrow> Inl (InvalidInput (''plugin '' @ quoted plugin_dir @ '' has no version directories'')))))"

subsection \<open>Loading one plugin\<close>

record installed_tool =
  it_plugin_id :: string
  it_plugin_version :: string
  it_tool_name :: string
  it_tool_description :: string
  it_tool_input_schema :: json
  it_entrypoint_abs :: string
  it_sandbox_policy :: sandbox_policy
  it_scopes :: capability_scopes
  it_controls :: operational_controls

record installed_model =
  im_plugin_id :: string
  im_plugin_version :: string
  im_provider_name :: string
  im_model_name :: string
  im_provider_profile :: "provider_profile option"
  im_entrypoint_abs :: string
  im_scopes :: capability_scopes
  im_controls :: operational_controls

record factory_data =
  fd_manifest :: plugin_manifest
  fd_tool :: "installed_tool option"
  fd_model_provider :: "installed_model option"
  fd_runtime :: string
  fd_publisher :: "string option"

definition hex_digit :: "nat \<Rightarrow> char" where
  "hex_digit n = (if n < 10 then char_of (48 + n) else char_of (87 + n))"

definition sha256_hex :: "('k, 'g, 'z) crypto_scheme \<Rightarrow> nat list \<Rightarrow> string" where
  "sha256_hex cx bytes = concat (map (\<lambda>b. [hex_digit (b div 16), hex_digit (b mod 16)]) (cx_sha256 cx bytes))"

definition check_entrypoint ::
    "('v, 'k, 'g) loader_env \<Rightarrow> package_manifest \<Rightarrow> string \<Rightarrow> string \<Rightarrow> unit kelvin_result" where
  "check_entrypoint le m entrypoint_rel entrypoint_abs =
     (if \<not> fs_is_file (le_fs le) entrypoint_abs then
        Inl (plugin_said m ('' entrypoint file not found: payload/'' @ entrypoint_rel))
      else case pk_entrypoint_sha256 m of
        None \<Rightarrow> Inr ()
      | Some expected_sha \<Rightarrow> bindR (fs_read (le_fs le) entrypoint_abs) (\<lambda>bytes.
          if to_ascii_lowercase (sha256_hex le bytes) \<noteq> to_ascii_lowercase (trim expected_sha)
          then Inl (plugin_said m '' entrypoint_sha256 mismatch'') else Inr ()))"

definition load_tool :: "package_manifest \<Rightarrow> string \<Rightarrow> capability_scopes \<Rightarrow> operational_controls \<Rightarrow>
    installed_tool kelvin_result" where
  "load_tool m entrypoint_abs scopes controls = (let runtime = '' for runtime '' @ quoted DEFAULT_TOOL_RUNTIME_KIND in
     if CapToolProvider \<notin> set (pm_capabilities m) then
       Inl (plugin_said m ('' runtime '' @ quoted DEFAULT_TOOL_RUNTIME_KIND @ '' requires capability '' @ quoted ''tool_provider''))
     else if CapFsWrite \<in> set (pm_capabilities m) then
       Inl (plugin_said m ('' declares unsupported capability '' @ quoted ''fs_write'' @ runtime))
     else if CapCommandExecution \<in> set (pm_capabilities m) then
       Inl (plugin_said m ('' declares unsupported capability '' @ quoted ''command_execution'' @ runtime))
     else bindR (resolve_tool_name m) (\<lambda>tool_name. bindR (sandbox_from_manifest m) (\<lambda>sandbox.
       Inr \<lparr>it_plugin_id = pm_id m, it_plugin_version = pm_version m, it_tool_name = tool_name,
         it_tool_description = opt_or (pm_description m) [],
         it_tool_input_schema = opt_or (pk_tool_input_schema m) (JObj [(''type'', JStr ''object'')]),
         it_entrypoint_abs = entrypoint_abs, it_sandbox_policy = sandbox, it_scopes = scopes,
         it_controls = controls\<rparr>)))"

definition load_model :: "('v, 'k, 'g) loader_env \<Rightarrow> package_manifest \<Rightarrow> string \<Rightarrow> capability_scopes \<Rightarrow>
    operational_controls \<Rightarrow> installed_model kelvin_result" where
  "load_model le m entrypoint_abs scopes controls =
     (if CapModelProvider \<notin> set (pm_capabilities m) then
        Inl (plugin_said m ('' runtime '' @ quoted DEFAULT_MODEL_RUNTIME_KIND @ '' requires capability '' @ quoted ''model_provider''))
      else if CapFsRead \<in> set (pm_capabilities m) \<or> CapFsWrite \<in> set (pm_capabilities m) \<or>
          CapCommandExecution \<in> set (pm_capabilities m) then
        Inl (plugin_said m ('' runtime '' @ quoted DEFAULT_MODEL_RUNTIME_KIND @
          '' only supports model_provider and optional network_egress capabilities''))
      else bindR (fs_read (le_fs le) entrypoint_abs) (\<lambda>bytes.
        bindR (validate_model_plugin_imports (le_imports le) bytes (pm_id m)) (\<lambda>usage.
        bindR (resolve_model_provider_profile m usage) (\<lambda>profile.
        bindR (resolve_model_provider_name m profile) (\<lambda>provider_name.
        bindR (resolved_model_name m) (\<lambda>model_name.
          Inr \<lparr>im_plugin_id = pm_id m, im_plugin_version = pm_version m, im_provider_name = provider_name,
            im_model_name = model_name, im_provider_profile = profile, im_entrypoint_abs = entrypoint_abs,
            im_scopes = scopes, im_controls = controls\<rparr>))))))"

definition check_runtime :: "package_manifest \<Rightarrow> unit kelvin_result" where
  "check_runtime m = (let runtime = runtime_kind m in
     if runtime \<noteq> DEFAULT_TOOL_RUNTIME_KIND \<and> runtime \<noteq> DEFAULT_MODEL_RUNTIME_KIND then
       Inl (InvalidInput (''unsupported plugin runtime '' @ quoted runtime @ ''; expected '' @
         quoted DEFAULT_TOOL_RUNTIME_KIND @ '' or '' @ quoted DEFAULT_MODEL_RUNTIME_KIND))
     else Inr ())"

definition read_package :: "('v, 'k, 'g) loader_env \<Rightarrow> string \<Rightarrow> (package_manifest \<times> nat list) kelvin_result" where
  "read_package le version_dir = (let manifest_path = path_join version_dir ''plugin.json'' in
     bindR (fs_read (le_fs le) manifest_path) (\<lambda>manifest_bytes.
     case le_package le manifest_bytes of
       Inl err \<Rightarrow> Inl (InvalidInput (''invalid plugin manifest at '' @ manifest_path @ '': '' @ err))
     | Inr m \<Rightarrow> Inr (m, manifest_bytes)))"

definition instantiate_package :: "('v, 'k, 'g) loader_env \<Rightarrow> package_manifest \<Rightarrow> string \<Rightarrow> factory_data kelvin_result" where
  "instantiate_package le m version_dir =
     bindR (normalize_safe_relative_path (pk_entrypoint m) ''entrypoint'') (\<lambda>entrypoint_rel.
     let entrypoint_abs = path_join (path_join version_dir ''payload'') entrypoint_rel in
     bindR (check_entrypoint le m entrypoint_rel entrypoint_abs) (\<lambda>_.
     bindR (normalize_scopes m) (\<lambda>scopes. bindR (normalize_controls m) (\<lambda>controls.
     let data = \<lparr>fd_manifest = to_core_manifest m, fd_tool = None, fd_model_provider = None,
                 fd_runtime = runtime_kind m, fd_publisher = pk_publisher m\<rparr> in
     if runtime_kind m = DEFAULT_TOOL_RUNTIME_KIND
     then bindR (load_tool m entrypoint_abs scopes controls) (\<lambda>t. Inr (data\<lparr>fd_tool := Some t\<rparr>))
     else bindR (load_model le m entrypoint_abs scopes controls) (\<lambda>p. Inr (data\<lparr>fd_model_provider := Some p\<rparr>))))))"

definition load_one_plugin :: "('v, 'k, 'g) loader_env \<Rightarrow> 'k trust_policy \<Rightarrow> string \<Rightarrow> factory_data kelvin_result" where
  "load_one_plugin le trust plugin_dir = (case path_file_name plugin_dir of
     None \<Rightarrow> Inl (InvalidInput ''invalid plugin directory name'')
   | Some plugin_id \<Rightarrow>
       bindR (resolve_version_dir (le_semver le) (le_fs le) plugin_dir) (\<lambda>version_dir.
       bindR (read_package le version_dir) (\<lambda>(m, manifest_bytes).
       if pm_id m \<noteq> plugin_id then
         Inl (InvalidInput (''plugin id mismatch: directory '' @ quoted plugin_id @ '' but manifest id '' @ quoted (pm_id m)))
       else bindR (check_runtime m) (\<lambda>_.
         bindR (verify_manifest_signature le (le_fs le) trust m manifest_bytes version_dir) (\<lambda>_.
         bindR (validate_manifest (le_semver le) (to_core_manifest m)) (\<lambda>_.
         instantiate_package le m version_dir))))))"

subsection \<open>Loading the plugin home\<close>

record loader_config =
  lc_plugin_home :: string
  lc_core_version :: string
  lc_security_policy :: plugin_security_policy

record loaded_plugin =
  lp_id :: string
  lp_version :: string
  lp_tool_name :: "string option"
  lp_provider_name :: "string option"
  lp_model_name :: "string option"
  lp_provider_profile :: "string option"
  lp_runtime :: string
  lp_publisher :: "string option"

record loaded_plugins =
  ld_plugin_registry :: plugin_registry
  ld_tool_registry :: tool_map
  ld_model_registry :: model_registry
  ld_loaded_plugins :: "loaded_plugin list"

definition loaded_entry :: "factory_data \<Rightarrow> loaded_plugin" where
  "loaded_entry d = \<lparr>lp_id = pm_id (fd_manifest d), lp_version = pm_version (fd_manifest d),
     lp_tool_name = map_option it_tool_name (fd_tool d),
     lp_provider_name = map_option im_provider_name (fd_model_provider d),
     lp_model_name = map_option im_model_name (fd_model_provider d),
     lp_provider_profile = map_option pp_id (Option.bind (fd_model_provider d) im_provider_profile),
     lp_runtime = fd_runtime d, lp_publisher = fd_publisher d\<rparr>"

text \<open>\<open>InstalledWasmPluginFactory\<close>: the object behind the registry's trait, with the names it answers.\<close>

definition installed_factory :: "factory_data \<Rightarrow> plugin_factory" where
  "installed_factory d = \<lparr>pf_manifest = fd_manifest d,
     pf_tool = map_option (\<lambda>t. \<lparr>to_name = it_tool_name t, to_description = it_tool_description t,
       to_input_schema = it_tool_input_schema t\<rparr>) (fd_tool d),
     pf_model_provider = map_option (\<lambda>p. \<lparr>mp_provider_name = im_provider_name p,
       mp_model_name = im_model_name p\<rparr>) (fd_model_provider d)\<rparr>"

fun load_dirs :: "('v, 'k, 'g) loader_env \<Rightarrow> 'k trust_policy \<Rightarrow> loader_config \<Rightarrow> string list \<Rightarrow>
    plugin_registry \<Rightarrow> loaded_plugin list \<Rightarrow> (plugin_registry \<times> loaded_plugin list) kelvin_result" where
  "load_dirs le trust cfg [] reg loaded = Inr (reg, loaded)"
| "load_dirs le trust cfg (d # ds) reg loaded = bindR (load_one_plugin le trust d) (\<lambda>data.
     bindR (register_plugin (le_semver le) (installed_factory data) (lc_core_version cfg) (lc_security_policy cfg) reg)
       (\<lambda>reg'. load_dirs le trust cfg ds reg' (loaded @ [loaded_entry data])))"

definition loaded_key :: "loaded_plugin \<Rightarrow> string \<times> string \<times> string \<times> string option \<times> string option \<times>
    string option \<times> string option" where
  "loaded_key p = (lp_id p, lp_version p, lp_runtime p, lp_tool_name p, lp_provider_name p, lp_model_name p,
     lp_provider_profile p)"

definition with_registries :: "plugin_registry \<Rightarrow> loaded_plugin list \<Rightarrow> loaded_plugins kelvin_result" where
  "with_registries reg loaded = bindR (tool_registry_from reg) (\<lambda>tools. bindR (model_registry_from reg) (\<lambda>models.
     Inr \<lparr>ld_plugin_registry = reg, ld_tool_registry = tools, ld_model_registry = models, ld_loaded_plugins = loaded\<rparr>))"

text \<open>
  \<open>hosts\<close> is the result of the two \<open>try_new\<close> calls that start the WebAssembly engines.
\<close>

definition load_installed_plugins :: "('v, 'k, 'g) loader_env \<Rightarrow> unit kelvin_result \<Rightarrow> 'k trust_policy \<Rightarrow> loader_config \<Rightarrow>
    loaded_plugins kelvin_result" where
  "load_installed_plugins le hosts trust cfg =
     (if \<not> fs_exists (le_fs le) (lc_plugin_home cfg) then with_registries [] []
      else bindR (collect_plugin_dirs (le_fs le) (lc_plugin_home cfg)) (\<lambda>dirs. bindR hosts (\<lambda>_.
        bindR (load_dirs le trust cfg dirs [] []) (\<lambda>(reg, loaded).
          with_registries reg (sort_key loaded_key loaded)))))"

subsection \<open>Default locations\<close>

type_synonym environment = "string \<Rightarrow> string option"

definition env_path :: "environment \<Rightarrow> string \<Rightarrow> string option" where
  "env_path env key = (case env key of None \<Rightarrow> None
     | Some value \<Rightarrow> if trim value = [] then None else Some (trim value))"

definition resolve_home_dir :: "environment \<Rightarrow> string kelvin_result" where
  "resolve_home_dir env = (case env_path env ''HOME'' of Some path \<Rightarrow> Inr path
     | None \<Rightarrow> (case env_path env ''USERPROFILE'' of Some path \<Rightarrow> Inr path
       | None \<Rightarrow> Inl (InvalidInput (''HOME is not set; configure KELVIN_PLUGIN_HOME and '' @
           ''KELVIN_TRUST_POLICY_PATH explicitly''))))"

definition kelvin_home :: "environment \<Rightarrow> string kelvin_result" where
  "kelvin_home env = (case env_path env ''KELVIN_HOME'' of Some path \<Rightarrow> Inr path
     | None \<Rightarrow> bindR (resolve_home_dir env) (\<lambda>home. Inr (path_join home ''.kelvinclaw'')))"

definition under_home :: "environment \<Rightarrow> string \<Rightarrow> string \<Rightarrow> string kelvin_result" where
  "under_home env key name = (case env_path env key of Some path \<Rightarrow> Inr path
     | None \<Rightarrow> bindR (kelvin_home env) (\<lambda>home. Inr (path_join home name)))"

definition default_state_dir :: "environment \<Rightarrow> string kelvin_result" where
  "default_state_dir env = under_home env ''KELVIN_STATE_DIR'' ''state''"

definition default_plugin_home :: "environment \<Rightarrow> string kelvin_result" where
  "default_plugin_home env = under_home env ''KELVIN_PLUGIN_HOME'' ''plugins''"

definition default_trust_policy_path :: "environment \<Rightarrow> string kelvin_result" where
  "default_trust_policy_path env = under_home env ''KELVIN_TRUST_POLICY_PATH'' ''trusted_publishers.json''"

definition maybe_load_trust_policy_path :: "file_system \<Rightarrow> environment \<Rightarrow> string \<Rightarrow> string option kelvin_result" where
  "maybe_load_trust_policy_path fs env path = (if fs_exists fs path then Inr (Some path)
     else case env ''KELVIN_TRUST_POLICY_PATH'' of
       Some env_value \<Rightarrow> let trimmed = trim env_value in
         if trimmed \<noteq> [] \<and> path_components trimmed = path_components path
         then Inl (InvalidInput (''KELVIN_TRUST_POLICY_PATH is set to '' @ quoted trimmed @ '' but the file does not exist''))
         else Inr None
     | None \<Rightarrow> Inr None)"

definition load_installed_plugins_default :: "('v, 'k, 'g) loader_env \<Rightarrow> unit kelvin_result \<Rightarrow> environment \<Rightarrow> string \<Rightarrow>
    plugin_security_policy \<Rightarrow> loaded_plugins kelvin_result" where
  "load_installed_plugins_default le hosts env core_version security =
     bindR (default_trust_policy_path env) (\<lambda>path.
     bindR (maybe_load_trust_policy_path (le_fs le) env path) (\<lambda>found.
     bindR (case found of Some p \<Rightarrow> from_json_file le p | None \<Rightarrow> Inr default_trust_policy) (\<lambda>trust.
     bindR (default_plugin_home env) (\<lambda>home.
       load_installed_plugins le hosts trust \<lparr>lc_plugin_home = home, lc_core_version = core_version,
         lc_security_policy = security\<rparr>))))"

subsection \<open>What verification establishes\<close>

definition has_signature :: "file_system \<Rightarrow> string \<Rightarrow> bool" where
  "has_signature fs version_dir = fs_is_file fs (path_join version_dir ''plugin.sig'')"

text \<open>The signature file holds a signature of these very bytes by the key on file for the publisher.\<close>

definition signed_by_trusted ::
    "('k, 'g, 'z) crypto_scheme \<Rightarrow> file_system \<Rightarrow> 'k trust_policy \<Rightarrow> package_manifest \<Rightarrow> nat list \<Rightarrow> string \<Rightarrow> bool" where
  "signed_by_trusted cx fs p m manifest_bytes version_dir \<longleftrightarrow> has_signature fs version_dir \<and>
     (\<exists>publisher key contents bytes signature. pk_publisher m = Some publisher \<and>
        trusted_publishers p publisher = Some key \<and>
        fs_read_text fs (path_join version_dir ''plugin.sig'') = Inr contents \<and> trim contents \<noteq> [] \<and>
        cx_base64 cx (trim contents) = Inr bytes \<and> cx_signature cx bytes = Inr signature \<and>
        cx_verify cx key manifest_bytes signature = Inr ())"

text \<open>The publisher the package names, if any: the pinned one where the id is pinned, and not revoked.\<close>

definition publisher_allowed :: "'k trust_policy \<Rightarrow> package_manifest \<Rightarrow> bool" where
  "publisher_allowed p m \<longleftrightarrow>
     (\<forall>pin. pinned_plugin_publishers p (pm_id m) = Some pin \<longrightarrow> pk_publisher m = Some pin) \<and>
     (\<forall>publisher. pk_publisher m = Some publisher \<longrightarrow> publisher \<notin> revoked_publishers p)"

text \<open>What passes without a signature.\<close>

definition unsigned_allowed :: "'k trust_policy \<Rightarrow> package_manifest \<Rightarrow> bool" where
  "unsigned_allowed p m \<longleftrightarrow> \<not> require_signature p \<or>
     quality_tier m = QUALITY_TIER_UNSIGNED_LOCAL \<and>
     (\<forall>publisher. pk_publisher m = Some publisher \<longrightarrow> trusted_publishers p publisher = None)"

lemma check_signature_Inr: "check_signature cx m bytes key contents = Inr () \<longleftrightarrow> trim contents \<noteq> [] \<and>
    (\<exists>b s. cx_base64 cx (trim contents) = Inr b \<and> cx_signature cx b = Inr s \<and> cx_verify cx key bytes s = Inr ())"
  by (auto simp: check_signature_def Let_def split: sum.splits)

lemma checks_publisher: "check_pin p m = Inr () \<and> check_revoked p m = Inr () \<longleftrightarrow> publisher_allowed p m"
  by (auto simp: check_pin_def check_revoked_def publisher_allowed_def split: option.splits)

text \<open>
  A package passes the trust policy exactly when its publisher is the one its id is pinned to and
  is not revoked, and either its \<open>plugin.sig\<close> is a signature of the very bytes of its manifest by the key
  trusted for that publisher, or it has no \<open>plugin.sig\<close> and the policy lets it do without: signatures are
  not required, or it is of the tier \<open>unsigned_local\<close> and names no trusted publisher.
\<close>

lemma verify_signature_iff: "verify_manifest_signature cx fs p m bytes dir = Inr () \<longleftrightarrow> publisher_allowed p m \<and>
    (signed_by_trusted cx fs p m bytes dir \<or> \<not> has_signature fs dir \<and> unsigned_allowed p m)"
proof (cases "publisher_allowed p m")
  case True
  then have c: "check_pin p m = Inr ()" "check_revoked p m = Inr ()" using checks_publisher [of p m] by auto
  show ?thesis
    using True by (auto simp: verify_manifest_signature_def c Let_def has_signature_def [symmetric]
        signed_by_trusted_def unsigned_allowed_def check_signature_Inr split: option.splits)
next
  case False
  then have "check_pin p m \<noteq> Inr () \<or> check_revoked p m \<noteq> Inr ()" using checks_publisher [of p m] by auto
  then show ?thesis using False
    by (cases "check_pin p m"; cases "check_revoked p m") (auto simp: verify_manifest_signature_def Let_def)
qed

text \<open>
  \<^bold>\<open>C23.\<close> The default policy, which says that signatures are required and trusts nobody, admits a package
  exactly when it carries no \<open>plugin.sig\<close> and claims no tier above \<open>unsigned_local\<close>, the tier of a manifest
  that names none: the unsigned packages pass and every signed one is turned away.
\<close>

theorem default_policy_admits_unsigned_only:
  "verify_manifest_signature cx fs default_trust_policy m manifest_bytes version_dir = Inr () \<longleftrightarrow>
     \<not> has_signature fs version_dir \<and> quality_tier m = ''unsigned_local''"
  by (auto simp: verify_signature_iff publisher_allowed_def signed_by_trusted_def unsigned_allowed_def
      default_trust_policy_def QUALITY_TIER_UNSIGNED_LOCAL_def)

subsection \<open>What loading one plugin establishes\<close>

text \<open>The file that a package runs: below its payload, and with the digest its manifest names, if any.\<close>

definition entrypoint_of :: "package_manifest \<Rightarrow> string \<Rightarrow> string" where
  "entrypoint_of m version_dir = path_join (path_join version_dir ''payload'') (backslashed (trim (pk_entrypoint m)))"

definition entrypoint_ok :: "('v, 'k, 'g) loader_env \<Rightarrow> package_manifest \<Rightarrow> string \<Rightarrow> bool" where
  "entrypoint_ok le m version_dir \<longleftrightarrow> fs_is_file (le_fs le) (entrypoint_of m version_dir) \<and>
     ParentDir \<notin> set (path_components (backslashed (trim (pk_entrypoint m)))) \<and>
     (\<forall>sha. pk_entrypoint_sha256 m = Some sha \<longrightarrow> (\<exists>bytes. fs_read (le_fs le) (entrypoint_of m version_dir) = Inr bytes \<and>
        to_ascii_lowercase (sha256_hex le bytes) = to_ascii_lowercase (trim sha)))"

text \<open>The scopes and controls a plugin runs under stay in their ranges.\<close>

definition controls_in_range :: "operational_controls \<Rightarrow> bool" where
  "controls_in_range c \<longleftrightarrow> oc_timeout_ms c \<in> {1..600000} \<and> oc_max_retries c \<le> 5 \<and>
     oc_max_calls_per_minute c \<in> {1..10000} \<and> oc_circuit_breaker_failures c \<in> {1..100} \<and>
     oc_circuit_breaker_cooldown_ms c \<in> {100..600000}"

definition safe_relative :: "string \<Rightarrow> bool" where
  "safe_relative p \<longleftrightarrow> p \<noteq> [] \<and> \<not> starts_with ''/'' p \<and> ParentDir \<notin> set (path_components p)"

lemma normalize_controls_range: "normalize_controls m = Inr c \<Longrightarrow> controls_in_range c"
  by (auto simp: normalize_controls_def Let_def controls_in_range_def package_consts split: if_splits)

lemma normalize_scopes_paths:
  assumes "normalize_scopes m = Inr s"
  shows "(\<forall>p\<in>set (cs_fs_read_paths s). safe_relative p) \<and>
    (cs_fs_read_paths s \<noteq> [] \<longleftrightarrow> CapFsRead \<in> set (pm_capabilities m))"
proof -
  obtain ps where ps: "traverseR (\<lambda>p. normalize_safe_relative_path p ''capability_scopes.fs_read_paths'')
        (cs_fs_read_paths (pk_capability_scopes m)) = Inr ps"
    using assms by (auto simp: normalize_scopes_def Let_def)
  then have "cs_fs_read_paths s = ps \<and> (ps \<noteq> [] \<longleftrightarrow> CapFsRead \<in> set (pm_capabilities m))"
    using assms by (auto simp: normalize_scopes_def Let_def split: if_splits)
  moreover have "\<forall>p\<in>set ps. safe_relative p"
    using ps unfolding traverseR_Inr_iff
    by (induction rule: list_all2_induct) (auto simp: safe_path_iff safe_relative_def)
  ultimately show ?thesis by auto
qed

lemma check_entrypoint_ok:
  assumes "normalize_safe_relative_path (pk_entrypoint m) f = Inr rel"
    "check_entrypoint le m rel (path_join (path_join version_dir ''payload'') rel) = Inr ()"
  shows "entrypoint_ok le m version_dir"
  using assms by (auto simp: safe_path_iff entrypoint_ok_def entrypoint_of_def check_entrypoint_def
      split: if_splits option.splits)

text \<open>What the tool of a loaded plugin is, given the package it comes from.\<close>

definition tool_of_package :: "package_manifest \<Rightarrow> string \<Rightarrow> installed_tool \<Rightarrow> bool" where
  "tool_of_package m version_dir t \<longleftrightarrow> it_plugin_id t = pm_id m \<and> it_entrypoint_abs t = entrypoint_of m version_dir \<and>
     resolve_tool_name m = Inr (it_tool_name t) \<and> CapToolProvider \<in> set (pm_capabilities m) \<and>
     CapFsWrite \<notin> set (pm_capabilities m) \<and> CapCommandExecution \<notin> set (pm_capabilities m) \<and>
     normalize_scopes m = Inr (it_scopes t) \<and> controls_in_range (it_controls t) \<and>
     (sb_allow_fs_read (it_sandbox_policy t) \<longleftrightarrow> CapFsRead \<in> set (pm_capabilities m)) \<and>
     sb_network_allow_hosts (it_sandbox_policy t) = (if CapNetworkEgress \<in> set (pm_capabilities m)
       then cs_network_allow_hosts (pk_capability_scopes m) else []) \<and>
     sb_fuel_budget (it_sandbox_policy t) \<le> MAX_FUEL_BUDGET \<and> \<not> sb_allow_move_servo (it_sandbox_policy t)"

definition model_of_package :: "package_manifest \<Rightarrow> string \<Rightarrow> installed_model \<Rightarrow> bool" where
  "model_of_package m version_dir p \<longleftrightarrow> im_plugin_id p = pm_id m \<and> im_entrypoint_abs p = entrypoint_of m version_dir \<and>
     CapModelProvider \<in> set (pm_capabilities m) \<and>
     set (pm_capabilities m) \<inter> {CapFsRead, CapFsWrite, CapCommandExecution} = {} \<and>
     (\<exists>profile. im_provider_profile p = Some profile \<and> pk_provider_profile m = Some profile \<and>
        validate_profile profile = Inr () \<and> im_provider_name p = pp_provider_name profile) \<and>
     normalize_scopes m = Inr (im_scopes p) \<and> controls_in_range (im_controls p)"

lemma sandbox_from_manifest_policy:
  assumes "sandbox_from_manifest m = Inr s"
  shows "(sb_allow_fs_read s \<longleftrightarrow> CapFsRead \<in> set (pm_capabilities m)) \<and>
    sb_network_allow_hosts s = (if CapNetworkEgress \<in> set (pm_capabilities m)
      then cs_network_allow_hosts (pk_capability_scopes m) else []) \<and>
    sb_fuel_budget s \<le> MAX_FUEL_BUDGET \<and> \<not> sb_allow_move_servo s"
  using assms by (auto simp: sandbox_from_manifest_def Let_def locked_down_def MAX_FUEL_BUDGET_def
      split: if_splits option.splits)

lemma load_tool_of_package:
  assumes "load_tool m (entrypoint_of m version_dir) scopes controls = Inr t" "normalize_scopes m = Inr scopes"
    "normalize_controls m = Inr controls"
  shows "tool_of_package m version_dir t"
  using assms(1,2) normalize_controls_range [OF assms(3)]
  by (auto simp: load_tool_def tool_of_package_def Let_def split: if_splits dest!: sandbox_from_manifest_policy)

lemma load_model_of_package:
  assumes "load_model le m (entrypoint_of m version_dir) scopes controls = Inr p" "normalize_scopes m = Inr scopes"
    "normalize_controls m = Inr controls"
  shows "model_of_package m version_dir p"
  using assms(1,2) normalize_controls_range [OF assms(3)]
  by (auto simp: load_model_def model_of_package_def resolve_model_provider_profile_def resolved_provider_profile_def
      resolve_model_provider_name_def split: if_splits option.splits)

text \<open>A package that loads, and what becomes of it.\<close>

definition package_loaded :: "('v, 'k, 'g) loader_env \<Rightarrow> package_manifest \<Rightarrow> string \<Rightarrow> factory_data \<Rightarrow> bool" where
  "package_loaded le m version_dir d \<longleftrightarrow> fd_manifest d = to_core_manifest m \<and>
     validate_manifest (le_semver le) (to_core_manifest m) = Inr () \<and> entrypoint_ok le m version_dir \<and>
     (case (fd_tool d, fd_model_provider d) of
        (Some t, None) \<Rightarrow> fd_runtime d = DEFAULT_TOOL_RUNTIME_KIND \<and> tool_of_package m version_dir t
      | (None, Some p) \<Rightarrow> fd_runtime d = DEFAULT_MODEL_RUNTIME_KIND \<and> model_of_package m version_dir p
      | _ \<Rightarrow> False)"

lemma instantiate_package_loaded:
  assumes "instantiate_package le m version_dir = Inr d" "check_runtime m = Inr ()"
    "validate_manifest (le_semver le) (to_core_manifest m) = Inr ()"
  shows "package_loaded le m version_dir d"
proof -
  obtain rel where rel: "normalize_safe_relative_path (pk_entrypoint m) ''entrypoint'' = Inr rel"
    using assms(1) by (auto simp: instantiate_package_def)
  then have abs: "path_join (path_join version_dir ''payload'') rel = entrypoint_of m version_dir"
    by (auto simp: safe_path_iff entrypoint_of_def)
  have c: "check_entrypoint le m rel (entrypoint_of m version_dir) = Inr ()"
    using assms(1) rel abs by (auto simp: instantiate_package_def Let_def)
  then have ok: "entrypoint_ok le m version_dir" using check_entrypoint_ok [OF rel, of le version_dir] by (simp add: abs)
  obtain scopes controls where sc: "normalize_scopes m = Inr scopes" "normalize_controls m = Inr controls"
    using assms(1) rel abs by (auto simp: instantiate_package_def Let_def)
  note d = assms(1) [unfolded instantiate_package_def rel bindR_simps Let_def abs c sc]
  show ?thesis
  proof (cases "runtime_kind m = DEFAULT_TOOL_RUNTIME_KIND")
    case True
    then obtain t where t: "load_tool m (entrypoint_of m version_dir) scopes controls = Inr t" using d by auto
    show ?thesis using d True assms(3) ok load_tool_of_package [OF t sc] by (auto simp: package_loaded_def t)
  next
    case False
    then obtain p where p: "load_model le m (entrypoint_of m version_dir) scopes controls = Inr p" using d by auto
    have "runtime_kind m = DEFAULT_MODEL_RUNTIME_KIND"
      using assms(2) False by (auto simp: check_runtime_def Let_def split: if_splits)
    then show ?thesis using d False assms(3) ok load_model_of_package [OF p sc] by (auto simp: package_loaded_def p)
  qed
qed

lemma read_package_Inr: "read_package le version_dir = Inr (m, bytes) \<longleftrightarrow>
    fs_read (le_fs le) (path_join version_dir ''plugin.json'') = Inr bytes \<and> le_package le bytes = Inr m"
  by (cases "fs_read (le_fs le) (path_join version_dir ''plugin.json'')") (auto simp: read_package_def Let_def split: sum.splits)

lemma load_one_plugin_Inr:
  assumes "load_one_plugin le trust plugin_dir = Inr d"
  shows "\<exists>version_dir m bytes. resolve_version_dir (le_semver le) (le_fs le) plugin_dir = Inr version_dir \<and>
    fs_read (le_fs le) (path_join version_dir ''plugin.json'') = Inr bytes \<and> le_package le bytes = Inr m \<and>
    path_file_name plugin_dir = Some (pm_id m) \<and>
    verify_manifest_signature le (le_fs le) trust m bytes version_dir = Inr () \<and>
    package_loaded le m version_dir d"
proof -
  obtain vd m bytes where l: "resolve_version_dir (le_semver le) (le_fs le) plugin_dir = Inr vd"
      "read_package le vd = Inr (m, bytes)" "path_file_name plugin_dir = Some (pm_id m)" "check_runtime m = Inr ()"
      "verify_manifest_signature le (le_fs le) trust m bytes vd = Inr ()"
      "validate_manifest (le_semver le) (to_core_manifest m) = Inr ()" "instantiate_package le m vd = Inr d"
    using assms by (auto simp: load_one_plugin_def split: option.splits if_splits)
  then show ?thesis using instantiate_package_loaded [OF l(7,4,6)] by (auto simp: read_package_Inr)
qed

text \<open>
  \<^bold>\<open>C21.\<close> Nothing of an installed plugin is loaded that the checks have not seen. Its directory bears its
  id; the version directory holds a manifest that decodes, validates and passes the trust policy, by the
  very bytes read; the file to run is the entrypoint, a path below the payload without \<open>..\<close>, and has the
  SHA-256 digest the manifest names, if it names one; and what comes of it is one tool or one model
  provider, as the runtime says, with the declared capability, none of those refused to that runtime, scopes
  of relative paths, controls in range and a sandbox that grants only what the manifest declares.
\<close>

theorem loaded_plugin_checked:
  assumes "load_one_plugin le trust plugin_dir = Inr d"
  shows "\<exists>version_dir m bytes. resolve_version_dir (le_semver le) (le_fs le) plugin_dir = Inr version_dir \<and>
    fs_read (le_fs le) (path_join version_dir ''plugin.json'') = Inr bytes \<and> le_package le bytes = Inr m \<and>
    path_file_name plugin_dir = Some (pm_id m) \<and> publisher_allowed trust m \<and>
    (signed_by_trusted le (le_fs le) trust m bytes version_dir \<or>
     \<not> has_signature (le_fs le) version_dir \<and> unsigned_allowed trust m) \<and>
    package_loaded le m version_dir d"
  using load_one_plugin_Inr [OF assms] by (auto simp: verify_signature_iff)

subsection \<open>The whole plugin home\<close>

lemma load_dirs_eq: "load_dirs le trust cfg dirs reg loaded = Inr (reg', loaded') \<longleftrightarrow>
    (\<exists>ds. list_all2 (\<lambda>dir d. load_one_plugin le trust dir = Inr d) dirs ds \<and> loaded' = loaded @ map loaded_entry ds \<and>
       register_plugins (le_semver le)
         (map (\<lambda>d. (installed_factory d, lc_core_version cfg, lc_security_policy cfg)) ds) reg = Inr reg')"
proof (induction dirs arbitrary: reg loaded)
  case Nil
  then show ?case by auto
next
  case (Cons dir dirs)
  have "(\<exists>ds. list_all2 (\<lambda>dir d. load_one_plugin le trust dir = Inr d) (dir # dirs) ds \<and> P ds) \<longleftrightarrow>
      (\<exists>d ds. load_one_plugin le trust dir = Inr d \<and>
         list_all2 (\<lambda>dir d. load_one_plugin le trust dir = Inr d) dirs ds \<and> P (d # ds))" for P
    by (auto simp: list_all2_Cons1)
  then show ?case by (auto simp: Cons.IH)
qed

text \<open>The registrations of a successful load, each decided by \<open>admissible\<close>.\<close>

lemma register_plugins_map_Inr:
  assumes "register_plugins sv (map (\<lambda>d. (f d, v, pol)) ds) reg = Inr reg'"
  shows "reg' = rev (map (\<lambda>d. (pm_id (pf_manifest (f d)), f d)) ds) @ reg \<and>
    (\<forall>d\<in>set ds. admissible sv (pf_manifest (f d)) v pol) \<and>
    (plugin_registry_wf reg \<longrightarrow> plugin_registry_wf reg')"
  using assms
  by (induction ds arbitrary: reg)
    (force simp: register_plugin_Inr_iff map_of_eq_None_iff)+

lemma load_dirs_Inr:
  assumes "load_dirs le trust cfg dirs [] [] = Inr (reg, loaded)"
  obtains ds where "list_all2 (\<lambda>dir d. load_one_plugin le trust dir = Inr d) dirs ds"
    "loaded = map loaded_entry ds" "plugin_registry_wf reg"
    "reg = rev (map (\<lambda>d. (pm_id (fd_manifest d), installed_factory d)) ds)"
    "\<forall>d\<in>set ds. admissible (le_semver le) (fd_manifest d) (lc_core_version cfg) (lc_security_policy cfg)"
proof -
  obtain ds where ds: "list_all2 (\<lambda>dir d. load_one_plugin le trust dir = Inr d) dirs ds" "loaded = map loaded_entry ds"
      "register_plugins (le_semver le)
         (map (\<lambda>d. (installed_factory d, lc_core_version cfg, lc_security_policy cfg)) ds) [] = Inr reg"
    using assms unfolding load_dirs_eq by auto
  show ?thesis
    using ds(1,2) register_plugins_map_Inr [OF ds(3)] by (intro that [of ds]) (auto simp: installed_factory_def)
qed

text \<open>The registry that the loaded packages leave.\<close>

definition registry_of :: "factory_data list \<Rightarrow> plugin_registry" where
  "registry_of ds = rev (map (\<lambda>d. (pm_id (fd_manifest d), installed_factory d)) ds)"

lemma manifest_installed [simp]: "pf_manifest (installed_factory d) = fd_manifest d"
  by (simp add: installed_factory_def)

lemma set_registry_of: "snd ` set (registry_of ds) = installed_factory ` set ds"
  by (force simp: registry_of_def)

lemma registry_of_wf: "plugin_registry_wf (registry_of ds) \<longleftrightarrow> distinct (map (pm_id \<circ> fd_manifest) ds)"
  by (auto simp: plugin_registry_wf_def registry_of_def rev_map [symmetric] comp_def)

lemma registry_of_get:
  assumes "plugin_registry_wf (registry_of ds)"
  shows "get_plugin (registry_of ds) pid = Some p \<longleftrightarrow> (\<exists>d\<in>set ds. pm_id (fd_manifest d) = pid \<and> p = installed_factory d)"
  unfolding get_plugin_Some_iff [OF assms] set_registry_of by auto

lemma load_installed_plugins_Inr:
  assumes "load_installed_plugins le hosts trust cfg = Inr l" "fs_exists (le_fs le) (lc_plugin_home cfg)"
  obtains dirs ds where "collect_plugin_dirs (le_fs le) (lc_plugin_home cfg) = Inr dirs"
    "list_all2 (\<lambda>dir d. load_one_plugin le trust dir = Inr d) dirs ds"
    "\<forall>d\<in>set ds. admissible (le_semver le) (fd_manifest d) (lc_core_version cfg) (lc_security_policy cfg)"
    "plugin_registry_wf (registry_of ds)" "ld_plugin_registry l = registry_of ds"
    "tool_registry_from (registry_of ds) = Inr (ld_tool_registry l)"
    "model_registry_from (registry_of ds) = Inr (ld_model_registry l)"
    "ld_loaded_plugins l = sort_key loaded_key (map loaded_entry ds)"
proof -
  obtain dirs reg loaded where h: "collect_plugin_dirs (le_fs le) (lc_plugin_home cfg) = Inr dirs"
      "load_dirs le trust cfg dirs [] [] = Inr (reg, loaded)" "with_registries reg (sort_key loaded_key loaded) = Inr l"
    using assms by (auto simp: load_installed_plugins_def)
  show ?thesis
    using h(2)
  proof (rule load_dirs_Inr)
    fix ds assume "list_all2 (\<lambda>dir d. load_one_plugin le trust dir = Inr d) dirs ds"
      "loaded = map loaded_entry ds" "plugin_registry_wf reg"
      "reg = rev (map (\<lambda>d. (pm_id (fd_manifest d), installed_factory d)) ds)"
      "\<forall>d\<in>set ds. admissible (le_semver le) (fd_manifest d) (lc_core_version cfg) (lc_security_policy cfg)"
    then show ?thesis using h(1,3)
      by (intro that [of dirs ds]) (auto simp: with_registries_def registry_of_def)
  qed
qed

text \<open>
  \<^bold>\<open>C22.\<close> Loading the plugin home is all or nothing and exact. If it succeeds, every directory of it was
  loaded, in the order of their names, and admitted under the security policy, no two under one id; a plugin
  is registered under an id exactly when one of the directories gave it; a tool name finds a tool exactly
  when one of them offers that tool, a provider and model name exactly when one of them offers that model;
  and the list of what was loaded names each of them once, in the order of its key.
\<close>

theorem installed_plugins_exact:
  assumes "load_installed_plugins le hosts trust cfg = Inr l" "fs_exists (le_fs le) (lc_plugin_home cfg)"
  shows "\<exists>dirs ds. collect_plugin_dirs (le_fs le) (lc_plugin_home cfg) = Inr dirs \<and>
    list_all2 (\<lambda>dir d. load_one_plugin le trust dir = Inr d) dirs ds \<and> distinct (map (pm_id \<circ> fd_manifest) ds) \<and>
    (\<forall>d\<in>set ds. admissible (le_semver le) (fd_manifest d) (lc_core_version cfg) (lc_security_policy cfg)) \<and>
    (\<forall>pid p. get_plugin (ld_plugin_registry l) pid = Some p \<longleftrightarrow>
       (\<exists>d\<in>set ds. pm_id (fd_manifest d) = pid \<and> p = installed_factory d)) \<and>
    (\<forall>nm t. tool_get (ld_tool_registry l) nm = Some t \<longleftrightarrow>
       (\<exists>d\<in>set ds. pf_tool (installed_factory d) = Some t \<and> trim (to_name t) = nm)) \<and>
    (\<forall>provider model x. get_by_provider_model (ld_model_registry l) provider model = Some x \<longleftrightarrow>
       (\<exists>d\<in>set ds. pf_model_provider (installed_factory d) = Some x \<and>
          provider_model_key (mp_provider_name x) (mp_model_name x) = provider_model_key provider model)) \<and>
    mset (ld_loaded_plugins l) = mset (map loaded_entry ds) \<and> sorted (map loaded_key (ld_loaded_plugins l))"
  using assms
proof (rule load_installed_plugins_Inr)
  fix dirs ds assume h: "collect_plugin_dirs (le_fs le) (lc_plugin_home cfg) = Inr dirs"
    "list_all2 (\<lambda>dir d. load_one_plugin le trust dir = Inr d) dirs ds"
    "\<forall>d\<in>set ds. admissible (le_semver le) (fd_manifest d) (lc_core_version cfg) (lc_security_policy cfg)"
    and wf: "plugin_registry_wf (registry_of ds)" and reg: "ld_plugin_registry l = registry_of ds"
    "ld_loaded_plugins l = sort_key loaded_key (map loaded_entry ds)"
    and tools: "tool_registry_from (registry_of ds) = Inr (ld_tool_registry l)"
    and models: "model_registry_from (registry_of ds) = Inr (ld_model_registry l)"
  show ?thesis
    using h reg wf tool_registry_exact [OF wf tools] model_registry_exact [OF wf models]
    by (intro exI [of _ dirs] exI [of _ ds]) (auto simp: registry_of_wf registry_of_get [OF wf] set_registry_of)
qed

subsection \<open>Versions, and one package that stops all others\<close>

text \<open>The directories whose name is a version.\<close>

definition version_of :: "'v semver \<Rightarrow> dir_entry kelvin_result \<Rightarrow> ('v \<times> string) option" where
  "version_of sv e = (case e of Inl _ \<Rightarrow> None | Inr entry \<Rightarrow>
     if de_is_dir entry = Inr True \<and> de_name entry \<noteq> ''current''
     then (case sv_parse sv (de_name entry) of Inr v \<Rightarrow> Some (v, de_name entry) | Inl _ \<Rightarrow> None) else None)"

definition version_order :: "'v semver \<Rightarrow> bool" where
  "version_order sv \<longleftrightarrow> (\<forall>a. \<not> sv_less sv a a) \<and> (\<forall>a b. sv_less sv a b \<longrightarrow> \<not> sv_less sv b a) \<and>
     (\<forall>a b c. \<not> sv_less sv a b \<longrightarrow> \<not> sv_less sv b c \<longrightarrow> \<not> sv_less sv a c)"

definition higher :: "'v semver \<Rightarrow> 'v \<times> string \<Rightarrow> ('v \<times> string) option \<Rightarrow> ('v \<times> string) option" where
  "higher sv x best = (case best of
     Some b \<Rightarrow> if \<not> sv_less sv (fst b) (fst x) then Some b else Some x | None \<Rightarrow> Some x)"

lemma best_version_fold: "best_version sv es best = Inr res \<Longrightarrow>
    res = fold (higher sv) (List.map_filter (version_of sv) es) best"
proof (induction es arbitrary: best)
  case (Cons e es)
  then obtain entry dir where e: "e = Inr entry" "de_is_dir entry = Inr dir" by auto
  show ?case
  proof (cases "version_of sv e")
    case None
    then have "best_version sv es best = Inr res"
      using Cons.prems e by (auto simp: version_of_def split: if_splits sum.splits)
    then show ?thesis using Cons.IH None by (simp add: List.map_filter_simps)
  next
    case (Some x)
    then obtain v where v: "x = (v, de_name entry)" "sv_parse sv (de_name entry) = Inr v"
        "dir" "de_name entry \<noteq> ''current''"
      using e by (auto simp: version_of_def split: if_splits sum.splits)
    have "best_version sv es (higher sv x best) = Inr res"
      using Cons.prems e v by (cases best) (auto simp: higher_def split: if_splits)
    then show ?thesis using Cons.IH Some by (simp add: List.map_filter_simps)
  qed
qed (simp add: List.map_filter_simps)

lemma fold_higher:
  assumes "version_order sv"
  shows "\<exists>b. fold (higher sv) xs (Some y) = Some b \<and> b \<in> set (y # xs) \<and>
    (\<forall>x\<in>set (y # xs). \<not> sv_less sv (fst b) (fst x))"
proof (induction xs arbitrary: y)
  case Nil
  have "\<not> sv_less sv (fst y) (fst y)" using assms unfolding version_order_def by blast
  then show ?case by simp
next
  case (Cons x xs)
  let ?m = "if \<not> sv_less sv (fst y) (fst x) then y else x"
  have irrefl: "\<not> sv_less sv (fst z) (fst z)" and asym: "sv_less sv (fst y) (fst x) \<Longrightarrow> \<not> sv_less sv (fst x) (fst y)" for z
    using assms unfolding version_order_def by blast+
  obtain b where b: "fold (higher sv) xs (Some ?m) = Some b" "b \<in> set (?m # xs)"
      "\<forall>z\<in>set (?m # xs). \<not> sv_less sv (fst b) (fst z)" using Cons.IH [of ?m] by blast
  have m: "\<not> sv_less sv (fst ?m) (fst y)" "\<not> sv_less sv (fst ?m) (fst x)"
    using irrefl asym by auto
  have "\<not> sv_less sv (fst b) (fst ?m)" using b(3) by simp
  then have "\<not> sv_less sv (fst b) (fst z)" if "\<not> sv_less sv (fst ?m) (fst z)" for z
    using that assms unfolding version_order_def by blast
  then have "\<not> sv_less sv (fst b) (fst y)" "\<not> sv_less sv (fst b) (fst x)" using m by blast+
  moreover have "fold (higher sv) (x # xs) (Some y) = Some b" using b(1) by (simp add: higher_def split: if_splits)
  moreover have "b \<in> set (y # x # xs)" using b(2) by (auto split: if_splits)
  ultimately show ?case using b(3) by simp
qed

text \<open>
  Without a link \<open>current\<close>, the directory of the highest version is the one that is loaded, whatever the order
  in which the directory lists its entries.
\<close>

theorem version_dir_highest:
  assumes "version_order sv" "resolve_version_dir sv fs plugin_dir = Inr version_dir"
    and "fs_link fs (path_join plugin_dir ''current'') = None"
  shows "\<exists>es v n. fs_entries fs plugin_dir = Inr es \<and> (\<exists>e\<in>set es. version_of sv e = Some (v, n)) \<and>
    version_dir = path_join plugin_dir n \<and>
    (\<forall>e\<in>set es. \<forall>x. version_of sv e = Some x \<longrightarrow> \<not> sv_less sv v (fst x))"
proof -
  obtain es v n where es: "fs_entries fs plugin_dir = Inr es" "best_version sv es None = Inr (Some (v, n))"
      "version_dir = path_join plugin_dir n"
    using assms(2,3) by (auto simp: resolve_version_dir_def Let_def split: option.splits)
  let ?xs = "List.map_filter (version_of sv) es"
  have f: "fold (higher sv) ?xs None = Some (v, n)" using best_version_fold [OF es(2)] by simp
  then obtain x xs where xs: "?xs = x # xs" by (cases ?xs) auto
  then have "(v, n) \<in> set ?xs \<and> (\<forall>x\<in>set ?xs. \<not> sv_less sv v (fst x))"
    using f fold_higher [OF assms(1), of xs x] by (auto simp: higher_def)
  then show ?thesis using es by (intro exI [of _ es] exI [of _ v] exI [of _ n]) (force simp: set_mapfilter)
qed

text \<open>
  One package can keep every other from loading. A tool package that also declares the capability
  \<open>model_provider\<close> passes every check of its own and is registered, but offers no model, so that the
  model registry of the whole plugin home cannot be built and nothing is loaded.
\<close>

theorem dual_capability_blocks_all:
  assumes "fs_exists (le_fs le) (lc_plugin_home cfg)"
    "collect_plugin_dirs (le_fs le) (lc_plugin_home cfg) = Inr dirs" "plugin_dir \<in> set dirs"
    "load_one_plugin le trust plugin_dir = Inr d" "fd_tool d = Some t"
    "CapModelProvider \<in> set (pm_capabilities (fd_manifest d))"
  shows "\<exists>e. load_installed_plugins le hosts trust cfg = Inl e"
proof (rule ccontr)
  assume "\<nexists>e. load_installed_plugins le hosts trust cfg = Inl e"
  then obtain l where "load_installed_plugins le hosts trust cfg = Inr l"
    by (cases "load_installed_plugins le hosts trust cfg") auto
  then obtain dirs' ds where h: "collect_plugin_dirs (le_fs le) (lc_plugin_home cfg) = Inr dirs'"
      "list_all2 (\<lambda>dir d. load_one_plugin le trust dir = Inr d) dirs' ds"
    and wf: "plugin_registry_wf (registry_of ds)"
    and models: "model_registry_from (registry_of ds) = Inr (ld_model_registry l)"
    using assms(1) by (rule load_installed_plugins_Inr)
  have "d \<in> set ds" using h assms(2-4) by (fastforce simp: list_all2_conv_all_nth in_set_conv_nth)
  then have "model_agrees (installed_factory d)"
    using model_registry_exact [OF wf models] by (simp add: set_registry_of)
  moreover have "fd_model_provider d = None"
    using load_one_plugin_Inr [OF assms(4)] assms(5) by (auto simp: package_loaded_def split: option.splits)
  ultimately show False using assms(6) by (simp add: model_agrees_def installed_factory_def)
qed

subsection \<open>The theorems at a concrete plugin home\<close>

text \<open>A home with one package of two versions, whose manifest is given, and a signature scheme that signs by a tag.\<close>

definition demo_package :: "plugin_capability list \<Rightarrow> package_manifest" where
  "demo_package caps = plugin_manifest.extend (demo_manifest ''acme.echo'' caps)
     \<lparr>pk_runtime = None, pk_tool_name = Some ''echo'', pk_provider_name = None, pk_provider_profile = None,
      pk_model_name = None, pk_entrypoint = ''echo.wasm'', pk_entrypoint_sha256 = Some ''0A'', pk_publisher = Some ''acme'',
      pk_quality_tier = None, pk_capability_scopes = \<lparr>cs_fs_read_paths = [''data''], cs_network_allow_hosts = [],
        cs_env_allow = []\<rparr>, pk_operational_controls = default_controls, pk_tool_input_schema = None\<rparr>"

definition demo_fs :: file_system where
  "demo_fs = \<lparr>fs_exists = (\<lambda>p. p = ''h''), fs_is_dir = (\<lambda>_. False),
     fs_is_file = (\<lambda>p. p \<in> {''h/acme.echo/1.2.3/plugin.sig'', ''h/acme.echo/1.2.3/payload/echo.wasm''}),
     fs_link = (\<lambda>_. None),
     fs_entries = (\<lambda>p. if p = ''h'' then Inr [Inr \<lparr>de_name = ''acme.echo'', de_is_dir = Inr True\<rparr>]
       else if p = ''h/acme.echo'' then Inr [Inr \<lparr>de_name = ''1.0.0'', de_is_dir = Inr True\<rparr>,
         Inr \<lparr>de_name = ''1.2.3'', de_is_dir = Inr True\<rparr>, Inr \<lparr>de_name = ''notes'', de_is_dir = Inr False\<rparr>]
       else Inl (Io ''not found'')),
     fs_read = (\<lambda>p. if p = ''h/acme.echo/1.2.3/plugin.json'' then Inr [7]
       else if p = ''h/acme.echo/1.2.3/payload/echo.wasm'' then Inr [10] else Inl (Io ''not found'')),
     fs_read_text = (\<lambda>p. Inr ''s7'')\<rparr>"

definition demo_loader :: "plugin_capability list \<Rightarrow> (nat \<times> nat \<times> nat, nat, nat) loader_env" where
  "demo_loader caps = \<lparr>cx_base64 = (\<lambda>s. Inr (map of_char s)), cx_key = (\<lambda>_. Inr 0), cx_signature = (\<lambda>b. Inr (last b - 48)),
     cx_verify = (\<lambda>key bytes signature. if bytes = [signature] then Inr () else Inl ''signature error''),
     cx_sha256 = (\<lambda>bytes. bytes), le_semver = demo_semver, le_package = (\<lambda>_. Inr (demo_package caps)),
     le_policy = (\<lambda>_. Inl ''no policy''), le_imports = (\<lambda>_. []), le_fs = demo_fs\<rparr>"

definition demo_trust :: "nat trust_policy" where
  "demo_trust = default_trust_policy\<lparr>trusted_publishers := [''acme'' \<mapsto> 0]\<rparr>"

definition demo_config :: loader_config where
  "demo_config = \<lparr>lc_plugin_home = ''h'', lc_core_version = ''0.2.0'', lc_security_policy = demo_policy\<rparr>"

lemmas demo_home_simps = demo_fs_def demo_loader_def demo_trust_def demo_config_def default_trust_policy_def
  path_join_def path_file_name_def path_components_def segment_component_def List.map_filter_simps

lemma demo_selectors: "le_fs (demo_loader caps) = demo_fs" "le_semver (demo_loader caps) = demo_semver"
    "le_package (demo_loader caps) b = Inr (demo_package caps)" "fs_exists demo_fs ''h''" "lc_plugin_home demo_config = ''h''"
    "lc_core_version demo_config = ''0.2.0''" "lc_security_policy demo_config = demo_policy"
  by (simp_all add: demo_loader_def demo_fs_def demo_config_def)

lemma demo_version_dir: "resolve_version_dir demo_semver demo_fs ''h/acme.echo'' = Inr ''h/acme.echo/1.2.3''"
  by (simp add: resolve_version_dir_def demo_home_simps demo_plugin_eval Let_def)

lemma demo_dirs: "collect_plugin_dirs demo_fs ''h'' = Inr [''h/acme.echo'']"
  by (simp add: collect_plugin_dirs_def collect_dirs_def demo_home_simps str_eval)

definition demo_tool :: installed_tool where
  "demo_tool = \<lparr>it_plugin_id = ''acme.echo'', it_plugin_version = ''1.2.3'', it_tool_name = ''echo'', it_tool_description = [],
     it_tool_input_schema = JObj [(''type'', JStr ''object'')],
     it_entrypoint_abs = ''h/acme.echo/1.2.3/payload/echo.wasm'', it_sandbox_policy = locked_down\<lparr>sb_allow_fs_read := True\<rparr>,
     it_scopes = \<lparr>cs_fs_read_paths = [''data''], cs_network_allow_hosts = [], cs_env_allow = []\<rparr>,
     it_controls = operational_controls.truncate default_controls\<rparr>"

lemma demo_load:
  assumes "caps = [CapToolProvider, CapFsRead] \<or> caps = [CapToolProvider, CapFsRead, CapModelProvider]"
  shows "load_one_plugin (demo_loader caps) demo_trust ''h/acme.echo'' =
    Inr \<lparr>fd_manifest = demo_manifest ''acme.echo'' caps, fd_tool = Some demo_tool, fd_model_provider = None,
      fd_runtime = ''wasm_tool_v1'', fd_publisher = Some ''acme''\<rparr>"
proof -
  let ?m = "demo_package caps"
  have m: "pm_id ?m = ''acme.echo''" "pm_version ?m = ''1.2.3''" "pk_publisher ?m = Some ''acme''"
      "to_core_manifest ?m = demo_manifest ''acme.echo'' caps" "runtime_kind ?m = ''wasm_tool_v1''"
      "quality_tier ?m = ''unsigned_local''" "pk_entrypoint ?m = ''echo.wasm''" "pk_entrypoint_sha256 ?m = Some ''0A''"
      "pm_capabilities ?m = caps" "pk_tool_name ?m = Some ''echo''" "pm_description ?m = None"
      "pk_tool_input_schema ?m = None" "pk_provider_profile ?m = None" "pk_operational_controls ?m = default_controls"
      "pk_capability_scopes ?m = \<lparr>cs_fs_read_paths = [''data''], cs_network_allow_hosts = [], cs_env_allow = []\<rparr>"
    by (simp_all add: demo_package_def plugin_manifest.defs to_core_manifest_def demo_manifest_def runtime_kind_def
        quality_tier_def opt_or_def package_consts str_eval)
  have verify: "verify_manifest_signature (demo_loader caps) demo_fs demo_trust ?m [7] ''h/acme.echo/1.2.3'' = Inr ()"
    unfolding verify_signature_iff
    by (simp add: publisher_allowed_def signed_by_trusted_def has_signature_def m demo_home_simps str_eval)
  have "validate_manifest demo_semver (demo_manifest ''acme.echo'' caps) = Inr ()"
    using assms by (auto simp: demo_plugin_eval)
  moreover have "normalize_safe_relative_path ''echo.wasm'' f = Inr ''echo.wasm''" for f
    by (simp add: safe_path_iff demo_home_simps backslashed_def str_eval)
  moreover have "check_entrypoint (demo_loader caps) ?m ''echo.wasm'' ''h/acme.echo/1.2.3/payload/echo.wasm'' = Inr ()"
    by (simp add: check_entrypoint_def m demo_home_simps sha256_hex_def hex_digit_def str_eval)
  moreover have "normalize_scopes ?m = Inr \<lparr>cs_fs_read_paths = [''data''], cs_network_allow_hosts = [], cs_env_allow = []\<rparr>"
    using assms by (auto simp: normalize_scopes_def m normalize_safe_relative_path_def backslashed_def demo_home_simps
        package_consts Let_def str_eval)
  moreover have "normalize_controls ?m = Inr (operational_controls.truncate default_controls)"
    by (simp add: normalize_controls_def m default_controls_def package_consts operational_controls.defs)
  moreover have "load_tool ?m ''h/acme.echo/1.2.3/payload/echo.wasm''
      \<lparr>cs_fs_read_paths = [''data''], cs_network_allow_hosts = [], cs_env_allow = []\<rparr>
      (operational_controls.truncate default_controls) = Inr demo_tool"
    using assms by (auto simp: load_tool_def m resolve_tool_name_def resolve_name_def opt_or_def identifier_char_def
        sandbox_from_manifest_def default_controls_def demo_tool_def package_consts Let_def str_eval)
  moreover have "path_join ''h/acme.echo/1.2.3'' ''plugin.json'' = ''h/acme.echo/1.2.3/plugin.json''"
      "path_join (path_join ''h/acme.echo/1.2.3'' ''payload'') ''echo.wasm'' = ''h/acme.echo/1.2.3/payload/echo.wasm''"
      "path_file_name ''h/acme.echo'' = Some ''acme.echo''" "fs_read demo_fs ''h/acme.echo/1.2.3/plugin.json'' = Inr [7]"
    by (simp_all add: demo_home_simps str_eval)
  ultimately show ?thesis
    using verify by (simp add: demo_selectors load_one_plugin_def read_package_def m demo_version_dir check_runtime_def
        instantiate_package_def package_consts)
qed

lemma demo_installed: "\<exists>l. load_installed_plugins (demo_loader [CapToolProvider, CapFsRead]) (Inr ()) demo_trust demo_config = Inr l"
proof -
  let ?d = "\<lparr>fd_manifest = demo_manifest ''acme.echo'' [CapToolProvider, CapFsRead], fd_tool = Some demo_tool,
    fd_model_provider = None, fd_runtime = ''wasm_tool_v1'', fd_publisher = Some ''acme''\<rparr>"
  let ?f = "installed_factory ?d"
  have "admissible demo_semver (pf_manifest ?f) ''0.2.0'' demo_policy"
    using demo_admissible(1) by (simp add: demo_tool_plugin_def)
  then have "register_plugin demo_semver ?f ''0.2.0'' demo_policy [] = Inr [(''acme.echo'', ?f)]"
    by (simp add: register_plugin_Inr_iff demo_manifest_def)
  then have dirs: "load_dirs (demo_loader [CapToolProvider, CapFsRead]) demo_trust demo_config [''h/acme.echo''] [] [] =
      Inr ([(''acme.echo'', ?f)], [loaded_entry ?d])"
    using demo_load [of "[CapToolProvider, CapFsRead]"] by (simp add: demo_selectors)
  have "load_installed_plugins (demo_loader [CapToolProvider, CapFsRead]) (Inr ()) demo_trust demo_config =
      with_registries [(''acme.echo'', ?f)] [loaded_entry ?d]"
    unfolding load_installed_plugins_def demo_selectors demo_dirs bindR_simps dirs by (simp add: demo_selectors)
  moreover have "\<exists>l. with_registries [(''acme.echo'', ?f)] ls = Inr l" for ls
    by (simp add: with_registries_def tool_registry_from_def model_registry_from_def manifests_def get_plugin_def
        installed_factory_def demo_manifest_def demo_tool_def add_plugin_tool_def add_plugin_model_def str_eval Let_def)
  ultimately show ?thesis by simp
qed

theorem loaded_plugin_checked_witness:
  "\<exists>version_dir m bytes. resolve_version_dir demo_semver demo_fs ''h/acme.echo'' = Inr version_dir \<and>
     le_package (demo_loader [CapToolProvider, CapFsRead]) bytes = Inr m \<and> publisher_allowed demo_trust m \<and>
     signed_by_trusted (demo_loader [CapToolProvider, CapFsRead]) demo_fs demo_trust m bytes version_dir"
  using loaded_plugin_checked [OF demo_load [of "[CapToolProvider, CapFsRead]"], simplified] demo_version_dir
  by (auto simp: demo_selectors has_signature_def demo_fs_def path_join_def starts_with_def)

theorem version_dir_highest_witness:
  "\<exists>es v n. fs_entries demo_fs ''h/acme.echo'' = Inr es \<and> n = ''1.2.3'' \<and>
     (\<forall>e\<in>set es. \<forall>x. version_of demo_semver e = Some x \<longrightarrow> \<not> sv_less demo_semver v (fst x))"
proof -
  have "version_order demo_semver" by (auto simp: version_order_def demo_semver_def)
  moreover have "fs_link demo_fs (path_join ''h/acme.echo'' ''current'') = None" by (simp add: demo_fs_def)
  ultimately show ?thesis using version_dir_highest [OF _ demo_version_dir] by blast
qed

theorem installed_plugins_exact_witness:
  "\<exists>l dirs ds. load_installed_plugins (demo_loader [CapToolProvider, CapFsRead]) (Inr ()) demo_trust demo_config = Inr l \<and>
     collect_plugin_dirs demo_fs ''h'' = Inr dirs \<and>
     list_all2 (\<lambda>dir d. load_one_plugin (demo_loader [CapToolProvider, CapFsRead]) demo_trust dir = Inr d) dirs ds \<and>
     mset (ld_loaded_plugins l) = mset (map loaded_entry ds)"
proof -
  obtain l where l: "load_installed_plugins (demo_loader [CapToolProvider, CapFsRead]) (Inr ()) demo_trust demo_config = Inr l"
    using demo_installed by blast
  have "fs_exists (le_fs (demo_loader [CapToolProvider, CapFsRead])) (lc_plugin_home demo_config)"
    by (simp add: demo_selectors)
  then show ?thesis using installed_plugins_exact [OF l] l by (fastforce simp: demo_selectors)
qed

theorem dual_capability_blocks_all_witness:
  "\<exists>e. load_installed_plugins (demo_loader [CapToolProvider, CapFsRead, CapModelProvider]) (Inr ()) demo_trust demo_config = Inl e"
  using dual_capability_blocks_all [OF _ _ _ demo_load [of "[CapToolProvider, CapFsRead, CapModelProvider]"],
      of demo_config "[''h/acme.echo'']" demo_tool "Inr ()"] demo_dirs
  by (simp add: demo_selectors demo_manifest_def)

end
