(* ===== verification/Provider_Response.thy ===== *)
theory Provider_Response
  imports Core_Types Model_Profile
begin

section \<open>Responses of model providers (kelvin-brain/src/installed_plugins.rs)\<close>

text \<open>
  What a model plugin returns is either a \<open>ModelOutput\<close> or the raw response of one of three provider
  protocols. The validators of the four schemas and the adapters to \<open>ModelOutput\<close> are here. A
  \<^verbatim>\<open>Result<_, String>\<close> is a sum with the message on the left. Parsing a string of JSON is the parameter
  \<open>parse\<close>, the \<open>Deserialize\<close> that serde derives for \<open>ModelOutput\<close> the parameter \<open>decode\<close>.
\<close>

subsection \<open>Reading a JSON value\<close>

definition json_get :: "json \<Rightarrow> string \<Rightarrow> json option" where
  "json_get j k = (case j of JObj kvs \<Rightarrow> map_of kvs k | _ \<Rightarrow> None)"

definition json_str :: "json \<Rightarrow> string option" where
  "json_str j = (case j of JStr s \<Rightarrow> Some s | _ \<Rightarrow> None)"

definition json_arr :: "json \<Rightarrow> json list option" where
  "json_arr j = (case j of JArr xs \<Rightarrow> Some xs | _ \<Rightarrow> None)"

definition json_u64 :: "json \<Rightarrow> nat option" where
  "json_u64 j = (case j of
     JNum s \<Rightarrow> if s \<noteq> [] \<and> list_all is_digit s \<and> digits_value 0 s \<le> u64_max then Some (digits_value 0 s) else None
   | _ \<Rightarrow> None)"

definition get_str :: "json \<Rightarrow> string \<Rightarrow> string option" where
  "get_str j k = Option.bind (json_get j k) json_str"

definition get_u64 :: "json \<Rightarrow> string \<Rightarrow> nat option" where
  "get_u64 j k = Option.bind (json_get j k) json_u64"

fun json_type_name :: "json \<Rightarrow> string" where
  "json_type_name JNull = ''null''"
| "json_type_name (JBool _) = ''boolean''"
| "json_type_name (JNum _) = ''number''"
| "json_type_name (JStr _) = ''string''"
| "json_type_name (JArr _) = ''array''"
| "json_type_name (JObj _) = ''object''"

abbreviation is_obj :: "json \<Rightarrow> bool" where "is_obj j \<equiv> json_type_name j = ''object''"
abbreviation is_arr :: "json \<Rightarrow> bool" where "is_arr j \<equiv> json_type_name j = ''array''"
abbreviation is_string :: "json \<Rightarrow> bool" where "is_string j \<equiv> json_type_name j = ''string''"
abbreviation is_null :: "json \<Rightarrow> bool" where "is_null j \<equiv> json_type_name j = ''null''"

text \<open>\<open>ok_or\<close>, the \<open>?\<close> operator and a loop with an index over checks that fail with a message.\<close>

definition ok_or :: "string \<Rightarrow> 'a option \<Rightarrow> string + 'a" where
  "ok_or e x = (case x of Some v \<Rightarrow> Inr v | None \<Rightarrow> Inl e)"

definition bindS :: "string + 'a \<Rightarrow> ('a \<Rightarrow> string + 'b) \<Rightarrow> string + 'b" where
  "bindS r k = (case r of Inl e \<Rightarrow> Inl e | Inr x \<Rightarrow> k x)"

definition require :: "bool \<Rightarrow> string \<Rightarrow> string + unit" where
  "require b e = (if b then Inr () else Inl e)"

fun each_indexed :: "(nat \<Rightarrow> 'a \<Rightarrow> string + unit) \<Rightarrow> nat \<Rightarrow> 'a list \<Rightarrow> string + unit" where
  "each_indexed f i [] = Inr ()"
| "each_indexed f i (x # xs) = bindS (f i x) (\<lambda>_. each_indexed f (Suc i) xs)"

lemma bindS_simps [simp]: "bindS (Inl e) k = Inl e" "bindS (Inr x) k = k x"
  by (simp_all add: bindS_def)

lemma check_simps [simp]: "ok_or e (Some v) = Inr v" "require True e = Inr ()"
  by (simp_all add: ok_or_def require_def)

lemma bindS_Inr: "bindS r k = Inr y \<longleftrightarrow> (\<exists>x. r = Inr x \<and> k x = Inr y)"
  by (cases r) (auto simp: bindS_def)

lemma ok_or_Inr: "ok_or e x = Inr v \<longleftrightarrow> x = Some v"
  by (cases x) (auto simp: ok_or_def)

lemma require_Inr: "require b e = Inr u \<longleftrightarrow> b"
  by (simp add: require_def)

lemma each_indexed_Inr: "each_indexed f i xs = Inr () \<longleftrightarrow> (\<forall>n<length xs. f (i + n) (xs ! n) = Inr ())"
proof (induction xs arbitrary: i)
  case (Cons x xs)
  have "(\<forall>n<length (x # xs). P n) \<longleftrightarrow> P 0 \<and> (\<forall>n<length xs. P (Suc n))" for P
    by (auto simp: less_Suc_eq_0_disj)
  then show ?case by (auto simp: Cons.IH bindS_Inr)
qed simp

subsection \<open>Schemas\<close>

definition at_index :: "string \<Rightarrow> nat \<Rightarrow> string" where
  "at_index what i = what @ ''['' @ show_nat i @ '']''"

definition validate_tool_call :: "nat \<Rightarrow> json \<Rightarrow> string + unit" where
  "validate_tool_call i tc = (let path = at_index ''tool_calls'' i in
     bindS (require (is_obj tc) (path @ '' is not a JSON object'')) (\<lambda>_.
     bindS (ok_or (path @ '' missing required field: id'') (json_get tc ''id'')) (\<lambda>tid.
     bindS (require (is_string tid) (path @ ''.id must be a string'')) (\<lambda>_.
     bindS (ok_or (path @ '' missing required field: name'') (json_get tc ''name'')) (\<lambda>nm.
     bindS (require (is_string nm) (path @ ''.name must be a string'')) (\<lambda>_.
     bindS (ok_or (path @ '' missing required field: arguments'') (json_get tc ''arguments'')) (\<lambda>args.
     bindS (require (is_obj args) (path @ ''.arguments must be a JSON object, got '' @ json_type_name args)) (\<lambda>_.
     require (trim (case json_str nm of Some s \<Rightarrow> s | None \<Rightarrow> []) \<noteq> []) (path @ ''.name must not be empty'')))))))))"

definition validate_model_output_schema :: "json \<Rightarrow> string + unit" where
  "validate_model_output_schema v =
     bindS (require (is_obj v) ''response is not a JSON object'') (\<lambda>_.
     bindS (ok_or ''missing required field: assistant_text'' (json_get v ''assistant_text'')) (\<lambda>a.
     bindS (require (is_string a) ''field 'assistant_text' must be a string'') (\<lambda>_.
     bindS (ok_or ''missing required field: tool_calls'' (json_get v ''tool_calls'')) (\<lambda>t.
     bindS (ok_or ''field 'tool_calls' must be an array'' (json_arr t)) (\<lambda>calls.
     bindS (each_indexed validate_tool_call 0 calls) (\<lambda>_.
     bindS (case json_get v ''stop_reason'' of None \<Rightarrow> Inr () | Some s \<Rightarrow>
       require (is_string s \<or> is_null s) ''field 'stop_reason' must be a string or null'') (\<lambda>_.
     case json_get v ''usage'' of None \<Rightarrow> Inr () | Some u \<Rightarrow>
       require (is_obj u \<or> is_null u) ''field 'usage' must be an object or null'')))))))"

definition validate_openai_item :: "nat \<Rightarrow> json \<Rightarrow> string + unit" where
  "validate_openai_item i item = (let path = at_index ''OpenAI Responses output'' i in
     bindS (require (is_obj item) (path @ '' is not a JSON object'')) (\<lambda>_.
     bindS (ok_or (path @ '' missing field: type'') (get_str item ''type'')) (\<lambda>ty.
     if ty = ''message'' then
       bindS (ok_or (path @ '' (type=message) missing field: content'') (json_get item ''content'')) (\<lambda>content.
       require (is_arr content) (path @ ''.content must be an array''))
     else if ty = ''function_call'' then
       require (json_get item ''call_id'' \<noteq> None \<or> json_get item ''name'' \<noteq> None)
         (path @ '' (type=function_call) must have 'call_id' or 'name'' @ [CHR 39])
     else Inl (path @ '' has unknown type: '' @ ty))))"

definition validate_openai_response_schema :: "json \<Rightarrow> string + unit" where
  "validate_openai_response_schema v =
     bindS (require (is_obj v) ''response is not a JSON object'') (\<lambda>_.
     let has_output_text = (get_str v ''output_text'' \<noteq> None);
         output = Option.bind (json_get v ''output'') json_arr in
     bindS (require (has_output_text \<or> output \<noteq> None)
       ''OpenAI Responses: must have 'output_text' (string) or 'output' (array)'') (\<lambda>_.
     case output of None \<Rightarrow> Inr () | Some items \<Rightarrow> each_indexed validate_openai_item 0 items))"

definition validate_anthropic_block :: "nat \<Rightarrow> json \<Rightarrow> string + unit" where
  "validate_anthropic_block i block = (let path = at_index ''Anthropic Messages content'' i in
     bindS (require (is_obj block) (path @ '' is not a JSON object'')) (\<lambda>_.
     bindS (ok_or (path @ '' missing field: type'') (get_str block ''type'')) (\<lambda>ty.
     if ty = ''text'' then require (json_get block ''text'' \<noteq> None) (path @ '' (type=text) missing field: text'')
     else if ty = ''tool_use'' then
       each_indexed (\<lambda>_ field. require (json_get block field \<noteq> None) (path @ '' (type=tool_use) missing field: '' @ field))
         0 [''id'', ''name'', ''input'']
     else Inl (path @ '' has unknown type: '' @ ty))))"

definition validate_anthropic_response_schema :: "json \<Rightarrow> string + unit" where
  "validate_anthropic_response_schema v =
     bindS (require (is_obj v) ''response is not a JSON object'') (\<lambda>_.
     bindS (ok_or ''Anthropic Messages: missing required field: content'' (json_get v ''content'')) (\<lambda>content.
     bindS (ok_or ''Anthropic Messages: field 'content' must be an array'' (json_arr content)) (\<lambda>blocks.
     each_indexed validate_anthropic_block 0 blocks)))"

definition validate_openai_chat_completions_schema :: "json \<Rightarrow> string + unit" where
  "validate_openai_chat_completions_schema v = (let what = ''OpenAI Chat Completions: '' in
     bindS (require (is_obj v) ''response is not a JSON object'') (\<lambda>_.
     bindS (ok_or (what @ ''missing required field: choices'') (json_get v ''choices'')) (\<lambda>choices.
     bindS (ok_or (what @ ''field 'choices' must be an array'') (json_arr choices)) (\<lambda>cs.
     case cs of [] \<Rightarrow> Inl (what @ ''choices array must not be empty'')
     | first # _ \<Rightarrow>
       bindS (require (is_obj first) (what @ ''choices[0] is not a JSON object'')) (\<lambda>_.
       bindS (ok_or (what @ ''choices[0] missing field: message'') (json_get first ''message'')) (\<lambda>message.
       bindS (require (is_obj message) (what @ ''choices[0].message must be a JSON object'')) (\<lambda>_.
       bindS (require (json_get message ''role'' \<noteq> None) (what @ ''choices[0].message missing field: role'')) (\<lambda>_.
       case json_get message ''tool_calls'' of None \<Rightarrow> Inr () | Some t \<Rightarrow>
         require (is_arr t \<or> is_null t) (what @ ''choices[0].message.tool_calls must be an array or null''))))))))) "

subsection \<open>Adapters\<close>

definition str_or_empty :: "json \<Rightarrow> string \<Rightarrow> string" where
  "str_or_empty j k = (case get_str j k of Some s \<Rightarrow> s | None \<Rightarrow> [])"

text \<open>The arguments of a call, given as a string of JSON; what does not parse becomes an empty object.\<close>

definition parsed_arguments :: "(string \<Rightarrow> json option) \<Rightarrow> string option \<Rightarrow> json" where
  "parsed_arguments parse s = (case Option.bind s parse of Some j \<Rightarrow> j | None \<Rightarrow> JObj [])"

text \<open>The sum of two token counts is the machine's, which wraps in a release build.\<close>

definition usage_of :: "string \<Rightarrow> string \<Rightarrow> json \<Rightarrow> model_usage option" where
  "usage_of input_key output_key usage = (let input = get_u64 usage input_key; output = get_u64 usage output_key;
       total = (case get_u64 usage ''total_tokens'' of Some t \<Rightarrow> Some t
         | None \<Rightarrow> (case (input, output) of (Some i, Some out) \<Rightarrow> Some ((i + out) mod 2 ^ 64) | _ \<Rightarrow> None)) in
     if input = None \<and> output = None \<and> total = None then None
     else Some \<lparr>mu_input_tokens = input, mu_output_tokens = output, mu_total_tokens = total\<rparr>)"

definition adapt_usage :: "json \<Rightarrow> model_usage option" where
  "adapt_usage usage = usage_of ''input_tokens'' ''output_tokens'' usage"

definition adapt_openrouter_usage :: "json \<Rightarrow> model_usage option" where
  "adapt_openrouter_usage usage = usage_of ''prompt_tokens'' ''completion_tokens'' usage"

text \<open>The texts of the blocks of a given type.\<close>

definition block_texts :: "string \<Rightarrow> json list \<Rightarrow> string list" where
  "block_texts ty blocks =
     List.map_filter (\<lambda>b. if get_str b ''type'' = Some ty then get_str b ''text'' else None) blocks"

definition openai_call :: "(string \<Rightarrow> json option) \<Rightarrow> json \<Rightarrow> tool_call" where
  "openai_call parse item = \<lparr>tc_id = str_or_empty item ''call_id'', tc_name = str_or_empty item ''name'',
     tc_arguments = parsed_arguments parse (get_str item ''arguments'')\<rparr>"

text \<open>
  The closure over the output items: the calls it pushes stay pushed when the \<open>?\<close> on a message without
  content leaves it, in which case there is no text.
\<close>

fun openai_items :: "(string \<Rightarrow> json option) \<Rightarrow> json list \<Rightarrow> tool_call list \<Rightarrow> string list \<Rightarrow>
    tool_call list \<times> string list option" where
  "openai_items parse [] calls parts = (calls, if parts = [] then None else Some parts)"
| "openai_items parse (item # items) calls parts =
     (if get_str item ''type'' = Some ''function_call'' then
        openai_items parse items (calls @ [openai_call parse item]) parts
      else if get_str item ''type'' \<noteq> Some ''message'' then openai_items parse items calls parts
      else case json_get item ''content'' of
        None \<Rightarrow> (calls, None)
      | Some content \<Rightarrow> (case json_arr content of
          None \<Rightarrow> openai_items parse items calls parts
        | Some blocks \<Rightarrow> openai_items parse items calls (parts @ block_texts ''output_text'' blocks)))"

definition newline :: string where "newline = [CHR 10]"

definition adapt_openai_response :: "(string \<Rightarrow> json option) \<Rightarrow> json \<Rightarrow> model_output option" where
  "adapt_openai_response parse v = (let
       (calls, output_text) = (case get_str v ''output_text'' of
           Some t \<Rightarrow> ([], Some t)
         | None \<Rightarrow> (case Option.bind (json_get v ''output'') json_arr of
             None \<Rightarrow> ([], None)
           | Some items \<Rightarrow> (case openai_items parse items [] [] of (cs, ps) \<Rightarrow> (cs, map_option (join_with newline) ps))));
       assistant_text = (case output_text of Some t \<Rightarrow> t | None \<Rightarrow> []) in
     if assistant_text = [] \<and> calls = [] then None
     else Some \<lparr>mo_assistant_text = assistant_text, mo_stop_reason = get_str v ''status'', mo_tool_calls = calls,
       mo_usage = Option.bind (json_get v ''usage'') adapt_usage\<rparr>)"

definition anthropic_call :: "json \<Rightarrow> tool_call" where
  "anthropic_call block = \<lparr>tc_id = str_or_empty block ''id'', tc_name = str_or_empty block ''name'',
     tc_arguments = (case json_get block ''input'' of Some j \<Rightarrow> j | None \<Rightarrow> JObj [])\<rparr>"

definition adapt_anthropic_response :: "json \<Rightarrow> model_output option" where
  "adapt_anthropic_response v = (case Option.bind (json_get v ''content'') json_arr of None \<Rightarrow> None
   | Some blocks \<Rightarrow>
     let parts = block_texts ''text'' blocks;
         calls = map anthropic_call (filter (\<lambda>b. get_str b ''type'' = Some ''tool_use'') blocks) in
     if parts = [] \<and> calls = [] then None
     else Some \<lparr>mo_assistant_text = join_with newline parts, mo_stop_reason = get_str v ''stop_reason'',
       mo_tool_calls = calls, mo_usage = Option.bind (json_get v ''usage'') adapt_usage\<rparr>)"

definition openrouter_call :: "(string \<Rightarrow> json option) \<Rightarrow> json \<Rightarrow> tool_call" where
  "openrouter_call parse tc = (let function = json_get tc ''function'' in
     \<lparr>tc_id = str_or_empty tc ''id'',
      tc_name = (case Option.bind function (\<lambda>f. get_str f ''name'') of Some s \<Rightarrow> s | None \<Rightarrow> []),
      tc_arguments = parsed_arguments parse (Option.bind function (\<lambda>f. get_str f ''arguments''))\<rparr>)"

definition openrouter_text :: "json \<Rightarrow> string option" where
  "openrouter_text message = (case json_get message ''content'' of
     Some (JStr t) \<Rightarrow> Some t
   | Some (JArr parts) \<Rightarrow> Some (join_with newline (block_texts ''text'' parts))
   | Some JNull \<Rightarrow> Some [] | None \<Rightarrow> Some []
   | _ \<Rightarrow> None)"

definition adapt_openrouter_response :: "(string \<Rightarrow> json option) \<Rightarrow> json \<Rightarrow> model_output option" where
  "adapt_openrouter_response parse v = (case Option.bind (json_get v ''choices'') json_arr of
     Some (first # _) \<Rightarrow> (case json_get first ''message'' of None \<Rightarrow> None
     | Some message \<Rightarrow> (case openrouter_text message of None \<Rightarrow> None
       | Some assistant_text \<Rightarrow>
         let calls = map (openrouter_call parse) (case Option.bind (json_get message ''tool_calls'') json_arr of
               Some tcs \<Rightarrow> tcs | None \<Rightarrow> []) in
         if assistant_text = [] \<and> calls = [] then None
         else Some \<lparr>mo_assistant_text = assistant_text, mo_stop_reason = get_str first ''finish_reason'',
           mo_tool_calls = calls, mo_usage = Option.bind (json_get v ''usage'') adapt_openrouter_usage\<rparr>))
   | _ \<Rightarrow> None)"

definition adapt_provider_response ::
    "(string \<Rightarrow> json option) \<Rightarrow> provider_profile \<Rightarrow> json \<Rightarrow> model_output option" where
  "adapt_provider_response parse profile v = (case pp_protocol_family profile of
     OpenAiResponses \<Rightarrow> (case validate_openai_response_schema v of Inl _ \<Rightarrow> None
       | Inr _ \<Rightarrow> adapt_openai_response parse v)
   | AnthropicMessages \<Rightarrow> (case validate_anthropic_response_schema v of Inl _ \<Rightarrow> None
       | Inr _ \<Rightarrow> adapt_anthropic_response v)
   | OpenAiChatCompletions \<Rightarrow> (case validate_openai_chat_completions_schema v of Inl _ \<Rightarrow> None
       | Inr _ \<Rightarrow> adapt_openrouter_response parse v))"

subsection \<open>What the adapters keep\<close>

text \<open>A model output as the three protocols put it, with one block for the text.\<close>

definition opt_field :: "string \<Rightarrow> json option \<Rightarrow> (string \<times> json) list" where
  "opt_field k v = (case v of Some j \<Rightarrow> [(k, j)] | None \<Rightarrow> [])"

definition usage_json :: "string \<Rightarrow> string \<Rightarrow> model_usage \<Rightarrow> json" where
  "usage_json input_key output_key u = JObj (opt_field input_key (map_option (JNum \<circ> show_nat) (mu_input_tokens u)) @
     opt_field output_key (map_option (JNum \<circ> show_nat) (mu_output_tokens u)) @
     opt_field ''total_tokens'' (map_option (JNum \<circ> show_nat) (mu_total_tokens u)))"

definition text_block :: "string \<Rightarrow> string \<Rightarrow> json list" where
  "text_block ty t = (if t = [] then [] else [JObj [(''type'', JStr ty), (''text'', JStr t)]])"

definition anthropic_json :: "model_output \<Rightarrow> json" where
  "anthropic_json out = JObj ((''content'', JArr (text_block ''text'' (mo_assistant_text out) @
       map (\<lambda>tc. JObj [(''type'', JStr ''tool_use''), (''id'', JStr (tc_id tc)), (''name'', JStr (tc_name tc)),
         (''input'', tc_arguments tc)]) (mo_tool_calls out))) #
     opt_field ''stop_reason'' (map_option JStr (mo_stop_reason out)) @
     opt_field ''usage'' (map_option (usage_json ''input_tokens'' ''output_tokens'') (mo_usage out)))"

definition openai_json :: "(json \<Rightarrow> string) \<Rightarrow> model_output \<Rightarrow> json" where
  "openai_json show out = JObj ((''output'', JArr (map (\<lambda>b. JObj [(''type'', JStr ''message''), (''content'', JArr [b])])
         (text_block ''output_text'' (mo_assistant_text out)) @
       map (\<lambda>tc. JObj [(''type'', JStr ''function_call''), (''call_id'', JStr (tc_id tc)), (''name'', JStr (tc_name tc)),
         (''arguments'', JStr (show (tc_arguments tc)))]) (mo_tool_calls out))) #
     opt_field ''status'' (map_option JStr (mo_stop_reason out)) @
     opt_field ''usage'' (map_option (usage_json ''input_tokens'' ''output_tokens'') (mo_usage out)))"

definition chat_json :: "(json \<Rightarrow> string) \<Rightarrow> model_output \<Rightarrow> json" where
  "chat_json show out = JObj ((''choices'', JArr [JObj ((''message'', JObj [(''role'', JStr ''assistant''),
         (''content'', if mo_assistant_text out = [] then JNull else JStr (mo_assistant_text out)),
         (''tool_calls'', JArr (map (\<lambda>tc. JObj [(''id'', JStr (tc_id tc)), (''function'', JObj [(''name'', JStr (tc_name tc)),
           (''arguments'', JStr (show (tc_arguments tc)))])]) (mo_tool_calls out)))]) #
       opt_field ''finish_reason'' (map_option JStr (mo_stop_reason out)))]) #
     opt_field ''usage'' (map_option (usage_json ''prompt_tokens'' ''completion_tokens'') (mo_usage out)))"

text \<open>An output that says something and whose token counts are those of the machine, with the total named.\<close>

definition usage_ok :: "model_usage \<Rightarrow> bool" where
  "usage_ok u \<longleftrightarrow> mu_total_tokens u \<noteq> None \<and>
     (\<forall>n. n \<in> set_option (mu_input_tokens u) \<union> set_option (mu_output_tokens u) \<union> set_option (mu_total_tokens u) \<longrightarrow>
        n \<le> u64_max)"

definition output_ok :: "model_output \<Rightarrow> bool" where
  "output_ok out \<longleftrightarrow> (mo_assistant_text out \<noteq> [] \<or> mo_tool_calls out \<noteq> []) \<and>
     (case mo_usage out of None \<Rightarrow> True | Some u \<Rightarrow> usage_ok u)"

lemma json_u64_show: "n \<le> u64_max \<Longrightarrow> json_u64 (JNum (show_nat n)) = Some n"
  by (simp add: json_u64_def show_nat_digits digits_value_show_nat)

lemma usage_of_json:
  assumes "usage_ok u" "distinct [input_key, output_key, ''total_tokens'']"
  shows "usage_of input_key output_key (usage_json input_key output_key u) = Some u"
proof -
  let ?j = "usage_json input_key output_key u"
  have "get_u64 ?j input_key = mu_input_tokens u" "get_u64 ?j output_key = mu_output_tokens u"
      "get_u64 ?j ''total_tokens'' = mu_total_tokens u"
    using assms by (cases "mu_input_tokens u"; cases "mu_output_tokens u"; cases "mu_total_tokens u";
        auto simp: get_u64_def json_get_def usage_json_def opt_field_def usage_ok_def json_u64_show)+
  moreover obtain t where "mu_total_tokens u = Some t" using assms(1) by (auto simp: usage_ok_def)
  ultimately show ?thesis by (simp add: usage_of_def)
qed

lemma json_get_fields [simp]:
  "json_get (JObj []) k = None"
  "json_get (JObj ((k', j) # kvs)) k = (if k = k' then Some j else json_get (JObj kvs) k)"
  "json_get (JObj (opt_field k' v @ kvs)) k = (if k = k' \<and> v \<noteq> None then v else json_get (JObj kvs) k)"
  by (auto simp: json_get_def opt_field_def split: option.splits)

lemma json_reads [simp]:
  "json_str (JStr s) = Some s" "json_arr (JArr xs) = Some xs" "json_arr JNull = None"
  by (simp_all add: json_str_def json_arr_def)

lemma get_str_field [simp]:
  "get_str (JObj ((k', j) # kvs)) k = (if k = k' then json_str j else get_str (JObj kvs) k)"
  by (simp add: get_str_def)

lemma opt_field_last: "json_get (JObj (opt_field k' v)) k = (if k = k' then v else None)"
  using json_get_fields(3) [of k' v "[]" k] by (auto simp: opt_field_def)

lemma block_texts_simps [simp]:
  "block_texts ty [] = []"
  "block_texts ty (b # bs) = (case if get_str b ''type'' = Some ty then get_str b ''text'' else None of
     Some t \<Rightarrow> [t] | None \<Rightarrow> []) @ block_texts ty bs"
  by (auto simp: block_texts_def List.map_filter_simps split: option.splits)

lemma each_indexed_all: "(\<And>i x. x \<in> set xs \<Longrightarrow> f i x = Inr ()) \<Longrightarrow> each_indexed f i xs = Inr ()"
  by (induction xs arbitrary: i) auto

lemma map_filter_map: "List.map_filter f (map g xs) = List.map_filter (f \<circ> g) xs"
  by (induction xs) (auto simp: List.map_filter_simps split: option.splits)

lemma block_texts_append: "block_texts ty (xs @ ys) = block_texts ty xs @ block_texts ty ys"
  by (simp add: block_texts_def List.map_filter_def)

lemma block_texts_other: "(\<And>b. b \<in> set bs \<Longrightarrow> get_str b ''type'' \<noteq> Some ty) \<Longrightarrow> block_texts ty bs = []"
  by (induction bs) auto

lemma join_text_block: "join_with newline (block_texts ty (text_block ty t)) = t"
  by (simp add: text_block_def)

lemma get_str_opt [simp]:
  "get_str (JObj []) k = None"
  "get_str (JObj (opt_field k' v @ kvs)) k = (if k = k' \<and> v \<noteq> None then Option.bind v json_str else get_str (JObj kvs) k)"
  "get_str (JObj (opt_field k' v)) k = (if k = k' then Option.bind v json_str else None)"
  by (auto simp: get_str_def opt_field_last)

lemma bind_json_str [simp]: "Option.bind (map_option JStr s) json_str = s"
  by (cases s) simp_all

lemma usage_round_trip:
  assumes "case u of None \<Rightarrow> True | Some u \<Rightarrow> usage_ok u"
  shows "Option.bind (map_option (usage_json ''input_tokens'' ''output_tokens'') u) adapt_usage = u"
    "Option.bind (map_option (usage_json ''prompt_tokens'' ''completion_tokens'') u) adapt_openrouter_usage = u"
  using assms by (cases u; simp add: adapt_usage_def adapt_openrouter_usage_def usage_of_json)+

lemma anthropic_round_trip:
  assumes "output_ok out"
  shows "validate_anthropic_response_schema (anthropic_json out) = Inr ()"
    "adapt_anthropic_response (anthropic_json out) = Some out"
proof -
  let ?call = "\<lambda>tc. JObj [(''type'', JStr ''tool_use''), (''id'', JStr (tc_id tc)), (''name'', JStr (tc_name tc)),
         (''input'', tc_arguments tc)]"
  let ?bs = "text_block ''text'' (mo_assistant_text out) @ map ?call (mo_tool_calls out)"
  have content: "json_get (anthropic_json out) ''content'' = Some (JArr ?bs)" by (simp add: anthropic_json_def)
  have "validate_anthropic_block i (JObj [(''type'', JStr ''text''), (''text'', JStr t)]) = Inr ()"
      "validate_anthropic_block i (?call tc) = Inr ()" for i t tc
    by (simp_all add: validate_anthropic_block_def)
  then have "validate_anthropic_block i b = Inr ()" if "b \<in> set ?bs" for i b
    using that by (auto simp: text_block_def split: if_splits)
  then have "each_indexed validate_anthropic_block 0 ?bs = Inr ()" by (rule each_indexed_all)
  then show "validate_anthropic_response_schema (anthropic_json out) = Inr ()"
    unfolding validate_anthropic_response_schema_def content by (simp add: anthropic_json_def)
  have texts: "block_texts ''text'' ?bs = block_texts ''text'' (text_block ''text'' (mo_assistant_text out))"
    unfolding block_texts_append by (subst block_texts_other [where bs = "map ?call _"]) auto
  have "filter (\<lambda>b. get_str b ''type'' = Some ''tool_use'') ?bs = map ?call (mo_tool_calls out)"
    by (auto simp: text_block_def filter_map comp_def)
  then have calls: "map anthropic_call (filter (\<lambda>b. get_str b ''type'' = Some ''tool_use'') ?bs) = mo_tool_calls out"
    by (simp add: comp_def anthropic_call_def str_or_empty_def map_idI)
  have fields: "get_str (anthropic_json out) ''stop_reason'' = mo_stop_reason out"
      "Option.bind (json_get (anthropic_json out) ''usage'') adapt_usage = mo_usage out"
    using assms by (simp_all add: anthropic_json_def opt_field_last usage_round_trip output_ok_def)
  have "block_texts ''text'' ?bs = [] \<longleftrightarrow> mo_assistant_text out = []" unfolding texts by (simp add: text_block_def)
  then show "adapt_anthropic_response (anthropic_json out) = Some out"
    using assms unfolding adapt_anthropic_response_def content Option.bind.simps json_reads option.simps Let_def calls fields
      texts join_text_block by (simp add: text_block_def output_ok_def)
qed

lemma openai_items_calls: "\<forall>item\<in>set items. get_str item ''type'' = Some ''function_call'' \<Longrightarrow>
    openai_items parse items calls parts = (calls @ map (openai_call parse) items, if parts = [] then None else Some parts)"
  by (induction items arbitrary: calls) auto

lemma openai_round_trip:
  assumes "output_ok out" "\<And>tc. tc \<in> set (mo_tool_calls out) \<Longrightarrow> parse (show (tc_arguments tc)) = Some (tc_arguments tc)"
  shows "validate_openai_response_schema (openai_json show out) = Inr ()"
    "adapt_openai_response parse (openai_json show out) = Some out"
proof -
  let ?call = "\<lambda>tc. JObj [(''type'', JStr ''function_call''), (''call_id'', JStr (tc_id tc)), (''name'', JStr (tc_name tc)),
         (''arguments'', JStr (show (tc_arguments tc)))]"
  let ?text = "map (\<lambda>b. JObj [(''type'', JStr ''message''), (''content'', JArr [b])])
         (text_block ''output_text'' (mo_assistant_text out))"
  let ?items = "?text @ map ?call (mo_tool_calls out)"
  have items0: "json_get (openai_json show out) ''output'' = Some (JArr ?items)" "get_str (openai_json show out) ''output_text'' = None"
    by (simp_all add: openai_json_def get_str_def opt_field_last)
  have "validate_openai_item i (JObj [(''type'', JStr ''message''), (''content'', JArr bs)]) = Inr ()"
      "validate_openai_item i (?call tc) = Inr ()" for i bs tc
    by (simp_all add: validate_openai_item_def)
  then have "validate_openai_item i b = Inr ()" if "b \<in> set ?items" for i b
    using that by (auto simp: text_block_def split: if_splits)
  then have "each_indexed validate_openai_item 0 ?items = Inr ()" by (rule each_indexed_all)
  then show "validate_openai_response_schema (openai_json show out) = Inr ()"
    unfolding validate_openai_response_schema_def items0 by (simp add: openai_json_def)
  have calls: "map (openai_call parse) (map ?call (mo_tool_calls out)) = mo_tool_calls out"
    using assms(2) by (simp add: comp_def openai_call_def str_or_empty_def parsed_arguments_def map_idI)
  have items: "openai_items parse ?items [] [] = (mo_tool_calls out,
      if mo_assistant_text out = [] then None else Some [mo_assistant_text out])"
    using openai_items_calls [of "map ?call (mo_tool_calls out)" parse] calls
    by (simp add: text_block_def)
  have fields: "get_str (openai_json show out) ''status'' = mo_stop_reason out"
      "Option.bind (json_get (openai_json show out) ''usage'') adapt_usage = mo_usage out"
    using assms(1) by (simp_all add: openai_json_def opt_field_last usage_round_trip output_ok_def)
  show "adapt_openai_response parse (openai_json show out) = Some out"
    using assms(1) unfolding adapt_openai_response_def items0
    by (simp add: items fields output_ok_def)
qed

lemma chat_round_trip:
  assumes "output_ok out" "\<And>tc. tc \<in> set (mo_tool_calls out) \<Longrightarrow> parse (show (tc_arguments tc)) = Some (tc_arguments tc)"
  shows "validate_openai_chat_completions_schema (chat_json show out) = Inr ()"
    "adapt_openrouter_response parse (chat_json show out) = Some out"
proof -
  let ?call = "\<lambda>tc. JObj [(''id'', JStr (tc_id tc)), (''function'', JObj [(''name'', JStr (tc_name tc)),
           (''arguments'', JStr (show (tc_arguments tc)))])]"
  let ?message = "JObj [(''role'', JStr ''assistant''),
         (''content'', if mo_assistant_text out = [] then JNull else JStr (mo_assistant_text out)),
         (''tool_calls'', JArr (map ?call (mo_tool_calls out)))]"
  let ?first = "JObj ((''message'', ?message) # opt_field ''finish_reason'' (map_option JStr (mo_stop_reason out)))"
  have choices: "json_get (chat_json show out) ''choices'' = Some (JArr [?first])" by (simp add: chat_json_def)
  show "validate_openai_chat_completions_schema (chat_json show out) = Inr ()"
    unfolding validate_openai_chat_completions_schema_def choices by (simp add: chat_json_def)
  have calls: "map (openrouter_call parse) (map ?call (mo_tool_calls out)) = mo_tool_calls out"
    using assms(2) by (simp add: comp_def openrouter_call_def str_or_empty_def parsed_arguments_def map_idI)
  have usage: "Option.bind (json_get (chat_json show out) ''usage'') adapt_openrouter_usage = mo_usage out"
    using assms(1) by (simp add: chat_json_def opt_field_last usage_round_trip output_ok_def)
  have body: "openrouter_text ?message = Some (mo_assistant_text out)" by (simp add: openrouter_text_def)
  show "adapt_openrouter_response parse (chat_json show out) = Some out"
    using assms(1) calls unfolding adapt_openrouter_response_def choices
    by (simp add: body usage output_ok_def)
qed

text \<open>
  \<^bold>\<open>C26.\<close> The three protocols are understood alike and without loss: a model output put as an Anthropic, an OpenAI
  or a chat-completions response passes the validator of its protocol and is adapted back to the same
  output, text, calls in order with their arguments, stop reason and token counts.
\<close>

theorem protocols_round_trip:
  assumes "output_ok out" "\<And>tc. tc \<in> set (mo_tool_calls out) \<Longrightarrow> parse (show (tc_arguments tc)) = Some (tc_arguments tc)"
  shows "adapt_provider_response parse (p\<lparr>pp_protocol_family := AnthropicMessages\<rparr>) (anthropic_json out) = Some out \<and>
    adapt_provider_response parse (p\<lparr>pp_protocol_family := OpenAiResponses\<rparr>) (openai_json show out) = Some out \<and>
    adapt_provider_response parse (p\<lparr>pp_protocol_family := OpenAiChatCompletions\<rparr>) (chat_json show out) = Some out"
  by (simp add: adapt_provider_response_def anthropic_round_trip [OF assms(1)] openai_round_trip [where parse = parse, OF assms]
      chat_round_trip [where parse = parse, OF assms])

text \<open>
  An OpenAI response with the convenience member \<open>output_text\<close> loses its tool calls: whatever items its
  \<open>output\<close> lists, the adapted output has the text and no call; with an empty text there is no output at all.
\<close>

theorem output_text_hides_calls:
  "adapt_openai_response parse (JObj ((''output_text'', JStr t) # kvs)) =
     (if t = [] then None else Some \<lparr>mo_assistant_text = t, mo_stop_reason = get_str (JObj kvs) ''status'',
        mo_tool_calls = [], mo_usage = Option.bind (json_get (JObj kvs) ''usage'') adapt_usage\<rparr>)"
  by (simp add: adapt_openai_response_def)

text \<open>
  An item or block of a type the adapters would skip, such as the reasoning of a model, makes the
  validator reject the whole response.
\<close>

theorem unknown_block_rejects_response:
  assumes "get_str block ''type'' = Some ty" "block \<in> set blocks"
  shows "ty \<notin> {''text'', ''tool_use''} \<Longrightarrow>
      adapt_provider_response parse (p\<lparr>pp_protocol_family := AnthropicMessages\<rparr>) (JObj ((''content'', JArr blocks) # kvs)) = None"
    and "ty \<notin> {''message'', ''function_call''} \<Longrightarrow>
      adapt_provider_response parse (p\<lparr>pp_protocol_family := OpenAiResponses\<rparr>) (JObj ((''output'', JArr blocks) # kvs)) = None"
proof -
  have fails: "each_indexed f 0 blocks \<noteq> Inr ()" if "\<And>i. f i block \<noteq> Inr ()" for f
    using that assms(2) by (auto simp: each_indexed_Inr in_set_conv_nth)
  have obj: "is_obj block" using assms(1) by (cases block) (auto simp: get_str_def json_get_def)
  assume "ty \<notin> {''text'', ''tool_use''}"
  then have "each_indexed validate_anthropic_block 0 blocks \<noteq> Inr ()"
    by (intro fails) (simp add: validate_anthropic_block_def assms(1) obj Let_def)
  then show "adapt_provider_response parse (p\<lparr>pp_protocol_family := AnthropicMessages\<rparr>)
      (JObj ((''content'', JArr blocks) # kvs)) = None"
    by (auto simp: adapt_provider_response_def validate_anthropic_response_schema_def split: sum.splits)
next
  have fails: "each_indexed f 0 blocks \<noteq> Inr ()" if "\<And>i. f i block \<noteq> Inr ()" for f
    using that assms(2) by (auto simp: each_indexed_Inr in_set_conv_nth)
  have obj: "is_obj block" using assms(1) by (cases block) (auto simp: get_str_def json_get_def)
  assume "ty \<notin> {''message'', ''function_call''}"
  then have "each_indexed validate_openai_item 0 blocks \<noteq> Inr ()"
    by (intro fails) (simp add: validate_openai_item_def assms(1) obj Let_def)
  then show "adapt_provider_response parse (p\<lparr>pp_protocol_family := OpenAiResponses\<rparr>)
      (JObj ((''output'', JArr blocks) # kvs)) = None"
    by (auto simp: adapt_provider_response_def validate_openai_response_schema_def split: sum.splits)
qed

subsection \<open>The theorems at a concrete response\<close>

definition demo_output :: model_output where
  "demo_output = \<lparr>mo_assistant_text = ''hi'', mo_stop_reason = Some ''end_turn'',
     mo_tool_calls = [\<lparr>tc_id = ''c1'', tc_name = ''echo'', tc_arguments = JObj []\<rparr>],
     mo_usage = Some \<lparr>mu_input_tokens = Some 3, mu_output_tokens = None, mu_total_tokens = Some 5\<rparr>\<rparr>"

lemma demo_output_ok: "output_ok demo_output"
  by (auto simp: demo_output_def output_ok_def usage_ok_def u64_max_def)

theorem protocols_round_trip_witness:
  "adapt_provider_response (\<lambda>_. Some (JObj [])) (openai_profile\<lparr>pp_protocol_family := AnthropicMessages\<rparr>)
     (anthropic_json demo_output) = Some demo_output"
proof -
  have "(\<lambda>_. Some (JObj [])) ((\<lambda>_. ''{}'') (tc_arguments tc)) = Some (tc_arguments tc)"
    if "tc \<in> set (mo_tool_calls demo_output)" for tc using that by (simp add: demo_output_def)
  from protocols_round_trip [OF demo_output_ok, of "\<lambda>_. Some (JObj [])" "\<lambda>_. ''{}''", OF this]
  show ?thesis by simp
qed

theorem unknown_block_rejects_response_witness:
  "adapt_provider_response (\<lambda>_. None) (anthropic_profile\<lparr>pp_protocol_family := AnthropicMessages\<rparr>)
     (JObj [(''content'', JArr [JObj [(''type'', JStr ''thinking'')], JObj [(''type'', JStr ''text''), (''text'', JStr ''hi'')]])]) = None"
  using unknown_block_rejects_response(1) [of "JObj [(''type'', JStr ''thinking'')]" "''thinking''"
      "[JObj [(''type'', JStr ''thinking'')], JObj [(''type'', JStr ''text''), (''text'', JStr ''hi'')]]"] by simp

end
