(* ===== verification/Plugin_Calls.thy ===== *)
theory Plugin_Calls
  imports Plugin_Trust Provider_Response Sliding_Window
begin

section \<open>Calls of installed tools and models (kelvin-brain/src/installed_plugins.rs)\<close>

text \<open>
  An installed tool or model provider shares one \<open>op_state\<close> among all its calls: the instants of the accepted
  calls, the count of failures in a row and the deadline of an open circuit breaker. An \<open>Instant\<close> is a number
  of nanoseconds. What the WebAssembly host does with an entrypoint, an input and a policy at an attempt is the
  parameter \<open>host\<close>; serializing and printing JSON are the parameters \<open>serialize\<close> and \<open>show_json\<close>. Between
  its steps a call awaits, so that calls interleave; what their steps do to the shared state is \<open>op_event\<close>.
\<close>

subsection \<open>The shared state\<close>

record op_state =
  os_call_timestamps :: "nat list"
  os_consecutive_failures :: nat
  os_circuit_open_until :: "nat option"

definition fresh_op_state :: op_state where
  "fresh_op_state = \<lparr>os_call_timestamps = [], os_consecutive_failures = 0, os_circuit_open_until = None\<rparr>"

definition CALL_WINDOW_NS :: nat where "CALL_WINDOW_NS = 60 * 10 ^ 9"

definition NS_PER_MS :: nat where "NS_PER_MS = 10 ^ 6"

definition close_expired :: "op_state \<Rightarrow> op_state" where
  "close_expired st = (if os_circuit_open_until st = None then st
     else st\<lparr>os_circuit_open_until := None, os_consecutive_failures := 0\<rparr>)"

definition reserve_call_budget :: "string \<Rightarrow> operational_controls \<Rightarrow> nat \<Rightarrow> (op_state, unit) eff" where
  "reserve_call_budget who c now = (\<lambda>st.
     if (case os_circuit_open_until st of Some open_until \<Rightarrow> now < open_until | None \<Rightarrow> False) then
       (Inl (Backend (who @ '' circuit breaker is open; retry later'')), st)
     else let st = close_expired st; w = prune_span CALL_WINDOW_NS now (os_call_timestamps st) in
       if oc_max_calls_per_minute c \<le> length w then
         (Inl (Timeout (who @ '' exceeded call budget ('' @ show_nat (oc_max_calls_per_minute c) @ '' calls/minute)'')),
          st\<lparr>os_call_timestamps := w\<rparr>)
       else (Inr (), st\<lparr>os_call_timestamps := w @ [now]\<rparr>))"

definition mark_success :: "op_state \<Rightarrow> op_state" where
  "mark_success st = st\<lparr>os_consecutive_failures := 0\<rparr>"

definition mark_failure :: "operational_controls \<Rightarrow> nat \<Rightarrow> op_state \<Rightarrow> op_state" where
  "mark_failure c now st = (let failures = min (os_consecutive_failures st + 1) (2 ^ 32 - 1) in
     if oc_circuit_breaker_failures c \<le> failures then
       st\<lparr>os_circuit_open_until := Some (now + oc_circuit_breaker_cooldown_ms c * NS_PER_MS), os_consecutive_failures := 0\<rparr>
     else st\<lparr>os_consecutive_failures := failures\<rparr>)"

subsection \<open>One execution, and the attempts\<close>

datatype claw_call =
    SendMessage (message_code: int)
  | MoveServo (servo_channel: int) (servo_position: int)
  | FsRead (fs_handle: int)
  | NetworkSend (net_packet: int)
  | HttpCall (call_url: string)
  | EnvAccess (env_key: string)

record skill_execution =
  se_exit_code :: int
  se_calls :: "claw_call list"
  se_output_json :: "string option"

text \<open>The ways a blocking task awaited with a timeout ends.\<close>

datatype 'a task_outcome = Joined "'a kelvin_result" | JoinFailure string | Elapsed

fun await_task :: "string \<Rightarrow> string \<Rightarrow> nat \<Rightarrow> 'a task_outcome \<Rightarrow> 'a kelvin_result" where
  "await_task what who timeout_ms (Joined r) = r"
| "await_task what who timeout_ms (JoinFailure err) = Inl (Backend (what @ '' task join failure: '' @ err))"
| "await_task what who timeout_ms Elapsed = Inl (Timeout (who @ '' timed out after '' @ show_nat timeout_ms @ ''ms''))"

text \<open>The loop over the attempts \<open>i\<close> to \<open>max_retries\<close>: the first success, or the last error.\<close>

function attempts :: "(nat \<Rightarrow> 'a kelvin_result) \<Rightarrow> nat \<Rightarrow> nat \<Rightarrow> 'a kelvin_result" where
  "attempts exec max_retries i = (case exec i of
     Inr x \<Rightarrow> Inr x
   | Inl err \<Rightarrow> if i < max_retries then attempts exec max_retries (Suc i) else Inl err)"
  by pat_completeness auto
termination by (relation "measure (\<lambda>(_, m, i). m - i)") auto

declare attempts.simps [simp del]

lemma attempts_Inr: "attempts exec m i = Inr x \<Longrightarrow> i \<le> m \<Longrightarrow> \<exists>j. i \<le> j \<and> j \<le> m \<and> exec j = Inr x \<and> (\<forall>k. i \<le> k \<and> k < j \<longrightarrow> (\<exists>e. exec k = Inl e))"
proof (induction exec m i rule: attempts.induct)
  case (1 exec m i)
  show ?case
  proof (cases "exec i")
    case (Inl e)
    then have m: "i < m" "attempts exec m (Suc i) = Inr x"
      using "1.prems" by (auto simp: attempts.simps [of exec m i] split: if_splits)
    then obtain j where "Suc i \<le> j" "j \<le> m" "exec j = Inr x" "\<forall>k. Suc i \<le> k \<and> k < j \<longrightarrow> (\<exists>e. exec k = Inl e)"
      using "1.IH" [OF Inl m(1)] by auto
    then show ?thesis using Inl by (intro exI [of _ j]) (metis Suc_leD Suc_leI le_neq_implies_less)
  next
    case (Inr y)
    then have "y = x" using "1.prems" by (simp add: attempts.simps [of exec m i])
    then show ?thesis using Inr "1.prems" by (intro exI [of _ i]) auto
  qed
qed

lemma attempts_Inl: "attempts exec m i = Inl e \<Longrightarrow> i \<le> m \<Longrightarrow> exec m = Inl e \<and> (\<forall>k. i \<le> k \<and> k \<le> m \<longrightarrow> (\<exists>e. exec k = Inl e))"
proof (induction exec m i rule: attempts.induct)
  case (1 exec m i)
  then obtain e' where e': "exec i = Inl e'" by (cases "exec i") (auto simp: attempts.simps [of exec m i])
  show ?case
  proof (cases "i < m")
    case True
    then have "attempts exec m (Suc i) = Inl e" using "1.prems" e' by (simp add: attempts.simps [of exec m i])
    then have "exec m = Inl e \<and> (\<forall>k. Suc i \<le> k \<and> k \<le> m \<longrightarrow> (\<exists>e. exec k = Inl e))" using "1.IH" [OF e' True] True by simp
    then show ?thesis using e' by (metis Suc_leI le_neq_implies_less)
  next
    case False
    then have "attempts exec m i = Inl e'" using e' by (subst attempts.simps) simp
    then have "i = m" "e' = e" using "1.prems" False by simp_all
    then show ?thesis using e' by auto
  qed
qed

subsection \<open>A tool call\<close>

fun claw_call_json :: "claw_call \<Rightarrow> json" where
  "claw_call_json (SendMessage msg) = JObj [(''kind'', JStr ''send_message''), (''message_code'', JNum (show_int msg))]"
| "claw_call_json (MoveServo channel position) = JObj [(''kind'', JStr ''move_servo''),
     (''channel'', JNum (show_int channel)), (''position'', JNum (show_int position))]"
| "claw_call_json (FsRead handle) = JObj [(''kind'', JStr ''fs_read''), (''handle'', JNum (show_int handle))]"
| "claw_call_json (NetworkSend packet) = JObj [(''kind'', JStr ''network_send''), (''packet'', JNum (show_int packet))]"
| "claw_call_json (HttpCall url) = JObj [(''kind'', JStr ''http_call''), (''url'', JStr url)]"
| "claw_call_json (EnvAccess key) = JObj [(''kind'', JStr ''env_access''), (''key'', JStr key)]"

definition enforce_scoped_arguments :: "installed_tool \<Rightarrow> json \<Rightarrow> unit kelvin_result" where
  "enforce_scoped_arguments t args = (if \<not> sb_allow_fs_read (it_sandbox_policy t) then Inr ()
     else case get_str args ''target_path'' of
       None \<Rightarrow> Inl (InvalidInput (''tool '' @ quoted (it_tool_name t) @
         '' requires string argument 'target_path' when fs_read is enabled''))
     | Some target_path \<Rightarrow> bindR (normalize_safe_relative_path target_path ''target_path'') (\<lambda>normalized.
         if \<not> scope_match normalized (cs_fs_read_paths (it_scopes t)) then
           Inl (InvalidInput (''tool '' @ quoted (it_tool_name t) @ '' denied target_path '' @ quoted normalized @
             '' (outside allowed fs_read scopes)''))
         else Inr ()))"

type_synonym 'a host = "nat \<Rightarrow> string \<Rightarrow> string \<Rightarrow> 'a task_outcome"

definition tool_who :: "installed_tool \<Rightarrow> string" where
  "tool_who t = ''tool '' @ quoted (it_tool_name t)"

definition tool_execute_once :: "(json \<Rightarrow> string + string) \<Rightarrow> (sandbox_policy \<Rightarrow> skill_execution host) \<Rightarrow> installed_tool \<Rightarrow>
    json \<Rightarrow> nat \<Rightarrow> skill_execution kelvin_result" where
  "tool_execute_once serialize host t arguments attempt = (case serialize arguments of
     Inl err \<Rightarrow> Inl (InvalidInput (''serialize tool arguments for plugin '' @ quoted (it_plugin_id t) @ '': '' @ err))
   | Inr input_json \<Rightarrow> await_task ''tool'' (tool_who t) (oc_timeout_ms (it_controls t))
       (host (it_sandbox_policy t) attempt (it_entrypoint_abs t) input_json))"

definition tool_result :: "(json \<Rightarrow> string) \<Rightarrow> installed_tool \<Rightarrow> skill_execution \<Rightarrow> tool_call_result" where
  "tool_result show_json t x = (let summary = it_tool_name t @ '' executed exit='' @ show_int (se_exit_code x) @ '' calls='' @
       show_nat (length (se_calls x)) @ '' plugin='' @ it_plugin_id t @ ''@'' @ it_plugin_version t in
     \<lparr>tcr_summary = summary,
      tcr_output = Some (case se_output_json x of Some j \<Rightarrow> j | None \<Rightarrow> show_json (JObj
        [(''plugin_id'', JStr (it_plugin_id t)), (''plugin_version'', JStr (it_plugin_version t)),
         (''entrypoint'', JStr (it_entrypoint_abs t)), (''exit_code'', JNum (show_int (se_exit_code x))),
         (''calls'', JArr (map claw_call_json (se_calls x)))])),
      tcr_visible_text = Some summary, tcr_is_error = False\<rparr>)"

text \<open>A whole call: \<open>now\<close> when it reserves its budget, \<open>later\<close> when it records that all its attempts failed.\<close>

definition call_installed_tool :: "(json \<Rightarrow> string + string) \<Rightarrow> (json \<Rightarrow> string) \<Rightarrow> (sandbox_policy \<Rightarrow> skill_execution host) \<Rightarrow>
    installed_tool \<Rightarrow> nat \<Rightarrow> nat \<Rightarrow> json \<Rightarrow> (op_state, tool_call_result) eff" where
  "call_installed_tool serialize show_json host t now later arguments =
     seqE (liftE (enforce_scoped_arguments t arguments))
     (seqE (reserve_call_budget (tool_who t) (it_controls t) now)
     (case attempts (tool_execute_once serialize host t arguments) (oc_max_retries (it_controls t)) 0 of
        Inr x \<Rightarrow> seqE (modifyE mark_success) (okE (tool_result show_json t x))
      | Inl err \<Rightarrow> seqE (modifyE (mark_failure (it_controls t) later)) (errE err)))"

subsection \<open>An inference\<close>

record model_sandbox_policy =
  msp_network_allow_hosts :: "string list"
  msp_max_module_bytes :: nat
  msp_max_request_bytes :: nat
  msp_max_response_bytes :: nat
  msp_fuel_budget :: nat
  msp_timeout_ms :: nat
  msp_provider_profile :: "provider_profile option"
  msp_model_name :: "string option"

definition default_model_sandbox_policy :: model_sandbox_policy where
  "default_model_sandbox_policy = \<lparr>msp_network_allow_hosts = [''api.openai.com''], msp_max_module_bytes = 512 * 1024,
     msp_max_request_bytes = 256 * 1024, msp_max_response_bytes = 1024 * 1024, msp_fuel_budget = 1000000,
     msp_timeout_ms = 30000, msp_provider_profile = None, msp_model_name = None\<rparr>"

definition model_policy :: "installed_model \<Rightarrow> model_sandbox_policy" where
  "model_policy p = default_model_sandbox_policy\<lparr>msp_network_allow_hosts := cs_network_allow_hosts (im_scopes p),
     msp_timeout_ms := oc_timeout_ms (im_controls p), msp_provider_profile := im_provider_profile p,
     msp_model_name := Some (im_model_name p)\<rparr>"

definition model_who :: "installed_model \<Rightarrow> string" where
  "model_who p = ''model provider '' @ quoted (im_provider_name p @ '':'' @ im_model_name p)"

definition model_execute_once :: "(model_sandbox_policy \<Rightarrow> string host) \<Rightarrow> installed_model \<Rightarrow> string \<Rightarrow> nat \<Rightarrow> string kelvin_result" where
  "model_execute_once host p input_json attempt = await_task ''model provider'' (model_who p) (oc_timeout_ms (im_controls p))
     (host (model_policy p) attempt (im_entrypoint_abs p) input_json)"

fun protocol_name :: "protocol_family \<Rightarrow> string" where
  "protocol_name OpenAiResponses = ''OpenAiResponses''"
| "protocol_name OpenAiChatCompletions = ''OpenAiChatCompletions''"
| "protocol_name AnthropicMessages = ''AnthropicMessages''"

definition error_message :: "json \<Rightarrow> string option" where
  "error_message v = Option.bind (json_get v ''error'') (\<lambda>e. get_str e ''message'')"

definition decode_output_payload ::
    "(string \<Rightarrow> string + json) \<Rightarrow> (json \<Rightarrow> model_output option) \<Rightarrow> installed_model \<Rightarrow> string \<Rightarrow> model_output kelvin_result" where
  "decode_output_payload parse decode p output_json = (let who = ''model plugin '' @ quoted (im_plugin_id p) in
     case parse output_json of
       Inl err \<Rightarrow> Inl (InvalidInput (who @ '' returned invalid json: '' @ err))
     | Inr v \<Rightarrow> (case error_message v of
         Some message \<Rightarrow> Inl (Backend (''model plugin '' @ quoted (im_plugin_id p @ ''@'' @ im_plugin_version p) @
           '' failed: '' @ message))
       | None \<Rightarrow> (case decode v of
           Some out \<Rightarrow> (case validate_model_output_schema v of
             Inl err \<Rightarrow> Inl (InvalidInput (who @ '' returned invalid ModelOutput schema: '' @ err))
           | Inr _ \<Rightarrow> Inr out)
         | None \<Rightarrow> (case im_provider_profile p of
             Some profile \<Rightarrow> (case adapt_provider_response (\<lambda>s. case parse s of Inr j \<Rightarrow> Some j | Inl _ \<Rightarrow> None) profile v of
               Some out \<Rightarrow> Inr out
             | None \<Rightarrow> Inl (InvalidInput (who @ '' returned response that doesn't match '' @
                 protocol_name (pp_protocol_family profile) @ '' protocol format'')))
           | None \<Rightarrow> Inl (InvalidInput (who @
               '' returned response that is neither valid ModelOutput nor mapped to a known protocol family''))))))"

text \<open>
  The inference: \<open>serialize\<close> is what becomes of its input. A response that does not decode ends it by \<open>?\<close>,
  within the loop, before success or failure is recorded.
\<close>

definition infer :: "(string \<Rightarrow> string + json) \<Rightarrow> (json \<Rightarrow> model_output option) \<Rightarrow> (model_sandbox_policy \<Rightarrow> string host) \<Rightarrow>
    installed_model \<Rightarrow> nat \<Rightarrow> nat \<Rightarrow> string + string \<Rightarrow> (op_state, model_output) eff" where
  "infer parse decode host p now later serialized =
     seqE (reserve_call_budget (model_who p) (im_controls p) now)
     (case serialized of
        Inl err \<Rightarrow> errE (InvalidInput (''serialize model input for plugin '' @ quoted (im_plugin_id p) @ '': '' @ err))
      | Inr input_json \<Rightarrow>
        (case attempts (model_execute_once host p input_json) (oc_max_retries (im_controls p)) 0 of
           Inr output_json \<Rightarrow> bindE (liftE (decode_output_payload parse decode p output_json)) (\<lambda>out.
             seqE (modifyE mark_success) (okE out))
         | Inl err \<Rightarrow> seqE (modifyE (mark_failure (im_controls p) later)) (errE err)))"

subsection \<open>The budget over all interleavings\<close>

text \<open>What the steps of concurrent calls do to the state they share, in the order in which they get its lock.\<close>

datatype op_event = Reserve nat | Succeed nat | Fail nat

fun event_at :: "op_event \<Rightarrow> nat" where
  "event_at (Reserve t) = t"
| "event_at (Succeed t) = t"
| "event_at (Fail t) = t"

fun op_step :: "string \<Rightarrow> operational_controls \<Rightarrow> op_event \<Rightarrow> op_state \<Rightarrow> op_state \<times> nat list" where
  "op_step who c (Reserve t) st = (case reserve_call_budget who c t st of (r, st') \<Rightarrow> (st', if r = Inr () then [t] else []))"
| "op_step who c (Succeed t) st = (mark_success st, [])"
| "op_step who c (Fail t) st = (mark_failure c t st, [])"

text \<open>The state after a sequence of events, and the instants of the calls it let through.\<close>

fun op_run :: "string \<Rightarrow> operational_controls \<Rightarrow> op_event list \<Rightarrow> op_state \<Rightarrow> op_state \<times> nat list" where
  "op_run who c [] st = (st, [])"
| "op_run who c (e # es) st = (let (st1, g1) = op_step who c e st; (st2, g2) = op_run who c es st1 in (st2, g1 @ g2))"

definition in_order :: "op_event list \<Rightarrow> bool" where
  "in_order es = sorted (map event_at es)"

lemma op_run_append: "op_run who c (es @ es') st =
    (let (st1, g1) = op_run who c es st; (st2, g2) = op_run who c es' st1 in (st2, g1 @ g2))"
  by (induction es arbitrary: st) (auto simp: Let_def split: prod.splits)

text \<open>A call is the sequence of its events, and nothing else touches the state.\<close>

definition call_events :: "nat \<Rightarrow> nat \<Rightarrow> 'a kelvin_result \<Rightarrow> op_event list" where
  "call_events now later outcome = (case outcome of Inr _ \<Rightarrow> [Reserve now, Succeed later] | Inl _ \<Rightarrow> [Reserve now, Fail later])"

lemma tool_call_events:
  "snd (call_installed_tool serialize show_json host t now later arguments st) =
     (if enforce_scoped_arguments t arguments \<noteq> Inr () then st
      else if fst (reserve_call_budget (tool_who t) (it_controls t) now st) \<noteq> Inr ()
      then snd (reserve_call_budget (tool_who t) (it_controls t) now st)
      else fst (op_run (tool_who t) (it_controls t) (call_events now later
        (attempts (tool_execute_once serialize host t arguments) (oc_max_retries (it_controls t)) 0)) st))"
  by (cases "enforce_scoped_arguments t arguments"; cases "reserve_call_budget (tool_who t) (it_controls t) now st")
    (auto simp: call_installed_tool_def seqE_def bindE_apply call_events_def split: sum.splits)

text \<open>The state against the calls let through so far, all up to \<open>now\<close>.\<close>

definition budget_ok :: "operational_controls \<Rightarrow> nat \<Rightarrow> nat list \<Rightarrow> op_state \<Rightarrow> bool" where
  "budget_ok c now granted st \<longleftrightarrow> window_in CALL_WINDOW_NS now granted (os_call_timestamps st) \<and>
     (\<forall>t. in_span CALL_WINDOW_NS t granted \<le> oc_max_calls_per_minute c)"

lemma reserve_window_step:
  assumes "\<not> (case os_circuit_open_until st of Some u \<Rightarrow> now < u | None \<Rightarrow> False)"
    "window_step CALL_WINDOW_NS (oc_max_calls_per_minute c) now (os_call_timestamps st) = (ok, w)"
  shows "(fst (reserve_call_budget who c now st) = Inr ()) = ok \<and>
    os_call_timestamps (snd (reserve_call_budget who c now st)) = w"
  using assms by (auto simp: reserve_call_budget_def window_step_def close_expired_def Let_def split: if_splits)

lemma op_step_budget:
  assumes "budget_ok c now granted st" "now \<le> event_at e" "op_step who c e st = (st', g)"
  shows "budget_ok c (event_at e) (granted @ g) st'"
proof (cases e)
  case (Reserve t)
  show ?thesis
  proof (cases "case os_circuit_open_until st of Some u \<Rightarrow> t < u | None \<Rightarrow> False")
    case True
    then have "st' = st" "g = []" using assms(3) Reserve by (auto simp: reserve_call_budget_def)
    then show ?thesis using assms(1,2) Reserve by (auto simp: budget_ok_def intro: window_in_later)
  next
    case False
    obtain ok w where w: "window_step CALL_WINDOW_NS (oc_max_calls_per_minute c) t (os_call_timestamps st) = (ok, w)" by fastforce
    then have "os_call_timestamps st' = w" "g = (if ok then [t] else [])"
      using reserve_window_step [OF False w, of who] assms(3) Reserve by (auto split: prod.splits)
    then show ?thesis
      using window_step_in [OF _ _ _ w, of now granted] assms(1,2) Reserve by (auto simp: budget_ok_def split: if_splits)
  qed
qed (use assms in \<open>auto simp: budget_ok_def mark_success_def mark_failure_def Let_def intro: window_in_later split: if_splits\<close>)

lemma op_run_budget:
  "budget_ok c now granted st \<Longrightarrow> sorted (now # map event_at es) \<Longrightarrow> op_run who c es st = (st', g) \<Longrightarrow>
    budget_ok c (last (now # map event_at es)) (granted @ g) st'"
proof (induction es arbitrary: now granted st st' g)
  case (Cons e es)
  obtain st1 g1 where e: "op_step who c e st = (st1, g1)" by fastforce
  obtain st2 g2 where es: "op_run who c es st1 = (st2, g2)" by fastforce
  have "budget_ok c (event_at e) (granted @ g1) st1" using op_step_budget [OF Cons.prems(1) _ e] Cons.prems(2) by simp
  from Cons.IH [OF this _ es] show ?case using Cons.prems(2,3) e es by simp
qed simp

text \<open>
  \<^bold>\<open>C25.\<close> The call budget holds across concurrent calls: however reservations, successes and failures of the calls
  of one plugin interleave, in the order of their instants, within any 60 seconds at most
  \<open>max_calls_per_minute\<close> of them are let through.
\<close>

theorem call_budget_sliding_window:
  assumes "in_order es"
  shows "in_span CALL_WINDOW_NS t (snd (op_run who c es fresh_op_state)) \<le> oc_max_calls_per_minute c"
proof -
  obtain st g where r: "op_run who c es fresh_op_state = (st, g)" by fastforce
  have "budget_ok c 0 [] fresh_op_state" by (simp add: budget_ok_def fresh_op_state_def)
  moreover have "sorted (0 # map event_at es)" using assms by (simp add: in_order_def)
  ultimately show ?thesis using op_run_budget [OF _ _ r, of 0 "[]"] r by (simp add: budget_ok_def)
qed

subsection \<open>The circuit breaker\<close>

definition cooldown_ns :: "operational_controls \<Rightarrow> nat" where
  "cooldown_ns c = oc_circuit_breaker_cooldown_ms c * NS_PER_MS"

definition fails :: "op_event list \<Rightarrow> nat" where
  "fails es = length (filter (\<lambda>e. case e of Fail _ \<Rightarrow> True | _ \<Rightarrow> False) es)"

definition no_success :: "op_event list \<Rightarrow> bool" where
  "no_success es \<longleftrightarrow> list_all (\<lambda>e. case e of Succeed _ \<Rightarrow> False | _ \<Rightarrow> True) es"

text \<open>While the breaker is open until \<open>u\<close> or later, no reservation before \<open>u\<close> passes, whatever else happens.\<close>

definition open_until :: "nat \<Rightarrow> op_state \<Rightarrow> bool" where
  "open_until u st \<longleftrightarrow> (case os_circuit_open_until st of Some v \<Rightarrow> u \<le> v | None \<Rightarrow> False)"

lemma open_op_step:
  assumes "open_until u st" "event_at e < u" "u \<le> event_at e + cooldown_ns c" "op_step who c e st = (st', g)"
  shows "open_until u st' \<and> g = []"
proof (cases e)
  case (Reserve t)
  then show ?thesis using assms
    by (auto simp: reserve_call_budget_def open_until_def split: option.splits prod.splits if_splits)
next
  case (Fail t)
  then show ?thesis using assms
    by (auto simp: mark_failure_def open_until_def cooldown_ns_def Let_def split: if_splits)
qed (use assms in \<open>auto simp: open_until_def mark_success_def\<close>)

lemma open_op_run:
  "open_until u st \<Longrightarrow> (\<forall>e\<in>set es. event_at e < u \<and> u \<le> event_at e + cooldown_ns c) \<Longrightarrow>
    open_until u (fst (op_run who c es st)) \<and> snd (op_run who c es st) = []"
proof (induction es arbitrary: st)
  case (Cons e es)
  obtain st1 g1 where e: "op_step who c e st = (st1, g1)" by fastforce
  have "open_until u st1 \<and> g1 = []" using open_op_step [OF _ _ _ e] Cons.prems by simp
  then show ?case using Cons.IH [of st1] Cons.prems(2) e by (auto split: prod.splits)
qed simp

lemma closed_op_run:
  assumes "os_circuit_open_until st = None" "no_success es"
    "os_consecutive_failures st + fails es < min (oc_circuit_breaker_failures c) (2 ^ 32)"
  shows "os_circuit_open_until (fst (op_run who c es st)) = None \<and>
    os_consecutive_failures (fst (op_run who c es st)) = os_consecutive_failures st + fails es"
  using assms
proof (induction es arbitrary: st)
  case (Cons e es)
  obtain st1 g1 where e: "op_step who c e st = (st1, g1)" by fastforce
  have "os_circuit_open_until st1 = None \<and> os_consecutive_failures st1 = os_consecutive_failures st + fails [e]"
    using e Cons.prems
    by (cases e) (auto simp: reserve_call_budget_def close_expired_def mark_failure_def no_success_def fails_def
        Let_def split: prod.splits if_splits)
  moreover have "fails (e # es) = fails [e] + fails es" by (simp add: fails_def)
  ultimately show ?case using Cons.IH [of st1] Cons.prems e by (auto simp: no_success_def split: prod.splits)
qed (simp add: fails_def)

text \<open>
  The circuit breaker opens after \<open>circuit_breaker_failures\<close> failed calls in a row and holds for the
  cooldown: from a closed breaker without failures, after events with no success whose failures, the last one
  at \<open>t\<close>, reach the limit, no later event before \<open>t\<close> plus the cooldown lets a call through, even if calls
  still running then succeed or fail.
\<close>

theorem failures_open_breaker:
  assumes "os_circuit_open_until st = None" "os_consecutive_failures st = 0" "no_success es"
    and "fails es + 1 = oc_circuit_breaker_failures c" "oc_circuit_breaker_failures c < 2 ^ 32"
    and "in_order (Fail t # es')" "\<forall>e\<in>set es'. event_at e < t + cooldown_ns c"
  shows "snd (op_run who c (es @ Fail t # es') st) = snd (op_run who c es st)"
proof -
  obtain st1 g1 where r1: "op_run who c es st = (st1, g1)" by fastforce
  have c1: "os_circuit_open_until st1 = None \<and> os_consecutive_failures st1 = fails es"
    using closed_op_run [OF assms(1,3), of c who] assms(2,4,5) r1 by simp
  then have "open_until (t + cooldown_ns c) (mark_failure c t st1)"
    using assms(4,5) by (simp add: mark_failure_def open_until_def cooldown_ns_def Let_def)
  moreover have "\<forall>e\<in>set es'. event_at e < t + cooldown_ns c \<and> t + cooldown_ns c \<le> event_at e + cooldown_ns c"
    using assms(6,7) by (auto simp: in_order_def)
  ultimately have "snd (op_run who c es' (mark_failure c t st1)) = []" using open_op_run by blast
  then show ?thesis using r1
    by (cases "op_run who c es' (mark_failure c t st1)") (simp add: op_run_append)
qed

subsection \<open>What a call that succeeds has passed\<close>

lemma enforce_scoped_arguments_Inr:
  "enforce_scoped_arguments t args = Inr () \<longleftrightarrow> \<not> sb_allow_fs_read (it_sandbox_policy t) \<or>
     (\<exists>path. get_str args ''target_path'' = Some path \<and> safe_relative (backslashed (trim path)) \<and>
        scope_match (backslashed (trim path)) (cs_fs_read_paths (it_scopes t)))"
  by (auto simp: enforce_scoped_arguments_def safe_path_iff safe_relative_def split: option.splits if_splits)

lemma tool_call_Inr:
  assumes "call_installed_tool serialize show_json host t now later args st = (Inr r, st')"
  shows "enforce_scoped_arguments t args = Inr () \<and>
    fst (reserve_call_budget (tool_who t) (it_controls t) now st) = Inr () \<and>
    (\<exists>x. attempts (tool_execute_once serialize host t args) (oc_max_retries (it_controls t)) 0 = Inr x \<and>
       r = tool_result show_json t x)"
  using assms
  by (cases "enforce_scoped_arguments t args"; cases "reserve_call_budget (tool_who t) (it_controls t) now st")
    (auto simp: call_installed_tool_def seqE_def bindE_apply split: sum.splits)

text \<open>
  \<^bold>\<open>C24.\<close> A call of an installed tool that returns has stayed within what its package declared. If the package
  declares \<open>fs_read\<close>, the argument \<open>target_path\<close> is a relative path without \<open>..\<close> whose components begin with those
  of one of the declared scopes, also such a path; and the result is that of the first attempt that
  succeeded, one of at most \<open>max_retries + 1\<close>.
\<close>

theorem tool_call_contained:
  assumes "tool_of_package m version_dir t" "call_installed_tool serialize show_json host t now later args st = (Inr r, st')"
  shows "(CapFsRead \<notin> set (pm_capabilities m) \<or> (\<exists>path. get_str args ''target_path'' = Some path \<and>
       safe_relative (backslashed (trim path)) \<and> (\<exists>scope\<in>set (cs_fs_read_paths (it_scopes t)). safe_relative scope \<and>
         (\<exists>below. path_components (backslashed (trim path)) = path_components scope @ below)))) \<and>
    (\<exists>j\<le>oc_max_retries (it_controls t). \<exists>x. tool_execute_once serialize host t args j = Inr x \<and>
       r = tool_result show_json t x \<and> (\<forall>k<j. \<exists>e. tool_execute_once serialize host t args k = Inl e))"
proof -
  note c = tool_call_Inr [OF assms(2)]
  have scopes: "\<forall>s\<in>set (cs_fs_read_paths (it_scopes t)). safe_relative s"
    using assms(1) normalize_scopes_paths by (auto simp: tool_of_package_def)
  have "\<exists>scope\<in>set (cs_fs_read_paths (it_scopes t)). safe_relative scope \<and>
      (\<exists>below. path_components p = path_components scope @ below)"
    if p: "scope_match p (cs_fs_read_paths (it_scopes t))" for p
  proof -
    obtain s where s: "s \<in> set (cs_fs_read_paths (it_scopes t))" "p = s \<or> (\<exists>b. p = s @ CHR ''/'' # b)"
      using p by (auto simp: scope_match_iff)
    then have "\<exists>below. path_components p = path_components s @ below"
      using path_components_below [of s] scopes by (auto simp: safe_relative_def)
    then show ?thesis using s(1) scopes by blast
  qed
  then have "CapFsRead \<notin> set (pm_capabilities m) \<or> (\<exists>path. get_str args ''target_path'' = Some path \<and>
       safe_relative (backslashed (trim path)) \<and> (\<exists>scope\<in>set (cs_fs_read_paths (it_scopes t)). safe_relative scope \<and>
         (\<exists>below. path_components (backslashed (trim path)) = path_components scope @ below)))"
    using c assms(1) by (auto simp: enforce_scoped_arguments_Inr tool_of_package_def)
  moreover have "\<exists>j\<le>oc_max_retries (it_controls t). \<exists>x. tool_execute_once serialize host t args j = Inr x \<and>
       r = tool_result show_json t x \<and> (\<forall>k<j. \<exists>e. tool_execute_once serialize host t args k = Inl e)"
    using c attempts_Inr [of "tool_execute_once serialize host t args" _ 0] by fastforce
  ultimately show ?thesis by blast
qed

text \<open>
  A call counts as one failure however many of its attempts failed.
\<close>

theorem failed_call_counts_once:
  assumes "\<And>k. k \<le> oc_max_retries (it_controls t) \<Longrightarrow> \<exists>e. tool_execute_once serialize host t args k = Inl e"
    and "enforce_scoped_arguments t args = Inr ()" "reserve_call_budget (tool_who t) (it_controls t) now st = (Inr (), st1)"
  shows "call_installed_tool serialize show_json host t now later args st =
    (Inl (projl (tool_execute_once serialize host t args (oc_max_retries (it_controls t)))), mark_failure (it_controls t) later st1)"
proof -
  obtain e where e: "attempts (tool_execute_once serialize host t args) (oc_max_retries (it_controls t)) 0 = Inl e"
    using attempts_Inr [of "tool_execute_once serialize host t args" "oc_max_retries (it_controls t)" 0] assms(1)
    by (cases "attempts (tool_execute_once serialize host t args) (oc_max_retries (it_controls t)) 0") fastforce+
  then show ?thesis using attempts_Inl [OF e] assms(2,3) by (simp add: call_installed_tool_def seqE_def bindE_apply)
qed

text \<open>
  Responses that do not decode never trip the circuit breaker: a model plugin that answers every inference with
  one leaves the count of failures as it was, however often it is asked, although each of these
  inferences fails.
\<close>

theorem malformed_responses_never_trip:
  assumes "os_circuit_open_until st = None"
    and "\<And>k. \<exists>out. model_execute_once host p input_json k = Inr out"
    and "\<And>out. \<exists>e. decode_output_payload parse decode p out = Inl e"
  shows "(\<forall>times. let st' = fold (\<lambda>(now, later) st. snd (infer parse decode host p now later (Inr input_json) st)) times st in
      os_circuit_open_until st' = None \<and> os_consecutive_failures st' = os_consecutive_failures st) \<and>
    (\<forall>now later st. \<exists>e. fst (infer parse decode host p now later (Inr input_json) st) = Inl e)"
proof -
  obtain out where "attempts (model_execute_once host p input_json) (oc_max_retries (im_controls p)) 0 = Inr out"
    using assms(2) [of 0] by (auto simp: attempts.simps [of _ _ 0])
  moreover obtain e where "decode_output_payload parse decode p out = Inl e" using assms(3) by blast
  ultimately have one: "infer parse decode host p now later (Inr input_json) st =
      (case reserve_call_budget (model_who p) (im_controls p) now st of (r, st') \<Rightarrow>
         (case r of Inl err \<Rightarrow> Inl err | Inr _ \<Rightarrow> Inl e, st'))" for now later st
    by (simp add: infer_def seqE_def bindE_apply split: prod.splits sum.splits)
  have step: "os_circuit_open_until (snd (infer parse decode host p now later (Inr input_json) s)) = None \<and>
      os_consecutive_failures (snd (infer parse decode host p now later (Inr input_json) s)) = os_consecutive_failures s"
    if "os_circuit_open_until s = None" for now later s
    using that by (auto simp: one reserve_call_budget_def close_expired_def Let_def split: prod.splits)
  have "os_circuit_open_until s = None \<Longrightarrow>
      os_circuit_open_until (fold (\<lambda>(now, later) st. snd (infer parse decode host p now later (Inr input_json) st)) times s) = None \<and>
      os_consecutive_failures (fold (\<lambda>(now, later) st. snd (infer parse decode host p now later (Inr input_json) st)) times s) =
        os_consecutive_failures s" for times s
    by (induction times arbitrary: s) (auto simp: step)
  then show ?thesis using assms(1) by (auto simp: Let_def one split: prod.splits sum.splits)
qed

subsection \<open>The theorems at concrete calls\<close>

definition demo_controls :: operational_controls where
  "demo_controls = \<lparr>oc_timeout_ms = 1000, oc_max_retries = 1, oc_max_calls_per_minute = 2,
     oc_circuit_breaker_failures = 2, oc_circuit_breaker_cooldown_ms = 100\<rparr>"

lemmas op_eval = reserve_call_budget_def close_expired_def prune_span_def fresh_op_state_def mark_success_def
  mark_failure_def demo_controls_def CALL_WINDOW_NS_def NS_PER_MS_def cooldown_ns_def

theorem call_budget_sliding_window_witness:
  "snd (op_run ''t'' demo_controls [Reserve 0, Succeed 1, Reserve 2, Reserve 3] fresh_op_state) = [0, 2] \<and>
   in_span CALL_WINDOW_NS 3 [0, 2] \<le> 2"
proof -
  have r: "snd (op_run ''t'' demo_controls [Reserve 0, Succeed 1, Reserve 2, Reserve 3] fresh_op_state) = [0, 2]"
    by (simp add: op_eval)
  have "in_order [Reserve 0, Succeed 1, Reserve 2, Reserve 3]" by (simp add: in_order_def)
  then show ?thesis
    using call_budget_sliding_window [of _ 3 "''t''" demo_controls] r by (fastforce simp: demo_controls_def)
qed

theorem failures_open_breaker_witness:
  "snd (op_run ''t'' demo_controls [Reserve 0, Reserve 1, Fail 2, Fail 3, Succeed 4, Reserve 5] fresh_op_state) = [0, 1]"
proof -
  have "no_success [Reserve 0, Reserve 1, Fail 2] \<and> fails [Reserve 0, Reserve 1, Fail 2] + 1 = oc_circuit_breaker_failures demo_controls \<and>
      in_order (Fail 3 # [Succeed 4, Reserve 5]) \<and> (\<forall>e\<in>set [Succeed 4, Reserve 5]. event_at e < 3 + cooldown_ns demo_controls)"
    by (simp add: no_success_def fails_def in_order_def op_eval)
  moreover have "os_circuit_open_until fresh_op_state = None" "os_consecutive_failures fresh_op_state = 0"
      "oc_circuit_breaker_failures demo_controls < 2 ^ 32"
    by (simp_all add: op_eval)
  ultimately have "snd (op_run ''t'' demo_controls ([Reserve 0, Reserve 1, Fail 2] @ Fail 3 # [Succeed 4, Reserve 5]) fresh_op_state) =
      snd (op_run ''t'' demo_controls [Reserve 0, Reserve 1, Fail 2] fresh_op_state)"
    by (intro failures_open_breaker) simp_all
  moreover have "snd (op_run ''t'' demo_controls [Reserve 0, Reserve 1, Fail 2] fresh_op_state) = [0, 1]"
    by (simp add: op_eval)
  ultimately show ?thesis by simp
qed

definition demo_execution :: skill_execution where
  "demo_execution = \<lparr>se_exit_code = 0, se_calls = [], se_output_json = Some ''{}''\<rparr>"

definition demo_host :: "sandbox_policy \<Rightarrow> skill_execution host" where
  "demo_host policy attempt path input = (if path = ''h/acme.echo/1.2.3/payload/echo.wasm'' then Joined (Inr demo_execution)
     else Elapsed)"

theorem tool_call_contained_witness:
  "\<exists>r st' path scope below. call_installed_tool (\<lambda>_. Inr ''{}'') (\<lambda>_. []) demo_host demo_tool 0 1
       (JObj [(''target_path'', JStr ''data/a.txt'')]) fresh_op_state = (Inr r, st') \<and>
     scope \<in> set (cs_fs_read_paths (it_scopes demo_tool)) \<and> backslashed (trim path) = ''data/a.txt'' \<and>
     path_components (backslashed (trim path)) = path_components scope @ below"
proof -
  let ?args = "JObj [(''target_path'', JStr ''data/a.txt'')]"
  obtain vd m where m: "tool_of_package m vd demo_tool"
    using load_one_plugin_Inr [OF demo_load [of "[CapToolProvider, CapFsRead]"]] by (auto simp: package_loaded_def)
  have sandbox: "sb_allow_fs_read (it_sandbox_policy demo_tool)" by (simp add: demo_tool_def)
  have b: "backslashed ''data/a.txt'' = ''data/a.txt''" "trim ''data/a.txt'' = ''data/a.txt''"
    by (simp_all add: backslashed_def str_eval)
  then have p: "backslashed (trim ''data/a.txt'') = ''data/a.txt''" by simp
  have path: "path_components ''data/a.txt'' = [NormalDir ''data'', NormalDir ''a.txt'']"
    by (simp add: demo_home_simps str_eval)
  have "enforce_scoped_arguments demo_tool ?args = Inr ()"
    by (simp add: enforce_scoped_arguments_Inr b path safe_relative_def scope_match_def demo_tool_def starts_with_def
        strip_prefix_def)
  moreover have "attempts (tool_execute_once (\<lambda>_. Inr ''{}'') demo_host demo_tool ?args) n 0 = Inr demo_execution" for n
    by (subst attempts.simps) (simp add: tool_execute_once_def demo_host_def demo_tool_def)
  ultimately obtain r st' where c: "call_installed_tool (\<lambda>_. Inr ''{}'') (\<lambda>_. []) demo_host demo_tool 0 1 ?args fresh_op_state = (Inr r, st')"
    by (simp add: call_installed_tool_def seqE_def bindE_apply reserve_call_budget_def fresh_op_state_def close_expired_def
        prune_span_def demo_tool_def default_controls_def operational_controls.defs)
  show ?thesis using tool_call_contained [OF m c] m sandbox c p by (fastforce simp: tool_of_package_def)
qed

definition demo_model :: installed_model where
  "demo_model = \<lparr>im_plugin_id = ''acme.model'', im_plugin_version = ''1.0.0'', im_provider_name = ''openai'',
     im_model_name = ''m1'', im_provider_profile = Some openai_profile, im_entrypoint_abs = ''m.wasm'',
     im_scopes = \<lparr>cs_fs_read_paths = [], cs_network_allow_hosts = [''api.openai.com''], cs_env_allow = []\<rparr>,
     im_controls = demo_controls\<rparr>"

theorem malformed_responses_never_trip_witness:
  "os_circuit_open_until (fold (\<lambda>(now, later) st. snd (infer (\<lambda>_. Inl ''eof'') (\<lambda>_. None) (\<lambda>_ _ _ _. Joined (Inr ''{''))
     demo_model now later (Inr ''{}'') st)) [(0, 1), (2, 3), (4, 5)] fresh_op_state) = None"
proof -
  have "\<exists>e. decode_output_payload (\<lambda>_. Inl ''eof'') (\<lambda>_. None) demo_model out = Inl e" for out
    by (simp add: decode_output_payload_def)
  moreover have "\<exists>out. model_execute_once (\<lambda>_ _ _ _. Joined (Inr ''{'')) demo_model ''{}'' k = Inr out" for k
    by (simp add: model_execute_once_def)
  moreover have "os_circuit_open_until fresh_op_state = None" by (simp add: fresh_op_state_def)
  ultimately show ?thesis
    using malformed_responses_never_trip [of fresh_op_state "\<lambda>_ _ _ _. Joined (Inr ''{'')" demo_model "''{}''"
        "\<lambda>_. Inl ''eof''" "\<lambda>_. None", THEN conjunct1, THEN spec, of "[(0, 1), (2, 3), (4, 5)]"]
    by (simp add: Let_def)
qed

end
