(* ===== verification/Memory_Controller.thy ===== *)
theory Memory_Controller
  imports Core_Types
begin

section \<open>The memory controller (kelvin-memory-controller, kelvin-memory-api, kelvin-memory-module-sdk)\<close>

text \<open>
  The gRPC service that keeps the agents' memory. A request carries a delegation token; the controller checks its
  claims against the request, refuses a token it has seen, answers a request id it has answered from a cache,
  runs the WebAssembly module of the request and then asks the memory provider.

  Parameters of the model are what the code takes from libraries: \<open>ce_verify\<close> is \<open>verify_delegation_token\<close>
  with the key, issuer, audience and leeway of the configuration, at a time in seconds (a signature check of the
  JWT library); the WebAssembly runtime is \<open>wasm_engine\<close>; the provider is the record of the operations of the trait
  \<open>MemoryProvider\<close> on a state of type \<open>'p\<close>, \<open>InMemoryProvider\<close> being one. A byte string is a list of numbers.
\<close>

subsection \<open>Requests and claims (kelvin-memory-api/src/lib.rs)\<close>

datatype memory_operation = OpUpsert | OpQuery | OpRead | OpDelete | OpHealth

fun operation_as_str :: "memory_operation \<Rightarrow> string" where
  "operation_as_str OpUpsert = ''upsert''"
| "operation_as_str OpQuery = ''query''"
| "operation_as_str OpRead = ''read''"
| "operation_as_str OpDelete = ''delete''"
| "operation_as_str OpHealth = ''health''"

record request_limits =
  rl_timeout_ms :: nat
  rl_max_bytes :: nat
  rl_max_results :: nat

record delegation_claims =
  dc_iss :: string
  dc_sub :: string
  dc_aud :: string
  dc_jti :: string
  dc_exp :: nat
  dc_nbf :: nat
  dc_tenant_id :: string
  dc_workspace_id :: string
  dc_session_id :: string
  dc_module_id :: string
  dc_allowed_ops :: "string list"
  dc_allowed_capabilities :: "string list"
  dc_request_limits :: request_limits

definition allows_operation :: "delegation_claims \<Rightarrow> memory_operation \<Rightarrow> bool" where
  "allows_operation c op \<longleftrightarrow> operation_as_str op \<in> set (dc_allowed_ops c)"

record memory_module_manifest =
  mm_module_id :: string
  mm_version :: string
  mm_api_version :: string
  mm_capabilities :: "string list"
  mm_required_host_features :: "string list"
  mm_entrypoint :: string
  mm_publisher :: string
  mm_signature :: string

text \<open>The error is an \<open>ApiError\<close>, here with its text.\<close>

definition api_invalid :: "string \<Rightarrow> string" where
  "api_invalid m = ''invalid input: '' @ m"

fun check_module_capabilities :: "string set \<Rightarrow> string list \<Rightarrow> string + unit" where
  "check_module_capabilities seen [] = Inr ()"
| "check_module_capabilities seen (c # cs) =
     (if trim c = [] then Inl (api_invalid ''capabilities must not include empty value'')
      else if trim c \<in> seen then Inl (api_invalid (''duplicate capability: '' @ trim c))
      else check_module_capabilities (insert (trim c) seen) cs)"

definition validate_module_manifest :: "memory_module_manifest \<Rightarrow> string + unit" where
  "validate_module_manifest m =
     (if trim (mm_module_id m) = [] then Inl (api_invalid ''module_id must not be empty'')
      else if trim (mm_version m) = [] then Inl (api_invalid ''version must not be empty'')
      else if trim (mm_api_version m) = [] then Inl (api_invalid ''api_version must not be empty'')
      else if trim (mm_entrypoint m) = [] then Inl (api_invalid ''entrypoint must not be empty'')
      else if trim (mm_publisher m) = [] then Inl (api_invalid ''publisher must not be empty'')
      else if trim (mm_signature m) = [] then Inl (api_invalid ''signature must not be empty'')
      else check_module_capabilities {} (mm_capabilities m))"

record request_context =
  rc_delegation_token :: string
  rc_request_id :: string
  rc_tenant_id :: string
  rc_workspace_id :: string
  rc_session_id :: string
  rc_module_id :: string

record 'f search_hit =
  sh_path :: string
  sh_snippet :: string
  sh_score :: 'f
  sh_start_line :: nat
  sh_end_line :: nat

record health_response =
  hr_ok :: bool
  hr_provider :: string
  hr_enabled_features :: "string list"
  hr_loaded_modules :: "string list"

subsection \<open>Configuration (config.rs)\<close>

datatype memory_profile = ProfileMinimal | ProfileIPhone | ProfileLinuxGpu

record controller_config =
  cc_issuer :: string
  cc_audience :: string
  cc_decoding_key_pem :: string
  cc_decoding_key_path :: string
  cc_tls_cert_pem :: string
  cc_tls_cert_path :: string
  cc_tls_key_pem :: string
  cc_tls_key_path :: string
  cc_tls_client_ca_pem :: string
  cc_tls_client_ca_path :: string
  cc_clock_skew_secs :: nat
  cc_max_module_bytes :: nat
  cc_max_memory_pages :: nat
  cc_default_fuel :: nat
  cc_default_timeout_ms :: nat
  cc_default_max_response_bytes :: nat
  cc_replay_window_secs :: nat
  cc_profile :: memory_profile

definition default_controller_config :: controller_config where
  "default_controller_config = \<lparr>cc_issuer = ''kelvin-root'', cc_audience = ''kelvin-memory-controller'',
     cc_decoding_key_pem = [], cc_decoding_key_path = [], cc_tls_cert_pem = [], cc_tls_cert_path = [],
     cc_tls_key_pem = [], cc_tls_key_path = [], cc_tls_client_ca_pem = [], cc_tls_client_ca_path = [],
     cc_clock_skew_secs = 30, cc_max_module_bytes = 2 * 1024 * 1024, cc_max_memory_pages = 64,
     cc_default_fuel = 100000, cc_default_timeout_ms = 2000, cc_default_max_response_bytes = 1024 * 1024,
     cc_replay_window_secs = 120, cc_profile = ProfileMinimal\<rparr>"

definition fails_if :: "bool \<Rightarrow> string \<Rightarrow> unit kelvin_result" where
  "fails_if b what = (if b then Inl (InvalidInput what) else Inr ())"

lemma fails_if_Inr [simp]: "fails_if b what = Inr () \<longleftrightarrow> \<not> b"
  by (simp add: fails_if_def)

definition validate_controller_config :: "controller_config \<Rightarrow> unit kelvin_result" where
  "validate_controller_config c = first_error
     [fails_if (trim (cc_issuer c) = []) ''memory issuer must not be empty'',
      fails_if (trim (cc_audience c) = []) ''memory audience must not be empty'',
      fails_if (300 < cc_clock_skew_secs c) ''memory clock skew must be <= 300 seconds'',
      fails_if (cc_max_module_bytes c = 0) ''memory max module bytes must be > 0'',
      fails_if (cc_max_memory_pages c = 0) ''memory max memory pages must be > 0'',
      fails_if (cc_default_fuel c = 0) ''memory default fuel must be > 0'',
      fails_if (cc_default_timeout_ms c = 0) ''memory default timeout must be > 0'',
      fails_if (cc_default_max_response_bytes c = 0) ''memory max response bytes must be > 0'',
      fails_if (3600 < cc_replay_window_secs c) ''memory replay window must be <= 3600 seconds'']"

definition quote :: "string \<Rightarrow> string" where "quote s = [CHR 39] @ s @ [CHR 39]"

text \<open>
  The configuration from the environment: a variable that is set and not blank replaces a text, one that parses replaces a
  number. \<open>read\<close> is the reading of a file as UTF-8.
\<close>

definition env_text :: "(string \<Rightarrow> string option) \<Rightarrow> string \<Rightarrow> (string \<Rightarrow> 'c \<Rightarrow> 'c) \<Rightarrow> 'c \<Rightarrow> 'c" where
  "env_text env name upd c = (case env name of Some v \<Rightarrow> if trim v = [] then c else upd v c | None \<Rightarrow> c)"

definition env_number :: "(string \<Rightarrow> string option) \<Rightarrow> string \<Rightarrow> nat \<Rightarrow> (nat \<Rightarrow> 'c \<Rightarrow> 'c) \<Rightarrow> 'c \<Rightarrow> 'c" where
  "env_number env name maxv upd c = (case env name of
     Some v \<Rightarrow> (case parse_unsigned maxv v of Some n \<Rightarrow> upd n c | None \<Rightarrow> c)
   | None \<Rightarrow> c)"

definition memory_profile_of :: "string \<Rightarrow> memory_profile" where
  "memory_profile_of v = (let normalized = to_ascii_lowercase (trim v) in
     if normalized = ''iphone'' then ProfileIPhone
     else if normalized = ''linux-gpu'' \<or> normalized = ''linux_gpu'' then ProfileLinuxGpu
     else ProfileMinimal)"

definition controller_config_from_env :: "(string \<Rightarrow> string option) \<Rightarrow> controller_config" where
  "controller_config_from_env env = fold (\<lambda>set_field c. set_field c)
     [env_text env ''KELVIN_MEMORY_ISSUER'' (\<lambda>v c. c\<lparr>cc_issuer := v\<rparr>),
      env_text env ''KELVIN_MEMORY_AUDIENCE'' (\<lambda>v c. c\<lparr>cc_audience := v\<rparr>),
      env_text env ''KELVIN_MEMORY_PUBLIC_KEY_PEM'' (\<lambda>v c. c\<lparr>cc_decoding_key_pem := v\<rparr>),
      env_text env ''KELVIN_MEMORY_PUBLIC_KEY_PATH'' (\<lambda>v c. c\<lparr>cc_decoding_key_path := v\<rparr>),
      env_text env ''KELVIN_MEMORY_TLS_CERT_PEM'' (\<lambda>v c. c\<lparr>cc_tls_cert_pem := v\<rparr>),
      env_text env ''KELVIN_MEMORY_TLS_CERT_PATH'' (\<lambda>v c. c\<lparr>cc_tls_cert_path := v\<rparr>),
      env_text env ''KELVIN_MEMORY_TLS_KEY_PEM'' (\<lambda>v c. c\<lparr>cc_tls_key_pem := v\<rparr>),
      env_text env ''KELVIN_MEMORY_TLS_KEY_PATH'' (\<lambda>v c. c\<lparr>cc_tls_key_path := v\<rparr>),
      env_text env ''KELVIN_MEMORY_TLS_CLIENT_CA_PEM'' (\<lambda>v c. c\<lparr>cc_tls_client_ca_pem := v\<rparr>),
      env_text env ''KELVIN_MEMORY_TLS_CLIENT_CA_PATH'' (\<lambda>v c. c\<lparr>cc_tls_client_ca_path := v\<rparr>),
      env_number env ''KELVIN_MEMORY_CLOCK_SKEW_SECS'' u64_max (\<lambda>n c. c\<lparr>cc_clock_skew_secs := n\<rparr>),
      env_number env ''KELVIN_MEMORY_MAX_MODULE_BYTES'' u64_max (\<lambda>n c. c\<lparr>cc_max_module_bytes := n\<rparr>),
      env_number env ''KELVIN_MEMORY_MAX_MEMORY_PAGES'' (2 ^ 32 - 1) (\<lambda>n c. c\<lparr>cc_max_memory_pages := n\<rparr>),
      env_number env ''KELVIN_MEMORY_DEFAULT_FUEL'' u64_max (\<lambda>n c. c\<lparr>cc_default_fuel := n\<rparr>),
      env_number env ''KELVIN_MEMORY_DEFAULT_TIMEOUT_MS'' u64_max (\<lambda>n c. c\<lparr>cc_default_timeout_ms := n\<rparr>),
      env_number env ''KELVIN_MEMORY_DEFAULT_MAX_RESPONSE_BYTES'' u64_max (\<lambda>n c. c\<lparr>cc_default_max_response_bytes := n\<rparr>),
      env_number env ''KELVIN_MEMORY_REPLAY_WINDOW_SECS'' u64_max (\<lambda>n c. c\<lparr>cc_replay_window_secs := n\<rparr>),
      (\<lambda>c. case env ''KELVIN_MEMORY_PROFILE'' of Some v \<Rightarrow> c\<lparr>cc_profile := memory_profile_of v\<rparr> | None \<Rightarrow> c)]
     default_controller_config"

definition resolve_optional_pem :: "(string \<Rightarrow> string + string) \<Rightarrow> string \<Rightarrow> string \<Rightarrow> string \<Rightarrow> string option kelvin_result" where
  "resolve_optional_pem read inline path label = (let inl = trim inline; p = trim path in
     if inl \<noteq> [] \<and> p \<noteq> [] then Inl (InvalidInput (label @ '' cannot set both inline pem and path''))
     else if inl \<noteq> [] then Inr (Some inl)
     else if p = [] then Inr None
     else case read p of
       Inl err \<Rightarrow> Inl (InvalidInput (label @ '' path '' @ quote p @ '' is not readable: '' @ err))
     | Inr pem \<Rightarrow> if trim pem = [] then Inl (InvalidInput (label @ '' path '' @ quote p @ '' is empty'')) else Inr (Some pem))"

definition resolve_required_pem :: "(string \<Rightarrow> string + string) \<Rightarrow> string \<Rightarrow> string \<Rightarrow> string \<Rightarrow> string kelvin_result" where
  "resolve_required_pem read inline path label = bindR (resolve_optional_pem read inline path label) (\<lambda>pem.
     case pem of Some v \<Rightarrow> Inr v | None \<Rightarrow> Inl (InvalidInput (label @ '' must be provided via inline pem or path'')))"

text \<open>\<open>parse_key\<close> parses the public key, a certificate is kept as its text.\<close>

definition controller_decoding_key :: "(string \<Rightarrow> string + string) \<Rightarrow> (string \<Rightarrow> string + 'k) \<Rightarrow> controller_config \<Rightarrow> 'k kelvin_result" where
  "controller_decoding_key read parse_key c =
     bindR (resolve_required_pem read (cc_decoding_key_pem c) (cc_decoding_key_path c) ''memory controller public key'') (\<lambda>pem.
     case parse_key pem of Inl err \<Rightarrow> Inl (InvalidInput (''invalid decoding key pem: '' @ err)) | Inr k \<Rightarrow> Inr k)"

definition tls_identity :: "(string \<Rightarrow> string + string) \<Rightarrow> controller_config \<Rightarrow> (string \<times> string) option kelvin_result" where
  "tls_identity read c =
     bindR (resolve_optional_pem read (cc_tls_cert_pem c) (cc_tls_cert_path c) ''memory controller tls cert'') (\<lambda>cert.
     bindR (resolve_optional_pem read (cc_tls_key_pem c) (cc_tls_key_path c) ''memory controller tls key'') (\<lambda>key.
     case (cert, key) of
       (Some ct, Some k) \<Rightarrow> Inr (Some (ct, k))
     | (None, None) \<Rightarrow> Inr None
     | _ \<Rightarrow> Inl (InvalidInput ''controller tls requires both cert and key'')))"

definition tls_client_ca :: "(string \<Rightarrow> string + string) \<Rightarrow> controller_config \<Rightarrow> string option kelvin_result" where
  "tls_client_ca read c = resolve_optional_pem read (cc_tls_client_ca_pem c) (cc_tls_client_ca_path c) ''memory controller tls client ca''"

subsection \<open>Modules (module_runtime.rs)\<close>

text \<open>
  The WebAssembly engine: the memories a module declares, initial and maximal pages, read in order until an
  error; the compiled module or an error; what it exports; and the outcome of running an export under a timeout
  and with some fuel.
\<close>

record 'm wasm_engine =
  we_memories :: "nat list \<Rightarrow> (string + nat \<times> nat option) list"
  we_compile :: "nat list \<Rightarrow> 'm kelvin_result"
  we_exports :: "'m \<Rightarrow> string set"
  we_run :: "'m \<Rightarrow> string \<Rightarrow> nat \<Rightarrow> nat \<Rightarrow> unit kelvin_result"

record 'm memory_module =
  md_manifest :: memory_module_manifest
  md_module :: 'm

fun export_name :: "memory_operation \<Rightarrow> string" where
  "export_name OpUpsert = ''handle_upsert''"
| "export_name OpQuery = ''handle_query''"
| "export_name OpRead = ''handle_read''"
| "export_name OpDelete = ''handle_delete''"
| "export_name OpHealth = ''handle_health''"

fun check_memories :: "nat \<Rightarrow> (string + nat \<times> nat option) list \<Rightarrow> unit kelvin_result" where
  "check_memories limit [] = Inr ()"
| "check_memories limit (Inl err # ms) = Inl (InvalidInput err)"
| "check_memories limit (Inr (initial, maximum) # ms) =
     (if limit < initial then Inl (InvalidInput (''module initial memory pages '' @ show_nat initial @
        '' exceed limit '' @ show_nat limit))
      else case maximum of
        Some n \<Rightarrow> if limit < n then Inl (InvalidInput (''module max memory pages '' @ show_nat n @ '' exceed limit '' @ show_nat limit))
          else check_memories limit ms
      | None \<Rightarrow> check_memories limit ms)"

definition check_exports :: "memory_module_manifest \<Rightarrow> string set \<Rightarrow> unit kelvin_result" where
  "check_exports m exports = for_each (\<lambda>e. fails_if (e \<notin> exports)
     (''module '' @ quote (mm_module_id m) @ '' missing required export '' @ quote e))
     (map export_name [OpUpsert, OpQuery, OpRead, OpDelete, OpHealth])"

definition load_module :: "'m wasm_engine \<Rightarrow> controller_config \<Rightarrow> memory_module_manifest \<Rightarrow> nat list \<Rightarrow>
    'm memory_module kelvin_result" where
  "load_module we cfg m wasm_bytes =
     bindR (case validate_module_manifest m of Inl err \<Rightarrow> Inl (InvalidInput err) | Inr _ \<Rightarrow> Inr ()) (\<lambda>_.
     if cc_max_module_bytes cfg < length wasm_bytes then
       Inl (InvalidInput (''module '' @ quote (mm_module_id m) @ '' exceeds max bytes '' @ show_nat (cc_max_module_bytes cfg)))
     else bindR (check_memories (cc_max_memory_pages cfg) (we_memories we wasm_bytes)) (\<lambda>_.
       bindR (we_compile we wasm_bytes) (\<lambda>compiled.
       bindR (check_exports m (we_exports we compiled)) (\<lambda>_. Inr \<lparr>md_manifest = m, md_module = compiled\<rparr>))))"

definition enforce_required_host_features :: "memory_module_manifest \<Rightarrow> string list \<Rightarrow> unit kelvin_result" where
  "enforce_required_host_features m available = for_each (\<lambda>r. fails_if (r \<notin> set available)
     (''module '' @ quote (mm_module_id m) @ '' requires unavailable host feature '' @ quote r)) (mm_required_host_features m)"

subsection \<open>Providers (provider.rs)\<close>

record ('p, 'f) memory_provider =
  pv_id :: string
  pv_upsert :: "string \<Rightarrow> nat list \<Rightarrow> (string \<times> string) list \<Rightarrow> ('p, unit) eff"
  pv_query :: "string \<Rightarrow> nat \<Rightarrow> ('p, 'f search_hit list) eff"
  pv_read :: "string \<Rightarrow> ('p, nat list option) eff"
  pv_delete :: "string \<Rightarrow> ('p, bool) eff"
  pv_health :: "('p, bool) eff"

text \<open>
  \<open>InMemoryProvider\<close>, with the map as a list of its entries in iteration order. \<open>decode\<close> is \<open>from_utf8_lossy\<close>;
  \<open>score\<close> is the quotient of the two lengths as \<open>f32\<close>, at least the minimal score; lower case is
  Unicode's on U+0000 to U+00FF.
\<close>

definition to_lower_char :: "char \<Rightarrow> char" where
  "to_lower_char c = (if (65 \<le> code c \<and> code c \<le> 90) \<or> (192 \<le> code c \<and> code c \<le> 222 \<and> code c \<noteq> 215)
     then char_of (code c + 32) else c)"

definition to_lowercase :: "string \<Rightarrow> string" where
  "to_lowercase s = map to_lower_char s"

type_synonym memory_map = "(string \<times> nat list) list"

definition memory_hit :: "(nat list \<Rightarrow> string) \<Rightarrow> (nat \<Rightarrow> nat \<Rightarrow> 'f) \<Rightarrow> string \<Rightarrow> string \<times> nat list \<Rightarrow> 'f search_hit option" where
  "memory_hit decode score lowered e = (let contents = decode (snd e); haystack = to_lowercase contents in
     if contains_str lowered haystack then
       Some \<lparr>sh_path = fst e, sh_snippet = take 160 contents, sh_score = score (utf8_len lowered) (max (utf8_len haystack) 1),
             sh_start_line = 1, sh_end_line = 1\<rparr>
     else None)"

text \<open>The order of the hits: descending score, then path, then snippet.\<close>

definition insert_by :: "('a \<Rightarrow> 'a \<Rightarrow> bool) \<Rightarrow> 'a \<Rightarrow> 'a list \<Rightarrow> 'a list" where
  "insert_by before x xs = takeWhile (\<lambda>y. before y x) xs @ x # dropWhile (\<lambda>y. before y x) xs"

definition hit_before :: "('f::linorder) search_hit \<Rightarrow> 'f search_hit \<Rightarrow> bool" where
  "hit_before a b \<longleftrightarrow> sh_score b < sh_score a \<or> (sh_score a = sh_score b \<and>
     (sh_path a < sh_path b \<or> (sh_path a = sh_path b \<and> sh_snippet a < sh_snippet b)))"

definition query_memory :: "(nat list \<Rightarrow> string) \<Rightarrow> (nat \<Rightarrow> nat \<Rightarrow> 'f::linorder) \<Rightarrow> string \<Rightarrow> nat \<Rightarrow> memory_map \<Rightarrow> 'f search_hit list" where
  "query_memory decode score query max_results m =
     take max_results (foldr (insert_by hit_before) (List.map_filter (memory_hit decode score (to_lowercase query)) m) [])"

definition in_memory_provider :: "(nat list \<Rightarrow> string) \<Rightarrow> (nat \<Rightarrow> nat \<Rightarrow> 'f::linorder) \<Rightarrow> (memory_map, 'f) memory_provider" where
  "in_memory_provider decode score = \<lparr>pv_id = ''in_memory'',
     pv_upsert = (\<lambda>k v _ m. (Inr (), (k, v) # filter (\<lambda>e. fst e \<noteq> k) m)),
     pv_query = (\<lambda>q n m. (Inr (query_memory decode score q n m), m)),
     pv_read = (\<lambda>k m. (Inr (map_of m k), m)),
     pv_delete = (\<lambda>k m. (Inr (map_of m k \<noteq> None), filter (\<lambda>e. fst e \<noteq> k) m)),
     pv_health = (\<lambda>m. (Inr True, m))\<rparr>"


subsection \<open>The controller's state\<close>

text \<open>
  One provider is registered, as the program does; \<open>primary\<close> returns it. The fields of a response cached under a request
  id tell which operation it answers. The audit lines are those printed, in order.
\<close>

datatype 'f memory_response =
    UpsertResponse bool
  | QueryResponse "'f search_hit list"
  | ReadResponse bool "nat list"
  | DeleteResponse bool
  | HealthReport health_response

fun response_op :: "'f memory_response \<Rightarrow> memory_operation" where
  "response_op (UpsertResponse stored) = OpUpsert"
| "response_op (QueryResponse hits) = OpQuery"
| "response_op (ReadResponse found v) = OpRead"
| "response_op (DeleteResponse deleted) = OpDelete"
| "response_op (HealthReport h) = OpHealth"

record audit_line =
  au_request_id :: string
  au_module_id :: string
  au_tenant_id :: string
  au_workspace_id :: string
  au_session_id :: string
  au_operation :: string
  au_allowed :: bool
  au_reason :: string
  au_latency_ms :: nat

record ('m, 'p, 'f) controller_state =
  mc_modules :: "(string \<times> 'm memory_module) list"
  mc_replay :: "(string \<times> nat) list"
  mc_idempotency :: "string \<Rightarrow> 'f memory_response option"
  mc_provider :: 'p
  mc_audit :: "audit_line list"

record ('m, 'p, 'f) controller_env =
  ce_config :: controller_config
  ce_verify :: "string \<Rightarrow> nat \<Rightarrow> string + delegation_claims"
  ce_engine :: "'m wasm_engine"
  ce_provider :: "('p, 'f) memory_provider"
  ce_features :: "string list"

text \<open>The readings of the clock during a request: three in seconds, and the latency.\<close>

record request_times =
  tm_verify :: nat
  tm_context :: nat
  tm_replay :: nat
  tm_latency_ms :: nat

definition validate_profile_compatibility :: "string list \<Rightarrow> memory_profile \<Rightarrow> unit kelvin_result" where
  "validate_profile_compatibility features profile = (let nvidia = ''provider_vector_nvidia'' \<in> set features in
     case profile of
       ProfileMinimal \<Rightarrow> fails_if nvidia ''profile_minimal must not include provider_vector_nvidia''
     | ProfileIPhone \<Rightarrow> fails_if nvidia ''profile_iphone must not include provider_vector_nvidia''
     | ProfileLinuxGpu \<Rightarrow> fails_if (\<not> nvidia) ''profile_linux_gpu requires provider_vector_nvidia'')"

text \<open>\<open>decoding_key\<close> is the outcome of reading the public key.\<close>

definition new_controller :: "('m, 'p, 'f) controller_env \<Rightarrow> unit kelvin_result \<Rightarrow> 'p \<Rightarrow> ('m, 'p, 'f) controller_state kelvin_result" where
  "new_controller env decoding_key p =
     bindR (validate_controller_config (ce_config env)) (\<lambda>_.
     bindR (validate_profile_compatibility (ce_features env) (cc_profile (ce_config env))) (\<lambda>_.
     bindR decoding_key (\<lambda>_.
     Inr \<lparr>mc_modules = [], mc_replay = [], mc_idempotency = (\<lambda>_. None), mc_provider = p, mc_audit = []\<rparr>)))"

type_synonym ('m, 'p, 'f, 'a) controller_op = "(('m, 'p, 'f) controller_state, 'a) eff"

definition set_entry :: "'k \<Rightarrow> 'v \<Rightarrow> ('k \<times> 'v) list \<Rightarrow> ('k \<times> 'v) list" where
  "set_entry k v m = (k, v) # filter (\<lambda>e. fst e \<noteq> k) m"

definition register_module_bytes :: "('m, 'p, 'f) controller_env \<Rightarrow> memory_module_manifest \<Rightarrow> nat list \<Rightarrow>
    ('m, 'p, 'f, unit) controller_op" where
  "register_module_bytes env m wasm_bytes =
     bindE (liftE (enforce_required_host_features m (ce_features env))) (\<lambda>_.
     bindE (liftE (load_module (ce_engine env) (ce_config env) m wasm_bytes)) (\<lambda>md.
     modifyE (\<lambda>s. s\<lparr>mc_modules := set_entry (mm_module_id m) md (mc_modules s)\<rparr>)))"

definition loaded_modules :: "('m, 'p, 'f) controller_state \<Rightarrow> string list" where
  "loaded_modules s = sort (map fst (mc_modules s))"

subsection \<open>Requests (controller.rs)\<close>

definition insert_or_reject :: "string \<Rightarrow> nat \<Rightarrow> nat \<Rightarrow> (string \<times> nat) list \<Rightarrow> unit kelvin_result \<times> (string \<times> nat) list" where
  "insert_or_reject jti expiry now entries =
     (let live = filter (\<lambda>e. now < snd e) entries in
      if map_of live jti \<noteq> None then (Inl (InvalidInput (''replayed delegation token jti '' @ quote jti)), live)
      else (Inr (), set_entry jti expiry live))"

record validated_context =
  vc_request_id :: string
  vc_module_id :: string
  vc_claims :: delegation_claims

definition MAX_REQUEST_ID_LENGTH :: nat where "MAX_REQUEST_ID_LENGTH = 256"

definition context_matches :: "request_context \<Rightarrow> delegation_claims \<Rightarrow> bool" where
  "context_matches c d \<longleftrightarrow> rc_tenant_id c = dc_tenant_id d \<and> rc_workspace_id c = dc_workspace_id d \<and>
     rc_session_id c = dc_session_id d \<and> rc_module_id c = dc_module_id d"

definition replay_expiry :: "controller_config \<Rightarrow> delegation_claims \<Rightarrow> nat \<Rightarrow> nat" where
  "replay_expiry cfg claims now = (if cc_replay_window_secs cfg = 0 then dc_exp claims
     else min (dc_exp claims) (sat_add64 now (cc_replay_window_secs cfg)))"

definition check_context :: "('m, 'p, 'f) controller_env \<Rightarrow> request_times \<Rightarrow> memory_operation \<Rightarrow> request_context option \<Rightarrow>
    (request_context \<times> delegation_claims) kelvin_result" where
  "check_context env t op context = (case context of
     None \<Rightarrow> Inl (InvalidInput ''request context is required for memory rpc'')
   | Some c \<Rightarrow>
     if trim (rc_request_id c) = [] then Inl (InvalidInput ''request_id must not be empty'')
     else if MAX_REQUEST_ID_LENGTH < utf8_len (rc_request_id c) then Inl (InvalidInput ''request_id exceeds 256 chars'')
     else case ce_verify env (rc_delegation_token c) (tm_verify t) of
       Inl err \<Rightarrow> Inl (InvalidInput (''delegation token rejected: '' @ err))
     | Inr claims \<Rightarrow>
         if \<not> allows_operation claims op then
           Inl (InvalidInput (''delegation token does not allow operation '' @ quote (operation_as_str op)))
         else if \<not> context_matches c claims then Inl (InvalidInput ''request context does not match delegation claims'')
         else Inr (c, claims))"

definition validate_context :: "('m, 'p, 'f) controller_env \<Rightarrow> request_times \<Rightarrow> request_context option \<Rightarrow> memory_operation \<Rightarrow>
    ('m, 'p, 'f, validated_context) controller_op" where
  "validate_context env t context op s = (case check_context env t op context of
     Inl e \<Rightarrow> (Inl e, s)
   | Inr (c, claims) \<Rightarrow>
       (case insert_or_reject (dc_jti claims) (replay_expiry (ce_config env) claims (tm_context t)) (tm_replay t) (mc_replay s) of
          (Inl e, entries) \<Rightarrow> (Inl e, s\<lparr>mc_replay := entries\<rparr>)
        | (Inr _, entries) \<Rightarrow> (Inr \<lparr>vc_request_id = rc_request_id c, vc_module_id = rc_module_id c, vc_claims = claims\<rparr>,
            s\<lparr>mc_replay := entries\<rparr>)))"

definition run_module :: "('m, 'p, 'f) controller_env \<Rightarrow> validated_context \<Rightarrow> memory_operation \<Rightarrow> string \<Rightarrow>
    ('m, 'p, 'f, unit) controller_op" where
  "run_module env v op capability s = (
     if capability \<notin> set (dc_allowed_capabilities (vc_claims v)) then
       (Inl (InvalidInput (''delegation token missing capability '' @ quote capability)), s)
     else case map_of (mc_modules s) (vc_module_id v) of
       None \<Rightarrow> (Inl (NotFound (''memory module not found: '' @ vc_module_id v)), s)
     | Some md \<Rightarrow>
         if capability \<notin> set (mm_capabilities (md_manifest md)) then
           (Inl (InvalidInput (''module '' @ quote (vc_module_id v) @ '' missing required capability '' @ quote capability)), s)
         else (we_run (ce_engine env) (md_module md) (export_name op)
             (min (rl_timeout_ms (dc_request_limits (vc_claims v))) (cc_default_timeout_ms (ce_config env)))
             (cc_default_fuel (ce_config env)), s))"

definition check_cached :: "memory_operation \<Rightarrow> string \<Rightarrow> ('m, 'p, 'f) controller_state \<Rightarrow> 'f memory_response option" where
  "check_cached op request_id s = (case mc_idempotency s request_id of
     Some r \<Rightarrow> if response_op r = op then Some r else None
   | None \<Rightarrow> None)"

definition cache_response :: "string \<Rightarrow> 'f memory_response \<Rightarrow> ('m, 'p, 'f) controller_state \<Rightarrow> ('m, 'p, 'f) controller_state" where
  "cache_response request_id r s = s\<lparr>mc_idempotency := (mc_idempotency s)(request_id \<mapsto> r)\<rparr>"

definition enforce_response_size :: "controller_config \<Rightarrow> nat \<Rightarrow> delegation_claims \<Rightarrow> unit kelvin_result" where
  "enforce_response_size cfg data_len claims =
     (let hard_limit = min (cc_default_max_response_bytes cfg) (rl_max_bytes (dc_request_limits claims)) in
      fails_if (hard_limit < data_len) (''response payload '' @ show_nat data_len @ '' bytes exceeds limit '' @ show_nat hard_limit))"

definition audit_controller :: "request_times \<Rightarrow> memory_operation \<Rightarrow> validated_context \<Rightarrow> bool \<Rightarrow> string \<Rightarrow>
    ('m, 'p, 'f) controller_state \<Rightarrow> ('m, 'p, 'f) controller_state" where
  "audit_controller t op v allowed reason s = (let claims = vc_claims v in s\<lparr>mc_audit := mc_audit s @
     [\<lparr>au_request_id = vc_request_id v, au_module_id = dc_module_id claims, au_tenant_id = dc_tenant_id claims,
       au_workspace_id = dc_workspace_id claims, au_session_id = dc_session_id claims, au_operation = operation_as_str op,
       au_allowed = allowed, au_reason = reason, au_latency_ms = tm_latency_ms t\<rparr>]\<rparr>)"

datatype grpc_status = InvalidArgument string | NotFoundStatus string | DeadlineExceeded string | Unavailable string | Internal string

fun to_status :: "kelvin_error \<Rightarrow> grpc_status" where
  "to_status (InvalidInput m) = InvalidArgument m"
| "to_status (NotFound m) = NotFoundStatus m"
| "to_status (Timeout m) = DeadlineExceeded m"
| "to_status (Backend m) = Unavailable m"
| "to_status (Io m) = Internal m"


text \<open>
  The part the five handlers share: the context, the cache, then the operation under \<open>admit\<close>, a check that may fail before
  the operation is tried (its flag tells whether the failure is audited), and the response cached and audited, or the error
  audited. Each handler is its own instance below. A request is handled in one step.
\<close>

definition provider_op :: "('p, 'a) eff \<Rightarrow> ('m, 'p, 'f, 'a) controller_op" where
  "provider_op m s = (case m (mc_provider s) of (r, p) \<Rightarrow> (r, s\<lparr>mc_provider := p\<rparr>))"

definition finish_request :: "request_times \<Rightarrow> memory_operation \<Rightarrow> validated_context \<Rightarrow>
    ('m, 'p, 'f, 'f memory_response) controller_op \<Rightarrow> ('m, 'p, 'f) controller_state \<Rightarrow>
    (grpc_status + 'f memory_response) \<times> ('m, 'p, 'f) controller_state" where
  "finish_request t op v body s = (case body s of
     (Inr r, s') \<Rightarrow> (Inr r, audit_controller t op v True ''ok'' (cache_response (vc_request_id v) r s'))
   | (Inl e, s') \<Rightarrow> (Inl (to_status e), audit_controller t op v False (show_error e) s'))"

definition serve_memory :: "('m, 'p, 'f) controller_env \<Rightarrow> request_times \<Rightarrow> memory_operation \<Rightarrow> request_context option \<Rightarrow>
    (validated_context \<Rightarrow> (kelvin_error \<times> string option) option) \<Rightarrow>
    (validated_context \<Rightarrow> ('m, 'p, 'f, 'f memory_response) controller_op) \<Rightarrow> ('m, 'p, 'f) controller_state \<Rightarrow>
    (grpc_status + 'f memory_response) \<times> ('m, 'p, 'f) controller_state" where
  "serve_memory env t op context admit body s = (case validate_context env t context op s of
     (Inl e, s1) \<Rightarrow> (Inl (to_status e), s1)
   | (Inr v, s1) \<Rightarrow>
       (case check_cached op (vc_request_id v) s1 of
          Some r \<Rightarrow> (Inr r, audit_controller t op v True ''idempotency_cache_hit'' s1)
        | None \<Rightarrow>
            (case admit v of
               Some (e, audited) \<Rightarrow> (Inl (to_status e), case audited of None \<Rightarrow> s1 | Some reason \<Rightarrow> audit_controller t op v False reason s1)
             | None \<Rightarrow> finish_request t op v (body v) s1)))"

definition upsert_body :: "('m, 'p, 'f) controller_env \<Rightarrow> string \<Rightarrow> nat list \<Rightarrow> (string \<times> string) list \<Rightarrow> validated_context \<Rightarrow>
    ('m, 'p, 'f, 'f memory_response) controller_op" where
  "upsert_body env key v metadata ctx = bindE (run_module env ctx OpUpsert ''memory_crud'') (\<lambda>_.
     bindE (provider_op (pv_upsert (ce_provider env) key v metadata)) (\<lambda>_. okE (UpsertResponse True)))"

definition upsert_rpc :: "('m, 'p, 'f) controller_env \<Rightarrow> request_times \<Rightarrow> request_context option \<Rightarrow> string \<Rightarrow> nat list \<Rightarrow>
    (string \<times> string) list \<Rightarrow> ('m, 'p, 'f) controller_state \<Rightarrow> (grpc_status + 'f memory_response) \<times> ('m, 'p, 'f) controller_state" where
  "upsert_rpc env t context key v metadata = serve_memory env t OpUpsert context
     (\<lambda>ctx. let max_bytes = rl_max_bytes (dc_request_limits (vc_claims ctx)) in
        if max_bytes < length v then Some (InvalidInput (''upsert payload '' @ show_nat (length v) @ '' exceeds limit '' @
          show_nat max_bytes), Some ''payload_too_large'')
        else None)
     (upsert_body env key v metadata)"

definition query_body :: "('m, 'p, 'f) controller_env \<Rightarrow> string \<Rightarrow> nat \<Rightarrow> validated_context \<Rightarrow>
    ('m, 'p, 'f, 'f memory_response) controller_op" where
  "query_body env query max_results ctx = bindE (run_module env ctx OpQuery ''memory_read'') (\<lambda>_.
     bindE (provider_op (pv_query (ce_provider env) query max_results)) (\<lambda>hits.
     bindE (liftE (enforce_response_size (ce_config env)
       (sum_list (map (\<lambda>h. utf8_len (sh_path h) + utf8_len (sh_snippet h)) hits)) (vc_claims ctx))) (\<lambda>_.
     okE (QueryResponse hits))))"

definition query_rpc :: "('m, 'p, 'f) controller_env \<Rightarrow> request_times \<Rightarrow> request_context option \<Rightarrow> string \<Rightarrow> nat \<Rightarrow>
    ('m, 'p, 'f) controller_state \<Rightarrow> (grpc_status + 'f memory_response) \<times> ('m, 'p, 'f) controller_state" where
  "query_rpc env t context query max_results = serve_memory env t OpQuery context
     (\<lambda>ctx. let max_allowed = rl_max_results (dc_request_limits (vc_claims ctx)) in
        if max_allowed < max_results then Some (InvalidInput (''max_results '' @ show_nat max_results @ '' exceeds limit '' @
          show_nat max_allowed), None)
        else None)
     (query_body env query max_results)"

definition read_body :: "('m, 'p, 'f) controller_env \<Rightarrow> string \<Rightarrow> validated_context \<Rightarrow>
    ('m, 'p, 'f, 'f memory_response) controller_op" where
  "read_body env key ctx = bindE (run_module env ctx OpRead ''memory_read'') (\<lambda>_.
     bindE (provider_op (pv_read (ce_provider env) key)) (\<lambda>v.
     bindE (liftE (enforce_response_size (ce_config env) (length (opt_or v [])) (vc_claims ctx))) (\<lambda>_.
     okE (ReadResponse (v \<noteq> None) (opt_or v [])))))"

definition read_rpc :: "('m, 'p, 'f) controller_env \<Rightarrow> request_times \<Rightarrow> request_context option \<Rightarrow> string \<Rightarrow>
    ('m, 'p, 'f) controller_state \<Rightarrow> (grpc_status + 'f memory_response) \<times> ('m, 'p, 'f) controller_state" where
  "read_rpc env t context key = serve_memory env t OpRead context (\<lambda>_. None) (read_body env key)"

definition delete_body :: "('m, 'p, 'f) controller_env \<Rightarrow> string \<Rightarrow> validated_context \<Rightarrow>
    ('m, 'p, 'f, 'f memory_response) controller_op" where
  "delete_body env key ctx = bindE (run_module env ctx OpDelete ''memory_crud'') (\<lambda>_.
     bindE (provider_op (pv_delete (ce_provider env) key)) (\<lambda>deleted. okE (DeleteResponse deleted)))"

definition delete_rpc :: "('m, 'p, 'f) controller_env \<Rightarrow> request_times \<Rightarrow> request_context option \<Rightarrow> string \<Rightarrow>
    ('m, 'p, 'f) controller_state \<Rightarrow> (grpc_status + 'f memory_response) \<times> ('m, 'p, 'f) controller_state" where
  "delete_rpc env t context key = serve_memory env t OpDelete context (\<lambda>_. None) (delete_body env key)"

definition health_body :: "('m, 'p, 'f) controller_env \<Rightarrow> validated_context \<Rightarrow> ('m, 'p, 'f, 'f memory_response) controller_op" where
  "health_body env ctx = bindE (run_module env ctx OpHealth ''memory_health'') (\<lambda>_.
     bindE (provider_op (pv_health (ce_provider env))) (\<lambda>healthy.
     bindE (getsE loaded_modules) (\<lambda>modules.
     okE (HealthReport \<lparr>hr_ok = healthy, hr_provider = pv_id (ce_provider env), hr_enabled_features = ce_features env,
       hr_loaded_modules = modules\<rparr>))))"

definition health_rpc :: "('m, 'p, 'f) controller_env \<Rightarrow> request_times \<Rightarrow> request_context option \<Rightarrow>
    ('m, 'p, 'f) controller_state \<Rightarrow> (grpc_status + 'f memory_response) \<times> ('m, 'p, 'f) controller_state" where
  "health_rpc env t context = serve_memory env t OpHealth context (\<lambda>_. None) (health_body env)"

text \<open>A call of the service, the context apart.\<close>

datatype memory_call =
    CallUpsert string "nat list" "(string \<times> string) list"
  | CallQuery string nat
  | CallRead string
  | CallDelete string
  | CallHealth

fun call_op :: "memory_call \<Rightarrow> memory_operation" where
  "call_op (CallUpsert k v m) = OpUpsert"
| "call_op (CallQuery q n) = OpQuery"
| "call_op (CallRead k) = OpRead"
| "call_op (CallDelete k) = OpDelete"
| "call_op CallHealth = OpHealth"

fun memory_rpc :: "('m, 'p, 'f) controller_env \<Rightarrow> request_times \<Rightarrow> request_context option \<Rightarrow> memory_call \<Rightarrow>
    ('m, 'p, 'f) controller_state \<Rightarrow> (grpc_status + 'f memory_response) \<times> ('m, 'p, 'f) controller_state" where
  "memory_rpc env t c (CallUpsert k v m) = upsert_rpc env t c k v m"
| "memory_rpc env t c (CallQuery q n) = query_rpc env t c q n"
| "memory_rpc env t c (CallRead k) = read_rpc env t c k"
| "memory_rpc env t c (CallDelete k) = delete_rpc env t c k"
| "memory_rpc env t c CallHealth = health_rpc env t c"

fun memory_rpcs :: "('m, 'p, 'f) controller_env \<Rightarrow> (request_times \<times> request_context option \<times> memory_call) list \<Rightarrow>
    ('m, 'p, 'f) controller_state \<Rightarrow> ('m, 'p, 'f) controller_state" where
  "memory_rpcs env [] s = s"
| "memory_rpcs env ((t, c, call) # rs) s = memory_rpcs env rs (snd (memory_rpc env t c call s))"

text \<open>The capability a call needs.\<close>

fun required_capability :: "memory_operation \<Rightarrow> string" where
  "required_capability OpUpsert = ''memory_crud''"
| "required_capability OpQuery = ''memory_read''"
| "required_capability OpRead = ''memory_read''"
| "required_capability OpDelete = ''memory_crud''"
| "required_capability OpHealth = ''memory_health''"

subsection \<open>Facts on requests\<close>

lemma set_entry_map_of [simp]: "map_of (set_entry k v m) = (map_of m)(k \<mapsto> v)"
proof
  fix x
  have "map_of (filter (\<lambda>e. fst e \<noteq> k) m) x = (if x = k then None else map_of m x)"
    by (induction m) auto
  then show "map_of (set_entry k v m) x = ((map_of m)(k \<mapsto> v)) x" by (simp add: set_entry_def)
qed

lemma map_of_filter_snd:
  "distinct (map fst m) \<Longrightarrow> map_of (filter (\<lambda>e. P (snd e)) m) k = (case map_of m k of Some v \<Rightarrow> if P v then Some v else None | None \<Rightarrow> None)"
  by (induction m) (auto split: option.splits simp: map_of_eq_None_iff image_iff)

text \<open>Every call is an instance of the shared part, with a body that starts with the module.\<close>

fun call_admit :: "memory_call \<Rightarrow> validated_context \<Rightarrow> (kelvin_error \<times> string option) option" where
  "call_admit (CallUpsert k v m) ctx = (let max_bytes = rl_max_bytes (dc_request_limits (vc_claims ctx)) in
        if max_bytes < length v then Some (InvalidInput (''upsert payload '' @ show_nat (length v) @ '' exceeds limit '' @
          show_nat max_bytes), Some ''payload_too_large'')
        else None)"
| "call_admit (CallQuery q n) ctx = (let max_allowed = rl_max_results (dc_request_limits (vc_claims ctx)) in
        if max_allowed < n then Some (InvalidInput (''max_results '' @ show_nat n @ '' exceeds limit '' @
          show_nat max_allowed), None)
        else None)"
| "call_admit call ctx = None"

fun call_body :: "('m, 'p, 'f) controller_env \<Rightarrow> memory_call \<Rightarrow> validated_context \<Rightarrow> ('m, 'p, 'f, 'f memory_response) controller_op" where
  "call_body env (CallUpsert k v m) ctx = upsert_body env k v m ctx"
| "call_body env (CallQuery q n) ctx = query_body env q n ctx"
| "call_body env (CallRead k) ctx = read_body env k ctx"
| "call_body env (CallDelete k) ctx = delete_body env k ctx"
| "call_body env CallHealth ctx = health_body env ctx"

lemma call_fun_eta:
  "call_admit (CallUpsert k v m) = (\<lambda>ctx. call_admit (CallUpsert k v m) ctx)"
  "call_body env (CallUpsert k v m) = upsert_body env k v m"
  "call_body env (CallQuery q n) = query_body env q n"
  "call_body env (CallRead k) = read_body env k"
  "call_body env (CallDelete k) = delete_body env k"
  "call_body env CallHealth = health_body env"
  by (rule ext, simp)+

lemma memory_rpc_serve:
  "memory_rpc env t c call s = serve_memory env t (call_op call) c (call_admit call) (call_body env call) s"
  by (cases call)
    (auto simp: upsert_rpc_def query_rpc_def read_rpc_def delete_rpc_def health_rpc_def call_fun_eta(2-)
      intro!: arg_cong [where f = "\<lambda>a. serve_memory env t _ c a _ s"] ext)


text \<open>When a token is accepted, and when the module lets an operation through.\<close>

definition token_accepted :: "('m, 'p, 'f) controller_env \<Rightarrow> request_times \<Rightarrow> request_context \<Rightarrow> memory_operation \<Rightarrow>
    (string \<times> nat) list \<Rightarrow> delegation_claims \<Rightarrow> bool" where
  "token_accepted env t c op entries d \<longleftrightarrow> ce_verify env (rc_delegation_token c) (tm_verify t) = Inr d \<and>
     trim (rc_request_id c) \<noteq> [] \<and> utf8_len (rc_request_id c) \<le> MAX_REQUEST_ID_LENGTH \<and>
     allows_operation d op \<and> context_matches c d \<and> (\<forall>x. (dc_jti d, x) \<in> set entries \<longrightarrow> x \<le> tm_replay t)"

definition module_allows :: "('m, 'p, 'f) controller_env \<Rightarrow> (string \<times> 'm memory_module) list \<Rightarrow> string \<Rightarrow> memory_operation \<Rightarrow>
    delegation_claims \<Rightarrow> bool" where
  "module_allows env modules module_id op d \<longleftrightarrow> required_capability op \<in> set (dc_allowed_capabilities d) \<and>
     (\<exists>md. map_of modules module_id = Some md \<and> required_capability op \<in> set (mm_capabilities (md_manifest md)) \<and>
        we_run (ce_engine env) (md_module md) (export_name op)
          (min (rl_timeout_ms (dc_request_limits d)) (cc_default_timeout_ms (ce_config env))) (cc_default_fuel (ce_config env)) = Inr ())"

lemma insert_or_reject_live:
  "map_of (filter (\<lambda>e. (now :: nat) < snd e) entries) jti = None \<longleftrightarrow> (\<forall>x. (jti, x) \<in> set entries \<longrightarrow> x \<le> now)"
  by (auto simp: map_of_eq_None_iff image_iff not_less [symmetric])

lemma validate_context_iff:
  "validate_context env t context op s = (Inr v, s') \<longleftrightarrow> (\<exists>c d. context = Some c \<and> token_accepted env t c op (mc_replay s) d \<and>
     v = \<lparr>vc_request_id = rc_request_id c, vc_module_id = rc_module_id c, vc_claims = d\<rparr> \<and>
     s' = s\<lparr>mc_replay := set_entry (dc_jti d) (replay_expiry (ce_config env) d (tm_context t))
       (filter (\<lambda>e. tm_replay t < snd e) (mc_replay s))\<rparr>)"
  by (cases "context") (auto simp: validate_context_def check_context_def token_accepted_def insert_or_reject_def Let_def
      not_less insert_or_reject_live [symmetric] split: sum.splits if_splits prod.splits)

lemma validate_context_error:
  "validate_context env t context op s = (Inl e, s') \<Longrightarrow>
     s' = s \<or> s' = s\<lparr>mc_replay := filter (\<lambda>e. tm_replay t < snd e) (mc_replay s)\<rparr>"
  by (auto simp: validate_context_def insert_or_reject_def Let_def split: sum.splits if_splits prod.splits)

lemma run_module_iff:
  "run_module env v op (required_capability op) s = (Inr (), s') \<longleftrightarrow>
     s' = s \<and> module_allows env (mc_modules s) (vc_module_id v) op (vc_claims v)"
  by (auto simp: run_module_def module_allows_def split: option.splits)

lemma run_module_state: "snd (run_module env v op cap s) = s"
  by (auto simp: run_module_def split: option.splits)

lemma provider_op_simps [simp]:
  "mc_modules (snd (provider_op m s)) = mc_modules s" "mc_replay (snd (provider_op m s)) = mc_replay s"
  "mc_idempotency (snd (provider_op m s)) = mc_idempotency s" "mc_audit (snd (provider_op m s)) = mc_audit s"
  by (auto simp: provider_op_def split: prod.splits)

text \<open>What a handler does after the module: the provider's operation and the response it gives.\<close>

fun call_effect :: "('m, 'p, 'f) controller_env \<Rightarrow> memory_call \<Rightarrow> validated_context \<Rightarrow>
    ('m, 'p, 'f, 'f memory_response) controller_op" where
  "call_effect env (CallUpsert key v metadata) ctx =
     bindE (provider_op (pv_upsert (ce_provider env) key v metadata)) (\<lambda>_. okE (UpsertResponse True))"
| "call_effect env (CallQuery query max_results) ctx =
     bindE (provider_op (pv_query (ce_provider env) query max_results)) (\<lambda>hits.
     bindE (liftE (enforce_response_size (ce_config env)
       (sum_list (map (\<lambda>h. utf8_len (sh_path h) + utf8_len (sh_snippet h)) hits)) (vc_claims ctx))) (\<lambda>_.
     okE (QueryResponse hits)))"
| "call_effect env (CallRead key) ctx = bindE (provider_op (pv_read (ce_provider env) key)) (\<lambda>v.
     bindE (liftE (enforce_response_size (ce_config env) (length (opt_or v [])) (vc_claims ctx))) (\<lambda>_.
     okE (ReadResponse (v \<noteq> None) (opt_or v []))))"
| "call_effect env (CallDelete key) ctx =
     bindE (provider_op (pv_delete (ce_provider env) key)) (\<lambda>deleted. okE (DeleteResponse deleted))"
| "call_effect env CallHealth ctx =
     bindE (provider_op (pv_health (ce_provider env))) (\<lambda>healthy.
     bindE (getsE loaded_modules) (\<lambda>modules.
     okE (HealthReport \<lparr>hr_ok = healthy, hr_provider = pv_id (ce_provider env), hr_enabled_features = ce_features env,
       hr_loaded_modules = modules\<rparr>)))"

lemma call_body_effect:
  "call_body env call v = bindE (run_module env v (call_op call) (required_capability (call_op call))) (\<lambda>_. call_effect env call v)"
  by (cases call) (simp_all add: upsert_body_def query_body_def read_body_def delete_body_def health_body_def)

definition control_of :: "('m, 'p, 'f) controller_state \<Rightarrow>
    (string \<times> 'm memory_module) list \<times> (string \<times> nat) list \<times> (string \<Rightarrow> 'f memory_response option)" where
  "control_of s = (mc_modules s, mc_replay s, mc_idempotency s)"

lemma provider_op_control: "provider_op m s = (r, s') \<Longrightarrow> control_of s' = control_of s"
  by (auto simp: provider_op_def control_of_def split: prod.splits)

lemma call_effect_control: "call_effect env call v s = (r, s') \<Longrightarrow> control_of s' = control_of s"
  by (cases call) (auto simp: bindE_apply dest: provider_op_control split: prod.splits sum.splits)

lemma call_effect_op: "call_effect env call v s = (Inr r, s') \<Longrightarrow> response_op r = call_op call"
  by (cases call) (auto simp: bindE_apply split: prod.splits sum.splits)

lemma call_body_cases:
  assumes "call_body env call v s = (r, s')"
  shows "control_of s' = control_of s \<and>
    ((\<exists>e. r = Inl e \<and> s' = s) \<or>
     (module_allows env (mc_modules s) (vc_module_id v) (call_op call) (vc_claims v) \<and> call_effect env call v s = (r, s')))"
proof (cases "run_module env v (call_op call) (required_capability (call_op call)) s")
  case (Pair x s1)
  have "s1 = s" using Pair run_module_state [of env v "call_op call" "required_capability (call_op call)" s] by simp
  with Pair assms show ?thesis
    by (cases x) (auto simp: call_body_effect run_module_iff call_effect_control)
qed


definition context_of :: "request_context \<Rightarrow> delegation_claims \<Rightarrow> validated_context" where
  "context_of c d = \<lparr>vc_request_id = rc_request_id c, vc_module_id = rc_module_id c, vc_claims = d\<rparr>"

lemma context_of_simps [simp]:
  "vc_request_id (context_of c d) = rc_request_id c" "vc_module_id (context_of c d) = rc_module_id c"
  "vc_claims (context_of c d) = d"
  by (simp_all add: context_of_def)

definition accept_token :: "('m, 'p, 'f) controller_env \<Rightarrow> request_times \<Rightarrow> delegation_claims \<Rightarrow> (string \<times> nat) list \<Rightarrow> (string \<times> nat) list" where
  "accept_token env t d entries = set_entry (dc_jti d) (replay_expiry (ce_config env) d (tm_context t))
     (filter (\<lambda>e. tm_replay t < snd e) entries)"

lemma audit_controller_simps [simp]:
  "mc_modules (audit_controller t op v b why s) = mc_modules s" "mc_replay (audit_controller t op v b why s) = mc_replay s"
  "mc_idempotency (audit_controller t op v b why s) = mc_idempotency s" "mc_provider (audit_controller t op v b why s) = mc_provider s"
  by (simp_all add: audit_controller_def Let_def)

lemma cache_response_simps [simp]:
  "mc_modules (cache_response i r s) = mc_modules s" "mc_replay (cache_response i r s) = mc_replay s"
  "mc_idempotency (cache_response i r s) = (mc_idempotency s)(i \<mapsto> r)" "mc_provider (cache_response i r s) = mc_provider s"
  by (simp_all add: cache_response_def)

text \<open>
  The four ways a call can end: its context is refused; its request id has been answered; it is not admitted or its module
  does not run; it reaches the provider.
\<close>

definition refused_call :: "('m, 'p, 'f) controller_env \<Rightarrow> request_times \<Rightarrow> request_context option \<Rightarrow> memory_call \<Rightarrow>
    ('m, 'p, 'f) controller_state \<Rightarrow> bool" where
  "refused_call env t context call s \<longleftrightarrow> (\<nexists>c d. context = Some c \<and> token_accepted env t c (call_op call) (mc_replay s) d)"

lemma token_accepted_unique:
  "token_accepted env t c op es d \<Longrightarrow> token_accepted env t c op es d' \<Longrightarrow> d = d'"
  by (simp add: token_accepted_def)

lemma validate_context_accepted:
  "token_accepted env t c op (mc_replay s) d \<Longrightarrow>
     validate_context env t (Some c) op s = (Inr (context_of c d), s\<lparr>mc_replay := accept_token env t d (mc_replay s)\<rparr>)"
  by (simp add: validate_context_iff context_of_def accept_token_def)

lemma rpc_refused:
  assumes "refused_call env t context call s" and "memory_rpc env t context call s = (res, s')"
  shows "\<exists>e. res = Inl e \<and> mc_provider s' = mc_provider s \<and> mc_modules s' = mc_modules s \<and> mc_idempotency s' = mc_idempotency s \<and>
    (mc_replay s' = mc_replay s \<or> mc_replay s' = filter (\<lambda>e. tm_replay t < snd e) (mc_replay s))"
proof (cases "validate_context env t context (call_op call) s")
  case (Pair x s1)
  with assms(1) obtain e where x: "x = Inl e"
    by (cases x) (auto simp: validate_context_iff refused_call_def)
  then show ?thesis using validate_context_error [of env t "context" "call_op call" s e s1] Pair assms(2)
    by (auto simp: memory_rpc_serve serve_memory_def)
qed

lemma rpc_accepted:
  assumes "token_accepted env t c (call_op call) (mc_replay s) d"
    and "memory_rpc env t (Some c) call s = (res, s')"
  defines "s1 \<equiv> s\<lparr>mc_replay := accept_token env t d (mc_replay s)\<rparr>"
  shows "mc_replay s' = accept_token env t d (mc_replay s) \<and> mc_modules s' = mc_modules s \<and>
    ((\<exists>r. check_cached (call_op call) (rc_request_id c) s = Some r \<and> res = Inr r \<and> mc_provider s' = mc_provider s \<and>
        mc_idempotency s' = mc_idempotency s) \<or>
     (check_cached (call_op call) (rc_request_id c) s = None \<and> (\<exists>e. res = Inl e) \<and> mc_provider s' = mc_provider s \<and>
        mc_idempotency s' = mc_idempotency s) \<or>
     (check_cached (call_op call) (rc_request_id c) s = None \<and> call_admit call (context_of c d) = None \<and>
      module_allows env (mc_modules s) (rc_module_id c) (call_op call) d \<and>
      (\<exists>r s2. call_effect env call (context_of c d) s1 = (r, s2) \<and> mc_provider s' = mc_provider s2 \<and>
        ((\<exists>e. r = Inl e \<and> res = Inl (to_status e) \<and> mc_idempotency s' = mc_idempotency s) \<or>
         (\<exists>x. r = Inr x \<and> res = Inr x \<and> mc_idempotency s' = (mc_idempotency s)(rc_request_id c \<mapsto> x))))))"
proof -
  let ?v = "context_of c d" and ?op = "call_op call"
  have fields: "mc_replay s1 = accept_token env t d (mc_replay s)" "mc_modules s1 = mc_modules s"
    "mc_idempotency s1 = mc_idempotency s" "mc_provider s1 = mc_provider s"
    by (simp_all add: s1_def)
  have cached: "check_cached ?op (rc_request_id c) s1 = check_cached ?op (rc_request_id c) s"
    by (simp add: check_cached_def s1_def)
  have run: "(case check_cached ?op (rc_request_id c) s of
      Some r \<Rightarrow> (Inr r, audit_controller t ?op ?v True ''idempotency_cache_hit'' s1)
    | None \<Rightarrow> (case call_admit call ?v of
        Some (e, audited) \<Rightarrow> (Inl (to_status e), case audited of None \<Rightarrow> s1 | Some why \<Rightarrow> audit_controller t ?op ?v False why s1)
      | None \<Rightarrow> finish_request t ?op ?v (call_body env call ?v) s1)) = (res, s')"
    using assms(2) validate_context_accepted [OF assms(1)]
    by (simp add: memory_rpc_serve serve_memory_def s1_def [symmetric] cached)
  show ?thesis
  proof (cases "check_cached ?op (rc_request_id c) s")
    case (Some r)
    with run show ?thesis by (auto simp: fields)
  next
    case none: None
    show ?thesis
    proof (cases "call_admit call ?v")
      case (Some p)
      with none run fields show ?thesis by (cases p) (auto split: option.splits)
    next
      case admitted: None
      obtain r s2 where body: "call_body env call ?v s1 = (r, s2)" by fastforce
      note cases = call_body_cases [OF body]
      have "mc_modules s2 = mc_modules s" "mc_replay s2 = mc_replay s1" "mc_idempotency s2 = mc_idempotency s"
        using cases by (auto simp: control_of_def fields)
      with none admitted run body cases show ?thesis
        by (cases r) (auto simp: finish_request_def fields)
    qed
  qed
qed


subsection \<open>Access\<close>

fun request_within :: "delegation_claims \<Rightarrow> memory_call \<Rightarrow> bool" where
  "request_within d (CallUpsert k v m) \<longleftrightarrow> length v \<le> rl_max_bytes (dc_request_limits d)"
| "request_within d (CallQuery q n) \<longleftrightarrow> n \<le> rl_max_results (dc_request_limits d)"
| "request_within d call \<longleftrightarrow> True"

fun response_within :: "controller_config \<Rightarrow> delegation_claims \<Rightarrow> 'f memory_response \<Rightarrow> bool" where
  "response_within cfg d (QueryResponse hits) \<longleftrightarrow> sum_list (map (\<lambda>h. utf8_len (sh_path h) + utf8_len (sh_snippet h)) hits) \<le>
     min (cc_default_max_response_bytes cfg) (rl_max_bytes (dc_request_limits d))"
| "response_within cfg d (ReadResponse found v) \<longleftrightarrow>
     length v \<le> min (cc_default_max_response_bytes cfg) (rl_max_bytes (dc_request_limits d))"
| "response_within cfg d r \<longleftrightarrow> True"

lemma admit_within: "call_admit call v = None \<longleftrightarrow> request_within (vc_claims v) call"
  by (cases call) (simp_all add: Let_def not_less)

lemma effect_within: "call_effect env call v s = (Inr r, s') \<Longrightarrow> response_within (ce_config env) (vc_claims v) r"
  by (cases call) (auto simp: bindE_apply enforce_response_size_def Let_def fails_if_def split: prod.splits sum.splits if_splits)

text \<open>
  \<^bold>\<open>C27.\<close> The memory is changed and answers are given only under a token that the verification accepts, that allows the
  operation, whose tenant, workspace, session and module are those of the request and whose identifier is not in the replay
  cache. Then either the answer is the one cached under the request id for this operation, and the memory is left alone,
  or the token and the manifest of the named module both have the capability of the operation, the module's handler returned
  successfully, and the request and the answer are within the limits of the token.
\<close>

theorem memory_access_authorized:
  assumes "memory_rpc env t context call s = (res, s')"
    and "mc_provider s' \<noteq> mc_provider s \<or> res = Inr r"
  shows "\<exists>c d. context = Some c \<and> token_accepted env t c (call_op call) (mc_replay s) d \<and>
    ((mc_idempotency s (rc_request_id c) = Some r \<and> response_op r = call_op call \<and> mc_provider s' = mc_provider s) \<or>
     (module_allows env (mc_modules s) (rc_module_id c) (call_op call) d \<and> request_within d call \<and>
      (res = Inr r \<longrightarrow> response_within (ce_config env) d r)))"
proof (cases "refused_call env t context call s")
  case True
  with rpc_refused [OF True assms(1)] assms(2) show ?thesis by auto
next
  case False
  then obtain c d where c: "context = Some c" and tok: "token_accepted env t c (call_op call) (mc_replay s) d"
    by (auto simp: refused_call_def)
  have within: "response_within (ce_config env) d x" if "call_effect env call (context_of c d) s1 = (Inr x, s2)" for x s1 s2
    using effect_within [OF that] by simp
  from rpc_accepted [OF tok assms(1) [unfolded c]] assms(2) c tok show ?thesis
    by (intro exI [of _ c] exI [of _ d]) (auto simp: check_cached_def admit_within within split: option.splits if_splits)
qed

subsection \<open>Replayed tokens\<close>

definition replay_mark :: "string \<Rightarrow> nat \<Rightarrow> nat \<Rightarrow> (string \<times> nat) list \<Rightarrow> bool" where
  "replay_mark jti expiry now entries \<longleftrightarrow> (\<forall>x. (jti, x) \<in> set entries \<longrightarrow> x = expiry) \<and> (now < expiry \<longrightarrow> (jti, expiry) \<in> set entries)"

lemma set_entry_set: "(j, x) \<in> set (set_entry k v m) \<longleftrightarrow> (if j = k then x = v else (j, x) \<in> set m)"
  by (auto simp: set_entry_def)

lemma replay_mark_filter: "replay_mark jti e now es \<Longrightarrow> t \<le> now \<Longrightarrow> replay_mark jti e now (filter (\<lambda>x. t < snd x) es)"
  by (auto simp: replay_mark_def)

lemma replay_mark_other: "replay_mark jti e now es \<Longrightarrow> j \<noteq> jti \<Longrightarrow> replay_mark jti e now (set_entry j x es)"
  by (auto simp: replay_mark_def set_entry_set)

text \<open>A request whose token, if it has one, has another identifier, at a time before \<open>now\<close>.\<close>

definition other_token :: "('m, 'p, 'f) controller_env \<Rightarrow> string \<Rightarrow> nat \<Rightarrow> request_times \<times> request_context option \<times> memory_call \<Rightarrow> bool" where
  "other_token env jti now q \<longleftrightarrow> (case q of (t, context, call) \<Rightarrow> tm_replay t \<le> now \<and>
     (\<forall>c d. context = Some c \<longrightarrow> ce_verify env (rc_delegation_token c) (tm_verify t) = Inr d \<longrightarrow> dc_jti d \<noteq> jti))"

lemma rpc_replay_mark:
  assumes "other_token env jti now (t, context, call)" and "replay_mark jti e now (mc_replay s)"
  shows "replay_mark jti e now (mc_replay (snd (memory_rpc env t context call s)))"
proof -
  obtain res s' where run: "memory_rpc env t context call s = (res, s')" by fastforce
  have le: "tm_replay t \<le> now" using assms(1) by (simp add: other_token_def)
  show ?thesis
  proof (cases "refused_call env t context call s")
    case True
    with rpc_refused [OF True run] assms(2) le run show ?thesis by (auto intro: replay_mark_filter)
  next
    case False
    then obtain c d where c: "context = Some c" and tok: "token_accepted env t c (call_op call) (mc_replay s) d"
      by (auto simp: refused_call_def)
    have "dc_jti d \<noteq> jti" using assms(1) c tok by (auto simp: other_token_def token_accepted_def)
    with rpc_accepted [OF tok run [unfolded c]] run assms(2) le show ?thesis
      by (simp add: accept_token_def replay_mark_filter replay_mark_other)
  qed
qed

lemma rpcs_replay_mark:
  "\<forall>q\<in>set rs. other_token env jti now q \<Longrightarrow> replay_mark jti e now (mc_replay s) \<Longrightarrow>
     replay_mark jti e now (mc_replay (memory_rpcs env rs s))"
proof (induction rs arbitrary: s)
  case (Cons q rs)
  obtain t "context" call where q: "q = (t, context, call)" using prod_cases3 by blast
  with Cons.prems rpc_replay_mark [of env jti now t "context" call e s] Cons.IH show ?case by simp
qed simp

text \<open>What a call answers when the identifier of its otherwise valid token is in the replay cache.\<close>

definition replay_refusal :: "string \<Rightarrow> grpc_status" where
  "replay_refusal jti = InvalidArgument (''replayed delegation token jti '' @ quote jti)"

lemma checked_token:
  assumes "check_context env t op (Some c) = Inr (c', d)"
  shows "c' = c \<and> (token_accepted env t c op es d \<longleftrightarrow> (\<forall>x. (dc_jti d, x) \<in> set es \<longrightarrow> x \<le> tm_replay t))"
  using assms by (auto simp: check_context_def token_accepted_def split: sum.splits if_splits)

lemma rpc_replayed:
  assumes "check_context env t (call_op call) (Some c) = Inr (c', d)"
    and "\<not> (\<forall>x. (dc_jti d, x) \<in> set (mc_replay s) \<longrightarrow> x \<le> tm_replay t)"
  shows "memory_rpc env t (Some c) call s =
    (Inl (replay_refusal (dc_jti d)), s\<lparr>mc_replay := filter (\<lambda>e. tm_replay t < snd e) (mc_replay s)\<rparr>)"
proof -
  have "map_of (filter (\<lambda>e. tm_replay t < snd e) (mc_replay s)) (dc_jti d) \<noteq> None"
    unfolding insert_or_reject_live by (rule assms(2))
  then show ?thesis
    using assms(1) by (auto simp: memory_rpc_serve serve_memory_def validate_context_def insert_or_reject_def Let_def
        replay_refusal_def)
qed

text \<open>Past the context, the replay cache is not read.\<close>

lemma run_module_replay: "fst (run_module env v op cap (s\<lparr>mc_replay := es\<rparr>)) = fst (run_module env v op cap s)"
  by (auto simp: run_module_def split: option.split)

lemma run_module_eq: "run_module env v op cap s = (fst (run_module env v op cap s), s)"
  using run_module_state [of env v op cap s] by (metis prod.collapse)

lemma call_effect_replay: "fst (call_effect env call v (s\<lparr>mc_replay := es\<rparr>)) = fst (call_effect env call v s)"
  by (cases call) (simp_all add: bindE_def provider_op_def loaded_modules_def liftE_def okE_def getsE_def split: sum.split prod.split)

lemma call_body_replay: "fst (call_body env call v (s\<lparr>mc_replay := es\<rparr>)) = fst (call_body env call v s)"
proof -
  let ?m = "run_module env v (call_op call) (required_capability (call_op call))"
  have "?m (s\<lparr>mc_replay := es\<rparr>) = (fst (?m s), s\<lparr>mc_replay := es\<rparr>)" "?m s = (fst (?m s), s)"
    using run_module_eq run_module_replay by metis+
  then show ?thesis
    by (cases "fst (?m s)") (simp_all add: call_body_effect bindE_def call_effect_replay)
qed

lemma rpc_answer_replay:
  assumes "token_accepted env t c (call_op call) (mc_replay s) d" "token_accepted env t c (call_op call) es d"
  shows "fst (memory_rpc env t (Some c) call s) = fst (memory_rpc env t (Some c) call (s\<lparr>mc_replay := es\<rparr>))"
proof -
  let ?v = "context_of c d" and ?s = "s\<lparr>mc_replay := accept_token env t d (mc_replay s)\<rparr>"
    and ?s' = "s\<lparr>mc_replay := accept_token env t d es\<rparr>"
  have cached: "check_cached op i ?s = check_cached op i s" "check_cached op i ?s' = check_cached op i s" for op i
    by (simp_all add: check_cached_def)
  have body: "fst (call_body env call ?v ?s) = fst (call_body env call ?v ?s')"
    by (simp only: call_body_replay)
  have finish: "fst (finish_request t (call_op call) ?v (call_body env call ?v) ?s) =
      fst (finish_request t (call_op call) ?v (call_body env call ?v) ?s')"
    using body by (auto simp: finish_request_def split: prod.splits sum.splits)
  have "validate_context env t (Some c) (call_op call) s = (Inr ?v, ?s)"
    by (rule validate_context_accepted [OF assms(1)])
  moreover have "validate_context env t (Some c) (call_op call) (s\<lparr>mc_replay := es\<rparr>) = (Inr ?v, ?s')"
    using validate_context_accepted [of env t c "call_op call" "s\<lparr>mc_replay := es\<rparr>" d] assms(2) by simp
  ultimately show ?thesis
    using finish by (auto simp: memory_rpc_serve serve_memory_def cached split: option.split)
qed

text \<open>
  \<^bold>\<open>C28.\<close> When the controller has let a valid token through once and a token with its identifier is presented again, by
  whatever request and operation and after whatever requests with other tokens, the second call is answered with the
  refusal of a replayed token, and changes nothing but the replay cache, just if it comes before the expiry recorded at the
  first presentation, the smaller of the token's expiry and the end of the replay window. From that time on it is answered
  as if no token had ever been presented. A token past its expiry that the clock skew still lets through thus has no
  protection, and a longer-lived one none after the window.
\<close>

theorem token_replay_exact:
  assumes "check_context env t1 (call_op call1) (Some c1) = Inr (c1, d1)"
    and "memory_rpc env t1 (Some c1) call1 s = (res1, s1)" "res1 \<noteq> Inl (replay_refusal (dc_jti d1))"
    and "\<forall>q\<in>set rs. other_token env (dc_jti d1) (tm_replay t2) q"
    and "check_context env t2 (call_op call2) (Some c2) = Inr (c2, d2)" "dc_jti d2 = dc_jti d1"
    and "memory_rpcs env rs s1 = s2" "memory_rpc env t2 (Some c2) call2 s2 = (res2, s3)"
  shows "if tm_replay t2 < (if cc_replay_window_secs (ce_config env) = 0 then dc_exp d1
       else min (dc_exp d1) (sat_add64 (tm_context t1) (cc_replay_window_secs (ce_config env))))
     then res2 = Inl (replay_refusal (dc_jti d1)) \<and> s3\<lparr>mc_replay := mc_replay s2\<rparr> = s2
     else res2 = fst (memory_rpc env t2 (Some c2) call2 (s2\<lparr>mc_replay := []\<rparr>))"
proof -
  let ?e = "replay_expiry (ce_config env) d1 (tm_context t1)" and ?live = "\<lambda>t es d. \<forall>x. (dc_jti d, x) \<in> set es \<longrightarrow> x \<le> tm_replay t"
  have "?live t1 (mc_replay s) d1"
    using rpc_replayed [OF assms(1)] assms(2,3) by (metis fst_conv)
  then have "token_accepted env t1 c1 (call_op call1) (mc_replay s) d1" using checked_token [OF assms(1)] by blast
  then have "mc_replay s1 = accept_token env t1 d1 (mc_replay s)" using rpc_accepted assms(2) by blast
  then have "replay_mark (dc_jti d1) ?e (tm_replay t2) (mc_replay s1)"
    by (simp add: replay_mark_def accept_token_def set_entry_set)
  then have "replay_mark (dc_jti d1) ?e (tm_replay t2) (mc_replay s2)"
    using rpcs_replay_mark assms(4,7) by blast
  then have fresh: "?live t2 (mc_replay s2) d2 \<longleftrightarrow> ?e \<le> tm_replay t2"
    by (auto simp: replay_mark_def not_less [symmetric] assms(6))
  show ?thesis
  proof (cases "tm_replay t2 < ?e")
    case True
    then have "res2 = Inl (replay_refusal (dc_jti d1))" "s3 = s2\<lparr>mc_replay := filter (\<lambda>e. tm_replay t2 < snd e) (mc_replay s2)\<rparr>"
      using rpc_replayed [OF assms(5), of s2] fresh assms(6,8) by (auto simp: not_less)
    then show ?thesis using True by (simp add: replay_expiry_def)
  next
    case False
    then have "token_accepted env t2 c2 (call_op call2) (mc_replay s2) d2" "token_accepted env t2 c2 (call_op call2) [] d2"
      using checked_token [OF assms(5)] fresh by (auto simp: not_less)
    from rpc_answer_replay [OF this] False assms(8) show ?thesis by (simp add: replay_expiry_def)
  qed
qed


subsection \<open>Answers under a request id\<close>

definition other_request :: "string \<Rightarrow> request_times \<times> request_context option \<times> memory_call \<Rightarrow> bool" where
  "other_request rid q \<longleftrightarrow> (case q of (t, context, call) \<Rightarrow> \<forall>c. context = Some c \<longrightarrow> rc_request_id c \<noteq> rid)"

lemma rpc_cases:
  assumes "memory_rpc env t context call s = (res, s')"
  obtains "refused_call env t context call s"
  | c d where "context = Some c" "token_accepted env t c (call_op call) (mc_replay s) d"
  using assms by (auto simp: refused_call_def)

lemma rpc_answer_cached:
  assumes "memory_rpc env t (Some c) call s = (Inr r, s')"
  shows "mc_idempotency s' (rc_request_id c) = Some r \<and> response_op r = call_op call"
proof (rule rpc_cases [OF assms])
  assume "refused_call env t (Some c) call s"
  then show ?thesis using rpc_refused [OF _ assms] by auto
next
  fix c' d assume "Some c = Some c'" and tok: "token_accepted env t c' (call_op call) (mc_replay s) d"
  then have c: "c' = c" by simp
  from rpc_accepted [OF tok [unfolded c] assms] show ?thesis
    by (auto simp: check_cached_def dest: call_effect_op split: option.splits if_splits)
qed

lemma rpc_other_request:
  assumes "other_request rid (t, context, call)"
  shows "mc_idempotency (snd (memory_rpc env t context call s)) rid = mc_idempotency s rid"
proof -
  obtain res s' where run: "memory_rpc env t context call s = (res, s')" by fastforce
  show ?thesis
  proof (rule rpc_cases [OF run])
    assume "refused_call env t context call s"
    then show ?thesis using rpc_refused [OF _ run] run by auto
  next
    fix c d assume c: "context = Some c" and tok: "token_accepted env t c (call_op call) (mc_replay s) d"
    then have "rc_request_id c \<noteq> rid" using assms by (simp add: other_request_def)
    then show ?thesis using rpc_accepted [OF tok run [unfolded c]] run by auto
  qed
qed

lemma rpcs_other_request:
  "\<forall>q\<in>set rs. other_request rid q \<Longrightarrow> mc_idempotency (memory_rpcs env rs s) rid = mc_idempotency s rid"
proof (induction rs arbitrary: s)
  case (Cons q rs)
  then show ?case by (cases q) (simp add: rpc_other_request)
qed simp

text \<open>
  \<^bold>\<open>C29.\<close> A request whose id has been answered for the same operation gets that answer again, and the memory is left alone,
  whatever requests with other ids came in between. Only the token is checked anew: the answer is the same when the second
  request comes from another tenant, workspace or session, names another key or module, or has a token without the
  capability or with smaller limits.
\<close>

theorem resubmission_same_answer:
  assumes "memory_rpc env t1 (Some c1) call1 s = (Inr r, s1)"
    and "\<forall>q\<in>set rs. other_request (rc_request_id c1) q"
    and "token_accepted env t2 c2 (call_op call2) (mc_replay (memory_rpcs env rs s1)) d2"
    and "rc_request_id c2 = rc_request_id c1" and "call_op call2 = call_op call1"
  shows "fst (memory_rpc env t2 (Some c2) call2 (memory_rpcs env rs s1)) = Inr r \<and>
    mc_provider (snd (memory_rpc env t2 (Some c2) call2 (memory_rpcs env rs s1))) = mc_provider (memory_rpcs env rs s1)"
proof -
  obtain res s3 where run: "memory_rpc env t2 (Some c2) call2 (memory_rpcs env rs s1) = (res, s3)" by fastforce
  have "check_cached (call_op call2) (rc_request_id c2) (memory_rpcs env rs s1) = Some r"
    using rpc_answer_cached [OF assms(1)] rpcs_other_request [OF assms(2), of env s1] assms(4,5) by (simp add: check_cached_def)
  then show ?thesis using rpc_accepted [OF assms(3) run] run by auto
qed

subsection \<open>What the memory holds\<close>

text \<open>
  The laws of a store: what a key holds, and how the operations change it. The in-memory provider keeps them.
\<close>

locale memory_store =
  fixes pv :: "('p, 'f) memory_provider"
    and holds :: "'p \<Rightarrow> string \<Rightarrow> nat list option"
  assumes read_law: "pv_read pv k p = (Inr y, p') \<Longrightarrow> y = holds p k"
    and read_keeps: "holds (snd (pv_read pv k p)) = holds p"
    and query_keeps: "holds (snd (pv_query pv q n p)) = holds p"
    and health_keeps: "holds (snd (pv_health pv p)) = holds p"
    and upsert_law: "pv_upsert pv k v m p = (Inr (), p') \<Longrightarrow> holds p' = (holds p)(k \<mapsto> v)"
    and upsert_error: "pv_upsert pv k v m p = (Inl e, p') \<Longrightarrow> x \<noteq> k \<Longrightarrow> holds p' x = holds p x"
    and delete_other: "x \<noteq> k \<Longrightarrow> holds (snd (pv_delete pv k p)) x = holds p x"
begin

lemma effect_keeps:
  assumes "ce_provider env = pv" and "call_effect env call v s = (r, s')"
    and "\<forall>val m. call \<noteq> CallUpsert k val m" and "call \<noteq> CallDelete k"
  shows "holds (mc_provider s') k = holds (mc_provider s) k"
proof (cases call)
  case (CallUpsert k' val m)
  obtain x p' where up: "pv_upsert pv k' val m (mc_provider s) = (x, p')" by fastforce
  then have "holds p' k = holds (mc_provider s) k"
    using assms(3) CallUpsert upsert_law [of k' val m "mc_provider s" p'] upsert_error [of k' val m "mc_provider s" _ p' k]
    by (cases x) auto
  with up assms(1,2) CallUpsert show ?thesis by (cases x) (auto simp: bindE_apply provider_op_def)
next
  case (CallQuery q n)
  then show ?thesis using assms(1,2) query_keeps [of q n "mc_provider s"]
    by (auto simp: bindE_apply provider_op_def split: prod.splits sum.splits)
next
  case (CallRead key)
  then show ?thesis using assms(1,2) read_keeps [of key "mc_provider s"]
    by (auto simp: bindE_apply provider_op_def split: prod.splits sum.splits)
next
  case (CallDelete key)
  then show ?thesis using assms(1,2,4) delete_other [of k key "mc_provider s"]
    by (auto simp: bindE_apply provider_op_def split: prod.splits sum.splits)
next
  case CallHealth
  then show ?thesis using assms(1,2) health_keeps [of "mc_provider s"]
    by (auto simp: bindE_apply provider_op_def split: prod.splits sum.splits)
qed

lemma effect_upsert:
  assumes "ce_provider env = pv" and "call_effect env (CallUpsert k val m) v s = (Inr r, s')"
  shows "holds (mc_provider s') k = Some val"
  using assms upsert_law [of k val m "mc_provider s"]
  by (auto simp: bindE_apply provider_op_def split: prod.splits sum.splits)

lemma effect_read:
  assumes "ce_provider env = pv" and "call_effect env (CallRead k) v s = (Inr r, s')"
  shows "r = ReadResponse (holds (mc_provider s) k \<noteq> None) (opt_or (holds (mc_provider s) k) [])"
  using assms read_law [of k "mc_provider s"]
  by (auto simp: bindE_apply provider_op_def split: prod.splits sum.splits)

lemma rpc_keeps:
  assumes "ce_provider env = pv" and "\<forall>val m. call \<noteq> CallUpsert k val m" and "call \<noteq> CallDelete k"
  shows "holds (mc_provider (snd (memory_rpc env t ctx call s))) k = holds (mc_provider s) k"
proof -
  obtain res s' where run: "memory_rpc env t ctx call s = (res, s')" by fastforce
  show ?thesis
  proof (rule rpc_cases [OF run])
    assume "refused_call env t ctx call s"
    then show ?thesis using rpc_refused [OF _ run] run by auto
  next
    fix c d assume c: "ctx = Some c" and tok: "token_accepted env t c (call_op call) (mc_replay s) d"
    from rpc_accepted [OF tok run [unfolded c]] run show ?thesis
      by (auto dest: effect_keeps [OF assms(1) _ assms(2,3)])
  qed
qed

lemma rpcs_keep:
  assumes "ce_provider env = pv" and "\<forall>(t, c, call)\<in>set rs. (\<forall>val m. call \<noteq> CallUpsert k val m) \<and> call \<noteq> CallDelete k"
  shows "holds (mc_provider (memory_rpcs env rs s)) k = holds (mc_provider s) k"
  using assms(2)
proof (induction rs arbitrary: s)
  case (Cons q rs)
  then show ?case by (cases q) (simp add: rpc_keeps [OF assms(1)])
qed simp

lemma upsert_holds:
  assumes "ce_provider env = pv" and "memory_rpc env t (Some c) (CallUpsert k val m) s = (Inr r, s')"
    and "mc_idempotency s (rc_request_id c) = None"
  shows "holds (mc_provider s') k = Some val"
proof (rule rpc_cases [OF assms(2)])
  assume "refused_call env t (Some c) (CallUpsert k val m) s"
  then show ?thesis using rpc_refused [OF _ assms(2)] by auto
next
  fix c' d assume "Some c = Some c'" and tok: "token_accepted env t c' (call_op (CallUpsert k val m)) (mc_replay s) d"
  then have c: "c' = c" by simp
  from rpc_accepted [OF tok [unfolded c] assms(2)] assms(3) show ?thesis
    by (auto simp: check_cached_def dest: effect_upsert [OF assms(1)] simp del: call_effect.simps)
qed

lemma read_answers:
  assumes "ce_provider env = pv" and "memory_rpc env t (Some c) (CallRead k) s = (Inr r, s')"
    and "mc_idempotency s (rc_request_id c) = None"
  shows "r = ReadResponse (holds (mc_provider s) k \<noteq> None) (opt_or (holds (mc_provider s) k) [])"
proof (rule rpc_cases [OF assms(2)])
  assume "refused_call env t (Some c) (CallRead k) s"
  then show ?thesis using rpc_refused [OF _ assms(2)] by auto
next
  fix c' d assume "Some c = Some c'" and tok: "token_accepted env t c' (call_op (CallRead k)) (mc_replay s) d"
  then have c: "c' = c" by simp
  from rpc_accepted [OF tok [unfolded c] assms(2)] assms(3) show ?thesis
    by (auto simp: check_cached_def dest: effect_read [OF assms(1)] simp del: call_effect.simps)
qed

end

lemma map_of_filter_key: "map_of (filter (\<lambda>e. fst e \<noteq> k) m) x = (if x = k then None else map_of m x)"
  by (induction m) auto

interpretation mem: memory_store "in_memory_provider decode score" "map_of"
  by unfold_locales (auto simp: in_memory_provider_def map_of_filter_key fun_eq_iff)

text \<open>
  With the in-memory provider, a read of a key answers, whichever tenant, workspace, session or module asks, the value
  of the last write of the key, whichever tenant made it: keys are not separated by tenant. Other requests may come in
  between, as long as they do not write or delete the key.
\<close>

theorem read_after_upsert:
  assumes "ce_provider env = in_memory_provider decode score"
    and "memory_rpc env t1 (Some c1) (CallUpsert k val m) s = (Inr r1, s1)" and "mc_idempotency s (rc_request_id c1) = None"
    and "\<forall>(t, c, call)\<in>set rs. (\<forall>v m. call \<noteq> CallUpsert k v m) \<and> call \<noteq> CallDelete k"
    and "memory_rpc env t2 (Some c2) (CallRead k) (memory_rpcs env rs s1) = (Inr r2, s2)"
    and "mc_idempotency (memory_rpcs env rs s1) (rc_request_id c2) = None"
  shows "r2 = ReadResponse True val"
proof -
  have "map_of (mc_provider (memory_rpcs env rs s1)) k = Some val"
    using mem.upsert_holds [OF assms(1-3)] mem.rpcs_keep [OF assms(1,4)] by simp
  then show ?thesis using mem.read_answers [OF assms(1,5,6)] by (simp add: opt_or_def)
qed


subsection \<open>Concrete requests\<close>

text \<open>
  Two tenants with tokens for the same module. The verification accepts the tokens for the 30 seconds of clock skew after
  their expiry at 100.
\<close>

definition ex_claims :: "string \<Rightarrow> string \<Rightarrow> delegation_claims" where
  "ex_claims tenant jti = \<lparr>dc_iss = ''kelvin-root'', dc_sub = ''run'', dc_aud = ''kelvin-memory-controller'', dc_jti = jti,
     dc_exp = 100, dc_nbf = 0, dc_tenant_id = tenant, dc_workspace_id = ''w'', dc_session_id = ''s'', dc_module_id = ''m'',
     dc_allowed_ops = [''upsert'', ''read''], dc_allowed_capabilities = [''memory_crud'', ''memory_read''],
     dc_request_limits = \<lparr>rl_timeout_ms = 1000, rl_max_bytes = 64, rl_max_results = 5\<rparr>\<rparr>"

definition ex_verify :: "string \<Rightarrow> nat \<Rightarrow> string + delegation_claims" where
  "ex_verify token now = (if 130 < now then Inl ''ExpiredSignature''
     else if token = ''ta1'' then Inr (ex_claims ''a'' ''1'') else if token = ''ta2'' then Inr (ex_claims ''a'' ''2'')
     else if token = ''tb3'' then Inr (ex_claims ''b'' ''3'') else Inl ''InvalidToken'')"

definition ex_engine :: "unit wasm_engine" where
  "ex_engine = \<lparr>we_memories = (\<lambda>_. []), we_compile = (\<lambda>_. Inr ()), we_exports = (\<lambda>_. {}), we_run = (\<lambda>_ _ _ _. Inr ())\<rparr>"

definition ex_controller :: "(unit, memory_map, nat) controller_env" where
  "ex_controller = \<lparr>ce_config = default_controller_config, ce_verify = ex_verify, ce_engine = ex_engine,
     ce_provider = in_memory_provider (map char_of) (\<lambda>a b. a), ce_features = [''provider_sqlite'']\<rparr>"

definition ex_module :: memory_module_manifest where
  "ex_module = \<lparr>mm_module_id = ''m'', mm_version = ''1'', mm_api_version = ''v1'', mm_capabilities = [''memory_crud'', ''memory_read''],
     mm_required_host_features = [], mm_entrypoint = ''m.wasm'', mm_publisher = ''p'', mm_signature = ''x''\<rparr>"

definition ex_memory :: "(unit, memory_map, nat) controller_state" where
  "ex_memory = \<lparr>mc_modules = [(''m'', \<lparr>md_manifest = ex_module, md_module = ()\<rparr>)], mc_replay = [], mc_idempotency = (\<lambda>_. None),
     mc_provider = [], mc_audit = []\<rparr>"

definition ex_request :: "string \<Rightarrow> string \<Rightarrow> string \<Rightarrow> request_context" where
  "ex_request token rid tenant = \<lparr>rc_delegation_token = token, rc_request_id = rid, rc_tenant_id = tenant, rc_workspace_id = ''w'',
     rc_session_id = ''s'', rc_module_id = ''m''\<rparr>"

definition ex_times :: "nat \<Rightarrow> request_times" where
  "ex_times now = \<lparr>tm_verify = now, tm_context = now, tm_replay = now, tm_latency_ms = 0\<rparr>"

definition ex_written :: "(grpc_status + nat memory_response) \<times> (unit, memory_map, nat) controller_state" where
  "ex_written = memory_rpc ex_controller (ex_times 110) (Some (ex_request ''ta1'' ''r1'' ''a'')) (CallUpsert ''k'' [7] []) ex_memory"

definition ex_read_a :: "(grpc_status + nat memory_response) \<times> (unit, memory_map, nat) controller_state" where
  "ex_read_a = memory_rpc ex_controller (ex_times 111) (Some (ex_request ''ta2'' ''r2'' ''a'')) (CallRead ''k'') (snd ex_written)"

lemmas ex_memory_defs = ex_claims_def ex_verify_def ex_engine_def ex_controller_def ex_module_def ex_memory_def ex_request_def
  ex_times_def default_controller_config_def

lemmas rpc_defs = serve_memory_def validate_context_def check_context_def MAX_REQUEST_ID_LENGTH_def allows_operation_def
  context_matches_def insert_or_reject_def replay_expiry_def sat_add64_def u64_max_def set_entry_def check_cached_def Let_def
  finish_request_def run_module_def provider_op_def in_memory_provider_def bindE_apply cache_response_def
  enforce_response_size_def fails_if_def opt_or_def

lemma ex_written_ok:
  "fst ex_written = Inr (UpsertResponse True)" "mc_provider (snd ex_written) = [(''k'', [7])]"
  "mc_idempotency (snd ex_written) = [''r1'' \<mapsto> UpsertResponse True]" "mc_replay (snd ex_written) = [(''1'', 100)]"
  "mc_modules (snd ex_written) = mc_modules ex_memory"
  by (simp_all add: ex_written_def upsert_rpc_def upsert_body_def rpc_defs ex_memory_defs str_eval)

lemma ex_read_ok: "fst ex_read_a = Inr (ReadResponse True [7])"
  by (simp add: ex_read_a_def read_rpc_def read_body_def rpc_defs ex_written_ok ex_memory_defs str_eval)


lemma ex_read_state: "mc_replay (snd ex_read_a) = [(''2'', 100)]" "mc_idempotency (snd ex_read_a) ''r3'' = None"
  "mc_modules (snd ex_read_a) = mc_modules ex_memory" "mc_provider (snd ex_read_a) = [(''k'', [7])]"
  by (simp_all add: ex_read_a_def read_rpc_def read_body_def rpc_defs ex_written_ok ex_memory_defs str_eval)

theorem memory_access_authorized_witness:
  "\<exists>c d. Some (ex_request ''ta1'' ''r1'' ''a'') = Some c \<and> token_accepted ex_controller (ex_times 110) c OpUpsert [] d \<and>
     module_allows ex_controller (mc_modules ex_memory) (rc_module_id c) OpUpsert d"
proof -
  have "memory_rpc ex_controller (ex_times 110) (Some (ex_request ''ta1'' ''r1'' ''a'')) (CallUpsert ''k'' [7] []) ex_memory =
      (fst ex_written, snd ex_written)"
    by (simp add: ex_written_def)
  moreover have "mc_provider (snd ex_written) \<noteq> mc_provider ex_memory \<or> fst ex_written = Inr (UpsertResponse True)"
    by (simp add: ex_written_ok)
  ultimately show ?thesis
    using memory_access_authorized [of ex_controller "ex_times 110" "Some (ex_request ''ta1'' ''r1'' ''a'')"
        "CallUpsert ''k'' [7] []" ex_memory "fst ex_written" "snd ex_written" "UpsertResponse True"]
    by (auto simp: ex_written_ok ex_memory_def)
qed

text \<open>
  A token presented at 90 and again at 91, before its expiry at 100, is refused; presented at 110, when the clock skew still lets
  it through, and again at 111, it is answered twice.
\<close>

definition ex_live :: "(grpc_status + nat memory_response) \<times> (unit, memory_map, nat) controller_state" where
  "ex_live = memory_rpc ex_controller (ex_times 90) (Some (ex_request ''ta1'' ''r1'' ''a'')) (CallUpsert ''k'' [7] []) ex_memory"

theorem token_replay_exact_witness:
  "fst (memory_rpc ex_controller (ex_times 91) (Some (ex_request ''ta1'' ''r9'' ''a'')) (CallRead ''k'') (snd ex_live)) =
     Inl (replay_refusal ''1'') \<and>
   fst (memory_rpc ex_controller (ex_times 111) (Some (ex_request ''ta1'' ''r9'' ''a'')) (CallRead ''k'') (snd ex_written)) =
     Inr (ReadResponse True [7])"
proof -
  let ?q = "\<lambda>r. Some (ex_request ''ta1'' r ''a'')"
  have checked: "check_context ex_controller (ex_times n) OpUpsert (?q ''r1'') = Inr (ex_request ''ta1'' ''r1'' ''a'', ex_claims ''a'' ''1'')"
    "check_context ex_controller (ex_times n) OpRead (?q ''r9'') = Inr (ex_request ''ta1'' ''r9'' ''a'', ex_claims ''a'' ''1'')" if "n \<le> 130" for n
    using that by (simp_all add: rpc_defs ex_memory_defs str_eval utf8_len_def)
  have window: "cc_replay_window_secs (ce_config ex_controller) = cc_replay_window_secs default_controller_config"
    "dc_exp (ex_claims ''a'' ''1'') = 100" "dc_jti (ex_claims ''a'' ''1'') = ''1''" "tm_replay (ex_times n) = n" "tm_context (ex_times n) = n" for n
    by (simp_all add: ex_memory_defs)
  have live: "fst ex_live = Inr (UpsertResponse True)"
    by (simp add: ex_live_def upsert_rpc_def upsert_body_def rpc_defs ex_memory_defs str_eval)
  have early: "memory_rpc ex_controller (ex_times 90) (?q ''r1'') (CallUpsert ''k'' [7] []) ex_memory = (Inr (UpsertResponse True), snd ex_live)"
    by (metis ex_live_def live prod.collapse)
  have late: "memory_rpc ex_controller (ex_times 110) (?q ''r1'') (CallUpsert ''k'' [7] []) ex_memory = (Inr (UpsertResponse True), snd ex_written)"
    by (metis ex_written_def ex_written_ok(1) prod.collapse)
  obtain r2 s2 where second: "memory_rpc ex_controller (ex_times 91) (?q ''r9'') (CallRead ''k'') (snd ex_live) = (r2, s2)"
    by fastforce
  obtain r3 s3 where third: "memory_rpc ex_controller (ex_times 111) (?q ''r9'') (CallRead ''k'') (snd ex_written) = (r3, s3)"
    by fastforce
  have "r2 = Inl (replay_refusal ''1'')"
    using token_replay_exact [OF _ early _ _ _ refl _ second, of "ex_claims ''a'' ''1''" "[]"]
    by (simp add: window checked default_controller_config_def sat_add64_def u64_max_def)
  moreover have "fst (memory_rpc ex_controller (ex_times 111) (?q ''r9'') (CallRead ''k'') (snd ex_written\<lparr>mc_replay := []\<rparr>)) =
      Inr (ReadResponse True [7])"
    by (simp add: read_rpc_def read_body_def rpc_defs ex_written_ok ex_memory_defs str_eval)
  then have "r3 = Inr (ReadResponse True [7])"
    using token_replay_exact [OF _ late _ _ _ refl _ third, of "ex_claims ''a'' ''1''" "[]"]
    by (simp add: window checked default_controller_config_def sat_add64_def u64_max_def)
  ultimately show ?thesis using second third by simp
qed

text \<open>Tenant b reads tenant a's value under tenant a's request id, for a key that holds nothing.\<close>

theorem resubmission_same_answer_witness:
  "fst (memory_rpc ex_controller (ex_times 112) (Some (ex_request ''tb3'' ''r2'' ''b'')) (CallRead ''other'') (snd ex_read_a)) =
     Inr (ReadResponse True [7])"
proof -
  have first: "memory_rpc ex_controller (ex_times 111) (Some (ex_request ''ta2'' ''r2'' ''a'')) (CallRead ''k'') (snd ex_written) =
      (Inr (ReadResponse True [7]), snd ex_read_a)"
    by (metis ex_read_a_def ex_read_ok prod.collapse)
  have tok: "token_accepted ex_controller (ex_times 112) (ex_request ''tb3'' ''r2'' ''b'') (call_op (CallRead ''other''))
      (mc_replay (memory_rpcs ex_controller [] (snd ex_read_a))) (ex_claims ''b'' ''3'')"
    by (simp add: token_accepted_def ex_read_state rpc_defs ex_memory_defs str_eval)
  show ?thesis using resubmission_same_answer [OF first _ tok] by (simp add: ex_request_def)
qed

text \<open>And under a request id of its own, for tenant a's key.\<close>

theorem read_after_upsert_witness:
  "fst (memory_rpc ex_controller (ex_times 112) (Some (ex_request ''tb3'' ''r3'' ''b'')) (CallRead ''k'') (snd ex_read_a)) =
     Inr (ReadResponse True [7])"
proof -
  have wrote: "memory_rpc ex_controller (ex_times 110) (Some (ex_request ''ta1'' ''r1'' ''a'')) (CallUpsert ''k'' [7] []) ex_memory =
      (Inr (UpsertResponse True), snd ex_written)"
    by (metis ex_written_def ex_written_ok(1) prod.collapse)
  let ?rs = "[(ex_times 111, Some (ex_request ''ta2'' ''r2'' ''a''), CallRead ''k'')]"
  have between: "memory_rpcs ex_controller ?rs (snd ex_written) = snd ex_read_a" by (simp add: ex_read_a_def)
  obtain r2 s2 where read: "memory_rpc ex_controller (ex_times 112) (Some (ex_request ''tb3'' ''r3'' ''b'')) (CallRead ''k'')
      (memory_rpcs ex_controller ?rs (snd ex_written)) = (Inr r2, s2)"
    unfolding between
    by (simp add: read_rpc_def read_body_def rpc_defs ex_read_state ex_memory_defs str_eval)
  have "ce_provider ex_controller = in_memory_provider (map char_of) (\<lambda>a b. a)" by (simp add: ex_controller_def)
  then show ?thesis using read_after_upsert [OF _ wrote _ _ read] read between
    by (simp add: ex_memory_def ex_read_state ex_request_def)
qed

end
