(* ===== verification/Memory_Client.thy ===== *)
theory Memory_Client
  imports Memory_Controller
begin

section \<open>The memory client (kelvin-memory-client/src/lib.rs)\<close>

text \<open>
  The manager that the agent loop searches and reads memory through: its configuration and the checks on it, the context and
  token of each request, and the operations, over a remote call that is a parameter. The last part composes the client with
  the controller of \<^verbatim>\<open>Memory_Controller\<close>.

  Parameters: \<open>parse_url\<close> gives scheme and host of a URL, \<open>mint\<close> signs a token, \<open>read\<close> reads a file.
\<close>

subsection \<open>Configuration\<close>

record memory_client_config =
  cl_endpoint :: string
  cl_issuer :: string
  cl_audience :: string
  cl_subject :: string
  cl_tenant_id :: string
  cl_workspace_id :: string
  cl_session_id :: string
  cl_module_id :: string
  cl_signing_key_pem :: string
  cl_signing_key_path :: string
  cl_signing_kms_key_id :: string
  cl_signing_kms_region :: string
  cl_tls_ca_pem :: string
  cl_tls_ca_path :: string
  cl_tls_domain_name :: string
  cl_tls_client_cert_pem :: string
  cl_tls_client_cert_path :: string
  cl_tls_client_key_pem :: string
  cl_tls_client_key_path :: string
  cl_allow_insecure_non_loopback :: bool
  cl_timeout_ms :: nat
  cl_max_bytes :: nat
  cl_max_results :: nat

definition default_memory_client_config :: memory_client_config where
  "default_memory_client_config = \<lparr>cl_endpoint = ''http://127.0.0.1:50051'', cl_issuer = ''kelvin-root'',
     cl_audience = ''kelvin-memory-controller'', cl_subject = ''kelvin-root-memory-client'', cl_tenant_id = ''default'',
     cl_workspace_id = ''default'', cl_session_id = ''default'', cl_module_id = ''memory.echo'', cl_signing_key_pem = [],
     cl_signing_key_path = [], cl_signing_kms_key_id = [], cl_signing_kms_region = [], cl_tls_ca_pem = [], cl_tls_ca_path = [],
     cl_tls_domain_name = [], cl_tls_client_cert_pem = [], cl_tls_client_cert_path = [], cl_tls_client_key_pem = [],
     cl_tls_client_key_path = [], cl_allow_insecure_non_loopback = False, cl_timeout_ms = 2000, cl_max_bytes = 1024 * 1024,
     cl_max_results = 20\<rparr>"

definition parse_bool_value :: "string \<Rightarrow> bool" where
  "parse_bool_value v \<longleftrightarrow> to_ascii_lowercase v \<in> {''1'', ''true'', ''yes'', ''on''}"

definition client_config_from_env :: "(string \<Rightarrow> string option) \<Rightarrow> memory_client_config" where
  "client_config_from_env env = fold (\<lambda>set_field c. set_field c)
     [env_text env ''KELVIN_MEMORY_RPC_ENDPOINT'' (\<lambda>v c. c\<lparr>cl_endpoint := v\<rparr>),
      env_text env ''KELVIN_MEMORY_RPC_ISSUER'' (\<lambda>v c. c\<lparr>cl_issuer := v\<rparr>),
      env_text env ''KELVIN_MEMORY_RPC_AUDIENCE'' (\<lambda>v c. c\<lparr>cl_audience := v\<rparr>),
      env_text env ''KELVIN_MEMORY_RPC_SUBJECT'' (\<lambda>v c. c\<lparr>cl_subject := v\<rparr>),
      env_text env ''KELVIN_MEMORY_TENANT_ID'' (\<lambda>v c. c\<lparr>cl_tenant_id := v\<rparr>),
      env_text env ''KELVIN_MEMORY_WORKSPACE_ID'' (\<lambda>v c. c\<lparr>cl_workspace_id := v\<rparr>),
      env_text env ''KELVIN_MEMORY_SESSION_ID'' (\<lambda>v c. c\<lparr>cl_session_id := v\<rparr>),
      env_text env ''KELVIN_MEMORY_MODULE_ID'' (\<lambda>v c. c\<lparr>cl_module_id := v\<rparr>),
      env_text env ''KELVIN_MEMORY_SIGNING_KEY_PEM'' (\<lambda>v c. c\<lparr>cl_signing_key_pem := v\<rparr>),
      env_text env ''KELVIN_MEMORY_SIGNING_KEY_PATH'' (\<lambda>v c. c\<lparr>cl_signing_key_path := v\<rparr>),
      env_text env ''KELVIN_MEMORY_SIGNING_KMS_KEY_ID'' (\<lambda>v c. c\<lparr>cl_signing_kms_key_id := v\<rparr>),
      env_text env ''KELVIN_MEMORY_SIGNING_KMS_REGION'' (\<lambda>v c. c\<lparr>cl_signing_kms_region := v\<rparr>),
      env_text env ''KELVIN_MEMORY_RPC_TLS_CA_PEM'' (\<lambda>v c. c\<lparr>cl_tls_ca_pem := v\<rparr>),
      env_text env ''KELVIN_MEMORY_RPC_TLS_CA_PATH'' (\<lambda>v c. c\<lparr>cl_tls_ca_path := v\<rparr>),
      env_text env ''KELVIN_MEMORY_RPC_TLS_DOMAIN_NAME'' (\<lambda>v c. c\<lparr>cl_tls_domain_name := v\<rparr>),
      env_text env ''KELVIN_MEMORY_RPC_TLS_CLIENT_CERT_PEM'' (\<lambda>v c. c\<lparr>cl_tls_client_cert_pem := v\<rparr>),
      env_text env ''KELVIN_MEMORY_RPC_TLS_CLIENT_CERT_PATH'' (\<lambda>v c. c\<lparr>cl_tls_client_cert_path := v\<rparr>),
      env_text env ''KELVIN_MEMORY_RPC_TLS_CLIENT_KEY_PEM'' (\<lambda>v c. c\<lparr>cl_tls_client_key_pem := v\<rparr>),
      env_text env ''KELVIN_MEMORY_RPC_TLS_CLIENT_KEY_PATH'' (\<lambda>v c. c\<lparr>cl_tls_client_key_path := v\<rparr>),
      (\<lambda>c. case env ''KELVIN_MEMORY_RPC_ALLOW_INSECURE_NON_LOOPBACK'' of
         Some v \<Rightarrow> c\<lparr>cl_allow_insecure_non_loopback := parse_bool_value (trim v)\<rparr> | None \<Rightarrow> c),
      env_number env ''KELVIN_MEMORY_TIMEOUT_MS'' u64_max (\<lambda>n c. c\<lparr>cl_timeout_ms := n\<rparr>),
      env_number env ''KELVIN_MEMORY_MAX_BYTES'' u64_max (\<lambda>n c. c\<lparr>cl_max_bytes := n\<rparr>),
      env_number env ''KELVIN_MEMORY_MAX_RESULTS'' (2 ^ 32 - 1) (\<lambda>n c. c\<lparr>cl_max_results := n\<rparr>)]
     default_memory_client_config"

definition RPC_OPT_IN_ENV_VARS :: "string list" where
  "RPC_OPT_IN_ENV_VARS = [''KELVIN_MEMORY_RPC_ENDPOINT'', ''KELVIN_MEMORY_SIGNING_KEY_PEM'', ''KELVIN_MEMORY_SIGNING_KEY_PATH'',
     ''KELVIN_MEMORY_SIGNING_KMS_KEY_ID'', ''KELVIN_MEMORY_RPC_TLS_CA_PEM'', ''KELVIN_MEMORY_RPC_TLS_CA_PATH'',
     ''KELVIN_MEMORY_RPC_TLS_CLIENT_CERT_PEM'', ''KELVIN_MEMORY_RPC_TLS_CLIENT_CERT_PATH'',
     ''KELVIN_MEMORY_RPC_TLS_CLIENT_KEY_PEM'', ''KELVIN_MEMORY_RPC_TLS_CLIENT_KEY_PATH'']"

definition memory_rpc_requested_with :: "(string \<Rightarrow> string option) \<Rightarrow> bool" where
  "memory_rpc_requested_with lookup \<longleftrightarrow> (\<exists>name\<in>set RPC_OPT_IN_ENV_VARS. case lookup name of Some v \<Rightarrow> trim v \<noteq> [] | None \<Rightarrow> False)"

definition validate_required_field :: "string \<Rightarrow> string \<Rightarrow> unit kelvin_result" where
  "validate_required_field label v = (let trimmed = trim v in first_error
     [fails_if (trimmed = []) (label @ '' must not be empty''),
      fails_if (list_ex is_control trimmed) (label @ '' must not include control characters'')])"

definition validate_signing_config :: "memory_client_config \<Rightarrow> unit kelvin_result" where
  "validate_signing_config c =
     (let has_kms_key = trim (cl_signing_kms_key_id c) \<noteq> [];
          has_pem = trim (cl_signing_key_pem c) \<noteq> [] \<or> trim (cl_signing_key_path c) \<noteq> [] in first_error
     [fails_if (has_kms_key \<and> has_pem) ''memory signing config cannot set both PEM signing material and KMS signing key'',
      fails_if (\<not> has_kms_key \<and> \<not> has_pem) ''memory signing config requires either PEM signing material or KMS key id'',
      fails_if (trim (cl_signing_kms_region c) \<noteq> [] \<and> \<not> has_kms_key)
        ''memory signing kms region requires KELVIN_MEMORY_SIGNING_KMS_KEY_ID''])"

definition is_loopback_host :: "string \<Rightarrow> bool" where
  "is_loopback_host host \<longleftrightarrow> to_ascii_lowercase (trim host) \<in> {''localhost'', ''127.0.0.1'', ''::1''}"

type_synonym url_parser = "string \<Rightarrow> string + string \<times> string option"

definition validate_endpoint :: "url_parser \<Rightarrow> memory_client_config \<Rightarrow> unit kelvin_result" where
  "validate_endpoint parse_url c = (case parse_url (trim (cl_endpoint c)) of
     Inl err \<Rightarrow> Inl (InvalidInput (''invalid memory rpc endpoint '' @ quote (cl_endpoint c) @ '': '' @ err))
   | Inr (raw_scheme, host) \<Rightarrow>
     (let scheme = to_ascii_lowercase raw_scheme in
      if scheme \<noteq> ''http'' \<and> scheme \<noteq> ''https'' then Inl (InvalidInput ''memory rpc endpoint must use http:// or https://'')
      else case host of
        None \<Rightarrow> Inl (InvalidInput ''memory rpc endpoint host is missing'')
      | Some h \<Rightarrow> fails_if (scheme = ''http'' \<and> \<not> cl_allow_insecure_non_loopback c \<and> \<not> is_loopback_host h)
          (''refusing insecure non-loopback memory rpc endpoint '' @ quote h @
           ''. use https:// or set KELVIN_MEMORY_RPC_ALLOW_INSECURE_NON_LOOPBACK=true only on trusted networks'')))"

definition validate_client_config :: "url_parser \<Rightarrow> memory_client_config \<Rightarrow> unit kelvin_result" where
  "validate_client_config parse_url c = first_error
     [validate_required_field ''memory rpc endpoint'' (cl_endpoint c),
      validate_required_field ''memory rpc issuer'' (cl_issuer c),
      validate_required_field ''memory rpc audience'' (cl_audience c),
      validate_required_field ''memory rpc subject'' (cl_subject c),
      validate_required_field ''memory tenant id'' (cl_tenant_id c),
      validate_required_field ''memory workspace id'' (cl_workspace_id c),
      validate_required_field ''memory session id'' (cl_session_id c),
      validate_required_field ''memory module id'' (cl_module_id c),
      validate_signing_config c,
      fails_if (cl_timeout_ms c = 0) ''memory timeout must be > 0'',
      fails_if (cl_max_bytes c = 0) ''memory max bytes must be > 0'',
      fails_if (cl_max_results c = 0) ''memory max results must be > 0'',
      validate_endpoint parse_url c]"

subsection \<open>The endpoint and the signer\<close>

definition endpoint_uses_tls :: "string \<Rightarrow> bool" where
  "endpoint_uses_tls endpoint \<longleftrightarrow> starts_with ''https://'' (to_ascii_lowercase (trim_start endpoint))"

definition infer_tls_domain_name :: "string \<Rightarrow> string option" where
  "infer_tls_domain_name endpoint = (case strip_prefix ''https://'' (to_ascii_lowercase (trim_start endpoint)) of
     None \<Rightarrow> None
   | Some rest \<Rightarrow>
     (let host_port = last (split_char CHR ''@'' (hd (split_char CHR ''/'' rest))) in
      if starts_with ''['' host_port then
        (case split_once CHR '']'' (tl host_port) of None \<Rightarrow> None | Some (host, _) \<Rightarrow> if host = [] then None else Some host)
      else let host = hd (split_char CHR '':'' host_port) in if host = [] then None else Some host))"

text \<open>The TLS settings of the endpoint: domain name, certificate authority, client certificate and key.\<close>

record tls_plan =
  tp_domain_name :: string
  tp_ca :: "string option"
  tp_identity :: "(string \<times> string) option"

definition build_endpoint :: "(string \<Rightarrow> string + string) \<Rightarrow> memory_client_config \<Rightarrow> tls_plan option kelvin_result" where
  "build_endpoint read c =
     (if endpoint_uses_tls (cl_endpoint c) then
        bindR (if trim (cl_tls_domain_name c) = [] then
            (case infer_tls_domain_name (cl_endpoint c) of
               Some d \<Rightarrow> Inr d
             | None \<Rightarrow> Inl (InvalidInput ''unable to infer tls domain name from memory rpc endpoint; set KELVIN_MEMORY_RPC_TLS_DOMAIN_NAME''))
          else Inr (trim (cl_tls_domain_name c))) (\<lambda>domain_name.
        bindR (resolve_optional_pem read (cl_tls_ca_pem c) (cl_tls_ca_path c) ''memory rpc tls ca'') (\<lambda>ca.
        bindR (resolve_optional_pem read (cl_tls_client_cert_pem c) (cl_tls_client_cert_path c) ''memory rpc tls client cert'') (\<lambda>cert.
        bindR (resolve_optional_pem read (cl_tls_client_key_pem c) (cl_tls_client_key_path c) ''memory rpc tls client key'') (\<lambda>key.
        case (cert, key) of
          (Some ct, Some k) \<Rightarrow> Inr (Some \<lparr>tp_domain_name = domain_name, tp_ca = ca, tp_identity = Some (ct, k)\<rparr>)
        | (None, None) \<Rightarrow> Inr (Some \<lparr>tp_domain_name = domain_name, tp_ca = ca, tp_identity = None\<rparr>)
        | _ \<Rightarrow> Inl (InvalidInput ''mTLS client identity requires both cert and key'')))))
      else if list_ex (\<lambda>v. trim v \<noteq> []) [cl_tls_ca_pem c, cl_tls_ca_path c, cl_tls_domain_name c, cl_tls_client_cert_pem c,
          cl_tls_client_cert_path c, cl_tls_client_key_pem c, cl_tls_client_key_path c] then
        Inl (InvalidInput ''tls settings provided for non-https memory rpc endpoint'')
      else Inr None)"

datatype 'k token_signer = PemSigner 'k | KmsSigner string "string option"

definition resolve_delegation_token_signer :: "(string \<Rightarrow> string + string) \<Rightarrow> (string \<Rightarrow> string + 'k) \<Rightarrow> memory_client_config \<Rightarrow>
    'k token_signer kelvin_result" where
  "resolve_delegation_token_signer read parse_key c =
     (if trim (cl_signing_kms_key_id c) \<noteq> [] then
        Inr (KmsSigner (trim (cl_signing_kms_key_id c))
          (if trim (cl_signing_kms_region c) = [] then None else Some (trim (cl_signing_kms_region c))))
      else bindR (resolve_required_pem read (cl_signing_key_pem c) (cl_signing_key_path c) ''memory rpc signing key'') (\<lambda>pem.
        case parse_key pem of Inl err \<Rightarrow> Inl (InvalidInput (''invalid memory rpc signing key pem: '' @ err))
        | Inr k \<Rightarrow> Inr (PemSigner k)))"

subsection \<open>Operations\<close>

definition TOKEN_EXPIRY_OFFSET_SECS :: nat where "TOKEN_EXPIRY_OFFSET_SECS = 60"

fun client_capabilities :: "memory_operation \<Rightarrow> string list" where
  "client_capabilities OpUpsert = [''memory_crud'']"
| "client_capabilities OpDelete = [''memory_crud'']"
| "client_capabilities OpQuery = [''memory_read'']"
| "client_capabilities OpRead = [''memory_read'']"
| "client_capabilities OpHealth = [''memory_health'']"

definition client_claims :: "memory_client_config \<Rightarrow> nat \<Rightarrow> memory_operation \<Rightarrow> string \<Rightarrow> delegation_claims" where
  "client_claims c now op request_id = \<lparr>dc_iss = cl_issuer c, dc_sub = cl_subject c, dc_aud = cl_audience c,
     dc_jti = operation_as_str op @ ''-'' @ request_id, dc_exp = sat_add64 now TOKEN_EXPIRY_OFFSET_SECS, dc_nbf = now - 1,
     dc_tenant_id = cl_tenant_id c, dc_workspace_id = cl_workspace_id c, dc_session_id = cl_session_id c,
     dc_module_id = cl_module_id c, dc_allowed_ops = [operation_as_str op], dc_allowed_capabilities = client_capabilities op,
     dc_request_limits = \<lparr>rl_timeout_ms = cl_timeout_ms c, rl_max_bytes = cl_max_bytes c, rl_max_results = cl_max_results c\<rparr>\<rparr>"

type_synonym token_mint = "delegation_claims \<Rightarrow> string kelvin_result"

definition build_context :: "memory_client_config \<Rightarrow> token_mint \<Rightarrow> nat \<Rightarrow> memory_operation \<Rightarrow> string \<Rightarrow> request_context kelvin_result" where
  "build_context c mint now op request_id = bindR (mint (client_claims c now op request_id)) (\<lambda>token.
     Inr \<lparr>rc_delegation_token = token, rc_request_id = request_id, rc_tenant_id = cl_tenant_id c,
          rc_workspace_id = cl_workspace_id c, rc_session_id = cl_session_id c, rc_module_id = cl_module_id c\<rparr>)"

fun map_status :: "grpc_status \<Rightarrow> kelvin_error" where
  "map_status (DeadlineExceeded m) = Timeout m"
| "map_status (InvalidArgument m) = InvalidInput m"
| "map_status (NotFoundStatus m) = NotFound m"
| "map_status (Unavailable m) = Backend (''memory controller unavailable: '' @ m)"
| "map_status (Internal m) = Backend (''memory controller unavailable: '' @ m)"

definition map_search_hit :: "'f search_hit \<Rightarrow> 'f memory_search_result" where
  "map_search_hit h = \<lparr>ms_path = sh_path h, ms_start_line = sh_start_line h, ms_end_line = sh_end_line h, ms_score = sh_score h,
     ms_snippet = sh_snippet h, ms_source = SourceMemory, ms_citation = None\<rparr>"

text \<open>
  The remote service is a function on its state. \<open>client_call\<close> is the part the operations share: the context, the call, the
  error. A response of another kind cannot occur, since each method has its response type; it is an error here.
\<close>

type_synonym ('s, 'f) memory_service = "request_context option \<Rightarrow> memory_call \<Rightarrow> 's \<Rightarrow> (grpc_status + 'f memory_response) \<times> 's"

definition client_call :: "memory_client_config \<Rightarrow> token_mint \<Rightarrow> nat \<Rightarrow> ('s, 'f) memory_service \<Rightarrow> string \<Rightarrow> memory_call \<Rightarrow>
    ('s, 'f memory_response) eff" where
  "client_call c mint now service request_id call =
     bindE (liftE (build_context c mint now (call_op call) request_id)) (\<lambda>ctx s.
       case service (Some ctx) call s of (Inl st, s') \<Rightarrow> (Inl (map_status st), s') | (Inr r, s') \<Rightarrow> (Inr r, s'))"

definition client_upsert :: "memory_client_config \<Rightarrow> token_mint \<Rightarrow> nat \<Rightarrow> ('s, 'f) memory_service \<Rightarrow> string \<Rightarrow> string \<Rightarrow> nat list \<Rightarrow>
    ('s, unit) eff" where
  "client_upsert c mint now service request_id key v =
     bindE (client_call c mint now service request_id (CallUpsert key v [])) (\<lambda>_. okE ())"

definition client_search :: "memory_client_config \<Rightarrow> token_mint \<Rightarrow> nat \<Rightarrow> ('s, 'f) memory_service \<Rightarrow> string \<Rightarrow> string \<Rightarrow>
    memory_search_options \<Rightarrow> ('s, 'f memory_search_result list) eff" where
  "client_search c mint now service request_id query opts =
     (let wanted = mso_max_results opts;
          max_results = min (if wanted < 2 ^ 32 then wanted else cl_max_results c) (cl_max_results c) in
      bindE (client_call c mint now service request_id (CallQuery query max_results)) (\<lambda>r.
        case r of QueryResponse hits \<Rightarrow> okE (map map_search_hit hits) | _ \<Rightarrow> errE (Backend ''unexpected response'')))"

definition client_read_file :: "memory_client_config \<Rightarrow> token_mint \<Rightarrow> nat \<Rightarrow> ('s, 'f) memory_service \<Rightarrow> (nat list \<Rightarrow> string + string) \<Rightarrow>
    string \<Rightarrow> string \<Rightarrow> ('s, string \<times> string) eff" where
  "client_read_file c mint now service from_utf8 request_id rel_path =
     bindE (client_call c mint now service request_id (CallRead rel_path)) (\<lambda>r.
       case r of
         ReadResponse found v \<Rightarrow>
           if found then (case from_utf8 v of
               Inl err \<Rightarrow> errE (Backend (''memory controller returned non-utf8 payload: '' @ err))
             | Inr txt \<Rightarrow> okE (txt, rel_path))
           else okE ([], rel_path)
       | _ \<Rightarrow> errE (Backend ''unexpected response''))"

definition client_sync :: "memory_client_config \<Rightarrow> token_mint \<Rightarrow> nat \<Rightarrow> ('s, 'f) memory_service \<Rightarrow> string \<Rightarrow> ('s, unit) eff" where
  "client_sync c mint now service request_id = bindE (client_call c mint now service request_id CallHealth) (\<lambda>_. okE ())"


subsection \<open>The client and the controller\<close>

text \<open>
  What is relied on of the JWT library: a token of the right issuer and audience verifies to its claims from its
  \<open>nbf\<close> to its \<open>exp\<close>, with the leeway on both sides.
\<close>

definition tokens_verify :: "('m, 'p, 'f) controller_env \<Rightarrow> token_mint \<Rightarrow> bool" where
  "tokens_verify env mint \<longleftrightarrow> (\<forall>d token now. mint d = Inr token \<longrightarrow> dc_iss d = cc_issuer (ce_config env) \<longrightarrow>
     dc_aud d = cc_audience (ce_config env) \<longrightarrow> dc_nbf d \<le> now + cc_clock_skew_secs (ce_config env) \<longrightarrow>
     now \<le> dc_exp d + cc_clock_skew_secs (ce_config env) \<longrightarrow> ce_verify env token now = Inr d)"

text \<open>The client reads \<open>now\<close> and the controller its clock while the token is valid.\<close>

definition in_time :: "('m, 'p, 'f) controller_env \<Rightarrow> nat \<Rightarrow> request_times \<Rightarrow> bool" where
  "in_time env now t \<longleftrightarrow> now \<le> tm_verify t + cc_clock_skew_secs (ce_config env) \<and>
     tm_verify t \<le> now + TOKEN_EXPIRY_OFFSET_SECS + cc_clock_skew_secs (ce_config env) \<and> now + TOKEN_EXPIRY_OFFSET_SECS \<le> u64_max"

definition fresh_request :: "request_times \<Rightarrow> memory_operation \<Rightarrow> string \<Rightarrow> ('m, 'p, 'f) controller_state \<Rightarrow> bool" where
  "fresh_request t op rid s \<longleftrightarrow> trim rid \<noteq> [] \<and> utf8_len rid \<le> MAX_REQUEST_ID_LENGTH \<and> mc_idempotency s rid = None \<and>
     (\<forall>x. (operation_as_str op @ ''-'' @ rid, x) \<in> set (mc_replay s) \<longrightarrow> x \<le> tm_replay t)"

text \<open>The client is configured for the controller, which has the client's module, and the module handles the operation.\<close>

definition client_served :: "('m, 'p, 'f) controller_env \<Rightarrow> memory_client_config \<Rightarrow> memory_operation \<Rightarrow> (string \<times> 'm memory_module) list \<Rightarrow> bool" where
  "client_served env c op modules \<longleftrightarrow> cl_issuer c = cc_issuer (ce_config env) \<and> cl_audience c = cc_audience (ce_config env) \<and>
     (\<exists>md. map_of modules (cl_module_id c) = Some md \<and> required_capability op \<in> set (mm_capabilities (md_manifest md)) \<and>
       we_run (ce_engine env) (md_module md) (export_name op)
         (min (cl_timeout_ms c) (cc_default_timeout_ms (ce_config env))) (cc_default_fuel (ce_config env)) = Inr ())"

lemma client_claims_simps [simp]:
  "dc_iss (client_claims c now op rid) = cl_issuer c" "dc_aud (client_claims c now op rid) = cl_audience c"
  "dc_nbf (client_claims c now op rid) = now - 1" "dc_exp (client_claims c now op rid) = sat_add64 now TOKEN_EXPIRY_OFFSET_SECS"
  "dc_jti (client_claims c now op rid) = operation_as_str op @ ''-'' @ rid"
  "dc_allowed_capabilities (client_claims c now op rid) = client_capabilities op"
  "dc_request_limits (client_claims c now op rid) =
     \<lparr>rl_timeout_ms = cl_timeout_ms c, rl_max_bytes = cl_max_bytes c, rl_max_results = cl_max_results c\<rparr>"
  by (simp_all add: client_claims_def)

lemma client_context_accepted:
  assumes "tokens_verify env mint" and "mint (client_claims c now op rid) = Inr token"
    and "client_served env c op modules" and "in_time env now t" and "fresh_request t op rid s"
  shows "\<exists>ctx. build_context c mint now op rid = Inr ctx \<and> rc_request_id ctx = rid \<and> rc_module_id ctx = cl_module_id c \<and>
    token_accepted env t ctx op (mc_replay s) (client_claims c now op rid)"
proof -
  have "now - 1 \<le> tm_verify t + cc_clock_skew_secs (ce_config env)"
    "tm_verify t \<le> sat_add64 now TOKEN_EXPIRY_OFFSET_SECS + cc_clock_skew_secs (ce_config env)"
    using assms(4) by (auto simp: in_time_def sat_add64_def)
  then have "ce_verify env token (tm_verify t) = Inr (client_claims c now op rid)"
    using assms(1-3) unfolding tokens_verify_def client_served_def
    by (simp del: One_nat_def)
  then show ?thesis using assms(2,5)
    by (simp add: build_context_def token_accepted_def fresh_request_def allows_operation_def context_matches_def client_claims_def)
qed

lemma client_module_allows:
  "client_served env c op modules \<Longrightarrow> module_allows env modules (cl_module_id c) op (client_claims c now op rid)"
  by (cases op) (auto simp: client_served_def module_allows_def)

lemma call_body_run:
  "module_allows env (mc_modules s) (vc_module_id v) (call_op call) (vc_claims v) \<Longrightarrow>
     call_body env call v s = call_effect env call v s"
  by (simp add: call_body_effect run_module_iff [THEN iffD2, of s s])

text \<open>A fresh request that is admitted and whose module runs ends as its effect on the provider.\<close>

lemma client_call_effect:
  assumes "tokens_verify env mint" and "mint (client_claims c now (call_op call) rid) = Inr token"
    and "client_served env c (call_op call) (mc_modules s)" and "in_time env now t" and "fresh_request t (call_op call) rid s"
    and "request_within (client_claims c now (call_op call) rid) call"
    and "call_effect env call (context_of ctx (client_claims c now (call_op call) rid))
      (s\<lparr>mc_replay := accept_token env t (client_claims c now (call_op call) rid) (mc_replay s)\<rparr>) = (Inr r, s2)"
    and "\<And>ctx'. vc_claims ctx' = client_claims c now (call_op call) rid \<Longrightarrow>
      call_effect env call ctx' = call_effect env call (context_of ctx (client_claims c now (call_op call) rid))"
  shows "\<exists>s'. client_call c mint now (memory_rpc env t) rid call s = (Inr r, s') \<and> mc_provider s' = mc_provider s2 \<and>
    mc_modules s' = mc_modules s \<and> mc_idempotency s' = (mc_idempotency s)(rid \<mapsto> r) \<and>
    mc_replay s' = accept_token env t (client_claims c now (call_op call) rid) (mc_replay s)"
proof -
  let ?d = "client_claims c now (call_op call) rid"
  obtain cx where cx: "build_context c mint now (call_op call) rid = Inr cx" "rc_request_id cx = rid"
      "rc_module_id cx = cl_module_id c" and tok: "token_accepted env t cx (call_op call) (mc_replay s) ?d"
    using client_context_accepted [OF assms(1-5)] by blast
  let ?s1 = "s\<lparr>mc_replay := accept_token env t ?d (mc_replay s)\<rparr>" and ?v = "context_of cx ?d"
  have "module_allows env (mc_modules ?s1) (vc_module_id ?v) (call_op call) (vc_claims ?v)"
    using client_module_allows [OF assms(3), of now rid] cx(3) by simp
  then have "call_body env call ?v ?s1 = (Inr r, s2)"
    using call_body_run [of env ?s1 ?v call] assms(7) assms(8) [of ?v] by simp
  moreover have "check_cached (call_op call) rid ?s1 = None"
    using assms(5) by (simp add: check_cached_def fresh_request_def)
  moreover have "call_admit call ?v = None" using assms(6) by (simp add: admit_within)
  ultimately have run: "memory_rpc env t (Some cx) call s =
      (Inr r, audit_controller t (call_op call) ?v True ''ok'' (cache_response rid r s2))"
    using validate_context_accepted [OF tok] cx(2)
    by (simp add: memory_rpc_serve serve_memory_def finish_request_def)
  have "control_of s2 = control_of ?s1" using assms(7) by (rule call_effect_control)
  with run cx(1) show ?thesis by (simp add: client_call_def control_of_def)
qed


lemma effect_upsert_in_memory:
  "ce_provider env = in_memory_provider decode score \<Longrightarrow> call_effect env (CallUpsert k v m) ctx s =
     (Inr (UpsertResponse True), s\<lparr>mc_provider := (k, v) # filter (\<lambda>e. fst e \<noteq> k) (mc_provider s)\<rparr>)"
  by (simp add: bindE_apply provider_op_def in_memory_provider_def)

lemma effect_read_claims: "vc_claims ctx = vc_claims ctx' \<Longrightarrow> call_effect env (CallRead k) ctx = call_effect env (CallRead k) ctx'"
  by simp

lemma effect_read_in_memory:
  assumes "ce_provider env = in_memory_provider decode score" and "map_of (mc_provider s) k = Some v"
    and "length v \<le> min (cc_default_max_response_bytes (ce_config env)) (rl_max_bytes (dc_request_limits (vc_claims ctx)))"
  shows "call_effect env (CallRead k) ctx s = (Inr (ReadResponse True v), s)"
  using assms by (auto simp: bindE_apply provider_op_def in_memory_provider_def enforce_response_size_def Let_def fails_if_def opt_or_def min_less_iff_disj)

text \<open>
  \<^bold>\<open>C30.\<close> A client configured for a controller with an in-memory provider whose module handles writes and reads: with a signer
  that works, fresh request ids, clocks that agree within the token's life and a value within the limits, a write succeeds,
  and a read of the key then returns the text written. The tokens the client makes for the two requests pass all the checks
  of the controller.
\<close>

theorem client_reads_its_write:
  assumes "ce_provider env = in_memory_provider decode score"
    and "tokens_verify env mint"
    and "mint (client_claims c now1 OpUpsert rid1) = Inr tok1" and "mint (client_claims c now2 OpRead rid2) = Inr tok2"
    and "client_served env c OpUpsert (mc_modules s)" and "client_served env c OpRead (mc_modules s)"
    and "in_time env now1 t1" and "in_time env now2 t2"
    and "fresh_request t1 OpUpsert rid1 s" and "fresh_request t2 OpRead rid2 s" and "rid1 \<noteq> rid2"
    and "length v \<le> min (cl_max_bytes c) (cc_default_max_response_bytes (ce_config env))" and "from_utf8 v = Inr contents"
  shows "\<exists>s1 s2. client_upsert c mint now1 (memory_rpc env t1) rid1 k v s = (Inr (), s1) \<and>
    client_read_file c mint now2 (memory_rpc env t2) from_utf8 rid2 k s1 = (Inr (contents, k), s2)"
proof -
  let ?d1 = "client_claims c now1 OpUpsert rid1" and ?d2 = "client_claims c now2 OpRead rid2"
  let ?cx = "undefined :: request_context"
  have up_any: "call_effect env (CallUpsert k v []) ctx = call_effect env (CallUpsert k v []) ctx'" for ctx ctx'
    by simp
  note minted = assms(3,4)
  have small: "length v \<le> cl_max_bytes c" "length v \<le> cc_default_max_response_bytes (ce_config env)" using assms(12) by auto
  have "\<exists>s1. client_call c mint now1 (memory_rpc env t1) rid1 (CallUpsert k v []) s = (Inr (UpsertResponse True), s1) \<and>
      mc_provider s1 = mc_provider (s\<lparr>mc_replay := accept_token env t1 ?d1 (mc_replay s),
        mc_provider := (k, v) # filter (\<lambda>e. fst e \<noteq> k) (mc_provider s)\<rparr>) \<and> mc_modules s1 = mc_modules s \<and>
      mc_idempotency s1 = (mc_idempotency s)(rid1 \<mapsto> UpsertResponse True) \<and> mc_replay s1 = accept_token env t1 ?d1 (mc_replay s)"
    using client_call_effect [OF assms(2), where call = "CallUpsert k v []", unfolded call_op.simps,
        OF minted(1) assms(5,7,9), of ?cx, OF _ effect_upsert_in_memory [OF assms(1)] up_any] small(1) by simp
  then obtain s1 where up: "client_call c mint now1 (memory_rpc env t1) rid1 (CallUpsert k v []) s = (Inr (UpsertResponse True), s1)"
    and s1: "mc_provider s1 = (k, v) # filter (\<lambda>e. fst e \<noteq> k) (mc_provider s)" "mc_modules s1 = mc_modules s"
      "mc_idempotency s1 = (mc_idempotency s)(rid1 \<mapsto> UpsertResponse True)" "mc_replay s1 = accept_token env t1 ?d1 (mc_replay s)"
    by auto
  have fresh: "fresh_request t2 OpRead rid2 s1"
    using assms(10,11) by (auto simp: fresh_request_def s1 accept_token_def set_entry_set)
  have read: "call_effect env (CallRead k) ctx (s1\<lparr>mc_replay := r\<rparr>) = (Inr (ReadResponse True v), s1\<lparr>mc_replay := r\<rparr>)"
    if "vc_claims ctx = ?d2" for ctx r
    using that small by (intro effect_read_in_memory [OF assms(1)]) (simp_all add: s1)
  have "\<exists>s2. client_call c mint now2 (memory_rpc env t2) rid2 (CallRead k) s1 = (Inr (ReadResponse True v), s2)"
    using client_call_effect [OF assms(2), where call = "CallRead k", unfolded call_op.simps,
        OF minted(2) assms(6) [folded s1(2)] assms(8) fresh, of ?cx, OF _ read effect_read_claims] by auto
  then show ?thesis using up assms(13) by (auto simp: client_upsert_def client_read_file_def)
qed


subsection \<open>A concrete client\<close>

definition ex_client :: memory_client_config where
  "ex_client = default_memory_client_config\<lparr>cl_module_id := ''m'', cl_signing_key_pem := ''pem''\<rparr>"

abbreviation ex_write_claims :: delegation_claims where "ex_write_claims \<equiv> client_claims ex_client 100 OpUpsert ''a''"
abbreviation ex_read_claims :: delegation_claims where "ex_read_claims \<equiv> client_claims ex_client 101 OpRead ''b''"

definition ex_mint :: token_mint where
  "ex_mint d = (if d = ex_write_claims then Inr ''1'' else if d = ex_read_claims then Inr ''2'' else Inl (InvalidInput ''no key''))"

definition ex_check :: "string \<Rightarrow> nat \<Rightarrow> string + delegation_claims" where
  "ex_check token now = (let d = (if token = ''1'' then ex_write_claims else ex_read_claims) in
     if dc_nbf d \<le> now + 30 \<and> now \<le> dc_exp d + 30 then Inr d else Inl ''expired'')"

definition ex_host :: "(unit, memory_map, nat) controller_env" where
  "ex_host = ex_controller\<lparr>ce_verify := ex_check\<rparr>"

lemma ex_tokens_verify: "tokens_verify ex_host ex_mint"
  by (auto simp: tokens_verify_def ex_mint_def ex_check_def ex_host_def ex_controller_def default_controller_config_def
      Let_def split: if_splits)

theorem client_reads_its_write_witness:
  "\<exists>s1 s2. client_upsert ex_client ex_mint 100 (memory_rpc ex_host (ex_times 100)) ''a'' ''k'' [104, 105] ex_memory = (Inr (), s1) \<and>
    client_read_file ex_client ex_mint 101 (memory_rpc ex_host (ex_times 101)) (\<lambda>v. Inr (map char_of v)) ''b'' ''k'' s1 =
      (Inr (''hi'', ''k''), s2)"
proof (rule client_reads_its_write [where decode = "map char_of" and score = "\<lambda>a b. a" and ?tok1.0 = "''1''" and ?tok2.0 = "''2''"])
  show "ce_provider ex_host = in_memory_provider (map char_of) (\<lambda>a b. a)" by (simp add: ex_host_def ex_controller_def)
  show "tokens_verify ex_host ex_mint" by (rule ex_tokens_verify)
  have "ex_read_claims \<noteq> ex_write_claims" by (simp add: client_claims_def)
  then show "ex_mint ex_write_claims = Inr ''1''" "ex_mint ex_read_claims = Inr ''2''" by (simp_all add: ex_mint_def)
  show "client_served ex_host ex_client OpUpsert (mc_modules ex_memory)" "client_served ex_host ex_client OpRead (mc_modules ex_memory)"
    by (simp_all add: client_served_def ex_host_def ex_client_def default_memory_client_config_def ex_memory_defs)
  show "in_time ex_host 100 (ex_times 100)" "in_time ex_host 101 (ex_times 101)"
    by (simp_all add: in_time_def ex_times_def ex_host_def ex_memory_defs TOKEN_EXPIRY_OFFSET_SECS_def u64_max_def)
  show "fresh_request (ex_times 100) OpUpsert ''a'' ex_memory" "fresh_request (ex_times 101) OpRead ''b'' ex_memory"
    by (simp_all add: fresh_request_def ex_memory_def MAX_REQUEST_ID_LENGTH_def str_eval)
qed (simp_all add: ex_client_def default_memory_client_config_def ex_host_def ex_memory_defs char_of_eq_code str_eval)

end
