(* ===== verification/Sdk_Sessions.thy ===== *)
theory Sdk_Sessions
  imports Core_Types
begin

section \<open>Sessions and run records on disk (kelvin-sdk/src/lib.rs)\<close>

text \<open>
  \<open>RuntimePersistence\<close> keeps sessions and run records below the state directory, and \<open>FileBackedSessionStore\<close>
  keeps the sessions in memory and writes every change through. The state directory is modelled by what it holds: for
  each directory of \<^verbatim>\<open>sessions\<close> its two files and the quarantined ones, and the files of \<^verbatim>\<open>runs\<close>.

  Parameters: \<open>codec\<close> is the JSON encoding of descriptors, messages and run records, and \<open>key_hex\<close> the hexadecimal SHA-256
  digest that names a directory. The outcomes of the file operations are arguments.
\<close>

subsection \<open>The state directory\<close>

record session_dir =
  se_descriptor :: "string option"
  se_messages :: "string option"
  se_corrupt :: "(string \<times> string) list"

record state_disk =
  dk_sessions :: "(string \<times> session_dir) list"
  dk_runs :: "string \<Rightarrow> string option"

record state_codec =
  sc_descriptor :: "session_descriptor \<Rightarrow> string"
  sc_parse_descriptor :: "string \<Rightarrow> string + session_descriptor"
  sc_message :: "session_message \<Rightarrow> string"
  sc_parse_message :: "string \<Rightarrow> string + session_message"
  sc_record :: "json \<Rightarrow> string"
  sc_parse_record :: "string \<Rightarrow> json option"

record runtime_persistence =
  rp_state_dir :: "string option"
  rp_persist_runs :: bool
  rp_max_session_history_messages :: nat
  rp_compact_to_messages :: nat

text \<open>What the file system says about a path, and the outcomes of creating a directory and of an atomic write.\<close>

record path_info =
  pi_exists :: bool
  pi_is_dir :: bool

record disk_io =
  di_create_dir :: "unit kelvin_result"
  di_write :: "unit kelvin_result"

definition io_ok :: disk_io where
  "io_ok = \<lparr>di_create_dir = Inr (), di_write = Inr ()\<rparr>"

definition reject_if :: "bool \<Rightarrow> string \<Rightarrow> unit kelvin_result" where
  "reject_if b what = (if b then Inl (InvalidInput what) else Inr ())"

lemma reject_if_Inr [simp]: "reject_if b what = Inr () \<longleftrightarrow> \<not> b"
  by (simp add: reject_if_def)

definition validate_persistence_policy :: "nat \<Rightarrow> nat \<Rightarrow> unit kelvin_result" where
  "validate_persistence_policy max_messages compact_to = first_error
     [reject_if (max_messages < 4) ''max_session_history_messages must be >= 4'',
      reject_if (compact_to < 2) ''compact_to_messages must be >= 2'',
      reject_if (max_messages \<le> compact_to) ''compact_to_messages must be smaller than max_session_history_messages'']"

definition validate_state_dir :: "(string \<Rightarrow> path_info) \<Rightarrow> string \<Rightarrow> unit kelvin_result" where
  "validate_state_dir look path = first_error
     [reject_if (path = []) ''state_dir must not be empty'',
      reject_if (pi_exists (look path) \<and> \<not> pi_is_dir (look path)) (''state_dir must be a directory when present: '' @ path)]"

definition ensure_layout :: "runtime_persistence \<Rightarrow> (string \<Rightarrow> string option) \<Rightarrow> unit kelvin_result" where
  "ensure_layout p create_dir_all = (case rp_state_dir p of
     None \<Rightarrow> Inr ()
   | Some root \<Rightarrow> first_error
       [case create_dir_all (root @ ''/sessions'') of Some err \<Rightarrow> Inl (Io (''create sessions dir: '' @ err)) | None \<Rightarrow> Inr (),
        case create_dir_all (root @ ''/runs'') of Some err \<Rightarrow> Inl (Io (''create runs dir: '' @ err)) | None \<Rightarrow> Inr ()])"

definition new_persistence :: "(string \<Rightarrow> path_info) \<Rightarrow> (string \<Rightarrow> string option) \<Rightarrow> string option \<Rightarrow> bool \<Rightarrow> nat \<Rightarrow> nat \<Rightarrow>
    runtime_persistence kelvin_result" where
  "new_persistence look create_dir_all state_dir persist_runs max_messages compact_to =
     bindR (validate_persistence_policy max_messages compact_to) (\<lambda>_.
     bindR (case state_dir of Some dir \<Rightarrow> validate_state_dir look dir | None \<Rightarrow> Inr ()) (\<lambda>_.
     let p = \<lparr>rp_state_dir = state_dir, rp_persist_runs = persist_runs, rp_max_session_history_messages = max_messages,
              rp_compact_to_messages = compact_to\<rparr> in
     bindR (ensure_layout p create_dir_all) (\<lambda>_. Inr p)))"

subsection \<open>Writing\<close>

text \<open>\<open>change_dir\<close> changes a directory of \<^verbatim>\<open>sessions\<close>, which it makes when it is missing.\<close>

fun change_dir :: "string \<Rightarrow> (session_dir \<Rightarrow> session_dir) \<Rightarrow> (string \<times> session_dir) list \<Rightarrow> (string \<times> session_dir) list" where
  "change_dir k f [] = [(k, f \<lparr>se_descriptor = None, se_messages = None, se_corrupt = []\<rparr>)]"
| "change_dir k f ((k', e) # es) = (if k' = k then (k', f e) # es else (k', e) # change_dir k f es)"

text \<open>Writing a file of a session: create the directory, then write a temporary file and rename it over the file.\<close>

definition write_session_file :: "disk_io \<Rightarrow> string \<Rightarrow> (session_dir \<Rightarrow> session_dir) \<Rightarrow> (state_disk, unit) eff" where
  "write_session_file io key f = bindE (liftE (di_create_dir io)) (\<lambda>_.
     bindE (modifyE (\<lambda>d. d\<lparr>dk_sessions := change_dir key id (dk_sessions d)\<rparr>)) (\<lambda>_.
     bindE (liftE (di_write io)) (\<lambda>_.
     modifyE (\<lambda>d. d\<lparr>dk_sessions := change_dir key f (dk_sessions d)\<rparr>))))"

definition persist_session_descriptor :: "state_codec \<Rightarrow> (string \<Rightarrow> string) \<Rightarrow> runtime_persistence \<Rightarrow> disk_io \<Rightarrow>
    session_descriptor \<Rightarrow> (state_disk, unit) eff" where
  "persist_session_descriptor codec key_hex p io session = (case rp_state_dir p of
     None \<Rightarrow> okE ()
   | Some _ \<Rightarrow> write_session_file io (key_hex (sd_session_id session)) (se_descriptor_update (\<lambda>_. Some (sc_descriptor codec session))))"

definition newline :: char where "newline = CHR 0x0A"

definition encode_messages :: "state_codec \<Rightarrow> session_message list \<Rightarrow> string" where
  "encode_messages codec messages = concat (map (\<lambda>m. sc_message codec m @ [newline]) messages)"

definition persist_session_messages :: "state_codec \<Rightarrow> (string \<Rightarrow> string) \<Rightarrow> runtime_persistence \<Rightarrow> disk_io \<Rightarrow>
    string \<Rightarrow> session_message list \<Rightarrow> (state_disk, unit) eff" where
  "persist_session_messages codec key_hex p io session_id messages = (case rp_state_dir p of
     None \<Rightarrow> okE ()
   | Some _ \<Rightarrow> write_session_file io (key_hex session_id) (se_messages_update (\<lambda>_. Some (encode_messages codec messages))))"

text \<open>
  A run record is merged into its file; \<open>read_run\<close> is the outcome of reading the file when there is one. An object is
  kept as the list of its members.
\<close>

definition put_member :: "string \<Rightarrow> json \<Rightarrow> (string \<times> json) list \<Rightarrow> (string \<times> json) list" where
  "put_member k v obj = (if k \<in> fst ` set obj then map (\<lambda>e. if fst e = k then (k, v) else e) obj else obj @ [(k, v)])"

definition merge_run_record :: "string \<Rightarrow> nat \<Rightarrow> json \<Rightarrow> json \<Rightarrow> json" where
  "merge_run_record run_id now current incoming =
     (let base = (case current of JObj ms \<Rightarrow> ms | _ \<Rightarrow> []);
          stamped = put_member ''updated_at_ms'' (JNum (show_nat now)) (put_member ''run_id'' (JStr run_id) base) in
      JObj (case incoming of JObj ms \<Rightarrow> foldl (\<lambda>obj e. put_member (fst e) (snd e) obj) stamped ms | _ \<Rightarrow> stamped))"

definition persist_run_record :: "state_codec \<Rightarrow> (string \<Rightarrow> string) \<Rightarrow> runtime_persistence \<Rightarrow> disk_io \<Rightarrow> unit kelvin_result \<Rightarrow>
    nat \<Rightarrow> string \<Rightarrow> json \<Rightarrow> (state_disk, unit) eff" where
  "persist_run_record codec key_hex p io read_run now run_id incoming =
     (if \<not> rp_persist_runs p then okE ()
      else case rp_state_dir p of
        None \<Rightarrow> okE ()
      | Some _ \<Rightarrow> (\<lambda>d. let file = key_hex run_id @ ''.json'' in
          case (case dk_runs d file of
             Some content \<Rightarrow> (case read_run of Inl e \<Rightarrow> Inl e | Inr _ \<Rightarrow> Inr (opt_or (sc_parse_record codec content) (JObj [])))
           | None \<Rightarrow> Inr (JObj [])) of
            Inl e \<Rightarrow> (Inl e, d)
          | Inr current \<Rightarrow>
              bindE (liftE (di_write io)) (\<lambda>_. modifyE (\<lambda>d. d\<lparr>dk_runs := (dk_runs d)(file \<mapsto>
                sc_record codec (merge_run_record run_id now current incoming))\<rparr>)) d))"

subsection \<open>Loading\<close>

text \<open>
  \<open>lines\<close> are those of \<open>BufRead::lines\<close>: a carriage return before a line feed belongs to the line end, and the empty rest after
  the last line feed is no line.
\<close>

definition strip_return :: "string \<Rightarrow> string" where
  "strip_return l = (if l \<noteq> [] \<and> last l = CHR 0x0D then butlast l else l)"

definition file_lines :: "string \<Rightarrow> string list" where
  "file_lines s = (let ps = split_char newline s in
     map strip_return (butlast ps) @ (if last ps = [] then [] else [last ps]))"

text \<open>What may go wrong with a directory while loading, and the time in the name of a quarantined file.\<close>

record load_faults =
  lf_unreadable_entry :: bool
  lf_read_descriptor :: bool
  lf_open_messages :: bool
  lf_bad_line :: "nat \<Rightarrow> bool"
  lf_rename :: bool
  lf_now :: nat

fun parse_messages :: "state_codec \<Rightarrow> (nat \<Rightarrow> bool) \<Rightarrow> nat \<Rightarrow> string list \<Rightarrow> session_message list option" where
  "parse_messages codec bad n [] = Some []"
| "parse_messages codec bad n (l # ls) =
     (if bad n then None
      else if trim l = [] then parse_messages codec bad (n + 1) ls
      else case sc_parse_message codec l of
        Inl _ \<Rightarrow> None
      | Inr m \<Rightarrow> map_option (\<lambda>ms. m # ms) (parse_messages codec bad (n + 1) ls))"

definition corrupt_name :: "string \<Rightarrow> nat \<Rightarrow> string" where
  "corrupt_name file now = file @ ''.corrupt.'' @ show_nat now"

definition quarantine_descriptor :: "load_faults \<Rightarrow> session_dir \<Rightarrow> session_dir" where
  "quarantine_descriptor lf e = (case se_descriptor e of
     Some content \<Rightarrow> if lf_rename lf then e
       else e\<lparr>se_descriptor := None, se_corrupt := (corrupt_name ''descriptor.json'' (lf_now lf), content) # se_corrupt e\<rparr>
   | None \<Rightarrow> e)"

definition quarantine_messages :: "load_faults \<Rightarrow> session_dir \<Rightarrow> session_dir" where
  "quarantine_messages lf e = (case se_messages e of
     Some content \<Rightarrow> if lf_rename lf then e
       else e\<lparr>se_messages := None, se_corrupt := (corrupt_name ''messages.jsonl'' (lf_now lf), content) # se_corrupt e\<rparr>
   | None \<Rightarrow> e)"

definition read_messages_file :: "state_codec \<Rightarrow> load_faults \<Rightarrow> session_dir \<Rightarrow> session_message list \<times> session_dir" where
  "read_messages_file codec lf e = (case se_messages e of
     None \<Rightarrow> ([], e)
   | Some content \<Rightarrow>
       if lf_open_messages lf then ([], quarantine_messages lf e)
       else case parse_messages codec (lf_bad_line lf) 0 (file_lines content) of
         None \<Rightarrow> ([], quarantine_messages lf e)
       | Some ms \<Rightarrow> (ms, e))"

text \<open>One directory: the session it holds, if it is loaded, and the directory as loading leaves it.\<close>

definition load_session_dir :: "state_codec \<Rightarrow> load_faults \<Rightarrow> session_dir \<Rightarrow> (session_descriptor \<times> session_message list) option \<times> session_dir" where
  "load_session_dir codec lf e = (
     if lf_unreadable_entry lf then (None, e)
     else case se_descriptor e of
       None \<Rightarrow> (None, e)
     | Some content \<Rightarrow>
         if lf_read_descriptor lf then (None, e)
         else case sc_parse_descriptor codec content of
           Inl _ \<Rightarrow> (None, quarantine_descriptor lf e)
         | Inr d \<Rightarrow> (case read_messages_file codec lf e of (ms, e') \<Rightarrow> (Some (d, ms), e')))"

type_synonym session_maps = "(string \<Rightarrow> session_descriptor option) \<times> (string \<Rightarrow> session_message list option)"

fun load_session_dirs :: "state_codec \<Rightarrow> (string \<Rightarrow> load_faults) \<Rightarrow> (string \<times> session_dir) list \<Rightarrow> session_maps \<Rightarrow>
    session_maps \<times> (string \<times> session_dir) list" where
  "load_session_dirs codec faults [] maps = (maps, [])"
| "load_session_dirs codec faults ((key, e) # es) (sessions, messages) =
     (case load_session_dir codec (faults key) e of (loaded, e') \<Rightarrow>
       (case load_session_dirs codec faults es (case loaded of
            None \<Rightarrow> (sessions, messages)
          | Some (d, ms) \<Rightarrow> (sessions(sd_session_id d \<mapsto> d), messages(sd_session_id d \<mapsto> ms))) of
          (maps, es') \<Rightarrow> (maps, (key, e') # es')))"

text \<open>\<open>listing\<close> is the outcome of reading the directory of sessions, \<open>present\<close> whether it is a directory.\<close>

definition load_session_data :: "state_codec \<Rightarrow> (string \<Rightarrow> load_faults) \<Rightarrow> runtime_persistence \<Rightarrow> bool \<Rightarrow> unit kelvin_result \<Rightarrow>
    (state_disk, session_maps) eff" where
  "load_session_data codec faults p present listing = (\<lambda>d.
     if rp_state_dir p = None \<or> \<not> present then (Inr (\<lambda>_. None, \<lambda>_. None), d)
     else case listing of
       Inl e \<Rightarrow> (Inl e, d)
     | Inr _ \<Rightarrow> (case load_session_dirs codec faults (dk_sessions d) (\<lambda>_. None, \<lambda>_. None) of
         (maps, es) \<Rightarrow> (Inr maps, d\<lparr>dk_sessions := es\<rparr>)))"

subsection \<open>The session store\<close>

record session_store =
  ss_sessions :: "string \<Rightarrow> session_descriptor option"
  ss_messages :: "string \<Rightarrow> session_message list option"
  ss_disk :: state_disk

definition load_store :: "state_codec \<Rightarrow> (string \<Rightarrow> load_faults) \<Rightarrow> runtime_persistence \<Rightarrow> bool \<Rightarrow> unit kelvin_result \<Rightarrow>
    state_disk \<Rightarrow> session_store kelvin_result" where
  "load_store codec faults p present listing d = (case load_session_data codec faults p present listing d of
     (Inl e, _) \<Rightarrow> Inl e
   | (Inr (sessions, messages), d') \<Rightarrow> Inr \<lparr>ss_sessions = sessions, ss_messages = messages, ss_disk = d'\<rparr>)"

fun role_name :: "session_role \<Rightarrow> string" where
  "role_name RoleUser = ''user''"
| "role_name RoleAssistant = ''assistant''"
| "role_name RoleTool = ''tool''"
| "role_name RoleSystem = ''system''"

definition role_parts :: "session_message list \<Rightarrow> string list" where
  "role_parts dropped = sort (List.map_filter (\<lambda>r. let n = length (filter (\<lambda>m. sm_role m = r) dropped) in
     if n = 0 then None else Some (role_name r @ '':'' @ show_nat n)) [RoleUser, RoleAssistant, RoleTool, RoleSystem])"

definition compaction_summary :: "runtime_persistence \<Rightarrow> string \<Rightarrow> session_message list \<Rightarrow> session_message" where
  "compaction_summary p session_id dropped = \<lparr>sm_role = RoleSystem,
     sm_content = ''history compacted for session '' @ [CHR 39] @ session_id @ [CHR 39] @ ''; dropped '' @ show_nat (length dropped) @
       '' messages ('' @ join_with '','' (role_parts dropped) @ '')'',
     sm_metadata = JObj [(''compacted'', JBool True), (''dropped_messages'', JNum (show_nat (length dropped))),
       (''policy'', JObj [(''max_session_history_messages'', JNum (show_nat (rp_max_session_history_messages p))),
         (''compact_to_messages'', JNum (show_nat (rp_compact_to_messages p)))])]\<rparr>"

definition compact_messages :: "runtime_persistence \<Rightarrow> string \<Rightarrow> session_message list \<Rightarrow> session_message list" where
  "compact_messages p session_id messages =
     (if length messages \<le> rp_max_session_history_messages p then messages
      else let drop_count = length messages - rp_compact_to_messages p in
        compaction_summary p session_id (take drop_count messages) # drop drop_count messages)"

definition on_disk :: "(state_disk, 'a) eff \<Rightarrow> (session_store, 'a) eff" where
  "on_disk m s = (case m (ss_disk s) of (r, d) \<Rightarrow> (r, s\<lparr>ss_disk := d\<rparr>))"

definition store_upsert_session :: "state_codec \<Rightarrow> (string \<Rightarrow> string) \<Rightarrow> runtime_persistence \<Rightarrow> disk_io \<Rightarrow> session_descriptor \<Rightarrow>
    (session_store, unit) eff" where
  "store_upsert_session codec key_hex p io session =
     bindE (modifyE (\<lambda>s. s\<lparr>ss_sessions := (ss_sessions s)(sd_session_id session \<mapsto> session)\<rparr>)) (\<lambda>_.
     on_disk (persist_session_descriptor codec key_hex p io session))"

definition store_get_session :: "string \<Rightarrow> (session_store, session_descriptor option) eff" where
  "store_get_session session_id = getsE (\<lambda>s. ss_sessions s session_id)"

definition store_history :: "string \<Rightarrow> (session_store, session_message list) eff" where
  "store_history session_id = getsE (\<lambda>s. opt_or (ss_messages s session_id) [])"

text \<open>
  \<open>append_message\<close> in its two parts: the change of the memory under the lock, which gives a snapshot, and the write of the
  snapshot after the lock is released.
\<close>

definition append_in_memory :: "runtime_persistence \<Rightarrow> string \<Rightarrow> session_message \<Rightarrow> session_store \<Rightarrow> session_message list \<times> session_store" where
  "append_in_memory p session_id m s =
     (let snapshot = compact_messages p session_id (opt_or (ss_messages s session_id) [] @ [m]) in
      (snapshot, s\<lparr>ss_messages := (ss_messages s)(session_id \<mapsto> snapshot)\<rparr>))"

definition persist_snapshot :: "state_codec \<Rightarrow> (string \<Rightarrow> string) \<Rightarrow> runtime_persistence \<Rightarrow> disk_io \<Rightarrow> string \<Rightarrow> session_message list \<Rightarrow>
    (session_store, unit) eff" where
  "persist_snapshot codec key_hex p io session_id snapshot =
     on_disk (persist_session_messages codec key_hex p io session_id snapshot)"

definition store_append_message :: "state_codec \<Rightarrow> (string \<Rightarrow> string) \<Rightarrow> runtime_persistence \<Rightarrow> disk_io \<Rightarrow> string \<Rightarrow> session_message \<Rightarrow>
    (session_store, unit) eff" where
  "store_append_message codec key_hex p io session_id m = (\<lambda>s. case append_in_memory p session_id m s of
     (snapshot, s') \<Rightarrow> persist_snapshot codec key_hex p io session_id snapshot s')"

definition store_clear_history :: "state_codec \<Rightarrow> (string \<Rightarrow> string) \<Rightarrow> runtime_persistence \<Rightarrow> disk_io \<Rightarrow> string \<Rightarrow>
    (session_store, unit) eff" where
  "store_clear_history codec key_hex p io session_id =
     bindE (modifyE (\<lambda>s. s\<lparr>ss_messages := (ss_messages s)(session_id := None)\<rparr>)) (\<lambda>_.
     on_disk (persist_session_messages codec key_hex p io session_id []))"


subsection \<open>Compaction\<close>

lemma length_compact:
  assumes "rp_compact_to_messages p < rp_max_session_history_messages p"
  shows "length (compact_messages p sid ms) \<le> rp_max_session_history_messages p"
  using assms by (auto simp: compact_messages_def Let_def)

lemma append_store:
  assumes "store_append_message codec key_hex p io sid m s = (r, s')"
  shows "ss_messages s' = (ss_messages s)(sid \<mapsto> compact_messages p sid (opt_or (ss_messages s sid) [] @ [m]))"
    and "ss_sessions s' = ss_sessions s"
  using assms by (auto simp: store_append_message_def append_in_memory_def persist_snapshot_def on_disk_def Let_def split: prod.splits)

text \<open>
  Appending a message keeps every message until the history is full; then it keeps one summary and the newest
  messages, as many as the policy says, the new one included. The history is never longer than the policy's limit, and no
  other session's history changes, whatever happens on disk.
\<close>

theorem append_message_compacts:
  assumes "validate_persistence_policy (rp_max_session_history_messages p) (rp_compact_to_messages p) = Inr ()"
    and "store_append_message codec key_hex p io sid m s = (r, s')"
  defines "before \<equiv> opt_or (ss_messages s sid) []" and "after \<equiv> opt_or (ss_messages s' sid) []"
  shows "after = (if length before < rp_max_session_history_messages p then before @ [m]
      else compaction_summary p sid (take (length before + 1 - rp_compact_to_messages p) before) #
        drop (length before + 1 - rp_compact_to_messages p) before @ [m]) \<and>
    length after \<le> rp_max_session_history_messages p \<and> (\<forall>other. other \<noteq> sid \<longrightarrow> ss_messages s' other = ss_messages s other)"
proof -
  have pol: "2 \<le> rp_compact_to_messages p" "rp_compact_to_messages p < rp_max_session_history_messages p"
    using assms(1) by (auto simp: validate_persistence_policy_def)
  have "after = compact_messages p sid (before @ [m])"
    using append_store [OF assms(2)] by (simp add: after_def before_def opt_or_def)
  moreover have "compact_messages p sid (before @ [m]) = (if length before < rp_max_session_history_messages p then before @ [m]
      else compaction_summary p sid (take (length before + 1 - rp_compact_to_messages p) before) #
        drop (length before + 1 - rp_compact_to_messages p) before @ [m])"
    using pol by (auto simp: compact_messages_def Let_def)
  ultimately show ?thesis using append_store [OF assms(2)] length_compact [OF pol(2), of sid "before @ [m]"] by simp
qed

subsection \<open>Loading what was written\<close>

lemma map_of_change_dir: "map_of (change_dir k f es) =
    (map_of es)(k \<mapsto> f (case map_of es k of Some e \<Rightarrow> e | None \<Rightarrow> \<lparr>se_descriptor = None, se_messages = None, se_corrupt = []\<rparr>))"
  by (induction es) (auto simp: fun_eq_iff)

lemma keys_change_dir: "fst ` set (change_dir k f es) = insert k (fst ` set es)"
proof (induction es)
  case (Cons e es)
  then show ?case by (cases e) (simp add: insert_commute)
qed simp

lemma distinct_change_dir: "distinct (map fst es) \<Longrightarrow> distinct (map fst (change_dir k f es))"
proof (induction es)
  case (Cons e es)
  then show ?case using keys_change_dir [of k f es] by (cases e) (auto simp: image_set [symmetric] simp del: image_set)
qed simp

text \<open>What is written when the operations succeed.\<close>

lemma write_session_file_ok:
  "write_session_file io_ok key f d = (Inr (), d\<lparr>dk_sessions := change_dir key f (change_dir key id (dk_sessions d))\<rparr>)"
  by (simp add: write_session_file_def io_ok_def bindE_apply)

definition encodes :: "state_codec \<Rightarrow> session_message \<Rightarrow> bool" where
  "encodes codec m \<longleftrightarrow> sc_parse_message codec (sc_message codec m) = Inr m \<and> newline \<notin> set (sc_message codec m) \<and>
     CHR 0x0D \<notin> set (sc_message codec m) \<and> trim (sc_message codec m) \<noteq> []"

lemma split_char_prefix: "d \<notin> set p \<Longrightarrow> split_char d (p @ d # s) = p # split_char d s"
  by (induction p) auto

lemma split_char_lines: "\<forall>l\<in>set ls. newline \<notin> set l \<Longrightarrow>
    split_char newline (concat (map (\<lambda>l. l @ [newline]) ls)) = ls @ [[]]"
  by (induction ls) (simp_all add: split_char_prefix)

lemma file_lines_encoded:
  assumes "\<forall>m\<in>set ms. encodes codec m"
  shows "file_lines (encode_messages codec ms) = map (sc_message codec) ms"
proof -
  have "encode_messages codec ms = concat (map (\<lambda>l. l @ [newline]) (map (sc_message codec) ms))"
    by (simp add: encode_messages_def comp_def)
  moreover have "\<forall>l\<in>set (map (sc_message codec) ms). newline \<notin> set l" using assms by (auto simp: encodes_def)
  ultimately have "split_char newline (encode_messages codec ms) = map (sc_message codec) ms @ [[]]"
    using split_char_lines by metis
  moreover have "map strip_return (map (sc_message codec) ms) = map (sc_message codec) ms"
    using assms by (auto simp: strip_return_def encodes_def dest: last_in_set)
  ultimately show ?thesis by (simp add: file_lines_def)
qed

lemma parse_encoded: "\<forall>m\<in>set ms. encodes codec m \<Longrightarrow> \<forall>n. \<not> bad n \<Longrightarrow>
    parse_messages codec bad n (map (sc_message codec) ms) = Some ms"
  by (induction ms arbitrary: n) (auto simp: encodes_def)


definition no_faults :: "load_faults \<Rightarrow> bool" where
  "no_faults lf \<longleftrightarrow> \<not> lf_unreadable_entry lf \<and> \<not> lf_read_descriptor lf \<and> \<not> lf_open_messages lf \<and> (\<forall>n. \<not> lf_bad_line lf n)"

text \<open>What a directory holds that can be read, and what it is read as.\<close>

definition dir_holds :: "state_codec \<Rightarrow> session_dir \<Rightarrow> (session_descriptor \<times> session_message list) option \<Rightarrow> bool" where
  "dir_holds codec e loaded \<longleftrightarrow> (case loaded of
     None \<Rightarrow> se_descriptor e = None
   | Some (d, ms) \<Rightarrow> se_descriptor e = Some (sc_descriptor codec d) \<and> sc_parse_descriptor codec (sc_descriptor codec d) = Inr d \<and>
       (\<forall>m\<in>set ms. encodes codec m) \<and>
       (case se_messages e of None \<Rightarrow> ms = [] | Some c \<Rightarrow> c = encode_messages codec ms))"

lemma load_dir_holds: "no_faults lf \<Longrightarrow> dir_holds codec e loaded \<Longrightarrow> load_session_dir codec lf e = (loaded, e)"
  by (auto simp: dir_holds_def load_session_dir_def no_faults_def read_messages_file_def file_lines_encoded parse_encoded
      split: option.splits prod.splits)

definition put_loaded :: "(session_descriptor \<times> session_message list) option \<Rightarrow> session_maps \<Rightarrow> session_maps" where
  "put_loaded loaded maps = (case loaded of None \<Rightarrow> maps
   | Some (d, ms) \<Rightarrow> ((fst maps)(sd_session_id d \<mapsto> d), (snd maps)(sd_session_id d \<mapsto> ms)))"

lemma load_dirs_hold:
  assumes "\<forall>k. no_faults (faults k)" and "\<forall>(k, e)\<in>set es. dir_holds codec e (loaded k)"
  shows "load_session_dirs codec faults es maps = (fold (\<lambda>(k, e). put_loaded (loaded k)) es maps, es)"
  using assms(2)
proof (induction es arbitrary: maps)
  case (Cons q es)
  obtain k e where q: "q = (k, e)" by fastforce
  have "load_session_dir codec (faults k) e = (loaded k, e)" using Cons.prems assms(1) q by (intro load_dir_holds) auto
  then show ?case using Cons q by (cases maps) (auto simp: put_loaded_def split: option.splits)
qed simp

lemma fold_put_loaded:
  assumes "inj key_hex" and "distinct (map fst es)"
    and "\<forall>(k, e)\<in>set es. case loaded k of None \<Rightarrow> True | Some (d, ms) \<Rightarrow> k = key_hex (sd_session_id d)"
  shows "fst (fold (\<lambda>(k, e). put_loaded (loaded k)) es maps) sid = (if key_hex sid \<in> fst ` set es then
      (case loaded (key_hex sid) of Some (d, ms) \<Rightarrow> Some d | None \<Rightarrow> fst maps sid) else fst maps sid) \<and>
    snd (fold (\<lambda>(k, e). put_loaded (loaded k)) es maps) sid = (if key_hex sid \<in> fst ` set es then
      (case loaded (key_hex sid) of Some (d, ms) \<Rightarrow> Some ms | None \<Rightarrow> snd maps sid) else snd maps sid)"
  using assms(2,3)
proof (induction es arbitrary: maps)
  case (Cons q es)
  obtain k e where q: "q = (k, e)" by fastforce
  have here: "fst (put_loaded (loaded k) maps) sid =
        (if k = key_hex sid then (case loaded k of Some (d, ms) \<Rightarrow> Some d | None \<Rightarrow> fst maps sid) else fst maps sid) \<and>
      snd (put_loaded (loaded k) maps) sid =
        (if k = key_hex sid then (case loaded k of Some (d, ms) \<Rightarrow> Some ms | None \<Rightarrow> snd maps sid) else snd maps sid)"
  proof (cases "loaded k")
    case (Some p)
    obtain d ms where p: "p = (d, ms)" by fastforce
    have "k = key_hex (sd_session_id d)" using Cons.prems(2) q Some p by auto
    then have "k = key_hex sid \<longleftrightarrow> sd_session_id d = sid" using inj_eq [OF assms(1)] by simp
    then show ?thesis using Some p by (simp add: put_loaded_def)
  qed (auto simp: put_loaded_def)
  have notin: "key_hex sid \<notin> fst ` set es" if "k = key_hex sid" using Cons.prems(1) q that by auto
  note rest = Cons.IH [of "put_loaded (loaded k) maps"]
  have tail: "distinct (map fst es)"
    "\<forall>(k, e)\<in>set es. case loaded k of None \<Rightarrow> True | Some (d, ms) \<Rightarrow> k = key_hex (sd_session_id d)"
    using Cons.prems by auto
  show ?case
  proof (cases "k = key_hex sid")
    case True
    with rest [OF tail] notin here q show ?thesis by simp
  next
    case False
    with rest [OF tail] here q show ?thesis by (auto split: option.splits)
  qed
qed simp

text \<open>The disk holds what the memory holds.\<close>

definition history_of :: "session_store \<Rightarrow> string \<Rightarrow> session_message list" where
  "history_of s sid = opt_or (ss_messages s sid) []"

definition dir_synced :: "state_codec \<Rightarrow> session_descriptor option \<Rightarrow> session_message list \<Rightarrow> session_dir \<Rightarrow> bool" where
  "dir_synced codec d h e \<longleftrightarrow> se_descriptor e = map_option (sc_descriptor codec) d \<and>
     (case se_messages e of None \<Rightarrow> h = [] | Some c \<Rightarrow> c = encode_messages codec h)"

definition synced :: "state_codec \<Rightarrow> (string \<Rightarrow> string) \<Rightarrow> session_store \<Rightarrow> bool" where
  "synced codec key_hex s \<longleftrightarrow> distinct (map fst (dk_sessions (ss_disk s))) \<and>
     (\<forall>sid d. ss_sessions s sid = Some d \<longrightarrow> sd_session_id d = sid) \<and>
     (\<forall>key e. map_of (dk_sessions (ss_disk s)) key = Some e \<longrightarrow>
        (\<exists>sid. key = key_hex sid \<and> dir_synced codec (ss_sessions s sid) (history_of s sid) e)) \<and>
     (\<forall>sid. map_of (dk_sessions (ss_disk s)) (key_hex sid) = None \<longrightarrow> ss_sessions s sid = None \<and> history_of s sid = [])"

datatype session_op = StoreUpsert session_descriptor | StoreAppend string session_message | StoreClear string

fun apply_op :: "state_codec \<Rightarrow> (string \<Rightarrow> string) \<Rightarrow> runtime_persistence \<Rightarrow> session_op \<Rightarrow> session_store \<Rightarrow> session_store" where
  "apply_op codec key_hex p (StoreUpsert d) s = snd (store_upsert_session codec key_hex p io_ok d s)"
| "apply_op codec key_hex p (StoreAppend sid m) s = snd (store_append_message codec key_hex p io_ok sid m s)"
| "apply_op codec key_hex p (StoreClear sid) s = snd (store_clear_history codec key_hex p io_ok sid s)"

definition empty_store :: session_store where
  "empty_store = \<lparr>ss_sessions = \<lambda>_. None, ss_messages = \<lambda>_. None, ss_disk = \<lparr>dk_sessions = [], dk_runs = \<lambda>_. None\<rparr>\<rparr>"

lemma synced_change:
  assumes "inj key_hex" and "synced codec key_hex s"
    and disk: "dk_sessions (ss_disk s') = change_dir (key_hex sid) f (change_dir (key_hex sid) id (dk_sessions (ss_disk s)))"
    and others: "\<And>other. other \<noteq> sid \<Longrightarrow> ss_sessions s' other = ss_sessions s other \<and> history_of s' other = history_of s other"
    and id: "\<And>d. ss_sessions s' sid = Some d \<Longrightarrow> sd_session_id d = sid"
    and dir: "\<And>e. dir_synced codec (ss_sessions s sid) (history_of s sid) e \<Longrightarrow>
      dir_synced codec (ss_sessions s' sid) (history_of s' sid) (f e)"
  shows "synced codec key_hex s'"
proof -
  let ?es = "dk_sessions (ss_disk s)" and ?k = "key_hex sid"
  define e0 where "e0 = (case map_of ?es ?k of Some e \<Rightarrow> e | None \<Rightarrow> \<lparr>se_descriptor = None, se_messages = None, se_corrupt = []\<rparr>)"
  have new: "map_of (dk_sessions (ss_disk s')) = (map_of ?es)(?k \<mapsto> f e0)"
    using disk by (simp add: map_of_change_dir e0_def id_def split: option.splits)
  have old: "dir_synced codec (ss_sessions s sid) (history_of s sid) e0"
  proof (cases "map_of ?es ?k")
    case None
    then show ?thesis using assms(2) by (simp add: e0_def synced_def dir_synced_def)
  next
    case (Some e)
    then obtain sid' where "?k = key_hex sid'" and "dir_synced codec (ss_sessions s sid') (history_of s sid') e"
      using assms(2) unfolding synced_def by blast
    then show ?thesis using Some injD [OF assms(1)] by (auto simp: e0_def)
  qed
  have entry: "\<exists>sid. key = key_hex sid \<and> dir_synced codec (ss_sessions s' sid) (history_of s' sid) e"
    if "map_of (dk_sessions (ss_disk s')) key = Some e" for key e
  proof (cases "key = ?k")
    case True
    then show ?thesis using that new dir [OF old] by (intro exI [of _ sid]) auto
  next
    case False
    then have "map_of ?es key = Some e" using that new by simp
    then obtain sid' where sid': "key = key_hex sid'" "dir_synced codec (ss_sessions s sid') (history_of s sid') e"
      using assms(2) unfolding synced_def by blast
    have "sid' \<noteq> sid" using sid'(1) False by auto
    then show ?thesis using sid' others [of sid'] by (intro exI [of _ sid']) auto
  qed
  have missing: "ss_sessions s' other = None \<and> history_of s' other = []"
    if "map_of (dk_sessions (ss_disk s')) (key_hex other) = None" for other
    using that new assms(2) others [of other] by (cases "other = sid") (auto simp: synced_def split: if_splits)
  have "distinct (map fst (dk_sessions (ss_disk s')))" using assms(2) disk by (simp add: synced_def distinct_change_dir)
  moreover have "sd_session_id d = other" if "ss_sessions s' other = Some d" for other d
    using that assms(2) others [of other] id by (cases "other = sid") (auto simp: synced_def)
  ultimately show ?thesis using entry missing unfolding synced_def by blast
qed

lemma synced_apply:
  assumes "inj key_hex" and "rp_state_dir p = Some root" and "synced codec key_hex s"
  shows "synced codec key_hex (apply_op codec key_hex p op s)"
proof (cases op)
  case (StoreUpsert d)
  show ?thesis by (rule synced_change [OF assms(1,3), where sid = "sd_session_id d" and
        f = "se_descriptor_update (\<lambda>_. Some (sc_descriptor codec d))"])
    (auto simp: StoreUpsert store_upsert_session_def on_disk_def persist_session_descriptor_def assms(2) bindE_apply
      write_session_file_ok history_of_def dir_synced_def)
next
  case (StoreAppend sid m)
  let ?ms = "compact_messages p sid (opt_or (ss_messages s sid) [] @ [m])"
  show ?thesis using assms(3) by (intro synced_change [OF assms(1,3), where sid = sid and
        f = "se_messages_update (\<lambda>_. Some (encode_messages codec ?ms))"])
    (auto simp: StoreAppend store_append_message_def append_in_memory_def persist_snapshot_def on_disk_def Let_def
      persist_session_messages_def assms(2) write_session_file_ok opt_or_def synced_def history_of_def dir_synced_def)
next
  case (StoreClear sid)
  show ?thesis using assms(3) by (intro synced_change [OF assms(1,3), where sid = sid and
        f = "se_messages_update (\<lambda>_. Some (encode_messages codec []))"])
    (auto simp: StoreClear store_clear_history_def on_disk_def persist_session_messages_def assms(2) bindE_apply
      write_session_file_ok opt_or_def synced_def history_of_def dir_synced_def)
qed

lemma synced_ops:
  "inj key_hex \<Longrightarrow> rp_state_dir p = Some root \<Longrightarrow> synced codec key_hex s \<Longrightarrow>
     synced codec key_hex (fold (apply_op codec key_hex p) ops s)"
  by (induction ops arbitrary: s) (auto simp: synced_apply)


text \<open>
  \<^bold>\<open>C31.\<close> After any operations on a fresh store whose writes succeed, loading the state directory gives back all sessions, each
  with its whole history, and nothing is quarantined. The JSON encoding must give back what the store holds and a message
  must be encoded on one line, and no two session ids may have the same digest.
\<close>

theorem reload_restores_sessions:
  assumes "inj key_hex" and "rp_state_dir p = Some root" and "\<forall>key. no_faults (faults key)"
    and "s = fold (apply_op codec key_hex p) ops empty_store"
    and "\<forall>sid d. ss_sessions s sid = Some d \<longrightarrow> sc_parse_descriptor codec (sc_descriptor codec d) = Inr d"
    and "\<forall>sid. \<forall>m\<in>set (opt_or (ss_messages s sid) []). encodes codec m"
  shows "\<exists>s'. load_store codec faults p True (Inr ()) (ss_disk s) = Inr s' \<and> ss_sessions s' = ss_sessions s \<and>
    ss_disk s' = ss_disk s \<and>
    (\<forall>sid. ss_sessions s sid \<noteq> None \<longrightarrow> opt_or (ss_messages s' sid) [] = opt_or (ss_messages s sid) [])"
proof -
  let ?es = "dk_sessions (ss_disk s)"
  have "synced codec key_hex empty_store" by (simp add: synced_def empty_store_def history_of_def opt_or_def)
  then have sy: "synced codec key_hex s" unfolding assms(4) by (rule synced_ops [OF assms(1,2)])
  define loaded where "loaded k = (if k \<in> range key_hex then
    (let sid = inv key_hex k in map_option (\<lambda>d. (d, history_of s sid)) (ss_sessions s sid)) else None)" for k
  have loaded: "loaded (key_hex sid) = map_option (\<lambda>d. (d, history_of s sid)) (ss_sessions s sid)" for sid
    using inv_f_f [OF assms(1)] by (simp add: loaded_def Let_def)
  have dirs: "dir_holds codec e (loaded k) \<and> (case loaded k of None \<Rightarrow> True | Some (d, ms) \<Rightarrow> k = key_hex (sd_session_id d))"
    if ke: "(k, e) \<in> set ?es" for k e
  proof -
    have "map_of ?es k = Some e" using ke sy by (simp add: synced_def)
    then obtain sid where sid: "k = key_hex sid" "dir_synced codec (ss_sessions s sid) (history_of s sid) e"
      using sy unfolding synced_def by blast
    have "sd_session_id d = sid" if "ss_sessions s sid = Some d" for d using sy that by (simp add: synced_def)
    then show ?thesis using sid assms(5,6) loaded [of sid]
      by (cases "ss_sessions s sid") (auto simp: dir_holds_def dir_synced_def history_of_def)
  qed
  let ?maps = "fold (\<lambda>(k, e). put_loaded (loaded k)) ?es (\<lambda>_. None, \<lambda>_. None)"
  have "\<forall>(k, e)\<in>set ?es. dir_holds codec e (loaded k)" using dirs by auto
  then have load: "load_session_dirs codec faults ?es (\<lambda>_. None, \<lambda>_. None) = (?maps, ?es)"
    by (rule load_dirs_hold [OF assms(3)])
  have keyed: "\<forall>(k, e)\<in>set ?es. case loaded k of None \<Rightarrow> True | Some (d, ms) \<Rightarrow> k = key_hex (sd_session_id d)"
    using dirs by auto
  have "distinct (map fst ?es)" using sy by (simp add: synced_def)
  note maps = fold_put_loaded [OF assms(1) this keyed, of "(\<lambda>_. None, \<lambda>_. None)"]
  have absent: "ss_sessions s sid = None" if "key_hex sid \<notin> fst ` set ?es" for sid
  proof -
    have "map_of ?es (key_hex sid) = None" using that by (simp add: map_of_eq_None_iff)
    then show ?thesis using sy by (simp add: synced_def)
  qed
  have sessions: "fst ?maps sid = ss_sessions s sid" for sid
    using maps [of sid] absent [of sid] by (auto simp: loaded split: option.splits)
  have messages: "snd ?maps sid = Some (history_of s sid)" if "ss_sessions s sid \<noteq> None" for sid
    using maps [of sid] absent [of sid] that by (auto simp: loaded split: option.splits)
  have "load_store codec faults p True (Inr ()) (ss_disk s) =
      Inr \<lparr>ss_sessions = fst ?maps, ss_messages = snd ?maps, ss_disk = ss_disk s\<rparr>"
    using load assms(2) by (simp add: load_store_def load_session_data_def split: prod.splits)
  then show ?thesis using sessions messages by (auto simp: fun_eq_iff history_of_def opt_or_def)
qed


subsection \<open>A history that comes back\<close>

lemma persist_snapshot_ok:
  "rp_state_dir p = Some root \<Longrightarrow> persist_snapshot codec key_hex p io_ok sid ms s = (Inr (), s\<lparr>ss_disk := (ss_disk s)\<lparr>dk_sessions :=
     change_dir (key_hex sid) (se_messages_update (\<lambda>_. Some (encode_messages codec ms)))
       (change_dir (key_hex sid) id (dk_sessions (ss_disk s)))\<rparr>\<rparr>)"
  by (simp add: persist_snapshot_def on_disk_def persist_session_messages_def write_session_file_ok)

text \<open>
  The lock is released between the change of the memory and the write. When a history is cleared after a message was
  appended in memory and before its snapshot is written, both calls succeed and the memory has no history, but the file holds
  the whole history again: it is back when the store is loaded the next time.
\<close>

theorem cleared_history_returns:
  assumes "rp_state_dir p = Some root" and "length (opt_or (ss_messages s sid) []) < rp_max_session_history_messages p"
    and "append_in_memory p sid m s = (snapshot, s1)"
  shows "\<exists>s2 s3 e. store_clear_history codec key_hex p io_ok sid s1 = (Inr (), s2) \<and>
    persist_snapshot codec key_hex p io_ok sid snapshot s2 = (Inr (), s3) \<and>
    opt_or (ss_messages s3 sid) [] = [] \<and>
    map_of (dk_sessions (ss_disk s3)) (key_hex sid) = Some e \<and>
    se_messages e = Some (encode_messages codec (opt_or (ss_messages s sid) [] @ [m]))"
proof -
  have snapshot: "snapshot = opt_or (ss_messages s sid) [] @ [m]"
    using assms(2,3) by (auto simp: append_in_memory_def compact_messages_def Let_def)
  obtain s2 where s2: "store_clear_history codec key_hex p io_ok sid s1 = (Inr (), s2)" "ss_messages s2 sid = None"
    using persist_snapshot_ok [OF assms(1), of codec key_hex sid "[]"] assms(1)
    by (simp add: store_clear_history_def bindE_apply persist_snapshot_def on_disk_def persist_session_messages_def write_session_file_ok)
  show ?thesis using s2 persist_snapshot_ok [OF assms(1), of codec key_hex sid snapshot s2] snapshot
    by (simp add: map_of_change_dir opt_or_def)
qed

subsection \<open>A concrete store\<close>

text \<open>Messages with a one-letter content, encoded as that letter, and descriptors encoded as their id.\<close>

definition ex_codec :: state_codec where
  "ex_codec = \<lparr>sc_descriptor = sd_session_id,
     sc_parse_descriptor = (\<lambda>c. Inr \<lparr>sd_session_id = c, sd_session_key = c, sd_workspace_dir = ''w''\<rparr>),
     sc_message = sm_content, sc_parse_message = (\<lambda>l. Inr (user_message l)),
     sc_record = (\<lambda>_. []), sc_parse_record = (\<lambda>_. None)\<rparr>"

definition ex_session :: session_descriptor where
  "ex_session = \<lparr>sd_session_id = ''s'', sd_session_key = ''s'', sd_workspace_dir = ''w''\<rparr>"

definition ex_policy :: runtime_persistence where
  "ex_policy = \<lparr>rp_state_dir = Some ''d'', rp_persist_runs = True, rp_max_session_history_messages = 4, rp_compact_to_messages = 2\<rparr>"

definition ex_fault_free :: load_faults where
  "ex_fault_free = \<lparr>lf_unreadable_entry = False, lf_read_descriptor = False, lf_open_messages = False, lf_bad_line = (\<lambda>_. False),
     lf_rename = False, lf_now = 0\<rparr>"

definition ex_ops :: "session_op list" where
  "ex_ops = [StoreUpsert ex_session, StoreAppend ''s'' (user_message ''a''), StoreAppend ''s'' (user_message ''b'')]"

definition ex_store :: session_store where
  "ex_store = fold (apply_op ex_codec (\<lambda>k. k) ex_policy) ex_ops empty_store"

lemma ex_store_holds:
  "ss_sessions ex_store = [''s'' \<mapsto> ex_session]" "ss_messages ex_store = [''s'' \<mapsto> [user_message ''a'', user_message ''b'']]"
  by (simp_all add: ex_store_def ex_ops_def empty_store_def store_upsert_session_def store_append_message_def append_in_memory_def
      bindE_apply on_disk_def persist_session_descriptor_def persist_snapshot_def persist_session_messages_def ex_policy_def
      write_session_file_ok compact_messages_def opt_or_def ex_session_def Let_def)

theorem reload_restores_sessions_witness:
  "\<exists>s'. load_store ex_codec (\<lambda>_. ex_fault_free) ex_policy True (Inr ()) (ss_disk ex_store) = Inr s' \<and>
    ss_sessions s' = [''s'' \<mapsto> ex_session] \<and> opt_or (ss_messages s' ''s'') [] = [user_message ''a'', user_message ''b'']"
proof -
  have "inj (\<lambda>k :: string. k)" by simp
  moreover have "rp_state_dir ex_policy = Some ''d''" by (simp add: ex_policy_def)
  moreover have "\<forall>key :: string. no_faults ((\<lambda>_. ex_fault_free) key)" by (simp add: no_faults_def ex_fault_free_def)
  moreover have "\<forall>sid d. ss_sessions ex_store sid = Some d \<longrightarrow> sc_parse_descriptor ex_codec (sc_descriptor ex_codec d) = Inr d"
    by (simp add: ex_store_holds ex_codec_def ex_session_def)
  moreover have "\<forall>sid. \<forall>m\<in>set (opt_or (ss_messages ex_store sid) []). encodes ex_codec m"
    by (auto simp: ex_store_holds opt_or_def encodes_def ex_codec_def user_message_def newline_def str_eval split: if_splits)
  ultimately show ?thesis
    using reload_restores_sessions [of "\<lambda>k. k" ex_policy "''d''" "\<lambda>_. ex_fault_free" ex_store ex_codec ex_ops]
    by (auto simp: ex_store_holds ex_store_def [symmetric] opt_or_def)
qed

theorem append_message_compacts_witness:
  "opt_or (ss_messages (snd (store_append_message ex_codec (\<lambda>k. k) ex_policy io_ok ''s'' (user_message ''c'') ex_store)) ''s'') [] =
     [user_message ''a'', user_message ''b'', user_message ''c'']"
  using append_message_compacts [of ex_policy ex_codec "\<lambda>k. k" io_ok "''s''" "user_message ''c''" ex_store]
  by (cases "store_append_message ex_codec (\<lambda>k. k) ex_policy io_ok ''s'' (user_message ''c'') ex_store")
    (simp add: ex_policy_def validate_persistence_policy_def ex_store_holds opt_or_def)

theorem cleared_history_returns_witness:
  "\<exists>s2 s3 e. store_clear_history ex_codec (\<lambda>k. k) ex_policy io_ok ''s'' (snd (append_in_memory ex_policy ''s'' (user_message ''c'') ex_store))
      = (Inr (), s2) \<and>
    persist_snapshot ex_codec (\<lambda>k. k) ex_policy io_ok ''s'' (fst (append_in_memory ex_policy ''s'' (user_message ''c'') ex_store)) s2 =
      (Inr (), s3) \<and>
    opt_or (ss_messages s3 ''s'') [] = [] \<and> map_of (dk_sessions (ss_disk s3)) ''s'' = Some e \<and>
    se_messages e = Some (encode_messages ex_codec [user_message ''a'', user_message ''b'', user_message ''c''])"
  using cleared_history_returns [of ex_policy "''d''" ex_store "''s''" "user_message ''c''" _ _ ex_codec "\<lambda>k. k"]
  by (cases "append_in_memory ex_policy ''s'' (user_message ''c'') ex_store") (simp add: ex_policy_def ex_store_holds opt_or_def)

end
