(* ===== verification/Sdk_Runtime.thy ===== *)
theory Sdk_Runtime
  imports Sdk_Sessions Core_Runtime Channel_Adapter Plugin_Sdk Memory_Controller
begin

section \<open>The SDK runtime (kelvin-sdk/src/lib.rs)\<close>

text \<open>
  The configuration of the runtime and its checks, the choice of the model provider and the failover chain, the tool
  registries, and the calls \<open>submit\<close>, \<open>state\<close>, \<open>wait\<close> and \<open>wait_for_outcome\<close>, which join the core runtime of
  \<^verbatim>\<open>Core_Runtime\<close> with the run records of \<^verbatim>\<open>Sdk_Sessions\<close>. Paths are strings; \<open>look\<close> is what the file system says of a path.
\<close>

subsection \<open>Configuration\<close>

datatype cli_memory_mode = ModeMarkdown | ModeInMemory | ModeFallback

definition parse_memory_mode :: "string \<Rightarrow> cli_memory_mode" where
  "parse_memory_mode input = (let normalized = to_lowercase (trim input) in
     if normalized \<in> {''markdown'', ''md''} then ModeMarkdown
     else if normalized \<in> {''in-memory'', ''in_memory'', ''memory'', ''inmemory''} then ModeInMemory
     else if normalized \<in> {''fallback'', ''with-fallback''} then ModeFallback
     else ModeMarkdown)"

datatype memory_backend_kind = BackendMarkdown | BackendInMemoryVector | BackendInMemoryWithMarkdownFallback

fun as_backend_kind :: "cli_memory_mode \<Rightarrow> memory_backend_kind" where
  "as_backend_kind ModeMarkdown = BackendMarkdown"
| "as_backend_kind ModeInMemory = BackendInMemoryVector"
| "as_backend_kind ModeFallback = BackendInMemoryWithMarkdownFallback"

datatype model_selection =
    SelectEcho
  | SelectInstalled string
  | SelectFailover "string list" nat nat

record sdk_config =
  kc_prompt :: string
  kc_session_id :: string
  kc_workspace_dir :: string
  kc_memory_mode :: cli_memory_mode
  kc_timeout_ms :: nat
  kc_system_prompt :: "string option"
  kc_core_version :: string
  kc_plugin_security_policy :: plugin_security_policy
  kc_load_installed_plugins :: bool
  kc_model_provider :: model_selection
  kc_state_dir :: "string option"
  kc_persist_runs :: bool
  kc_max_session_history_messages :: nat
  kc_compact_to_messages :: nat
  kc_max_tool_iterations :: nat

record sdk_runtime_config =
  kr_workspace_dir :: string
  kr_default_session_id :: string
  kr_memory_mode :: cli_memory_mode
  kr_default_timeout_ms :: nat
  kr_default_system_prompt :: "string option"
  kr_core_version :: string
  kr_plugin_security_policy :: plugin_security_policy
  kr_load_installed_plugins :: bool
  kr_model_provider :: model_selection
  kr_require_cli_plugin_tool :: bool
  kr_emit_stdout_events :: bool
  kr_state_dir :: "string option"
  kr_persist_runs :: bool
  kr_max_session_history_messages :: nat
  kr_compact_to_messages :: nat
  kr_max_tool_iterations :: nat

definition MIN_DEFAULT_TIMEOUT_MS :: nat where "MIN_DEFAULT_TIMEOUT_MS = 100"
definition MAX_DEFAULT_TIMEOUT_MS :: nat where "MAX_DEFAULT_TIMEOUT_MS = 300000"
definition MAX_CONFIG_ID_LEN :: nat where "MAX_CONFIG_ID_LEN = 128"

definition validate_workspace_dir :: "(string \<Rightarrow> path_info) \<Rightarrow> string \<Rightarrow> string \<Rightarrow> unit kelvin_result" where
  "validate_workspace_dir look path label = first_error
     [reject_if (path = []) (label @ '' must not be empty''),
      reject_if (\<not> pi_exists (look path)) (label @ '' does not exist: '' @ path),
      reject_if (\<not> pi_is_dir (look path)) (label @ '' must be a directory: '' @ path)]"

definition validate_timeout_ms :: "nat \<Rightarrow> string \<Rightarrow> unit kelvin_result" where
  "validate_timeout_ms v label = reject_if (\<not> (MIN_DEFAULT_TIMEOUT_MS \<le> v \<and> v \<le> MAX_DEFAULT_TIMEOUT_MS))
     (label @ '' must be between '' @ show_nat MIN_DEFAULT_TIMEOUT_MS @ '' and '' @ show_nat MAX_DEFAULT_TIMEOUT_MS @ '' milliseconds'')"

definition validate_core_version :: "'v semver \<Rightarrow> string \<Rightarrow> unit kelvin_result" where
  "validate_core_version sv v =
     (if trim v = [] then Inl (InvalidInput ''core_version must not be empty'')
      else case sv_parse sv v of
        Inl err \<Rightarrow> Inl (InvalidInput (''core_version must be valid semver: '' @ err))
      | Inr _ \<Rightarrow> Inr ())"

definition validate_config_identifier :: "string \<Rightarrow> string \<Rightarrow> unit kelvin_result" where
  "validate_config_identifier label v = (let trimmed = trim v in first_error
     [reject_if (trimmed = []) (label @ '' must not be empty''),
      reject_if (MAX_CONFIG_ID_LEN < length trimmed) (label @ '' exceeds max length '' @ show_nat MAX_CONFIG_ID_LEN),
      reject_if (list_ex is_control trimmed) (label @ '' must not include control characters'')])"

fun check_chain :: "string set \<Rightarrow> string list \<Rightarrow> unit kelvin_result" where
  "check_chain seen [] = Inr ()"
| "check_chain seen (plugin_id # ids) = bindR (validate_config_identifier ''model provider plugin id'' plugin_id) (\<lambda>_.
     if plugin_id \<in> seen then Inl (InvalidInput (''duplicate model provider plugin id in failover chain: '' @ plugin_id))
     else check_chain (insert plugin_id seen) ids)"

fun validate_model_selection :: "model_selection \<Rightarrow> bool \<Rightarrow> unit kelvin_result" where
  "validate_model_selection SelectEcho installed = Inr ()"
| "validate_model_selection (SelectInstalled plugin_id) installed =
     (if \<not> installed then Inl (InvalidInput ''model provider plugin selection requires load_installed_plugins=true'')
      else validate_config_identifier ''model provider plugin id'' plugin_id)"
| "validate_model_selection (SelectFailover ids retries backoff) installed =
     (if \<not> installed then Inl (InvalidInput ''model provider failover selection requires load_installed_plugins=true'')
      else if ids = [] then Inl (InvalidInput ''model failover requires at least one plugin id'')
      else bindR (check_chain {} ids) (\<lambda>_. reject_if (backoff = 0) ''retry_backoff_ms must be >= 1''))"

definition validate_sdk_config :: "(string \<Rightarrow> path_info) \<Rightarrow> 'v semver \<Rightarrow> sdk_config \<Rightarrow> unit kelvin_result" where
  "validate_sdk_config look sv c = first_error
     [reject_if (trim (kc_prompt c) = []) ''prompt must not be empty'',
      validate_config_identifier ''session id'' (kc_session_id c),
      validate_workspace_dir look (kc_workspace_dir c) ''workspace_dir'',
      validate_timeout_ms (kc_timeout_ms c) ''timeout_ms'',
      validate_core_version sv (kc_core_version c),
      validate_model_selection (kc_model_provider c) (kc_load_installed_plugins c),
      validate_persistence_policy (kc_max_session_history_messages c) (kc_compact_to_messages c),
      (case kc_state_dir c of Some dir \<Rightarrow> validate_state_dir look dir | None \<Rightarrow> Inr ())]"

definition validate_runtime_config :: "(string \<Rightarrow> path_info) \<Rightarrow> 'v semver \<Rightarrow> sdk_runtime_config \<Rightarrow> unit kelvin_result" where
  "validate_runtime_config look sv c = first_error
     [validate_config_identifier ''default session id'' (kr_default_session_id c),
      validate_workspace_dir look (kr_workspace_dir c) ''workspace_dir'',
      validate_timeout_ms (kr_default_timeout_ms c) ''default_timeout_ms'',
      validate_core_version sv (kr_core_version c),
      validate_model_selection (kr_model_provider c) (kr_load_installed_plugins c),
      validate_persistence_policy (kr_max_session_history_messages c) (kr_compact_to_messages c),
      (case kr_state_dir c of Some dir \<Rightarrow> validate_state_dir look dir | None \<Rightarrow> Inr ())]"

definition from_run_config :: "sdk_config \<Rightarrow> sdk_runtime_config" where
  "from_run_config c = \<lparr>kr_workspace_dir = kc_workspace_dir c, kr_default_session_id = kc_session_id c,
     kr_memory_mode = kc_memory_mode c, kr_default_timeout_ms = kc_timeout_ms c, kr_default_system_prompt = kc_system_prompt c,
     kr_core_version = kc_core_version c, kr_plugin_security_policy = kc_plugin_security_policy c,
     kr_load_installed_plugins = kc_load_installed_plugins c, kr_model_provider = kc_model_provider c,
     kr_require_cli_plugin_tool = True, kr_emit_stdout_events = True,
     kr_state_dir = (case kc_state_dir c of Some dir \<Rightarrow> Some dir | None \<Rightarrow> Some (kc_workspace_dir c @ ''/.kelvin/state'')),
     kr_persist_runs = kc_persist_runs c, kr_max_session_history_messages = kc_max_session_history_messages c,
     kr_compact_to_messages = kc_compact_to_messages c, kr_max_tool_iterations = kc_max_tool_iterations c\<rparr>"

text \<open>\<open>cwd\<close> and \<open>version\<close> are the current directory, if it can be read, and the version of the package.\<close>

definition config_for_prompt :: "string option \<Rightarrow> string \<Rightarrow> plugin_security_policy \<Rightarrow> string \<Rightarrow> sdk_config" where
  "config_for_prompt cwd version default_policy prompt = \<lparr>kc_prompt = prompt, kc_session_id = ''main'', kc_workspace_dir = opt_or cwd ''.'',
     kc_memory_mode = ModeMarkdown, kc_timeout_ms = MAX_DEFAULT_TIMEOUT_MS, kc_system_prompt = None, kc_core_version = version,
     kc_plugin_security_policy = default_policy, kc_load_installed_plugins = True, kc_model_provider = SelectEcho,
     kc_state_dir = None, kc_persist_runs = True, kc_max_session_history_messages = 128, kc_compact_to_messages = 64,
     kc_max_tool_iterations = 10\<rparr>"

definition request_for_prompt :: "string \<Rightarrow> sdk_run_request" where
  "request_for_prompt prompt = \<lparr>sr_prompt = prompt, sr_session_id = None, sr_workspace_dir = None, sr_timeout_ms = None,
     sr_system_prompt = None, sr_memory_query = None, sr_run_id = None\<rparr>"

subsection \<open>Tool registries\<close>

text \<open>A registry is the list of its tools by name; the combined one asks its registries in order.\<close>

type_synonym 't tool_table = "(string \<times> 't) list"

definition combined_get :: "'t tool_table list \<Rightarrow> string \<Rightarrow> 't option" where
  "combined_get registries name = (case List.map_filter (\<lambda>r. map_of r name) registries of [] \<Rightarrow> None | t # _ \<Rightarrow> Some t)"

definition combined_names :: "'t tool_table list \<Rightarrow> string list" where
  "combined_names registries = remdups_adj (sort (concat (map (map fst) registries)))"

subsection \<open>Failover\<close>

text \<open>
  A provider infers on the world \<open>'w\<close>; \<open>pause\<close> is the sleep between two attempts. Errors of the kinds Backend, Timeout and
  Io are tried again.
\<close>

record 'w sdk_model =
  fm_provider_name :: string
  fm_model_name :: string
  fm_infer :: "model_input \<Rightarrow> ('w, model_output) eff"

fun is_retryable :: "kelvin_error \<Rightarrow> bool" where
  "is_retryable (Backend _) = True"
| "is_retryable (Timeout _) = True"
| "is_retryable (Io _) = True"
| "is_retryable (InvalidInput _) = False"
| "is_retryable (NotFound _) = False"

record 'w failover_model =
  fo_providers :: "'w sdk_model list"
  fo_chain_label :: string
  fo_max_retries_per_provider :: nat
  fo_retry_backoff_ms :: nat

definition provider_label :: "'w sdk_model \<Rightarrow> string" where
  "provider_label p = fm_provider_name p @ ''/'' @ fm_model_name p"

definition failure_line :: "'w sdk_model \<Rightarrow> nat \<Rightarrow> kelvin_error \<Rightarrow> string" where
  "failure_line p attempt err = provider_label p @ '' attempt '' @ show_nat (min (attempt + 1) 255) @ '': '' @ show_error err"

text \<open>
  The attempts at one provider, \<open>left\<close> of them after this one: an answer, an error that ends the call, or the chain of
  failures so far.
\<close>

fun try_provider :: "(nat \<Rightarrow> 'w \<Rightarrow> 'w) \<Rightarrow> nat \<Rightarrow> model_input \<Rightarrow> 'w sdk_model \<Rightarrow> nat \<Rightarrow> nat \<Rightarrow> string list \<Rightarrow> 'w \<Rightarrow>
    (model_output kelvin_result + string list) \<times> 'w" where
  "try_provider pause backoff input p attempt left failures w = (case fm_infer p input w of
     (Inr out, w') \<Rightarrow> (Inl (Inr out), w')
   | (Inl err, w') \<Rightarrow>
       if \<not> is_retryable err then (Inl (Inl err), w')
       else let failures = failures @ [failure_line p attempt err] in
         (case left of
            0 \<Rightarrow> (Inr failures, w')
          | Suc k \<Rightarrow> try_provider pause backoff input p (attempt + 1) k failures (pause (max backoff 1) w')))"

fun try_chain :: "(nat \<Rightarrow> 'w \<Rightarrow> 'w) \<Rightarrow> nat \<Rightarrow> nat \<Rightarrow> model_input \<Rightarrow> 'w sdk_model list \<Rightarrow> string list \<Rightarrow> ('w, model_output) eff" where
  "try_chain pause retries backoff input [] failures w =
     (Inl (Backend (''all model providers failed: '' @ join_with '' | '' failures)), w)"
| "try_chain pause retries backoff input (p # ps) failures w =
     (case try_provider pause backoff input p 0 retries failures w of
        (Inl r, w') \<Rightarrow> (r, w')
      | (Inr failures', w') \<Rightarrow> try_chain pause retries backoff input ps failures' w')"

definition failover_infer :: "(nat \<Rightarrow> 'w \<Rightarrow> 'w) \<Rightarrow> 'w failover_model \<Rightarrow> model_input \<Rightarrow> ('w, model_output) eff" where
  "failover_infer pause fo input = try_chain pause (fo_max_retries_per_provider fo) (fo_retry_backoff_ms fo) input (fo_providers fo) []"

datatype 'w model_choice = EchoModel | InstalledModel "'w sdk_model" | FailoverModel "'w failover_model"

definition find_installed :: "(string \<times> 'w sdk_model) list \<Rightarrow> bool \<Rightarrow> string \<Rightarrow> 'w sdk_model kelvin_result" where
  "find_installed installed_models installed plugin_id =
     (if \<not> installed then Inl (InvalidInput (''model provider '' @ quoted plugin_id @ '' requested but load_installed_plugins is false''))
      else case map_of installed_models plugin_id of
        Some p \<Rightarrow> Inr p
      | None \<Rightarrow> Inl (NotFound (''configured model provider plugin '' @ quoted plugin_id @
          '' not found; install it and ensure policy allows it'')))"

fun resolve_model_provider :: "model_selection \<Rightarrow> (string \<times> 'w sdk_model) list \<Rightarrow> bool \<Rightarrow> 'w model_choice kelvin_result" where
  "resolve_model_provider SelectEcho models installed = Inr EchoModel"
| "resolve_model_provider (SelectInstalled plugin_id) models installed =
     bindR (find_installed models installed plugin_id) (\<lambda>p. Inr (InstalledModel p))"
| "resolve_model_provider (SelectFailover ids retries backoff) models installed =
     (if ids = [] then Inl (InvalidInput ''model failover requires at least one plugin id'')
      else bindR (traverseR (find_installed models installed) ids) (\<lambda>ps.
        Inr (FailoverModel \<lparr>fo_providers = ps, fo_chain_label = join_with '' -> '' (map provider_label ps),
          fo_max_retries_per_provider = retries, fo_retry_backoff_ms = max backoff 1\<rparr>)))"

subsection \<open>Runs\<close>

record sdk_settings =
  st_default_workspace_dir :: string
  st_default_session_id :: string
  st_default_timeout_ms :: nat
  st_default_system_prompt :: "string option"
  st_cli_plugin_tool :: "(tool_call_input \<Rightarrow> tool_call_result kelvin_result) option"
  st_loaded_installed_plugins :: nat
  st_persistence :: runtime_persistence
  st_codec :: state_codec
  st_key_hex :: "string \<Rightarrow> string"

record sdk_state =
  sk_core :: core_runtime
  sk_disk :: state_disk

text \<open>What a call needs of its surroundings: times, a fresh id, and the outcomes of the file operations.\<close>

record sdk_call_env =
  cx_accepted :: nat
  cx_registered :: nat
  cx_now :: nat
  cx_new_id :: string
  cx_io :: disk_io
  cx_read_run :: "unit kelvin_result"

definition record_run :: "sdk_settings \<Rightarrow> sdk_call_env \<Rightarrow> string \<Rightarrow> json \<Rightarrow> (sdk_state, unit) eff" where
  "record_run st cx run_id v s = (case persist_run_record (st_codec st) (st_key_hex st) (st_persistence st) (cx_io cx)
       (cx_read_run cx) (cx_now cx) run_id v (sk_disk s) of (r, d) \<Rightarrow> (r, s\<lparr>sk_disk := d\<rparr>))"

definition cli_preflight :: "sdk_settings \<Rightarrow> string \<Rightarrow> string \<Rightarrow> string \<Rightarrow> string \<Rightarrow> string option kelvin_result" where
  "cli_preflight st run_id session_id workspace_dir prompt = (case st_cli_plugin_tool st of
     None \<Rightarrow> Inr None
   | Some tool \<Rightarrow> bindR (tool \<lparr>tci_run_id = run_id, tci_session_id = session_id, tci_workspace_dir = workspace_dir,
       tci_arguments = JObj [(''prompt'', JStr prompt)]\<rparr>) (\<lambda>r. Inr (Some (tcr_summary r))))"

definition core_request :: "sdk_settings \<Rightarrow> sdk_call_env \<Rightarrow> sdk_run_request \<Rightarrow> agent_run_request" where
  "core_request st cx r = (let session_id = opt_or (sr_session_id r) (st_default_session_id st) in
     \<lparr>req_run_id = opt_or (sr_run_id r) (''run-'' @ cx_new_id cx), req_session_id = session_id, req_session_key = session_id,
      req_workspace_dir = opt_or (sr_workspace_dir r) (st_default_workspace_dir st), req_prompt = trim (sr_prompt r),
      req_extra_system_prompt = (case sr_system_prompt r of Some p \<Rightarrow> Some p | None \<Rightarrow> st_default_system_prompt st),
      req_timeout_ms = Some (opt_or (sr_timeout_ms r) (st_default_timeout_ms st)), req_memory_query = sr_memory_query r,
      req_max_tool_iterations = None\<rparr>)"

definition sdk_submit :: "sdk_settings \<Rightarrow> sdk_call_env \<Rightarrow> sdk_run_request \<Rightarrow> (sdk_state, sdk_accepted_run) eff" where
  "sdk_submit st cx r s =
     (if trim (sr_prompt r) = [] then (Inl (InvalidInput ''prompt must not be empty''), s)
      else let req = core_request st cx r in
        case cli_preflight st (req_run_id req) (req_session_id req) (req_workspace_dir req) (req_prompt req) of
          Inl e \<Rightarrow> (Inl e, s)
        | Inr preflight \<Rightarrow>
            (case submit (cx_accepted cx) (cx_registered cx) req (sk_core s) of
               Inl e \<Rightarrow> (Inl e, s)
             | Inr (accepted, core) \<Rightarrow>
                 bindE (record_run st cx (ra_run_id accepted)
                   (JObj [(''accepted_at_ms'', JNum (show_nat (ra_accepted_at_ms accepted))), (''session_id'', JStr (req_session_id req)),
                     (''workspace_dir'', JStr (req_workspace_dir req)), (''prompt_length'', JNum (show_nat (utf8_len (req_prompt req))))]))
                   (\<lambda>_. okE \<lparr>sa_run_id = ra_run_id accepted, sa_accepted_at_ms = ra_accepted_at_ms accepted,
                     sa_cli_plugin_preflight = preflight\<rparr>) (s\<lparr>sk_core := core\<rparr>)))"

text \<open>\<open>to_json\<close> is the serialization of a run state, a wait result and a run result; \<open>waited\<close> is what \<open>wait\<close> returned.\<close>

definition sdk_run_state :: "(run_state \<Rightarrow> json) \<Rightarrow> sdk_settings \<Rightarrow> sdk_call_env \<Rightarrow> string \<Rightarrow> (sdk_state, run_state) eff" where
  "sdk_run_state to_json st cx run_id = bindE (\<lambda>s. (run_state_of (runs (sk_core s)) run_id, s)) (\<lambda>state.
     bindE (record_run st cx run_id (JObj [(''last_state'', to_json state)])) (\<lambda>_. okE state))"

definition sdk_wait :: "(agent_wait_result \<Rightarrow> json) \<Rightarrow> sdk_settings \<Rightarrow> sdk_call_env \<Rightarrow> agent_wait_result kelvin_result \<Rightarrow> string \<Rightarrow>
    (sdk_state, agent_wait_result) eff" where
  "sdk_wait to_json st cx waited run_id = bindE (liftE waited) (\<lambda>w.
     bindE (record_run st cx run_id (JObj [(''last_wait'', to_json w)])) (\<lambda>_. okE w))"

fun outcome_json :: "(agent_run_result \<Rightarrow> json) \<Rightarrow> run_outcome \<Rightarrow> json" where
  "outcome_json to_json (OutcomeCompleted res) = JObj [(''status'', JStr ''completed''), (''result'', to_json res)]"
| "outcome_json to_json (OutcomeFailed err) = JObj [(''status'', JStr ''failed''), (''error'', JStr err)]"
| "outcome_json to_json OutcomeTimeout = JObj [(''status'', JStr ''timeout'')]"

definition sdk_wait_for_outcome :: "(agent_run_result \<Rightarrow> json) \<Rightarrow> sdk_settings \<Rightarrow> sdk_call_env \<Rightarrow> agent_wait_result kelvin_result \<Rightarrow>
    string \<Rightarrow> (sdk_state, run_outcome) eff" where
  "sdk_wait_for_outcome to_json st cx waited run_id = bindE (liftE waited) (\<lambda>w.
     bindE (\<lambda>s. (wait_for_outcome w (runs (sk_core s)) run_id, s)) (\<lambda>outcome.
     bindE (record_run st cx run_id (JObj [(''last_outcome'', outcome_json to_json outcome)])) (\<lambda>_. okE outcome)))"

record run_summary =
  ru_run_id :: string
  ru_accepted_at_ms :: nat
  ru_provider :: string
  ru_model :: string
  ru_duration_ms :: nat
  ru_payloads :: "string list"
  ru_loaded_installed_plugins :: nat
  ru_cli_plugin_preflight :: string

definition run_request_of :: "sdk_config \<Rightarrow> nat \<Rightarrow> sdk_run_request" where
  "run_request_of c now = \<lparr>sr_prompt = kc_prompt c, sr_session_id = Some (kc_session_id c), sr_workspace_dir = Some (kc_workspace_dir c),
     sr_timeout_ms = Some (kc_timeout_ms c), sr_system_prompt = kc_system_prompt c, sr_memory_query = None,
     sr_run_id = Some (''run-'' @ show_nat now)\<rparr>"

text \<open>The result of a run: \<open>run_with_sdk\<close> after \<open>submit\<close> and \<open>wait_for_outcome\<close>.\<close>

fun summarize_run :: "nat \<Rightarrow> sdk_accepted_run \<Rightarrow> run_outcome \<Rightarrow> run_summary kelvin_result" where
  "summarize_run loaded a (OutcomeCompleted res) = Inr \<lparr>ru_run_id = sa_run_id a, ru_accepted_at_ms = sa_accepted_at_ms a,
     ru_provider = meta_provider (res_meta res), ru_model = meta_model (res_meta res),
     ru_duration_ms = meta_duration_ms (res_meta res), ru_payloads = map pl_text (res_payloads res),
     ru_loaded_installed_plugins = loaded, ru_cli_plugin_preflight = opt_or (sa_cli_plugin_preflight a) ''not required''\<rparr>"
| "summarize_run loaded a (OutcomeFailed err) = Inl (Backend (''run failed: '' @ err))"
| "summarize_run loaded a OutcomeTimeout = Inl (Timeout ''timed out waiting for run result'')"


subsection \<open>What the failover chain does\<close>

text \<open>
  All the attempts in order, and the failures of a run of them that all fail with an error that is tried again, with the
  world they leave.
\<close>

definition chain_attempts :: "nat \<Rightarrow> 'w sdk_model list \<Rightarrow> ('w sdk_model \<times> nat) list" where
  "chain_attempts retries ps = concat (map (\<lambda>p. map (Pair p) [0..<Suc retries]) ps)"

lemma length_chain_attempts: "length (chain_attempts retries ps) = length ps * (retries + 1)"
  by (induction ps) (simp_all add: chain_attempts_def)

fun failures_of :: "(nat \<Rightarrow> 'w \<Rightarrow> 'w) \<Rightarrow> nat \<Rightarrow> nat \<Rightarrow> model_input \<Rightarrow> ('w sdk_model \<times> nat) list \<Rightarrow> 'w \<Rightarrow> (string list \<times> 'w) option" where
  "failures_of pause retries backoff input [] w = Some ([], w)"
| "failures_of pause retries backoff input ((p, a) # ts) w = (case fm_infer p input w of
     (Inr _, _) \<Rightarrow> None
   | (Inl e, w') \<Rightarrow> if is_retryable e then map_option (\<lambda>q. (failure_line p a e # fst q, snd q))
       (failures_of pause retries backoff input ts (if a < retries then pause (max backoff 1) w' else w')) else None)"

lemma failures_of_append: "failures_of pause retries backoff input (ts @ us) w = (case failures_of pause retries backoff input ts w of
    None \<Rightarrow> None
  | Some (ls, w') \<Rightarrow> map_option (\<lambda>q. (ls @ fst q, snd q)) (failures_of pause retries backoff input us w'))"
proof (induction ts arbitrary: w)
  case Nil
  show ?case by (cases "failures_of pause retries backoff input us w") auto
next
  case (Cons t ts)
  then show ?case
    by (cases t) (auto simp: option.map_comp comp_def split: prod.splits sum.splits option.splits)
qed

lemma failures_of_length: "failures_of pause retries backoff input ts w = Some (ls, w') \<Longrightarrow> length ls = length ts"
  by (induction ts arbitrary: w ls) (auto split: prod.splits sum.splits if_splits)

text \<open>An attempt that ends the call: an answer, or an error that is not tried again.\<close>

definition decides :: "model_output kelvin_result \<Rightarrow> bool" where
  "decides r \<longleftrightarrow> (case r of Inr _ \<Rightarrow> True | Inl e \<Rightarrow> \<not> is_retryable e)"

definition decided_in :: "(nat \<Rightarrow> 'w \<Rightarrow> 'w) \<Rightarrow> nat \<Rightarrow> nat \<Rightarrow> model_input \<Rightarrow> ('w sdk_model \<times> nat) list \<Rightarrow> 'w \<Rightarrow>
    model_output kelvin_result \<Rightarrow> 'w \<Rightarrow> bool" where
  "decided_in pause retries backoff input ts w r w' \<longleftrightarrow> (\<exists>pre p a post ls w1. ts = pre @ (p, a) # post \<and>
     failures_of pause retries backoff input pre w = Some (ls, w1) \<and> fm_infer p input w1 = (r, w') \<and> decides r)"

lemma decided_in_append:
  "decided_in pause retries backoff input ts w r w' \<Longrightarrow> decided_in pause retries backoff input (ts @ us) w r w'"
  unfolding decided_in_def by (metis append.assoc append_Cons)

lemma decided_in_later:
  assumes "failures_of pause retries backoff input ts w = Some (ls, w1)"
    and "decided_in pause retries backoff input us w1 r w'"
  shows "decided_in pause retries backoff input (ts @ us) w r w'"
proof -
  obtain pre p a post ls' w2 where us: "us = pre @ (p, a) # post" "failures_of pause retries backoff input pre w1 = Some (ls', w2)"
    "fm_infer p input w2 = (r, w')" "decides r"
    using assms(2) by (auto simp: decided_in_def)
  have "failures_of pause retries backoff input (ts @ pre) w = Some (ls @ ls', w2)"
    using assms(1) us(2) by (simp add: failures_of_append)
  then show ?thesis using us unfolding decided_in_def by (intro exI [of _ "ts @ pre"]) auto
qed

lemma try_provider_outcome:
  assumes "try_provider pause backoff input p a left failures w = (x, w')" and "a + left = retries"
  shows "case x of
      Inl r \<Rightarrow> decided_in pause retries backoff input (map (Pair p) [a..<Suc retries]) w r w'
    | Inr failures' \<Rightarrow> \<exists>ls. failures_of pause retries backoff input (map (Pair p) [a..<Suc retries]) w = Some (ls, w') \<and> failures' = failures @ ls"
  using assms
proof (induction left arbitrary: a failures w)
  case 0
  have range: "[a..<Suc retries] = [a]" using 0 by simp
  obtain r w1 where infer: "fm_infer p input w = (r, w1)" by fastforce
  show ?case
  proof (cases "decides r")
    case True
    then have "x = Inl r" "w' = w1" using 0(1) infer by (auto simp: decides_def split: sum.splits)
    then show ?thesis using infer True unfolding range decided_in_def by (auto intro!: exI [of _ "[]"])
  next
    case False
    then obtain e where "r = Inl e" "is_retryable e" by (cases r) (auto simp: decides_def)
    then show ?thesis using 0 infer unfolding range by (auto simp: Let_def)
  qed
next
  case (Suc k)
  have range: "[a..<Suc retries] = a # [a + 1..<Suc retries]" using Suc.prems(2) by (simp add: upt_rec)
  obtain r w1 where infer: "fm_infer p input w = (r, w1)" by fastforce
  show ?case
  proof (cases "decides r")
    case True
    then have "x = Inl r" "w' = w1" using Suc.prems(1) infer by (auto simp: decides_def split: sum.splits)
    then show ?thesis using infer True unfolding range decided_in_def by (auto intro!: exI [of _ "[]"])
  next
    case False
    then obtain e where e: "r = Inl e" "is_retryable e" by (cases r) (auto simp: decides_def)
    let ?w2 = "pause (max backoff 1) w1"
    have rest: "try_provider pause backoff input p (a + 1) k (failures @ [failure_line p a e]) ?w2 = (x, w')"
      using Suc.prems(1) infer e by (simp add: Let_def)
    have one: "failures_of pause retries backoff input [(p, a)] w = Some ([failure_line p a e], ?w2)"
      using infer e Suc.prems(2) by simp
    have split: "map (Pair p) [a..<Suc retries] = [(p, a)] @ map (Pair p) [a + 1..<Suc retries]"
      by (simp add: range del: upt_Suc)
    show ?thesis
    proof (cases x)
      case (Inl r')
      then have "decided_in pause retries backoff input (map (Pair p) [a + 1..<Suc retries]) ?w2 r' w'"
        using Suc.IH [OF rest] Suc.prems(2) by simp
      then show ?thesis unfolding split Inl by (simp add: decided_in_later [OF one] del: append.simps)
    next
      case (Inr failures')
      then obtain ls where "failures_of pause retries backoff input (map (Pair p) [a + 1..<Suc retries]) ?w2 = Some (ls, w')"
        "failures' = (failures @ [failure_line p a e]) @ ls"
        using Suc.IH [OF rest] Suc.prems(2) by auto
      then show ?thesis using one unfolding split Inr by (auto simp: failures_of_append simp del: append.simps)
    qed
  qed
qed

lemma try_chain_outcome:
  assumes "try_chain pause retries backoff input ps failures w = (r, w')"
  shows "decided_in pause retries backoff input (chain_attempts retries ps) w r w' \<or>
    (\<exists>ls. failures_of pause retries backoff input (chain_attempts retries ps) w = Some (ls, w') \<and>
      r = Inl (Backend (''all model providers failed: '' @ join_with '' | '' (failures @ ls))))"
  using assms
proof (induction ps arbitrary: failures w)
  case Nil
  then show ?case by (simp add: chain_attempts_def)
next
  case (Cons p ps)
  have split: "chain_attempts retries (p # ps) = map (Pair p) [0..<Suc retries] @ chain_attempts retries ps"
    by (simp add: chain_attempts_def)
  obtain x w1 where tp: "try_provider pause backoff input p 0 retries failures w = (x, w1)" by fastforce
  note outcome = try_provider_outcome [OF tp add_0]
  show ?case
  proof (cases x)
    case (Inl r')
    then show ?thesis using Cons.prems tp outcome unfolding split by (auto intro: decided_in_append simp del: upt_Suc)
  next
    case (Inr failures')
    then obtain ls where ls: "failures_of pause retries backoff input (map (Pair p) [0..<Suc retries]) w = Some (ls, w1)"
      "failures' = failures @ ls" using outcome by (auto simp del: upt_Suc)
    have "try_chain pause retries backoff input ps failures' w1 = (r, w')" using Cons.prems tp Inr by simp
    from Cons.IH [OF this] show ?thesis using ls unfolding split
      by (auto simp: failures_of_append intro: decided_in_later simp del: upt_Suc)
  qed
qed


text \<open>
  \<^bold>\<open>C32.\<close> The failover chain answers with the first attempt, in the order of the providers and at each the first and then its
  retries, that answers or fails with an error that is not tried again; every attempt before it failed with one that is.
  When there is no such attempt it fails with the lines of all of them, \<open>retries + 1\<close> for every provider.
\<close>

theorem failover_exact:
  assumes "failover_infer pause fo input w = (r, w')"
  defines "tries \<equiv> chain_attempts (fo_max_retries_per_provider fo) (fo_providers fo)"
  shows "decided_in pause (fo_max_retries_per_provider fo) (fo_retry_backoff_ms fo) input tries w r w' \<or>
    (\<exists>ls. failures_of pause (fo_max_retries_per_provider fo) (fo_retry_backoff_ms fo) input tries w = Some (ls, w') \<and>
      length ls = length (fo_providers fo) * (fo_max_retries_per_provider fo + 1) \<and>
      r = Inl (Backend (''all model providers failed: '' @ join_with '' | '' ls)))"
proof -
  have "length ls = length (fo_providers fo) * (fo_max_retries_per_provider fo + 1)"
    if "failures_of pause (fo_max_retries_per_provider fo) (fo_retry_backoff_ms fo) input tries w = Some (ls, w2)" for ls w2
    using failures_of_length [OF that] unfolding tries_def length_chain_attempts .
  then show ?thesis using try_chain_outcome [OF assms(1) [unfolded failover_infer_def]] unfolding tries_def append_Nil by blast
qed

text \<open>A chain of two providers, the first of which is down; the world counts the calls.\<close>

definition ex_down :: "nat sdk_model" where
  "ex_down = \<lparr>fm_provider_name = ''a'', fm_model_name = ''m'', fm_infer = (\<lambda>_ n. (Inl (Timeout ''t''), n + 1))\<rparr>"

definition ex_up :: "nat sdk_model" where
  "ex_up = \<lparr>fm_provider_name = ''b'', fm_model_name = ''m'', fm_infer = (\<lambda>_ n.
     (Inr \<lparr>mo_assistant_text = ''hi'', mo_stop_reason = None, mo_tool_calls = [], mo_usage = None\<rparr>, n + 1))\<rparr>"

definition ex_failover :: "nat failover_model" where
  "ex_failover = \<lparr>fo_providers = [ex_down, ex_up], fo_chain_label = ''a/m -> b/m'', fo_max_retries_per_provider = 1, fo_retry_backoff_ms = 5\<rparr>"

theorem failover_exact_witness:
  "\<forall>input. \<exists>r. failover_infer (\<lambda>_ n. n) ex_failover input 0 = (r, 3) \<and>
     decided_in (\<lambda>_ n. n) 1 5 input (chain_attempts 1 [ex_down, ex_up]) 0 r 3"
proof
  fix input
  have run: "failover_infer (\<lambda>_ n. n) ex_failover input 0 =
      (Inr \<lparr>mo_assistant_text = ''hi'', mo_stop_reason = None, mo_tool_calls = [], mo_usage = None\<rparr>, 3)"
    by (simp add: failover_infer_def ex_failover_def ex_down_def ex_up_def Let_def numeral_eq_Suc)
  from failover_exact [OF this] run
  show "\<exists>r. failover_infer (\<lambda>_ n. n) ex_failover input 0 = (r, 3) \<and>
     decided_in (\<lambda>_ n. n) 1 5 input (chain_attempts 1 [ex_down, ex_up]) 0 r 3"
    by (simp add: ex_failover_def)
qed

subsection \<open>Submitting a run\<close>

text \<open>
  When the record of a run cannot be written, \<open>submit\<close> fails although the run was started: its task is spawned, its id is
  taken, and a second submission with the id is refused by the core, so the caller can neither know of the run nor try again.
\<close>

theorem submit_fails_run_started:
  assumes "trim (sr_prompt r) \<noteq> []" and "st_cli_plugin_tool st = None"
    and "runs (sk_core s) (req_run_id (core_request st cx r)) = None"
    and "rp_persist_runs (st_persistence st)" and "rp_state_dir (st_persistence st) = Some root"
    and "dk_runs (sk_disk s) (st_key_hex st (req_run_id (core_request st cx r)) @ ''.json'') = None"
    and "di_write (cx_io cx) = Inl e"
  shows "\<exists>s'. sdk_submit st cx r s = (Inl e, s') \<and>
    tasks (sk_core s') (req_run_id (core_request st cx r)) = Some \<lparr>t_req = core_request st cx r, t_pc = TaskSpawned\<rparr> \<and>
    (\<exists>why. submit now now2 (core_request st cx r) (sk_core s') = Inl (InvalidInput why))"
  using assms by (simp add: sdk_submit_def Let_def cli_preflight_def submit_def register_run_def record_run_def persist_run_record_def
      bindE_apply)

definition ex_settings :: sdk_settings where
  "ex_settings = \<lparr>st_default_workspace_dir = ''w'', st_default_session_id = ''main'', st_default_timeout_ms = 1000,
     st_default_system_prompt = None, st_cli_plugin_tool = None, st_loaded_installed_plugins = 0, st_persistence = ex_policy,
     st_codec = ex_codec, st_key_hex = (\<lambda>k. k)\<rparr>"

definition ex_call :: sdk_call_env where
  "ex_call = \<lparr>cx_accepted = 1, cx_registered = 1, cx_now = 1, cx_new_id = ''x'',
     cx_io = \<lparr>di_create_dir = Inr (), di_write = Inl (Io ''disk full'')\<rparr>, cx_read_run = Inr ()\<rparr>"

definition ex_sdk :: sdk_state where
  "ex_sdk = \<lparr>sk_core = core_new False, sk_disk = \<lparr>dk_sessions = [], dk_runs = (\<lambda>_. None)\<rparr>\<rparr>"

theorem submit_fails_run_started_witness:
  "\<exists>s' t. sdk_submit ex_settings ex_call (request_for_prompt ''hi'') ex_sdk = (Inl (Io ''disk full''), s') \<and>
     tasks (sk_core s') ''run-x'' = Some t \<and> t_pc t = TaskSpawned"
proof -
  have id: "req_run_id (core_request ex_settings ex_call (request_for_prompt ''hi'')) = ''run-x''"
    by (simp add: core_request_def request_for_prompt_def ex_call_def opt_or_def Let_def)
  show ?thesis using submit_fails_run_started [of "request_for_prompt ''hi''" ex_settings ex_sdk ex_call "''d''" "Io ''disk full''" 1 1]
    unfolding id
    by (auto simp: request_for_prompt_def ex_settings_def ex_call_def ex_sdk_def ex_policy_def core_new_def str_eval)
qed

end
