(* ===== verification/Memory_Providers.thy ===== *)
theory Memory_Providers
  imports Sdk_Runtime Plugin_Package "HOL-Library.Product_Lexorder"
begin

section \<open>The in-process memory managers (kelvin-memory)\<close>

text \<open>
  The three managers of the memory of a workspace: \<open>MarkdownMemoryManager\<close> searches the files at each call,
  \<open>InMemoryVectorMemoryManager\<close> the documents it holds, and \<open>FallbackMemoryManager\<close> goes from a first manager to a
  second. They implement one trait, here the record \<open>memory_manager\<close> over the state of the manager.

  What is in the workspace is an argument: which paths are files and what reading them gives, and the entries that
  \<open>walkdir\<close> yields. The score is the quotient of two counts as an \<^verbatim>\<open>f32\<close>; its arithmetic is a parameter. A read that
  panics is a \<open>None\<close> in the place of the result.
\<close>

subsection \<open>The trait\<close>

record memory_fallback_status =
  mf_from :: string
  mf_reason :: "string option"

record memory_provider_status =
  mp_backend :: string
  mp_provider :: string
  mp_model :: "string option"
  mp_requested_provider :: "string option"
  mp_files :: "nat option"
  mp_chunks :: "nat option"
  mp_dirty :: bool
  mp_fallback :: "memory_fallback_status option"
  mp_custom :: json

record memory_read_params =
  mr_rel_path :: string
  mr_from :: "nat option"
  mr_lines :: "nat option"

record memory_read_result =
  mx_text :: string
  mx_path :: string

record memory_embedding_probe_result =
  me_ok :: bool
  me_error :: "string option"

record ('s, 'f) memory_manager =
  mg_search :: "string \<Rightarrow> memory_search_options \<Rightarrow> ('s, 'f memory_search_result list) eff"
  mg_read_file :: "memory_read_params \<Rightarrow> ('s, memory_read_result option) eff"
  mg_status :: "'s \<Rightarrow> memory_provider_status"
  mg_sync :: "('s, unit) eff"
  mg_probe_embedding :: "('s, memory_embedding_probe_result) eff"
  mg_probe_vector :: "('s, bool) eff"

record 'f score_ops =
  so_ratio :: "nat \<Rightarrow> nat \<Rightarrow> 'f"
  so_zero :: 'f
  so_below_milli :: "'f \<Rightarrow> nat \<Rightarrow> bool"

subsection \<open>Tokens, snippets and slices\<close>

definition SEARCH_SNIPPET_CONTEXT_LINE_DELTA :: nat where "SEARCH_SNIPPET_CONTEXT_LINE_DELTA = 1"

definition trim_punctuation :: "string \<Rightarrow> string" where
  "trim_punctuation s = rev (dropWhile (\<lambda>c. \<not> is_ascii_alphanumeric c) (rev (dropWhile (\<lambda>c. \<not> is_ascii_alphanumeric c) s)))"

definition tokenize :: "string \<Rightarrow> string list" where
  "tokenize input = filter (\<lambda>t. t \<noteq> []) (map (\<lambda>t. to_lowercase (trim_punctuation t)) (split_whitespace input))"

definition token_set :: "string \<Rightarrow> string list" where
  "token_set input = remdups (tokenize input)"

definition score_line :: "string \<Rightarrow> string list \<Rightarrow> nat" where
  "score_line line tokens = length (filter (\<lambda>t. contains_str t (to_lowercase line)) tokens)"

definition compute_similarity :: "'f score_ops \<Rightarrow> string list \<Rightarrow> string list \<Rightarrow> 'f" where
  "compute_similarity ops query_tokens text_tokens =
     (if query_tokens = [] \<or> text_tokens = [] then so_zero ops
      else so_ratio ops (length (filter (\<lambda>t. t \<in> set text_tokens) query_tokens)) (max (length query_tokens) 1))"

text \<open>The line before and the line after a hit go with it; the lines are counted from 1.\<close>

definition snippet_at :: "string list \<Rightarrow> nat \<Rightarrow> nat \<times> nat \<times> string" where
  "snippet_at lines idx =
     (let start = idx - SEARCH_SNIPPET_CONTEXT_LINE_DELTA;
          stop = min (idx + SEARCH_SNIPPET_CONTEXT_LINE_DELTA) (length lines - SEARCH_SNIPPET_CONTEXT_LINE_DELTA) in
      (start + 1, stop + 1, join_with [newline] (take (stop + 1 - start) (drop start lines))))"

fun first_index :: "('a \<Rightarrow> bool) \<Rightarrow> 'a list \<Rightarrow> nat option" where
  "first_index P [] = None"
| "first_index P (x # xs) = (if P x then Some 0 else map_option Suc (first_index P xs))"

definition document_snippet :: "string \<Rightarrow> string list \<Rightarrow> nat \<times> nat \<times> string" where
  "document_snippet text query_tokens = (let lines = file_lines text in
     if lines = [] then (1, 1, [])
     else snippet_at lines (opt_or (first_index (\<lambda>l. list_ex (\<lambda>t. contains_str t (to_lowercase l)) query_tokens) lines) 0))"

text \<open>
  The slice of a read. \<open>start + count\<close> is an addition of \<^verbatim>\<open>usize\<close>: where it overflows a debug build panics, and a release
  build slices from \<open>start\<close> to something smaller, which panics as well.
\<close>

definition slice_lines :: "string \<Rightarrow> nat option \<Rightarrow> nat option \<Rightarrow> string option" where
  "slice_lines text from_line count_lines =
     (let raw_lines = file_lines text; start = opt_or from_line 1 - SEARCH_SNIPPET_CONTEXT_LINE_DELTA;
          count = opt_or count_lines (length raw_lines - start) in
      if raw_lines = [] \<or> length raw_lines \<le> start then Some []
      else if u64_max < start + count then None
      else Some (join_with [newline] (take (min (start + count) (length raw_lines) - start) (drop start raw_lines))))"

subsection \<open>Ranking\<close>

definition result_before :: "('f::linorder) memory_search_result \<Rightarrow> 'f memory_search_result \<Rightarrow> bool" where
  "result_before a b \<longleftrightarrow> ms_score b < ms_score a \<or> (ms_score a = ms_score b \<and>
     (ms_path a < ms_path b \<or> (ms_path a = ms_path b \<and>
       (ms_start_line a < ms_start_line b \<or> (ms_start_line a = ms_start_line b \<and> ms_end_line a < ms_end_line b)))))"

definition rank_results :: "memory_search_options \<Rightarrow> ('f::linorder) memory_search_result list \<Rightarrow> 'f memory_search_result list" where
  "rank_results opts results = take (max (mso_max_results opts) 1) (foldr (insert_by result_before) results [])"

definition hit_of :: "string \<Rightarrow> 'f \<Rightarrow> nat \<times> nat \<times> string \<Rightarrow> memory_source \<Rightarrow> 'f memory_search_result" where
  "hit_of path score snip src = (case snip of (start_line, end_line, snippet) \<Rightarrow>
     \<lparr>ms_path = path, ms_start_line = start_line, ms_end_line = end_line, ms_score = score, ms_snippet = snippet,
      ms_source = src, ms_citation = Some (path @ ''#'' @ show_nat start_line)\<rparr>)"

subsection \<open>The workspace\<close>

text \<open>
  \<open>mw_read path\<close> is \<open>None\<close> when the path, relative to the workspace, is no file, else what reading it as text gives;
  \<open>mw_walk\<close> lists the entries under \<open>memory\<close>, each with whether it is a file, if that is a directory.
\<close>

record memory_workspace =
  mw_read :: "string \<Rightarrow> string kelvin_result option"
  mw_walk :: "(string \<times> bool) list"

definition MEMORY_FILE :: string where "MEMORY_FILE = ''MEMORY.md''"

text \<open>\<open>Path::extension\<close>: what follows the last dot of the file name, unless nothing precedes it.\<close>

definition path_extension :: "string \<Rightarrow> string option" where
  "path_extension p = (let name = last (split_char (CHR ''/'') p); parts = split_char (CHR ''.'') name in
     if length parts < 2 \<or> butlast parts = [[]] then None else Some (last parts))"

definition is_markdown :: "string \<Rightarrow> bool" where
  "is_markdown p = (case path_extension p of Some e \<Rightarrow> to_ascii_lowercase e = ''md'' | None \<Rightarrow> False)"

definition daily_files :: "memory_workspace \<Rightarrow> string list" where
  "daily_files ws = map fst (filter (\<lambda>e. snd e \<and> is_markdown (fst e)) (mw_walk ws))"

definition collect_memory_files :: "memory_workspace \<Rightarrow> string list" where
  "collect_memory_files ws = (if mw_read ws MEMORY_FILE \<noteq> None then [MEMORY_FILE] else []) @ daily_files ws"

text \<open>The texts that can be read, each with its relative path.\<close>

definition readable_texts :: "memory_workspace \<Rightarrow> string list \<Rightarrow> (string \<times> string) list" where
  "readable_texts ws paths = List.map_filter (\<lambda>p. case mw_read ws p of Some (Inr text) \<Rightarrow> Some (backslashed p, text) | _ \<Rightarrow> None) paths"

subsection \<open>The markdown manager\<close>

definition new_markdown :: memory_provider_status where
  "new_markdown = \<lparr>mp_backend = ''builtin'', mp_provider = ''markdown'', mp_model = None,
     mp_requested_provider = Some ''markdown'', mp_files = Some 0, mp_chunks = Some 0, mp_dirty = True, mp_fallback = None,
     mp_custom = JObj [(''source_of_truth'', JStr ''workspace_markdown'')]\<rparr>"

definition line_hits ::
    "'f score_ops \<Rightarrow> memory_search_options \<Rightarrow> string list \<Rightarrow> string \<times> string \<Rightarrow> 'f memory_search_result list" where
  "line_hits ops opts tokens e = (let lines = file_lines (snd e) in
     List.map_filter (\<lambda>idx. let matched = score_line (lines ! idx) tokens; score = so_ratio ops matched (length tokens) in
       if matched = 0 \<or> so_below_milli ops score (mso_min_score_milli opts) then None
       else Some (hit_of (fst e) score (snippet_at lines idx) SourceMemory)) [0..<length lines])"

definition markdown_search ::
    "('f::linorder) score_ops \<Rightarrow> memory_workspace \<Rightarrow> string \<Rightarrow> memory_search_options \<Rightarrow>
     (memory_provider_status, 'f memory_search_result list) eff" where
  "markdown_search ops ws query opts =
     (let tokens = tokenize (trim query) in
      if trim query = [] \<or> tokens = [] then okE []
      else let texts = readable_texts ws (collect_memory_files ws) in
        seqE (modifyE (\<lambda>st. st\<lparr>mp_files := Some (length texts),
          mp_chunks := Some (sum_list (map (\<lambda>e. length (file_lines (snd e))) texts)), mp_dirty := False\<rparr>))
        (okE (rank_results opts (concat (map (line_hits ops opts tokens) texts)))))"

definition validate_rel_path :: "string \<Rightarrow> unit kelvin_result" where
  "validate_rel_path rel_path =
     (if rel_path = [] then Inl (InvalidInput ''memory_get path must not be empty'')
      else if contains_str ''..'' rel_path then Inl (InvalidInput ''memory_get path traversal is not allowed'')
      else let normalized = backslashed rel_path in
        if normalized \<noteq> MEMORY_FILE \<and> \<not> starts_with ''memory/'' normalized then
          Inl (InvalidInput (''memory_get path is out of scope: '' @ normalized))
        else if starts_with ''/'' normalized then Inl (InvalidInput ''memory_get absolute paths are not allowed'')
        else Inr ())"

definition markdown_read :: "memory_workspace \<Rightarrow> memory_read_params \<Rightarrow> ('s, memory_read_result option) eff" where
  "markdown_read ws p = (let rel = backslashed (trim (mr_rel_path p)) in
     bindE (liftE (validate_rel_path rel)) (\<lambda>_.
     case mw_read ws rel of
       None \<Rightarrow> okE (Some \<lparr>mx_text = [], mx_path = rel\<rparr>)
     | Some r \<Rightarrow> bindE (liftE r) (\<lambda>text.
         okE (map_option (\<lambda>sliced. \<lparr>mx_text = sliced, mx_path = rel\<rparr>) (slice_lines text (mr_from p) (mr_lines p))))))"

definition markdown_manager :: "('f::linorder) score_ops \<Rightarrow> memory_workspace \<Rightarrow> (memory_provider_status, 'f) memory_manager" where
  "markdown_manager ops ws = \<lparr>mg_search = markdown_search ops ws, mg_read_file = markdown_read ws, mg_status = (\<lambda>st. st),
     mg_sync = modifyE (mp_dirty_update (\<lambda>_. False)),
     mg_probe_embedding = okE \<lparr>me_ok = False, me_error = Some ''markdown backend has no embedding provider''\<rparr>,
     mg_probe_vector = okE False\<rparr>"

subsection \<open>The in-memory manager\<close>

record in_memory_document =
  md_path :: string
  md_text :: string
  md_source :: memory_source

record in_memory_state =
  im_docs :: "in_memory_document list"
  im_status :: memory_provider_status

definition count_chunks :: "in_memory_document list \<Rightarrow> nat" where
  "count_chunks docs = sum_list (map (\<lambda>d. length (file_lines (md_text d))) docs)"

definition new_in_memory :: "in_memory_document list \<Rightarrow> in_memory_state" where
  "new_in_memory docs = \<lparr>im_docs = docs, im_status =
     \<lparr>mp_backend = ''builtin'', mp_provider = ''in_memory_vector'', mp_model = Some ''token-overlap-v1'',
      mp_requested_provider = Some ''in_memory_vector'', mp_files = Some (length docs), mp_chunks = Some (count_chunks docs),
      mp_dirty = False, mp_fallback = None, mp_custom = JObj [(''index'', JStr ''volatile'')]\<rparr>\<rparr>"

definition from_workspace :: "memory_workspace \<Rightarrow> in_memory_state" where
  "from_workspace ws = new_in_memory (map (\<lambda>e. \<lparr>md_path = fst e, md_text = snd e, md_source = SourceMemory\<rparr>)
     (readable_texts ws (MEMORY_FILE # daily_files ws)))"

definition push_document :: "in_memory_document \<Rightarrow> (in_memory_state, unit) eff" where
  "push_document doc = modifyE (im_docs_update (\<lambda>ds. ds @ [doc]))"

definition document_hit ::
    "('f::linorder) score_ops \<Rightarrow> memory_search_options \<Rightarrow> string list \<Rightarrow> in_memory_document \<Rightarrow> 'f memory_search_result option" where
  "document_hit ops opts query_tokens d =
     (let score = compute_similarity ops query_tokens (token_set (md_text d)) in
      if score \<le> so_zero ops \<or> so_below_milli ops score (mso_min_score_milli opts) then None
      else Some (hit_of (md_path d) score (document_snippet (md_text d) query_tokens) (md_source d)))"

definition in_memory_search ::
    "('f::linorder) score_ops \<Rightarrow> string \<Rightarrow> memory_search_options \<Rightarrow> (in_memory_state, 'f memory_search_result list) eff" where
  "in_memory_search ops query opts =
     (let query_tokens = token_set (trim query) in
      if trim query = [] \<or> query_tokens = [] then okE []
      else getsE (\<lambda>s. rank_results opts (List.map_filter (document_hit ops opts query_tokens) (im_docs s))))"

text \<open>Of documents with one path the last is the one in the map.\<close>

definition find_document :: "in_memory_document list \<Rightarrow> string \<Rightarrow> in_memory_document option" where
  "find_document docs path = List.find (\<lambda>d. md_path d = path) (rev docs)"

definition in_memory_read :: "memory_read_params \<Rightarrow> (in_memory_state, memory_read_result option) eff" where
  "in_memory_read p = (let rel = backslashed (trim (mr_rel_path p)) in
     getsE (\<lambda>s. case find_document (im_docs s) rel of
       None \<Rightarrow> Some \<lparr>mx_text = [], mx_path = rel\<rparr>
     | Some d \<Rightarrow> map_option (\<lambda>sliced. \<lparr>mx_text = sliced, mx_path = rel\<rparr>) (slice_lines (md_text d) (mr_from p) (mr_lines p))))"

definition in_memory_sync :: "(in_memory_state, unit) eff" where
  "in_memory_sync = modifyE (\<lambda>s. s\<lparr>im_status := (im_status s)\<lparr>mp_files := Some (length (im_docs s)),
     mp_chunks := Some (count_chunks (im_docs s)), mp_dirty := False\<rparr>\<rparr>)"

definition in_memory_manager :: "('f::linorder) score_ops \<Rightarrow> (in_memory_state, 'f) memory_manager" where
  "in_memory_manager ops = \<lparr>mg_search = in_memory_search ops, mg_read_file = in_memory_read, mg_status = im_status,
     mg_sync = in_memory_sync, mg_probe_embedding = okE \<lparr>me_ok = True, me_error = None\<rparr>, mg_probe_vector = okE True\<rparr>"

subsection \<open>The fallback manager\<close>

record ('p, 'q) fallback_state =
  fb_primary :: 'p
  fb_fallback :: 'q
  fb_primary_failed :: bool
  fb_last_error :: "string option"

definition new_fallback :: "'p \<Rightarrow> 'q \<Rightarrow> ('p, 'q) fallback_state" where
  "new_fallback p q = \<lparr>fb_primary = p, fb_fallback = q, fb_primary_failed = False, fb_last_error = None\<rparr>"

definition set_failed :: "string \<Rightarrow> (('p, 'q) fallback_state, unit) eff" where
  "set_failed reason = modifyE (\<lambda>s. s\<lparr>fb_primary_failed := True, fb_last_error := Some reason\<rparr>)"

definition on_primary :: "('p, 'a) eff \<Rightarrow> (('p, 'q) fallback_state, 'a) eff" where
  "on_primary m = (\<lambda>s. case m (fb_primary s) of (r, p) \<Rightarrow> (r, s\<lparr>fb_primary := p\<rparr>))"

definition on_fallback :: "('q, 'a) eff \<Rightarrow> (('p, 'q) fallback_state, 'a) eff" where
  "on_fallback m = (\<lambda>s. case m (fb_fallback s) of (r, q) \<Rightarrow> (r, s\<lparr>fb_fallback := q\<rparr>))"

text \<open>All five operations have the same body.\<close>

definition try_primary :: "('p, 'a) eff \<Rightarrow> ('q, 'a) eff \<Rightarrow> (('p, 'q) fallback_state, 'a) eff" where
  "try_primary m n = bindE (getsE fb_primary_failed) (\<lambda>failed.
     if failed then on_fallback n
     else bindE (attemptE (on_primary m)) (\<lambda>r. case r of
         Inr x \<Rightarrow> okE x
       | Inl err \<Rightarrow> seqE (set_failed (show_error err)) (on_fallback n)))"

fun merge_json :: "json \<Rightarrow> json \<Rightarrow> json" where
  "merge_json (JObj base) (JObj overlay) = JObj (foldl (\<lambda>obj e. put_member (fst e) (snd e) obj) base overlay)"
| "merge_json _ overlay = overlay"

definition merged_status :: "('p, 'q) fallback_state \<Rightarrow> memory_provider_status \<Rightarrow> memory_provider_status" where
  "merged_status s base = (if fb_primary_failed s then
     base\<lparr>mp_fallback := Some \<lparr>mf_from = mp_provider base, mf_reason = fb_last_error s\<rparr>,
       mp_custom := merge_json (mp_custom base) (JObj [(''fallback'', JObj [(''enabled'', JBool True),
         (''reason'', case fb_last_error s of Some e \<Rightarrow> JStr e | None \<Rightarrow> JNull)])])\<rparr> else base)"

definition fallback_manager ::
    "('p, 'f) memory_manager \<Rightarrow> ('q, 'f) memory_manager \<Rightarrow> (('p, 'q) fallback_state, 'f) memory_manager" where
  "fallback_manager a b = \<lparr>mg_search = (\<lambda>q opts. try_primary (mg_search a q opts) (mg_search b q opts)),
     mg_read_file = (\<lambda>p. try_primary (mg_read_file a p) (mg_read_file b p)),
     mg_status = (\<lambda>s. merged_status s (if fb_primary_failed s then mg_status b (fb_fallback s) else mg_status a (fb_primary s))),
     mg_sync = try_primary (mg_sync a) (mg_sync b),
     mg_probe_embedding = try_primary (mg_probe_embedding a) (mg_probe_embedding b),
     mg_probe_vector = try_primary (mg_probe_vector a) (mg_probe_vector b)\<rparr>"

subsection \<open>The contract of a search\<close>

text \<open>
  What a client of the trait may rely on: no more results than asked for, but one at least, in the order of \<open>result_before\<close>,
  and none for a blank query.
\<close>

locale ranked_memory =
  fixes search :: "string \<Rightarrow> memory_search_options \<Rightarrow> ('s, ('f::linorder) memory_search_result list) eff"
  assumes search_bounded: "search q opts s = (Inr rs, s') \<Longrightarrow> length rs \<le> max (mso_max_results opts) 1"
    and search_ranked: "search q opts s = (Inr rs, s') \<Longrightarrow> sorted_wrt (\<lambda>a b. \<not> result_before b a) rs"
    and search_blank: "trim q = [] \<Longrightarrow> search q opts s = (Inr [], s)"
begin

lemma best_first:
  assumes "search q opts s = (Inr (r # rs), s')" and "x \<in> set rs"
  shows "ms_score x \<le> ms_score r"
  using search_ranked [OF assms(1)] assms(2) by (auto simp: result_before_def)

end

lemma sorted_insert_by:
  assumes "\<And>a b c. \<not> before b a \<Longrightarrow> \<not> before c b \<Longrightarrow> \<not> before c a" and "\<And>a b. before a b \<Longrightarrow> \<not> before b a"
    and "sorted_wrt (\<lambda>a b. \<not> before b a) xs"
  shows "sorted_wrt (\<lambda>a b. \<not> before b a) (insert_by before x xs)"
proof -
  let ?t = "takeWhile (\<lambda>y. before y x) xs" and ?d = "dropWhile (\<lambda>y. before y x) xs"
  have split: "sorted_wrt (\<lambda>a b. \<not> before b a) (?t @ ?d)" using assms(3) by simp
  have "\<not> before z x" if "z \<in> set ?d" for z
  proof (cases ?d)
    case (Cons y ys)
    then have "\<not> before y x" by (rule dropWhile_hd)
    moreover have "z = y \<or> \<not> before z y" using split [unfolded sorted_wrt_append] Cons that by auto
    ultimately show ?thesis using assms(1) by blast
  next
    case Nil
    with that show ?thesis by simp
  qed
  then have after: "\<forall>z\<in>set ?d. \<not> before z x" by blast
  have front: "\<forall>y\<in>set ?t. \<not> before x y" using assms(2) by (blast dest: set_takeWhileD)
  have "sorted_wrt (\<lambda>a b. \<not> before b a) ?t" "sorted_wrt (\<lambda>a b. \<not> before b a) ?d"
    "\<forall>y\<in>set ?t. \<forall>z\<in>set ?d. \<not> before z y"
    using split unfolding sorted_wrt_append by blast+
  moreover have "sorted_wrt R (t @ x # d)" if "sorted_wrt R t" "sorted_wrt R d" "\<forall>y\<in>set t. \<forall>z\<in>set d. R y z"
    "\<forall>y\<in>set t. R y x" "\<forall>z\<in>set d. R x z" for R t d
    using that by (auto simp: sorted_wrt_append)
  ultimately show ?thesis unfolding insert_by_def using after front by blast
qed

lemma result_before_keys: "result_before a b \<longleftrightarrow> ms_score b < ms_score a \<or> (ms_score a = ms_score b \<and>
    (ms_path a, ms_start_line a, ms_end_line a) < (ms_path b, ms_start_line b, ms_end_line b))"
  by (auto simp: result_before_def)

lemma result_before_order:
  "\<not> result_before b a \<Longrightarrow> \<not> result_before c b \<Longrightarrow> \<not> result_before c a" "result_before a b \<Longrightarrow> \<not> result_before b a"
proof -
  have lex: "\<not> (x < y \<or> (y = x \<and> l < k)) \<Longrightarrow> \<not> (y < z \<or> (z = y \<and> m < l)) \<Longrightarrow> \<not> (x < z \<or> (z = x \<and> m < k))"
    for x y z :: "'a::linorder" and k l m :: "string \<times> nat \<times> nat"
    by (metis not_less_iff_gr_or_eq order.strict_trans)
  then show "\<not> result_before b a \<Longrightarrow> \<not> result_before c b \<Longrightarrow> \<not> result_before c a"
    unfolding result_before_keys by blast
  show "result_before a b \<Longrightarrow> \<not> result_before b a" unfolding result_before_keys by (metis less_asym order.irrefl)
qed

lemma rank_results_spec:
  "length (rank_results opts rs) \<le> max (mso_max_results opts) 1"
  "sorted_wrt (\<lambda>a b. \<not> result_before b a) (rank_results opts rs)"
proof -
  have "sorted_wrt (\<lambda>a b. \<not> result_before b a) (foldr (insert_by result_before) rs [])"
    by (induction rs) (simp_all add: sorted_insert_by [of result_before, OF result_before_order])
  then show "sorted_wrt (\<lambda>a b. \<not> result_before b a) (rank_results opts rs)"
    unfolding rank_results_def by (rule sorted_wrt_take)
qed (simp add: rank_results_def)

interpretation markdown: ranked_memory "markdown_search ops ws" for ops ws
  by unfold_locales
    (auto simp: markdown_search_def Let_def seqE_def bindE_apply rank_results_spec rank_results_spec(1) [simplified] split: if_splits)

interpretation in_memory: ranked_memory "in_memory_search ops" for ops
  by unfold_locales (auto simp: in_memory_search_def Let_def rank_results_spec rank_results_spec(1) [simplified] split: if_splits)

lemma try_primary_apply: "try_primary m n s =
    (if fb_primary_failed s then on_fallback n s
     else case m (fb_primary s) of
       (Inr x, p) \<Rightarrow> (Inr x, s\<lparr>fb_primary := p\<rparr>)
     | (Inl err, p) \<Rightarrow> on_fallback n (s\<lparr>fb_primary := p, fb_primary_failed := True, fb_last_error := Some (show_error err)\<rparr>))"
  by (auto simp: try_primary_def bindE_apply seqE_def attemptE_def on_primary_def set_failed_def split: prod.splits sum.splits)

lemma try_primary_Inr:
  assumes "try_primary m n s = (Inr x, s')"
  shows "(\<exists>p. m (fb_primary s) = (Inr x, p)) \<or> (\<exists>q. n (fb_fallback s) = (Inr x, q))"
  using assms by (auto simp: try_primary_apply on_fallback_def split: if_splits prod.splits sum.splits)

lemma fallback_ranked:
  assumes "ranked_memory (mg_search a)" and "ranked_memory (mg_search b)"
  shows "ranked_memory (mg_search (fallback_manager a b))"
proof
  fix q opts s rs s'
  assume "mg_search (fallback_manager a b) q opts s = (Inr rs, s')"
  then have "(\<exists>p. mg_search a q opts (fb_primary s) = (Inr rs, p)) \<or> (\<exists>p. mg_search b q opts (fb_fallback s) = (Inr rs, p))"
    by (auto simp: fallback_manager_def dest: try_primary_Inr)
  then show "length rs \<le> max (mso_max_results opts) 1" "sorted_wrt (\<lambda>a b. \<not> result_before b a) rs"
    using assms by (auto dest: ranked_memory.search_bounded ranked_memory.search_ranked)
next
  fix q :: string and opts s
  assume "trim q = []"
  then show "mg_search (fallback_manager a b) q opts s = (Inr [], s)"
    using assms by (simp add: fallback_manager_def try_primary_apply on_fallback_def ranked_memory.search_blank)
qed


interpretation layered: ranked_memory "mg_search (fallback_manager (in_memory_manager ops) (markdown_manager ops ws))" for ops ws
  by (rule fallback_ranked)
     (simp_all add: in_memory_manager_def markdown_manager_def in_memory.ranked_memory_axioms markdown.ranked_memory_axioms)

subsection \<open>The fallback manager against its specification\<close>

datatype memory_request =
    SearchRequest string memory_search_options
  | ReadRequest memory_read_params
  | SyncRequest
  | ProbeEmbedding
  | ProbeVector

datatype 'f memory_answer =
    Hits "'f memory_search_result list"
  | ReadText "memory_read_result option"
  | Synced
  | Embedding memory_embedding_probe_result
  | Vector bool

definition returns :: "('a \<Rightarrow> 'b) \<Rightarrow> ('s, 'a) eff \<Rightarrow> ('s, 'b) eff" where
  "returns f m = bindE m (\<lambda>x. okE (f x))"

fun ask :: "('s, 'f) memory_manager \<Rightarrow> memory_request \<Rightarrow> ('s, 'f memory_answer) eff" where
  "ask mg (SearchRequest q opts) = returns Hits (mg_search mg q opts)"
| "ask mg (ReadRequest p) = returns ReadText (mg_read_file mg p)"
| "ask mg SyncRequest = returns (\<lambda>_. Synced) (mg_sync mg)"
| "ask mg ProbeEmbedding = returns Embedding (mg_probe_embedding mg)"
| "ask mg ProbeVector = returns Vector (mg_probe_vector mg)"

fun ask_all :: "('s, 'f) memory_manager \<Rightarrow> memory_request list \<Rightarrow> 's \<Rightarrow> 'f memory_answer kelvin_result list \<times> 's" where
  "ask_all mg [] s = ([], s)"
| "ask_all mg (r # rs) s = (case ask mg r s of (a, s1) \<Rightarrow> case ask_all mg rs s1 of (as, s2) \<Rightarrow> (a # as, s2))"

text \<open>The specification: the first manager answers until it fails, from then on the second answers everything.\<close>

fun switch_over ::
    "('p, 'f) memory_manager \<Rightarrow> ('q, 'f) memory_manager \<Rightarrow> memory_request list \<Rightarrow> 'p \<Rightarrow> 'q \<Rightarrow> 'f memory_answer kelvin_result list" where
  "switch_over a b [] p q = []"
| "switch_over a b (r # rs) p q = (case ask a r p of
     (Inr x, p') \<Rightarrow> Inr x # switch_over a b rs p' q
   | (Inl _, _) \<Rightarrow> fst (ask_all b (r # rs) q))"

lemma returns_try: "returns f (try_primary m n) = try_primary (returns f m) (returns f n)"
  by (rule ext) (auto simp: returns_def try_primary_apply bindE_apply on_fallback_def split: prod.splits sum.splits)

lemma ask_fallback: "ask (fallback_manager a b) r = try_primary (ask a r) (ask b r)"
  by (cases r) (simp_all add: fallback_manager_def returns_try)

lemma ask_failed: "fb_primary_failed s \<Longrightarrow> ask_all (fallback_manager a b) rs s =
    (case ask_all b rs (fb_fallback s) of (as, q) \<Rightarrow> (as, s\<lparr>fb_fallback := q\<rparr>))"
  by (induction rs arbitrary: s) (auto simp: ask_fallback try_primary_apply on_fallback_def split: prod.splits)

lemma fallback_switches:
  "fst (ask_all (fallback_manager a b) rs (new_fallback p q)) = switch_over a b rs p q"
proof -
  have "fst (ask_all (fallback_manager a b) rs s) = switch_over a b rs (fb_primary s) (fb_fallback s)"
    if "\<not> fb_primary_failed s" for s
    using that
  proof (induction rs arbitrary: s)
    case (Cons r rs)
    obtain x p' where first: "ask a r (fb_primary s) = (x, p')" by fastforce
    show ?case
    proof (cases x)
      case (Inr y)
      with first Cons.prems Cons.IH [of "s\<lparr>fb_primary := p'\<rparr>"] show ?thesis
        by (auto simp: ask_fallback try_primary_apply split: prod.splits)
    next
      case (Inl e)
      let ?s = "s\<lparr>fb_primary := p', fb_primary_failed := True, fb_last_error := Some (show_error e)\<rparr>"
      obtain y q' where "ask b r (fb_fallback s) = (y, q')" by fastforce
      with first Inl Cons.prems ask_failed [of "?s\<lparr>fb_fallback := q'\<rparr>" a b rs] show ?thesis
        by (auto simp: ask_fallback try_primary_apply on_fallback_def split: prod.splits)
    qed
  qed simp
  from this [of "new_fallback p q"] show ?thesis by (simp add: new_fallback_def)
qed

text \<open>
  \<^bold>\<open>C37.\<close> A fallback manager answers any sequence of requests exactly as its first manager does until that fails once, and as its
  second manager does from the failed request on: the two are equivalent to one switch of managers that is never undone.
\<close>

theorem fallback_is_one_switch:
  "fst (ask_all (fallback_manager a b) rs (new_fallback p q)) = switch_over a b rs p q"
  by (rule fallback_switches)

text \<open>
  The status of a manager that has switched names the manager it fell back to, not the one that failed, as the one it came from.
\<close>

theorem status_names_the_fallback:
  "fb_primary_failed s \<Longrightarrow> mp_fallback (mg_status (fallback_manager a b) s) =
     Some \<lparr>mf_from = mp_provider (mg_status b (fb_fallback s)), mf_reason = fb_last_error s\<rparr>"
  by (simp add: fallback_manager_def merged_status_def)


subsection \<open>The factory\<close>

definition parse_backend_kind :: "string \<Rightarrow> memory_backend_kind" where
  "parse_backend_kind v = (let s = to_lowercase (trim v) in
     if s = ''markdown'' then BackendMarkdown
     else if s \<in> {''in-memory'', ''in_memory'', ''vector''} then BackendInMemoryVector
     else if s \<in> {''fallback'', ''in-memory-fallback'', ''in_memory_fallback''} then BackendInMemoryWithMarkdownFallback
     else BackendMarkdown)"

datatype 'f built_memory =
    BuiltMarkdown "(memory_provider_status, 'f) memory_manager" memory_provider_status
  | BuiltInMemory "(in_memory_state, 'f) memory_manager" in_memory_state
  | BuiltLayered "((in_memory_state, memory_provider_status) fallback_state, 'f) memory_manager"
      "(in_memory_state, memory_provider_status) fallback_state"

fun build_memory :: "('f::linorder) score_ops \<Rightarrow> memory_workspace \<Rightarrow> memory_backend_kind \<Rightarrow> 'f built_memory" where
  "build_memory ops ws BackendMarkdown = BuiltMarkdown (markdown_manager ops ws) new_markdown"
| "build_memory ops ws BackendInMemoryVector = BuiltInMemory (in_memory_manager ops) (from_workspace ws)"
| "build_memory ops ws BackendInMemoryWithMarkdownFallback =
     BuiltLayered (fallback_manager (in_memory_manager ops) (markdown_manager ops ws)) (new_fallback (from_workspace ws) new_markdown)"

subsection \<open>What the managers of the workspace do\<close>

text \<open>
  The first manager of the layered build holds its documents in memory and never fails: no request ever reaches the markdown
  manager, and what is written to the workspace after the build is never found.
\<close>

lemma in_memory_never_fails: "\<exists>x s'. ask (in_memory_manager ops) r s = (Inr x, s')"
  by (cases r) (simp_all add: in_memory_manager_def returns_def bindE_apply in_memory_search_def in_memory_read_def
    in_memory_sync_def Let_def)

theorem layered_never_falls_back:
  "fst (ask_all (fallback_manager (in_memory_manager ops) (markdown_manager ops ws)) rs (new_fallback p q)) =
     fst (ask_all (in_memory_manager ops) rs p)"
proof -
  have "switch_over (in_memory_manager ops) (markdown_manager ops ws) rs p q = fst (ask_all (in_memory_manager ops) rs p)"
  proof (induction rs arbitrary: p)
    case (Cons r rs)
    obtain x s' where "ask (in_memory_manager ops) r p = (Inr x, s')" using in_memory_never_fails [of ops r p] by blast
    with Cons show ?case by (simp split: prod.splits)
  qed simp
  then show ?thesis by (simp only: fallback_switches)
qed

text \<open>A layered search gives at most the results asked for, the best first.\<close>

theorem layered_search_ranked:
  assumes "mg_search (fallback_manager (in_memory_manager ops) (markdown_manager ops ws)) q opts s = (Inr (r # rs), s')"
  shows "length (r # rs) \<le> max (mso_max_results opts) 1 \<and> (\<forall>x\<in>set rs. ms_score x \<le> ms_score r)"
  using layered.search_bounded [OF assms] layered.best_first [OF assms] by blast

text \<open>A read panics exactly when the lines asked for run over the largest \<^verbatim>\<open>usize\<close>.\<close>

theorem slice_panics_exactly:
  assumes "length (file_lines text) \<le> u64_max"
  shows "slice_lines text from_line count_lines = None \<longleftrightarrow> (\<exists>c. count_lines = Some c \<and>
    opt_or from_line 1 - 1 < length (file_lines text) \<and> u64_max < opt_or from_line 1 - 1 + c)"
  using assms
  by (cases count_lines) (auto simp: slice_lines_def SEARCH_SNIPPET_CONTEXT_LINE_DELTA_def Let_def opt_or_def)

theorem read_can_panic:
  assumes "mw_read ws ''MEMORY.md'' = Some (Inr text)" and "2 \<le> length (file_lines text)"
  shows "mg_read_file (markdown_manager ops ws) \<lparr>mr_rel_path = ''MEMORY.md'', mr_from = Some 2, mr_lines = Some u64_max\<rparr> st =
    (Inr None, st)"
proof -
  have "backslashed (trim ''MEMORY.md'') = ''MEMORY.md''" by (simp add: backslashed_def str_eval)
  moreover have "validate_rel_path ''MEMORY.md'' = Inr ()"
    by (simp add: validate_rel_path_def MEMORY_FILE_def backslashed_def starts_with_def Let_def)
  moreover have "slice_lines text (Some 2) (Some u64_max) = None"
    using assms(2) by (auto simp: slice_lines_def SEARCH_SNIPPET_CONTEXT_LINE_DELTA_def opt_or_def Let_def)
  ultimately show ?thesis using assms(1) by (simp add: markdown_manager_def markdown_read_def bindE_apply Let_def)
qed

end
