(* ===== verification/Tool_Files.thy ===== *)
theory Tool_Files
  imports Plugin_Package Provider_Response Plugin_Trust
begin

section \<open>The file and web tools of the tool pack (kelvin-sdk/src/toolpack.rs)\<close>

text \<open>
  The policy of the tool pack, the reading of a tool's arguments, the path checks and three of its five tools:
  \<open>fs_safe_read\<close>, \<open>fs_safe_write\<close> and \<open>web_fetch_safe\<close>.

  The file system is a map from the list of names that leads from the root to a node; a path is walked segment by
  segment, so a missing directory, a file in the place of a directory and a trailing slash stop it as they stop the
  kernel. There are no symbolic links and every name is told apart by case. What the kernel may refuse beyond that is an
  argument (\<open>fs_io\<close>), as are the text serde_json writes for a value (\<open>encode\<close>), the URL parser and the HTTP client.
\<close>

subsection \<open>Policy and arguments\<close>

definition DEFAULT_READ_MAX_BYTES :: nat where "DEFAULT_READ_MAX_BYTES = 64 * 1024"
definition DEFAULT_FETCH_MAX_BYTES :: nat where "DEFAULT_FETCH_MAX_BYTES = 128 * 1024"
definition DEFAULT_FETCH_TIMEOUT_MS :: nat where "DEFAULT_FETCH_TIMEOUT_MS = 3000"
definition MAX_APPROVAL_REASON_LEN :: nat where "MAX_APPROVAL_REASON_LEN = 256"
definition SENSITIVE_PATHS_COMPARE :: "string list" where "SENSITIVE_PATHS_COMPARE = [''.env'']"
definition SENSITIVE_PATHS_PREFIX :: "string list" where
  "SENSITIVE_PATHS_PREFIX = [''.env.'', ''.git/'', ''.kelvin/plugins/'', ''.kelvinclaw/plugins/'']"
definition DEFAULT_WEB_ALLOW_HOSTS :: string where
  "DEFAULT_WEB_ALLOW_HOSTS = ''docs.rs,crates.io,raw.githubusercontent.com,api.openai.com''"
definition DEFAULT_FS_WRITE_SCOPE :: "string list" where
  "DEFAULT_FS_WRITE_SCOPE = [''.kelvinclaw/sandbox/'', ''memory/'', ''notes/'']"

lemmas toolpack_consts = DEFAULT_READ_MAX_BYTES_def DEFAULT_FETCH_MAX_BYTES_def DEFAULT_FETCH_TIMEOUT_MS_def
  MAX_APPROVAL_REASON_LEN_def SENSITIVE_PATHS_COMPARE_def SENSITIVE_PATHS_PREFIX_def DEFAULT_WEB_ALLOW_HOSTS_def
  DEFAULT_FS_WRITE_SCOPE_def

record tool_pack_policy =
  tp_allow_fs_write :: bool
  tp_allow_web_fetch :: bool
  tp_allow_scheduler_write :: bool
  tp_allow_session_clear :: bool
  tp_max_read_bytes :: nat
  tp_max_fetch_bytes :: nat
  tp_web_allow_hosts :: "string list"

definition env_bool :: "environment \<Rightarrow> string \<Rightarrow> bool \<Rightarrow> bool" where
  "env_bool env key dflt = (case env key of
     Some raw \<Rightarrow> to_ascii_lowercase (trim raw) \<in> {''1'', ''true'', ''yes'', ''on''}
   | None \<Rightarrow> dflt)"

definition parse_host_allowlist :: "string \<Rightarrow> string list" where
  "parse_host_allowlist raw = remdups_adj (sort (map to_ascii_lowercase
     (filter (\<lambda>item. item \<noteq> []) (map trim (split_char (CHR '','') raw)))))"

definition policy_from_env :: "environment \<Rightarrow> tool_pack_policy" where
  "policy_from_env env =
     \<lparr>tp_allow_fs_write = env_bool env ''KELVIN_TOOLPACK_ENABLE_FS_WRITE'' True,
      tp_allow_web_fetch = env_bool env ''KELVIN_TOOLPACK_ENABLE_WEB_FETCH'' True,
      tp_allow_scheduler_write = env_bool env ''KELVIN_TOOLPACK_ENABLE_SCHEDULER_WRITE'' True,
      tp_allow_session_clear = env_bool env ''KELVIN_TOOLPACK_ENABLE_SESSION_CLEAR'' True,
      tp_max_read_bytes = DEFAULT_READ_MAX_BYTES, tp_max_fetch_bytes = DEFAULT_FETCH_MAX_BYTES,
      tp_web_allow_hosts = parse_host_allowlist
        (case env ''KELVIN_TOOLPACK_WEB_ALLOW_HOSTS'' of Some v \<Rightarrow> v | None \<Rightarrow> DEFAULT_WEB_ALLOW_HOSTS)\<rparr>"

type_synonym tool_args = "(string \<times> json) list"

definition args_object :: "json \<Rightarrow> string \<Rightarrow> tool_args kelvin_result" where
  "args_object args tool_name = (case args of JObj kvs \<Rightarrow> Inr kvs
     | _ \<Rightarrow> Inl (InvalidInput (tool_name @ '' expects JSON object arguments'')))"

text \<open>\<open>args.get(field).and_then(Value::as_str)\<close>.\<close>

definition arg_str :: "tool_args \<Rightarrow> string \<Rightarrow> string option" where
  "arg_str args field = Option.bind (map_of args field) json_str"

definition required_string :: "tool_args \<Rightarrow> string \<Rightarrow> string \<Rightarrow> string kelvin_result" where
  "required_string args field tool_name = (case arg_str args field of
     None \<Rightarrow> Inl (InvalidInput (tool_name @ '' requires string argument '' @ quoted field))
   | Some v \<Rightarrow>
       if trim v = [] then Inl (InvalidInput (tool_name @ '' argument '' @ quoted field @ '' must not be empty''))
       else if list_ex is_control (trim v) then
         Inl (InvalidInput (tool_name @ '' argument '' @ quoted field @ '' must not contain control characters''))
       else Inr (trim v))"

definition required_string_content :: "tool_args \<Rightarrow> string \<Rightarrow> string \<Rightarrow> string kelvin_result" where
  "required_string_content args field tool_name = (case arg_str args field of
     None \<Rightarrow> Inl (InvalidInput (tool_name @ '' requires string argument '' @ quoted field))
   | Some v \<Rightarrow>
       if v = [] then Inl (InvalidInput (tool_name @ '' argument '' @ quoted field @ '' must not be empty''))
       else Inr v)"

definition optional_u64 :: "tool_args \<Rightarrow> string \<Rightarrow> string \<Rightarrow> nat option kelvin_result" where
  "optional_u64 args field tool_name = (case map_of args field of None \<Rightarrow> Inr None
     | Some v \<Rightarrow> (case json_u64 v of Some n \<Rightarrow> Inr (Some n)
         | None \<Rightarrow> Inl (InvalidInput (tool_name @ '' argument '' @ quoted field @ '' must be a u64''))))"

definition optional_string :: "tool_args \<Rightarrow> string \<Rightarrow> string \<Rightarrow> string option kelvin_result" where
  "optional_string args field tool_name = (case map_of args field of None \<Rightarrow> Inr None
     | Some v \<Rightarrow> (case json_str v of Some s \<Rightarrow> Inr (Some s)
         | None \<Rightarrow> Inl (InvalidInput (tool_name @ '' argument '' @ quoted field @ '' must be a string''))))"

definition normalize_workspace_relative_path :: "string \<Rightarrow> string \<Rightarrow> string kelvin_result" where
  "normalize_workspace_relative_path path field_name = (let normalized = backslashed (trim path) in
     if normalized = [] then Inl (InvalidInput (field_name @ '' must not be empty''))
     else if starts_with ''/'' normalized then Inl (InvalidInput (field_name @ '' must be a relative path''))
     else if ParentDir \<in> set (path_components normalized) then
       Inl (InvalidInput (field_name @ '' path traversal is not allowed''))
     else Inr normalized)"

definition deny_sensitive_read_path :: "string \<Rightarrow> bool" where
  "deny_sensitive_read_path path = (let lower = to_ascii_lowercase path in
     lower \<in> set SENSITIVE_PATHS_COMPARE \<or> list_ex (\<lambda>p. starts_with p lower) SENSITIVE_PATHS_PREFIX)"

definition json_bool :: "json \<Rightarrow> bool option" where
  "json_bool j = (case j of JBool b \<Rightarrow> Some b | _ \<Rightarrow> None)"

definition require_sensitive_approval :: "tool_args \<Rightarrow> string \<Rightarrow> string kelvin_result" where
  "require_sensitive_approval args capability = (case map_of args ''approval'' of
     Some (JObj approval) \<Rightarrow>
       if Option.bind (map_of approval ''granted'') json_bool \<noteq> Some True then
         Inl (InvalidInput (''sensitive operation '' @ quoted capability @ '' requires approval.granted=true''))
       else let reason = (case arg_str approval ''reason'' of Some r \<Rightarrow> trim r | None \<Rightarrow> []) in
         if reason = [] then
           Inl (InvalidInput (''sensitive operation '' @ quoted capability @ '' requires non-empty approval.reason''))
         else if length reason > MAX_APPROVAL_REASON_LEN \<or> list_ex is_control reason then
           Inl (InvalidInput (''approval.reason for '' @ quoted capability @ '' is invalid''))
         else Inr reason
   | _ \<Rightarrow> Inl (InvalidInput (''sensitive operation '' @ quoted capability @
       '' denied by default; provide approval={\"granted\":true,\"reason\":\"...\"}'')))"

definition ends_with :: "string \<Rightarrow> string \<Rightarrow> bool" where
  "ends_with p s \<longleftrightarrow> starts_with (rev p) (rev s)"

definition host_allowed :: "string \<Rightarrow> string list \<Rightarrow> bool" where
  "host_allowed host allowlist = (let candidate = to_ascii_lowercase (trim host) in
     candidate \<noteq> [] \<and> list_ex (\<lambda>pattern. case strip_prefix ''*.'' pattern of
        Some suffix \<Rightarrow> candidate = suffix \<or> ends_with (''.'' @ suffix) candidate
      | None \<Rightarrow> candidate = pattern) allowlist)"

text \<open>\<open>usize\<close> has 64 bits.\<close>

definition clamp_usize :: "nat \<Rightarrow> nat \<Rightarrow> nat" where
  "clamp_usize raw max_allowed = (if raw \<le> u64_max then min raw max_allowed else max_allowed)"

subsection \<open>The file system\<close>

datatype fs_node = DirNode | FileNode "nat list"

type_synonym fs_tree = "string list \<Rightarrow> fs_node option"

text \<open>
  What the kernel does beyond the tree: how many directories it still creates, whether it refuses to open, how many
  bytes it takes before a write fails, whether a read fails; and the text of an error.
\<close>

record fs_io =
  fi_cwd :: "string list"
  fi_new_dirs :: nat
  fi_open :: bool
  fi_written :: "nat option"
  fi_read :: bool
  fi_text :: string

definition segments :: "string \<Rightarrow> string list" where
  "segments path = split_char (CHR ''/'') path"

definition start_of :: "fs_io \<Rightarrow> string \<Rightarrow> string list" where
  "start_of io path = (if starts_with ''/'' path then [] else fi_cwd io)"

fun walk :: "fs_tree \<Rightarrow> string list \<Rightarrow> string list \<Rightarrow> string list option" where
  "walk t cur [] = Some cur"
| "walk t cur (s # ss) = (if t cur \<noteq> Some DirNode then None
     else if s = [] \<or> s = ''.'' then walk t cur ss
     else if s = ''..'' then walk t (butlast cur) ss
     else walk t (cur @ [s]) ss)"

definition locate :: "fs_tree \<Rightarrow> fs_io \<Rightarrow> string \<Rightarrow> string list option" where
  "locate t io path = walk t (start_of io path) (segments path)"

definition file_at :: "fs_tree \<Rightarrow> fs_io \<Rightarrow> string \<Rightarrow> nat list option" where
  "file_at t io path = (case locate t io path of None \<Rightarrow> None
     | Some ns \<Rightarrow> (case t ns of Some (FileNode b) \<Rightarrow> Some b | _ \<Rightarrow> None))"

text \<open>\<open>create_dir_all\<close>: every missing directory on the way is made.\<close>

fun make_dirs :: "string \<Rightarrow> nat \<Rightarrow> string list \<Rightarrow> string list \<Rightarrow> (fs_tree, unit) eff" where
  "make_dirs e k cur [] = okE ()"
| "make_dirs e k cur (s # ss) = (
     if s = [] \<or> s = ''.'' then make_dirs e k cur ss
     else if s = ''..'' then make_dirs e k (butlast cur) ss
     else bindE (getsE (\<lambda>t. t (cur @ [s]))) (\<lambda>node. case node of
         Some DirNode \<Rightarrow> make_dirs e k (cur @ [s]) ss
       | Some (FileNode _) \<Rightarrow> errE (Io e)
       | None \<Rightarrow> if k = 0 then errE (Io e)
           else seqE (modifyE (\<lambda>t. t(cur @ [s] \<mapsto> DirNode))) (make_dirs e (k - 1) (cur @ [s]) ss)))"

text \<open>\<open>Path::parent\<close> drops the last component, and with it the slashes and dots after it.\<close>

definition parent_segments :: "string list \<Rightarrow> string list" where
  "parent_segments segs = rev (drop 1 (dropWhile (\<lambda>s. s = [] \<or> s = ''.'') (rev segs)))"

definition create_parent :: "fs_io \<Rightarrow> string \<Rightarrow> (fs_tree, unit) eff" where
  "create_parent io path = make_dirs (fi_text io) (fi_new_dirs io) (start_of io path) (parent_segments (segments path))"

text \<open>The UTF-8 encoding, for the code points below U+0100.\<close>

definition utf8_bytes :: "string \<Rightarrow> nat list" where
  "utf8_bytes s = concat (map (\<lambda>c. if code c < 128 then [code c]
     else [192 + code c div 64, 128 + code c mod 64]) s)"

text \<open>
  \<open>OpenOptions\<close> with \<open>create\<close>, then \<open>append\<close> or \<open>truncate\<close>, and \<open>write_all\<close>: the file is there, and cut to nothing
  unless it is appended to, before the first byte is written.
\<close>

definition write_file :: "fs_io \<Rightarrow> bool \<Rightarrow> string \<Rightarrow> nat list \<Rightarrow> (fs_tree, unit) eff" where
  "write_file io append_to path bytes = (\<lambda>t.
     if \<not> fi_open io then (Inl (Io (fi_text io)), t)
     else case locate t io path of None \<Rightarrow> (Inl (Io (fi_text io)), t)
     | Some ns \<Rightarrow> (case t ns of
         Some DirNode \<Rightarrow> (Inl (Io (fi_text io)), t)
       | node \<Rightarrow> let old = (case node of Some (FileNode b) \<Rightarrow> if append_to then b else [] | _ \<Rightarrow> []) in
           (case fi_written io of
             None \<Rightarrow> (Inr (), t(ns \<mapsto> FileNode (old @ bytes)))
           | Some n \<Rightarrow> (Inl (Io (fi_text io)), t(ns \<mapsto> FileNode (old @ take n bytes))))))"

subsection \<open>Reading and writing files\<close>

definition num :: "nat \<Rightarrow> json" where
  "num n = JNum (show_nat n)"

definition described :: "string \<Rightarrow> string \<Rightarrow> json" where
  "described ty text = JObj [(''type'', JStr ty), (''description'', JStr text)]"

definition object_schema :: "tool_args \<Rightarrow> string list \<Rightarrow> json" where
  "object_schema properties required = JObj [(''type'', JStr ''object''), (''properties'', JObj properties),
     (''required'', JArr (map JStr required))]"

definition approval_schema :: json where
  "approval_schema = JObj [(''type'', JStr ''object''),
     (''description'', JStr ''Approval object required for this sensitive operation.''),
     (''properties'', JObj
       [(''granted'', described ''boolean'' ''Must be true to authorize the operation.''),
        (''reason'', described ''string'' ''Human-readable reason explaining why this write operation is necessary (1-256 characters, no control characters).'')]),
     (''required'', JArr [JStr ''granted'', JStr ''reason''])]"

definition tool_answer :: "(json \<Rightarrow> string) \<Rightarrow> string \<Rightarrow> json \<Rightarrow> bool \<Rightarrow> tool_call_result" where
  "tool_answer encode summary answer failed = \<lparr>tcr_summary = summary, tcr_output = Some (encode answer),
     tcr_visible_text = Some summary, tcr_is_error = failed\<rparr>"

definition fs_safe_read_tool :: tool_object where
  "fs_safe_read_tool = \<lparr>to_name = ''fs_safe_read'',
     to_description = ''Read a file from the workspace. Path must be workspace-relative. Sensitive paths (.env, .git/, .kelvinclaw/plugins/) are denied.'',
     to_input_schema = object_schema
       [(''path'', described ''string'' ''Workspace-relative path to the file to read.''),
        (''max_bytes'', described ''integer'' ''Maximum number of bytes to read. Defaults to policy limit.'')]
       [''path'']\<rparr>"

definition read_limit :: "tool_pack_policy \<Rightarrow> nat option \<Rightarrow> nat" where
  "read_limit policy requested = max 1 (case requested of
     Some v \<Rightarrow> clamp_usize v (tp_max_read_bytes policy) | None \<Rightarrow> tp_max_read_bytes policy)"

definition read_answer :: "(json \<Rightarrow> string) \<Rightarrow> (nat list \<Rightarrow> string) \<Rightarrow> string \<Rightarrow> nat list \<Rightarrow> bool \<Rightarrow> tool_call_result" where
  "read_answer encode lossy path buffer truncated =
     tool_answer encode
       (''fs_safe_read read '' @ quoted path @ '' ('' @ show_nat (length buffer) @ '' bytes'' @
         (if truncated then '', truncated'' else []) @ '')'')
       (JObj [(''path'', JStr path), (''bytes'', num (length buffer)), (''truncated'', JBool truncated),
         (''content'', JStr (lossy buffer))]) False"

text \<open>\<open>lossy\<close> is \<open>String::from_utf8_lossy\<close>, whose replacement character is not among the model's.\<close>

definition safe_fs_read ::
    "tool_pack_policy \<Rightarrow> fs_io \<Rightarrow> (json \<Rightarrow> string) \<Rightarrow> (nat list \<Rightarrow> string) \<Rightarrow> tool_call_input \<Rightarrow> fs_tree \<Rightarrow>
     tool_call_result kelvin_result" where
  "safe_fs_read policy io encode lossy input t =
     bindR (args_object (tci_arguments input) ''fs_safe_read'') (\<lambda>args.
     bindR (required_string args ''path'' ''fs_safe_read'') (\<lambda>raw.
     bindR (normalize_workspace_relative_path raw ''path'') (\<lambda>path.
     if deny_sensitive_read_path path then
       Inl (InvalidInput (''fs_safe_read denied path '' @ quoted path @ '' by policy''))
     else bindR (optional_u64 args ''max_bytes'' ''fs_safe_read'') (\<lambda>requested.
       let limit = read_limit policy requested; full = path_join (tci_workspace_dir input) path in
       case file_at t io full of
         None \<Rightarrow> Inl (NotFound (''fs_safe_read path not found: '' @ path))
       | Some bytes \<Rightarrow>
           if \<not> fi_open io \<or> \<not> fi_read io then Inl (Io (fi_text io))
           else let buffer = take (sat_add64 limit 1) bytes; truncated = (length buffer > limit) in
             Inr (read_answer encode lossy path (if truncated then take limit buffer else buffer) truncated)))))"

definition fs_safe_write_tool :: tool_object where
  "fs_safe_write_tool = \<lparr>to_name = ''fs_safe_write'',
     to_description = ''Write content to a file in the workspace. Only .kelvinclaw/sandbox/, memory/, and notes/ roots are permitted. Requires sensitive approval.'',
     to_input_schema = object_schema
       [(''path'', described ''string'' ''Workspace-relative path to write. Must be under .kelvinclaw/sandbox/, memory/, or notes/.''),
        (''content'', described ''string'' ''Content to write to the file.''),
        (''mode'', JObj [(''type'', JStr ''string''), (''enum'', JArr [JStr ''overwrite'', JStr ''append'']),
          (''description'', JStr (''Write mode: '' @ quoted ''overwrite'' @ '' (default) replaces the file, '' @
            quoted ''append'' @ '' adds to it.''))]),
        (''approval'', approval_schema)]
       [''path'', ''content'', ''approval'']\<rparr>"

definition write_scope_allowed :: "string \<Rightarrow> bool" where
  "write_scope_allowed path = list_ex (\<lambda>p. starts_with p path) DEFAULT_FS_WRITE_SCOPE"

definition write_answer :: "(json \<Rightarrow> string) \<Rightarrow> string \<Rightarrow> string \<Rightarrow> string \<Rightarrow> string \<Rightarrow> tool_call_result" where
  "write_answer encode path mode content reason =
     tool_answer encode
       (''fs_safe_write wrote '' @ show_nat (utf8_len content) @ '' bytes to '' @ quoted path @ '' ('' @ mode @ '')'')
       (JObj [(''path'', JStr path), (''mode'', JStr mode), (''bytes_written'', num (utf8_len content)),
         (''approval_reason'', JStr reason)]) False"

definition safe_fs_write ::
    "tool_pack_policy \<Rightarrow> fs_io \<Rightarrow> (json \<Rightarrow> string) \<Rightarrow> tool_call_input \<Rightarrow> (fs_tree, tool_call_result) eff" where
  "safe_fs_write policy io encode input =
     (if \<not> tp_allow_fs_write policy then
        errE (InvalidInput ''fs_safe_write is disabled by runtime policy; set KELVIN_TOOLPACK_ENABLE_FS_WRITE=1 to enable'')
      else bindE (liftE (args_object (tci_arguments input) ''fs_safe_write'')) (\<lambda>args.
      bindE (liftE (require_sensitive_approval args ''filesystem_write'')) (\<lambda>reason.
      bindE (liftE (required_string args ''path'' ''fs_safe_write'')) (\<lambda>raw.
      bindE (liftE (normalize_workspace_relative_path raw ''path'')) (\<lambda>path.
      if \<not> write_scope_allowed path then
        errE (InvalidInput (''fs_safe_write denied path '' @ quoted path @
          ''; allowed roots are .kelvinclaw/sandbox/, memory/, notes/''))
      else bindE (liftE (required_string_content args ''content'' ''fs_safe_write'')) (\<lambda>content.
      bindE (liftE (optional_string args ''mode'' ''fs_safe_write'')) (\<lambda>given.
      let mode = to_ascii_lowercase (opt_or given ''overwrite''); full = path_join (tci_workspace_dir input) path in
      if mode \<noteq> ''overwrite'' \<and> mode \<noteq> ''append'' then
        errE (InvalidInput (''fs_safe_write argument '' @ quoted ''mode'' @ '' must be '' @ quoted ''overwrite'' @
          '' or '' @ quoted ''append''))
      else seqE (create_parent io full)
           (seqE (write_file io (mode = ''append'') full (utf8_bytes content))
           (okE (write_answer encode path mode content reason))))))))))"

subsection \<open>Fetching from the web\<close>

record parsed_url =
  ul_scheme :: string
  ul_host :: "string option"
  ul_text :: string

record http_answer =
  ha_status :: nat
  ha_content_type :: "string option"
  ha_body :: "string + nat list"

text \<open>The client follows no redirects; the state of the tool is the list of the requests it has sent.\<close>

record web_client =
  wc_parse :: "string \<Rightarrow> string + parsed_url"
  wc_send :: "parsed_url \<Rightarrow> nat \<Rightarrow> string + http_answer"

type_synonym web_log = "(parsed_url \<times> nat) list"

definition web_fetch_safe_tool :: tool_object where
  "web_fetch_safe_tool = \<lparr>to_name = ''web_fetch_safe'',
     to_description = ''Fetch a URL over HTTP or HTTPS. Only hosts in the configured allowlist are permitted. Requires sensitive approval.'',
     to_input_schema = object_schema
       [(''url'', described ''string'' ''The HTTP or HTTPS URL to fetch.''),
        (''max_bytes'', described ''integer'' ''Maximum number of response bytes to return. Defaults to policy limit.''),
        (''timeout_ms'', described ''integer'' ''Request timeout in milliseconds (100-30000). Defaults to 10000.''),
        (''approval'', approval_schema)]
       [''url'', ''approval'']\<rparr>"

definition fetch_timeout :: "nat option \<Rightarrow> nat" where
  "fetch_timeout requested = min 30000 (max 100 (opt_or requested DEFAULT_FETCH_TIMEOUT_MS))"

definition fetch_limit :: "tool_pack_policy \<Rightarrow> nat option \<Rightarrow> nat" where
  "fetch_limit policy requested = max 1 (case requested of
     Some v \<Rightarrow> clamp_usize v (tp_max_fetch_bytes policy) | None \<Rightarrow> tp_max_fetch_bytes policy)"

definition check_url :: "tool_pack_policy \<Rightarrow> parsed_url \<Rightarrow> string kelvin_result" where
  "check_url policy url =
     (if to_ascii_lowercase (ul_scheme url) \<notin> {''https'', ''http''} then
        Inl (InvalidInput ''web_fetch_safe only supports http/https urls'')
      else case ul_host url of
        None \<Rightarrow> Inl (InvalidInput ''web_fetch_safe url host is required'')
      | Some host \<Rightarrow>
          if \<not> host_allowed host (tp_web_allow_hosts policy) then
            Inl (InvalidInput (''web_fetch_safe denied host '' @ quoted host @ ''; allowed hosts: '' @
              join_with '','' (tp_web_allow_hosts policy)))
          else Inr host)"

definition json_text_opt :: "string option \<Rightarrow> json" where
  "json_text_opt v = (case v of Some s \<Rightarrow> JStr s | None \<Rightarrow> JNull)"

definition fetch_answer ::
    "(json \<Rightarrow> string) \<Rightarrow> (nat list \<Rightarrow> string) \<Rightarrow> parsed_url \<Rightarrow> string \<Rightarrow> http_answer \<Rightarrow> nat list \<Rightarrow> string \<Rightarrow> tool_call_result" where
  "fetch_answer encode lossy url host response body reason =
     tool_answer encode
       (''web_fetch_safe fetched '' @ ul_text url @ '' (status='' @ show_nat (ha_status response) @ '', bytes='' @
         show_nat (length body) @ '')'')
       (JObj [(''url'', JStr (ul_text url)), (''host'', JStr host), (''status'', num (ha_status response)),
         (''content_type'', json_text_opt (ha_content_type response)), (''bytes'', num (length body)),
         (''body'', JStr (lossy body)), (''approval_reason'', JStr reason)])
       (400 \<le> ha_status response)"

definition receive_body :: "nat \<Rightarrow> http_answer \<Rightarrow> nat list kelvin_result" where
  "receive_body max_bytes response = (case ha_body response of
     Inl err \<Rightarrow> Inl (Backend (''web_fetch_safe read body failed: '' @ err))
   | Inr bytes \<Rightarrow>
       if length bytes > max_bytes then
         Inl (InvalidInput (''web_fetch_safe response size '' @ show_nat (length bytes) @ '' exceeds limit '' @
           show_nat max_bytes))
       else Inr bytes)"

definition fetch_exchange ::
    "web_client \<Rightarrow> (json \<Rightarrow> string) \<Rightarrow> (nat list \<Rightarrow> string) \<Rightarrow> parsed_url \<Rightarrow> string \<Rightarrow> nat \<Rightarrow> nat \<Rightarrow> string \<Rightarrow>
     (web_log, tool_call_result) eff" where
  "fetch_exchange client encode lossy url host timeout_ms max_bytes reason =
     seqE (modifyE (\<lambda>sent. sent @ [(url, timeout_ms)]))
     (bindE (liftE (case wc_send client url timeout_ms of Inr response \<Rightarrow> Inr response
       | Inl err \<Rightarrow> Inl (Backend (''web_fetch_safe request failed: '' @ err)))) (\<lambda>response.
     bindE (liftE (receive_body max_bytes response)) (\<lambda>body.
     okE (fetch_answer encode lossy url host response body reason))))"

definition safe_web_fetch ::
    "tool_pack_policy \<Rightarrow> web_client \<Rightarrow> (json \<Rightarrow> string) \<Rightarrow> (nat list \<Rightarrow> string) \<Rightarrow> tool_call_input \<Rightarrow>
     (web_log, tool_call_result) eff" where
  "safe_web_fetch policy client encode lossy input =
     (if \<not> tp_allow_web_fetch policy then
        errE (InvalidInput ''web_fetch_safe is disabled by runtime policy; set KELVIN_TOOLPACK_ENABLE_WEB_FETCH=1 to enable'')
      else bindE (liftE (args_object (tci_arguments input) ''web_fetch_safe'')) (\<lambda>args.
      bindE (liftE (require_sensitive_approval args ''web_fetch'')) (\<lambda>reason.
      bindE (liftE (required_string args ''url'' ''web_fetch_safe'')) (\<lambda>raw.
      bindE (liftE (optional_u64 args ''timeout_ms'' ''web_fetch_safe'')) (\<lambda>timeout.
      bindE (liftE (optional_u64 args ''max_bytes'' ''web_fetch_safe'')) (\<lambda>requested.
      bindE (liftE (case wc_parse client raw of Inr url \<Rightarrow> Inr url
        | Inl err \<Rightarrow> Inl (InvalidInput (''web_fetch_safe invalid url '' @ quoted raw @ '': '' @ err)))) (\<lambda>url.
      bindE (liftE (check_url policy url)) (\<lambda>host.
      fetch_exchange client encode lossy url host (fetch_timeout timeout) (fetch_limit policy requested) reason))))))))"

subsection \<open>Walking paths\<close>

definition names_of :: "string list \<Rightarrow> string list" where
  "names_of ss = filter (\<lambda>s. s \<noteq> [] \<and> s \<noteq> ''.'') ss"

lemma names_of_append [simp]: "names_of (a @ b) = names_of a @ names_of b"
  by (simp add: names_of_def)

lemma walk_append: "walk t cur (a @ b) = Option.bind (walk t cur a) (\<lambda>c. walk t c b)"
  by (induction t cur a rule: walk.induct) auto

lemma walk_dot: "b \<noteq> [] \<Longrightarrow> walk t cur (''.'' # b) = walk t cur b"
  by (cases b) auto

lemma walk_names: "''..'' \<notin> set ss \<Longrightarrow> walk t cur ss = Some ns \<Longrightarrow> ns = cur @ names_of ss"
  by (induction t cur ss rule: walk.induct) (auto simp: names_of_def split: if_splits)

lemma walk_from_dir: "walk t cur ss = Some w \<Longrightarrow> t w = Some DirNode \<Longrightarrow> t cur = Some DirNode"
  by (cases ss) (auto split: if_splits)

lemma walk_only_dots: "names_of ss = [] \<Longrightarrow> ss \<noteq> [] \<Longrightarrow> ''..'' \<notin> set ss \<Longrightarrow> walk t cur ss = Some ns \<Longrightarrow> ns = cur \<and> t cur = Some DirNode"
  by (frule (1) walk_names) (cases ss; auto simp: names_of_def split: if_splits)

lemma walk_upd: "t ns \<noteq> Some DirNode \<Longrightarrow> walk (t(ns \<mapsto> FileNode b)) cur ss = walk t cur ss"
  by (induction t cur ss rule: walk.induct) auto

lemma walk_more_dirs:
  assumes "\<And>ns. t ns = Some DirNode \<Longrightarrow> t' ns = Some DirNode"
  shows "walk t cur ss = Some w \<Longrightarrow> walk t' cur ss = Some w"
  using assms by (induction t cur ss rule: walk.induct) (auto split: if_splits)

text \<open>Making directories only adds directories, below where it starts when the path never goes up.\<close>

lemma make_dirs_Cons: "make_dirs e k cur (s # ss) t =
    (if s = [] \<or> s = ''.'' then make_dirs e k cur ss t
     else if s = ''..'' then make_dirs e k (butlast cur) ss t
     else case t (cur @ [s]) of
         Some DirNode \<Rightarrow> make_dirs e k (cur @ [s]) ss t
       | Some (FileNode _) \<Rightarrow> (Inl (Io e), t)
       | None \<Rightarrow> if k = 0 then (Inl (Io e), t) else make_dirs e (k - 1) (cur @ [s]) ss (t(cur @ [s] \<mapsto> DirNode)))"
  by (simp add: bindE_apply seqE_def split: option.split fs_node.split)

declare make_dirs.simps(2) [simp del]

lemma make_dirs_change:
  "make_dirs e k cur ss t = (r, t') \<Longrightarrow> t' ns = t ns \<or> (t ns = None \<and> t' ns = Some DirNode)"
proof (induction ss arbitrary: k cur t)
  case (Cons s ss)
  note IH = Cons.IH
  show ?case
  proof (cases "s \<in> {[], ''.'', ''..''} \<or> t (cur @ [s]) \<noteq> None \<or> k = 0")
    case True
    with Cons.prems show ?thesis by (auto simp: make_dirs_Cons split: if_splits option.splits fs_node.splits dest!: IH)
  next
    case False
    with Cons.prems have "make_dirs e (k - 1) (cur @ [s]) ss (t(cur @ [s] \<mapsto> DirNode)) = (r, t')"
      by (auto simp: make_dirs_Cons)
    from IH [OF this] False show ?thesis by (auto split: if_splits)
  qed
qed (simp add: eff_defs)

lemma make_dirs_below:
  "make_dirs e k cur ss t = (r, t') \<Longrightarrow> ''..'' \<notin> set ss \<Longrightarrow> t' ns = t ns \<or> (\<exists>rest. ns = cur @ rest)"
proof (induction ss arbitrary: k cur t)
  case (Cons s ss)
  note IH = Cons.IH
  have down: "\<exists>rest. ns = cur @ rest" if "\<exists>rest. ns = (cur @ [s]) @ rest" using that by auto
  show ?case
  proof (cases "s \<in> {[], ''.''} \<or> t (cur @ [s]) \<noteq> None \<or> k = 0")
    case True
    with Cons.prems show ?thesis
      by (auto simp: make_dirs_Cons split: if_splits option.splits fs_node.splits dest!: IH)
  next
    case False
    with Cons.prems have "make_dirs e (k - 1) (cur @ [s]) ss (t(cur @ [s] \<mapsto> DirNode)) = (r, t')"
      by (auto simp: make_dirs_Cons)
    from IH [OF this] Cons.prems(2) False down show ?thesis by (auto split: if_splits)
  qed
qed (simp add: eff_defs)

lemma make_dirs_append:
  "walk t cur a = Some w \<Longrightarrow> t w = Some DirNode \<Longrightarrow> make_dirs e k cur (a @ b) t = make_dirs e k w b t"
proof (induction a arbitrary: cur)
  case (Cons s a)
  have dir: "walk t (cur @ [s]) a = Some w \<Longrightarrow> t (cur @ [s]) = Some DirNode"
    by (erule walk_from_dir) (rule Cons.prems(2))
  show ?case using Cons dir by (auto simp: make_dirs_Cons split: if_splits)
qed simp

lemma make_dirs_keeps_dirs: "make_dirs e k cur ss t = (r, t') \<Longrightarrow> t ns = Some DirNode \<Longrightarrow> t' ns = Some DirNode"
  using make_dirs_change [of e k cur ss t r t' ns] by auto

subsection \<open>A workspace path\<close>

lemma segments_last_slash: "segments (a @ ''/'') = segments a @ [[]]"
  using split_char_append [of "CHR ''/''" a "[]"] by (simp add: segments_def)

lemma segments_slash: "segments (a @ CHR ''/'' # b) = segments a @ segments b"
  by (simp add: segments_def split_char_append)

text \<open>The segments of a path joined to an existing directory lead there first.\<close>

definition dir_part :: "string \<Rightarrow> string list" where
  "dir_part ws = (if ws = [] then [] else if last ws = CHR ''/'' then segments (butlast ws) else segments ws)"

lemma path_join_segments:
  assumes "path \<noteq> []" and "\<not> starts_with ''/'' path"
  shows "segments (path_join ws path) = dir_part ws @ segments path"
    and "start_of io (path_join ws path) = start_of io ws"
proof -
  consider "ws = []" | b where "ws = b @ ''/''" | "ws \<noteq> []" "last ws \<noteq> CHR ''/''"
    by (metis append_butlast_last_id)
  then have "segments (path_join ws path) = dir_part ws @ segments path \<and>
      start_of io (path_join ws path) = start_of io ws"
  proof cases
    case 1
    with assms show ?thesis by (simp add: path_join_def dir_part_def start_of_def starts_with_def)
  next
    case 2
    then have "path_join ws path = b @ CHR ''/'' # path" using assms by (simp add: path_join_def)
    then show ?thesis using 2 segments_slash [of b path]
      by (cases b) (auto simp: dir_part_def start_of_def starts_with_def)
  next
    case 3
    then have "path_join ws path = ws @ CHR ''/'' # path" using assms by (simp add: path_join_def)
    then show ?thesis using 3 segments_slash [of ws path]
      by (cases ws) (auto simp: dir_part_def start_of_def starts_with_def)
  qed
  then show "segments (path_join ws path) = dir_part ws @ segments path"
    "start_of io (path_join ws path) = start_of io ws" by simp_all
qed

lemma walk_dir_part:
  assumes "locate t io ws = Some w" and "t w = Some DirNode"
  shows "walk t (start_of io ws) (dir_part ws) = Some w"
proof (cases ws rule: rev_cases)
  case Nil
  with assms show ?thesis by (simp add: dir_part_def locate_def segments_def split: if_splits)
next
  case (snoc b c)
  with assms show ?thesis
    by (cases "c = CHR ''/''")
       (auto simp: dir_part_def locate_def segments_last_slash walk_append bind_eq_Some_conv split: if_splits)
qed

lemma parent_segments_append:
  assumes "names_of b \<noteq> []"
  shows "parent_segments (a @ b) = a @ parent_segments b"
proof -
  let ?dots = "\<lambda>s. s = [] \<or> s = ''.''"
  from assms obtain x where x: "x \<in> set (rev b)" "\<not> ?dots x" by (auto simp: names_of_def filter_empty_conv)
  then have some: "dropWhile ?dots (rev b) \<noteq> []" by (auto simp: dropWhile_eq_Nil_conv)
  from x have "dropWhile ?dots (rev (a @ b)) = dropWhile ?dots (rev b) @ rev a" by (simp add: dropWhile_append1)
  with some show ?thesis by (cases "dropWhile ?dots (rev b)") (auto simp: parent_segments_def)
qed

lemma parent_segments_dots: "names_of b = [] \<Longrightarrow> parent_segments (a @ b) = parent_segments a"
  by (induction b rule: rev_induct) (auto simp: parent_segments_def names_of_def append_assoc [symmetric] simp del: append_assoc split: if_splits)

lemma set_parent_segments: "set (parent_segments ss) \<subseteq> set ss"
  by (auto simp: parent_segments_def dest!: in_set_dropD set_dropWhileD)


subsection \<open>Where a write can reach\<close>

definition write_roots :: "string list list" where
  "write_roots = [[''.kelvinclaw'', ''sandbox''], [''memory''], [''notes'']]"

lemma write_scope_segments:
  assumes "write_scope_allowed path"
  obtains root rest where "root \<in> set write_roots" and "segments path = root @ segments rest"
proof -
  have "segments (''memory/'' @ x) = [''memory''] @ segments x" for x by (simp add: segments_def)
  moreover have "segments (''notes/'' @ x) = [''notes''] @ segments x" for x by (simp add: segments_def)
  moreover have "segments (''.kelvinclaw/sandbox/'' @ x) = [''.kelvinclaw'', ''sandbox''] @ segments x" for x
    by (simp add: segments_def)
  moreover from assms obtain x where "path \<in> {''.kelvinclaw/sandbox/'' @ x, ''memory/'' @ x, ''notes/'' @ x}"
    by (auto simp: write_scope_allowed_def DEFAULT_FS_WRITE_SCOPE_def starts_with_iff)
  ultimately have "\<exists>root\<in>set write_roots. segments path = root @ segments x" by (auto simp: write_roots_def)
  with that show ?thesis by blast
qed

lemma safe_fs_write_cases:
  assumes "safe_fs_write policy io encode input t = (r, t')"
  obtains (refused) "t' = t" "\<exists>e. r = Inl e"
  | (writes) args reason raw path content given where "tp_allow_fs_write policy" "tci_arguments input = JObj args"
      "require_sensitive_approval args ''filesystem_write'' = Inr reason"
      "required_string args ''path'' ''fs_safe_write'' = Inr raw"
      "normalize_workspace_relative_path raw ''path'' = Inr path" "write_scope_allowed path"
      "required_string_content args ''content'' ''fs_safe_write'' = Inr content"
      "optional_string args ''mode'' ''fs_safe_write'' = Inr given"
      "to_ascii_lowercase (opt_or given ''overwrite'') \<in> {''overwrite'', ''append''}"
      "seqE (create_parent io (path_join (tci_workspace_dir input) path))
         (seqE (write_file io (to_ascii_lowercase (opt_or given ''overwrite'') = ''append'')
            (path_join (tci_workspace_dir input) path) (utf8_bytes content))
         (okE (write_answer encode path (to_ascii_lowercase (opt_or given ''overwrite'')) content reason))) t = (r, t')"
  using assms unfolding safe_fs_write_def Let_def args_object_def
  by (auto simp: bindE_apply split: if_splits sum.splits json.splits)


lemma relative_path_iff: "normalize_workspace_relative_path raw f = Inr p \<longleftrightarrow>
    p = backslashed (trim raw) \<and> p \<noteq> [] \<and> \<not> starts_with ''/'' p \<and> ''..'' \<notin> set (segments p)"
  by (auto simp: normalize_workspace_relative_path_def Let_def ParentDir_segment segments_def)

lemma write_file_change:
  assumes "write_file io app path bytes t = (r, t')" and "t' ns \<noteq> t ns"
  shows "locate t io path = Some ns \<and> t ns \<noteq> Some DirNode \<and> (\<exists>b. t' ns = Some (FileNode b))"
  using assms by (auto simp: write_file_def Let_def split: if_splits option.splits fs_node.splits)

text \<open>Where the path of a write leads, before the directories on its way are made and after.\<close>

lemma scoped_target:
  assumes "normalize_workspace_relative_path raw f = Inr path" and "write_scope_allowed path"
    and "locate t io ws = Some w" and "t w = Some DirNode"
    and "create_parent io (path_join ws path) t = (r, t1)"
  shows "t1 ns = t ns \<or> (t ns = None \<and> t1 ns = Some DirNode \<and> (\<exists>rest. ns = w @ rest))"
    and "locate t1 io (path_join ws path) = Some ns \<Longrightarrow> t1 ns \<noteq> Some DirNode \<Longrightarrow>
      \<exists>root\<in>set write_roots. \<exists>rest. rest \<noteq> [] \<and> ns = w @ root @ rest"
proof -
  from assms(1) have p: "path \<noteq> []" "\<not> starts_with ''/'' path" "''..'' \<notin> set (segments path)"
    unfolding relative_path_iff by blast+
  let ?a = "dir_part ws"
  note a = path_join_segments [OF p(1,2)] and there = walk_dir_part [OF assms(3,4)]
  obtain root rest where root: "root \<in> set write_roots" "segments path = root @ segments rest"
    by (rule write_scope_segments [OF assms(2)])
  have names: "names_of (segments path) = root @ names_of (segments rest)" and "root \<noteq> []"
    using root by (auto simp: write_roots_def names_of_def)
  then have "parent_segments (?a @ segments path) = ?a @ parent_segments (segments path)"
    by (intro parent_segments_append) simp
  then have made: "make_dirs (fi_text io) (fi_new_dirs io) w (parent_segments (segments path)) t = (r, t1)"
    using assms(5) a there assms(4) by (simp add: create_parent_def make_dirs_append)
  have "''..'' \<notin> set (parent_segments (segments path))" using p(3) set_parent_segments by blast
  with made show "t1 ns = t ns \<or> (t ns = None \<and> t1 ns = Some DirNode \<and> (\<exists>rest. ns = w @ rest))"
    using make_dirs_change [OF made, of ns] make_dirs_below [OF made, of ns] by blast
  assume "locate t1 io (path_join ws path) = Some ns" and no_dir: "t1 ns \<noteq> Some DirNode"
  moreover have "walk t1 (start_of io ws) ?a = Some w"
    using there make_dirs_keeps_dirs [OF made] by (rule walk_more_dirs [rotated])
  ultimately have walked: "walk t1 w (segments path) = Some ns" by (simp add: locate_def a walk_append)
  then have ns: "ns = w @ root @ names_of (segments rest)" using walk_names p(3) names by fastforce
  have "names_of (segments rest) \<noteq> []"
  proof
    assume none: "names_of (segments rest) = []"
    from walked obtain c where c: "walk t1 c (segments rest) = Some ns"
      by (auto simp: root(2) walk_append bind_eq_Some_conv)
    moreover have "''..'' \<notin> set (segments rest)" using p(3) by (simp add: root(2))
    moreover have "segments rest \<noteq> []" by (simp add: segments_def)
    ultimately have "ns = c \<and> t1 c = Some DirNode" using walk_only_dots [OF none] by blast
    with no_dir show False by simp
  qed
  with ns root(1) show "\<exists>root\<in>set write_roots. \<exists>rest. rest \<noteq> [] \<and> ns = w @ root @ rest" by blast
qed

text \<open>
  \<^bold>\<open>C33.\<close> Whatever a call of \<open>fs_safe_write\<close> changes, its policy allows writing and its arguments carry an approval;
  directories are only added, below the workspace, and the one file it writes lies strictly below \<open>.kelvinclaw/sandbox\<close>,
  \<open>memory\<close> or \<open>notes\<close> of the workspace, whatever the path says and wherever an error stops the call.
\<close>

theorem writes_confined:
  assumes "safe_fs_write policy io encode input t = (r, t')" and "t' ns \<noteq> t ns"
    and "locate t io (tci_workspace_dir input) = Some w" and "t w = Some DirNode"
  shows "tp_allow_fs_write policy \<and>
    (\<exists>args reason. tci_arguments input = JObj args \<and> require_sensitive_approval args ''filesystem_write'' = Inr reason) \<and>
    ((t ns = None \<and> t' ns = Some DirNode \<and> (\<exists>rest. ns = w @ rest)) \<or>
     (\<exists>root\<in>set write_roots. \<exists>rest bytes. rest \<noteq> [] \<and> ns = w @ root @ rest \<and> t' ns = Some (FileNode bytes)))"
  using assms(1)
proof (cases rule: safe_fs_write_cases)
  case refused
  with assms(2) show ?thesis by simp
next
  case (writes args reason raw path content given)
  obtain r1 t1 where c: "create_parent io (path_join (tci_workspace_dir input) path) t = (r1, t1)" by fastforce
  note target = scoped_target [OF writes(5,6) assms(3,4) c]
  have "(t ns = None \<and> t' ns = Some DirNode \<and> (\<exists>rest. ns = w @ rest)) \<or>
     (\<exists>root\<in>set write_roots. \<exists>rest bytes. rest \<noteq> [] \<and> ns = w @ root @ rest \<and> t' ns = Some (FileNode bytes))"
  proof (cases "t' ns = t1 ns")
    case True
    with target(1) [of ns] assms(2) show ?thesis by auto
  next
    case False
    with writes(10) c obtain r2 where
      "write_file io (to_ascii_lowercase (opt_or given ''overwrite'') = ''append'')
         (path_join (tci_workspace_dir input) path) (utf8_bytes content) t1 = (r2, t')"
      by (auto simp: seqE_def bindE_apply split: prod.splits sum.splits)
    from write_file_change [OF this False] target(2) [of ns] show ?thesis by blast
  qed
  with writes(1-3) show ?thesis by blast
qed


subsection \<open>Reading back\<close>

lemma length_utf8_bytes: "length (utf8_bytes s) = utf8_len s"
  by (induction s) (auto simp: utf8_bytes_def utf8_len_def)

lemma backslashed_trim_clean: "trim p = p \<Longrightarrow> CHR 92 \<notin> set p \<Longrightarrow> backslashed (trim p) = p"
  unfolding backslashed_def by (auto intro!: map_idI)

lemma write_scope_not_sensitive:
  assumes "write_scope_allowed path"
  shows "\<not> deny_sensitive_read_path path"
proof -
  from assms obtain x where "path \<in> {''.kelvinclaw/sandbox/'' @ x, ''memory/'' @ x, ''notes/'' @ x}"
    by (auto simp: write_scope_allowed_def DEFAULT_FS_WRITE_SCOPE_def starts_with_iff)
  then consider "path = ''.kelvinclaw/sandbox/'' @ x" | "path = ''memory/'' @ x" | "path = ''notes/'' @ x" by blast
  then show ?thesis
    by cases (simp_all add: deny_sensitive_read_path_def SENSITIVE_PATHS_COMPARE_def SENSITIVE_PATHS_PREFIX_def
      starts_with_def to_ascii_lowercase_def to_ascii_lower_char_def code_def char_of_eq_code)
qed

text \<open>\<open>fs_safe_read\<close> on a path it accepts: the bytes up to the limit, and whether there were more.\<close>

lemma safe_fs_read_file:
  assumes "tci_arguments input = JObj [(''path'', JStr p)]" and "trim p \<noteq> []" and "\<not> list_ex is_control (trim p)"
    and "normalize_workspace_relative_path (trim p) ''path'' = Inr path" and "\<not> deny_sensitive_read_path path"
    and "file_at t io (path_join (tci_workspace_dir input) path) = Some bytes" and "fi_open io" and "fi_read io"
    and "1 \<le> tp_max_read_bytes policy" and "tp_max_read_bytes policy < u64_max"
  shows "safe_fs_read policy io encode lossy input t =
    Inr (read_answer encode lossy path (take (tp_max_read_bytes policy) bytes) (tp_max_read_bytes policy < length bytes))"
proof -
  let ?n = "tp_max_read_bytes policy"
  have "read_limit policy None = ?n" using assms(9) by (simp add: read_limit_def)
  moreover have "sat_add64 ?n 1 = Suc ?n" using assms(10) by (simp add: sat_add64_def)
  moreover have "(if ?n < length (take (Suc ?n) bytes) then take ?n (take (Suc ?n) bytes) else take (Suc ?n) bytes) = take ?n bytes"
    by (auto simp: min_def)
  moreover have "?n < length (take (Suc ?n) bytes) \<longleftrightarrow> ?n < length bytes" by auto
  ultimately show ?thesis
    using assms(1-8)
    by (simp add: safe_fs_read_def args_object_def required_string_def arg_str_def json_str_def optional_u64_def Let_def
      del: length_take)
qed


lemma written_file_at:
  assumes "write_file io False path bytes t = (Inr (), t')"
  shows "file_at t' io path = Some bytes"
  using assms walk_upd [of t] by (auto simp: write_file_def file_at_def locate_def Let_def split: if_splits option.splits fs_node.splits)

lemma file_at_cwd: "fi_cwd io' = fi_cwd io \<Longrightarrow> file_at t io' path = file_at t io path"
  by (simp add: file_at_def locate_def start_of_def)

text \<open>
  What \<open>fs_safe_write\<close> wrote with mode \<open>overwrite\<close>, \<open>fs_safe_read\<close> answers from the same workspace: the bytes of the
  content up to the limit of the policy, marked as truncated exactly if there were more.
\<close>

theorem written_then_read:
  assumes "safe_fs_write policy io encode input t = (Inr r, t')"
    and "tci_arguments input = JObj args" and "arg_str args ''path'' = Some p"
    and "required_string_content args ''content'' ''fs_safe_write'' = Inr content"
    and "optional_string args ''mode'' ''fs_safe_write'' \<in> {Inr None, Inr (Some ''overwrite'')}"
    and "tci_arguments again = JObj [(''path'', JStr p)]" and "tci_workspace_dir again = tci_workspace_dir input"
    and "fi_cwd io' = fi_cwd io" and "fi_open io'" and "fi_read io'"
    and "1 \<le> tp_max_read_bytes policy" and "tp_max_read_bytes policy < u64_max"
  shows "safe_fs_read policy io' encode lossy again t' =
    Inr (read_answer encode lossy (backslashed (trim p)) (take (tp_max_read_bytes policy) (utf8_bytes content))
      (tp_max_read_bytes policy < utf8_len content))"
  using assms(1)
proof (cases rule: safe_fs_write_cases)
  case refused
  then show ?thesis by simp
next
  case (writes args' reason raw path content' given)
  have same: "args' = args" "content' = content" using writes assms(2,4) by auto
  have p: "raw = trim p" "trim p \<noteq> []" "\<not> list_ex is_control (trim p)"
    using writes(4) assms(3) by (auto simp: same required_string_def split: if_splits)
  have path: "path = backslashed (trim p)" using writes(5) by (simp add: relative_path_iff p(1))
  have mode: "to_ascii_lowercase (opt_or given ''overwrite'') = ''overwrite''"
    using writes(8) assms(5) by (auto simp: same opt_or_def to_ascii_lowercase_def to_ascii_lower_char_def code_def)
  obtain t1 where "write_file io False (path_join (tci_workspace_dir input) path) (utf8_bytes content) t1 = (Inr (), t')"
    using writes(10) by (auto simp: mode same seqE_def bindE_apply split: prod.splits sum.splits)
  then have "file_at t' io' (path_join (tci_workspace_dir again) path) = Some (utf8_bytes content)"
    using written_file_at file_at_cwd [OF assms(8)] assms(7) by simp
  with safe_fs_read_file [OF assms(6) p(2,3) _ _ this assms(9-12)] writes(5,6) write_scope_not_sensitive p(1)
  show ?thesis by (simp add: path length_utf8_bytes)
qed

subsection \<open>The sensitive paths\<close>

lemma deny_needs_dot: "deny_sensitive_read_path p \<Longrightarrow> \<exists>c q. p = CHR ''.'' # c # q \<and> c \<noteq> CHR ''/'' \<and> c \<noteq> CHR ''.''"
proof -
  assume "deny_sensitive_read_path p"
  then obtain c q where lower: "to_ascii_lowercase p = CHR ''.'' # c # q" "c \<in> {CHR ''e'', CHR ''g'', CHR ''k''}"
    by (auto simp: deny_sensitive_read_path_def Let_def SENSITIVE_PATHS_COMPARE_def SENSITIVE_PATHS_PREFIX_def starts_with_iff)
  then obtain a b q' where p: "p = a # b # q'" "to_ascii_lower_char a = CHR ''.''" "to_ascii_lower_char b = c"
    by (auto simp: to_ascii_lowercase_def)
  have "a = CHR ''.''"
  proof (rule ccontr)
    assume "a \<noteq> CHR ''.''"
    then have "65 \<le> code a" "code a \<le> 90" "code (char_of (code a + 32)) = code (CHR ''.'')"
      using p(2) by (auto simp: to_ascii_lower_char_def split: if_splits)
    moreover have "code (CHR ''.'') = 46" by (simp add: code_def)
    ultimately show False by (simp add: code_char_of)
  qed
  moreover have "b \<noteq> CHR ''/''" "b \<noteq> CHR ''.''"
    using p(3) lower(2) by (auto simp: to_ascii_lower_char_def code_def split: if_splits)
  ultimately show ?thesis using p(1) by blast
qed


definition reading :: "string \<Rightarrow> string \<Rightarrow> tool_call_input" where
  "reading ws path = \<lparr>tci_run_id = ''r'', tci_session_id = ''s'', tci_workspace_dir = ws,
     tci_arguments = JObj [(''path'', JStr path)]\<rparr>"

text \<open>
  \<^bold>\<open>C34.\<close> Every file that \<open>fs_safe_read\<close> keeps back as sensitive it hands out when \<open>./\<close> is put in front of the path: the refusal
  looks at the text of the path, the file system at where it leads.
\<close>

theorem dot_slash_reads_sensitive:
  assumes "deny_sensitive_read_path p" and "trim p = p" and "\<not> list_ex is_control p"
    and "normalize_workspace_relative_path p ''path'' = Inr p"
    and "file_at t io (path_join ws p) = Some bytes" and "fi_open io" and "fi_read io"
    and "1 \<le> tp_max_read_bytes policy" and "tp_max_read_bytes policy < u64_max"
  shows "safe_fs_read policy io encode lossy (reading ws p) t =
      Inl (InvalidInput (''fs_safe_read denied path '' @ quoted p @ '' by policy'')) \<and>
    safe_fs_read policy io encode lossy (reading ws (''./'' @ p)) t =
      Inr (read_answer encode lossy (''./'' @ p) (take (tp_max_read_bytes policy) bytes) (tp_max_read_bytes policy < length bytes))"
proof
  obtain c q where dot: "p = CHR ''.'' # c # q" "c \<noteq> CHR ''/''" "c \<noteq> CHR ''.''" using deny_needs_dot [OF assms(1)] by blast
  have ws: "\<not> is_whitespace (CHR ''.'')" by (simp add: is_whitespace_def code_def)
  have p: "\<not> starts_with ''/'' p" "''..'' \<notin> set (segments p)" "backslashed p = p"
    using assms(2,4) by (auto simp: relative_path_iff)
  show "safe_fs_read policy io encode lossy (reading ws p) t =
      Inl (InvalidInput (''fs_safe_read denied path '' @ quoted p @ '' by policy''))"
    using assms(1-4) dot(1)
    by (simp add: safe_fs_read_def reading_def args_object_def required_string_def arg_str_def json_str_def)
  have "trim_end p = p" using assms(2) dot(1) ws by (simp add: trim_def trim_start_def)
  then have "dropWhile is_whitespace (rev p) = rev p" unfolding trim_end_def by (metis rev_rev_ident)
  then have "\<not> is_whitespace (last p)" using dot(1) by (simp only: dropWhile_eq_self_iff hd_rev) simp
  then have "dropWhile is_whitespace (rev (''./'' @ p)) = rev (''./'' @ p)"
    using dot(1) by (simp only: dropWhile_eq_self_iff hd_rev) simp
  then have "trim_end (''./'' @ p) = ''./'' @ p" unfolding trim_end_def by (metis rev_rev_ident)
  then have trimmed: "trim (''./'' @ p) = ''./'' @ p" using ws by (simp add: trim_def trim_start_def)
  have segs: "segments (''./'' @ p) = ''.'' # segments p" by (simp add: segments_def)
  have norm: "normalize_workspace_relative_path (''./'' @ p) ''path'' = Inr (''./'' @ p)"
    using p unfolding relative_path_iff trimmed segs by (simp add: backslashed_def starts_with_def)
  have clear: "\<not> deny_sensitive_read_path (''./'' @ p)" using deny_needs_dot [of "''./'' @ p"] by auto
  have ne: "segments p \<noteq> []" by (simp add: segments_def)
  have nonempty: "p \<noteq> []" "''./'' @ p \<noteq> []" "\<not> starts_with ''/'' (''./'' @ p)" using dot(1) by (auto simp: starts_with_def)
  have "locate t io (path_join ws (''./'' @ p)) = locate t io (path_join ws p)"
    using path_join_segments [where path = p, OF nonempty(1) p(1)] path_join_segments [where path = "''./'' @ p", OF nonempty(2,3)]
    by (simp add: locate_def segs [simplified] walk_append walk_dot ne del: walk.simps)
  then have "file_at t io (path_join ws (''./'' @ p)) = Some bytes" using assms(5) by (simp add: file_at_def)
  then show "safe_fs_read policy io encode lossy (reading ws (''./'' @ p)) t =
      Inr (read_answer encode lossy (''./'' @ p) (take (tp_max_read_bytes policy) bytes) (tp_max_read_bytes policy < length bytes))"
    using norm clear assms(3,6-9)
    by (intro safe_fs_read_file [where p = "''./'' @ p"]) (simp_all add: reading_def trimmed [simplified] is_control_def code_def)
qed


subsection \<open>What is fetched\<close>

lemma ends_with_iff: "ends_with p s \<longleftrightarrow> (\<exists>t. s = t @ p)"
  by (auto simp: ends_with_def starts_with_iff rev_swap) (metis rev_rev_ident)

lemma host_allowed_iff: "host_allowed host hosts \<longleftrightarrow> (\<exists>h. h = to_ascii_lowercase (trim host) \<and> h \<noteq> [] \<and>
    ((h \<in> set hosts \<and> \<not> starts_with ''*.'' h) \<or>
     (\<exists>d. ''*.'' @ d \<in> set hosts \<and> (h = d \<or> (\<exists>sub. h = sub @ ''.'' @ d)))))"
proof -
  have "(case strip_prefix ''*.'' p of Some d \<Rightarrow> h = d \<or> ends_with (''.'' @ d) h | None \<Rightarrow> h = p) \<longleftrightarrow>
      (h = p \<and> \<not> starts_with ''*.'' p) \<or> (\<exists>d. p = ''*.'' @ d \<and> (h = d \<or> (\<exists>sub. h = sub @ ''.'' @ d)))" for p h
  proof (cases "strip_prefix ''*.'' p")
    case None
    then have "\<not> starts_with ''*.'' p" by (auto simp: strip_prefix_def split: if_splits)
    with None show ?thesis by (auto simp: starts_with_iff)
  next
    case (Some d)
    then have "p = ''*.'' @ d" by (simp add: strip_prefix_Some_iff)
    then show ?thesis using Some by (simp add: ends_with_iff starts_with_def)
  qed
  then have "host_allowed host hosts \<longleftrightarrow> to_ascii_lowercase (trim host) \<noteq> [] \<and> (\<exists>p\<in>set hosts.
      (to_ascii_lowercase (trim host) = p \<and> \<not> starts_with ''*.'' p) \<or>
      (\<exists>d. p = ''*.'' @ d \<and> (to_ascii_lowercase (trim host) = d \<or> (\<exists>sub. to_ascii_lowercase (trim host) = sub @ ''.'' @ d))))"
    by (simp only: host_allowed_def Let_def list_ex_iff)
  then show ?thesis by blast
qed

lemma fetch_exchange_sends:
  assumes "fetch_exchange client encode lossy url host timeout_ms max_bytes reason sent = (r, sent')"
  shows "sent' = sent @ [(url, timeout_ms)]" and "r = Inr answer \<Longrightarrow>
    \<exists>response body. wc_send client url timeout_ms = Inr response \<and> ha_body response = Inr body \<and>
      length body \<le> max_bytes \<and> answer = fetch_answer encode lossy url host response body reason"
  using assms by (auto simp: fetch_exchange_def seqE_def bindE_apply receive_body_def split: sum.splits if_splits)

text \<open>
  \<^bold>\<open>C35.\<close> A call of \<open>web_fetch_safe\<close> sends one request at most, and only when the policy allows fetching and the arguments carry
  an approval: over http or https, to a host that is in the allowlist or under a wildcard of it, with a timeout between
  100 ms and 30 s. What it answers is no longer than the limit of the policy.
\<close>

theorem fetches_guarded:
  assumes "safe_web_fetch policy client encode lossy input sent = (r, sent')"
  shows "(sent' = sent \<and> (\<exists>e. r = Inl e)) \<or>
    (\<exists>url timeout host args reason. sent' = sent @ [(url, timeout)] \<and> tp_allow_web_fetch policy \<and>
      tci_arguments input = JObj args \<and> require_sensitive_approval args ''web_fetch'' = Inr reason \<and>
      to_ascii_lowercase (ul_scheme url) \<in> {''http'', ''https''} \<and> ul_host url = Some host \<and>
      host_allowed host (tp_web_allow_hosts policy) \<and> 100 \<le> timeout \<and> timeout \<le> 30000 \<and>
      (\<forall>answer. r \<noteq> Inr answer \<or> (\<exists>response body. wc_send client url timeout = Inr response \<and> ha_body response = Inr body \<and>
         length body \<le> max 1 (tp_max_fetch_bytes policy) \<and> answer = fetch_answer encode lossy url host response body reason)))"
proof (cases "sent' = sent \<and> (\<exists>e. r = Inl e)")
  case False
  have limit: "fetch_limit policy requested \<le> max 1 (tp_max_fetch_bytes policy)" for requested
    by (auto simp: fetch_limit_def clamp_usize_def split: option.splits)
  have bounds: "100 \<le> fetch_timeout t" "fetch_timeout t \<le> 30000" for t by (simp_all add: fetch_timeout_def)
  from assms False obtain args reason timeout requested url host where
    call: "tp_allow_web_fetch policy" "tci_arguments input = JObj args"
      "require_sensitive_approval args ''web_fetch'' = Inr reason" "check_url policy url = Inr host"
    and run: "fetch_exchange client encode lossy url host (fetch_timeout timeout) (fetch_limit policy requested) reason sent = (r, sent')"
    unfolding safe_web_fetch_def args_object_def
    by (auto simp: bindE_apply split: if_splits sum.splits json.splits)
  have url: "to_ascii_lowercase (ul_scheme url) \<in> {''http'', ''https''}" "ul_host url = Some host"
    "host_allowed host (tp_web_allow_hosts policy)"
    using call(4) by (auto simp: check_url_def split: if_splits option.splits)
  have "r \<noteq> Inr answer \<or> (\<exists>response body. wc_send client url (fetch_timeout timeout) = Inr response \<and> ha_body response = Inr body \<and>
      length body \<le> max 1 (tp_max_fetch_bytes policy) \<and> answer = fetch_answer encode lossy url host response body reason)" for answer
    using fetch_exchange_sends(2) [OF run, of answer] limit [of requested] le_trans by blast
  with fetch_exchange_sends(1) [OF run] call url bounds show ?thesis by blast
qed simp


subsection \<open>The theorems at work\<close>

definition fine_io :: fs_io where
  "fine_io = \<lparr>fi_cwd = [], fi_new_dirs = 10, fi_open = True, fi_written = None, fi_read = True, fi_text = ''error''\<rparr>"

definition open_policy :: tool_pack_policy where
  "open_policy = policy_from_env (\<lambda>_. None)"

definition demo_tree :: fs_tree where
  "demo_tree = [[] \<mapsto> DirNode, [''w''] \<mapsto> DirNode, [''w'', ''.env''] \<mapsto> FileNode [75, 61, 49]]"

definition approved_args :: "tool_args \<Rightarrow> json" where
  "approved_args args = JObj ((''approval'', JObj [(''granted'', JBool True), (''reason'', JStr ''asked for'')]) # args)"

definition demo_write :: tool_call_input where
  "demo_write = \<lparr>tci_run_id = ''r'', tci_session_id = ''s'', tci_workspace_dir = ''/w'',
     tci_arguments = approved_args [(''path'', JStr ''notes/a''), (''content'', JStr ''hi'')]\<rparr>"

definition demo_after :: fs_tree where
  "demo_after = demo_tree([''w'', ''notes''] \<mapsto> DirNode, [''w'', ''notes'', ''a''] \<mapsto> FileNode [104, 105])"

lemma demo_written:
  "\<exists>r. safe_fs_write open_policy fine_io (\<lambda>_. []) demo_write demo_tree = (Inr r, demo_after)"
  by (simp add: safe_fs_write_def open_policy_def policy_from_env_def env_bool_def demo_write_def approved_args_def args_object_def
    require_sensitive_approval_def arg_str_def json_str_def json_bool_def required_string_def required_string_content_def
    optional_string_def opt_or_def normalize_workspace_relative_path_def backslashed_def path_components_def segment_component_def
    List.map_filter_simps write_scope_allowed_def create_parent_def write_file_def locate_def segments_def start_of_def
    parent_segments_def path_join_def make_dirs_Cons fine_io_def demo_tree_def demo_after_def utf8_bytes_def seqE_def bindE_apply Let_def
    toolpack_consts str_eval)


theorem writes_confined_witness:
  "demo_after [''w'', ''notes'', ''a''] = Some (FileNode [104, 105]) \<and>
    (\<exists>root\<in>set write_roots. \<exists>rest. rest \<noteq> [] \<and> [''w'', ''notes'', ''a''] = [''w''] @ root @ rest)"
proof -
  obtain r where run: "safe_fs_write open_policy fine_io (\<lambda>_. []) demo_write demo_tree = (Inr r, demo_after)"
    using demo_written by blast
  have w: "locate demo_tree fine_io (tci_workspace_dir demo_write) = Some [''w'']" "demo_tree [''w''] = Some DirNode"
    by (simp_all add: locate_def demo_write_def segments_def start_of_def starts_with_def demo_tree_def)
  have "demo_after [''w'', ''notes'', ''a''] \<noteq> demo_tree [''w'', ''notes'', ''a'']"
    by (simp add: demo_after_def demo_tree_def)
  from writes_confined [OF run this w] show ?thesis by (auto simp: demo_after_def)
qed

theorem written_then_read_witness:
  "safe_fs_read open_policy fine_io (\<lambda>_. []) (map char_of) (reading ''/w'' ''notes/a'') demo_after =
    Inr (read_answer (\<lambda>_. []) (map char_of) ''notes/a'' [104, 105] False)"
proof -
  obtain r where run: "safe_fs_write open_policy fine_io (\<lambda>_. []) demo_write demo_tree = (Inr r, demo_after)"
    using demo_written by blast
  have "safe_fs_read open_policy fine_io (\<lambda>_. []) (map char_of) (reading ''/w'' ''notes/a'') demo_after =
      Inr (read_answer (\<lambda>_. []) (map char_of) (backslashed (trim ''notes/a''))
        (take (tp_max_read_bytes open_policy) (utf8_bytes ''hi'')) (tp_max_read_bytes open_policy < utf8_len ''hi''))"
    by (rule written_then_read [OF run, where args = "(''approval'', JObj [(''granted'', JBool True), (''reason'', JStr ''asked for'')]) #
          [(''path'', JStr ''notes/a''), (''content'', JStr ''hi'')]"])
       (simp_all add: demo_write_def approved_args_def arg_str_def json_str_def required_string_content_def optional_string_def
         reading_def fine_io_def open_policy_def policy_from_env_def toolpack_consts u64_max_def)
  then show ?thesis
    by (simp add: open_policy_def policy_from_env_def toolpack_consts utf8_bytes_def backslashed_def str_eval)
qed

theorem dot_slash_reads_sensitive_witness:
  "safe_fs_read open_policy fine_io (\<lambda>_. []) (map char_of) (reading ''/w'' ''.env'') demo_tree =
      Inl (InvalidInput (''fs_safe_read denied path '' @ quoted ''.env'' @ '' by policy'')) \<and>
    safe_fs_read open_policy fine_io (\<lambda>_. []) (map char_of) (reading ''/w'' ''./.env'') demo_tree =
      Inr (read_answer (\<lambda>_. []) (map char_of) ''./.env'' [75, 61, 49] False)"
proof -
  have read: "file_at demo_tree fine_io (path_join ''/w'' ''.env'') = Some [75, 61, 49]"
    by (simp add: file_at_def locate_def segments_def start_of_def path_join_def demo_tree_def starts_with_def)
  have denied: "deny_sensitive_read_path ''.env''"
    by (simp add: deny_sensitive_read_path_def SENSITIVE_PATHS_COMPARE_def str_eval)
  have path: "normalize_workspace_relative_path ''.env'' ''path'' = Inr ''.env''"
    by (simp add: normalize_workspace_relative_path_def backslashed_def path_components_def segment_component_def
      List.map_filter_simps str_eval)
  have plain: "trim ''.env'' = ''.env''" "\<not> list_ex is_control ''.env''" by (simp_all add: str_eval)
  have io: "fi_open fine_io" "fi_read fine_io" by (simp_all add: fine_io_def)
  have size: "1 \<le> tp_max_read_bytes open_policy" "tp_max_read_bytes open_policy < u64_max"
    by (simp_all add: open_policy_def policy_from_env_def toolpack_consts u64_max_def)
  from dot_slash_reads_sensitive [OF denied plain path read io size, of "\<lambda>_. []" "map char_of"]
  show ?thesis by (simp add: open_policy_def policy_from_env_def toolpack_consts)
qed

definition demo_client :: web_client where
  "demo_client = \<lparr>wc_parse = (\<lambda>s. Inr \<lparr>ul_scheme = ''https'', ul_host = Some ''docs.rs'', ul_text = s\<rparr>),
     wc_send = (\<lambda>_ _. Inr \<lparr>ha_status = 200, ha_content_type = None, ha_body = Inr [104, 105]\<rparr>)\<rparr>"

definition demo_fetch :: tool_call_input where
  "demo_fetch = \<lparr>tci_run_id = ''r'', tci_session_id = ''s'', tci_workspace_dir = ''/w'',
     tci_arguments = approved_args [(''url'', JStr ''https://docs.rs''), (''timeout_ms'', JNum ''5'')]\<rparr>"

theorem fetches_guarded_witness:
  "\<exists>url timeout. snd (safe_web_fetch open_policy demo_client (\<lambda>_. []) (map char_of) demo_fetch []) = [(url, timeout)] \<and>
    ul_host url = Some ''docs.rs'' \<and> host_allowed ''docs.rs'' (tp_web_allow_hosts open_policy) \<and> timeout = 100"
proof -
  obtain r sent where run: "safe_web_fetch open_policy demo_client (\<lambda>_. []) (map char_of) demo_fetch [] = (r, sent)" by fastforce
  have host: "host_allowed ''docs.rs'' (tp_web_allow_hosts open_policy)"
    by (simp add: open_policy_def policy_from_env_def parse_host_allowlist_def toolpack_consts host_allowed_def str_eval Let_def)
  then have sent: "sent = [(\<lparr>ul_scheme = ''https'', ul_host = Some ''docs.rs'', ul_text = ''https://docs.rs''\<rparr>, 100)]"
    using run
    by (simp add: safe_web_fetch_def fetch_exchange_def demo_client_def demo_fetch_def approved_args_def args_object_def
      require_sensitive_approval_def arg_str_def json_str_def json_bool_def json_u64_def required_string_def optional_u64_def
      check_url_def receive_body_def fetch_limit_def fetch_timeout_def clamp_usize_def opt_or_def open_policy_def
      policy_from_env_def env_bool_def toolpack_consts seqE_def bindE_apply Let_def u64_max_def str_eval)
  with fetches_guarded [OF run] run show ?thesis by auto
qed

end
