(* ===== verification/Toolpack.thy ===== *)
theory Toolpack
  imports Tool_Files Scheduler_Store Sdk_Sessions
begin

section \<open>The scheduler and session tools, and the loading of the pack (kelvin-sdk/src/toolpack.rs)\<close>

text \<open>
  \<open>schedule_cron\<close> works on the scheduler store and its state is the store's file; \<open>session_tools\<close> keeps one file of notes for
  a session under the home directory. serde_json is a parameter where it turns bytes into an object and back, the derived
  \<open>Deserialize\<close> of the reply target as well. \<open>load_default_toolpack_plugins\<close> registers the five tools as plugins.
\<close>

subsection \<open>schedule_cron\<close>

definition schedule_cron_tool :: tool_object where
  "schedule_cron_tool = \<lparr>to_name = ''schedule_cron'',
     to_description = ''Manage cron-scheduled tasks. Use action '' @ quoted ''list'' @ '' to see all tasks, '' @ quoted ''add'' @
       '' to create a new scheduled task, or '' @ quoted ''remove'' @ '' to delete one by id.'',
     to_input_schema = object_schema
       [(''action'', JObj [(''type'', JStr ''string''), (''enum'', JArr [JStr ''list'', JStr ''add'', JStr ''remove'']),
          (''description'', JStr (''The operation to perform. Defaults to '' @ quoted ''list'' @ ''.''))]),
        (''cron'', described ''string'' (''Cron expression for the schedule (required for '' @ quoted ''add'' @ '').'')),
        (''prompt'', described ''string'' (''The task/prompt to run on the schedule (required for '' @ quoted ''add'' @ '').'')),
        (''id'', described ''string'' (''Task identifier. Auto-generated for '' @ quoted ''add'' @ ''; required for '' @ quoted ''remove'' @ ''.'')),
        (''approval'', approval_schema)]
       [''approval'']\<rparr>"

text \<open>What a call depends on besides its input: the clock, read up to three times, the calendar and the store's I/O.\<close>

record schedule_env =
  sv_calendar :: calendar
  sv_now_id :: nat
  sv_now_created :: nat
  sv_now_store :: nat
  sv_io :: io_outcome
  sv_list_io :: io_outcome
  sv_decode_target :: "json \<Rightarrow> string + schedule_reply_target"
  sv_state_path :: string

definition parse_reply_target :: "schedule_env \<Rightarrow> tool_args \<Rightarrow> schedule_reply_target option kelvin_result" where
  "parse_reply_target env args = (case map_of args ''reply_target'' of None \<Rightarrow> Inr None
     | Some v \<Rightarrow> (case sv_decode_target env v of Inr t \<Rightarrow> Inr (Some t)
         | Inl err \<Rightarrow> Inl (InvalidInput (''schedule_cron invalid reply_target payload: '' @ err))))"

definition schedule_tool :: string where "schedule_tool = ''schedule_cron''"

text \<open>The arguments of \<open>add\<close>, in the order in which they are read.\<close>

definition new_task_of :: "schedule_env \<Rightarrow> tool_call_input \<Rightarrow> tool_args \<Rightarrow> string \<Rightarrow> new_scheduled_task kelvin_result" where
  "new_task_of env input args reason =
     bindR (optional_string args ''prompt'' schedule_tool) (\<lambda>given.
     bindR (optional_string args ''task'' schedule_tool) (\<lambda>task.
     bindR (case (given, task) of (Some p, _) \<Rightarrow> Inr p | (None, Some p) \<Rightarrow> Inr p
       | (None, None) \<Rightarrow> Inl (InvalidInput (''schedule_cron add requires '' @ quoted ''task'' @ '' or '' @ quoted ''prompt'')))
       (\<lambda>prompt.
     bindR (parse_reply_target env args) (\<lambda>target.
     bindR (optional_string args ''id'' schedule_tool) (\<lambda>given_id.
     bindR (required_string args ''cron'' schedule_tool) (\<lambda>cron.
     bindR (optional_string args ''session_id'' schedule_tool) (\<lambda>session.
     bindR (optional_string args ''workspace_dir'' schedule_tool) (\<lambda>workspace.
     bindR (optional_u64 args ''timeout_ms'' schedule_tool) (\<lambda>timeout.
     bindR (optional_string args ''system_prompt'' schedule_tool) (\<lambda>system.
     bindR (optional_string args ''memory_query'' schedule_tool) (\<lambda>query.
     Inr \<lparr>nt_id = opt_or given_id (''task-'' @ show_nat (sv_now_id env)), nt_cron = cron, nt_prompt = prompt,
          nt_session_id = session,
          nt_workspace_dir = (case workspace of Some w \<Rightarrow> Some w | None \<Rightarrow> Some (tci_workspace_dir input)),
          nt_timeout_ms = timeout, nt_system_prompt = system, nt_memory_query = query, nt_reply_target = target,
          nt_created_by_session = tci_session_id input, nt_created_at_ms = sv_now_created env,
          nt_approval_reason = reason\<rparr>)))))))))))"

definition schedule_disabled :: "string \<Rightarrow> kelvin_error" where
  "schedule_disabled action = InvalidInput (''schedule_cron '' @ action @
     '' is disabled by runtime policy; set KELVIN_TOOLPACK_ENABLE_SCHEDULER_WRITE=1'')"

definition schedule_add ::
    "schedule_env \<Rightarrow> tool_pack_policy \<Rightarrow> tool_call_input \<Rightarrow> tool_args \<Rightarrow> unit store_op" where
  "schedule_add env policy input args =
     (if \<not> tp_allow_scheduler_write policy then errE (schedule_disabled ''add'')
      else bindE (liftE (require_sensitive_approval args ''schedule_mutation'')) (\<lambda>reason.
      bindE (liftE (new_task_of env input args reason)) (\<lambda>task.
      seqE (add_schedule (sv_io env) (sv_calendar env) (sv_now_store env) task) (okE ()))))"

definition schedule_remove ::
    "schedule_env \<Rightarrow> tool_pack_policy \<Rightarrow> tool_call_input \<Rightarrow> tool_args \<Rightarrow> unit store_op" where
  "schedule_remove env policy input args =
     (if \<not> tp_allow_scheduler_write policy then errE (schedule_disabled ''remove'')
      else bindE (liftE (require_sensitive_approval args ''schedule_mutation'')) (\<lambda>reason.
      bindE (liftE (required_string args ''id'' schedule_tool)) (\<lambda>tid.
      seqE (remove_schedule (sv_io env) (sv_now_store env) tid (tci_session_id input) reason) (okE ()))))"

definition reply_target_json :: "schedule_reply_target option \<Rightarrow> json" where
  "reply_target_json t = (case t of None \<Rightarrow> JNull
     | Some r \<Rightarrow> JObj [(''channel'', JStr (rt_channel r)), (''account_id'', JStr (rt_account_id r))])"

definition schedule_json :: "scheduled_task \<Rightarrow> json" where
  "schedule_json t = JObj
     [(''id'', JStr (st_id t)), (''cron'', JStr (st_cron t)), (''task'', JStr (st_prompt t)), (''prompt'', JStr (st_prompt t)),
      (''session_id'', json_text_opt (st_session_id t)), (''workspace_dir'', json_text_opt (st_workspace_dir t)),
      (''timeout_ms'', case st_timeout_ms t of Some n \<Rightarrow> num n | None \<Rightarrow> JNull),
      (''system_prompt'', json_text_opt (st_system_prompt t)), (''memory_query'', json_text_opt (st_memory_query t)),
      (''reply_target'', reply_target_json (st_reply_target t)), (''created_by_session'', JStr (st_created_by_session t)),
      (''created_at_ms'', num (st_created_at_ms t)), (''approval_reason'', JStr (st_approval_reason t)),
      (''next_slot_at_ms'', num (st_next_slot_at_ms t))]"

definition schedule_answer :: "(json \<Rightarrow> string) \<Rightarrow> schedule_env \<Rightarrow> string \<Rightarrow> scheduled_task list \<Rightarrow> tool_call_result" where
  "schedule_answer encode env action tasks =
     tool_answer encode
       (''schedule_cron action='' @ quoted action @ '' tasks='' @ show_nat (length tasks))
       (JObj [(''action'', JStr action), (''count'', num (length tasks)), (''tasks'', JArr (map schedule_json tasks)),
         (''state_path'', JStr (sv_state_path env))]) False"

definition schedule_cron ::
    "schedule_env \<Rightarrow> tool_pack_policy \<Rightarrow> (json \<Rightarrow> string) \<Rightarrow> tool_call_input \<Rightarrow> tool_call_result store_op" where
  "schedule_cron env policy encode input =
     bindE (liftE (args_object (tci_arguments input) schedule_tool)) (\<lambda>args.
     bindE (liftE (optional_string args ''action'' schedule_tool)) (\<lambda>given.
     let action = to_ascii_lowercase (opt_or given ''list'') in
     seqE (if action = ''list'' then okE ()
           else if action = ''add'' then schedule_add env policy input args
           else if action = ''remove'' then schedule_remove env policy input args
           else errE (InvalidInput ''schedule_cron action must be one of: list, add, remove''))
     (bindE (list_schedules (sv_list_io env)) (\<lambda>tasks. okE (schedule_answer encode env action tasks)))))"

subsection \<open>session_tools\<close>

definition session_tools_tool :: tool_object where
  "session_tools_tool = \<lparr>to_name = ''session_tools'',
     to_description = ''Manage session-local notes. Use '' @ quoted ''list_notes'' @ '' to retrieve notes, '' @ quoted ''append_note'' @
       '' to add a note, or '' @ quoted ''clear_notes'' @ '' to delete all notes for this session.'',
     to_input_schema = object_schema
       [(''action'', JObj [(''type'', JStr ''string''),
          (''enum'', JArr [JStr ''list_notes'', JStr ''append_note'', JStr ''clear_notes'']),
          (''description'', JStr (''The operation to perform. Defaults to '' @ quoted ''list_notes'' @ ''.''))]),
        (''note'', described ''string'' (''The note text to append (required for '' @ quoted ''append_note'' @ '').'')),
        (''approval'', approval_schema)]
       [''approval'']\<rparr>"

definition session_state_path :: "environment \<Rightarrow> string \<Rightarrow> string kelvin_result" where
  "session_state_path env session_id = bindR (kelvin_home env) (\<lambda>home.
     Inr (path_join (path_join home ''session-tools'') (session_id @ ''.json'')))"

record notes_codec =
  nc_parse :: "nat list \<Rightarrow> string + tool_args"
  nc_write :: "tool_args \<Rightarrow> nat list"

definition load_notes :: "notes_codec \<Rightarrow> fs_io \<Rightarrow> string \<Rightarrow> fs_tree \<Rightarrow> tool_args kelvin_result" where
  "load_notes codec io path t = bindR (case file_at t io path of None \<Rightarrow> Inr []
     | Some bytes \<Rightarrow>
         if \<not> fi_open io \<or> \<not> fi_read io then Inl (Io (fi_text io))
         else (case nc_parse codec bytes of Inr m \<Rightarrow> Inr m
           | Inl err \<Rightarrow> Inl (InvalidInput (''session_tools invalid session state: '' @ err)))) (\<lambda>m.
     Inr (if ''notes'' \<in> fst ` set m then m else put_member ''notes'' (JArr []) m))"

definition note_json :: "string \<Rightarrow> string \<Rightarrow> nat \<Rightarrow> json" where
  "note_json note run_id now = JObj [(''text'', JStr note), (''run_id'', JStr run_id), (''ts_ms'', num now)]"

definition change_notes ::
    "tool_pack_policy \<Rightarrow> nat \<Rightarrow> tool_call_input \<Rightarrow> tool_args \<Rightarrow> string \<Rightarrow> tool_args \<Rightarrow> tool_args kelvin_result" where
  "change_notes policy now input args action state =
     (if action = ''list_notes'' then Inr state
      else if action = ''append_note'' then
        bindR (required_string_content args ''note'' ''session_tools'') (\<lambda>note.
        case Option.bind (map_of state ''notes'') json_arr of
          None \<Rightarrow> Inl (InvalidInput ''session notes state is malformed'')
        | Some notes \<Rightarrow> Inr (put_member ''notes'' (JArr (notes @ [note_json note (tci_run_id input) now])) state))
      else if action = ''clear_notes'' then
        (if \<not> tp_allow_session_clear policy then
           Inl (InvalidInput ''session_tools clear is disabled by runtime policy; set KELVIN_TOOLPACK_ENABLE_SESSION_CLEAR=1'')
         else bindR (require_sensitive_approval args ''session_clear'') (\<lambda>_.
           Inr (put_member ''notes'' (JArr []) state)))
      else Inl (InvalidInput ''session_tools action must be one of: list_notes, append_note, clear_notes''))"

definition notes_answer :: "(json \<Rightarrow> string) \<Rightarrow> string \<Rightarrow> string \<Rightarrow> string \<Rightarrow> tool_args \<Rightarrow> tool_call_result" where
  "notes_answer encode action session_id path state =
     (let count = (case Option.bind (map_of state ''notes'') json_arr of Some notes \<Rightarrow> length notes | None \<Rightarrow> 0) in
      tool_answer encode
        (''session_tools action='' @ quoted action @ '' notes='' @ show_nat count)
        (JObj [(''action'', JStr action), (''session_id'', JStr session_id), (''state_path'', JStr path),
          (''notes'', opt_or (map_of state ''notes'') (JArr []))]) False)"

definition session_tools ::
    "environment \<Rightarrow> tool_pack_policy \<Rightarrow> notes_codec \<Rightarrow> fs_io \<Rightarrow> (json \<Rightarrow> string) \<Rightarrow> nat \<Rightarrow> tool_call_input \<Rightarrow>
     (fs_tree, tool_call_result) eff" where
  "session_tools env policy codec io encode now input =
     bindE (liftE (args_object (tci_arguments input) ''session_tools'')) (\<lambda>args.
     bindE (liftE (optional_string args ''action'' ''session_tools'')) (\<lambda>given.
     let action = to_ascii_lowercase (opt_or given ''list_notes'') in
     bindE (liftE (session_state_path env (tci_session_id input))) (\<lambda>path.
     seqE (create_parent io path)
     (bindE (bindE (getsE (load_notes codec io path)) liftE) (\<lambda>state.
     bindE (liftE (change_notes policy now input args action state)) (\<lambda>state'.
     seqE (write_file io False path (nc_write codec state'))
     (okE (notes_answer encode action (tci_session_id input) path state'))))))))"

subsection \<open>Loading the pack\<close>

definition CARGO_PKG_VERSION :: string where "CARGO_PKG_VERSION = ''0.2.7''"

definition toolpack_manifest :: "string \<Rightarrow> string \<Rightarrow> plugin_capability list \<Rightarrow> string \<Rightarrow> plugin_manifest" where
  "toolpack_manifest pid nm capabilities description =
     \<lparr>pm_id = pid, pm_name = nm, pm_version = CARGO_PKG_VERSION, pm_api_version = KELVIN_CORE_API_VERSION,
      pm_description = Some description, pm_homepage = Some ''https://github.com/agentichighway/kelvinclaw'',
      pm_capabilities = capabilities, pm_experimental = False, pm_min_core_version = None, pm_max_core_version = None\<rparr>"

definition single_tool_plugin :: "plugin_manifest \<Rightarrow> tool_object \<Rightarrow> plugin_factory" where
  "single_tool_plugin m tool = \<lparr>pf_manifest = m, pf_tool = Some tool, pf_model_provider = None\<rparr>"

definition registration_policy :: plugin_security_policy where
  "registration_policy = \<lparr>allow_experimental = False, allow_fs_read = True, allow_network_egress = True,
     allow_fs_write = True, allow_command_execution = False\<rparr>"

definition toolpack_plugins :: "plugin_factory list" where
  "toolpack_plugins =
     [single_tool_plugin (toolpack_manifest ''kelvin.tool.fs_read'' ''Kelvin Safe FS Read Tool'' [CapToolProvider, CapFsRead]
        ''Workspace-scoped filesystem read with explicit path safety checks.'') fs_safe_read_tool,
      single_tool_plugin (toolpack_manifest ''kelvin.tool.fs_write'' ''Kelvin Safe FS Write Tool'' [CapToolProvider, CapFsWrite]
        ''Workspace-scoped filesystem write with explicit approval and deny-by-default path policy.'') fs_safe_write_tool,
      single_tool_plugin (toolpack_manifest ''kelvin.tool.web_fetch'' ''Kelvin Safe Web Fetch Tool'' [CapToolProvider, CapNetworkEgress]
        ''Host-mediated web fetch with strict host allowlist and payload bounds.'') web_fetch_safe_tool,
      single_tool_plugin (toolpack_manifest ''kelvin.tool.scheduler'' ''Kelvin Scheduler Tool'' [CapToolProvider, CapFsWrite]
        ''Durable scheduler registry tool with explicit mutation approval.'') schedule_cron_tool,
      single_tool_plugin (toolpack_manifest ''kelvin.tool.session'' ''Kelvin Session Tool'' [CapToolProvider, CapFsRead, CapFsWrite]
        ''Session-local note/state helper with explicit clear controls.'') session_tools_tool]"

text \<open>\<open>built\<close> is whether the HTTP client of the web tool can be built.\<close>

definition load_default_toolpack_plugins ::
    "'v semver \<Rightarrow> string + unit \<Rightarrow> string \<Rightarrow> (tool_map \<times> nat) kelvin_result" where
  "load_default_toolpack_plugins sv built core_version =
     (case built of Inl err \<Rightarrow> Inl (Backend (''build web fetch client: '' @ err))
      | Inr _ \<Rightarrow>
          bindR (register_plugins sv (map (\<lambda>p. (p, core_version, registration_policy)) toolpack_plugins) []) (\<lambda>reg.
          bindR (tool_registry_from reg) (\<lambda>tools. Inr (tools, length (tool_names tools)))))"

subsection \<open>What the scheduler tool may change\<close>

definition schedules_in :: "scheduler_file \<Rightarrow> scheduled_task list" where
  "schedules_in f = (case f of FileState st \<Rightarrow> schedules st | _ \<Rightarrow> [])"

lemma load_state_in:
  assumes "load_state io f = (r, f')"
  shows "schedules_in f' = schedules_in f" and "r = Inr st \<Longrightarrow> schedules st = schedules_in f"
  using assms by (auto simp: load_state_def schedules_in_def empty_state_def split: scheduler_file.splits sum.splits if_splits)

lemma save_state_in:
  "save_state io st f = (r, f') \<Longrightarrow> schedules_in f' = schedules_in f \<or> schedules_in f' = sort_key st_id (schedules st)"
  by (auto simp: save_state_def schedules_in_def persisted_def Let_def split: sum.splits)

lemma add_schedule_in:
  assumes "add_schedule io cal now n f = (r, f')" and "schedules_in f' \<noteq> schedules_in f"
  shows "\<exists>t. into_task cal now n = Inr t \<and> schedules_in f' = sort_key st_id (schedules_in f @ [t])"
proof -
  from assms(1,2) obtain t where t: "into_task cal now n = Inr t"
    by (cases "into_task cal now n") (auto simp: add_schedule_def bindE_apply)
  obtain r1 f1 where load: "load_state io f = (r1, f1)" by fastforce
  note l = load_state_in [OF load]
  from assms t load l show ?thesis
    by (auto simp: add_schedule_def with_state_mut_def seqE_def bindE_apply split: sum.splits if_splits prod.splits
      dest!: save_state_in)
qed

lemma remove_schedule_in:
  assumes "remove_schedule io now tid actor reason f = (r, f')" and "schedules_in f' \<noteq> schedules_in f"
  shows "schedules_in f' = sort_key st_id (filter (\<lambda>t. st_id t \<noteq> tid) (schedules_in f))"
proof -
  obtain r1 f1 where load: "load_state io f = (r1, f1)" by fastforce
  note l = load_state_in [OF load]
  from assms load l show ?thesis
    by (auto simp: remove_schedule_def with_state_mut_def seqE_def bindE_apply Let_def split: sum.splits if_splits prod.splits
      dest!: save_state_in)
qed

lemma list_schedules_in: "list_schedules io f = (r, f') \<Longrightarrow> schedules_in f' = schedules_in f"
  by (auto simp: list_schedules_def with_state_def bindE_apply split: sum.splits prod.splits dest: load_state_in(1))

lemma into_task_new:
  assumes "new_task_of env input args reason = Inr n" and "into_task cal now n = Inr t"
  shows "st_approval_reason t = trim reason \<and> st_created_by_session t = trim (tci_session_id input)"
  using assms by (auto simp: new_task_of_def into_task_def require_text_def Let_def split: if_splits)

lemma approved_reason: "require_sensitive_approval args cap = Inr reason \<Longrightarrow>
    trim reason = reason \<and> reason \<noteq> [] \<and> length reason \<le> 256"
  by (auto simp: require_sensitive_approval_def MAX_APPROVAL_REASON_LEN_def Let_def split: option.splits json.splits if_splits)


lemma schedule_cron_change:
  assumes "schedule_cron env policy encode input f = (r, f')" and "schedules_in f' \<noteq> schedules_in f"
  obtains args r1 f1 where "tci_arguments input = JObj args" "schedules_in f1 = schedules_in f'"
    "schedule_add env policy input args f = (r1, f1) \<or> schedule_remove env policy input args f = (r1, f1)"
proof -
  from assms obtain args given where args: "tci_arguments input = JObj args"
      "optional_string args ''action'' schedule_tool = Inr given"
    by (auto simp: schedule_cron_def args_object_def bindE_apply split: json.splits sum.splits)
  let ?act = "if to_ascii_lowercase (opt_or given ''list'') = ''list'' then okE ()
      else if to_ascii_lowercase (opt_or given ''list'') = ''add'' then schedule_add env policy input args
      else if to_ascii_lowercase (opt_or given ''list'') = ''remove'' then schedule_remove env policy input args
      else errE (InvalidInput ''schedule_cron action must be one of: list, add, remove'')"
  obtain r1 f1 where act: "?act f = (r1, f1)" by fastforce
  have "schedules_in f' = schedules_in f1"
    using assms(1) args act
    by (auto simp: schedule_cron_def args_object_def Let_def seqE_def bindE_apply split: sum.splits prod.splits
      dest: list_schedules_in)
  with act args(1) assms(2) that show ?thesis by (auto split: if_splits)
qed

lemma schedule_cron_effect:
  assumes "schedule_cron env policy encode input f = (r, f')" and "schedules_in f' \<noteq> schedules_in f"
  obtains (added) args reason t where "tp_allow_scheduler_write policy" "tci_arguments input = JObj args"
      "require_sensitive_approval args ''schedule_mutation'' = Inr reason"
      "schedules_in f' = sort_key st_id (schedules_in f @ [t])" "st_approval_reason t = reason"
      "st_created_by_session t = trim (tci_session_id input)"
  | (removed) args reason tid where "tp_allow_scheduler_write policy" "tci_arguments input = JObj args"
      "require_sensitive_approval args ''schedule_mutation'' = Inr reason" "trim tid = tid"
      "schedules_in f' = sort_key st_id (filter (\<lambda>t. st_id t \<noteq> tid) (schedules_in f))"
proof -
  obtain args r1 f1 where args: "tci_arguments input = JObj args" and same: "schedules_in f1 = schedules_in f'"
    and act: "schedule_add env policy input args f = (r1, f1) \<or> schedule_remove env policy input args f = (r1, f1)"
    by (rule schedule_cron_change [OF assms])
  have changed: "schedules_in f1 \<noteq> schedules_in f" using same assms(2) by simp
  from act show ?thesis
  proof
    assume "schedule_add env policy input args f = (r1, f1)"
    with changed obtain reason n r2 where allowed: "tp_allow_scheduler_write policy"
      and reason: "require_sensitive_approval args ''schedule_mutation'' = Inr reason"
      and n: "new_task_of env input args reason = Inr n"
      and add: "add_schedule (sv_io env) (sv_calendar env) (sv_now_store env) n f = (r2, f1)"
      by (auto simp: schedule_add_def seqE_def bindE_apply split: if_splits sum.splits prod.splits)
    from add_schedule_in [OF add changed] obtain t where t: "into_task (sv_calendar env) (sv_now_store env) n = Inr t"
      "schedules_in f1 = sort_key st_id (schedules_in f @ [t])" by blast
    with into_task_new [OF n t(1)] approved_reason [OF reason] same show ?thesis
      by (intro added [OF allowed args reason, of t]) auto
  next
    assume "schedule_remove env policy input args f = (r1, f1)"
    with changed obtain reason tid r2 where allowed: "tp_allow_scheduler_write policy"
      and reason: "require_sensitive_approval args ''schedule_mutation'' = Inr reason"
      and tid: "required_string args ''id'' schedule_tool = Inr tid"
      and rem: "remove_schedule (sv_io env) (sv_now_store env) tid (tci_session_id input) reason f = (r2, f1)"
      by (auto simp: schedule_remove_def seqE_def bindE_apply split: if_splits sum.splits prod.splits)
    have "trim tid = tid" using tid by (auto simp: required_string_def split: option.splits if_splits)
    with remove_schedule_in [OF rem changed] same show ?thesis
      by (intro removed [OF allowed args reason, of tid]) auto
  qed
qed

text \<open>
  The schedules change under \<open>schedule_cron\<close> only when the policy allows it and the arguments carry an approval: then
  one schedule is added, with the approval's reason and the session of the call in it, or those with one id are removed.
\<close>

theorem schedules_change_approved:
  assumes "schedule_cron env policy encode input f = (r, f')" and "schedules_in f' \<noteq> schedules_in f"
  shows "tp_allow_scheduler_write policy \<and>
    (\<exists>args reason. tci_arguments input = JObj args \<and> require_sensitive_approval args ''schedule_mutation'' = Inr reason \<and>
      ((\<exists>t. schedules_in f' = sort_key st_id (schedules_in f @ [t]) \<and> st_approval_reason t = reason \<and>
          st_created_by_session t = trim (tci_session_id input)) \<or>
       (\<exists>tid. trim tid = tid \<and> schedules_in f' = sort_key st_id (filter (\<lambda>t. st_id t \<noteq> tid) (schedules_in f)))))"
  using assms by (cases rule: schedule_cron_effect) auto

lemma added_id_kept:
  assumes "new_task_of env input args reason = Inr n" and "into_task cal now n = Inr t" and "arg_str args ''id'' = Some i"
  shows "st_id t = i"
proof -
  have "optional_string args ''id'' schedule_tool = Inr (Some i)"
    using assms(3) by (auto simp: optional_string_def arg_str_def bind_eq_Some_conv)
  with assms(1) have "nt_id n = i" by (auto simp: new_task_of_def opt_or_def)
  with assms(2) show ?thesis by (auto simp: into_task_def Let_def)
qed

text \<open>
  A schedule whose id begins or ends with a blank, which \<open>add\<close> stores as it is given, no call of the tool ever removes:
  \<open>remove\<close> trims the id it looks for.
\<close>

theorem blank_id_never_removed:
  assumes "schedule_cron env policy encode input f = (r, f')" and "t \<in> set (schedules_in f)" and "trim (st_id t) \<noteq> st_id t"
  shows "t \<in> set (schedules_in f')"
proof (cases "schedules_in f' = schedules_in f")
  case False
  with assms(1) show ?thesis by (cases rule: schedule_cron_effect) (use assms(2,3) in auto)
qed (use assms(2) in simp)

subsection \<open>The notes of a session\<close>

definition notes_in :: "notes_codec \<Rightarrow> fs_io \<Rightarrow> string \<Rightarrow> fs_tree \<Rightarrow> json list option" where
  "notes_in codec io path t = (case file_at t io path of None \<Rightarrow> Some []
     | Some bytes \<Rightarrow> (case nc_parse codec bytes of Inl _ \<Rightarrow> None
         | Inr m \<Rightarrow> (case map_of m ''notes'' of None \<Rightarrow> Some [] | Some j \<Rightarrow> json_arr j)))"

text \<open>serde_json reads back what it writes, for the object that an \<open>append_note\<close> leaves.\<close>

definition reads_back ::
    "notes_codec \<Rightarrow> tool_pack_policy \<Rightarrow> nat \<Rightarrow> tool_call_input \<Rightarrow> tool_args \<Rightarrow> fs_io \<Rightarrow> string \<Rightarrow> fs_tree \<Rightarrow> bool" where
  "reads_back codec policy now input args io path t \<longleftrightarrow>
     (case bindR (load_notes codec io path t) (change_notes policy now input args ''append_note'') of
        Inl _ \<Rightarrow> True | Inr m \<Rightarrow> nc_parse codec (nc_write codec m) = Inr m)"

lemma session_tools_cases:
  assumes "session_tools env policy codec io encode now input t = (Inr r, t')"
  obtains args given path t1 state state' where "tci_arguments input = JObj args"
    "optional_string args ''action'' ''session_tools'' = Inr given" "session_state_path env (tci_session_id input) = Inr path"
    "create_parent io path t = (Inr (), t1)" "load_notes codec io path t1 = Inr state"
    "change_notes policy now input args (to_ascii_lowercase (opt_or given ''list_notes'')) state = Inr state'"
    "write_file io False path (nc_write codec state') t1 = (Inr (), t')"
    "r = notes_answer encode (to_ascii_lowercase (opt_or given ''list_notes'')) (tci_session_id input) path state'"
  using assms unfolding session_tools_def args_object_def Let_def
  by (auto simp: seqE_def bindE_apply split: sum.splits json.splits prod.splits)

lemma map_of_put_member: "map_of (put_member k v obj) k' = (if k' = k then Some v else map_of obj k')"
proof -
  have "map_of (map (\<lambda>e. if fst e = k then (k, v) else e) obj) k' =
      (if k' = k \<and> map_of obj k \<noteq> None then Some v else map_of obj k')"
    by (induction obj) auto
  moreover have "k \<in> fst ` set obj \<longleftrightarrow> map_of obj k \<noteq> None" by (simp add: map_of_eq_None_iff)
  ultimately show ?thesis by (auto simp: put_member_def map_add_def split: option.splits)
qed

lemma load_notes_in:
  assumes "load_notes codec io path t = Inr state"
  shows "notes_in codec io path t = Option.bind (map_of state ''notes'') json_arr"
  using assms
  by (auto simp: load_notes_def notes_in_def map_of_put_member json_arr_def map_of_eq_None_iff weak_map_of_SomeI
      split: option.splits sum.splits if_splits) (force simp: map_of_eq_None_iff dest: map_of_SomeD)+

subsection \<open>Where the notes are kept\<close>

definition notes_dir :: "environment \<Rightarrow> string kelvin_result" where
  "notes_dir env = bindR (kelvin_home env) (\<lambda>home. Inr (path_join home ''session-tools''))"

lemma session_state_path_iff:
  "session_state_path env sid = Inr path \<longleftrightarrow> (\<exists>b. notes_dir env = Inr b \<and> path = path_join b (sid @ ''.json''))"
  by (auto simp: session_state_path_def notes_dir_def)

lemma segments_plain: "CHR ''/'' \<notin> set s \<Longrightarrow> segments s = [s]"
  unfolding segments_def by (induction s) auto

lemma json_name: "s @ ''.json'' \<noteq> []" "s @ ''.json'' \<noteq> ''.''" "s @ ''.json'' \<noteq> ''..''"
  by (cases s; auto)+


text \<open>With the directory of the notes in place, a plain session id names a file in it.\<close>

lemma plain_notes:
  assumes "notes_dir env = Inr b" and "locate t io b = Some d" and "t d = Some DirNode"
    and "session_state_path env sid = Inr path" and "CHR ''/'' \<notin> set sid"
  shows "create_parent io path t = (Inr (), t)" and "locate t io path = Some (d @ [sid @ ''.json''])"
proof -
  have rel: "\<not> starts_with ''/'' (sid @ ''.json'')" using assms(5) by (cases sid) (auto simp: starts_with_def)
  have path: "path = path_join b (sid @ ''.json'')" using assms(1,4) by (auto simp: session_state_path_iff)
  have "segments (sid @ ''.json'') = [sid @ ''.json'']" using assms(5) by (intro segments_plain) auto
  then have segs: "segments path = dir_part b @ [sid @ ''.json'']" and start: "start_of io path = start_of io b"
    using path_join_segments [OF json_name(1) rel] path by auto
  note there = walk_dir_part [OF assms(2,3)]
  have "names_of [sid @ ''.json''] \<noteq> []" using json_name [of sid] by (simp add: names_of_def)
  then have "parent_segments (segments path) = dir_part b @ parent_segments [sid @ ''.json'']"
    unfolding segs by (rule parent_segments_append)
  moreover have "parent_segments [sid @ ''.json''] = []" using json_name [of sid] by (simp add: parent_segments_def)
  ultimately show "create_parent io path t = (Inr (), t)"
    using make_dirs_append [OF there assms(3), of _ _ "[]"] by (simp add: create_parent_def start)
  show "locate t io path = Some (d @ [sid @ ''.json''])"
    using there assms(3) json_name [of sid] by (simp add: locate_def segs start walk_append)
qed

lemma file_at_located: "locate t io path = Some ns \<Longrightarrow> file_at t io path = (case t ns of Some (FileNode b) \<Rightarrow> Some b | _ \<Rightarrow> None)"
  by (simp add: file_at_def)

lemma write_file_located:
  assumes "write_file io False path bytes t = (Inr (), t')" and "locate t io path = Some ns"
  shows "t' = t(ns \<mapsto> FileNode bytes)" and "t ns \<noteq> Some DirNode"
  using assms by (auto simp: write_file_def Let_def split: if_splits fs_node.splits option.splits)

lemma notes_in_located: "locate t io path = Some ns \<Longrightarrow> locate t' io' path' = Some ns \<Longrightarrow> t' ns = t ns \<Longrightarrow>
    notes_in codec io' path' t' = notes_in codec io path t"
  by (simp add: notes_in_def file_at_located)


lemma appended_notes:
  assumes "session_tools env policy codec io encode now input t = (Inr r, t')"
    and "tci_arguments input = JObj args" and "arg_str args ''action'' = Some ''append_note''" and "arg_str args ''note'' = Some note"
    and "session_state_path env (tci_session_id input) = Inr path" and "create_parent io path t = (Inr (), t1)"
    and "locate t1 io path = Some ns" and "reads_back codec policy now input args io path t1"
  shows "\<exists>old m. notes_in codec io path t1 = Some old \<and> nc_parse codec (nc_write codec m) = Inr m \<and> t' = t1(ns \<mapsto> FileNode (nc_write codec m)) \<and> t1 ns \<noteq> Some DirNode \<and>
    map_of m ''notes'' = Some (JArr (old @ [note_json note (tci_run_id input) now]))"
  using assms(1)
proof (rule session_tools_cases)
  fix args' given path' t1' state state'
  assume run: "tci_arguments input = JObj args'" "optional_string args' ''action'' ''session_tools'' = Inr given"
    "session_state_path env (tci_session_id input) = Inr path'" "create_parent io path' t = (Inr (), t1')"
    "load_notes codec io path' t1' = Inr state"
    "change_notes policy now input args' (to_ascii_lowercase (opt_or given ''list_notes'')) state = Inr state'"
    "write_file io False path' (nc_write codec state') t1' = (Inr (), t')"
  have same: "args' = args" "path' = path" "t1' = t1" using run(1,3,4) assms(2,5,6) by auto
  have "given = Some ''append_note''"
    using run(2) assms(3) by (auto simp: same optional_string_def arg_str_def bind_eq_Some_conv)
  then have action: "to_ascii_lowercase (opt_or given ''list_notes'') = ''append_note''"
    by (simp add: opt_or_def to_ascii_lowercase_def to_ascii_lower_char_def code_def)
  have "required_string_content args ''note'' ''session_tools'' = Inr note \<or> (\<exists>e. required_string_content args ''note'' ''session_tools'' = Inl e)"
    using assms(4) by (auto simp: required_string_content_def)
  with run(6) obtain old where old: "Option.bind (map_of state ''notes'') json_arr = Some old"
    and state': "state' = put_member ''notes'' (JArr (old @ [note_json note (tci_run_id input) now])) state"
    unfolding action same by (auto simp: change_notes_def split: option.splits)
  note w = write_file_located [OF run(7) [unfolded same] assms(7)]
  show ?thesis
    using load_notes_in [OF run(5)] old w run(5,6) assms(8)
    by (auto simp: same action state' map_of_put_member reads_back_def)
qed

text \<open>
  \<^bold>\<open>C36.\<close> A note appended for a session is the last of its notes, after the earlier ones in their order, and the notes of every
  other session, as long as the ids have no slash in them, are what they were.
\<close>

theorem appended_note_is_kept:
  assumes "session_tools env policy codec io encode now input t = (Inr r, t')"
    and "tci_arguments input = JObj args" and "arg_str args ''action'' = Some ''append_note''" and "arg_str args ''note'' = Some note"
    and "notes_dir env = Inr b" and "locate t io b = Some d" and "t d = Some DirNode"
    and "session_state_path env (tci_session_id input) = Inr path" and "session_state_path env other = Inr path'"
    and "CHR ''/'' \<notin> set (tci_session_id input)" and "CHR ''/'' \<notin> set other" and "other \<noteq> tci_session_id input"
    and "reads_back codec policy now input args io path t"
  shows "(\<exists>old. notes_in codec io path t = Some old \<and>
      notes_in codec io path t' = Some (old @ [note_json note (tci_run_id input) now])) \<and>
    notes_in codec io path' t' = notes_in codec io path' t"
proof -
  let ?n = "d @ [tci_session_id input @ ''.json'']" and ?m = "d @ [other @ ''.json'']"
  note here = plain_notes [OF assms(5-8,10)] and there = plain_notes [OF assms(5-7,9,11)]
  from appended_notes [OF assms(1-4,8) here assms(13)] obtain old m where
    old: "notes_in codec io path t = Some old" and readable: "nc_parse codec (nc_write codec m) = Inr m"
    and t': "t' = t(?n \<mapsto> FileNode (nc_write codec m))" "t ?n \<noteq> Some DirNode"
    and m: "map_of m ''notes'' = Some (JArr (old @ [note_json note (tci_run_id input) now]))" by blast
  have at: "locate t' io p = locate t io p" for p by (simp add: t'(1) locate_def walk_upd [where t = t, OF t'(2)])
  have "locate t' io path = Some ?n" using here(2) by (simp only: at)
  then have "file_at t' io path = Some (nc_write codec m)" by (simp add: file_at_located) (simp add: t'(1))
  then have "notes_in codec io path t' = Some (old @ [note_json note (tci_run_id input) now])"
    using readable m by (simp add: notes_in_def json_arr_def)
  moreover have "notes_in codec io path' t' = notes_in codec io path' t"
    by (rule notes_in_located [OF there(2)]) (use there(2) at assms(12) t'(1) in \<open>simp_all only: fun_upd_apply\<close>, simp)
  ultimately show ?thesis using old by blast
qed


lemma climbing_notes:
  assumes "notes_dir env = Inr b" and "locate t io b = Some d" and "t d = Some DirNode"
    and "session_state_path env (x @ ''/../'' @ sid) = Inr path" and "CHR ''/'' \<notin> set x" and "CHR ''/'' \<notin> set sid"
    and "x \<notin> {[], ''.'', ''..''}" and "create_parent io path t = (Inr (), t1)"
  shows "locate t1 io path = Some (d @ [sid @ ''.json''])" and "t1 = t \<or> t1 = t(d @ [x] \<mapsto> DirNode)"
proof -
  let ?p = "x @ ''/../'' @ sid @ ''.json''"
  have rel: "?p \<noteq> []" "\<not> starts_with ''/'' ?p" using assms(5,7) by (cases x; auto simp: starts_with_def)+
  have path: "path = path_join b ?p" using assms(1,4) by (auto simp: session_state_path_iff)
  have last: "segments (sid @ ''.json'') = [sid @ ''.json'']" using assms(6) by (intro segments_plain) auto
  have "segments ?p = [x, ''..'', sid @ ''.json'']"
    using segments_slash [of x "''..'' @ CHR ''/'' # sid @ ''.json''"] segments_slash [of "''..''" "sid @ ''.json''"]
      segments_plain [OF assms(5)] last segments_plain [of "''..''"] by simp
  then have segs: "segments path = dir_part b @ [x, ''..'', sid @ ''.json'']" and start: "start_of io path = start_of io b"
    using path_join_segments [OF rel] path by auto
  note there = walk_dir_part [OF assms(2,3)]
  have "names_of [x, ''..'', sid @ ''.json''] \<noteq> []" by (simp add: names_of_def)
  then have "parent_segments (segments path) = dir_part b @ parent_segments [x, ''..'', sid @ ''.json'']"
    unfolding segs by (rule parent_segments_append)
  moreover have "parent_segments [x, ''..'', sid @ ''.json''] = [x, ''..'']" using json_name [of sid] by (simp add: parent_segments_def)
  ultimately have "make_dirs (fi_text io) (fi_new_dirs io) d [x, ''..''] t = (Inr (), t1)"
    using assms(8) make_dirs_append [OF there assms(3)] by (simp add: create_parent_def start)
  then have t1: "t1 = t \<or> t1 = t(d @ [x] \<mapsto> DirNode)" and dir: "t1 (d @ [x]) = Some DirNode"
    using assms(7) by (auto simp: make_dirs_Cons split: option.splits fs_node.splits if_splits)
  have d: "t1 d = Some DirNode" using t1 assms(3) by auto
  have "walk t1 (start_of io b) (dir_part b) = Some d" using there t1 by (elim walk_more_dirs [rotated]) auto
  then show "locate t1 io path = Some (d @ [sid @ ''.json''])"
    using d dir assms(7) json_name [of sid] by (simp add: locate_def segs start walk_append)
  show "t1 = t \<or> t1 = t(d @ [x] \<mapsto> DirNode)" by (rule t1)
qed

text \<open>
  The session id is not checked before it becomes a file name: a note appended for the session \<open>x/../s\<close> is appended to
  the notes of the session \<open>s\<close>.
\<close>

theorem session_id_climbs:
  assumes "session_tools env policy codec io encode now input t = (Inr r, t')"
    and "tci_arguments input = JObj args" and "arg_str args ''action'' = Some ''append_note''" and "arg_str args ''note'' = Some note"
    and "notes_dir env = Inr b" and "locate t io b = Some d" and "t d = Some DirNode"
    and "tci_session_id input = x @ ''/../'' @ sid" and "CHR ''/'' \<notin> set x" and "CHR ''/'' \<notin> set sid" and "x \<notin> {[], ''.'', ''..''}"
    and "session_state_path env sid = Inr path" and "reads_back codec policy now input args io path t"
  shows "\<exists>old. notes_in codec io path t = Some old \<and>
    notes_in codec io path t' = Some (old @ [note_json note (tci_run_id input) now])"
proof -
  let ?n = "d @ [sid @ ''.json'']"
  obtain path' where path': "session_state_path env (tci_session_id input) = Inr path'"
    using assms(5) by (auto simp: session_state_path_iff)
  obtain t1 where made: "create_parent io path' t = (Inr (), t1)"
    by (rule session_tools_cases [OF assms(1)]) (use path' that in auto)
  note climb = climbing_notes [OF assms(5-7) path' [unfolded assms(8)] assms(9-11) made]
  note plain = plain_notes(2) [OF assms(5-7,12,10)]
  have "t1 ?n = t ?n \<or> t1 ?n = Some DirNode" using climb(2) by (auto split: if_splits)
  moreover have "t1 ?n \<noteq> Some DirNode" using assms(1) made climb(1) path'
    by (elim session_tools_cases) (auto dest: write_file_located(2))
  ultimately have same: "t1 ?n = t ?n" by blast
  have "load_notes codec io path' t1 = load_notes codec io path t"
    by (simp add: load_notes_def file_at_located [OF climb(1)] file_at_located [OF plain] same)
  then have "reads_back codec policy now input args io path' t1" using assms(13) by (simp add: reads_back_def)
  from appended_notes [OF assms(1-4) path' made climb(1) this] obtain old m where
    old: "notes_in codec io path' t1 = Some old" and readable: "nc_parse codec (nc_write codec m) = Inr m" and t': "t' = t1(?n \<mapsto> FileNode (nc_write codec m))" "t1 ?n \<noteq> Some DirNode"
    and m: "map_of m ''notes'' = Some (JArr (old @ [note_json note (tci_run_id input) now]))" by blast
  have "notes_in codec io path t = Some old" using notes_in_located [OF climb(1) plain] same old by simp
  moreover have "walk t1 cur ss = Some w" if "walk t cur ss = Some w" for cur ss w
    using that climb(2) by (elim walk_more_dirs [rotated]) auto
  with plain have "locate t1 io path = Some ?n" by (simp add: locate_def)
  then have "locate t' io path = Some ?n" by (simp add: t'(1) locate_def walk_upd [where t = t1, OF t'(2)])
  then have "file_at t' io path = Some (nc_write codec m)" by (simp add: file_at_located) (simp add: t'(1))
  then have "notes_in codec io path t' = Some (old @ [note_json note (tci_run_id input) now])"
    using readable m by (simp add: notes_in_def json_arr_def)
  ultimately show ?thesis by blast
qed


subsection \<open>The loaded pack\<close>

lemma toolpack_ids: "map (\<lambda>p. pm_id (pf_manifest p)) toolpack_plugins =
    [''kelvin.tool.fs_read'', ''kelvin.tool.fs_write'', ''kelvin.tool.web_fetch'', ''kelvin.tool.scheduler'', ''kelvin.tool.session'']"
  by (simp add: toolpack_plugins_def single_tool_plugin_def toolpack_manifest_def)

lemmas toolpack_members = toolpack_plugins_def single_tool_plugin_def toolpack_manifest_def list.set insert_iff empty_iff

lemmas trim_eval = trim_def trim_start_def trim_end_def is_whitespace_def is_control_def code_def

lemma toolpack_id_valid: "p \<in> set toolpack_plugins \<Longrightarrow> validate_plugin_id (pm_id (pf_manifest p)) = Inr ()"
  by (simp only: toolpack_members, elim disjE)
     (simp_all add: validate_plugin_id_def plugin_id_char_def is_ascii_alphanumeric_def is_digit_def trim_eval MAX_PLUGIN_ID_LEN_def)

lemma toolpack_name_valid: "p \<in> set toolpack_plugins \<Longrightarrow> validate_plugin_name (pm_name (pf_manifest p)) = Inr ()"
  by (simp only: toolpack_members, elim disjE)
     (simp_all add: validate_plugin_name_def trim_eval MAX_PLUGIN_NAME_LEN_def)

lemma toolpack_description_valid: "p \<in> set toolpack_plugins \<Longrightarrow>
    validate_optional_text_field label (pm_description (pf_manifest p)) MAX_PLUGIN_DESCRIPTION_LEN = Inr ()"
  by (simp only: toolpack_members, elim disjE)
     (simp_all add: validate_optional_text_field_def trim_eval MAX_PLUGIN_DESCRIPTION_LEN_def)

lemma toolpack_homepage_valid: "p \<in> set toolpack_plugins \<Longrightarrow> validate_homepage (pm_homepage (pf_manifest p)) = Inr ()"
  by (simp only: toolpack_members, elim disjE)
     (simp_all add: validate_homepage_def trim_eval starts_with_def MAX_PLUGIN_HOMEPAGE_LEN_def)

lemma toolpack_capabilities_valid: "p \<in> set toolpack_plugins \<Longrightarrow> validate_capabilities (pm_capabilities (pf_manifest p)) = Inr ()"
  by (simp only: toolpack_members, elim disjE) (simp_all add: validate_capabilities_def MAX_PLUGIN_CAPABILITIES_def)

lemma toolpack_plain: "p \<in> set toolpack_plugins \<Longrightarrow> policy_allows registration_policy (pf_manifest p) \<and>
    pm_version (pf_manifest p) = CARGO_PKG_VERSION \<and> pm_api_version (pf_manifest p) = KELVIN_CORE_API_VERSION \<and>
    pm_min_core_version (pf_manifest p) = None \<and> pm_max_core_version (pf_manifest p) = None"
  by (simp only: toolpack_members, elim disjE) (simp_all add: policy_allows_def registration_policy_def)

lemma toolpack_admissible:
  assumes "sv_parse sv CARGO_PKG_VERSION = Inr v" and "sv_parse sv KELVIN_CORE_API_VERSION = Inr a"
    and "sv_parse sv core_version = Inr c" and "p \<in> set toolpack_plugins"
  shows "admissible sv (pf_manifest p) core_version registration_policy"
proof -
  have "trim CARGO_PKG_VERSION \<noteq> []" "trim KELVIN_CORE_API_VERSION \<noteq> []"
    by (simp_all add: CARGO_PKG_VERSION_def KELVIN_CORE_API_VERSION_def trim_eval)
  then have "validate_manifest sv (pf_manifest p) = Inr ()"
    using assms(1,2) toolpack_id_valid [OF assms(4)] toolpack_name_valid [OF assms(4)] toolpack_description_valid [OF assms(4)]
      toolpack_homepage_valid [OF assms(4)] toolpack_capabilities_valid [OF assms(4)] toolpack_plain [OF assms(4)]
    by (simp add: validate_manifest_def validate_semver_def)
  then show ?thesis using assms toolpack_plain [OF assms(4)]
    by (auto simp: admissible_def core_in_bounds_def api_major_matches_def)
qed

lemma toolpack_registered:
  assumes "\<And>p. p \<in> set toolpack_plugins \<Longrightarrow> admissible sv (pf_manifest p) core_version registration_policy"
  shows "register_plugins sv (map (\<lambda>p. (p, core_version, registration_policy)) toolpack_plugins) [] =
    Inr (rev (map (\<lambda>p. (pm_id (pf_manifest p), p)) toolpack_plugins))"
proof -
  have "register_plugins sv (map (\<lambda>p. (p, core_version, registration_policy)) ps) reg =
      Inr (rev (map (\<lambda>p. (pm_id (pf_manifest p), p)) ps) @ reg)"
    if "set ps \<subseteq> set toolpack_plugins" "distinct (map (\<lambda>p. pm_id (pf_manifest p)) ps @ map fst reg)" for ps reg
    using that
  proof (induction ps arbitrary: reg)
    case (Cons p ps)
    then have "register_plugin sv p core_version registration_policy reg = Inr ((pm_id (pf_manifest p), p) # reg)"
      using assms by (auto simp: register_plugin_Inr_iff map_of_eq_None_iff)
    with Cons show ?case by auto
  qed simp
  from this [of toolpack_plugins "[]"] show ?thesis by (simp add: toolpack_ids)
qed


definition pack_plugin :: "nat \<Rightarrow> plugin_factory" where
  "pack_plugin i = toolpack_plugins ! i"

lemma pack_plugins: "toolpack_plugins = map pack_plugin [0, 1, 2, 3, 4]"
  by (simp add: pack_plugin_def toolpack_plugins_def)

lemma pack_plugin_id:
  "pm_id (pf_manifest (pack_plugin 0)) = ''kelvin.tool.fs_read''"
  "pm_id (pf_manifest (pack_plugin (Suc 0))) = ''kelvin.tool.fs_write''"
  "pm_id (pf_manifest (pack_plugin 2)) = ''kelvin.tool.web_fetch''"
  "pm_id (pf_manifest (pack_plugin 3)) = ''kelvin.tool.scheduler''"
  "pm_id (pf_manifest (pack_plugin 4)) = ''kelvin.tool.session''"
  by (simp_all add: pack_plugin_def toolpack_plugins_def single_tool_plugin_def toolpack_manifest_def)

lemma pack_plugin_tool:
  "pf_tool (pack_plugin 0) = Some fs_safe_read_tool" "pf_tool (pack_plugin (Suc 0)) = Some fs_safe_write_tool"
  "pf_tool (pack_plugin 2) = Some web_fetch_safe_tool" "pf_tool (pack_plugin 3) = Some schedule_cron_tool"
  "pf_tool (pack_plugin 4) = Some session_tools_tool"
  by (simp_all add: pack_plugin_def toolpack_plugins_def single_tool_plugin_def)

lemma pack_plugin_capability: "p \<in> set toolpack_plugins \<Longrightarrow> CapToolProvider \<in> set (pm_capabilities (pf_manifest p))"
  by (simp only: toolpack_members, elim disjE) simp_all

lemma pack_tool_names: "to_name fs_safe_read_tool = ''fs_safe_read''" "to_name fs_safe_write_tool = ''fs_safe_write''"
  "to_name web_fetch_safe_tool = ''web_fetch_safe''" "to_name schedule_cron_tool = ''schedule_cron''"
  "to_name session_tools_tool = ''session_tools''"
  by (simp_all add: fs_safe_read_tool_def fs_safe_write_tool_def web_fetch_safe_tool_def schedule_cron_tool_def session_tools_tool_def)

definition pack_tools :: tool_map where
  "pack_tools = [(''web_fetch_safe'', web_fetch_safe_tool), (''session_tools'', session_tools_tool),
     (''schedule_cron'', schedule_cron_tool), (''fs_safe_write'', fs_safe_write_tool), (''fs_safe_read'', fs_safe_read_tool)]"

lemma pack_tool_registry: "tool_registry_from (rev (map (\<lambda>p. (pm_id (pf_manifest p), p)) toolpack_plugins)) = Inr pack_tools"
proof -
  have cap: "CapToolProvider \<in> set (pm_capabilities (pf_manifest (pack_plugin i)))" if "i \<in> {0, 1, 2, 3, 4}" for i
    using that pack_plugin_capability by (auto simp: pack_plugins)
  have "sort_key pm_id (manifests (rev (map (\<lambda>p. (pm_id (pf_manifest p), p)) toolpack_plugins))) =
      map (\<lambda>i. pf_manifest (pack_plugin i)) [0, 1, 3, 4, 2]"
    by (simp add: manifests_def pack_plugins pack_plugin_id)
  then show ?thesis using cap
    by (simp add: tool_registry_from_def pack_plugins get_plugin_def pack_plugin_id add_plugin_tool_def pack_plugin_tool
      pack_tool_names trim_eval pack_tools_def Let_def)
qed

text \<open>
  Whatever the version of the core, if it parses as the two versions of the build do, the pack loads: all five plugins are
  admitted under the pack's policy and the registry has exactly the five tools, each under its own name.
\<close>

theorem toolpack_loads:
  assumes "sv_parse sv CARGO_PKG_VERSION = Inr v" and "sv_parse sv KELVIN_CORE_API_VERSION = Inr a"
    and "sv_parse sv core_version = Inr c"
  shows "\<exists>tools. load_default_toolpack_plugins sv (Inr ()) core_version = Inr (tools, 5) \<and>
    tool_names tools = [''fs_safe_read'', ''fs_safe_write'', ''schedule_cron'', ''session_tools'', ''web_fetch_safe''] \<and>
    map (tool_get tools) (tool_names tools) =
      map Some [fs_safe_read_tool, fs_safe_write_tool, schedule_cron_tool, session_tools_tool, web_fetch_safe_tool]"
proof -
  have names: "tool_names pack_tools = [''fs_safe_read'', ''fs_safe_write'', ''schedule_cron'', ''session_tools'', ''web_fetch_safe'']"
    by (simp add: tool_names_def pack_tools_def)
  then have "load_default_toolpack_plugins sv (Inr ()) core_version = Inr (pack_tools, 5)"
    using toolpack_registered [OF toolpack_admissible [OF assms]]
    by (simp add: load_default_toolpack_plugins_def pack_tool_registry)
  with names show ?thesis by (simp add: tool_get_def pack_tools_def)
qed


subsection \<open>The theorems at work\<close>

definition demo_schedule_env :: schedule_env where
  "demo_schedule_env = \<lparr>sv_calendar = always_calendar, sv_now_id = 0, sv_now_created = 0, sv_now_store = 0, sv_io = io_fine,
     sv_list_io = io_fine, sv_decode_target = (\<lambda>_. Inl ''none''), sv_state_path = ''/s''\<rparr>"

definition tool_input :: "string \<Rightarrow> tool_args \<Rightarrow> tool_call_input" where
  "tool_input session args = \<lparr>tci_run_id = ''r'', tci_session_id = session, tci_workspace_dir = ''/w'',
     tci_arguments = approved_args args\<rparr>"

definition blank_task :: scheduled_task where
  "blank_task = demo_task\<lparr>st_id := '' a''\<rparr>"

definition demo_schedules :: scheduler_file where
  "demo_schedules = FileState \<lparr>schedules = [blank_task, demo_task], slots = [], audit = []\<rparr>"

definition removing :: tool_call_input where
  "removing = tool_input ''s'' [(''action'', JStr ''remove''), (''id'', JStr '' a'')]"

lemma remove_demo: "\<exists>f'. remove_schedule io_fine 0 ''a'' ''s'' ''asked for'' demo_schedules = (Inr True, f') \<and>
    list_schedules io_fine f' = (Inr [blank_task], f') \<and> schedules_in f' = [blank_task]"
  by (simp add: remove_schedule_def with_state_mut_def with_state_def load_state_def save_state_def list_schedules_def
    demo_schedules_def io_fine_def schedules_in_def persisted_def blank_task_def demo_task_def seqE_def bindE_apply Let_def)

lemma demo_approval: "map_of args ''approval'' = Some (JObj [(''granted'', JBool True), (''reason'', JStr ''asked for'')]) \<Longrightarrow>
    require_sensitive_approval args cap = Inr ''asked for''"
  by (simp add: require_sensitive_approval_def arg_str_def json_str_def json_bool_def trim_eval MAX_APPROVAL_REASON_LEN_def)

lemma removing_run: "\<exists>r f'. schedule_cron demo_schedule_env open_policy (\<lambda>_. []) removing demo_schedules = (Inr r, f') \<and>
    schedules_in f' = [blank_task]"
proof -
  obtain f' where rem: "remove_schedule io_fine 0 ''a'' ''s'' ''asked for'' demo_schedules = (Inr True, f')"
    and lst: "list_schedules io_fine f' = (Inr [blank_task], f')" "schedules_in f' = [blank_task]" using remove_demo by blast
  let ?args = "(''approval'', JObj [(''granted'', JBool True), (''reason'', JStr ''asked for'')]) #
    [(''action'', JStr ''remove''), (''id'', JStr '' a'')]"
  have "required_string ?args ''id'' schedule_tool = Inr ''a''"
    by (simp add: required_string_def arg_str_def json_str_def trim_eval)
  moreover have "tp_allow_scheduler_write open_policy" by (simp add: open_policy_def policy_from_env_def env_bool_def)
  ultimately have "schedule_remove demo_schedule_env open_policy removing ?args demo_schedules = (Inr (), f')"
    using rem by (simp add: schedule_remove_def demo_approval seqE_def bindE_apply demo_schedule_env_def removing_def tool_input_def)
  moreover have "to_ascii_lowercase ''remove'' = ''remove''"
    by (simp add: to_ascii_lowercase_def to_ascii_lower_char_def code_def)
  ultimately show ?thesis using lst
    by (simp add: schedule_cron_def removing_def tool_input_def approved_args_def args_object_def optional_string_def
      json_str_def opt_or_def seqE_def bindE_apply Let_def demo_schedule_env_def)
qed

lemma demo_schedules_in: "schedules_in demo_schedules = [blank_task, demo_task]"
  by (simp add: demo_schedules_def schedules_in_def)

theorem schedules_change_approved_witness:
  "\<exists>f'. schedules_in f' = [blank_task] \<and> (\<exists>tid. trim tid = tid \<and>
     schedules_in f' = sort_key st_id (filter (\<lambda>t. st_id t \<noteq> tid) [blank_task, demo_task]))"
proof -
  obtain r f' where run: "schedule_cron demo_schedule_env open_policy (\<lambda>_. []) removing demo_schedules = (Inr r, f')"
    and left: "schedules_in f' = [blank_task]" using removing_run by blast
  have changed: "schedules_in f' \<noteq> schedules_in demo_schedules" by (simp add: left demo_schedules_in)
  have ne: "schedules_in f' \<noteq> sort_key st_id (schedules_in demo_schedules @ [t])" for t
  proof
    assume "schedules_in f' = sort_key st_id (schedules_in demo_schedules @ [t])"
    from arg_cong [OF this, of length] show False by (simp only: length_sort left demo_schedules_in) simp
  qed
  from schedules_change_approved [OF run changed] ne obtain tid where
    "trim tid = tid" "schedules_in f' = sort_key st_id (filter (\<lambda>t. st_id t \<noteq> tid) (schedules_in demo_schedules))" by blast
  with left show ?thesis unfolding demo_schedules_in by blast
qed

theorem blank_id_never_removed_witness:
  "\<exists>r f'. schedule_cron demo_schedule_env open_policy (\<lambda>_. []) removing demo_schedules = (Inr r, f') \<and>
     blank_task \<in> set (schedules_in f')"
proof -
  obtain r f' where run: "schedule_cron demo_schedule_env open_policy (\<lambda>_. []) removing demo_schedules = (Inr r, f')"
    using removing_run by blast
  have "blank_task \<in> set (schedules_in demo_schedules)" by (simp add: demo_schedules_in)
  moreover have "trim (st_id blank_task) \<noteq> st_id blank_task" by (simp add: blank_task_def trim_eval)
  ultimately have "blank_task \<in> set (schedules_in f')" by (rule blank_id_never_removed [OF run])
  with run show ?thesis by blast
qed

theorem toolpack_loads_witness:
  "\<exists>tools. load_default_toolpack_plugins demo_semver (Inr ()) ''0.2.0'' = Inr (tools, 5)"
proof -
  have "sv_parse demo_semver CARGO_PKG_VERSION = Inr (0, 2, 7)" "sv_parse demo_semver KELVIN_CORE_API_VERSION = Inr (1, 0, 0)"
    "sv_parse demo_semver ''0.2.0'' = Inr (0, 2, 0)"
    by (simp_all add: demo_semver_def CARGO_PKG_VERSION_def KELVIN_CORE_API_VERSION_def parse_usize_def parse_unsigned_def
      is_digit_def code_def u64_max_def)
  from toolpack_loads [OF this] show ?thesis by blast
qed


definition demo_home :: environment where
  "demo_home = (\<lambda>key. if key = ''KELVIN_HOME'' then Some ''/h'' else None)"

definition demo_codec :: notes_codec where
  "demo_codec = \<lparr>nc_parse = (\<lambda>_. Inr [(''notes'', JArr [note_json ''n'' ''r'' 7])]), nc_write = (\<lambda>_. [1])\<rparr>"

definition demo_notes_tree :: fs_tree where
  "demo_notes_tree = [[] \<mapsto> DirNode, [''h''] \<mapsto> DirNode, [''h'', ''session-tools''] \<mapsto> DirNode]"

definition appending :: "string \<Rightarrow> tool_call_input" where
  "appending session = tool_input session [(''action'', JStr ''append_note''), (''note'', JStr ''n'')]"

definition appending_args :: tool_args where
  "appending_args = [(''approval'', JObj [(''granted'', JBool True), (''reason'', JStr ''asked for'')]),
     (''action'', JStr ''append_note''), (''note'', JStr ''n'')]"

lemma appending_simps: "tci_arguments (appending s) = JObj appending_args" "tci_session_id (appending s) = s"
  "tci_run_id (appending s) = ''r''" "arg_str appending_args ''action'' = Some ''append_note''"
  "arg_str appending_args ''note'' = Some ''n''"
  "optional_string appending_args ''action'' ''session_tools'' = Inr (Some ''append_note'')"
  "to_ascii_lowercase ''append_note'' = ''append_note''"
  by (simp_all add: appending_def tool_input_def approved_args_def appending_args_def arg_str_def json_str_def optional_string_def
    to_ascii_lowercase_def to_ascii_lower_char_def code_def)

lemma demo_notes_dir: "notes_dir demo_home = Inr ''/h/session-tools''"
  "session_state_path demo_home s = Inr (path_join ''/h/session-tools'' (s @ ''.json''))"
  by (simp_all add: notes_dir_def session_state_path_def kelvin_home_def env_path_def demo_home_def path_join_def trim_eval starts_with_def)

lemma demo_notes_dir_there: "locate demo_notes_tree fine_io ''/h/session-tools'' = Some [''h'', ''session-tools'']"
  "demo_notes_tree [''h'', ''session-tools''] = Some DirNode"
  by (simp_all add: locate_def segments_def start_of_def starts_with_def demo_notes_tree_def)

lemma demo_absent: "locate demo_notes_tree fine_io path = Some ([''h'', ''session-tools''] @ [n]) \<Longrightarrow> file_at demo_notes_tree fine_io path = None"
proof -
  have "demo_notes_tree ([''h'', ''session-tools''] @ [n]) = None" by (simp add: demo_notes_tree_def)
  then show "locate demo_notes_tree fine_io path = Some ([''h'', ''session-tools''] @ [n]) \<Longrightarrow>
    file_at demo_notes_tree fine_io path = None" by (simp add: file_at_located)
qed

lemma demo_reads_back: "file_at demo_notes_tree fine_io path = None \<Longrightarrow>
    reads_back demo_codec open_policy 7 (appending s) appending_args fine_io path demo_notes_tree"
  by (simp add: reads_back_def load_notes_def put_member_def change_notes_def required_string_content_def appending_simps
    json_arr_def demo_codec_def)

lemma appending_run:
  assumes "session_state_path demo_home s = Inr path" and "create_parent fine_io path demo_notes_tree = (Inr (), t1)"
    and "locate t1 fine_io path = Some ns" and "t1 ns = None"
  shows "\<exists>r t'. session_tools demo_home open_policy demo_codec fine_io (\<lambda>_. []) 7 (appending s) demo_notes_tree = (Inr r, t')"
  using assms
  by (simp add: session_tools_def appending_simps args_object_def opt_or_def Let_def seqE_def bindE_apply load_notes_def
    file_at_located put_member_def change_notes_def required_string_content_def json_arr_def write_file_def fine_io_def)

theorem appended_note_is_kept_witness:
  "\<exists>r t'. session_tools demo_home open_policy demo_codec fine_io (\<lambda>_. []) 7 (appending ''s'') demo_notes_tree = (Inr r, t') \<and>
     notes_in demo_codec fine_io ''/h/session-tools/s.json'' t' = Some [note_json ''n'' ''r'' 7] \<and>
     notes_in demo_codec fine_io ''/h/session-tools/o.json'' t' = Some []"
proof -
  let ?s = "''/h/session-tools/s.json''" and ?o = "''/h/session-tools/o.json''"
  have paths: "session_state_path demo_home ''s'' = Inr ?s" "session_state_path demo_home ''o'' = Inr ?o"
    by (simp_all add: demo_notes_dir path_join_def starts_with_def)
  have plain: "CHR ''/'' \<notin> set ''s''" "CHR ''/'' \<notin> set ''o''" by simp_all
  note here = plain_notes [OF demo_notes_dir(1) demo_notes_dir_there paths(1) plain(1)]
  note there = plain_notes [OF demo_notes_dir(1) demo_notes_dir_there paths(2) plain(2)]
  have "demo_notes_tree ([''h'', ''session-tools''] @ [''s'' @ ''.json'']) = None" by (simp add: demo_notes_tree_def)
  from appending_run [OF paths(1) here this] obtain r t' where
    run: "session_tools demo_home open_policy demo_codec fine_io (\<lambda>_. []) 7 (appending ''s'') demo_notes_tree = (Inr r, t')" by blast
  have none: "file_at demo_notes_tree fine_io ?s = None" "file_at demo_notes_tree fine_io ?o = None"
    using demo_absent [OF here(2)] demo_absent [OF there(2)] by simp_all
  have "reads_back demo_codec open_policy 7 (appending ''s'') appending_args fine_io ?s demo_notes_tree"
    using none(1) by (rule demo_reads_back)
  from appended_note_is_kept [OF run appending_simps(1,4,5) demo_notes_dir(1) demo_notes_dir_there _ paths(2) _ plain(2) _ this]
  show ?thesis using run none paths(1) by (auto simp: appending_simps notes_in_def)
qed

theorem session_id_climbs_witness:
  "\<exists>r t'. session_tools demo_home open_policy demo_codec fine_io (\<lambda>_. []) 7 (appending ''x/../s'') demo_notes_tree = (Inr r, t') \<and>
     notes_in demo_codec fine_io ''/h/session-tools/s.json'' t' = Some [note_json ''n'' ''r'' 7]"
proof -
  let ?s = "''/h/session-tools/s.json''" and ?p = "''/h/session-tools/x/../s.json''"
  have paths: "session_state_path demo_home ''s'' = Inr ?s" "session_state_path demo_home (''x'' @ ''/../'' @ ''s'') = Inr ?p"
    by (simp_all add: demo_notes_dir path_join_def starts_with_def)
  have plain: "CHR ''/'' \<notin> set ''x''" "CHR ''/'' \<notin> set ''s''" "''x'' \<notin> {[], ''.'', ''..''}" by simp_all
  have segs: "segments ?p = ['''', ''h'', ''session-tools'', ''x'', ''..'', ''s.json'']" by (simp add: segments_def)
  obtain t1 where made: "create_parent fine_io ?p demo_notes_tree = (Inr (), t1)"
    by (simp add: create_parent_def segs parent_segments_def start_of_def starts_with_def make_dirs_Cons demo_notes_tree_def fine_io_def)
  note climb = climbing_notes [OF demo_notes_dir(1) demo_notes_dir_there paths(2) plain made]
  have "t1 ([''h'', ''session-tools''] @ [''s'' @ ''.json'']) = None" using climb(2) by (auto simp: demo_notes_tree_def)
  from appending_run [OF paths(2) made climb(1) this] obtain r t' where
    run: "session_tools demo_home open_policy demo_codec fine_io (\<lambda>_. []) 7 (appending (''x'' @ ''/../'' @ ''s'')) demo_notes_tree = (Inr r, t')"
    by blast
  have none: "file_at demo_notes_tree fine_io ?s = None"
    by (rule demo_absent [OF plain_notes(2) [OF demo_notes_dir(1) demo_notes_dir_there paths(1) plain(2)]])
  have "reads_back demo_codec open_policy 7 (appending (''x'' @ ''/../'' @ ''s'')) appending_args fine_io ?s demo_notes_tree"
    using none by (rule demo_reads_back)
  from session_id_climbs [OF run appending_simps(1,4,5) demo_notes_dir(1) demo_notes_dir_there appending_simps(2) plain paths(1) this]
  show ?thesis using run none by (auto simp: appending_simps notes_in_def)
qed

end
