(* ===== verification/Ingress_Config.thy ===== *)
theory Ingress_Config
  imports Channel_Ingest Gateway_Guards Provider_Response
begin

section \<open>HTTP ingress: configuration, listener and routes (kelvin-gateway/src/ingress/mod.rs)\<close>

text \<open>
  How the webhook listener of the gateway is configured from arguments and environment variables, when
  it may be bound, which routes it serves and what it reports of itself.

  The environment is \<open>ev_getenv\<close> of \<open>config_env\<close>, as for the channels. Parsing a socket address
  is \<open>SocketAddr::from_str\<close> of the standard library and is the parameter \<open>parse_addr\<close>; binding a port
  is the parameter \<open>bind\<close>. A \<open>Result\<close> with a text as its error is \<open>string + 'a\<close>. A \<open>usize\<close>
  has 64 bits.
\<close>

subsection \<open>Constants\<close>

definition DEFAULT_INGRESS_BASE_PATH :: string where "DEFAULT_INGRESS_BASE_PATH = ''/ingress''"
definition DEFAULT_INGRESS_MAX_BODY_SIZE_BYTES :: nat where "DEFAULT_INGRESS_MAX_BODY_SIZE_BYTES = 256 * 1024"
definition MIN_INGRESS_MAX_BODY_SIZE_BYTES :: nat where "MIN_INGRESS_MAX_BODY_SIZE_BYTES = 1024"
definition MAX_INGRESS_MAX_BODY_SIZE_BYTES :: nat where "MAX_INGRESS_MAX_BODY_SIZE_BYTES = 2 * 1024 * 1024"
definition OPERATOR_UI_PATH :: string where "OPERATOR_UI_PATH = ''/operator/''"
definition DEFAULT_SLACK_REPLAY_WINDOW_SECS :: nat where "DEFAULT_SLACK_REPLAY_WINDOW_SECS = 300"
definition SECONDS_PER_DAY :: nat where "SECONDS_PER_DAY = 86400"
definition DEFAULT_TELEGRAM_POLLING_TIMEOUT_SECS :: nat where "DEFAULT_TELEGRAM_POLLING_TIMEOUT_SECS = 30"
definition DEFAULT_DISCORD_GATEWAY_INTENTS :: nat where "DEFAULT_DISCORD_GATEWAY_INTENTS = 4609"

definition ENV_GATEWAY_INGRESS_BASE_PATH :: string where "ENV_GATEWAY_INGRESS_BASE_PATH = ''KELVIN_GATEWAY_INGRESS_BASE_PATH''"
definition ENV_GATEWAY_INGRESS_BIND :: string where "ENV_GATEWAY_INGRESS_BIND = ''KELVIN_GATEWAY_INGRESS_BIND''"
definition ENV_GATEWAY_INGRESS_MAX_BODY_BYTES :: string where "ENV_GATEWAY_INGRESS_MAX_BODY_BYTES = ''KELVIN_GATEWAY_INGRESS_MAX_BODY_BYTES''"
definition ENV_TELEGRAM_WEBHOOK_SECRET_TOKEN :: string where "ENV_TELEGRAM_WEBHOOK_SECRET_TOKEN = ''KELVIN_TELEGRAM_WEBHOOK_SECRET_TOKEN''"
definition ENV_TELEGRAM_POLLING_TIMEOUT_SECS :: string where "ENV_TELEGRAM_POLLING_TIMEOUT_SECS = ''KELVIN_TELEGRAM_POLLING_TIMEOUT_SECS''"
definition ENV_SLACK_SIGNING_SECRET :: string where "ENV_SLACK_SIGNING_SECRET = ''KELVIN_SLACK_SIGNING_SECRET''"
definition ENV_SLACK_WEBHOOK_REPLAY_WINDOW_SECS :: string where "ENV_SLACK_WEBHOOK_REPLAY_WINDOW_SECS = ''KELVIN_SLACK_WEBHOOK_REPLAY_WINDOW_SECS''"
definition ENV_DISCORD_INTERACTIONS_PUBLIC_KEY :: string where "ENV_DISCORD_INTERACTIONS_PUBLIC_KEY = ''KELVIN_DISCORD_INTERACTIONS_PUBLIC_KEY''"
definition ENV_DISCORD_GATEWAY_INTENTS :: string where "ENV_DISCORD_GATEWAY_INTENTS = ''KELVIN_DISCORD_GATEWAY_INTENTS''"
definition ENV_WHATSAPP_WEBHOOK_VERIFY_TOKEN :: string where "ENV_WHATSAPP_WEBHOOK_VERIFY_TOKEN = ''KELVIN_WHATSAPP_WEBHOOK_VERIFY_TOKEN''"
definition ENV_WHATSAPP_APP_SECRET :: string where "ENV_WHATSAPP_APP_SECRET = ''KELVIN_WHATSAPP_APP_SECRET''"

lemmas ingress_consts = DEFAULT_INGRESS_BASE_PATH_def DEFAULT_INGRESS_MAX_BODY_SIZE_BYTES_def
  MIN_INGRESS_MAX_BODY_SIZE_BYTES_def MAX_INGRESS_MAX_BODY_SIZE_BYTES_def OPERATOR_UI_PATH_def
  DEFAULT_SLACK_REPLAY_WINDOW_SECS_def SECONDS_PER_DAY_def DEFAULT_TELEGRAM_POLLING_TIMEOUT_SECS_def
  DEFAULT_DISCORD_GATEWAY_INTENTS_def

subsection \<open>Hexadecimal input\<close>

definition decode_hex_nibble :: "nat \<Rightarrow> string + nat" where
  "decode_hex_nibble b =
     (if 48 \<le> b \<and> b \<le> 57 then Inr (b - 48)
      else if 97 \<le> b \<and> b \<le> 102 then Inr (b - 97 + 10)
      else if 65 \<le> b \<and> b \<le> 70 then Inr (b - 65 + 10)
      else Inl ''hex input contained a non-hex character'')"

text \<open>The loop over \<open>chunks_exact(2)\<close>; the length is even when it is entered.\<close>

fun decode_pairs :: "nat list \<Rightarrow> string + nat list" where
  "decode_pairs (h # l # rest) = bindS (decode_hex_nibble h) (\<lambda>high. bindS (decode_hex_nibble l) (\<lambda>low.
     bindS (decode_pairs rest) (\<lambda>bytes. Inr ((16 * high + low) # bytes))))"
| "decode_pairs bs = Inr []"

definition decode_hex :: "string \<Rightarrow> string + nat list" where
  "decode_hex input = (let bs = utf8_bytes (trim input) in
     if odd (length bs) then Inl ''hex input must contain an even number of characters'' else decode_pairs bs)"

subsection \<open>Environment variables\<close>

definition read_bounded_env :: "config_env \<Rightarrow> string \<Rightarrow> nat \<Rightarrow> nat \<Rightarrow> nat \<Rightarrow> string + nat" where
  "read_bounded_env env name dflt lo hi = (case read_env_text env name of
     None \<Rightarrow> Inr dflt
   | Some v \<Rightarrow> (case parse_unsigned u64_max v of
       None \<Rightarrow> Inl (''invalid numeric value for '' @ name @ '': '' @ v)
     | Some n \<Rightarrow> if n < lo \<or> hi < n
         then Inl (name @ '' must be between '' @ show_nat lo @ '' and '' @ show_nat hi) else Inr n))"

definition read_optional_socket_addr ::
    "(string \<Rightarrow> string + socket_addr) \<Rightarrow> config_env \<Rightarrow> string \<Rightarrow> string + socket_addr option" where
  "read_optional_socket_addr parse_addr env name = (case read_env_text env name of
     None \<Rightarrow> Inr None
   | Some v \<Rightarrow> (case parse_addr v of
       Inr a \<Rightarrow> Inr (Some a)
     | Inl err \<Rightarrow> Inl (''invalid '' @ name @ '' value '' @ [CHR 0x27] @ v @ [CHR 0x27] @ '': '' @ err)))"

definition read_optional_hex_32 :: "config_env \<Rightarrow> string \<Rightarrow> string + nat list option" where
  "read_optional_hex_32 env name = (case read_env_text env name of
     None \<Rightarrow> Inr None
   | Some raw \<Rightarrow> (case decode_hex raw of
       Inl err \<Rightarrow> Inl (''invalid '' @ name @ '' hex: '' @ err)
     | Inr bytes \<Rightarrow> if length bytes \<noteq> 32 then Inl (name @ '' must decode to 32 bytes'')
         else Inr (Some bytes)))"

definition normalize_base_path :: "string option \<Rightarrow> string + string" where
  "normalize_base_path value = (let raw = trim (opt_or value DEFAULT_INGRESS_BASE_PATH) in
     if raw = [] then Inl ''HTTP ingress base path must not be empty''
     else if \<not> starts_with ''/'' raw then Inl (''HTTP ingress base path must start with '' @ [CHR 0x27] @ ''/'' @ [CHR 0x27])
     else (let normalized = (if raw = ''/'' then DEFAULT_INGRESS_BASE_PATH else trim_end_slashes raw) in
       if contains_str ''//'' normalized \<or> list_ex is_whitespace normalized
       then Inl ''HTTP ingress base path must not contain repeated slashes or whitespace''
       else Inr normalized))"

subsection \<open>The configuration\<close>

record telegram_polling_config =
  tp_enabled :: bool
  tp_bot_token :: "string option"
  tp_poll_timeout_secs :: nat

record slack_webhook_config =
  sw_signing_secret :: "string option"
  sw_replay_window_secs :: nat

record discord_gateway_config =
  dg_enabled :: bool
  dg_bot_token :: "string option"
  dg_intents :: nat

record whatsapp_webhook_config =
  ww_verify_token :: "string option"
  ww_app_secret :: "string option"

record gateway_ingress_config =
  gi_bind_addr :: "socket_addr option"
  gi_base_path :: string
  gi_max_body_size_bytes :: nat
  gi_allow_insecure_public_bind :: bool
  gi_telegram_secret_token :: "string option"
  gi_telegram_polling :: telegram_polling_config
  gi_slack :: slack_webhook_config
  gi_discord_public_key :: "nat list option"
  gi_discord_gateway :: discord_gateway_config
  gi_whatsapp :: whatsapp_webhook_config

definition default_ingress_config :: gateway_ingress_config where
  "default_ingress_config = \<lparr>gi_bind_addr = None, gi_base_path = DEFAULT_INGRESS_BASE_PATH,
     gi_max_body_size_bytes = DEFAULT_INGRESS_MAX_BODY_SIZE_BYTES, gi_allow_insecure_public_bind = False,
     gi_telegram_secret_token = None,
     gi_telegram_polling = \<lparr>tp_enabled = True, tp_bot_token = None,
       tp_poll_timeout_secs = DEFAULT_TELEGRAM_POLLING_TIMEOUT_SECS\<rparr>,
     gi_slack = \<lparr>sw_signing_secret = None, sw_replay_window_secs = DEFAULT_SLACK_REPLAY_WINDOW_SECS\<rparr>,
     gi_discord_public_key = None,
     gi_discord_gateway = \<lparr>dg_enabled = True, dg_bot_token = None, dg_intents = DEFAULT_DISCORD_GATEWAY_INTENTS\<rparr>,
     gi_whatsapp = \<lparr>ww_verify_token = None, ww_app_secret = None\<rparr>\<rparr>"

definition ingress_from_env :: "(string \<Rightarrow> string + socket_addr) \<Rightarrow> config_env \<Rightarrow> socket_addr option \<Rightarrow>
    string option \<Rightarrow> nat option \<Rightarrow> bool \<Rightarrow> string + gateway_ingress_config" where
  "ingress_from_env parse_addr env bind_arg base_arg max_body_arg allow_insecure =
     (let env_base_path = read_env_text env ENV_GATEWAY_INGRESS_BASE_PATH in
      bindS (case bind_arg of Some a \<Rightarrow> Inr (Some a)
             | None \<Rightarrow> read_optional_socket_addr parse_addr env ENV_GATEWAY_INGRESS_BIND) (\<lambda>bind_addr.
      bindS (normalize_base_path (case base_arg of Some p \<Rightarrow> Some p | None \<Rightarrow> env_base_path)) (\<lambda>base_path.
      bindS (case max_body_arg of Some n \<Rightarrow> Inr n
             | None \<Rightarrow> read_bounded_env env ENV_GATEWAY_INGRESS_MAX_BODY_BYTES DEFAULT_INGRESS_MAX_BODY_SIZE_BYTES
                 MIN_INGRESS_MAX_BODY_SIZE_BYTES MAX_INGRESS_MAX_BODY_SIZE_BYTES) (\<lambda>max_body.
      if \<not> (MIN_INGRESS_MAX_BODY_SIZE_BYTES \<le> max_body \<and> max_body \<le> MAX_INGRESS_MAX_BODY_SIZE_BYTES)
      then Inl ''HTTP ingress max body size must be between 1024 and 2097152 bytes''
      else (let secret_token = read_env_text env ENV_TELEGRAM_WEBHOOK_SECRET_TOKEN in
      bindS (read_bounded_env env ENV_TELEGRAM_POLLING_TIMEOUT_SECS DEFAULT_TELEGRAM_POLLING_TIMEOUT_SECS 1 120)
        (\<lambda>poll_timeout.
      bindS (read_bounded_env env ENV_SLACK_WEBHOOK_REPLAY_WINDOW_SECS DEFAULT_SLACK_REPLAY_WINDOW_SECS 1
        SECONDS_PER_DAY) (\<lambda>replay_window.
      bindS (read_optional_hex_32 env ENV_DISCORD_INTERACTIONS_PUBLIC_KEY) (\<lambda>public_key.
      bindS (read_bounded_env env ENV_DISCORD_GATEWAY_INTENTS DEFAULT_DISCORD_GATEWAY_INTENTS 1 u64_max)
        (\<lambda>intents.
      Inr \<lparr>gi_bind_addr = bind_addr, gi_base_path = base_path, gi_max_body_size_bytes = max_body,
        gi_allow_insecure_public_bind = allow_insecure, gi_telegram_secret_token = secret_token,
        gi_telegram_polling = \<lparr>tp_enabled = (secret_token = None),
          tp_bot_token = read_env_text env ''KELVIN_TELEGRAM_BOT_TOKEN'', tp_poll_timeout_secs = poll_timeout\<rparr>,
        gi_slack = \<lparr>sw_signing_secret = read_env_text env ENV_SLACK_SIGNING_SECRET,
          sw_replay_window_secs = replay_window\<rparr>,
        gi_discord_public_key = public_key,
        gi_discord_gateway = \<lparr>dg_enabled = (public_key = None),
          dg_bot_token = read_env_text env ''KELVIN_DISCORD_BOT_TOKEN'', dg_intents = intents\<rparr>,
        gi_whatsapp = \<lparr>ww_verify_token = read_env_text env ENV_WHATSAPP_WEBHOOK_VERIFY_TOKEN,
          ww_app_secret = read_env_text env ENV_WHATSAPP_APP_SECRET\<rparr>\<rparr>)))))))))"

subsection \<open>The listener\<close>

record ingress_runtime =
  rt_bind_addr :: socket_addr
  rt_base_path :: string
  rt_max_body_size_bytes :: nat

text \<open>
  \<open>bind\<close> is \<open>TcpListener::bind\<close> followed by \<open>local_addr\<close>: each may fail with its text, and
  \<open>Inr\<close> carries the address the listener has.
\<close>

definition bind_ingress_listener :: "(socket_addr \<Rightarrow> string + string + socket_addr) \<Rightarrow> gateway_ingress_config \<Rightarrow>
    string + ingress_runtime option" where
  "bind_ingress_listener bind cfg = (case gi_bind_addr cfg of
     None \<Rightarrow> Inr None
   | Some addr \<Rightarrow>
       if \<not> is_loopback (so_ip addr) \<and> \<not> gi_allow_insecure_public_bind cfg then
         Inl (''refusing public HTTP ingress bind on '' @ so_text addr @ '' without --allow-insecure-public-bind true'')
       else (case bind addr of
         Inl err \<Rightarrow> Inl (''bind HTTP ingress failed on '' @ so_text addr @ '': '' @ err)
       | Inr (Inl err) \<Rightarrow> Inl (''resolve HTTP ingress bind addr failed: '' @ err)
       | Inr (Inr local) \<Rightarrow> Inr (Some \<lparr>rt_bind_addr = local, rt_base_path = gi_base_path cfg,
           rt_max_body_size_bytes = gi_max_body_size_bytes cfg\<rparr>)))"

definition channel_exposure ::
    "gateway_ingress_config \<Rightarrow> ingress_runtime option \<Rightarrow> channel_kind \<Rightarrow> direct_ingress_config" where
  "channel_exposure cfg runtime kind = (let
     path = (\<lambda>leaf. map_option (\<lambda>rt. rt_base_path rt @ leaf) runtime); listening = (runtime \<noteq> None);
     polling = tp_enabled (gi_telegram_polling cfg); socket = dg_enabled (gi_discord_gateway cfg) in
     case kind of
       Telegram \<Rightarrow> \<lparr>di_listener_enabled = (polling \<or> listening),
         di_webhook_path = (if polling then None else path ''/telegram''),
         di_verification_method = Some (if polling then ''telegram_polling'' else ''telegram_secret_token''),
         di_verification_configured = (polling \<or> gi_telegram_secret_token cfg \<noteq> None)\<rparr>
     | Slack \<Rightarrow> \<lparr>di_listener_enabled = listening, di_webhook_path = path ''/slack'',
         di_verification_method = Some ''slack_signing_secret'',
         di_verification_configured = (sw_signing_secret (gi_slack cfg) \<noteq> None)\<rparr>
     | Discord \<Rightarrow> \<lparr>di_listener_enabled = (socket \<or> listening),
         di_webhook_path = (if socket then None else path ''/discord''),
         di_verification_method = Some (if socket then ''discord_gateway'' else ''discord_ed25519''),
         di_verification_configured = (socket \<or> gi_discord_public_key cfg \<noteq> None)\<rparr>
     | WhatsApp \<Rightarrow> \<lparr>di_listener_enabled = listening, di_webhook_path = path ''/whatsapp'',
         di_verification_method = Some ''whatsapp_hmac_sha256'',
         di_verification_configured = (ww_app_secret (gi_whatsapp cfg) \<noteq> None)\<rparr>)"

definition ingress_status_json :: "ingress_runtime option \<Rightarrow> json" where
  "ingress_status_json runtime = (case runtime of
     None \<Rightarrow> JObj [(''enabled'', JBool False)]
   | Some rt \<Rightarrow> JObj [(''enabled'', JBool True), (''transport'', JStr ''http''),
       (''bind_addr'', JStr (so_text (rt_bind_addr rt))),
       (''bind_scope'', JStr (if is_loopback (so_ip (rt_bind_addr rt)) then ''loopback'' else ''public'')),
       (''base_path'', JStr (rt_base_path rt)),
       (''max_body_size_bytes'', JNum (show_nat (rt_max_body_size_bytes rt))),
       (''operator_ui_path'', JStr OPERATOR_UI_PATH)])"

subsection \<open>The routes\<close>

datatype http_method = Get | Post

datatype ingress_handler = OperatorIndex | OperatorScript | OperatorStyles | ChannelWebhook channel_kind | WhatsappVerify

text \<open>The router of \<open>spawn_server\<close>: a path and the handler of each method it answers.\<close>

definition ingress_routes :: "string \<Rightarrow> (string \<times> (http_method \<times> ingress_handler) list) list" where
  "ingress_routes base_path =
    [(''/operator'', [(Get, OperatorIndex)]),
     (OPERATOR_UI_PATH, [(Get, OperatorIndex)]),
     (''/operator/app.js'', [(Get, OperatorScript)]),
     (''/operator/styles.css'', [(Get, OperatorStyles)]),
     (base_path @ ''/telegram'', [(Post, ChannelWebhook Telegram)]),
     (base_path @ ''/slack'', [(Post, ChannelWebhook Slack)]),
     (base_path @ ''/discord'', [(Post, ChannelWebhook Discord)]),
     (base_path @ ''/whatsapp'', [(Get, WhatsappVerify), (Post, ChannelWebhook WhatsApp)])]"

subsection \<open>Hexadecimal input is decoded exactly\<close>

lemma decode_pairs_bytes: "decode_pairs bs = Inr out \<Longrightarrow> length out = length bs div 2 \<and> (\<forall>b\<in>set out. b < 256)"
  by (induction bs arbitrary: out rule: decode_pairs.induct)
    (auto simp: decode_hex_nibble_def bindS_def split: if_splits sum.splits)

definition hexchar :: "nat \<Rightarrow> char" where
  "hexchar n = (if n < 10 then char_of (48 + n) else char_of (87 + n))"

definition hex_string :: "nat list \<Rightarrow> string" where
  "hex_string bytes = concat (map (\<lambda>b. [hexchar (b div 16), hexchar (b mod 16)]) bytes)"

lemma hexchar_code: "n < 16 \<Longrightarrow> code (hexchar n) = (if n < 10 then 48 + n else 87 + n)"
  by (simp add: hexchar_def)

lemma utf8_bytes_hex: "\<forall>b\<in>set bytes. b < 256 \<Longrightarrow> utf8_bytes (hex_string bytes) =
    concat (map (\<lambda>b. [code (hexchar (b div 16)), code (hexchar (b mod 16))]) bytes)"
  by (induction bytes) (auto simp: hex_string_def utf8_bytes_def hexchar_code)

lemma decode_nibble_hex: "n < 16 \<Longrightarrow> decode_hex_nibble (code (hexchar n)) = Inr n"
  by (auto simp: hexchar_code decode_hex_nibble_def)

lemma decode_pairs_hex: "\<forall>b\<in>set bytes. b < 256 \<Longrightarrow>
    decode_pairs (concat (map (\<lambda>b. [code (hexchar (b div 16)), code (hexchar (b mod 16))]) bytes)) = Inr bytes"
  by (induction bytes) (auto simp: decode_nibble_hex)

lemma hexchar_not_ws: "n < 16 \<Longrightarrow> \<not> is_whitespace (hexchar n)"
  by (auto simp: is_whitespace_def hexchar_code)

lemma trim_hex_string: "trim (hex_string bytes) = hex_string bytes" if "\<forall>b\<in>set bytes. b < 256"
proof -
  have ws: "\<not> is_whitespace c" if "c \<in> set (hex_string bytes)" for c
    using that \<open>\<forall>b\<in>set bytes. b < 256\<close> by (auto simp: hex_string_def hexchar_not_ws)
  have dw: "dropWhile is_whitespace s = s" if "\<forall>c\<in>set s. \<not> is_whitespace c" for s
    using that by (cases s) auto
  show ?thesis using dw [of "hex_string bytes"] dw [of "rev (hex_string bytes)"] ws
    by (simp add: trim_def trim_end_def trim_start_def)
qed

theorem decode_hex_round_trip: "\<forall>b\<in>set bytes. b < 256 \<Longrightarrow> decode_hex (hex_string bytes) = Inr bytes"
  by (simp add: decode_hex_def trim_hex_string Let_def utf8_bytes_hex decode_pairs_hex
      length_concat comp_def sum_list_triv)

subsection \<open>The base path\<close>

lemma last_trim_end_slashes: "trim_end_slashes s \<noteq> [] \<Longrightarrow> last (trim_end_slashes s) \<noteq> CHR ''/''"
  using hd_dropWhile [of "\<lambda>c. c = CHR ''/''" "rev s"] by (simp add: trim_end_slashes_def last_rev)

theorem base_path_shape:
  assumes "normalize_base_path v = Inr p"
  shows "\<not> contains_str ''//'' p" "\<forall>c\<in>set p. \<not> is_whitespace c"
    "p = [] \<or> (hd p = CHR ''/'' \<and> last p \<noteq> CHR ''/'')"
proof -
  define raw where "raw = trim (opt_or v DEFAULT_INGRESS_BASE_PATH)"
  note eq = assms [unfolded normalize_base_path_def, folded raw_def, unfolded Let_def]
  show "\<not> contains_str ''//'' p" "\<forall>c\<in>set p. \<not> is_whitespace c"
    using eq by (auto simp: list_ex_iff split: if_splits)
  show "p = [] \<or> (hd p = CHR ''/'' \<and> last p \<noteq> CHR ''/'')"
  proof (cases "raw = ''/''")
    case True
    then show ?thesis using eq by (auto simp: DEFAULT_INGRESS_BASE_PATH_def starts_with_def split: if_splits)
  next
    case False
    then have p: "p = trim_end_slashes raw" and raw: "starts_with ''/'' raw"
      using eq by (auto split: if_splits)
    obtain w where w: "raw = p @ w"
      unfolding p trim_end_slashes_def
      by (metis append_take_drop_id dropWhile_eq_drop rev_append rev_rev_ident)
    show ?thesis
    proof (cases p)
      case (Cons c t)
      have "hd raw = CHR ''/''" using raw by (auto simp: starts_with_iff)
      then have "hd p = CHR ''/''" using w Cons by simp
      moreover have "last p \<noteq> CHR ''/''"
        using last_trim_end_slashes [of raw] Cons p by simp
      ultimately show ?thesis by blast
    qed simp
  qed
qed

text \<open>A path of two or more slashes is not refused, as an empty path is: it becomes the empty path.\<close>

theorem slashes_give_empty_base_path: "normalize_base_path (Some (replicate (n + 2) CHR ''/'')) = Inr []"
proof -
  have ws: "\<not> is_whitespace CHR ''/''" by (simp add: str_eval)
  have "trim (replicate k CHR ''/'') = replicate k CHR ''/''" for k
    by (simp add: trim_def trim_end_def trim_start_def ws)
  moreover have "trim_end_slashes (replicate k CHR ''/'') = []" for k
    by (simp add: trim_end_slashes_def)
  moreover have "replicate (n + 2) CHR ''/'' \<noteq> ''/''" by simp
  ultimately show ?thesis
    by (simp add: normalize_base_path_def Let_def opt_or_def starts_with_def del: replicate_Suc) simp
qed

subsection \<open>A configuration is well formed\<close>

lemma read_bounded_env_range: "read_bounded_env env name dflt lo hi = Inr n \<Longrightarrow> n = dflt \<or> lo \<le> n \<and> n \<le> hi"
  by (auto simp: read_bounded_env_def split: option.splits if_splits)

lemma read_env_text_trimmed: "read_env_text env name = Some v \<Longrightarrow> v \<noteq> [] \<and> trim v = v"
  by (auto simp: read_env_text_def non_blank_def Let_def split: option.splits if_splits)

lemma decode_hex_bytes: "decode_hex s = Inr bs \<Longrightarrow> \<forall>b\<in>set bs. b < 256"
  using decode_pairs_bytes by (fastforce simp: decode_hex_def Let_def split: if_splits)

lemma read_optional_hex_32_shape:
  "read_optional_hex_32 env name = Inr (Some key) \<Longrightarrow> length key = 32 \<and> (\<forall>b\<in>set key. b < 256)"
  by (auto simp: read_optional_hex_32_def dest: decode_hex_bytes split: option.splits sum.splits if_splits)

definition secret_ok :: "string option \<Rightarrow> bool" where
  "secret_ok v \<longleftrightarrow> (case v of None \<Rightarrow> True | Some s \<Rightarrow> s \<noteq> [] \<and> trim s = s)"

definition ingress_config_ok :: "gateway_ingress_config \<Rightarrow> bool" where
  "ingress_config_ok c \<longleftrightarrow>
     (gi_base_path c = [] \<or> hd (gi_base_path c) = CHR ''/'' \<and> last (gi_base_path c) \<noteq> CHR ''/'') \<and>
     \<not> contains_str ''//'' (gi_base_path c) \<and>
     (\<forall>ch\<in>set (gi_base_path c). \<not> is_whitespace ch) \<and>
     1024 \<le> gi_max_body_size_bytes c \<and> gi_max_body_size_bytes c \<le> 2097152 \<and>
     secret_ok (gi_telegram_secret_token c) \<and>
     tp_enabled (gi_telegram_polling c) = (gi_telegram_secret_token c = None) \<and>
     1 \<le> tp_poll_timeout_secs (gi_telegram_polling c) \<and> tp_poll_timeout_secs (gi_telegram_polling c) \<le> 120 \<and>
     secret_ok (sw_signing_secret (gi_slack c)) \<and>
     1 \<le> sw_replay_window_secs (gi_slack c) \<and> sw_replay_window_secs (gi_slack c) \<le> 86400 \<and>
     (case gi_discord_public_key c of None \<Rightarrow> True | Some k \<Rightarrow> length k = 32 \<and> (\<forall>b\<in>set k. b < 256)) \<and>
     dg_enabled (gi_discord_gateway c) = (gi_discord_public_key c = None) \<and>
     1 \<le> dg_intents (gi_discord_gateway c) \<and> dg_intents (gi_discord_gateway c) \<le> u64_max \<and>
     secret_ok (ww_verify_token (gi_whatsapp c)) \<and> secret_ok (ww_app_secret (gi_whatsapp c))"

lemma bindS_InrE: "bindS r k = Inr y \<Longrightarrow> (\<And>x. r = Inr x \<Longrightarrow> k x = Inr y \<Longrightarrow> P) \<Longrightarrow> P"
  by (cases r) auto

lemma secret_ok_env: "secret_ok (read_env_text env name)"
  by (auto simp: secret_ok_def dest: read_env_text_trimmed split: option.split)

text \<open>
  \<^bold>\<open>C38.\<close> Every ingress configuration the gateway builds from its arguments and the environment is
  well formed, whatever the variables hold: the base path is empty or starts with a slash, does not end
  with one, has no doubled slash and no white space; the body limit is between 1 KiB and 2 MiB; the
  secrets are trimmed and not blank; the public key of Discord has 32 bytes; the replay window, the
  polling timeout and the intents are within their bounds; and Telegram is polled exactly when it has
  no webhook secret, the Discord socket used exactly when there is no public key.
\<close>

theorem ingress_config_well_formed:
  assumes "ingress_from_env parse_addr env bind_arg base_arg max_body_arg allow = Inr c"
  shows "ingress_config_ok c"
proof -
  from assms obtain bind_addr base n poll replay pubkey intents where parts:
    "normalize_base_path (case base_arg of Some p \<Rightarrow> Some p
       | None \<Rightarrow> read_env_text env ENV_GATEWAY_INGRESS_BASE_PATH) = Inr base"
    "1024 \<le> n" "n \<le> 2097152"
    "read_bounded_env env ENV_TELEGRAM_POLLING_TIMEOUT_SECS 30 1 120 = Inr poll"
    "read_bounded_env env ENV_SLACK_WEBHOOK_REPLAY_WINDOW_SECS 300 1 86400 = Inr replay"
    "read_optional_hex_32 env ENV_DISCORD_INTERACTIONS_PUBLIC_KEY = Inr pubkey"
    "read_bounded_env env ENV_DISCORD_GATEWAY_INTENTS 4609 1 u64_max = Inr intents"
    and c: "c = \<lparr>gi_bind_addr = bind_addr, gi_base_path = base, gi_max_body_size_bytes = n,
        gi_allow_insecure_public_bind = allow,
        gi_telegram_secret_token = read_env_text env ENV_TELEGRAM_WEBHOOK_SECRET_TOKEN,
        gi_telegram_polling = \<lparr>tp_enabled = (read_env_text env ENV_TELEGRAM_WEBHOOK_SECRET_TOKEN = None),
          tp_bot_token = read_env_text env ''KELVIN_TELEGRAM_BOT_TOKEN'', tp_poll_timeout_secs = poll\<rparr>,
        gi_slack = \<lparr>sw_signing_secret = read_env_text env ENV_SLACK_SIGNING_SECRET,
          sw_replay_window_secs = replay\<rparr>,
        gi_discord_public_key = pubkey,
        gi_discord_gateway = \<lparr>dg_enabled = (pubkey = None),
          dg_bot_token = read_env_text env ''KELVIN_DISCORD_BOT_TOKEN'', dg_intents = intents\<rparr>,
        gi_whatsapp = \<lparr>ww_verify_token = read_env_text env ENV_WHATSAPP_WEBHOOK_VERIFY_TOKEN,
          ww_app_secret = read_env_text env ENV_WHATSAPP_APP_SECRET\<rparr>\<rparr>"
    unfolding ingress_from_env_def Let_def ingress_consts
    by (auto elim!: bindS_InrE split: if_split_asm)
  show ?thesis
    using base_path_shape [OF parts(1)] parts(2,3) read_bounded_env_range [OF parts(4)]
      read_bounded_env_range [OF parts(5)] read_bounded_env_range [OF parts(7)] read_optional_hex_32_shape
      parts(6)
    unfolding ingress_config_ok_def c
    by (simp add: secret_ok_env u64_max_def split: option.split) fastforce
qed

theorem ingress_config_well_formed_witness:
  "ingress_config_ok (default_ingress_config\<lparr>gi_base_path := ''/hooks'', gi_max_body_size_bytes := 4096\<rparr>)"
  by (rule ingress_config_well_formed [of "\<lambda>_. Inl []" "\<lparr>ev_getenv = (\<lambda>_. None), ev_parse_url = (\<lambda>_. Inl []),
    ev_read_module = (\<lambda>_. Inl []), ev_new_engine = Inr ()\<rparr>" None "Some ''/hooks/''" "Some 4096" False])
    (simp add: ingress_from_env_def default_ingress_config_def read_env_text_def non_blank_def Let_def ingress_consts
      read_bounded_env_def read_optional_hex_32_def read_optional_socket_addr_def normalize_base_path_def opt_or_def
      str_eval trim_end_slashes_def)

subsection \<open>The listener and its routes\<close>

text \<open>A public address is bound only with the override; what is bound serves the configured path.\<close>

theorem ingress_bind_guarded:
  assumes "bind_ingress_listener bind cfg = Inr (Some rt)"
  obtains addr where "gi_bind_addr cfg = Some addr" "is_loopback (so_ip addr) \<or> gi_allow_insecure_public_bind cfg"
    "bind addr = Inr (Inr (rt_bind_addr rt))" "rt_base_path rt = gi_base_path cfg"
  using assms by (auto simp: bind_ingress_listener_def split: option.splits if_splits sum.splits)

text \<open>No two routes have the same path, so that building the router does not panic.\<close>

theorem ingress_routes_distinct: "distinct (map fst (ingress_routes base))"
proof -
  have "base @ ''/telegram'' \<noteq> t" if "last t \<noteq> CHR ''m''" for t using that by auto
  moreover have "base @ ''/slack'' \<noteq> t" if "last t \<noteq> CHR ''k''" for t using that by auto
  moreover have "base @ ''/discord'' \<noteq> t" if "last t \<noteq> CHR ''d''" for t using that by auto
  moreover have "base @ ''/whatsapp'' \<noteq> t" if "last t \<noteq> CHR ''p''" for t using that by auto
  ultimately show ?thesis
    by (simp add: ingress_routes_def OPERATOR_UI_PATH_def)
qed

text \<open>A channel that reports a webhook path has a listener that routes that path to its handler.\<close>

theorem exposed_path_is_routed:
  assumes "bind_ingress_listener bind cfg = Inr runtime"
    "di_webhook_path (channel_exposure cfg runtime kind) = Some path"
  shows "\<exists>ms. (path, ms) \<in> set (ingress_routes (gi_base_path cfg)) \<and> (Post, ChannelWebhook kind) \<in> set ms"
proof -
  obtain rt where rt: "runtime = Some rt" "rt_base_path rt = gi_base_path cfg"
    using assms by (cases runtime; cases kind)
      (auto simp: channel_exposure_def Let_def elim: ingress_bind_guarded split: if_splits)
  have "path = gi_base_path cfg @ ''/'' @ kind_as_str kind"
    using assms(2) rt by (cases kind) (simp_all add: channel_exposure_def Let_def split: if_splits)
  then show ?thesis by (cases kind) (auto simp: ingress_routes_def)
qed

end
