(* ===== verification/Gateway_Ingress.thy ===== *)
theory Gateway_Ingress
  imports Ingress_Config "HOL-Library.Multiset"
begin

section \<open>Webhooks of the channels (kelvin-gateway/src/ingress)\<close>

text \<open>
  The handlers of the four webhooks (\<open>slack.rs\<close>, \<open>telegram.rs\<close>, \<open>discord.rs\<close>, \<open>whatsapp.rs\<close>):
  whether the channel is enabled, the secret, the signature, the decoding of the body, what becomes of
  the message, what is recorded in the metrics of the channel and what is answered. A handler answers
  before the message is ingested: it spawns a task, and the tasks run in any order between requests.

  Cryptography (\<open>ring::hmac\<close>, \<open>ed25519_dalek\<close>) is the record \<open>ingress_crypto\<close>, decoding a body with
  \<open>serde_json\<close> is \<open>webhook_decoders\<close>. A request is what \<open>axum\<close> hands to a handler: \<open>rq_contains\<close> is
  \<open>HeaderMap::contains_key\<close>, \<open>rq_header\<close> is \<open>get\<close> followed by \<open>to_str\<close>.
\<close>

subsection \<open>Requests, responses and the state\<close>

record http_request =
  rq_contains :: "string \<Rightarrow> bool"
  rq_header :: "string \<Rightarrow> string option"
  rq_body :: "nat list"

datatype http_response = JsonResponse nat json | TextResponse nat string

record ('k, 'g) ingress_crypto =
  xc_hmac_verify :: "nat list \<Rightarrow> nat list \<Rightarrow> nat list \<Rightarrow> bool"
  xc_verifying_key :: "nat list \<Rightarrow> 'k option"
  xc_signature :: "nat list \<Rightarrow> 'g option"
  xc_verify :: "'k \<Rightarrow> nat list \<Rightarrow> 'g \<Rightarrow> bool"

text \<open>\<open>ig_tasks\<close> are the spawned tasks with the requests each has still to ingest, \<open>ig_ingested\<close> what was
  ingested so far.\<close>

record 'w ingress_state =
  ig_channels :: "'w channel_engine"
  ig_tasks :: "(channel_kind \<times> ingress_request list) list"
  ig_ingested :: "(channel_kind \<times> ingress_request) list"

type_synonym 'w ingress_handling = "'w ingress_state \<Rightarrow> http_response \<times> 'w ingress_state"

definition json_error :: "nat \<Rightarrow> string \<Rightarrow> string \<Rightarrow> http_response" where
  "json_error status error_code message = JsonResponse status (JObj [(''ok'', JBool False),
     (''error'', JObj [(''code'', JStr error_code), (''message'', JStr message)])])"

definition ok_status :: "string \<Rightarrow> http_response" where
  "ok_status status = JsonResponse 200 (JObj [(''ok'', JBool True), (''status'', JStr status)])"

text \<open>A failure to persist the record is printed and dropped.\<close>

definition webhook_verified ::
    "'w channel_env \<Rightarrow> channel_kind \<Rightarrow> nat \<Rightarrow> bool \<Rightarrow> 'w ingress_state \<Rightarrow> 'w ingress_state" where
  "webhook_verified env kind status retry_hint s =
     s\<lparr>ig_channels := snd (engine_record_webhook_verified env kind status retry_hint (ig_channels s))\<rparr>"

definition webhook_denied ::
    "'w channel_env \<Rightarrow> channel_kind \<Rightarrow> nat \<Rightarrow> bool \<Rightarrow> string \<Rightarrow> 'w ingress_state \<Rightarrow> 'w ingress_state" where
  "webhook_denied env kind status retry_hint reason s =
     s\<lparr>ig_channels := snd (engine_record_webhook_denied env kind status retry_hint reason (ig_channels s))\<rparr>"

text \<open>The record and the answer of a refusal: most use one text for both.\<close>

definition deny :: "'w channel_env \<Rightarrow> channel_kind \<Rightarrow> bool \<Rightarrow> nat \<Rightarrow> string \<Rightarrow> string \<Rightarrow> string \<Rightarrow> 'w ingress_handling" where
  "deny env kind retry_hint status error_code reason message s =
     (json_error status error_code message, webhook_denied env kind status retry_hint reason s)"

abbreviation deny_same :: "'w channel_env \<Rightarrow> channel_kind \<Rightarrow> bool \<Rightarrow> nat \<Rightarrow> string \<Rightarrow> string \<Rightarrow> 'w ingress_handling" where
  "deny_same env kind retry_hint status error_code message \<equiv> deny env kind retry_hint status error_code message message"

definition answer :: "'w channel_env \<Rightarrow> channel_kind \<Rightarrow> bool \<Rightarrow> http_response \<Rightarrow> ingress_request list \<Rightarrow>
    'w ingress_handling" where
  "answer env kind retry_hint response requests s = (let s1 = webhook_verified env kind 200 retry_hint s in
     (response, if requests = [] then s1 else s1\<lparr>ig_tasks := ig_tasks s1 @ [(kind, requests)]\<rparr>))"

definition channel_disabled :: "channel_kind \<Rightarrow> http_response" where
  "channel_disabled kind = json_error 404 ''channel_disabled'' (kind_as_str kind @ '' channel is not enabled'')"

definition header_str :: "http_request \<Rightarrow> string \<Rightarrow> string option" where
  "header_str req name = non_blank (rq_header req name)"

definition message_request :: "string \<Rightarrow> string \<Rightarrow> ingress_request" where
  "message_request delivery_id body = \<lparr>ir_delivery_id = delivery_id, ir_chat_id = 0, ir_channel_id = [], ir_user_id = [],
     ir_user_phone = [], ir_text = body, ir_timeout_ms = None, ir_auth_token = None, ir_session_id = None,
     ir_workspace_dir = None\<rparr>"

subsection \<open>Slack\<close>

record slack_event =
  se_kind :: string
  se_subtype :: "string option"
  se_bot_id :: "string option"
  se_channel :: "string option"
  se_user :: "string option"
  se_text :: "string option"

record slack_envelope =
  sv_kind :: string
  sv_challenge :: "string option"
  sv_event_id :: "string option"
  sv_event :: "slack_event option"

datatype slack_action =
    SlackChallenge string
  | SlackIgnore
  | SlackAccept ingress_request
  | SlackDeny string

definition slack_into_request :: "slack_envelope \<Rightarrow> slack_action" where
  "slack_into_request v =
     (if sv_kind v = ''url_verification'' then (case sv_challenge v of
        Some challenge \<Rightarrow> SlackChallenge challenge
      | None \<Rightarrow> SlackDeny ''slack url_verification request missing challenge'')
      else if sv_kind v = ''event_callback'' then (case sv_event v of
        None \<Rightarrow> SlackDeny ''slack event_callback request missing event object''
      | Some e \<Rightarrow>
          if se_kind e \<noteq> ''message'' \<or> se_subtype e \<noteq> None \<or> se_bot_id e \<noteq> None then SlackIgnore
          else (case sv_event_id v of
            None \<Rightarrow> SlackDeny ''slack event_callback request missing event_id''
          | Some event_id \<Rightarrow> (case se_channel e of
              None \<Rightarrow> SlackDeny ''slack message event missing channel''
            | Some channel_id \<Rightarrow> (case se_user e of
                None \<Rightarrow> SlackDeny ''slack message event missing user''
              | Some user_id \<Rightarrow> (case se_text e of
                  None \<Rightarrow> SlackIgnore
                | Some body \<Rightarrow> if trim body = [] then SlackIgnore
                    else SlackAccept ((message_request (''slack:'' @ event_id) (trim body))
                      \<lparr>ir_channel_id := channel_id, ir_user_id := user_id\<rparr>))))))
      else SlackIgnore)"

definition slack_verify_signature :: "('k, 'g) ingress_crypto \<Rightarrow> string \<Rightarrow> string \<Rightarrow> string \<Rightarrow> nat list \<Rightarrow> string + unit" where
  "slack_verify_signature x signing_secret timestamp signature_header body =
     (case strip_prefix ''v0='' signature_header of
       None \<Rightarrow> Inl (''slack signature must start with '' @ [CHR 0x27] @ ''v0='' @ [CHR 0x27])
     | Some encoded \<Rightarrow> bindS (decode_hex encoded) (\<lambda>signature.
         if xc_hmac_verify x (utf8_bytes signing_secret) (utf8_bytes (''v0:'' @ timestamp @ '':'') @ body) signature
         then Inr () else Inl ''slack signature verification failed''))"

text \<open>\<open>str::parse::<i64>\<close>, and the cast of a \<open>u128\<close> to \<open>i64\<close>, which keeps its low 64 bits.\<close>

definition parse_i64 :: "string \<Rightarrow> int option" where
  "parse_i64 s = (case s of
     c # t \<Rightarrow> if c = CHR ''-'' then
         (if t = [] \<or> \<not> list_all is_digit t \<or> digits_value 0 t > 2 ^ 63 then None else Some (- int (digits_value 0 t)))
       else map_option int (parse_unsigned (2 ^ 63 - 1) s)
   | [] \<Rightarrow> None)"

definition as_i64 :: "int \<Rightarrow> int" where
  "as_i64 n = (n + 2 ^ 63) mod 2 ^ 64 - 2 ^ 63"

definition read_clock :: "'w channel_env \<Rightarrow> 'w ingress_state \<Rightarrow> nat \<times> 'w ingress_state" where
  "read_clock env s = (case cv_now env (eg_world (ig_channels s)) of
     (now, w) \<Rightarrow> (now, s\<lparr>ig_channels := (ig_channels s)\<lparr>eg_world := w\<rparr>\<rparr>))"

definition slack_respond :: "'w channel_env \<Rightarrow> bool \<Rightarrow> slack_action \<Rightarrow> 'w ingress_handling" where
  "slack_respond env retry_hint action = (case action of
     SlackChallenge challenge \<Rightarrow> answer env Slack retry_hint (JsonResponse 200 (JObj [(''challenge'', JStr challenge)])) []
   | SlackIgnore \<Rightarrow> answer env Slack retry_hint (ok_status ''ignored'') []
   | SlackAccept request \<Rightarrow> answer env Slack retry_hint (ok_status ''accepted'') [request]
   | SlackDeny message \<Rightarrow> deny_same env Slack retry_hint 400 ''invalid_payload'' message)"

definition slack_handle :: "'w channel_env \<Rightarrow> ('k, 'g) ingress_crypto \<Rightarrow> (nat list \<Rightarrow> string + slack_envelope) \<Rightarrow>
    slack_webhook_config \<Rightarrow> http_request \<Rightarrow> 'w ingress_handling" where
  "slack_handle env x decode cfg req s = (let retry_hint = rq_contains req ''x-slack-retry-num'' in
     if \<not> engine_is_enabled Slack (ig_channels s) then (channel_disabled Slack, s)
     else (case sw_signing_secret cfg of
       None \<Rightarrow> deny_same env Slack retry_hint 503 ''verification_unavailable'' ''slack signing secret is not configured'' s
     | Some signing_secret \<Rightarrow> (case header_str req ''x-slack-request-timestamp'' of
         None \<Rightarrow> deny env Slack retry_hint 401 ''unauthorized'' ''missing slack request timestamp''
           ''missing x-slack-request-timestamp'' s
       | Some timestamp \<Rightarrow> (case header_str req ''x-slack-signature'' of
           None \<Rightarrow> deny env Slack retry_hint 401 ''unauthorized'' ''missing slack signature'' ''missing x-slack-signature'' s
         | Some signature \<Rightarrow> (case parse_i64 timestamp of
             None \<Rightarrow> deny_same env Slack retry_hint 400 ''invalid_payload'' ''invalid slack request timestamp'' s
           | Some timestamp_secs \<Rightarrow> (case read_clock env s of (now, s1) \<Rightarrow>
               if \<bar>as_i64 (int (now div 1000)) - timestamp_secs\<bar> > int (sw_replay_window_secs cfg) then
                 deny_same env Slack retry_hint 401 ''unauthorized'' ''slack request timestamp is outside the replay window'' s1
               else (case slack_verify_signature x signing_secret timestamp signature (rq_body req) of
                 Inl message \<Rightarrow> deny_same env Slack retry_hint 401 ''unauthorized'' message s1
               | Inr _ \<Rightarrow> (case decode (rq_body req) of
                   Inl err \<Rightarrow> deny_same env Slack retry_hint 400 ''invalid_payload'' (''invalid slack webhook payload: '' @ err) s1
                 | Inr envelope \<Rightarrow> slack_respond env retry_hint (slack_into_request envelope) s1))))))))"

subsection \<open>Telegram\<close>

record telegram_message =
  tm_chat_id :: int
  tm_text :: "string option"

record telegram_update =
  tu_update_id :: int
  tu_message :: "telegram_message option"
  tu_edited_message :: "telegram_message option"
  tu_channel_post :: "telegram_message option"

definition option_or :: "'a option \<Rightarrow> 'a option \<Rightarrow> 'a option" where
  "option_or a b = (case a of None \<Rightarrow> b | Some _ \<Rightarrow> a)"

definition telegram_into_request :: "telegram_update \<Rightarrow> ingress_request option" where
  "telegram_into_request u =
     (case option_or (option_or (tu_message u) (tu_edited_message u)) (tu_channel_post u) of
       None \<Rightarrow> None
     | Some m \<Rightarrow> (case tm_text m of
         None \<Rightarrow> None
       | Some body \<Rightarrow> if trim body = [] then None
           else Some ((message_request (''telegram:'' @ show_int (tu_update_id u)) (trim body))\<lparr>ir_chat_id := tm_chat_id m\<rparr>)))"

definition telegram_handle :: "'w channel_env \<Rightarrow> (nat list \<Rightarrow> string + telegram_update) \<Rightarrow> string option \<Rightarrow>
    http_request \<Rightarrow> 'w ingress_handling" where
  "telegram_handle env decode secret_token req s =
     (if \<not> engine_is_enabled Telegram (ig_channels s) then (channel_disabled Telegram, s)
      else (case secret_token of
        None \<Rightarrow> deny_same env Telegram False 503 ''verification_unavailable'' ''telegram webhook secret token is not configured'' s
      | Some required_secret \<Rightarrow>
          if header_str req ''x-telegram-bot-api-secret-token'' \<noteq> Some required_secret then
            deny_same env Telegram False 401 ''unauthorized'' ''telegram webhook secret token mismatch'' s
          else (case decode (rq_body req) of
            Inl err \<Rightarrow> deny_same env Telegram False 400 ''invalid_payload'' (''invalid telegram webhook payload: '' @ err) s
          | Inr u \<Rightarrow> (case telegram_into_request u of
              None \<Rightarrow> answer env Telegram False (ok_status ''ignored'') [] s
            | Some request \<Rightarrow> answer env Telegram False (ok_status ''accepted'') [request] s))))"

subsection \<open>Discord\<close>

datatype command_option = CommandOption string "json option" "command_option list option"

text \<open>A user is its id; \<open>di_member\<close> is the \<open>user\<close> field of the member.\<close>

record discord_interaction =
  di_id :: string
  di_kind :: nat
  di_channel_id :: "string option"
  di_user :: "string option"
  di_member :: "string option option"
  di_data :: "(string \<times> command_option list option) option"

datatype discord_action =
    DiscordPing
  | DiscordIgnore string
  | DiscordAccept ingress_request
  | DiscordDeny string

text \<open>\<open>show_json\<close> is the \<open>Display\<close> instance of \<open>serde_json::Value\<close>.\<close>

fun append_options :: "(json \<Rightarrow> string) \<Rightarrow> command_option list \<Rightarrow> string list" where
  "append_options show_json [] = []"
| "append_options show_json (CommandOption name value children # rest) =
     (case value of None \<Rightarrow> [] | Some (JStr s) \<Rightarrow> [name @ ''='' @ s] | Some v \<Rightarrow> [name @ ''='' @ show_json v]) @
     (case children of None \<Rightarrow> [] | Some cs \<Rightarrow> name # append_options show_json cs) @
     append_options show_json rest"

definition render_command :: "(json \<Rightarrow> string) \<Rightarrow> string \<Rightarrow> command_option list option \<Rightarrow> string" where
  "render_command show_json name options = join_with '' ''
     ((''/'' @ trim name) # (case options of None \<Rightarrow> [] | Some os \<Rightarrow> append_options show_json os))"

definition discord_user_id :: "discord_interaction \<Rightarrow> string option" where
  "discord_user_id i = (case option_or (case di_member i of None \<Rightarrow> None | Some user \<Rightarrow> user) (di_user i) of
     None \<Rightarrow> None
   | Some user_id \<Rightarrow> if trim user_id = [] then None else Some user_id)"

definition discord_into_request :: "(json \<Rightarrow> string) \<Rightarrow> discord_interaction \<Rightarrow> discord_action" where
  "discord_into_request show_json i =
     (if di_kind i = 1 then DiscordPing
      else if di_kind i = 2 then (case di_channel_id i of
        None \<Rightarrow> DiscordDeny ''discord interaction missing channel_id''
      | Some channel_id \<Rightarrow> (case discord_user_id i of
          None \<Rightarrow> DiscordDeny ''discord interaction missing user id''
        | Some user_id \<Rightarrow> (case di_data i of
            None \<Rightarrow> DiscordDeny ''discord interaction missing command data''
          | Some (name, options) \<Rightarrow> DiscordAccept
              ((message_request (''discord:'' @ di_id i) (render_command show_json name options))
                \<lparr>ir_channel_id := channel_id, ir_user_id := user_id\<rparr>))))
      else DiscordIgnore ''Discord interaction type is not handled by KelvinClaw.'')"

definition discord_verify_signature ::
    "('k, 'g) ingress_crypto \<Rightarrow> nat list \<Rightarrow> string \<Rightarrow> string \<Rightarrow> nat list \<Rightarrow> string + unit" where
  "discord_verify_signature x public_key timestamp signature_header body =
     (case xc_verifying_key x public_key of
       None \<Rightarrow> Inl ''invalid discord public key''
     | Some key \<Rightarrow> (case decode_hex signature_header of
         Inl err \<Rightarrow> Inl (''invalid discord signature: '' @ err)
       | Inr bytes \<Rightarrow> (case xc_signature x bytes of
           None \<Rightarrow> Inl ''invalid discord signature''
         | Some signature \<Rightarrow> if xc_verify x key (utf8_bytes timestamp @ body) signature then Inr ()
             else Inl ''discord signature verification failed'')))"

definition discord_message :: "string \<Rightarrow> http_response" where
  "discord_message content = JsonResponse 200 (JObj [(''type'', JNum ''4''),
     (''data'', JObj [(''content'', JStr content), (''flags'', JNum ''64'')])])"

definition discord_respond :: "'w channel_env \<Rightarrow> discord_action \<Rightarrow> 'w ingress_handling" where
  "discord_respond env action = (case action of
     DiscordPing \<Rightarrow> answer env Discord False (JsonResponse 200 (JObj [(''type'', JNum ''1'')])) []
   | DiscordIgnore message \<Rightarrow> answer env Discord False (discord_message message) []
   | DiscordAccept request \<Rightarrow> answer env Discord False
       (discord_message ''KelvinClaw accepted your request and will reply in-channel.'') [request]
   | DiscordDeny message \<Rightarrow> deny_same env Discord False 400 ''invalid_payload'' message)"

definition discord_handle :: "'w channel_env \<Rightarrow> ('k, 'g) ingress_crypto \<Rightarrow> (nat list \<Rightarrow> string + discord_interaction) \<Rightarrow>
    (json \<Rightarrow> string) \<Rightarrow> nat list option \<Rightarrow> http_request \<Rightarrow> 'w ingress_handling" where
  "discord_handle env x decode show_json public_key req s =
     (if \<not> engine_is_enabled Discord (ig_channels s) then (channel_disabled Discord, s)
      else (case public_key of
        None \<Rightarrow> deny_same env Discord False 503 ''verification_unavailable''
          ''discord interactions public key is not configured'' s
      | Some key_bytes \<Rightarrow> (case header_str req ''x-signature-timestamp'' of
          None \<Rightarrow> deny env Discord False 401 ''unauthorized'' ''missing discord signature timestamp''
            ''missing x-signature-timestamp'' s
        | Some timestamp \<Rightarrow> (case header_str req ''x-signature-ed25519'' of
            None \<Rightarrow> deny env Discord False 401 ''unauthorized'' ''missing discord signature'' ''missing x-signature-ed25519'' s
          | Some signature \<Rightarrow> (case discord_verify_signature x key_bytes timestamp signature (rq_body req) of
              Inl message \<Rightarrow> deny_same env Discord False 401 ''unauthorized'' message s
            | Inr _ \<Rightarrow> (case decode (rq_body req) of
                Inl err \<Rightarrow> deny_same env Discord False 400 ''invalid_payload''
                  (''invalid discord interaction payload: '' @ err) s
              | Inr interaction \<Rightarrow> discord_respond env (discord_into_request show_json interaction) s))))))"

subsection \<open>WhatsApp\<close>

record whatsapp_message =
  wm_id :: "string option"
  wm_from :: "string option"
  wm_kind :: "string option"
  wm_text :: "string option option"

record whatsapp_value =
  wv_metadata :: "string option option"
  wv_messages :: "whatsapp_message list option"
  wv_statuses :: "json list option"

text \<open>A payload is the optional list of its entries, an entry the optional list of its changes, a change
  its optional value.\<close>

type_synonym whatsapp_payload = "whatsapp_value option list option list option"

text \<open>The phone number id travels in the channel field, which the engine does not read for WhatsApp.\<close>

definition whatsapp_request :: "string \<Rightarrow> whatsapp_message \<Rightarrow> ingress_request list" where
  "whatsapp_request phone_number_id m =
     (if opt_or (wm_kind m) [] \<noteq> ''text'' then []
      else (let sender = opt_or (wm_from m) [];
                body = (case wm_text m of Some (Some b) \<Rightarrow> trim b | _ \<Rightarrow> []) in
        if body = [] \<or> sender = [] then []
        else [(message_request (''whatsapp:'' @ opt_or (wm_id m) []) body)
               \<lparr>ir_channel_id := phone_number_id, ir_user_phone := sender\<rparr>]))"

definition whatsapp_change_requests :: "whatsapp_value option \<Rightarrow> ingress_request list" where
  "whatsapp_change_requests change = (case change of
     None \<Rightarrow> []
   | Some v \<Rightarrow>
       if wv_messages v = None \<and> wv_statuses v \<noteq> None then []
       else (let phone_number_id = (case wv_metadata v of Some (Some p) \<Rightarrow> p | _ \<Rightarrow> []) in
         case wv_messages v of None \<Rightarrow> [] | Some ms \<Rightarrow> concat (map (whatsapp_request phone_number_id) ms)))"

definition extract_requests :: "whatsapp_payload \<Rightarrow> ingress_request list" where
  "extract_requests payload = (case payload of
     None \<Rightarrow> []
   | Some entries \<Rightarrow> concat (map (\<lambda>changes. case changes of None \<Rightarrow> []
       | Some cs \<Rightarrow> concat (map whatsapp_change_requests cs)) entries))"

definition whatsapp_verify_signature :: "('k, 'g) ingress_crypto \<Rightarrow> string \<Rightarrow> http_request \<Rightarrow> string + unit" where
  "whatsapp_verify_signature x app_secret req = (case header_str req ''x-hub-signature-256'' of
     None \<Rightarrow> Inl ''missing x-hub-signature-256 header for whatsapp webhook''
   | Some header \<Rightarrow> (case strip_prefix ''sha256='' header of
       None \<Rightarrow> Inl (''whatsapp signature must start with '' @ [CHR 0x27] @ ''sha256='' @ [CHR 0x27])
     | Some encoded \<Rightarrow> bindS (decode_hex encoded) (\<lambda>signature.
         if xc_hmac_verify x (utf8_bytes app_secret) (rq_body req) signature then Inr ()
         else Inl ''whatsapp webhook signature verification failed'')))"

definition whatsapp_handle_post :: "'w channel_env \<Rightarrow> ('k, 'g) ingress_crypto \<Rightarrow> (nat list \<Rightarrow> string + whatsapp_payload) \<Rightarrow>
    string option \<Rightarrow> http_request \<Rightarrow> 'w ingress_handling" where
  "whatsapp_handle_post env x decode app_secret req s =
     (if \<not> engine_is_enabled WhatsApp (ig_channels s) then (channel_disabled WhatsApp, s)
      else (case app_secret of
        None \<Rightarrow> deny_same env WhatsApp False 503 ''verification_unavailable'' ''whatsapp app secret is not configured'' s
      | Some secret \<Rightarrow> (case whatsapp_verify_signature x secret req of
          Inl message \<Rightarrow> deny_same env WhatsApp False 401 ''unauthorized'' message s
        | Inr _ \<Rightarrow> (case decode (rq_body req) of
            Inl err \<Rightarrow> deny_same env WhatsApp False 400 ''invalid_payload'' (''invalid whatsapp webhook payload: '' @ err) s
          | Inr payload \<Rightarrow> (let requests = extract_requests payload in
              answer env WhatsApp False (ok_status (if requests = [] then ''ignored'' else ''accepted'')) requests s)))))"

record webhook_verify_query =
  hub_mode :: "string option"
  hub_verify_token :: "string option"
  hub_challenge :: "string option"

definition whatsapp_handle_verify ::
    "'w channel_env \<Rightarrow> string option \<Rightarrow> webhook_verify_query \<Rightarrow> 'w ingress_handling" where
  "whatsapp_handle_verify env verify_token q s =
     (if \<not> engine_is_enabled WhatsApp (ig_channels s) then (channel_disabled WhatsApp, s)
      else (case verify_token of
        None \<Rightarrow> deny_same env WhatsApp False 503 ''verification_unavailable''
          ''whatsapp webhook verify token is not configured'' s
      | Some configured_token \<Rightarrow>
          if opt_or (hub_mode q) [] \<noteq> ''subscribe'' then
            deny_same env WhatsApp False 403 ''verification_failed''
              (''whatsapp webhook verification: hub.mode is not '' @ [CHR 0x27] @ ''subscribe'' @ [CHR 0x27]) s
          else if opt_or (hub_verify_token q) [] \<noteq> configured_token then
            deny_same env WhatsApp False 403 ''verification_failed'' ''whatsapp webhook verification: verify token mismatch'' s
          else answer env WhatsApp False (TextResponse 200 (opt_or (hub_challenge q) [])) [] s))"

subsection \<open>Dispatch, tasks and events\<close>

record webhook_decoders =
  wd_slack :: "nat list \<Rightarrow> string + slack_envelope"
  wd_telegram :: "nat list \<Rightarrow> string + telegram_update"
  wd_discord :: "nat list \<Rightarrow> string + discord_interaction"
  wd_whatsapp :: "nat list \<Rightarrow> string + whatsapp_payload"
  wd_show_json :: "json \<Rightarrow> string"

definition webhook_handle :: "'w channel_env \<Rightarrow> ('k, 'g) ingress_crypto \<Rightarrow> webhook_decoders \<Rightarrow> gateway_ingress_config \<Rightarrow>
    channel_kind \<Rightarrow> http_request \<Rightarrow> 'w ingress_handling" where
  "webhook_handle env x d cfg kind req = (case kind of
     Telegram \<Rightarrow> telegram_handle env (wd_telegram d) (gi_telegram_secret_token cfg) req
   | Slack \<Rightarrow> slack_handle env x (wd_slack d) (gi_slack cfg) req
   | Discord \<Rightarrow> discord_handle env x (wd_discord d) (wd_show_json d) (gi_discord_public_key cfg) req
   | WhatsApp \<Rightarrow> whatsapp_handle_post env x (wd_whatsapp d) (ww_app_secret (gi_whatsapp cfg)) req)"

text \<open>
  One turn of the spawned task at position \<open>i\<close>: it takes the lock of the engine, ingests its next
  request and lets the lock go; an error of \<open>ingest\<close> is printed and the task goes on.
\<close>

definition run_task :: "'w channel_env \<Rightarrow> nat \<Rightarrow> 'w ingress_state \<Rightarrow> 'w ingress_state" where
  "run_task env i s =
     (if i < length (ig_tasks s) then (case ig_tasks s ! i of
        (kind, r # rest) \<Rightarrow> s\<lparr>ig_channels := snd (engine_ingest env kind r (ig_channels s)),
          ig_tasks := take i (ig_tasks s) @ (if rest = [] then [] else [(kind, rest)]) @ drop (Suc i) (ig_tasks s),
          ig_ingested := ig_ingested s @ [(kind, r)]\<rparr>
      | (kind, []) \<Rightarrow> s) else s)"

datatype ingress_event =
    Webhook channel_kind http_request
  | VerifyWebhook webhook_verify_query
  | RunTask nat

definition ingress_step :: "'w channel_env \<Rightarrow> ('k, 'g) ingress_crypto \<Rightarrow> webhook_decoders \<Rightarrow> gateway_ingress_config \<Rightarrow>
    ingress_event \<Rightarrow> 'w ingress_state \<Rightarrow> 'w ingress_state" where
  "ingress_step env x d cfg ev s = (case ev of
     Webhook kind req \<Rightarrow> snd (webhook_handle env x d cfg kind req s)
   | VerifyWebhook q \<Rightarrow> snd (whatsapp_handle_verify env (ww_verify_token (gi_whatsapp cfg)) q s)
   | RunTask i \<Rightarrow> run_task env i s)"

fun ingress_run :: "'w channel_env \<Rightarrow> ('k, 'g) ingress_crypto \<Rightarrow> webhook_decoders \<Rightarrow> gateway_ingress_config \<Rightarrow>
    ingress_event list \<Rightarrow> 'w ingress_state \<Rightarrow> 'w ingress_state" where
  "ingress_run env x d cfg [] s = s"
| "ingress_run env x d cfg (ev # evs) s = ingress_run env x d cfg evs (ingress_step env x d cfg ev s)"

subsection \<open>What a webhook lets through\<close>

text \<open>The specification of authenticity, one predicate per channel.\<close>

definition slack_authentic :: "('k, 'g) ingress_crypto \<Rightarrow> slack_webhook_config \<Rightarrow> nat \<Rightarrow> http_request \<Rightarrow> bool" where
  "slack_authentic x cfg now req \<longleftrightarrow> (\<exists>secret timestamp secs signature tag bytes.
     sw_signing_secret cfg = Some secret \<and>
     header_str req ''x-slack-request-timestamp'' = Some timestamp \<and> parse_i64 timestamp = Some secs \<and>
     \<bar>as_i64 (int (now div 1000)) - secs\<bar> \<le> int (sw_replay_window_secs cfg) \<and>
     header_str req ''x-slack-signature'' = Some signature \<and> strip_prefix ''v0='' signature = Some tag \<and>
     decode_hex tag = Inr bytes \<and>
     xc_hmac_verify x (utf8_bytes secret) (utf8_bytes (''v0:'' @ timestamp @ '':'') @ rq_body req) bytes)"

definition telegram_authentic :: "string option \<Rightarrow> http_request \<Rightarrow> bool" where
  "telegram_authentic secret_token req \<longleftrightarrow>
     secret_token \<noteq> None \<and> header_str req ''x-telegram-bot-api-secret-token'' = secret_token"

definition discord_authentic :: "('k, 'g) ingress_crypto \<Rightarrow> nat list option \<Rightarrow> http_request \<Rightarrow> bool" where
  "discord_authentic x public_key req \<longleftrightarrow> (\<exists>key_bytes key timestamp tag bytes signature.
     public_key = Some key_bytes \<and> xc_verifying_key x key_bytes = Some key \<and>
     header_str req ''x-signature-timestamp'' = Some timestamp \<and>
     header_str req ''x-signature-ed25519'' = Some tag \<and> decode_hex tag = Inr bytes \<and>
     xc_signature x bytes = Some signature \<and> xc_verify x key (utf8_bytes timestamp @ rq_body req) signature)"

definition whatsapp_authentic :: "('k, 'g) ingress_crypto \<Rightarrow> string option \<Rightarrow> http_request \<Rightarrow> bool" where
  "whatsapp_authentic x app_secret req \<longleftrightarrow> (\<exists>secret signature tag bytes.
     app_secret = Some secret \<and> header_str req ''x-hub-signature-256'' = Some signature \<and>
     strip_prefix ''sha256='' signature = Some tag \<and>
     decode_hex tag = Inr bytes \<and> xc_hmac_verify x (utf8_bytes secret) (rq_body req) bytes)"

definition authentic :: "('k, 'g) ingress_crypto \<Rightarrow> gateway_ingress_config \<Rightarrow> nat \<Rightarrow> channel_kind \<Rightarrow> http_request \<Rightarrow> bool" where
  "authentic x cfg now kind req = (case kind of
     Telegram \<Rightarrow> telegram_authentic (gi_telegram_secret_token cfg) req
   | Slack \<Rightarrow> slack_authentic x (gi_slack cfg) now req
   | Discord \<Rightarrow> discord_authentic x (gi_discord_public_key cfg) req
   | WhatsApp \<Rightarrow> whatsapp_authentic x (ww_app_secret (gi_whatsapp cfg)) req)"

text \<open>The messages of a body: none when it does not decode or is not a message.\<close>

definition messages_of :: "webhook_decoders \<Rightarrow> channel_kind \<Rightarrow> nat list \<Rightarrow> ingress_request list" where
  "messages_of d kind body = (case kind of
     Telegram \<Rightarrow> (case wd_telegram d body of
       Inr u \<Rightarrow> (case telegram_into_request u of Some r \<Rightarrow> [r] | None \<Rightarrow> []) | Inl _ \<Rightarrow> [])
   | Slack \<Rightarrow> (case wd_slack d body of
       Inr v \<Rightarrow> (case slack_into_request v of SlackAccept r \<Rightarrow> [r] | _ \<Rightarrow> []) | Inl _ \<Rightarrow> [])
   | Discord \<Rightarrow> (case wd_discord d body of
       Inr i \<Rightarrow> (case discord_into_request (wd_show_json d) i of DiscordAccept r \<Rightarrow> [r] | _ \<Rightarrow> []) | Inl _ \<Rightarrow> [])
   | WhatsApp \<Rightarrow> (case wd_whatsapp d body of Inr p \<Rightarrow> extract_requests p | Inl _ \<Rightarrow> []))"

definition accepted_requests :: "'w channel_env \<Rightarrow> ('k, 'g) ingress_crypto \<Rightarrow> webhook_decoders \<Rightarrow> gateway_ingress_config \<Rightarrow>
    channel_kind \<Rightarrow> http_request \<Rightarrow> 'w ingress_state \<Rightarrow> ingress_request list" where
  "accepted_requests env x d cfg kind req s =
     (if engine_is_enabled kind (ig_channels s) \<and>
         authentic x cfg (fst (cv_now env (eg_world (ig_channels s)))) kind req
      then messages_of d kind (rq_body req) else [])"

text \<open>\<open>spawned\<close> is what a list of requests adds to the tasks.\<close>

definition spawned :: "channel_kind \<Rightarrow> ingress_request list \<Rightarrow> (channel_kind \<times> ingress_request list) list" where
  "spawned kind rs = (if rs = [] then [] else [(kind, rs)])"

lemma tasks_simps [simp]:
  "ig_tasks (webhook_verified env kind status retry s) = ig_tasks s"
  "ig_tasks (webhook_denied env kind status retry reason s) = ig_tasks s"
  "ig_tasks (snd (deny env kind retry status c reason message s)) = ig_tasks s"
  "ig_tasks (snd (answer env kind retry response rs s)) = ig_tasks s @ spawned kind rs"
  "ig_tasks (snd (read_clock env s)) = ig_tasks s"
  "ig_ingested (webhook_verified env kind status retry s) = ig_ingested s"
  "ig_ingested (webhook_denied env kind status retry reason s) = ig_ingested s"
  "ig_ingested (snd (deny env kind retry status c reason message s)) = ig_ingested s"
  "ig_ingested (snd (answer env kind retry response rs s)) = ig_ingested s"
  "ig_ingested (snd (read_clock env s)) = ig_ingested s"
  by (simp_all add: webhook_verified_def webhook_denied_def deny_def answer_def spawned_def read_clock_def Let_def
      split: prod.split)

lemma fst_read_clock: "fst (read_clock env s) = fst (cv_now env (eg_world (ig_channels s)))"
  by (simp add: read_clock_def split: prod.split)

lemma slack_authentic_iff:
  assumes "sw_signing_secret cfg = Some secret" "header_str req ''x-slack-request-timestamp'' = Some timestamp"
    "header_str req ''x-slack-signature'' = Some signature" "parse_i64 timestamp = Some secs"
  shows "slack_authentic x cfg now req \<longleftrightarrow>
    \<not> \<bar>as_i64 (int (now div 1000)) - secs\<bar> > int (sw_replay_window_secs cfg) \<and>
    (\<exists>u. slack_verify_signature x secret timestamp signature (rq_body req) = Inr u)"
  using assms
  by (auto simp: slack_authentic_def slack_verify_signature_def bindS_def split: option.splits sum.splits if_splits)

lemma whatsapp_authentic_iff: "whatsapp_authentic x (Some secret) req \<longleftrightarrow>
    (\<exists>u. whatsapp_verify_signature x secret req = Inr u)"
  by (auto simp: whatsapp_authentic_def whatsapp_verify_signature_def bindS_def
      split: option.splits sum.splits if_splits)

lemma discord_authentic_iff:
  assumes "header_str req ''x-signature-timestamp'' = Some timestamp"
    "header_str req ''x-signature-ed25519'' = Some signature"
  shows "discord_authentic x (Some key_bytes) req \<longleftrightarrow>
    (\<exists>u. discord_verify_signature x key_bytes timestamp signature (rq_body req) = Inr u)"
  using assms
  by (auto simp: discord_authentic_def discord_verify_signature_def split: option.splits sum.splits if_splits)

text \<open>Each handler spawns exactly the messages of an authentic request, and ingests nothing itself.\<close>

lemma slack_respond_tasks: "ig_tasks (snd (slack_respond env retry action s)) = ig_tasks s @
    spawned Slack (case action of SlackAccept r \<Rightarrow> [r] | _ \<Rightarrow> [])"
  "ig_ingested (snd (slack_respond env retry action s)) = ig_ingested s"
  by (cases action; simp add: slack_respond_def spawned_def)+

lemma discord_respond_tasks: "ig_tasks (snd (discord_respond env action s)) = ig_tasks s @
    spawned Discord (case action of DiscordAccept r \<Rightarrow> [r] | _ \<Rightarrow> [])"
  "ig_ingested (snd (discord_respond env action s)) = ig_ingested s"
  by (cases action; simp add: discord_respond_def spawned_def)+

lemma spawned_Nil [simp]: "spawned kind [] = []"
  by (simp add: spawned_def)

lemma slack_handle_tasks:
  "ig_tasks (snd (slack_handle env x (wd_slack d) (gi_slack cfg) req s)) =
     ig_tasks s @ spawned Slack (accepted_requests env x d cfg Slack req s)"
  "ig_ingested (snd (slack_handle env x (wd_slack d) (gi_slack cfg) req s)) = ig_ingested s"
proof -
  obtain now s1 where rc: "read_clock env s = (now, s1)" by fastforce
  have s1: "ig_tasks s1 = ig_tasks s" "ig_ingested s1 = ig_ingested s"
    and now: "fst (cv_now env (eg_world (ig_channels s))) = now"
    using tasks_simps(5,10) [of env s] fst_read_clock [of env s] rc by simp_all
  show "ig_tasks (snd (slack_handle env x (wd_slack d) (gi_slack cfg) req s)) =
     ig_tasks s @ spawned Slack (accepted_requests env x d cfg Slack req s)"
    unfolding slack_handle_def accepted_requests_def now authentic_def messages_of_def Let_def rc channel_kind.case
    by (auto simp: s1 slack_authentic_iff slack_respond_tasks split: option.splits sum.splits)
      (auto simp: slack_authentic_def)
  show "ig_ingested (snd (slack_handle env x (wd_slack d) (gi_slack cfg) req s)) = ig_ingested s"
    unfolding slack_handle_def Let_def rc by (auto simp: s1 slack_respond_tasks split: option.splits sum.splits)
qed

lemma telegram_handle_tasks:
  "ig_tasks (snd (telegram_handle env (wd_telegram d) (gi_telegram_secret_token cfg) req s)) =
     ig_tasks s @ spawned Telegram (accepted_requests env x d cfg Telegram req s)"
  "ig_ingested (snd (telegram_handle env (wd_telegram d) (gi_telegram_secret_token cfg) req s)) = ig_ingested s"
  by (auto simp: telegram_handle_def accepted_requests_def authentic_def telegram_authentic_def messages_of_def
      split: option.splits sum.splits)

lemma discord_handle_tasks:
  "ig_tasks (snd (discord_handle env x (wd_discord d) (wd_show_json d) (gi_discord_public_key cfg) req s)) =
     ig_tasks s @ spawned Discord (accepted_requests env x d cfg Discord req s)"
  "ig_ingested (snd (discord_handle env x (wd_discord d) (wd_show_json d) (gi_discord_public_key cfg) req s)) =
     ig_ingested s"
  subgoal
    unfolding discord_handle_def accepted_requests_def authentic_def messages_of_def channel_kind.case
    by (auto simp: discord_authentic_iff discord_respond_tasks split: option.splits sum.splits)
      (auto simp: discord_authentic_def)
  subgoal
    by (auto simp: discord_handle_def discord_respond_tasks split: option.splits sum.splits)
  done

lemma whatsapp_handle_tasks:
  "ig_tasks (snd (whatsapp_handle_post env x (wd_whatsapp d) (ww_app_secret (gi_whatsapp cfg)) req s)) =
     ig_tasks s @ spawned WhatsApp (accepted_requests env x d cfg WhatsApp req s)"
  "ig_ingested (snd (whatsapp_handle_post env x (wd_whatsapp d) (ww_app_secret (gi_whatsapp cfg)) req s)) = ig_ingested s"
  subgoal
    unfolding whatsapp_handle_post_def accepted_requests_def authentic_def messages_of_def channel_kind.case
    by (auto simp: whatsapp_authentic_iff Let_def split: option.splits sum.splits)
      (auto simp: whatsapp_authentic_def)
  subgoal
    by (auto simp: whatsapp_handle_post_def Let_def split: option.splits sum.splits)
  done

lemma webhook_handle_tasks:
  "ig_tasks (snd (webhook_handle env x d cfg kind req s)) =
     ig_tasks s @ spawned kind (accepted_requests env x d cfg kind req s)"
  "ig_ingested (snd (webhook_handle env x d cfg kind req s)) = ig_ingested s"
  by (cases kind; simp add: webhook_handle_def slack_handle_tasks telegram_handle_tasks discord_handle_tasks
      whatsapp_handle_tasks)+

lemma verify_handle_tasks:
  "ig_tasks (snd (whatsapp_handle_verify env token q s)) = ig_tasks s"
  "ig_ingested (snd (whatsapp_handle_verify env token q s)) = ig_ingested s"
  by (auto simp: whatsapp_handle_verify_def split: option.splits)

subsection \<open>A handler touches metrics only\<close>

text \<open>
  \<open>engine_view\<close> is what the engine knows but for the metrics: the routes and commands, and per
  channel the configuration, the pairing, deduplication, rate limit and queue state, and the trace of
  submissions, commands and outbound messages.
\<close>

definition engine_view :: "'w channel_engine \<Rightarrow> route_rule list \<times> command_registry \<times>
    (channel_kind \<Rightarrow> (text_channel_config \<times> (string set \<times> (string \<times> string) list \<times> string set \<times> string list \<times>
      (string \<rightharpoonup> nat list) \<times> (string \<rightharpoonup> nat) \<times> queued_envelope list) \<times> channel_obs list) option)" where
  "engine_view e = (eg_routing e, eg_commands e,
     \<lambda>kind. map_option (\<lambda>(cfg, a). (cfg, core_state a, ad_trace a)) (eg_adapters e kind))"

abbreviation channels_view where "channels_view s \<equiv> engine_view (ig_channels s)"

lemma persist_view: "ad_trace (snd (persist_state env a)) = ad_trace a"
  "core_state (snd (persist_state env a)) = core_state a"
  by (auto simp: persist_state_def worldE_def split: prod.splits)

lemma record_verified_view:
  "ad_trace (snd (record_webhook_verified env status retry a)) = ad_trace a"
  "core_state (snd (record_webhook_verified env status retry a)) = core_state a"
  by (cases "cv_now env (ad_world a)"; simp add: record_webhook_verified_def clockE_def worldE_def metricsE_def eff_defs
      persist_view)+

lemma record_denied_view:
  "ad_trace (snd (record_webhook_denied env status retry reason a)) = ad_trace a"
  "core_state (snd (record_webhook_denied env status retry reason a)) = core_state a"
  by (cases "cv_now env (ad_world a)"; simp add: record_webhook_denied_def clockE_def worldE_def metricsE_def eff_defs
      persist_view)+

lemma with_adapter_view:
  assumes "\<And>cfg a. ad_trace (snd (f cfg a)) = ad_trace a" "\<And>cfg a. core_state (snd (f cfg a)) = core_state a"
  shows "engine_view (snd (with_adapter kind f e)) = engine_view e"
proof (cases "eg_adapters e kind")
  case None
  then show ?thesis by (simp add: with_adapter_def)
next
  case (Some ca)
  obtain cfg a where ca: "ca = (cfg, a)" by fastforce
  obtain r a' where f: "f cfg (a\<lparr>ad_world := eg_world e\<rparr>) = (r, a')" by fastforce
  have "ad_trace a' = ad_trace a" "core_state a' = core_state a"
    using assms [of cfg "a\<lparr>ad_world := eg_world e\<rparr>"] f by simp_all
  then show ?thesis using Some ca f by (simp add: with_adapter_def engine_view_def fun_eq_iff)
qed

lemma channels_view_records [simp]:
  "channels_view (webhook_verified env kind status retry s) = channels_view s"
  "channels_view (webhook_denied env kind status retry reason s) = channels_view s"
  by (simp_all add: webhook_verified_def webhook_denied_def engine_record_webhook_verified_def
      engine_record_webhook_denied_def with_adapter_view record_verified_view record_denied_view)

lemma engine_view_world [simp]:
  "engine_view (e\<lparr>eg_world := w\<rparr>) = engine_view e"
  by (simp add: engine_view_def)

lemma channels_view_steps [simp]:
  "channels_view (snd (deny env kind retry status c reason message s)) = channels_view s"
  "channels_view (snd (answer env kind retry response rs s)) = channels_view s"
  "channels_view (snd (read_clock env s)) = channels_view s"
  by (simp_all add: deny_def answer_def read_clock_def Let_def split: prod.split)

text \<open>
  Whatever a request to a webhook holds, its handler changes neither the pairing, deduplication, rate
  limits and queue of a channel, nor submits anything: only a task that runs later does.
\<close>

theorem webhook_only_counts: "channels_view (snd (webhook_handle env x d cfg kind req s)) = channels_view s"
proof -
  obtain now s1 where rc: "read_clock env s = (now, s1)" by fastforce
  have s1: "channels_view s1 = channels_view s" using channels_view_steps(3) [of env s] rc by simp
  show ?thesis
    by (cases kind) (auto simp: webhook_handle_def telegram_handle_def slack_handle_def discord_handle_def
      whatsapp_handle_post_def slack_respond_def discord_respond_def Let_def rc s1
      split: option.split sum.split slack_action.split discord_action.split)
qed

lemma verify_only_counts: "channels_view (snd (whatsapp_handle_verify env token q s)) = channels_view s"
  by (auto simp: whatsapp_handle_verify_def split: option.split)

subsection \<open>Every accepted message is ingested once, and nothing else\<close>

text \<open>
  What the log of a run stands for: \<open>ingests env e log e'\<close> if the engine \<open>e\<close> became \<open>e'\<close> by calls of
  \<open>engine_ingest\<close> with the entries of \<open>log\<close>, in their order, and by changes of metrics and of the world
  in between.
\<close>

inductive ingests :: "'w channel_env \<Rightarrow> 'w channel_engine \<Rightarrow> (channel_kind \<times> ingress_request) list \<Rightarrow>
    'w channel_engine \<Rightarrow> bool" for env e where
  ingests_none: "ingests env e [] e"
| ingests_counts: "ingests env e log e1 \<Longrightarrow> engine_view e2 = engine_view e1 \<Longrightarrow> ingests env e log e2"
| ingests_one: "ingests env e log e1 \<Longrightarrow> ingests env e (log @ [(kind, r)]) (snd (engine_ingest env kind r e1))"

lemma ingests_trans:
  assumes "ingests env e1 log' e2" "ingests env e log e1"
  shows "ingests env e (log @ log') e2"
  using assms by (induction rule: ingests.induct)
    (auto intro: ingests_counts ingests_one simp flip: append_assoc)

definition ingested_from :: "'w channel_env \<Rightarrow> 'w ingress_state \<Rightarrow> 'w ingress_state \<Rightarrow> bool" where
  "ingested_from env s s' \<longleftrightarrow>
     (\<exists>log. ig_ingested s' = ig_ingested s @ log \<and> ingests env (ig_channels s) log (ig_channels s'))"

lemma ingested_from_counts:
  assumes "channels_view s' = channels_view s" "ig_ingested s' = ig_ingested s"
  shows "ingested_from env s s'"
  using assms ingests_counts [OF ingests_none] by (auto simp: ingested_from_def)

lemma ingested_from_trans: "ingested_from env s s1 \<Longrightarrow> ingested_from env s1 s2 \<Longrightarrow> ingested_from env s s2"
  by (auto simp: ingested_from_def intro: ingests_trans)

lemma ingested_from_run_task: "ingested_from env s (run_task env i s)"
proof (cases "i < length (ig_tasks s) \<and> snd (ig_tasks s ! i) \<noteq> []")
  case True
  then obtain kind r rest where t: "ig_tasks s ! i = (kind, r # rest)"
    by (cases "ig_tasks s ! i") (auto simp: neq_Nil_conv)
  then show ?thesis using True ingests_one [OF ingests_none, of env _ kind r]
    by (simp add: run_task_def ingested_from_def)
next
  case False
  then have "run_task env i s = s" by (auto simp: run_task_def split: prod.split list.split)
  then show ?thesis by (simp add: ingested_from_counts)
qed

lemma ingested_from_step: "ingested_from env s (ingress_step env x d cfg ev s)"
  by (cases ev) (simp_all add: ingress_step_def ingested_from_run_task ingested_from_counts webhook_handle_tasks
      verify_handle_tasks webhook_only_counts verify_only_counts)

lemma ingested_from_run: "ingested_from env s (ingress_run env x d cfg evs s)"
proof (induction evs arbitrary: s)
  case Nil
  show ?case by (simp add: ingested_from_counts)
next
  case (Cons ev evs)
  show ?case using ingested_from_trans [OF ingested_from_step Cons.IH] by simp
qed

definition pending :: "'w ingress_state \<Rightarrow> (channel_kind \<times> ingress_request) list" where
  "pending s = concat (map (\<lambda>(kind, rs). map (Pair kind) rs) (ig_tasks s))"

fun accepted_log :: "'w channel_env \<Rightarrow> ('k, 'g) ingress_crypto \<Rightarrow> webhook_decoders \<Rightarrow> gateway_ingress_config \<Rightarrow>
    ingress_event list \<Rightarrow> 'w ingress_state \<Rightarrow> (channel_kind \<times> ingress_request) list" where
  "accepted_log env x d cfg [] s = []"
| "accepted_log env x d cfg (ev # evs) s =
     (case ev of Webhook kind req \<Rightarrow> map (Pair kind) (accepted_requests env x d cfg kind req s) | _ \<Rightarrow> []) @
     accepted_log env x d cfg evs (ingress_step env x d cfg ev s)"

definition ledger :: "'w ingress_state \<Rightarrow> (channel_kind \<times> ingress_request) multiset" where
  "ledger s = mset (ig_ingested s) + mset (pending s)"

lemma ledger_spawn: "ig_ingested s' = ig_ingested s \<Longrightarrow> ig_tasks s' = ig_tasks s @ spawned kind rs \<Longrightarrow>
    ledger s' = ledger s + mset (map (Pair kind) rs)"
  by (auto simp: ledger_def pending_def spawned_def)

lemma ledger_run_task: "ledger (run_task env i s) = ledger s"
proof (cases "i < length (ig_tasks s)")
  case True
  obtain kind rs where t: "ig_tasks s ! i = (kind, rs)" by fastforce
  have split_tasks: "ig_tasks s = take i (ig_tasks s) @ (kind, rs) # drop (Suc i) (ig_tasks s)"
    using id_take_nth_drop [OF True] t by simp
  show ?thesis
  proof (cases rs)
    case Nil
    then show ?thesis using True t by (simp add: run_task_def)
  next
    case (Cons r rest)
    have "mset (pending s) = mset (concat (map (\<lambda>(kind, rs). map (Pair kind) rs) (take i (ig_tasks s)))) +
        mset (map (Pair kind) rs) + mset (concat (map (\<lambda>(kind, rs). map (Pair kind) rs) (drop (Suc i) (ig_tasks s))))"
      by (subst pending_def, subst split_tasks) simp
    then show ?thesis using True t Cons by (simp add: run_task_def ledger_def pending_def)
  qed
qed (simp add: run_task_def)

lemma ledger_step: "ledger (ingress_step env x d cfg ev s) = ledger s +
    mset (case ev of Webhook kind req \<Rightarrow> map (Pair kind) (accepted_requests env x d cfg kind req s) | _ \<Rightarrow> [])"
proof (cases ev)
  case (Webhook kind req)
  then show ?thesis
    using ledger_spawn [OF webhook_handle_tasks(2) webhook_handle_tasks(1)] by (simp add: ingress_step_def)
next
  case (VerifyWebhook q)
  then show ?thesis by (simp add: ingress_step_def ledger_def pending_def verify_handle_tasks)
qed (simp add: ingress_step_def ledger_run_task)

text \<open>
  \<^bold>\<open>C39.\<close> Over any sequence of webhook requests, verification queries and turns of the spawned tasks,
  in any interleaving, what has been handed to the channels and what is still to be handed to them is, as a
  multiset, what there was at the start together with the messages of the requests that were
  authentic: for an enabled channel, with the configured secret, a signature over the very bytes of the
  body that verifies and, on Slack, a signed timestamp within the replay window of the clock at that
  moment. So a message of a request that fails a check is never ingested, one that passes is never lost
  and none is ingested twice. To be handed to the channels is an effect: the channels at the end came
  from those at the start by ingesting exactly the logged messages in their order, metrics aside.
\<close>

theorem webhooks_ingested_once:
  "mset (ig_ingested (ingress_run env x d cfg evs s)) + mset (pending (ingress_run env x d cfg evs s)) =
     mset (ig_ingested s) + mset (pending s) + mset (accepted_log env x d cfg evs s) \<and>
   (\<exists>log. ig_ingested (ingress_run env x d cfg evs s) = ig_ingested s @ log \<and>
     ingests env (ig_channels s) log (ig_channels (ingress_run env x d cfg evs s)))"
proof -
  have "ledger (ingress_run env x d cfg evs s) = ledger s + mset (accepted_log env x d cfg evs s)"
    by (induction evs arbitrary: s) (simp_all add: ledger_step)
  then show ?thesis using ingested_from_run [of env s x d cfg evs] by (simp add: ledger_def ingested_from_def)
qed

text \<open>Tasks finish: a turn of a task takes one pending request, and while one is pending some task has it.\<close>

definition tasks_ok :: "'w ingress_state \<Rightarrow> bool" where
  "tasks_ok s \<longleftrightarrow> (\<forall>(kind, rs)\<in>set (ig_tasks s). rs \<noteq> [])"

lemma tasks_ok_step: "tasks_ok s \<Longrightarrow> tasks_ok (ingress_step env x d cfg ev s)"
proof (cases ev)
  case (Webhook kind req)
  assume "tasks_ok s"
  then show ?thesis using Webhook by (auto simp: tasks_ok_def ingress_step_def webhook_handle_tasks spawned_def)
next
  case (VerifyWebhook q)
  assume "tasks_ok s"
  then show ?thesis using VerifyWebhook by (simp add: tasks_ok_def ingress_step_def verify_handle_tasks)
next
  case (RunTask i)
  assume ok: "tasks_ok s"
  obtain kind rs where "i < length (ig_tasks s) \<Longrightarrow> ig_tasks s ! i = (kind, rs)" by fastforce
  with ok RunTask show ?thesis
    by (cases rs) (auto simp: tasks_ok_def ingress_step_def run_task_def dest: in_set_takeD in_set_dropD)
qed

lemma run_first_task:
  assumes "tasks_ok s" "ig_tasks s \<noteq> []"
  shows "pending s = hd (pending s) # pending (run_task env 0 s)"
proof -
  obtain kind rs ts where t: "ig_tasks s = (kind, rs) # ts" using assms(2) by (cases "ig_tasks s") auto
  moreover have "rs \<noteq> []" using assms(1) t by (auto simp: tasks_ok_def)
  ultimately show ?thesis by (cases rs) (auto simp: run_task_def pending_def)
qed

theorem tasks_finish:
  "tasks_ok s \<Longrightarrow> n = length (pending s) \<Longrightarrow>
     ig_tasks (ingress_run env x d cfg (replicate n (RunTask 0)) s) = []"
proof (induction n arbitrary: s)
  case 0
  have "ig_tasks s = []"
  proof (rule ccontr)
    assume "ig_tasks s \<noteq> []"
    then have "pending s \<noteq> []" using run_first_task [OF 0(1)] by (metis list.distinct(1))
    then show False using 0(2) by simp
  qed
  then show ?case by simp
next
  case (Suc n)
  have "ig_tasks s \<noteq> []" using Suc.prems(2) by (auto simp: pending_def)
  then have "length (pending s) = Suc (length (pending (run_task env 0 s)))"
    using run_first_task [OF Suc.prems(1)] by (metis length_Cons)
  then show ?case
    using Suc.IH [of "run_task env 0 s"] tasks_ok_step [OF Suc.prems(1), of env x d cfg "RunTask 0"] Suc.prems(2)
    by (simp add: ingress_step_def)
qed

subsection \<open>What is answered\<close>

fun response_status :: "http_response \<Rightarrow> nat" where
  "response_status (JsonResponse n j) = n"
| "response_status (TextResponse n t) = n"

lemma response_status_simps [simp]:
  "response_status (json_error n c m) = n" "response_status (ok_status t) = 200"
  "response_status (channel_disabled kind) = 404" "response_status (discord_message t) = 200"
  "fst (answer env kind retry response rs s) = response"
  "response_status (fst (deny env kind retry n c reason m s)) = n"
  by (simp_all add: json_error_def ok_status_def channel_disabled_def discord_message_def answer_def deny_def Let_def)

text \<open>
  A webhook answers 200 only to a request that is authentic for an enabled channel; whatever else it
  is sent is answered 400, 401, 404 or 503.
\<close>

theorem webhook_status:
  "response_status (fst (webhook_handle env x d cfg kind req s)) \<in> {200, 400, 401, 404, 503}"
  "response_status (fst (webhook_handle env x d cfg kind req s)) = 200 \<Longrightarrow>
     engine_is_enabled kind (ig_channels s) \<and> authentic x cfg (fst (cv_now env (eg_world (ig_channels s)))) kind req"
proof -
  obtain now s1 where rc: "read_clock env s = (now, s1)" by fastforce
  have now: "fst (cv_now env (eg_world (ig_channels s))) = now" using fst_read_clock [of env s] rc by simp
  show "response_status (fst (webhook_handle env x d cfg kind req s)) \<in> {200, 400, 401, 404, 503}"
    by (cases kind) (auto simp: webhook_handle_def telegram_handle_def slack_handle_def discord_handle_def
      whatsapp_handle_post_def slack_respond_def discord_respond_def Let_def rc
      split: option.split sum.split slack_action.split discord_action.split)
  assume 200: "response_status (fst (webhook_handle env x d cfg kind req s)) = 200"
  show "engine_is_enabled kind (ig_channels s) \<and> authentic x cfg (fst (cv_now env (eg_world (ig_channels s)))) kind req"
    unfolding now
  proof (cases kind)
    case Telegram
    then show "engine_is_enabled kind (ig_channels s) \<and> authentic x cfg now kind req"
      using 200 by (auto simp: webhook_handle_def telegram_handle_def authentic_def telegram_authentic_def
        split: option.splits if_splits)
  next
    case Slack
    then show "engine_is_enabled kind (ig_channels s) \<and> authentic x cfg now kind req"
      using 200 by (auto simp: webhook_handle_def slack_handle_def authentic_def Let_def rc slack_authentic_iff
        split: option.splits if_splits sum.splits)
  next
    case Discord
    then show "engine_is_enabled kind (ig_channels s) \<and> authentic x cfg now kind req"
      using 200 by (auto simp: webhook_handle_def discord_handle_def authentic_def discord_authentic_iff
        split: option.splits if_splits sum.splits)
  next
    case WhatsApp
    then show "engine_is_enabled kind (ig_channels s) \<and> authentic x cfg now kind req"
      using 200 by (auto simp: webhook_handle_def whatsapp_handle_post_def authentic_def whatsapp_authentic_iff
        split: option.splits if_splits sum.splits)
  qed
qed

end
