(* ===== verification/Ingress_Sockets.thy ===== *)
theory Ingress_Sockets
  imports Gateway_Ingress
begin

section \<open>Telegram polling and the Discord socket (kelvin-gateway/src/ingress)\<close>

text \<open>
  The two loops that fetch messages when a channel has no webhook: \<open>run_poller\<close> of \<open>telegram.rs\<close>
  with its update offset, and \<open>run_gateway\<close> of \<open>discord.rs\<close>, the client of Discord's WebSocket
  protocol with its session, sequence number and decision to resume or to identify.

  Both loops run for ever; here they run over the list of what the network answers, one element per
  turn. The requests they spawn, the payloads they send and the pauses they make are results. Decoding is
  the record \<open>socket_decoders\<close>. The task that beats on its own timer is not modelled: it only sends the
  sequence number. The arithmetic of \<open>i64\<close> wraps, as it does in the release profile.
\<close>

subsection \<open>The Telegram poller\<close>

datatype poll_outcome =
    PollFailed string
  | PollUnparsed string
  | PollAnswered bool "string option" "telegram_update list"

definition poll_body :: "nat \<Rightarrow> int \<Rightarrow> json" where
  "poll_body timeout_secs offset = JObj [(''offset'', JNum (show_int offset)), (''timeout'', JNum (show_nat timeout_secs)),
     (''allowed_updates'', JArr [JStr ''message'', JStr ''edited_message'', JStr ''channel_post''])]"

fun poll_updates :: "int \<Rightarrow> telegram_update list \<Rightarrow> int \<times> ingress_request list" where
  "poll_updates offset [] = (offset, [])"
| "poll_updates offset (u # us) =
     (let next_offset = (if tu_update_id u \<ge> offset then as_i64 (tu_update_id u + 1) else offset) in
      case poll_updates next_offset us of (final, requests) \<Rightarrow>
        (final, (case telegram_into_request u of None \<Rightarrow> requests | Some r \<Rightarrow> r # requests)))"

text \<open>A turn that fails, does not parse or is answered \<open>ok=false\<close> pauses and leaves the offset.\<close>

definition poll_step :: "int \<Rightarrow> poll_outcome \<Rightarrow> int \<times> ingress_request list" where
  "poll_step offset outcome = (case outcome of
     PollAnswered ok description updates \<Rightarrow> if ok then poll_updates offset updates else (offset, [])
   | _ \<Rightarrow> (offset, []))"

fun poll_loop :: "int \<Rightarrow> poll_outcome list \<Rightarrow> int list \<times> ingress_request list" where
  "poll_loop offset [] = ([], [])"
| "poll_loop offset (outcome # rest) =
     (case poll_step offset outcome of (next_offset, requests) \<Rightarrow>
      case poll_loop next_offset rest of (offsets, others) \<Rightarrow> (offset # offsets, requests @ others))"

text \<open>The calls the poller makes (the address and the body) and the requests it spawns.\<close>

definition run_poller :: "telegram_polling_config \<Rightarrow> poll_outcome list \<Rightarrow>
    (string \<times> json option) list \<times> ingress_request list" where
  "run_poller cfg outcomes = (case tp_bot_token cfg of
     None \<Rightarrow> ([], [])
   | Some bot_token \<Rightarrow> (let base = ''https://api.telegram.org/bot'' @ bot_token in
       case poll_loop 0 outcomes of (offsets, requests) \<Rightarrow>
         ((base @ ''/deleteWebhook'', None) #
            map (\<lambda>offset. (base @ ''/getUpdates'', Some (poll_body (tp_poll_timeout_secs cfg) offset))) offsets,
          requests)))"

subsection \<open>The Discord socket\<close>

record socket_payload =
  gp_op :: nat
  gp_d :: "json option"
  gp_s :: "int option"
  gp_t :: "string option"

record message_create =
  mc_id :: string
  mc_channel_id :: string
  mc_author_id :: string
  mc_author_bot :: bool
  mc_content :: string

record socket_decoders =
  sd_payload :: "string \<Rightarrow> string + socket_payload"
  sd_hello :: "json \<Rightarrow> nat option"
  sd_ready :: "json \<Rightarrow> (string \<times> string) option"
  sd_message :: "json \<Rightarrow> message_create option"

definition socket_message_to_request :: "message_create \<Rightarrow> ingress_request option" where
  "socket_message_to_request m =
     (if mc_author_bot m \<or> trim (mc_content m) = [] then None
      else Some ((message_request (''discord:'' @ mc_id m) (trim (mc_content m)))
        \<lparr>ir_channel_id := mc_channel_id m, ir_user_id := mc_author_id m\<rparr>))"

text \<open>What \<open>stream.next()\<close> yields; the end of the list is \<open>None\<close>. A close carries the code of its frame.\<close>

datatype stream_item = StreamText string | StreamClose "nat option" | StreamOther | StreamError

datatype connect_result = ConnectFailed | Connected bool "stream_item list"

record socket_state =
  ss_session_id :: "string option"
  ss_resume_url :: "string option"
  ss_seq :: "int option"
  ss_resume :: bool
  ss_established :: bool
  ss_urls :: "string list"
  ss_sent :: "json list"
  ss_requests :: "ingress_request list"
  ss_pauses :: "nat list"

definition socket_start :: socket_state where
  "socket_start = \<lparr>ss_session_id = None, ss_resume_url = None, ss_seq = None, ss_resume = False,
     ss_established = False, ss_urls = [], ss_sent = [], ss_requests = [], ss_pauses = []\<rparr>"

definition pause :: "nat \<Rightarrow> socket_state \<Rightarrow> socket_state" where
  "pause secs s = s\<lparr>ss_pauses := ss_pauses s @ [secs]\<rparr>"

definition send_payload :: "json \<Rightarrow> socket_state \<Rightarrow> socket_state" where
  "send_payload j s = s\<lparr>ss_sent := ss_sent s @ [j]\<rparr>"

definition socket_url :: "socket_state \<Rightarrow> string" where
  "socket_url s = (if ss_resume s then opt_or (ss_resume_url s) ''wss://gateway.discord.gg'' @ ''/?v=10&encoding=json''
     else ''wss://gateway.discord.gg/?v=10&encoding=json'')"

text \<open>Waiting for HELLO: the heartbeat interval and the rest of the stream, or nothing when the loop gives up.\<close>

fun await_hello :: "socket_decoders \<Rightarrow> stream_item list \<Rightarrow> (nat \<times> stream_item list) option" where
  "await_hello d (StreamText raw # rest) = (case sd_payload d raw of
     Inl _ \<Rightarrow> await_hello d rest
   | Inr p \<Rightarrow>
       if gp_op p = 10 then
         Some (case gp_d p of None \<Rightarrow> 41250 | Some j \<Rightarrow> (case sd_hello d j of Some interval \<Rightarrow> interval | None \<Rightarrow> 41250), rest)
       else await_hello d rest)"
| "await_hello d items = None"

definition identify_payload :: "string \<Rightarrow> nat \<Rightarrow> json" where
  "identify_payload bot_token intents = JObj [(''op'', JNum ''2''), (''d'', JObj [(''token'', JStr bot_token),
     (''intents'', JNum (show_nat intents)), (''properties'', JObj [(''os'', JStr ''linux''),
       (''browser'', JStr ''kelvin-gateway''), (''device'', JStr ''kelvin-gateway'')])])]"

definition resume_payload :: "string \<Rightarrow> string \<Rightarrow> int \<Rightarrow> json" where
  "resume_payload bot_token session_id seq = JObj [(''op'', JNum ''6''), (''d'', JObj [(''token'', JStr bot_token),
     (''session_id'', JStr session_id), (''seq'', JNum (show_int seq))])]"

definition hello_reply :: "string \<Rightarrow> nat \<Rightarrow> socket_state \<Rightarrow> json \<times> socket_state" where
  "hello_reply bot_token intents s =
     (if ss_resume s then (case (ss_session_id s, ss_seq s) of
        (Some session_id, Some seq) \<Rightarrow> (resume_payload bot_token session_id seq, s)
      | _ \<Rightarrow> (identify_payload bot_token intents, s\<lparr>ss_resume := False\<rparr>))
      else (identify_payload bot_token intents, s))"

definition heartbeat_payload :: "int option \<Rightarrow> json" where
  "heartbeat_payload seq = JObj [(''op'', JNum ''1''), (''d'', (case seq of None \<Rightarrow> JNull | Some n \<Rightarrow> JNum (show_int n)))]"

definition dispatch_event :: "socket_decoders \<Rightarrow> socket_payload \<Rightarrow> socket_state \<Rightarrow> socket_state" where
  "dispatch_event d p s = (case gp_d p of
     None \<Rightarrow> s
   | Some j \<Rightarrow>
       if gp_t p = Some ''READY'' then (case sd_ready d j of
         None \<Rightarrow> s
       | Some (session_id, url) \<Rightarrow> s\<lparr>ss_session_id := Some session_id, ss_resume_url := Some url, ss_established := True\<rparr>)
       else if gp_t p = Some ''MESSAGE_CREATE'' then (case sd_message d j of
         None \<Rightarrow> s
       | Some m \<Rightarrow> (case socket_message_to_request m of
           None \<Rightarrow> s | Some r \<Rightarrow> s\<lparr>ss_requests := ss_requests s @ [r]\<rparr>))
       else s)"

text \<open>One payload: \<open>Some b\<close> leaves the loop with \<open>should_resume = b\<close>.\<close>

definition handle_payload :: "socket_decoders \<Rightarrow> socket_payload \<Rightarrow> socket_state \<Rightarrow> bool option \<times> socket_state" where
  "handle_payload d p s0 = (let s = (case gp_s p of None \<Rightarrow> s0 | Some n \<Rightarrow> s0\<lparr>ss_seq := Some n\<rparr>) in
     if gp_op p = 0 then (None, dispatch_event d p s)
     else if gp_op p = 1 then (None, send_payload (heartbeat_payload (ss_seq s)) s)
     else if gp_op p = 7 then (Some True, s)
     else if gp_op p = 9 then
       (if gp_d p = Some (JBool True) then (Some True, pause 2 s)
        else (Some False, pause 5 (s\<lparr>ss_session_id := None, ss_seq := None\<rparr>)))
     else (None, s))"

definition resumable_close :: "nat \<Rightarrow> bool" where
  "resumable_close c \<longleftrightarrow> c \<in> {4000, 4001, 4002, 4003, 4007, 4008, 4009}"

fun receive_loop :: "socket_decoders \<Rightarrow> stream_item list \<Rightarrow> socket_state \<Rightarrow> bool \<times> socket_state" where
  "receive_loop d [] s = (True, s)"
| "receive_loop d (StreamError # rest) s = (True, s)"
| "receive_loop d (StreamOther # rest) s = receive_loop d rest s"
| "receive_loop d (StreamClose close_code # rest) s = (let c = opt_or close_code 0 in
     (resumable_close c, if c = 4004 then pause 60 s else s))"
| "receive_loop d (StreamText raw # rest) s = (case sd_payload d raw of
     Inl _ \<Rightarrow> receive_loop d rest s
   | Inr p \<Rightarrow> (case handle_payload d p s of
       (Some should_resume, s') \<Rightarrow> (should_resume, s')
     | (None, s') \<Rightarrow> receive_loop d rest s'))"

text \<open>One turn of the outer loop, from connecting to the decision how to connect again.\<close>

definition after_connection :: "bool \<Rightarrow> socket_state \<Rightarrow> socket_state" where
  "after_connection should_resume s = (let resume = (should_resume \<and> ss_established s); s1 = s\<lparr>ss_resume := resume\<rparr>;
     s2 = (if \<not> ss_established s then pause 15 s1 else if \<not> resume then pause 5 s1 else s1) in
     s2\<lparr>ss_established := False\<rparr>)"

definition socket_turn :: "socket_decoders \<Rightarrow> string \<Rightarrow> nat \<Rightarrow> connect_result \<Rightarrow> socket_state \<Rightarrow> socket_state" where
  "socket_turn d bot_token intents result s0 = (let s = s0\<lparr>ss_urls := ss_urls s0 @ [socket_url s0]\<rparr> in
     case result of
       ConnectFailed \<Rightarrow> (pause 5 s)\<lparr>ss_resume := False\<rparr>
     | Connected sent_ok items \<Rightarrow> (case await_hello d items of
         None \<Rightarrow> (pause 5 s)\<lparr>ss_resume := False\<rparr>
       | Some (interval, rest) \<Rightarrow>
           if interval = 0 then s
           else (case hello_reply bot_token intents s of (payload, s1) \<Rightarrow>
             if \<not> sent_ok then s1
             else (case receive_loop d rest (send_payload payload s1) of
               (should_resume, s2) \<Rightarrow> after_connection should_resume s2))))"

definition run_discord_gateway :: "socket_decoders \<Rightarrow> discord_gateway_config \<Rightarrow> connect_result list \<Rightarrow> socket_state" where
  "run_discord_gateway d cfg results = (case dg_bot_token cfg of
     None \<Rightarrow> socket_start
   | Some bot_token \<Rightarrow> fold (socket_turn d bot_token (dg_intents cfg)) results socket_start)"

subsection \<open>The offset of the poller\<close>

definition update_ids_ok :: "telegram_update list \<Rightarrow> bool" where
  "update_ids_ok us \<longleftrightarrow> (\<forall>u\<in>set us. - (2 ^ 63) \<le> tu_update_id u \<and> tu_update_id u < 2 ^ 63 - 1)"

lemma as_i64_id: "- (2 ^ 63) \<le> n \<Longrightarrow> n < 2 ^ 63 \<Longrightarrow> as_i64 n = n"
  by (simp add: as_i64_def)

lemma poll_updates_exact:
  "update_ids_ok us \<Longrightarrow> poll_updates offset us =
     (fold max (map (\<lambda>u. tu_update_id u + 1) us) offset, List.map_filter telegram_into_request us)"
proof (induction us arbitrary: offset)
  case (Cons u us)
  have "(if offset \<le> tu_update_id u then as_i64 (tu_update_id u + 1) else offset) = max (tu_update_id u + 1) offset"
    using Cons.prems by (auto simp: update_ids_ok_def as_i64_id)
  moreover have "update_ids_ok us" using Cons.prems by (simp add: update_ids_ok_def)
  ultimately show ?case
    using Cons.IH [of "max (tu_update_id u + 1) offset"]
    by (simp add: map_filter_simps Let_def split: option.split)
qed (simp add: map_filter_simps)

lemma fold_max_start: "(a :: int) \<le> fold max xs a"
proof (induction xs arbitrary: a)
  case (Cons x xs)
  show ?case using Cons [of "max x a"] by simp
qed simp

lemma fold_max_member: "(x :: int) \<in> set xs \<Longrightarrow> x \<le> fold max xs a"
proof (induction xs arbitrary: a)
  case (Cons y xs)
  show ?case using Cons fold_max_start [of "max y a" xs] by (cases "x = y") auto
qed simp

fun answered :: "poll_outcome \<Rightarrow> telegram_update list" where
  "answered (PollAnswered ok description updates) = (if ok then updates else [])"
| "answered (PollFailed e) = []"
| "answered (PollUnparsed e) = []"

lemma poll_step_exact: "update_ids_ok (answered oc) \<Longrightarrow> poll_step offset oc =
    (fold max (map (\<lambda>u. tu_update_id u + 1) (answered oc)) offset, List.map_filter telegram_into_request (answered oc))"
proof (cases oc)
  case (PollAnswered ok description updates)
  assume "update_ids_ok (answered oc)"
  then show ?thesis using PollAnswered by (cases ok) (simp_all add: poll_step_def poll_updates_exact map_filter_simps)
qed (simp_all add: poll_step_def map_filter_simps)

lemma poll_loop_Cons:
  "fst (poll_loop offset (oc # rest)) = offset # fst (poll_loop (fst (poll_step offset oc)) rest)"
  "snd (poll_loop offset (oc # rest)) = snd (poll_step offset oc) @ snd (poll_loop (fst (poll_step offset oc)) rest)"
  by (simp_all split: prod.split)

text \<open>
  The offset never goes back, and once updates were answered every later call asks for greater ones
  only: an update that was answered is confirmed to Telegram by the next call. Every message among
  them is spawned once, in order.
\<close>

theorem poll_loop_requests:
  "\<forall>oc\<in>set outcomes. update_ids_ok (answered oc) \<Longrightarrow>
     snd (poll_loop offset outcomes) = List.map_filter telegram_into_request (concat (map answered outcomes))"
  by (induction outcomes arbitrary: offset)
    (simp_all add: poll_loop_Cons poll_step_exact List.map_filter_def del: poll_loop.simps(2))

lemma poll_loop_offsets_ge:
  "\<forall>oc\<in>set outcomes. update_ids_ok (answered oc) \<Longrightarrow> n \<in> set (fst (poll_loop offset outcomes)) \<Longrightarrow> offset \<le> n"
proof (induction outcomes arbitrary: offset)
  case (Cons oc rest)
  let ?next = "fold max (map (\<lambda>u. tu_update_id u + 1) (answered oc)) offset"
  have "n = offset \<or> n \<in> set (fst (poll_loop ?next rest))"
    using Cons.prems by (auto simp: poll_step_exact poll_loop_Cons simp del: poll_loop.simps(2))
  then show ?case using Cons.IH [of ?next] Cons.prems(1)
      fold_max_start [of offset "map (\<lambda>u. tu_update_id u + 1) (answered oc)"] by auto
qed simp

theorem poll_confirms_updates:
  assumes "\<forall>oc\<in>set (before @ [oc] @ later). update_ids_ok (answered oc)" "u \<in> set (answered oc)"
    "n \<in> set (drop (Suc (length before)) (fst (poll_loop offset (before @ [oc] @ later))))"
  shows "tu_update_id u < n"
  using assms
proof (induction before arbitrary: offset)
  case Nil
  let ?next = "fold max (map (\<lambda>u. tu_update_id u + 1) (answered oc)) offset"
  have "n \<in> set (fst (poll_loop ?next later))"
    using Nil by (simp add: poll_step_exact poll_loop_Cons del: poll_loop.simps(2))
  then have "?next \<le> n" using poll_loop_offsets_ge Nil.prems(1) by fastforce
  moreover have "tu_update_id u + 1 \<le> ?next" using Nil.prems(2) by (intro fold_max_member) auto
  ultimately show ?case by simp
next
  case (Cons b before)
  show ?case
    using Cons.IH [of "fst (poll_step offset b)"] Cons.prems by (simp add: poll_loop_Cons del: poll_loop.simps(2))
qed

text \<open>The greatest id there is does not raise the offset: it wraps to the least one.\<close>

theorem poll_offset_wraps:
  "fst (poll_updates 0 [\<lparr>tu_update_id = 2 ^ 63 - 1, tu_message = m, tu_edited_message = e, tu_channel_post = c\<rparr>]) = - (2 ^ 63)"
  by (simp add: as_i64_def Let_def split: prod.split)

subsection \<open>Resuming a session\<close>

definition is_ready :: "socket_decoders \<Rightarrow> stream_item \<Rightarrow> bool" where
  "is_ready d item = (case item of
     StreamText raw \<Rightarrow> (case sd_payload d raw of
       Inr p \<Rightarrow> gp_op p = 0 \<and> gp_t p = Some ''READY'' | Inl _ \<Rightarrow> False)
   | _ \<Rightarrow> False)"

lemma pause_simps [simp]:
  "ss_session_id (pause n s) = ss_session_id s" "ss_resume_url (pause n s) = ss_resume_url s"
  "ss_resume (pause n s) = ss_resume s" "ss_established (pause n s) = ss_established s"
  "ss_pauses (pause n s) = ss_pauses s @ [n]" "ss_requests (pause n s) = ss_requests s"
  "ss_sent (pause n s) = ss_sent s" "ss_seq (pause n s) = ss_seq s" "ss_urls (pause n s) = ss_urls s"
  by (simp_all add: pause_def)

lemma send_simps [simp]:
  "ss_session_id (send_payload j s) = ss_session_id s" "ss_resume_url (send_payload j s) = ss_resume_url s"
  "ss_resume (send_payload j s) = ss_resume s" "ss_established (send_payload j s) = ss_established s"
  "ss_requests (send_payload j s) = ss_requests s" "ss_sent (send_payload j s) = ss_sent s @ [j]"
  "ss_seq (send_payload j s) = ss_seq s" "ss_urls (send_payload j s) = ss_urls s"
  "ss_pauses (send_payload j s) = ss_pauses s"
  by (simp_all add: send_payload_def)

text \<open>A session that is known: what resuming relies on. It holds between turns, and within one.\<close>

definition session_known :: "socket_state \<Rightarrow> bool" where
  "session_known s \<longleftrightarrow> ss_session_id s \<noteq> None \<and> ss_resume_url s \<noteq> None"

lemma handle_payload_known:
  assumes "handle_payload d p s = (r, s')" "ss_established s \<longrightarrow> session_known s"
  shows "r \<noteq> Some False \<Longrightarrow> ss_established s' \<longrightarrow> session_known s'"
  using assms
  by (auto simp: handle_payload_def Let_def dispatch_event_def session_known_def
      split: if_splits option.splits prod.splits)

lemma receive_loop_known:
  "receive_loop d items s = (True, s') \<Longrightarrow> ss_established s \<longrightarrow> session_known s \<Longrightarrow> ss_established s' \<longrightarrow> session_known s'"
proof (induction d items s arbitrary: s' rule: receive_loop.induct)
  case (4 d close_code rest s)
  then show ?case by (auto simp: Let_def session_known_def split: if_splits)
next
  case (5 d raw rest s)
  show ?case
  proof (cases "sd_payload d raw")
    case (Inl e)
    then show ?thesis using 5 by simp
  next
    case (Inr p)
    obtain r s1 where h: "handle_payload d p s = (r, s1)" by fastforce
    show ?thesis
      using 5 Inr h handle_payload_known [OF h] by (cases r) auto
  qed
qed auto

definition socket_inv :: "socket_state \<Rightarrow> bool" where
  "socket_inv s \<longleftrightarrow> \<not> ss_established s \<and> (ss_resume s \<longrightarrow> session_known s)"

lemma after_connection_inv:
  "(should_resume \<longrightarrow> ss_established s \<longrightarrow> session_known s) \<Longrightarrow> socket_inv (after_connection should_resume s)"
  by (auto simp: socket_inv_def after_connection_def session_known_def Let_def)

lemma hello_reply_frame: "hello_reply bot_token intents s = (payload, s1) \<Longrightarrow>
    ss_established s1 = ss_established s \<and> ss_session_id s1 = ss_session_id s \<and> ss_resume_url s1 = ss_resume_url s \<and>
    ss_seq s1 = ss_seq s \<and> ss_requests s1 = ss_requests s \<and> ss_pauses s1 = ss_pauses s \<and> (ss_resume s1 \<longrightarrow> ss_resume s)"
  by (auto simp: hello_reply_def split: if_splits option.splits prod.splits)

theorem socket_turn_inv:
  assumes "socket_inv s"
  shows "socket_inv (socket_turn d bot_token intents result s)"
proof (cases result)
  case ConnectFailed
  then show ?thesis using assms by (simp add: socket_turn_def socket_inv_def)
next
  case (Connected sent_ok items)
  let ?s = "s\<lparr>ss_urls := ss_urls s @ [socket_url s]\<rparr>"
  show ?thesis
  proof (cases "await_hello d items")
    case None
    then show ?thesis using assms Connected by (simp add: socket_turn_def socket_inv_def)
  next
    case (Some hello)
    obtain interval rest where hello: "hello = (interval, rest)" by fastforce
    obtain payload s1 where reply: "hello_reply bot_token intents ?s = (payload, s1)" by fastforce
    obtain b s2 where loop: "receive_loop d rest (send_payload payload s1) = (b, s2)" by fastforce
    have s1: "socket_inv s1" using assms hello_reply_frame [OF reply] by (auto simp: socket_inv_def session_known_def)
    have "b \<longrightarrow> ss_established s2 \<longrightarrow> session_known s2"
      using receive_loop_known [of d rest "send_payload payload s1" s2] loop s1 by (cases b) (auto simp: socket_inv_def)
    then have "socket_inv (after_connection b s2)" by (rule after_connection_inv)
    then show ?thesis
      using assms Connected Some hello reply loop s1
      by (cases "interval = 0"; cases sent_ok) (simp_all add: socket_turn_def socket_inv_def session_known_def)
  qed
qed

text \<open>Whatever the network answers, the client resumes only a session it was given.\<close>

theorem resumes_known_session_only:
  "run_discord_gateway d cfg results = s \<Longrightarrow> ss_resume s \<Longrightarrow> session_known s"
proof -
  have "socket_inv (fold (socket_turn d bot_token intents) results s)" if "socket_inv s" for bot_token intents s
    using that by (induction results arbitrary: s) (simp_all add: socket_turn_inv)
  moreover have "socket_inv socket_start" by (simp add: socket_inv_def socket_start_def)
  ultimately show "run_discord_gateway d cfg results = s \<Longrightarrow> ss_resume s \<Longrightarrow> session_known s"
    by (auto simp: run_discord_gateway_def socket_inv_def socket_start_def split: option.splits)
qed

lemma handle_payload_no_ready:
  "\<not> (gp_op p = 0 \<and> gp_t p = Some ''READY'') \<Longrightarrow> ss_established (snd (handle_payload d p s)) = ss_established s"
  by (auto simp: handle_payload_def dispatch_event_def Let_def split: option.split prod.split)

lemma receive_loop_no_ready:
  "\<forall>item\<in>set items. \<not> is_ready d item \<Longrightarrow> ss_established (snd (receive_loop d items s)) = ss_established s"
proof (induction d items s rule: receive_loop.induct)
  case (5 d raw rest s)
  show ?case
  proof (cases "sd_payload d raw")
    case (Inr p)
    obtain r s1 where h: "handle_payload d p s = (r, s1)" by fastforce
    have "ss_established s1 = ss_established s"
      using handle_payload_no_ready [of p d s] 5(3) Inr h by (auto simp: is_ready_def)
    then show ?thesis using 5 Inr h by (cases r) auto
  qed (use 5 in auto)
qed (auto simp: Let_def)

text \<open>
  A session is kept for resuming only over a connection on which READY arrived. Discord answers
  RESUME with RESUMED, not with READY: after a connection that was resumed, the next one starts a new
  session, and only after the pause of 15 seconds meant for a bad token.
\<close>

theorem no_second_resume:
  assumes "\<not> ss_established s" "await_hello d items = Some (interval, rest)" "interval \<noteq> 0"
    "\<forall>item\<in>set rest. \<not> is_ready d item"
  shows "\<not> ss_resume (socket_turn d bot_token intents (Connected True items) s)"
    "last (ss_pauses (socket_turn d bot_token intents (Connected True items) s)) = 15"
proof -
  let ?s = "s\<lparr>ss_urls := ss_urls s @ [socket_url s]\<rparr>"
  obtain payload s1 where reply: "hello_reply bot_token intents ?s = (payload, s1)" by fastforce
  obtain b s2 where loop: "receive_loop d rest (send_payload payload s1) = (b, s2)" by fastforce
  have "\<not> ss_established s2"
    using receive_loop_no_ready [OF assms(4), of "send_payload payload s1"] loop hello_reply_frame [OF reply] assms(1) by simp
  then show "\<not> ss_resume (socket_turn d bot_token intents (Connected True items) s)"
    "last (ss_pauses (socket_turn d bot_token intents (Connected True items) s)) = 15"
    using assms reply loop by (simp_all add: socket_turn_def after_connection_def Let_def)
qed

subsection \<open>Messages of the socket\<close>

definition item_request :: "socket_decoders \<Rightarrow> stream_item \<Rightarrow> ingress_request list" where
  "item_request d item = (case item of
     StreamText raw \<Rightarrow> (case sd_payload d raw of
       Inr p \<Rightarrow> (if gp_op p = 0 \<and> gp_t p = Some ''MESSAGE_CREATE'' then
         (case gp_d p of Some j \<Rightarrow> (case sd_message d j of
            Some m \<Rightarrow> (case socket_message_to_request m of Some r \<Rightarrow> [r] | None \<Rightarrow> []) | None \<Rightarrow> []) | None \<Rightarrow> []) else [])
     | Inl _ \<Rightarrow> [])
   | _ \<Rightarrow> [])"

lemma item_request_none [simp]:
  "item_request d StreamOther = []" "sd_payload d raw = Inl e \<Longrightarrow> item_request d (StreamText raw) = []"
  by (simp_all add: item_request_def)

lemma handle_payload_requests:
  "ss_requests (snd (handle_payload d p s)) = ss_requests s @
     (if gp_op p = 0 \<and> gp_t p = Some ''MESSAGE_CREATE'' then
        (case gp_d p of Some j \<Rightarrow> (case sd_message d j of
           Some m \<Rightarrow> (case socket_message_to_request m of Some r \<Rightarrow> [r] | None \<Rightarrow> []) | None \<Rightarrow> []) | None \<Rightarrow> []) else [])"
  by (auto simp: handle_payload_def dispatch_event_def Let_def split: option.split prod.split)

text \<open>The loop spawns the messages of the items up to the one that ends it, in order, each once; never one
  of a bot.\<close>

theorem socket_messages_in_order:
  "\<exists>k. ss_requests (snd (receive_loop d items s)) = ss_requests s @ concat (map (item_request d) (take k items))"
proof (induction d items s rule: receive_loop.induct)
  case (3 d rest s)
  then obtain k where "ss_requests (snd (receive_loop d rest s)) = ss_requests s @ concat (map (item_request d) (take k rest))"
    by blast
  then show ?case by (intro exI [of _ "Suc k"]) simp
next
  case (4 d close_code rest s)
  then show ?case by (intro exI [of _ 0]) (simp add: Let_def)
next
  case (5 d raw rest s)
  show ?case
  proof (cases "sd_payload d raw")
    case (Inl e)
    obtain k where "ss_requests (snd (receive_loop d rest s)) = ss_requests s @ concat (map (item_request d) (take k rest))"
      using 5(1) [OF Inl] by blast
    then show ?thesis using Inl by (intro exI [of _ "Suc k"]) simp
  next
    case (Inr p)
    obtain r s1 where h: "handle_payload d p s = (r, s1)" by fastforce
    have s1: "ss_requests s1 = ss_requests s @ item_request d (StreamText raw)"
      using handle_payload_requests [of d p s] h Inr by (simp add: item_request_def)
    show ?thesis
    proof (cases r)
      case None
      then obtain k where "ss_requests (snd (receive_loop d rest s1)) = ss_requests s1 @ concat (map (item_request d) (take k rest))"
        using 5(2) [OF Inr h [symmetric]] by blast
      then show ?thesis using Inr h None s1 by (intro exI [of _ "Suc k"]) simp
    next
      case (Some b)
      then show ?thesis using Inr h s1 by (intro exI [of _ 1]) simp
    qed
  qed
qed (auto intro: exI [of _ 0])

end
