(* ===== verification/Gateway_Scheduler.thy ===== *)
theory Gateway_Scheduler
  imports Scheduler_Store Channel_Ingest
begin

section \<open>The scheduler of the gateway (kelvin-gateway/src/scheduler.rs)\<close>

text \<open>
  \<open>RuntimeScheduler\<close>: each scan claims the slots that are due from the store and spawns a task per slot;
  a task submits the run, waits for its outcome, records both in the store and sends the reply to the
  channel the schedule names. The scan and the tasks are modelled by where they stand, so that they
  interleave: one turn is one call of the runtime or of the channels, or one half of an operation of the store. The
  store loads and changes its state under its lock, and writes it after the lock is released
  (\<open>with_state_mut\<close> and \<open>save_state\<close> in store.rs); the two halves are two turns here, with any turns of the
  scan and of other tasks in between. The counters that go with an operation of the store are part of its last turn.

  The state is the file of the store, the counters, the channels (whose world is the environment), a claim
  that is not written yet, the spawned tasks and the requests submitted so far. What reading and writing
  the file does, the clock, and the runtime behind \<open>submit\<close> and \<open>wait_for_outcome\<close> are the record
  \<open>scheduler_env\<close>.
\<close>

subsection \<open>Data\<close>

record scheduler_metrics =
  sm_last_scan_started_ms :: "nat option"
  sm_last_scan_finished_ms :: "nat option"
  sm_claimed_total :: nat
  sm_submitted_total :: nat
  sm_submit_failed_total :: nat
  sm_completed_total :: nat
  sm_failed_total :: nat
  sm_timeout_total :: nat
  sm_reply_delivered_total :: nat
  sm_reply_failed_total :: nat
  sm_last_error :: "string option"

definition no_metrics :: scheduler_metrics where
  "no_metrics = \<lparr>sm_last_scan_started_ms = None, sm_last_scan_finished_ms = None, sm_claimed_total = 0,
     sm_submitted_total = 0, sm_submit_failed_total = 0, sm_completed_total = 0, sm_failed_total = 0,
     sm_timeout_total = 0, sm_reply_delivered_total = 0, sm_reply_failed_total = 0, sm_last_error = None\<rparr>"

record 'w scheduler_env =
  sc_calendar :: calendar
  sc_io :: "'w \<Rightarrow> io_outcome \<times> 'w"
  sc_now :: "'w \<Rightarrow> nat \<times> 'w"
  sc_submit :: "sdk_run_request \<Rightarrow> ('w, sdk_accepted_run) eff"
  sc_wait :: "string \<Rightarrow> nat \<Rightarrow> ('w, run_outcome) eff"
  sc_channel_env :: "'w channel_env"

text \<open>
  Where the task of a claimed slot stands. In \<open>TaskSaving st t\<close> the update of the store made at the point
  \<open>t\<close> has changed the state to \<open>st\<close> and is about to write it.
\<close>

datatype slot_task =
    TaskSubmit claimed_slot
  | TaskSubmitFailed claimed_slot string
  | TaskSubmitted claimed_slot string
  | TaskWait claimed_slot string
  | TaskOutcome claimed_slot string run_outcome
  | TaskReply claimed_slot string
  | TaskReplied claimed_slot "kelvin_error option"
  | TaskSaving scheduler_state slot_task

record 'w scheduler_run =
  sd_file :: scheduler_file
  sd_metrics :: scheduler_metrics
  sd_channels :: "'w channel_engine"
  sd_scan :: "(scheduler_state \<times> claimed_slot list) option"
  sd_tasks :: "slot_task list"
  sd_trace :: "sdk_run_request list"

definition DEFAULT_MAX_CLAIMS_PER_SCHEDULE :: nat where "DEFAULT_MAX_CLAIMS_PER_SCHEDULE = 4"
definition HISTORY_LIMIT_MAX :: nat where "HISTORY_LIMIT_MAX = 200"
definition OUTCOME_PREVIEW_MAX_LEN :: nat where "OUTCOME_PREVIEW_MAX_LEN = 512"

subsection \<open>Access to the parts of the state\<close>

definition sd_worldly :: "('w \<Rightarrow> 'a \<times> 'w) \<Rightarrow> 'w scheduler_run \<Rightarrow> 'a \<times> 'w scheduler_run" where
  "sd_worldly f s = (case f (eg_world (sd_channels s)) of
     (x, w) \<Rightarrow> (x, s\<lparr>sd_channels := (sd_channels s)\<lparr>eg_world := w\<rparr>\<rparr>))"

definition sd_count :: "(scheduler_metrics \<Rightarrow> scheduler_metrics) \<Rightarrow> 'w scheduler_run \<Rightarrow> 'w scheduler_run" where
  "sd_count f s = s\<lparr>sd_metrics := f (sd_metrics s)\<rparr>"

subsection \<open>Texts\<close>

definition truncate_text :: "string \<Rightarrow> string" where
  "truncate_text v = truncate_chars v OUTCOME_PREVIEW_MAX_LEN"

definition join_payloads :: "string list \<Rightarrow> string" where
  "join_payloads payloads = (let joined = join_with newline (filter (\<lambda>v. trim v \<noteq> []) payloads) in
     if trim joined = [] then ''No response generated.'' else truncate_text joined)"

subsection \<open>A scan\<close>

text \<open>
  \<open>scan_once\<close> in two turns, cut where \<open>claim_due_slots\<close> has released the lock. Without a due slot nothing
  is written, and an error ends the scan at once.
\<close>

definition mark_scan_finished :: "'w scheduler_env \<Rightarrow> 'w scheduler_run \<Rightarrow> 'w scheduler_run" where
  "mark_scan_finished env s = (case sd_worldly (sc_now env) s of (finished, s1) \<Rightarrow>
     sd_count (\<lambda>m. m\<lparr>sm_last_scan_finished_ms := Some finished\<rparr>) s1)"

definition scan_failed :: "'w scheduler_env \<Rightarrow> kelvin_error \<Rightarrow> 'w scheduler_run \<Rightarrow> 'w scheduler_run" where
  "scan_failed env err s = mark_scan_finished env
     (sd_count (\<lambda>m. m\<lparr>sm_last_error := Some (''scheduler claim scan failed: '' @ show_error err)\<rparr>) s)"

definition scan_begin :: "'w scheduler_env \<Rightarrow> 'w scheduler_run \<Rightarrow> 'w scheduler_run" where
  "scan_begin env s0 = (case sd_worldly (sc_now env) s0 of (started, s1) \<Rightarrow>
     let s2 = sd_count (\<lambda>m. m\<lparr>sm_last_scan_started_ms := Some started\<rparr>) s1 in
     case sd_worldly (sc_now env) s2 of (now, s3) \<Rightarrow>
     case sd_worldly (sc_io env) s3 of (io, s4) \<Rightarrow>
     case claim_prepare io (sc_calendar env) now DEFAULT_MAX_CLAIMS_PER_SCHEDULE (sd_file s4) of (result, f) \<Rightarrow>
     let s5 = s4\<lparr>sd_file := f\<rparr> in
     case result of
       Inl err \<Rightarrow> scan_failed env err s5
     | Inr (st, claimed) \<Rightarrow>
         if claimed = [] then mark_scan_finished env s5 else s5\<lparr>sd_scan := Some (st, claimed)\<rparr>)"

definition scan_commit :: "'w scheduler_env \<Rightarrow> scheduler_state \<Rightarrow> claimed_slot list \<Rightarrow> 'w scheduler_run \<Rightarrow> 'w scheduler_run" where
  "scan_commit env st prepared s0 = (case sd_worldly (sc_io env) s0 of (io, s1) \<Rightarrow>
     case claim_commit io st prepared (sd_file s1) of (result, f) \<Rightarrow>
     let s2 = s1\<lparr>sd_file := f, sd_scan := None\<rparr> in
     case result of
       Inl err \<Rightarrow> scan_failed env err s2
     | Inr claimed \<Rightarrow> mark_scan_finished env
         ((sd_count (\<lambda>m. m\<lparr>sm_claimed_total := sat_add64 (sm_claimed_total m) (length claimed)\<rparr>) s2)
           \<lparr>sd_tasks := sd_tasks s2 @ map TaskSubmit claimed\<rparr>))"

definition scan_turn :: "'w scheduler_env \<Rightarrow> 'w scheduler_run \<Rightarrow> 'w scheduler_run" where
  "scan_turn env s = (case sd_scan s of None \<Rightarrow> scan_begin env s | Some (st, claimed) \<Rightarrow> scan_commit env st claimed s)"

subsection \<open>The task of a slot\<close>

definition slot_run_id :: "claimed_slot \<Rightarrow> string" where
  "slot_run_id c = ''schedule-'' @ st_id (cl_schedule c) @ ''-'' @ show_nat (cl_slot_at_ms c)"

definition slot_request :: "claimed_slot \<Rightarrow> sdk_run_request" where
  "slot_request c = (let t = cl_schedule c in
     \<lparr>sr_prompt = st_prompt t, sr_session_id = st_session_id t, sr_workspace_dir = st_workspace_dir t,
      sr_timeout_ms = st_timeout_ms t, sr_system_prompt = st_system_prompt t, sr_memory_query = st_memory_query t,
      sr_run_id = Some (slot_run_id c)\<rparr>)"

definition slot_wait_ms :: "claimed_slot \<Rightarrow> nat" where
  "slot_wait_ms c = sat_add64 (opt_or (st_timeout_ms (cl_schedule c)) 300000) 3000"

abbreviation slot_sid :: "claimed_slot \<Rightarrow> string" where
  "slot_sid c \<equiv> st_id (cl_schedule c)"

text \<open>The update of the store at a point of the task: what it records of the slot, at the time it reads.\<close>

fun store_update :: "slot_task \<Rightarrow> (claimed_slot \<times> (nat \<Rightarrow> slot_record \<Rightarrow> slot_record \<times> audit_entry)) option" where
  "store_update (TaskSubmitFailed c message) =
     Some (c, \<lambda>now. submit_failed_change now (slot_sid c) (cl_slot_at_ms c) message)"
| "store_update (TaskSubmitted c run_id) =
     Some (c, \<lambda>now. submitted_change now (slot_sid c) (cl_slot_at_ms c) run_id)"
| "store_update (TaskOutcome c run_id outcome) = Some (c, \<lambda>now. (case outcome of
     OutcomeCompleted result \<Rightarrow> outcome_change now (slot_sid c) (cl_slot_at_ms c) SlotCompleted run_id
       (Some (join_payloads (map pl_text (res_payloads result)))) None
   | OutcomeFailed err \<Rightarrow> outcome_change now (slot_sid c) (cl_slot_at_ms c) SlotFailed run_id None (Some err)
   | OutcomeTimeout \<Rightarrow> outcome_change now (slot_sid c) (cl_slot_at_ms c) SlotTimeout run_id None None))"
| "store_update (TaskReplied c failure) = Some (c, \<lambda>now. reply_change now (slot_sid c) (cl_slot_at_ms c) (failure = None)
     (map_option show_error failure))"
| "store_update task = None"

text \<open>The text of the reply to an outcome.\<close>

definition outcome_reply :: "run_outcome \<Rightarrow> string" where
  "outcome_reply outcome = (case outcome of
     OutcomeCompleted result \<Rightarrow> join_payloads (map pl_text (res_payloads result))
   | OutcomeFailed err \<Rightarrow> truncate_text (''Kelvin scheduled run failed: '' @ err)
   | OutcomeTimeout \<Rightarrow> ''Kelvin scheduled run timed out.'')"

text \<open>What follows the update, whose result is dropped (\<open>let _ =\<close>): the counters and the next point, if any.\<close>

fun after_update :: "slot_task \<Rightarrow> 'w scheduler_run \<Rightarrow> slot_task option \<times> 'w scheduler_run" where
  "after_update (TaskSubmitFailed c message) s = (None,
     sd_count (\<lambda>m. m\<lparr>sm_submit_failed_total := inc64 (sm_submit_failed_total m), sm_last_error := Some message\<rparr>) s)"
| "after_update (TaskSubmitted c run_id) s = (Some (TaskWait c run_id),
     sd_count (\<lambda>m. m\<lparr>sm_submitted_total := inc64 (sm_submitted_total m)\<rparr>) s)"
| "after_update (TaskOutcome c run_id outcome) s = (Some (TaskReply c (outcome_reply outcome)),
     sd_count (\<lambda>m. case outcome of
       OutcomeCompleted result \<Rightarrow> m\<lparr>sm_completed_total := inc64 (sm_completed_total m)\<rparr>
     | OutcomeFailed err \<Rightarrow> m\<lparr>sm_failed_total := inc64 (sm_failed_total m), sm_last_error := Some err\<rparr>
     | OutcomeTimeout \<Rightarrow> m\<lparr>sm_timeout_total := inc64 (sm_timeout_total m),
         sm_last_error := Some ''scheduled run timed out''\<rparr>) s)"
| "after_update (TaskReplied c failure) s = (None,
     sd_count (\<lambda>m. case failure of
       None \<Rightarrow> m\<lparr>sm_reply_delivered_total := inc64 (sm_reply_delivered_total m)\<rparr>
     | Some err \<Rightarrow> m\<lparr>sm_reply_failed_total := inc64 (sm_reply_failed_total m), sm_last_error := Some (show_error err)\<rparr>) s)"
| "after_update task s = (None, s)"

text \<open>The two halves of an update: under the lock, and the write after it.\<close>

definition begin_update :: "'w scheduler_env \<Rightarrow> slot_task \<Rightarrow> claimed_slot \<Rightarrow>
    (nat \<Rightarrow> slot_record \<Rightarrow> slot_record \<times> audit_entry) \<Rightarrow> 'w scheduler_run \<Rightarrow> slot_task option \<times> 'w scheduler_run" where
  "begin_update env task c change s0 = (case sd_worldly (sc_io env) s0 of (io, s1) \<Rightarrow>
     case sd_worldly (sc_now env) s1 of (now, s2) \<Rightarrow>
     case update_prepare io (slot_sid c) (cl_slot_at_ms c) (change now) (sd_file s2) of (result, f) \<Rightarrow>
     case result of
       Inl _ \<Rightarrow> after_update task (s2\<lparr>sd_file := f\<rparr>)
     | Inr st \<Rightarrow> (Some (TaskSaving st task), s2\<lparr>sd_file := f\<rparr>))"

definition finish_update :: "'w scheduler_env \<Rightarrow> scheduler_state \<Rightarrow> slot_task \<Rightarrow> 'w scheduler_run \<Rightarrow>
    slot_task option \<times> 'w scheduler_run" where
  "finish_update env st task s0 = (case sd_worldly (sc_io env) s0 of (io, s1) \<Rightarrow>
     after_update task (s1\<lparr>sd_file := snd (save_state io st (sd_file s1))\<rparr>))"

definition deliver_reply :: "'w scheduler_env \<Rightarrow> claimed_slot \<Rightarrow> string \<Rightarrow> 'w scheduler_run \<Rightarrow>
    slot_task option \<times> 'w scheduler_run" where
  "deliver_reply env c body s = (case st_reply_target (cl_schedule c) of
     None \<Rightarrow> (None, s)
   | Some target \<Rightarrow>
       (case deliver_scheduled_reply (sc_channel_env env) (rt_channel target) (rt_account_id target) body (sd_channels s) of
         (result, g) \<Rightarrow> (Some (TaskReplied c (case result of Inl err \<Rightarrow> Some err | Inr _ \<Rightarrow> None)), s\<lparr>sd_channels := g\<rparr>)))"

text \<open>\<open>execute_slot\<close> by turns; \<open>None\<close> is the end of the task.\<close>

definition task_turn :: "'w scheduler_env \<Rightarrow> slot_task \<Rightarrow> 'w scheduler_run \<Rightarrow> slot_task option \<times> 'w scheduler_run" where
  "task_turn env task s = (case task of
     TaskSubmit c \<Rightarrow> (case sd_worldly (sc_submit env (slot_request c)) s of (result, s1) \<Rightarrow>
       (case result of Inl err \<Rightarrow> Some (TaskSubmitFailed c (show_error err))
         | Inr accepted \<Rightarrow> Some (TaskSubmitted c (sa_run_id accepted)),
        s1\<lparr>sd_trace := sd_trace s1 @ [slot_request c]\<rparr>))
   | TaskWait c run_id \<Rightarrow> (case sd_worldly (sc_wait env run_id (slot_wait_ms c)) s of (result, s1) \<Rightarrow>
       (case result of Inl err \<Rightarrow> Some (TaskSubmitFailed c (show_error err))
         | Inr outcome \<Rightarrow> Some (TaskOutcome c run_id outcome), s1))
   | TaskReply c body \<Rightarrow> deliver_reply env c body s
   | TaskSaving st point \<Rightarrow> finish_update env st point s
   | _ \<Rightarrow> (case store_update task of None \<Rightarrow> (None, s) | Some (c, change) \<Rightarrow> begin_update env task c change s))"

datatype scheduler_event = Tick | TaskTurn nat

definition scheduler_step :: "'w scheduler_env \<Rightarrow> scheduler_event \<Rightarrow> 'w scheduler_run \<Rightarrow> 'w scheduler_run" where
  "scheduler_step env ev s = (case ev of
     Tick \<Rightarrow> scan_turn env s
   | TaskTurn i \<Rightarrow>
       if i < length (sd_tasks s) then (case task_turn env (sd_tasks s ! i) s of (task, s1) \<Rightarrow>
         s1\<lparr>sd_tasks := take i (sd_tasks s) @ (case task of None \<Rightarrow> [] | Some t \<Rightarrow> [t]) @ drop (Suc i) (sd_tasks s)\<rparr>)
       else s)"

fun scheduler_events :: "'w scheduler_env \<Rightarrow> scheduler_event list \<Rightarrow> 'w scheduler_run \<Rightarrow> 'w scheduler_run" where
  "scheduler_events env [] s = s"
| "scheduler_events env (ev # evs) s = scheduler_events env evs (scheduler_step env ev s)"

subsection \<open>Payloads of the methods\<close>

record schedule_history_params =
  hp_schedule_id :: "string option"
  hp_limit :: "nat option"

text \<open>The answer of \<open>schedule.history\<close> before it is serialized: the limit, the slots and the audit.\<close>

definition history_payload :: "io_outcome \<Rightarrow> io_outcome \<Rightarrow> schedule_history_params \<Rightarrow>
    (nat \<times> slot_record list \<times> audit_entry list) store_op" where
  "history_payload io1 io2 params = (let limit = min (max (opt_or (hp_limit params) 20) 1) HISTORY_LIMIT_MAX in
     bindE (recent_slots io1 (hp_schedule_id params) limit) (\<lambda>sl.
     bindE (recent_audit io2 (hp_schedule_id params) limit) (\<lambda>au. okE (limit, sl, au))))"

definition list_payload :: "io_outcome \<Rightarrow> io_outcome \<Rightarrow> nat \<Rightarrow> (scheduler_status \<times> scheduled_task list) store_op" where
  "list_payload io1 io2 now = bindE (scheduler_status_of io1 now) (\<lambda>status.
     bindE (list_schedules io2) (\<lambda>ts. okE (status, ts)))"

definition opt_number :: "nat option \<Rightarrow> json" where
  "opt_number v = (case v of None \<Rightarrow> JNull | Some n \<Rightarrow> JNum (show_nat n))"

definition health_payload :: "string \<Rightarrow> (scheduler_status \<Rightarrow> json) \<Rightarrow> io_outcome \<Rightarrow> nat \<Rightarrow> scheduler_metrics \<Rightarrow>
    scheduler_file \<Rightarrow> json \<times> scheduler_file" where
  "health_payload state_path to_value io now m f = (case scheduler_status_of io now f of (status, f1) \<Rightarrow>
     (JObj [(''state_path'', JStr state_path), (''tick_ms'', JNum ''1000''),
       (''max_claims_per_schedule'', JNum (show_nat DEFAULT_MAX_CLAIMS_PER_SCHEDULE)),
       (''status'', (case status of Inr st \<Rightarrow> to_value st
         | Inl err \<Rightarrow> JObj [(''schedule_count'', JNum ''0''), (''slot_count'', JNum ''0''), (''audit_count'', JNum ''0''),
             (''due_now_count'', JNum ''0''), (''next_slot_at_ms'', JNull),
             (''error'', JStr (''scheduler status unavailable: '' @ show_error err))])),
       (''metrics'', JObj [(''last_scan_started_ms'', opt_number (sm_last_scan_started_ms m)),
         (''last_scan_finished_ms'', opt_number (sm_last_scan_finished_ms m)),
         (''claimed_total'', JNum (show_nat (sm_claimed_total m))),
         (''submitted_total'', JNum (show_nat (sm_submitted_total m))),
         (''submit_failed_total'', JNum (show_nat (sm_submit_failed_total m))),
         (''completed_total'', JNum (show_nat (sm_completed_total m))),
         (''failed_total'', JNum (show_nat (sm_failed_total m))),
         (''timeout_total'', JNum (show_nat (sm_timeout_total m))),
         (''reply_delivered_total'', JNum (show_nat (sm_reply_delivered_total m))),
         (''reply_failed_total'', JNum (show_nat (sm_reply_failed_total m))),
         (''last_error'', json_str_opt (sm_last_error m))])], f1))"

subsection \<open>Frame facts\<close>

lemma sd_count_simps [simp]:
  "sd_file (sd_count f s) = sd_file s" "sd_tasks (sd_count f s) = sd_tasks s" "sd_trace (sd_count f s) = sd_trace s"
  "sd_metrics (sd_count f s) = f (sd_metrics s)" "sd_channels (sd_count f s) = sd_channels s" "sd_scan (sd_count f s) = sd_scan s"
  by (simp_all add: sd_count_def)

text \<open>The parts of the state that the environment and the counters do not touch.\<close>

definition sd_core :: "'w scheduler_run \<Rightarrow> scheduler_file \<times> (scheduler_state \<times> claimed_slot list) option \<times> slot_task list \<times>
    sdk_run_request list" where
  "sd_core s = (sd_file s, sd_scan s, sd_tasks s, sd_trace s)"

lemma sd_worldly_frame: "sd_worldly f s = (x, s') \<Longrightarrow> sd_core s' = sd_core s \<and> sd_metrics s' = sd_metrics s"
  by (auto simp: sd_worldly_def sd_core_def split: prod.splits)

lemma sd_worldly_value: "sd_worldly f s = (x, s') \<Longrightarrow> \<exists>w. x = fst (f w)"
  by (auto simp: sd_worldly_def split: prod.splits) (metis fst_conv)

lemma sd_core_count [simp]: "sd_core (sd_count f s) = sd_core s"
  by (simp add: sd_core_def)

lemma mark_scan_finished_frame: "sd_core (mark_scan_finished env s) = sd_core s"
  by (auto simp: mark_scan_finished_def dest: sd_worldly_frame split: prod.split)

lemma scan_failed_frame: "sd_core (scan_failed env err s) = sd_core s"
  by (simp add: scan_failed_def mark_scan_finished_frame)

lemma after_update_frame: "sd_core (snd (after_update task s)) = sd_core s"
  by (cases task) simp_all

text \<open>What a scan does to these parts.\<close>

lemma scan_begin_core:
  assumes "\<And>w. clock_ok (fst (sc_now env w))" "sd_core s = (f, None, ts, tr)"
  obtains io now r f' where "clock_ok now"
    "claim_prepare io (sc_calendar env) now DEFAULT_MAX_CLAIMS_PER_SCHEDULE f = (r, f')"
    "sd_core (scan_begin env s) = (f', (case r of Inl _ \<Rightarrow> None | Inr (st, cl) \<Rightarrow> if cl = [] then None else Some (st, cl)), ts, tr)"
proof -
  obtain started s1 where 1: "sd_worldly (sc_now env) s = (started, s1)" by fastforce
  let ?s2 = "sd_count (\<lambda>m. m\<lparr>sm_last_scan_started_ms := Some started\<rparr>) s1"
  obtain now s3 where 3: "sd_worldly (sc_now env) ?s2 = (now, s3)" by fastforce
  obtain io s4 where 4: "sd_worldly (sc_io env) s3 = (io, s4)" by fastforce
  have core: "sd_core s4 = (f, None, ts, tr)"
    using sd_worldly_frame [OF 1] sd_worldly_frame [OF 3] sd_worldly_frame [OF 4] assms(2) by simp
  obtain r f' where 5: "claim_prepare io (sc_calendar env) now DEFAULT_MAX_CLAIMS_PER_SCHEDULE f = (r, f')" by fastforce
  have now: "clock_ok now" using sd_worldly_value [OF 3] assms(1) by auto
  have sdf: "sd_file s4 = f" using core by (simp add: sd_core_def)
  have "sd_core (scan_begin env s) =
      (f', (case r of Inl _ \<Rightarrow> None | Inr (st, cl) \<Rightarrow> if cl = [] then None else Some (st, cl)), ts, tr)"
    using 1 3 4 5 core sdf mark_scan_finished_frame [of env "s4\<lparr>sd_file := f'\<rparr>"] scan_failed_frame [of env _ "s4\<lparr>sd_file := f'\<rparr>"]
    by (auto simp: scan_begin_def Let_def sd_core_def split: sum.split prod.split)
  with now 5 show thesis by (rule that)
qed

lemma scan_commit_core:
  assumes "sd_core s = (f, sc, ts, tr)"
  obtains io r f' where "claim_commit io st cl f = (r, f')"
    "sd_core (scan_commit env st cl s) = (f', None, ts @ (case r of Inl _ \<Rightarrow> [] | Inr cl' \<Rightarrow> map TaskSubmit cl'), tr)"
proof -
  obtain io s1 where 1: "sd_worldly (sc_io env) s = (io, s1)" by fastforce
  obtain r f' where 2: "claim_commit io st cl f = (r, f')" by fastforce
  have core: "sd_core s1 = (f, sc, ts, tr)" using sd_worldly_frame [OF 1] assms by simp
  have sdf: "sd_file s1 = f" "sd_tasks s1 = ts" "sd_trace s1 = tr" using core by (simp_all add: sd_core_def)
  have "sd_core (scan_commit env st cl s) =
      (f', None, ts @ (case r of Inl _ \<Rightarrow> [] | Inr cl' \<Rightarrow> map TaskSubmit cl'), tr)"
    using 1 2 sdf by (auto simp: scan_commit_def Let_def scan_failed_frame mark_scan_finished_frame split: sum.split)
      (simp_all add: sd_core_def)
  with 2 show thesis by (rule that)
qed

subsection \<open>Which run is submitted\<close>

lemma digits_no_dash: "list_all is_digit ds \<Longrightarrow> CHR ''-'' \<notin> set ds"
  by (auto simp: list_all_iff is_digit_def code_def)

lemma last_part_unique:
  assumes "a @ CHR ''-'' # ds = b @ CHR ''-'' # es" "CHR ''-'' \<notin> set ds" "CHR ''-'' \<notin> set es"
  shows "a = b \<and> ds = es"
proof -
  have part: "takeWhile (\<lambda>c. c \<noteq> CHR ''-'') (rev (p @ CHR ''-'' # qs)) = rev qs" if "CHR ''-'' \<notin> set qs" for p qs
  proof -
    have all: "\<And>x. x \<in> set (rev qs) \<Longrightarrow> x \<noteq> CHR ''-''" using that by auto
    show ?thesis using takeWhile_append2 [of "rev qs" "\<lambda>c. c \<noteq> CHR ''-''" "CHR ''-'' # rev p"] all by simp
  qed
  have "rev ds = rev es" using part [OF assms(2), of a] part [OF assms(3), of b] assms(1) by simp
  then show ?thesis using assms(1) by simp
qed

lemma slot_run_id_inject: "slot_run_id c = slot_run_id c' \<longleftrightarrow> claim_key c = claim_key c'"
proof
  assume "slot_run_id c = slot_run_id c'"
  then have "slot_sid c @ CHR ''-'' # show_nat (cl_slot_at_ms c) = slot_sid c' @ CHR ''-'' # show_nat (cl_slot_at_ms c')"
    by (simp add: slot_run_id_def)
  from last_part_unique [OF this digits_no_dash [OF show_nat_digits] digits_no_dash [OF show_nat_digits]]
  show "claim_key c = claim_key c'" by (simp add: claim_key_def)
qed (simp add: claim_key_def slot_run_id_def)

text \<open>The claimed slots that still wait to be submitted, and the states that updates are about to write.\<close>

fun waiting_slot :: "slot_task \<Rightarrow> claimed_slot list" where
  "waiting_slot (TaskSubmit c) = [c]"
| "waiting_slot task = []"

fun saved_state :: "slot_task \<Rightarrow> scheduler_state list" where
  "saved_state (TaskSaving st point) = [st]"
| "saved_state task = []"

definition waiting :: "slot_task list \<Rightarrow> claimed_slot list" where
  "waiting ts = concat (map waiting_slot ts)"

definition unsaved :: "slot_task list \<Rightarrow> scheduler_state list" where
  "unsaved ts = concat (map saved_state ts)"

lemma waiting_simps [simp]: "waiting [] = []" "waiting (t # ts) = waiting_slot t @ waiting ts"
  "waiting (ts @ us) = waiting ts @ waiting us" "waiting (map TaskSubmit cs) = cs"
  by (simp_all add: waiting_def comp_def)

lemma unsaved_simps [simp]: "unsaved [] = []" "unsaved (t # ts) = saved_state t @ unsaved ts"
  "unsaved (ts @ us) = unsaved ts @ unsaved us" "unsaved (map TaskSubmit cs) = []"
  by (simp_all add: unsaved_def comp_def)

definition opt_list :: "'a option \<Rightarrow> 'a list" where
  "opt_list v = (case v of None \<Rightarrow> [] | Some x \<Rightarrow> [x])"

lemma opt_list_simps [simp]: "opt_list None = []" "opt_list (Some x) = [x]"
  by (simp_all add: opt_list_def)

text \<open>\<open>saved_past K st\<close>: writing \<open>st\<close> leaves every schedule past the slots in \<open>K\<close>.\<close>

abbreviation saved_past :: "(string \<times> nat) set \<Rightarrow> scheduler_state \<Rightarrow> bool" where
  "saved_past K st \<equiv> file_past K (FileState (persisted st))"

lemma after_update_next: "waiting (opt_list (fst (after_update task s))) = []" "unsaved (opt_list (fst (after_update task s))) = []"
  by (cases task; simp)+

lemma save_state_past: "file_past K f \<Longrightarrow> saved_past K st \<Longrightarrow> file_past K (snd (save_state io st f))"
  by (simp add: save_state_def split: sum.split)

lemma after_update_cases:
  assumes "after_update task s = (n, s1)"
  shows "sd_core s1 = sd_core s \<and> waiting (opt_list n) = [] \<and> unsaved (opt_list n) = []"
  using after_update_frame [of task s] after_update_next [of task s] assms by simp

lemma begin_update_core:
  assumes "begin_update env task c change s = (n, s1)" "sd_core s = (f, sc, ts, tr)" "file_past K f"
  shows "\<exists>f'. sd_core s1 = (f', sc, ts, tr) \<and> file_past K f' \<and> waiting (opt_list n) = [] \<and>
    list_all (saved_past K) (unsaved (opt_list n))"
proof -
  obtain io s2 where 1: "sd_worldly (sc_io env) s = (io, s2)" by fastforce
  obtain now s3 where 2: "sd_worldly (sc_now env) s2 = (now, s3)" by fastforce
  have core: "sd_core s3 = (f, sc, ts, tr)" using sd_worldly_frame [OF 1] sd_worldly_frame [OF 2] assms(2) by simp
  then have sdf: "sd_file s3 = f" by (simp add: sd_core_def)
  obtain r f' where p: "update_prepare io (slot_sid c) (cl_slot_at_ms c) (change now) f = (r, f')" by fastforce
  note past = update_prepare_past [OF assms(3) p]
  have core': "sd_core (s3\<lparr>sd_file := f'\<rparr>) = (f', sc, ts, tr)" using core by (simp add: sd_core_def)
  show ?thesis
  proof (cases r)
    case (Inl e)
    then have "after_update task (s3\<lparr>sd_file := f'\<rparr>) = (n, s1)" using assms(1) 1 2 sdf p by (simp add: begin_update_def)
    then show ?thesis using after_update_cases core' past by fastforce
  next
    case (Inr st)
    then have "n = Some (TaskSaving st task)" "s1 = s3\<lparr>sd_file := f'\<rparr>"
      using assms(1) 1 2 sdf p by (simp_all add: begin_update_def)
    then show ?thesis using core' past Inr by simp
  qed
qed

lemma finish_update_core:
  assumes "finish_update env st task s = (n, s1)" "sd_core s = (f, sc, ts, tr)" "file_past K f" "saved_past K st"
  shows "\<exists>f'. sd_core s1 = (f', sc, ts, tr) \<and> file_past K f' \<and> waiting (opt_list n) = [] \<and> unsaved (opt_list n) = []"
proof -
  obtain io s2 where 1: "sd_worldly (sc_io env) s = (io, s2)" by fastforce
  have core: "sd_core s2 = (f, sc, ts, tr)" using sd_worldly_frame [OF 1] assms(2) by simp
  let ?f = "snd (save_state io st f)"
  have "sd_core (s2\<lparr>sd_file := ?f\<rparr>) = (?f, sc, ts, tr)" using core by (simp add: sd_core_def)
  moreover have "after_update task (s2\<lparr>sd_file := ?f\<rparr>) = (n, s1)"
    using assms(1) 1 core by (simp add: finish_update_def sd_core_def)
  ultimately show ?thesis using after_update_cases save_state_past [OF assms(3,4), of io] by metis
qed

text \<open>A turn of a task submits the slot that waits in it, and nothing else.\<close>

lemma task_turn_core:
  assumes "task_turn env t s = (n, s1)" "sd_core s = (f, sc, ts, tr)" "file_past K f" "list_all (saved_past K) (saved_state t)"
  shows "\<exists>f'. sd_core s1 = (f', sc, ts, tr @ map slot_request (waiting_slot t)) \<and> file_past K f' \<and>
    waiting (opt_list n) = [] \<and> list_all (saved_past K) (unsaved (opt_list n))"
proof (cases t)
  case (TaskSubmit c)
  obtain r s2 where w: "sd_worldly (sc_submit env (slot_request c)) s = (r, s2)" by fastforce
  show ?thesis using assms TaskSubmit w sd_worldly_frame [OF w]
    by (auto simp: task_turn_def sd_core_def split: sum.splits)
next
  case (TaskWait c run_id)
  obtain r s2 where w: "sd_worldly (sc_wait env run_id (slot_wait_ms c)) s = (r, s2)" by fastforce
  show ?thesis using assms TaskWait w sd_worldly_frame [OF w]
    by (auto simp: task_turn_def sd_core_def split: sum.splits)
next
  case (TaskReply c body)
  then show ?thesis using assms
    by (auto simp: task_turn_def deliver_reply_def sd_core_def split: option.splits prod.splits)
next
  case (TaskSaving st point)
  then have "finish_update env st point s = (n, s1)" using assms(1) by (simp add: task_turn_def)
  from finish_update_core [OF this assms(2,3)] show ?thesis using assms(4) TaskSaving by auto
qed (use assms begin_update_core [OF _ assms(2,3), of env t _ _ n s1] in \<open>auto simp: task_turn_def\<close>)

subsection \<open>No run is submitted twice\<close>

text \<open>
  \<open>cs\<close> are the slots submitted so far: with those still waiting they are pairwise different, and every
  schedule of the file, and of every state about to be written, has moved past them. A claim that is not written yet
  has new slots, and its state has moved past these as well.
\<close>

definition scan_ok :: "(string \<times> nat) set \<Rightarrow> (scheduler_state \<times> claimed_slot list) option \<Rightarrow> bool" where
  "scan_ok K sc \<longleftrightarrow> (case sc of None \<Rightarrow> True | Some (st, cl) \<Rightarrow> distinct (map claim_key cl) \<and> claim_key ` set cl \<inter> K = {} \<and>
     (cl = [] \<or> saved_past (K \<union> claim_key ` set cl) st))"

fun run_inv :: "claimed_slot list \<Rightarrow> scheduler_file \<times> (scheduler_state \<times> claimed_slot list) option \<times> slot_task list \<times>
    sdk_run_request list \<Rightarrow> bool" where
  "run_inv cs (f, sc, ts, tr) \<longleftrightarrow> (let K = claim_key ` set (cs @ waiting ts) in
     tr = map slot_request cs \<and> distinct (map claim_key (cs @ waiting ts)) \<and> file_past K f \<and>
     list_all (saved_past K) (unsaved ts) \<and>
     scan_ok K sc)"

declare run_inv.simps [simp del]

lemma run_inv_iff:
  assumes "K = claim_key ` set (cs @ waiting ts)"
  shows "run_inv cs (f, sc, ts, tr) \<longleftrightarrow> tr = map slot_request cs \<and> distinct (map claim_key (cs @ waiting ts)) \<and>
    file_past K f \<and> list_all (saved_past K) (unsaved ts) \<and> scan_ok K sc"
  by (simp add: run_inv.simps Let_def assms)

lemma scan_begin_inv:
  assumes "run_inv cs (sd_core s)" "sd_scan s = None" "\<And>w. clock_ok (fst (sc_now env w))"
  shows "run_inv cs (sd_core (scan_begin env s))"
proof -
  obtain f ts tr where core: "sd_core s = (f, None, ts, tr)" using assms(2) by (simp add: sd_core_def)
  obtain io now r f' where 1: "clock_ok now"
    "claim_prepare io (sc_calendar env) now DEFAULT_MAX_CLAIMS_PER_SCHEDULE f = (r, f')"
    "sd_core (scan_begin env s) = (f', (case r of Inl _ \<Rightarrow> None | Inr (st, cl) \<Rightarrow> if cl = [] then None else Some (st, cl)), ts, tr)"
    by (rule scan_begin_core [OF assms(3) core])
  define K where "K = claim_key ` set (cs @ waiting ts)"
  have inv: "run_inv cs (f, None, ts, tr)" using assms(1) core by simp
  then have past: "file_past K f" by (simp add: run_inv_iff [OF K_def])
  have "file_past K f'" "scan_ok K (case r of Inl _ \<Rightarrow> None | Inr (st, cl) \<Rightarrow> if cl = [] then None else Some (st, cl))"
    using claim_prepare_past [OF past 1(1,2)] by (simp_all add: scan_ok_def split: sum.splits prod.splits) blast
  then show ?thesis unfolding 1(3) using inv by (simp add: run_inv_iff [OF K_def])
qed

lemma scan_commit_inv:
  assumes "run_inv cs (sd_core s)" "sd_scan s = Some (st, cl)" "unsaved (sd_tasks s) = []"
  shows "run_inv cs (sd_core (scan_commit env st cl s))"
proof -
  obtain f ts tr where core: "sd_core s = (f, Some (st, cl), ts, tr)" "ts = sd_tasks s" using assms(2) by (simp add: sd_core_def)
  obtain io r f' where 1: "claim_commit io st cl f = (r, f')"
    "sd_core (scan_commit env st cl s) = (f', None, ts @ (case r of Inl _ \<Rightarrow> [] | Inr cl' \<Rightarrow> map TaskSubmit cl'), tr)"
    by (rule scan_commit_core [OF core(1), of st cl env])
  define K where "K = claim_key ` set (cs @ waiting ts)"
  have inv: "run_inv cs (f, Some (st, cl), ts, tr)" using assms(1) core by simp
  then have past: "file_past K f" "cl = [] \<or> saved_past (K \<union> claim_key ` set cl) st"
    by (simp_all add: run_inv_iff [OF K_def] scan_ok_def)
  have u: "unsaved ts = []" using assms(3) core(2) by simp
  note committed = claim_commit_past [OF 1(1) past]
  show ?thesis
  proof (cases r)
    case (Inl e)
    then show ?thesis unfolding 1(2) using committed inv by (simp add: run_inv_iff [OF K_def] scan_ok_def)
  next
    case (Inr cl')
    then have cl: "cl' = cl" "file_past (K \<union> claim_key ` set cl) f'" using committed by simp_all
    have K: "K \<union> claim_key ` set cl = claim_key ` set (cs @ waiting (ts @ map TaskSubmit cl))" by (auto simp: K_def)
    have "distinct (map claim_key (cs @ waiting (ts @ map TaskSubmit cl)))"
      using inv by (auto simp: run_inv_iff [OF K_def] scan_ok_def K_def)
    then have "run_inv cs (f', None, ts @ map TaskSubmit cl, tr)"
      using inv cl u unfolding run_inv_iff [OF K] run_inv_iff [OF K_def] by (simp add: scan_ok_def)
    then show ?thesis unfolding 1(2) Inr using cl by simp
  qed
qed

lemma task_turn_inv:
  assumes "run_inv cs (sd_core s)" "i < length (sd_tasks s)"
  shows "\<exists>cs'. run_inv cs' (sd_core (scheduler_step env (TaskTurn i) s))"
proof -
  let ?t = "sd_tasks s ! i" and ?before = "take i (sd_tasks s)" and ?after = "drop (Suc i) (sd_tasks s)"
  define K where "K = claim_key ` set (cs @ waiting (sd_tasks s))"
  have split_tasks: "sd_tasks s = ?before @ ?t # ?after" using assms(2) by (rule id_take_nth_drop)
  obtain n s1 where turn: "task_turn env ?t s = (n, s1)" by fastforce
  have step: "scheduler_step env (TaskTurn i) s = s1\<lparr>sd_tasks := ?before @ opt_list n @ ?after\<rparr>"
    using assms(2) turn by (simp add: scheduler_step_def opt_list_def)
  obtain f sc tr where core: "sd_core s = (f, sc, sd_tasks s, tr)" by (simp add: sd_core_def)
  have inv: "run_inv cs (f, sc, sd_tasks s, tr)" using assms(1) core by simp
  have w: "waiting (sd_tasks s) = waiting ?before @ waiting_slot ?t @ waiting ?after"
    by (subst split_tasks) simp
  have u: "unsaved (sd_tasks s) = unsaved ?before @ saved_state ?t @ unsaved ?after"
    by (subst split_tasks) simp
  have "file_past K f" "list_all (saved_past K) (saved_state ?t)"
    using inv u by (simp_all add: run_inv_iff [OF K_def])
  from task_turn_core [OF turn core this] obtain f' where f':
    "sd_core s1 = (f', sc, sd_tasks s, tr @ map slot_request (waiting_slot ?t))" "file_past K f'"
    "waiting (opt_list n) = []" "list_all (saved_past K) (unsaved (opt_list n))" by blast
  have core': "sd_core (scheduler_step env (TaskTurn i) s) =
      (f', sc, ?before @ opt_list n @ ?after, tr @ map slot_request (waiting_slot ?t))"
    unfolding step using f'(1) by (simp add: sd_core_def)
  have K: "K = claim_key ` set ((cs @ waiting_slot ?t) @ waiting (?before @ opt_list n @ ?after))"
    unfolding K_def w using f'(3) by auto
  have "distinct (map claim_key ((cs @ waiting_slot ?t) @ waiting (?before @ opt_list n @ ?after)))"
    using inv f'(3) unfolding run_inv_iff [OF K_def] w by auto
  then have "run_inv (cs @ waiting_slot ?t) (f', sc, ?before @ opt_list n @ ?after, tr @ map slot_request (waiting_slot ?t))"
    using inv f' u unfolding run_inv_iff [OF K] run_inv_iff [OF K_def] by simp
  then show ?thesis unfolding core' by blast
qed

text \<open>
  A claim is written while no update of a slot is between its two halves: the interleavings for which the
  guarantee holds.
\<close>

fun claims_apart :: "'w scheduler_env \<Rightarrow> scheduler_event list \<Rightarrow> 'w scheduler_run \<Rightarrow> bool" where
  "claims_apart env [] s = True"
| "claims_apart env (ev # evs) s = ((ev = Tick \<and> sd_scan s \<noteq> None \<longrightarrow> unsaved (sd_tasks s) = []) \<and>
     claims_apart env evs (scheduler_step env ev s))"

lemma scheduler_events_inv:
  assumes "run_inv cs (sd_core s)" "claims_apart env evs s" "\<And>w. clock_ok (fst (sc_now env w))"
  shows "\<exists>cs'. run_inv cs' (sd_core (scheduler_events env evs s))"
  using assms(1,2)
proof (induction evs arbitrary: s cs)
  case (Cons ev evs)
  have "\<exists>cs'. run_inv cs' (sd_core (scheduler_step env ev s))"
  proof (cases ev)
    case Tick
    show ?thesis
    proof (cases "sd_scan s")
      case None
      then show ?thesis using scan_begin_inv [OF Cons.prems(1) None assms(3)] Tick
        by (auto simp: scheduler_step_def scan_turn_def)
    next
      case (Some p)
      obtain st cl where p: "p = (st, cl)" by (cases p)
      have u: "unsaved (sd_tasks s) = []" using Cons.prems(2) Tick Some by simp
      then show ?thesis using scan_commit_inv [OF Cons.prems(1) _ u, of st cl env] Some p Tick
        by (auto simp: scheduler_step_def scan_turn_def)
    qed
  next
    case (TaskTurn i)
    then show ?thesis using task_turn_inv [OF Cons.prems(1), of i env] Cons.prems(1)
      by (cases "i < length (sd_tasks s)") (auto simp: scheduler_step_def)
  qed
  then obtain cs' where "run_inv cs' (sd_core (scheduler_step env ev s))" by blast
  moreover have "claims_apart env evs (scheduler_step env ev s)" using Cons.prems(2) by simp
  ultimately show ?case using Cons.IH by simp
qed auto

text \<open>
  \<^bold>\<open>C40.\<close> The scheduler starts every due slot at most once, as long as no claim is written while a task is between
  changing and writing the record of a slot: over any sequence of turns of the scan and of the tasks of that kind,
  however they interleave otherwise and whatever reading, writing, submitting, waiting and replying do, the runs it
  submits have pairwise different run ids, when it alone uses the store and the store's file is all
  there is at the start. Without the restriction it fails (\<open>lost_claim_resubmits\<close> below).
\<close>

theorem no_run_submitted_twice:
  assumes "\<And>w. clock_ok (fst (sc_now env w))" "distinct (map st_id (schedules st))"
    "sd_file s = FileState st" "sd_scan s = None" "sd_tasks s = []" "sd_trace s = []" "claims_apart env evs s"
  shows "distinct (map sr_run_id (sd_trace (scheduler_events env evs s)))"
proof -
  have "run_inv [] (sd_core s)" using assms(2-6) by (simp add: sd_core_def run_inv.simps file_past_def scan_ok_def)
  then obtain cs where inv: "run_inv cs (sd_core (scheduler_events env evs s))"
    using scheduler_events_inv [OF _ assms(7,1)] by blast
  then have "sd_trace (scheduler_events env evs s) = map slot_request cs" "distinct (map claim_key cs)"
    by (simp_all add: sd_core_def run_inv.simps Let_def)
  moreover have "map sr_run_id (map slot_request cs) = map (Some \<circ> slot_run_id) cs"
    by (simp add: slot_request_def Let_def)
  moreover have "distinct (map slot_run_id cs) = distinct (map claim_key cs)"
    by (simp add: distinct_map inj_on_def slot_run_id_inject)
  ultimately show ?thesis by (simp add: distinct_map inj_on_def)
qed

subsection \<open>A claim overwritten\<close>

text \<open>
  A store with one schedule, due every minute: the slots recorded so far, and the state about to be written after a
  claim and after the update of a recorded slot.
\<close>

definition demo_at :: "nat \<Rightarrow> nat set \<Rightarrow> scheduler_state \<Rightarrow> bool" where
  "demo_at m recorded st \<longleftrightarrow> schedules st = [demo_task\<lparr>st_next_slot_at_ms := m\<rparr>] \<and>
     slot_key ` set (slots st) = Pair ''a'' ` recorded \<and> length (slots st) \<le> 3"

definition minute_claim :: "nat \<Rightarrow> claimed_slot" where
  "minute_claim m = \<lparr>cl_schedule = demo_task\<lparr>st_next_slot_at_ms := m\<rparr>, cl_slot_at_ms = m\<rparr>"

lemma demo_at_persisted:
  "demo_at m recorded st \<Longrightarrow> demo_at m recorded (persisted st) \<and> length (slots (persisted st)) = length (slots st)"
  by (auto simp: demo_at_def persisted_def Let_def MAX_SLOT_ENTRIES_def)

lemma demo_minute:
  assumes "m = 60000 \<or> m = 120000"
  shows "next_slot_after always_calendar demo_cron m = Inr (m + 60000)"
proof -
  have "cron_matches always_calendar demo_cron (m + 60000) = Inr True"
    using assms by (auto simp: cron_matches_def always_calendar_def civil_matches_def demo_cron_def)
  then have "cron_scan always_calendar demo_cron (Suc n) (m + 60000) = Inr (m + 60000)" for n by simp
  from this [of 1051199] assms show ?thesis
    by (auto simp: next_slot_after_def first_slot_at_or_after_def MAX_CRON_SCAN_MINUTES_def MINUTE_MS_def
        sat_add128_def u128_max_def simp del: cron_scan.simps)
qed

lemma demo_claims:
  assumes "m = 60000 \<or> m = 120000" "demo_at m recorded st" "m \<notin> recorded" "length (slots st) \<le> 2" "minute_slot now = m"
  shows "\<exists>st'. claim_prepare io_fine always_calendar now 4 (FileState st) = (Inr (st', [minute_claim m]), FileState st) \<and>
    demo_at (m + 60000) (insert m recorded) st' \<and> length (slots st') = Suc (length (slots st))"
proof -
  let ?t = "demo_task\<lparr>st_next_slot_at_ms := m\<rparr>"
  have st: "schedules st = [?t]" "slot_key ` set (slots st) = Pair ''a'' ` recorded" using assms(2) by (simp_all add: demo_at_def)
  have new: "(''a'', m) \<notin> slot_key ` set (slots st)" using st(2) assms(3) by auto
  have parse: "cron_parse (st_cron demo_task) = Inr demo_cron" using demo_cron_parse by (simp add: demo_task_def)
  have tid: "st_id ?t = ''a''" by (simp add: demo_task_def)
  note following = demo_minute [OF assms(1)]
  have one: "claim_schedule always_calendar now m demo_cron (Suc (Suc n)) ?t \<lparr>ca_slots = slots st, ca_audit = audit st, ca_claimed = []\<rparr> =
      Inr (?t\<lparr>st_next_slot_at_ms := m + 60000\<rparr>, \<lparr>ca_slots = slots st @ [claimed_record now ?t],
        ca_audit = audit st @ [claimed_audit now ?t], ca_claimed = [minute_claim m]\<rparr>)" for n
    using new tid by (simp add: following minute_claim_def)
  have split4: "(4 :: nat) = Suc (Suc 2)" by simp
  have four: "claim_schedule always_calendar now m demo_cron 4 ?t \<lparr>ca_slots = slots st, ca_audit = audit st, ca_claimed = []\<rparr> =
      Inr (?t\<lparr>st_next_slot_at_ms := m + 60000\<rparr>, \<lparr>ca_slots = slots st @ [claimed_record now ?t],
        ca_audit = audit st @ [claimed_audit now ?t], ca_claimed = [minute_claim m]\<rparr>)"
    unfolding split4 by (rule one)
  have key: "slot_key (claimed_record now ?t) = (''a'', m)" by (simp add: slot_key_def claimed_record_def demo_task_def)
  show ?thesis
    using st(2) assms(4) key
    by (auto simp: claim_prepare_def with_state_mut_def bindE_def load_state_def io_fine_def claim_state_def st(1) parse
        assms(5) four demo_at_def simp del: claim_schedule.simps)
qed

lemma demo_updates:
  assumes "demo_at m recorded st" "x \<in> recorded" "\<And>r. slot_key (fst (g r)) = slot_key r"
  shows "\<exists>st'. update_prepare io_fine ''a'' x g (FileState st) = (Inr st', FileState st) \<and> demo_at m recorded st' \<and>
    length (slots st') = length (slots st)"
proof -
  have keys: "slot_key ` set (slots st) = Pair ''a'' ` recorded" using assms(1) by (simp add: demo_at_def)
  then have "(''a'', x) \<in> slot_key ` set (slots st)" using assms(2) by simp
  then obtain r where r: "find (\<lambda>r. slot_key r = (''a'', x)) (slots st) = Some r"
    by (cases "find (\<lambda>r. slot_key r = (''a'', x)) (slots st)") (auto simp: find_None_iff)
  have same: "map slot_key (update_first P (\<lambda>r. fst (g r)) rs) = map slot_key rs" for P rs
    by (induction rs) (simp_all add: assms(3))
  have "slot_key ` set (update_first P (\<lambda>r. fst (g r)) rs) = slot_key ` set rs" "length (update_first P (\<lambda>r. fst (g r)) rs) = length rs" for P rs
    using arg_cong [OF same [of P rs], of set] arg_cong [OF same [of P rs], of length] by simp_all
  then show ?thesis using r assms(1)
    by (simp add: update_prepare_def with_state_mut_def bindE_def load_state_def io_fine_def okE_def demo_at_def)
qed

text \<open>
  An environment in which reading and writing succeed and the clock goes from the first minute to the second when a
  run is submitted, which the runtime accepts.
\<close>

definition race_env :: "bool channel_env \<Rightarrow> bool scheduler_env" where
  "race_env ce = \<lparr>sc_calendar = always_calendar, sc_io = (\<lambda>w. (io_fine, w)),
     sc_now = (\<lambda>w. (if w then 120005 else 60005, w)),
     sc_submit = (\<lambda>q w. (Inr \<lparr>sa_run_id = ''r'', sa_accepted_at_ms = 0, sa_cli_plugin_preflight = None\<rparr>, True)),
     sc_wait = (\<lambda>r n. okE OutcomeTimeout), sc_channel_env = ce\<rparr>"

definition race_start :: "command_registry \<Rightarrow> bool scheduler_run" where
  "race_start reg = \<lparr>sd_file = FileState demo_store, sd_metrics = no_metrics,
     sd_channels = \<lparr>eg_routing = [], eg_commands = reg, eg_adapters = (\<lambda>_. None), eg_world = False\<rparr>,
     sd_scan = None, sd_tasks = [], sd_trace = []\<rparr>"

text \<open>The part of the state that decides how such a run goes on.\<close>

definition race_view :: "bool scheduler_run \<Rightarrow> bool \<times> scheduler_file \<times> (scheduler_state \<times> claimed_slot list) option \<times>
    slot_task list \<times> sdk_run_request list" where
  "race_view s = (eg_world (sd_channels s), sd_core s)"

lemma race_scan_begin:
  assumes "race_view s = (w, f, None, ts, tr)" "cl \<noteq> []"
    "claim_prepare io_fine always_calendar (if w then 120005 else 60005) 4 f = (Inr (st, cl), f)"
  shows "race_view (scheduler_step (race_env ce) Tick s) = (w, f, Some (st, cl), ts, tr)"
  using assms by (simp add: race_view_def sd_core_def scheduler_step_def scan_turn_def scan_begin_def race_env_def sd_worldly_def
      sd_count_def Let_def DEFAULT_MAX_CLAIMS_PER_SCHEDULE_def)

lemma race_scan_commit:
  assumes "race_view s = (w, f, Some (st, cl), ts, tr)" "cl \<noteq> []"
  shows "race_view (scheduler_step (race_env ce) Tick s) = (w, FileState (persisted st), None, ts @ map TaskSubmit cl, tr)"
  using assms by (simp add: race_view_def sd_core_def scheduler_step_def scan_turn_def scan_commit_def race_env_def sd_worldly_def
      sd_count_def Let_def claim_commit_def save_state_def seqE_def bindE_def okE_def io_fine_def mark_scan_finished_def)

lemma race_submit:
  assumes "race_view s = (w, f, sc, ts @ TaskSubmit c # us, tr)" "i = length ts"
  shows "race_view (scheduler_step (race_env ce) (TaskTurn i) s) =
    (True, f, sc, ts @ TaskSubmitted c ''r'' # us, tr @ [slot_request c])"
  using assms by (auto simp: race_view_def sd_core_def scheduler_step_def task_turn_def race_env_def sd_worldly_def)

lemma race_begin_update:
  assumes "race_view s = (w, f, sc, ts @ TaskSubmitted c r # us, tr)" "i = length ts"
    "update_prepare io_fine (slot_sid c) (cl_slot_at_ms c)
       (submitted_change (if w then 120005 else 60005) (slot_sid c) (cl_slot_at_ms c) r) f = (Inr st, f)"
  shows "race_view (scheduler_step (race_env ce) (TaskTurn i) s) = (w, f, sc, ts @ TaskSaving st (TaskSubmitted c r) # us, tr)"
  using assms by (auto simp: race_view_def sd_core_def scheduler_step_def task_turn_def begin_update_def race_env_def sd_worldly_def)

lemma race_finish_update:
  assumes "race_view s = (w, f, sc, ts @ TaskSaving st (TaskSubmitted c r) # us, tr)" "i = length ts"
  shows "race_view (scheduler_step (race_env ce) (TaskTurn i) s) = (w, FileState (persisted st), sc, ts @ TaskWait c r # us, tr)"
  using assms by (auto simp: race_view_def sd_core_def scheduler_step_def task_turn_def finish_update_def race_env_def sd_worldly_def
      save_state_def io_fine_def sd_count_def)

text \<open>The turns of a claim, from the load to the tasks it spawns, and of the update after a submission.\<close>

lemma race_claim:
  assumes "race_view s = (w, FileState st, None, ts, tr)" "demo_at m recorded st" "m \<notin> recorded" "length (slots st) \<le> 2"
    "m = (if w then 120000 else 60000)"
  obtains st' where "race_view (scheduler_step (race_env ce) Tick s) = (w, FileState st, Some (st', [minute_claim m]), ts, tr)"
    "race_view (scheduler_step (race_env ce) Tick (scheduler_step (race_env ce) Tick s)) =
       (w, FileState (persisted st'), None, ts @ [TaskSubmit (minute_claim m)], tr)"
    "demo_at (m + 60000) (insert m recorded) (persisted st')" "length (slots (persisted st')) = Suc (length (slots st))"
proof -
  have "m = 60000 \<or> m = 120000" "minute_slot (if w then 120005 else 60005) = m"
    using assms(5) by (auto simp: minute_slot_def MINUTE_MS_def)
  from demo_claims [OF this(1) assms(2-4) this(2)] obtain st' where
    c: "claim_prepare io_fine always_calendar (if w then 120005 else 60005) 4 (FileState st) = (Inr (st', [minute_claim m]), FileState st)"
    "demo_at (m + 60000) (insert m recorded) st'" "length (slots st') = Suc (length (slots st))" by blast
  have 1: "race_view (scheduler_step (race_env ce) Tick s) = (w, FileState st, Some (st', [minute_claim m]), ts, tr)"
    by (rule race_scan_begin [OF assms(1) _ c(1)]) simp
  have "race_view (scheduler_step (race_env ce) Tick (scheduler_step (race_env ce) Tick s)) =
      (w, FileState (persisted st'), None, ts @ map TaskSubmit [minute_claim m], tr)"
    by (rule race_scan_commit [OF 1]) simp
  then show thesis using that [OF 1] demo_at_persisted [OF c(2)] c(3) by simp
qed

lemma race_update:
  assumes "race_view s = (w, FileState st, None, ts @ TaskSubmitted (minute_claim x) r # us, tr)" "demo_at m recorded st"
    "x \<in> recorded" "i = length ts"
  obtains st' where "race_view (scheduler_step (race_env ce) (TaskTurn i) s) =
      (w, FileState st, None, ts @ TaskSaving st' (TaskSubmitted (minute_claim x) r) # us, tr)"
    "demo_at m recorded (persisted st')" "length (slots (persisted st')) = length (slots st)"
proof -
  have sid: "slot_sid (minute_claim x) = ''a''" "cl_slot_at_ms (minute_claim x) = x"
    by (simp_all add: minute_claim_def demo_task_def)
  have "slot_key (fst (submitted_change n ''a'' x r y)) = slot_key y" for n y
    by (simp add: submitted_change_def slot_key_def)
  then obtain st' where
    u: "update_prepare io_fine ''a'' x (submitted_change (if w then 120005 else 60005) ''a'' x r) (FileState st) = (Inr st', FileState st)"
    "demo_at m recorded st'" "length (slots st') = length (slots st)"
    using demo_updates [OF assms(2,3), of "submitted_change (if w then 120005 else 60005) ''a'' x r"] by blast
  note saved = demo_at_persisted [OF u(2)]
  have "race_view (scheduler_step (race_env ce) (TaskTurn i) s) =
      (w, FileState st, None, ts @ TaskSaving st' (TaskSubmitted (minute_claim x) r) # us, tr)"
    by (rule race_begin_update [OF assms(1,4)]) (use u(1) sid in simp)
  then show thesis using saved u(3) by (intro that [of st']) simp_all
qed

lemma race_start_view: "race_view (race_start reg) = (False, FileState demo_store, None, [], [])"
  by (simp add: race_view_def race_start_def sd_core_def)

lemma demo_store_at: "demo_at 60000 {} demo_store" "length (slots demo_store) = 0"
  by (simp_all add: demo_at_def demo_store_def demo_task_def)

text \<open>The first slot claimed and submitted, and its update begun.\<close>

lemma race_first_run:
  obtains s st st' where "scheduler_events (race_env ce) ([Tick, Tick, TaskTurn 0, TaskTurn 0] @ evs) (race_start reg) =
      scheduler_events (race_env ce) evs s"
    "claims_apart (race_env ce) ([Tick, Tick, TaskTurn 0, TaskTurn 0] @ evs) (race_start reg) = claims_apart (race_env ce) evs s"
    "race_view s = (True, FileState st, None, [TaskSaving st' (TaskSubmitted (minute_claim 60000) ''r'')],
      [slot_request (minute_claim 60000)])"
    "demo_at 120000 {60000} st" "length (slots st) = 1" "demo_at 120000 {60000} (persisted st')" "length (slots (persisted st')) = 1"
proof -
  let ?go = "scheduler_step (race_env ce)" and ?s0 = "race_start reg"
  obtain st where 1: "race_view (?go Tick ?s0) = (False, FileState demo_store, Some (st, [minute_claim 60000]), [], [])"
    "race_view (?go Tick (?go Tick ?s0)) = (False, FileState (persisted st), None, [TaskSubmit (minute_claim 60000)], [])"
    "demo_at 120000 {60000} (persisted st)" "length (slots (persisted st)) = 1"
    by (rule race_claim [OF race_start_view demo_store_at(1), of ce reg]) (use demo_store_at in auto)
  have 2: "race_view (?go (TaskTurn 0) (?go Tick (?go Tick ?s0))) =
      (True, FileState (persisted st), None, [TaskSubmitted (minute_claim 60000) ''r''], [slot_request (minute_claim 60000)])"
    using race_submit [of "?go Tick (?go Tick ?s0)" False _ None "[]" _ "[]" "[]" 0 ce] 1(2) by simp
  obtain st' where 3: "race_view (?go (TaskTurn 0) (?go (TaskTurn 0) (?go Tick (?go Tick ?s0)))) = (True, FileState (persisted st), None,
      [TaskSaving st' (TaskSubmitted (minute_claim 60000) ''r'')], [slot_request (minute_claim 60000)])"
    "demo_at 120000 {60000} (persisted st')" "length (slots (persisted st')) = length (slots (persisted st))"
    by (rule race_update [where s = "?go (TaskTurn 0) (?go Tick (?go Tick ?s0))" and ts = "[]" and us = "[]" and i = 0 and ce = ce])
      (use 2 1(3) in auto)
  have t: "sd_tasks ?s0 = []" "sd_tasks (?go Tick ?s0) = []"
    using race_start_view [of reg] 1(1) by (simp_all add: race_view_def sd_core_def)
  show thesis
    by (rule that [OF _ _ 3(1) 1(3,4) 3(2)]) (use 1(4) 3(3) t in simp_all)
qed

text \<open>
  Without the restriction of \<open>no_run_submitted_twice\<close> a run is submitted twice. The first slot's task has submitted
  its run and is about to record that; the state it has changed is from before the next scan. The scan claims the second slot and writes
  its claim, and the slot's run is submitted. Then the task writes, and the claim is gone from the file: the next scan
  claims the slot again, and the run with the same id is submitted a second time.
\<close>

theorem lost_claim_resubmits:
  "sd_trace (scheduler_events (race_env ce) [Tick, Tick, TaskTurn 0, TaskTurn 0, Tick, Tick, TaskTurn 1, TaskTurn 0, Tick, Tick,
       TaskTurn 2] (race_start reg)) = map (slot_request \<circ> minute_claim) [60000, 120000, 120000] \<and>
   \<not> distinct (map sr_run_id (map (slot_request \<circ> minute_claim) [60000, 120000, 120000]))"
proof -
  let ?go = "scheduler_step (race_env ce)" and ?saving = "\<lambda>st'. TaskSaving st' (TaskSubmitted (minute_claim 60000) ''r'')"
  let ?evs = "[Tick, Tick, TaskTurn 1, TaskTurn 0, Tick, Tick, TaskTurn 2]"
  obtain s st st' where 0: "scheduler_events (race_env ce) ([Tick, Tick, TaskTurn 0, TaskTurn 0] @ ?evs) (race_start reg) =
      scheduler_events (race_env ce) ?evs s"
    "race_view s = (True, FileState st, None, [?saving st'], [slot_request (minute_claim 60000)])"
    "demo_at 120000 {60000} st" "length (slots st) = 1" "demo_at 120000 {60000} (persisted st')" "length (slots (persisted st')) = 1"
    by (rule race_first_run [of ce ?evs reg])
  obtain st2 where 1: "race_view (?go Tick (?go Tick s)) = (True, FileState (persisted st2), None,
      [?saving st', TaskSubmit (minute_claim 120000)], [slot_request (minute_claim 60000)])"
    by (rule race_claim [OF 0(2,3), of ce]) (use 0(4) in auto)
  have 2: "race_view (?go (TaskTurn 1) (?go Tick (?go Tick s))) = (True, FileState (persisted st2), None,
      [?saving st', TaskSubmitted (minute_claim 120000) ''r''], map (slot_request \<circ> minute_claim) [60000, 120000])"
    using race_submit [of "?go Tick (?go Tick s)" True _ None "[?saving st']" _ "[]" _ 1 ce] 1 by simp
  have 3: "race_view (?go (TaskTurn 0) (?go (TaskTurn 1) (?go Tick (?go Tick s)))) = (True, FileState (persisted st'), None,
      [TaskWait (minute_claim 60000) ''r'', TaskSubmitted (minute_claim 120000) ''r''], map (slot_request \<circ> minute_claim) [60000, 120000])"
    using race_finish_update [of "?go (TaskTurn 1) (?go Tick (?go Tick s))" True _ None "[]" st' _ _ _ _ 0 ce] 2 by simp
  let ?s3 = "?go (TaskTurn 0) (?go (TaskTurn 1) (?go Tick (?go Tick s)))"
  obtain st4 where 4: "race_view (?go Tick (?go Tick ?s3)) = (True, FileState (persisted st4), None,
      [TaskWait (minute_claim 60000) ''r'', TaskSubmitted (minute_claim 120000) ''r''] @ [TaskSubmit (minute_claim 120000)],
      map (slot_request \<circ> minute_claim) [60000, 120000])"
    by (rule race_claim [OF 3 0(5), of ce]) (use 0(6) in auto)
  have "race_view (?go (TaskTurn 2) (?go Tick (?go Tick ?s3))) = (True, FileState (persisted st4), None,
      [TaskWait (minute_claim 60000) ''r'', TaskSubmitted (minute_claim 120000) ''r''] @ [TaskSubmitted (minute_claim 120000) ''r''],
      map (slot_request \<circ> minute_claim) [60000, 120000] @ [slot_request (minute_claim 120000)])"
    by (rule race_submit [OF 4]) simp
  then show ?thesis using 0(1) by (simp add: race_view_def sd_core_def)
qed

text \<open>With the update written before the claim, the two runs are different.\<close>

theorem no_run_submitted_twice_witness:
  "\<forall>ce reg. (let tr = sd_trace (scheduler_events (race_env ce) [Tick, Tick, TaskTurn 0, TaskTurn 0, Tick, TaskTurn 0, Tick, TaskTurn 1]
       (race_start reg)) in tr = map (slot_request \<circ> minute_claim) [60000, 120000] \<and> distinct (map sr_run_id tr))"
proof (intro allI)
  fix ce reg
  let ?go = "scheduler_step (race_env ce)" and ?saving = "\<lambda>st'. TaskSaving st' (TaskSubmitted (minute_claim 60000) ''r'')"
  let ?evs = "[Tick, TaskTurn 0, Tick, TaskTurn 1]" and ?wait = "TaskWait (minute_claim 60000) ''r''"
  let ?all = "[Tick, Tick, TaskTurn 0, TaskTurn 0, Tick, TaskTurn 0, Tick, TaskTurn 1]"
  obtain s st st' where 0: "scheduler_events (race_env ce) ([Tick, Tick, TaskTurn 0, TaskTurn 0] @ ?evs) (race_start reg) =
      scheduler_events (race_env ce) ?evs s"
    "claims_apart (race_env ce) ([Tick, Tick, TaskTurn 0, TaskTurn 0] @ ?evs) (race_start reg) = claims_apart (race_env ce) ?evs s"
    "race_view s = (True, FileState st, None, [?saving st'], [slot_request (minute_claim 60000)])"
    "demo_at 120000 {60000} st" "length (slots st) = 1"
    by (rule race_first_run [of ce ?evs reg])
  obtain st2 where 1: "race_view (?go Tick s) = (True, FileState st, Some (st2, [minute_claim 120000]),
      [?saving st'], [slot_request (minute_claim 60000)])"
    by (rule race_claim [OF 0(3,4), of ce]) (use 0(5) in auto)
  have 2: "race_view (?go (TaskTurn 0) (?go Tick s)) = (True, FileState (persisted st'), Some (st2, [minute_claim 120000]),
      [?wait], [slot_request (minute_claim 60000)])"
    using race_finish_update [of "?go Tick s" True _ _ "[]" st' _ _ "[]" _ 0 ce] 1 by simp
  have 3: "race_view (?go Tick (?go (TaskTurn 0) (?go Tick s))) = (True, FileState (persisted st2), None,
      [?wait] @ [TaskSubmit (minute_claim 120000)], [slot_request (minute_claim 60000)])"
    using race_scan_commit [OF 2, of ce] by simp
  have 4: "race_view (?go (TaskTurn 1) (?go Tick (?go (TaskTurn 0) (?go Tick s)))) = (True, FileState (persisted st2), None,
      [?wait] @ [TaskSubmitted (minute_claim 120000) ''r''], [slot_request (minute_claim 60000)] @ [slot_request (minute_claim 120000)])"
    by (rule race_submit [OF 3]) simp
  have "claims_apart (race_env ce) ?evs s"
    using 0(3) 1 2 3 by (simp add: race_view_def sd_core_def)
  then have apart: "claims_apart (race_env ce) ?all (race_start reg)" using 0(2) by (simp del: claims_apart.simps)
  have "distinct (map sr_run_id (sd_trace (scheduler_events (race_env ce) ?all (race_start reg))))"
    by (rule no_run_submitted_twice [where st = demo_store, OF _ _ _ _ _ _ apart])
      (simp_all add: race_env_def race_start_def demo_store_def clock_ok_def MAX_CRON_SCAN_MINUTES_def MINUTE_MS_def u128_max_def)
  moreover have "sd_trace (scheduler_events (race_env ce) ?all (race_start reg)) = map (slot_request \<circ> minute_claim) [60000, 120000]"
    using 0(1) 4 by (simp add: race_view_def sd_core_def)
  ultimately show "let tr = sd_trace (scheduler_events (race_env ce) ?all (race_start reg)) in
      tr = map (slot_request \<circ> minute_claim) [60000, 120000] \<and> distinct (map sr_run_id tr)"
    by (simp add: Let_def)
qed

subsection \<open>The counters account for every claim\<close>

fun unsettled :: "slot_task \<Rightarrow> nat" where
  "unsettled (TaskReply c body) = 0"
| "unsettled (TaskReplied c failure) = 0"
| "unsettled (TaskSaving st point) = unsettled point"
| "unsettled task = 1"

definition settled :: "scheduler_metrics \<Rightarrow> nat" where
  "settled m = sm_submit_failed_total m + sm_completed_total m + sm_failed_total m + sm_timeout_total m"

text \<open>The points at which a task updates the store, and the only ones an unwritten update belongs to.\<close>

definition saving_ok :: "slot_task \<Rightarrow> bool" where
  "saving_ok t \<longleftrightarrow> (case t of TaskSaving st point \<Rightarrow> store_update point \<noteq> None | _ \<Rightarrow> True)"

definition accounts :: "'w scheduler_run \<Rightarrow> bool" where
  "accounts s \<longleftrightarrow> list_all saving_ok (sd_tasks s) \<and> (sm_claimed_total (sd_metrics s) < u64_max \<longrightarrow>
     sm_claimed_total (sd_metrics s) = settled (sd_metrics s) + sum_list (map unsettled (sd_tasks s)))"

definition balanced :: "slot_task \<Rightarrow> 'w scheduler_run \<Rightarrow> slot_task option \<times> 'w scheduler_run \<Rightarrow> bool" where
  "balanced t s out \<longleftrightarrow> (case out of (n, s1) \<Rightarrow>
     sm_claimed_total (sd_metrics s1) = sm_claimed_total (sd_metrics s) \<and> list_all saving_ok (opt_list n) \<and>
     (settled (sd_metrics s) + unsettled t \<le> u64_max \<longrightarrow>
       settled (sd_metrics s1) + sum_list (map unsettled (opt_list n)) = settled (sd_metrics s) + unsettled t))"

lemma after_update_balanced: "store_update t \<noteq> None \<Longrightarrow> sd_metrics s' = sd_metrics s \<Longrightarrow> balanced t s (after_update t s')"
  by (cases t) (auto simp: balanced_def settled_def sat_add64_def saving_ok_def split: run_outcome.split option.split)

lemma begin_update_balanced:
  assumes "store_update t = Some (c, change)" "unsettled t \<le> 1"
  shows "balanced t s (begin_update env t c change s)"
proof -
  obtain io s1 where 1: "sd_worldly (sc_io env) s = (io, s1)" by fastforce
  obtain now s2 where 2: "sd_worldly (sc_now env) s1 = (now, s2)" by fastforce
  obtain r f where p: "update_prepare io (slot_sid c) (cl_slot_at_ms c) (change now) (sd_file s2) = (r, f)" by fastforce
  have m: "sd_metrics (s2\<lparr>sd_file := f\<rparr>) = sd_metrics s" using sd_worldly_frame [OF 1] sd_worldly_frame [OF 2] by simp
  show ?thesis
  proof (cases r)
    case (Inl e)
    then show ?thesis using 1 2 p after_update_balanced [OF _ m] assms(1) by (simp add: begin_update_def)
  next
    case (Inr st)
    then show ?thesis using 1 2 p m assms(1) by (simp add: begin_update_def balanced_def saving_ok_def)
  qed
qed

lemma task_turn_balanced:
  assumes "saving_ok t"
  shows "balanced t s (task_turn env t s)"
proof (cases t)
  case (TaskSubmit c)
  obtain r s2 where w: "sd_worldly (sc_submit env (slot_request c)) s = (r, s2)" by fastforce
  show ?thesis using TaskSubmit w sd_worldly_frame [OF w]
    by (auto simp: task_turn_def balanced_def saving_ok_def split: sum.split)
next
  case (TaskWait c run_id)
  obtain r s2 where w: "sd_worldly (sc_wait env run_id (slot_wait_ms c)) s = (r, s2)" by fastforce
  show ?thesis using TaskWait w sd_worldly_frame [OF w]
    by (auto simp: task_turn_def balanced_def saving_ok_def split: sum.split)
next
  case (TaskReply c body)
  then show ?thesis
    by (auto simp: task_turn_def deliver_reply_def balanced_def saving_ok_def split: option.split prod.split)
next
  case (TaskSaving st point)
  obtain io s2 where w: "sd_worldly (sc_io env) s = (io, s2)" by fastforce
  have "balanced point s (after_update point (s2\<lparr>sd_file := snd (save_state io st (sd_file s2))\<rparr>))"
    using assms TaskSaving sd_worldly_frame [OF w] by (intro after_update_balanced) (simp_all add: saving_ok_def)
  then show ?thesis using TaskSaving w by (simp add: task_turn_def finish_update_def balanced_def)
qed (use assms in \<open>auto simp: task_turn_def intro!: begin_update_balanced\<close>)

lemma scan_metrics:
  assumes "sd_scan s = Some (st, cl)"
  shows "\<exists>cl'. sd_tasks (scan_turn env s) = sd_tasks s @ map TaskSubmit cl' \<and>
    settled (sd_metrics (scan_turn env s)) = settled (sd_metrics s) \<and>
    (sm_claimed_total (sd_metrics (scan_turn env s)) = sat_add64 (sm_claimed_total (sd_metrics s)) (length cl') \<or>
     cl' = [] \<and> sm_claimed_total (sd_metrics (scan_turn env s)) = sm_claimed_total (sd_metrics s))"
proof -
  have fin: "sd_tasks (mark_scan_finished env x) = sd_tasks x \<and> settled (sd_metrics (mark_scan_finished env x)) = settled (sd_metrics x) \<and>
      sm_claimed_total (sd_metrics (mark_scan_finished env x)) = sm_claimed_total (sd_metrics x)" for x
    using mark_scan_finished_frame [of env x]
    by (auto simp: mark_scan_finished_def sd_core_def settled_def dest!: sd_worldly_frame split: prod.split)
  obtain io s1 where 1: "sd_worldly (sc_io env) s = (io, s1)" by fastforce
  obtain r f where 2: "claim_commit io st cl (sd_file s1) = (r, f)" by fastforce
  show ?thesis
  proof (cases r)
    case (Inl e)
    then show ?thesis using 1 2 assms sd_worldly_frame [OF 1] fin
      by (intro exI [of _ "[]"]) (simp add: scan_turn_def scan_commit_def scan_failed_def Let_def sd_core_def settled_def)
  next
    case (Inr cl')
    then show ?thesis using 1 2 assms sd_worldly_frame [OF 1] fin
      by (intro exI [of _ cl']) (simp add: scan_turn_def scan_commit_def Let_def sd_core_def settled_def)
  qed
qed

lemma scan_begin_metrics:
  assumes "sd_scan s = None"
  shows "sd_tasks (scan_turn env s) = sd_tasks s \<and> settled (sd_metrics (scan_turn env s)) = settled (sd_metrics s) \<and>
    sm_claimed_total (sd_metrics (scan_turn env s)) = sm_claimed_total (sd_metrics s)"
  using assms
  by (auto simp: scan_turn_def scan_begin_def scan_failed_def mark_scan_finished_def Let_def sd_core_def settled_def
      dest!: sd_worldly_frame split: prod.split sum.split)

text \<open>
  Every slot the scheduler claims is counted once, under one outcome: while the number of claims is below
  the limit of its counter, it is the number of runs whose submission failed, that completed, failed or
  timed out, and of those whose task has not got there yet.
\<close>

theorem claims_accounted:
  assumes "accounts s"
  shows "accounts (scheduler_events env evs s)"
  using assms
proof (induction evs arbitrary: s)
  case (Cons ev evs)
  have "accounts (scheduler_step env ev s)"
  proof (cases ev)
    case Tick
    have sub: "sum_list (map unsettled (map TaskSubmit cl)) = length cl \<and> list_all saving_ok (map TaskSubmit cl)" for cl
      by (induction cl) (simp_all add: saving_ok_def)
    show ?thesis
    proof (cases "sd_scan s")
      case None
      then show ?thesis using scan_begin_metrics [OF None, of env] Cons.prems Tick
        by (simp add: accounts_def scheduler_step_def)
    next
      case (Some p)
      then obtain cl where "sd_tasks (scan_turn env s) = sd_tasks s @ map TaskSubmit cl"
        "settled (sd_metrics (scan_turn env s)) = settled (sd_metrics s)"
        "sm_claimed_total (sd_metrics (scan_turn env s)) = sat_add64 (sm_claimed_total (sd_metrics s)) (length cl) \<or>
          cl = [] \<and> sm_claimed_total (sd_metrics (scan_turn env s)) = sm_claimed_total (sd_metrics s)"
        using scan_metrics [of s "fst p" "snd p" env] by auto
      then show ?thesis using Cons.prems Tick sub [of cl]
        by (auto simp: accounts_def scheduler_step_def sat_add64_def min_def split: if_splits)
    qed
  next
    case (TaskTurn i)
    show ?thesis
    proof (cases "i < length (sd_tasks s)")
      case True
      let ?t = "sd_tasks s ! i"
      obtain n s1 where turn: "task_turn env ?t s = (n, s1)" by fastforce
      have split_tasks: "sd_tasks s = take i (sd_tasks s) @ ?t # drop (Suc i) (sd_tasks s)" by (rule id_take_nth_drop [OF True])
      have sum: "sum_list (map unsettled (sd_tasks s)) = sum_list (map unsettled (take i (sd_tasks s))) + unsettled ?t +
          sum_list (map unsettled (drop (Suc i) (sd_tasks s)))"
        by (subst split_tasks) simp
      have ok: "list_all saving_ok (take i (sd_tasks s))" "saving_ok ?t" "list_all saving_ok (drop (Suc i) (sd_tasks s))"
        using Cons.prems True by (auto simp: accounts_def list_all_iff dest: in_set_takeD in_set_dropD)
      have step: "scheduler_step env ev s = s1\<lparr>sd_tasks := take i (sd_tasks s) @ opt_list n @ drop (Suc i) (sd_tasks s)\<rparr>"
        using True turn TaskTurn by (simp add: scheduler_step_def opt_list_def)
      have "balanced ?t s (n, s1)" using task_turn_balanced [OF ok(2), of s env] turn by simp
      then show ?thesis
        unfolding accounts_def step using Cons.prems sum ok by (auto simp: accounts_def balanced_def)
    qed (use Cons.prems TaskTurn in \<open>simp add: scheduler_step_def\<close>)
  qed
  then show ?case using Cons.IH by simp
qed simp

subsection \<open>Texts and errors\<close>

text \<open>What is stored and sent of a run has at most 512 characters, and is never blank.\<close>

theorem join_payloads_bounds: "length (join_payloads payloads) \<le> 512" "join_payloads payloads \<noteq> []"
  by (auto simp: join_payloads_def truncate_text_def truncate_chars_def OUTCOME_PREVIEW_MAX_LEN_def Let_def)

text \<open>An error while waiting for a run that was submitted is recorded as a failure to submit it.\<close>

theorem wait_error_counts_as_submit_failure:
  assumes "sd_worldly (sc_wait env run_id (slot_wait_ms c)) s = (Inl err, s1)" "task_turn env (TaskWait c run_id) s = (Some t, s2)"
  shows "t = TaskSubmitFailed c (show_error err)"
    "sm_submit_failed_total (sd_metrics (snd (after_update t s2))) = inc64 (sm_submit_failed_total (sd_metrics s))"
  using assms sd_worldly_frame [OF assms(1)] by (auto simp: task_turn_def)

end
