(* ===== verification/Spec2Isabelle.thy ===== *)
theory Spec2Isabelle
  imports Core_Runtime Plugin_Sdk Model_Profile Brain Scheduler_Store Commands Channel_Ingest Gateway_Server Plugin_Calls Memory_Client Memory_Providers Toolpack Ingress_Sockets Gateway_Scheduler
begin

section \<open>Verification of KelvinClaw\<close>

text \<open>
  \<^bold>\<open>The program.\<close> KelvinClaw is a runtime for AI agents written in Rust. A client or a chat channel submits a
  prompt to the gateway (\<open>src/apps/kelvin-gateway\<close>); the gateway hands it to the core runtime
  (\<open>src/crates/kelvin-core\<close>), which queues runs in a lane per session and a bounded global lane; the agent loop
  (\<open>src/crates/kelvin-brain\<close>) drives a model and its tools, which come from plugins admitted by the registries of
  the SDK; a scheduler (\<open>src/crates/kelvin-sdk/src/scheduler\<close>) submits prompts on cron schedules.

  \<^bold>\<open>Theories and the code they model.\<close>
  \<^item> \<^theory_text>\<open>Kelvin_Prelude\<close>: \<open>kelvin-core/src/error.rs\<close>; the strings, numbers and effects of Rust that the
    other theories share; reachability and the locale \<open>invariant_system\<close>.
  \<^item> \<^theory_text>\<open>Core_Types\<close>: the data of \<open>kelvin-core/src/{brain,sessions,events,tools}.rs\<close>; JSON values.
  \<^item> \<^theory_text>\<open>Core_Runtime\<close>: \<open>kelvin-core/src/runtime.rs\<close>. \<open>CoreRuntime\<close> is a record, the tasks it spawns
    are program counters, and \<open>task_step\<close>, \<open>wait_step\<close> and \<open>core_step\<close> interleave them at their awaits.
  \<^item> \<^theory_text>\<open>Registry_Spec\<close>, \<^theory_text>\<open>Plugin_Sdk\<close>: \<open>kelvin-core/src/{sdk,consts,tools}.rs\<close>: manifests, policy, the plugin
    registry and the tool and model registries built from it, as instances of the locale of a registry.
  \<^item> \<^theory_text>\<open>Model_Profile\<close>: \<open>kelvin-core/src/model.rs\<close>.
  \<^item> \<^theory_text>\<open>Tool_Loop\<close>, \<^theory_text>\<open>Brain\<close>: \<open>kelvin-brain/src/{tool_loop_detector,kelvin_brain,system_prompt}.rs\<close>. The
    brain is effectful code over an environment, with a trace of its calls.
  \<^item> \<^theory_text>\<open>Cron\<close>, \<^theory_text>\<open>Scheduler_Store\<close>: \<open>kelvin-sdk/src/scheduler/{cron,mod,store,persistence}.rs\<close>.
  \<^item> \<^theory_text>\<open>Commands\<close>: \<open>kelvin-commands/src/lib.rs\<close>.
  \<^item> \<^theory_text>\<open>Channel_Routing\<close>, \<^theory_text>\<open>Channel_Config\<close>, \<^theory_text>\<open>Channel_Adapter\<close>, \<^theory_text>\<open>Channel_Ingest\<close>:
    \<open>kelvin-gateway/src/channels.rs\<close> and its limits in \<open>consts.rs\<close>: the routing table, the configuration, the adapter of a
    channel (pairing, deduplication, rate limits, outbound delivery, persistence), the ingest handler and the engine.
  \<^item> \<^theory_text>\<open>Bounded_Memory\<close>: the contract of a bounded first-in-first-out memory, a locale that the seen deliveries of a
    channel, the idempotency cache and the failed logins of the gateway are instances of.
  \<^item> \<^theory_text>\<open>Sliding_Window\<close>: rate limits by a window of instants, shared by the channels, the installed tools and the model providers.
  \<^item> \<^theory_text>\<open>Gateway_Guards\<close>, \<^theory_text>\<open>Gateway_Server\<close>: \<open>kelvin-gateway/src/lib.rs\<close>: the security profile, tokens, failed
    logins, idempotency; slash commands, submission, the dispatch of requests and a connection from handshake to end.
  \<^item> \<^theory_text>\<open>Plugin_Package\<close>, \<^theory_text>\<open>Plugin_Trust\<close>, \<^theory_text>\<open>Provider_Response\<close>, \<^theory_text>\<open>Plugin_Calls\<close>: \<open>kelvin-brain/src/installed_plugins.rs\<close> and the
    policies of \<open>kelvin-wasm\<close>: packages and their declared scopes, trust and loading, the responses of model providers, and
    calls under the operational controls.
  \<^item> \<^theory_text>\<open>Memory_Controller\<close>, \<^theory_text>\<open>Memory_Client\<close>: \<open>kelvin-memory-{api,controller,client,module-sdk}\<close>: the service with its
    tokens, replay and idempotency caches, and the manager that calls it.
  \<^item> \<^theory_text>\<open>Sdk_Sessions\<close>, \<^theory_text>\<open>Sdk_Runtime\<close>: \<open>kelvin-sdk/src/lib.rs\<close>: sessions and run records on disk, the runtime's
    configuration, the failover chain of models, submission and waiting.
  \<^item> \<^theory_text>\<open>Memory_Providers\<close>: \<open>kelvin-memory\<close>: the markdown, in-memory and fallback managers.
  \<^item> \<^theory_text>\<open>Tool_Files\<close>, \<^theory_text>\<open>Toolpack\<close>: \<open>kelvin-sdk/src/toolpack.rs\<close>: the five built-in tools and their loading.
  \<^item> \<^theory_text>\<open>Ingress_Config\<close>, \<^theory_text>\<open>Gateway_Ingress\<close>, \<^theory_text>\<open>Ingress_Sockets\<close>: \<open>kelvin-gateway/src/ingress\<close>: configuration and routes, the
    four webhooks, the Telegram poller and the Discord socket.
  \<^item> \<^theory_text>\<open>Gateway_Scheduler\<close>: \<open>kelvin-gateway/src/scheduler.rs\<close>: the scan and the tasks of slots, interleaved.
    The store changes its state under its lock and writes the file after releasing it, so the two halves are separate turns.
\<close>

text \<open>
  \<^bold>\<open>How the model corresponds to the code.\<close> A struct is a record, an enum a datatype, \<open>Result\<close> the sum with \<open>Inl\<close> for
  \<open>Err\<close>, a map a partial function or, where the order or duplicates matter, a list. Code that mutates \<open>self\<close> is a
  function on the state that returns a result and a state, also when it fails. What the code calls outside itself is an
  argument: the clock, the file system, the model, the tools, the HTTP client, serde's decoders, semver and chrono.
  Concurrency is written out where the code has it: the lanes and waiters of the core runtime, the two halves of a store
  operation in the scheduler's scan and tasks, two submissions or many logins at once, the calls of a plugin, the tasks a
  webhook spawns. \<^theory_text>\<open>Scheduler_Store\<close> and \<^theory_text>\<open>Sdk_Sessions\<close> also have theorems on operations that do not overlap; they
  say so, and the schedules that break them without that are theorems or findings. Elsewhere an operation is atomic because
  the code holds a lock around it.

  \<^bold>\<open>Loops, bounds and fuel.\<close> \<open>mark_range\<close> steps with fuel of one more than the width of the field, which no step of at
  least one can exceed (\<open>mark_range_fuel\<close>); \<open>cron_scan\<close> has the scan window of the code, \<open>MAX_CRON_SCAN_MINUTES\<close>, as its
  argument; the agent loop counts its iterations as the code does; \<open>process_inbox\<close> terminates by the length of the
  inbox; that the lanes drain is proved by a measure on the tasks (\<open>tasks_drain\<close>). Saturating and wrapping arithmetic is
  written with its bounds; counters of 64 bits wrap at \<open>2 ^ 64\<close>.

  \<^bold>\<open>What the lemmas show.\<close> Core runtime: at most one run per session and the bound of the global lane, final outcomes, progress, and
  the schedule on which a waiter misses its notification. Plugins: a plugin is registered exactly if it is admissible.
  Brain: bounded inferences, the shape of the event stream and the report of every tool call. Scheduler: the slot search
  is the earliest match; no slot is claimed twice by operations that do not overlap, and no run is submitted twice when no
  claim is written between the halves of another update; the overlaps that double a claim or a submission. Channels: what
  an executed message has passed, at the clock that was read, deduplication and rate limits over whole histories,
  persistence. Gateway: exposure, login before requests, spacing of wrong tokens, idempotent submission, and the races that
  break the last two. Installed plugins: a loaded plugin has passed every check, calls stay in their scope and budget, and
  provider responses round-trip. Memory: access only under a token that grants it, a token or request id sent again, the
  client reads what it wrote, and the fallback switches once. SDK: a reload restores the sessions, the exact result of
  failover. Tools: writes and fetches stay in bounds, and a path that reads a denied file. Ingress: a configuration that is
  built is well formed, and each authentic message is ingested once.
\<close>

text \<open>
  \<^bold>\<open>Not modelled.\<close> The command line, the terminal interface, the host and registry servers and the bundled plugins
  (\<open>kelvin-cli\<close>, \<open>kelvin-tui\<close>, \<open>kelvin-host\<close>, \<open>kelvin-registry\<close>, \<open>src/plugins\<close>): processes, terminals, downloads and HTTP
  servers. The WebAssembly hosts of \<open>kelvin-wasm\<close>: they consist of calls of wasmtime. The skill tool of \<open>kelvin-brain\<close> and
  the operator's status reports. The bytes on disk and on the wire: parsers and printers are serde's. The timer that sends
  heartbeats to Discord.

  \<^bold>\<open>Idealisations.\<close> The file tree of \<^theory_text>\<open>Tool_Files\<close> has no symbolic links. A digest that names a session directory is
  injective where \<^theory_text>\<open>Sdk_Sessions\<close> assumes it. \<open>ig_ingested\<close> of \<^theory_text>\<open>Gateway_Ingress\<close> is a log written beside each call of
  \<open>engine_ingest\<close>; no decision reads it, and \<open>ingests\<close> ties it to what became of the channels.
\<close>

end
